(* ===== verification/ZkPrelude.thy ===== *)
theory ZkPrelude
  imports Main "HOL-Library.Word" "HOL-Library.Monad_Syntax"
begin

text \<open>
  Shared vocabulary of the development: the C machine the client runs on (integer ranges,
  conversions to \<^verbatim>\<open>size_t\<close>, the byte order of the host, the allocator), bytes and C strings,
  the network byte order codecs, and the generic list, option and word lemmas the components use.

  Conventions of every theory:
  \<^item> a C function that can hit undefined behaviour, a failing \<^verbatim>\<open>assert\<close>, \<^verbatim>\<open>abort()\<close> or an endless
    loop has an \<open>option\<close> result, and \<open>None\<close> stands for exactly these outcomes; error codes are
    ordinary values (\<open>int\<close>) inside \<open>Some\<close>;
  \<^item> \<^verbatim>\<open>char\<close> data is \<open>char list\<close> (a byte is a HOL \<open>char\<close>), a nullable pointer is an option;
  \<^item> wire integers are words, C \<^verbatim>\<open>int\<close> arithmetic is on \<open>int\<close> with the range written out.
\<close>

named_theorems zk_simps "definitions that component proofs unfold together"
named_theorems oa_writes_intros "serialisers and the bytes they append"
named_theorems ia_reads_intros "deserialisers and the bytes they consume"

type_synonym bytes = "char list"
type_synonym cstr = "char list option"
type_synonym i32 = "32 word"
type_synonym i64 = "64 word"

section \<open>The C machine\<close>

abbreviation NUL :: char where "NUL \<equiv> CHR 0x00"

abbreviation (input) INT_MAX :: int where "INT_MAX \<equiv> 2147483647"
abbreviation (input) INT_MIN :: int where "INT_MIN \<equiv> - 2147483648"

definition c_int :: "int \<Rightarrow> int option" where
  \<comment> \<open>the value of a signed \<^verbatim>\<open>int\<close> expression: undefined when it overflows\<close>
  "c_int n = (if INT_MIN \<le> n \<and> n \<le> INT_MAX then Some n else None)"

definition to_size :: "int \<Rightarrow> int" where
  \<comment> \<open>conversion of an \<^verbatim>\<open>int\<close> to the unsigned 64 bit \<^verbatim>\<open>size_t\<close>\<close>
  "to_size n = n mod 2 ^ 64"

definition to_int32 :: "int \<Rightarrow> int" where
  \<comment> \<open>conversion of a wider integer to \<^verbatim>\<open>int32_t\<close>\<close>
  "to_int32 n = sint (word_of_int n :: i32)"

definition c_assert :: "bool \<Rightarrow> unit option" where
  "c_assert b = (if b then Some () else None)"

definition schar :: "char \<Rightarrow> int" where
  \<comment> \<open>the value of a (signed) C \<^verbatim>\<open>char\<close>\<close>
  "schar c = (let n = (of_char c :: int) in if n < 128 then n else n - 256)"

text \<open>
  The host: its byte order, and an allocator that grants or refuses a request for so many bytes.
  \<open>extends\<close> says whether \<^verbatim>\<open>realloc\<close> can still enlarge a block to so many bytes after \<^verbatim>\<open>malloc\<close> refused them.
\<close>

record host =
  grants :: "int \<Rightarrow> bool"
  extends :: "int \<Rightarrow> bool"
  big_endian :: bool

lemma c_int_eq_Some [simp]: "c_int n = Some m \<longleftrightarrow> m = n \<and> INT_MIN \<le> n \<and> n \<le> INT_MAX"
  by (auto simp: c_int_def)

lemma c_int_in_range [simp]: "INT_MIN \<le> n \<Longrightarrow> n \<le> INT_MAX \<Longrightarrow> c_int n = Some n"
  by (simp add: c_int_def)

lemma c_assert_simps [simp]: "c_assert True = Some ()" "c_assert False = None"
  by (simp_all add: c_assert_def)

lemma c_assert_eq_Some [simp]: "c_assert b = Some u \<longleftrightarrow> b"
  by (simp add: c_assert_def)

lemma to_size_id [simp]: "0 \<le> n \<Longrightarrow> n < 2 ^ 64 \<Longrightarrow> to_size n = n"
  by (simp add: to_size_def)

lemma to_size_nonneg [simp]: "0 \<le> to_size n"
  by (simp add: to_size_def)

lemma to_size_neg: "n < 0 \<Longrightarrow> - (2 ^ 64) \<le> n \<Longrightarrow> to_size n = n + 2 ^ 64"
proof -
  assume "n < 0" and "- (2 ^ 64) \<le> n"
  then have "(n + 2 ^ 64) mod 2 ^ 64 = n + 2 ^ 64" by (intro mod_pos_pos_trivial) auto
  then show ?thesis by (simp add: to_size_def)
qed

lemma to_int32_id: "INT_MIN \<le> n \<Longrightarrow> n \<le> INT_MAX \<Longrightarrow> to_int32 n = n"
  by (simp add: to_int32_def signed_of_int signed_take_bit_int_eq_self)

lemma to_int32_range: "INT_MIN \<le> to_int32 n \<and> to_int32 n \<le> INT_MAX"
  using sint_ge [of "word_of_int n :: i32"] sint_lt [of "word_of_int n :: i32"]
  by (simp add: to_int32_def)

lemma sint_word_of_int32: "INT_MIN \<le> n \<Longrightarrow> n \<le> INT_MAX \<Longrightarrow> sint (word_of_int n :: i32) = n"
  using to_int32_id by (simp add: to_int32_def)

lemma sint32_range: "INT_MIN \<le> sint (w :: i32)" "sint (w :: i32) \<le> INT_MAX"
  using sint_ge [of w] sint_lt [of w] by simp_all

lemma option_eqI: "(\<And>v. x = Some v \<longleftrightarrow> y = Some v) \<Longrightarrow> x = y"
  by (cases x; cases y) auto

section \<open>Return codes and errno values\<close>

abbreviation (input) ZOK :: int where "ZOK \<equiv> 0"
abbreviation (input) ZSYSTEMERROR :: int where "ZSYSTEMERROR \<equiv> - 1"
abbreviation (input) ZRUNTIMEINCONSISTENCY :: int where "ZRUNTIMEINCONSISTENCY \<equiv> - 2"
abbreviation (input) ZDATAINCONSISTENCY :: int where "ZDATAINCONSISTENCY \<equiv> - 3"
abbreviation (input) ZCONNECTIONLOSS :: int where "ZCONNECTIONLOSS \<equiv> - 4"
abbreviation (input) ZMARSHALLINGERROR :: int where "ZMARSHALLINGERROR \<equiv> - 5"
abbreviation (input) ZUNIMPLEMENTED :: int where "ZUNIMPLEMENTED \<equiv> - 6"
abbreviation (input) ZOPERATIONTIMEOUT :: int where "ZOPERATIONTIMEOUT \<equiv> - 7"
abbreviation (input) ZBADARGUMENTS :: int where "ZBADARGUMENTS \<equiv> - 8"
abbreviation (input) ZINVALIDSTATE :: int where "ZINVALIDSTATE \<equiv> - 9"
abbreviation (input) ZNONODE :: int where "ZNONODE \<equiv> - 101"
abbreviation (input) ZSESSIONEXPIRED :: int where "ZSESSIONEXPIRED \<equiv> - 112"
abbreviation (input) ZAUTHFAILED :: int where "ZAUTHFAILED \<equiv> - 115"
abbreviation (input) ZCLOSING :: int where "ZCLOSING \<equiv> - 116"
abbreviation (input) ZNOTHING :: int where "ZNOTHING \<equiv> - 117"
abbreviation (input) ZNOWATCHER :: int where "ZNOWATCHER \<equiv> - 121"

abbreviation (input) ENOMEM :: int where "ENOMEM \<equiv> 12"
abbreviation (input) E2BIG :: int where "E2BIG \<equiv> 7"
abbreviation (input) EINVAL :: int where "EINVAL \<equiv> 22"

section \<open>Network byte order\<close>

text \<open>
  \<open>be32\<close> and \<open>be64\<close> are the big-endian images of a word, \<open>host32\<close> and \<open>host64\<close> the bytes a word
  occupies in the host's memory; \<open>of_be32\<close>, \<open>of_be64\<close>, \<open>of_host32\<close>, \<open>of_host64\<close> read them back.
\<close>

fun be_bytes :: "nat \<Rightarrow> nat \<Rightarrow> bytes" where
  "be_bytes 0 n = []"
| "be_bytes (Suc k) n = be_bytes k (n div 256) @ [char_of n]"

fun be_value :: "bytes \<Rightarrow> nat" where
  "be_value [] = 0"
| "be_value (c # cs) = of_char c * 256 ^ length cs + be_value cs"

definition be32 :: "i32 \<Rightarrow> bytes" where
  "be32 w = be_bytes 4 (unat w)"

definition be64 :: "i64 \<Rightarrow> bytes" where
  "be64 w = be_bytes 8 (unat w)"

definition of_be32 :: "bytes \<Rightarrow> i32" where
  "of_be32 bs = of_nat (be_value bs)"

definition of_be64 :: "bytes \<Rightarrow> i64" where
  "of_be64 bs = of_nat (be_value bs)"

definition host32 :: "host \<Rightarrow> i32 \<Rightarrow> bytes" where
  "host32 E w = (if big_endian E then be32 w else rev (be32 w))"

definition host64 :: "host \<Rightarrow> i64 \<Rightarrow> bytes" where
  "host64 E w = (if big_endian E then be64 w else rev (be64 w))"

definition of_host32 :: "host \<Rightarrow> bytes \<Rightarrow> i32" where
  "of_host32 E bs = of_be32 (if big_endian E then bs else rev bs)"

definition of_host64 :: "host \<Rightarrow> bytes \<Rightarrow> i64" where
  "of_host64 E bs = of_be64 (if big_endian E then bs else rev bs)"

definition htonl :: "host \<Rightarrow> i32 \<Rightarrow> i32" where
  \<comment> \<open>\<^verbatim>\<open>htonl\<close> and \<^verbatim>\<open>ntohl\<close> of the C library: the word whose memory image is the network image\<close>
  "htonl E w = of_host32 E (be32 w)"

abbreviation ntohl :: "host \<Rightarrow> i32 \<Rightarrow> i32" where
  "ntohl \<equiv> htonl"

lemma of_char_less: "(of_char c :: nat) < 256"
  by (metis of_char_mod_256 mod_less_divisor zero_less_numeral)

lemma unat_less: "unat (w :: 'a::len word) < 2 ^ LENGTH('a)"
  by (rule unsigned_less)

lemma length_be_bytes [simp]: "length (be_bytes k n) = k"
  by (induction k arbitrary: n) auto

lemma length_be32 [simp]: "length (be32 w) = 4"
  by (simp add: be32_def)

lemma length_be64 [simp]: "length (be64 w) = 8"
  by (simp add: be64_def)

lemma length_host32 [simp]: "length (host32 E w) = 4"
  by (simp add: host32_def)

lemma length_host64 [simp]: "length (host64 E w) = 8"
  by (simp add: host64_def)

lemma be_value_append: "be_value (xs @ ys) = be_value xs * 256 ^ length ys + be_value ys"
  by (induction xs) (auto simp: algebra_simps power_add)

lemma be_value_less: "be_value bs < 256 ^ length bs"
proof (induction bs)
  case (Cons c cs)
  have "(of_char c :: nat) \<le> 255" using of_char_less [of c] by linarith
  then have "of_char c * 256 ^ length cs \<le> 255 * (256 ^ length cs :: nat)" by (rule mult_le_mono1)
  with Cons have "of_char c * 256 ^ length cs + be_value cs < 256 * (256 ^ length cs :: nat)" by linarith
  then show ?case by simp
qed simp

lemma be_value_be_bytes: "be_value (be_bytes k n) = n mod 256 ^ k"
proof (induction k arbitrary: n)
  case (Suc k)
  have "be_value (be_bytes (Suc k) n) = (n div 256) mod 256 ^ k * 256 + n mod 256"
    by (simp add: be_value_append Suc)
  also have "\<dots> = n mod 256 ^ Suc k"
    by (simp add: mod_mult2_eq)
  finally show ?case .
qed simp

lemma be_bytes_be_value: "length bs = k \<Longrightarrow> be_bytes k (be_value bs) = bs"
proof (induction k arbitrary: bs)
  case (Suc k)
  then obtain xs x where bs: "bs = xs @ [x]" and len: "length xs = k"
    by (metis length_Suc_conv_rev)
  have "be_value bs = be_value xs * 256 + of_char x"
    by (simp add: bs be_value_append)
  moreover have "(of_char x :: nat) < 256" by (rule of_char_less)
  ultimately have "be_value bs div 256 = be_value xs" "be_value bs mod 256 = of_char x"
    by simp_all
  moreover have "char_of (be_value bs) = char_of (be_value bs mod 256)"
    by simp
  ultimately show ?case by (simp add: bs Suc.IH [OF len])
qed simp

lemma of_be32_be32 [simp]: "of_be32 (be32 w) = w"
proof -
  have "unat w < 256 ^ 4" using unat_less [of w] by simp
  then show ?thesis by (simp add: of_be32_def be32_def be_value_be_bytes)
qed

lemma of_be64_be64 [simp]: "of_be64 (be64 w) = w"
proof -
  have "unat w < 256 ^ 8" using unat_less [of w] by simp
  then show ?thesis by (simp add: of_be64_def be64_def be_value_be_bytes)
qed

lemma be32_of_be32: "length bs = 4 \<Longrightarrow> be32 (of_be32 bs) = bs"
proof -
  assume len: "length bs = 4"
  then have "be_value bs < 2 ^ 32" using be_value_less [of bs] by simp
  then have "unat (of_be32 bs) = be_value bs"
    by (simp add: of_be32_def unat_of_nat)
  then show ?thesis by (simp add: be32_def be_bytes_be_value len)
qed

lemma be64_of_be64: "length bs = 8 \<Longrightarrow> be64 (of_be64 bs) = bs"
proof -
  assume len: "length bs = 8"
  then have "be_value bs < 2 ^ 64" using be_value_less [of bs] by simp
  then have "unat (of_be64 bs) = be_value bs"
    by (simp add: of_be64_def unat_of_nat)
  then show ?thesis by (simp add: be64_def be_bytes_be_value len)
qed

lemma of_host32_host32 [simp]: "of_host32 E (host32 E w) = w"
  by (simp add: of_host32_def host32_def)

lemma of_host64_host64 [simp]: "of_host64 E (host64 E w) = w"
  by (simp add: of_host64_def host64_def)

lemma host32_of_host32: "length bs = 4 \<Longrightarrow> host32 E (of_host32 E bs) = bs"
  by (simp add: of_host32_def host32_def be32_of_be32)

lemma host64_of_host64: "length bs = 8 \<Longrightarrow> host64 E (of_host64 E bs) = bs"
  by (simp add: of_host64_def host64_def be64_of_be64)

lemma host32_htonl [simp]: "host32 E (htonl E w) = be32 w"
  by (simp add: htonl_def host32_of_host32)

lemma ntohl_of_host32: "length bs = 4 \<Longrightarrow> ntohl E (of_host32 E bs) = of_be32 bs"
  by (cases "big_endian E") (simp_all add: htonl_def of_host32_def be32_of_be32)

lemma be32_eq_iff [simp]: "be32 v = be32 w \<longleftrightarrow> v = w"
  by (metis of_be32_be32)

lemma be64_eq_iff [simp]: "be64 v = be64 w \<longleftrightarrow> v = w"
  by (metis of_be64_be64)

lemma be32_unfold:
  "be32 w = [char_of (unat w div 256 div 256 div 256), char_of (unat w div 256 div 256),
     char_of (unat w div 256), char_of (unat w)]"
proof -
  have four: "(4::nat) = Suc (Suc (Suc (Suc 0)))" by simp
  show ?thesis unfolding be32_def four be_bytes.simps by simp
qed

lemma char_of_eq_char_of: "char_of (m :: nat) = char_of n \<longleftrightarrow> m mod 256 = n mod 256"
  by (metis char_of_mod_256 of_char_of)

section \<open>Memory blocks\<close>

text \<open>
  A heap block is its list of bytes, a possibly null pointer to one an option. Reading or writing
  outside the block is undefined.
\<close>

definition mem_write :: "bytes option \<Rightarrow> int \<Rightarrow> bytes \<Rightarrow> bytes option" where
  "mem_write b off src =
     (case b of None \<Rightarrow> None
      | Some xs \<Rightarrow>
          if 0 \<le> off \<and> off + int (length src) \<le> int (length xs)
          then Some (take (nat off) xs @ src @ drop (nat off + length src) xs) else None)"

definition mem_read :: "bytes option \<Rightarrow> int \<Rightarrow> int \<Rightarrow> bytes option" where
  "mem_read b off n =
     (case b of None \<Rightarrow> None
      | Some xs \<Rightarrow>
          if 0 \<le> off \<and> 0 \<le> n \<and> off + n \<le> int (length xs)
          then Some (take (nat n) (drop (nat off) xs)) else None)"

definition realloc_block :: "bytes option \<Rightarrow> int \<Rightarrow> bytes" where
  \<comment> \<open>the contents after a granted \<^verbatim>\<open>realloc\<close>; the added bytes are indeterminate in C and are never
      read before they are written\<close>
  "realloc_block b n =
     (let xs = (case b of None \<Rightarrow> [] | Some xs \<Rightarrow> xs)
      in take (nat n) xs @ replicate (nat n - length xs) NUL)"

lemma length_realloc_block [simp]: "length (realloc_block b n) = nat n"
  by (simp add: realloc_block_def Let_def)

lemma take_realloc_block:
  "k \<le> length xs \<Longrightarrow> k \<le> nat n \<Longrightarrow> take k (realloc_block (Some xs) n) = take k xs"
  by (simp add: realloc_block_def min_def)

lemma mem_write_Some:
  "0 \<le> off \<Longrightarrow> off + int (length src) \<le> int (length xs) \<Longrightarrow>
   mem_write (Some xs) off src = Some (take (nat off) xs @ src @ drop (nat off + length src) xs)"
  by (simp add: mem_write_def)

lemma mem_read_Some:
  "0 \<le> off \<Longrightarrow> 0 \<le> n \<Longrightarrow> off + n \<le> int (length xs) \<Longrightarrow>
   mem_read (Some xs) off n = Some (take (nat n) (drop (nat off) xs))"
  by (simp add: mem_read_def)

lemma mem_read_eq_SomeD:
  "mem_read b off n = Some bs \<Longrightarrow>
   \<exists>xs. b = Some xs \<and> 0 \<le> off \<and> 0 \<le> n \<and> off + n \<le> int (length xs) \<and>
        bs = take (nat n) (drop (nat off) xs)"
  by (auto simp: mem_read_def split: option.splits if_splits)

section \<open>C strings\<close>

definition cstring :: "bytes \<Rightarrow> bytes" where
  \<comment> \<open>what the \<^verbatim>\<open>str\<close> functions see of a NUL-terminated block\<close>
  "cstring bs = takeWhile (\<lambda>c. c \<noteq> NUL) bs"

definition cstr_ok :: "cstr \<Rightarrow> bool" where
  "cstr_ok s = (case s of None \<Rightarrow> True | Some bs \<Rightarrow> NUL \<notin> set bs)"

lemma cstring_no_nul [simp]: "NUL \<notin> set bs \<Longrightarrow> cstring bs = bs"
  by (auto simp: cstring_def takeWhile_eq_all_conv)

lemma nul_notin_cstring [simp]: "NUL \<notin> set (cstring bs)"
  unfolding cstring_def using set_takeWhileD by fastforce

lemma length_cstring_le: "length (cstring bs) \<le> length bs"
  by (simp add: cstring_def length_takeWhile_le)

end
