(* ===== verification/PtrQueue.thy ===== *)
theory PtrQueue
  imports ZkPrelude
begin

text \<open>
  The two linked queues of \<^verbatim>\<open>src/zookeeper.c\<close>, at the level of their pointers: buffers (\<^verbatim>\<open>queue_buffer\<close>,
  \<^verbatim>\<open>dequeue_buffer\<close>) and completions (\<^verbatim>\<open>queue_completion_nolock\<close>, \<^verbatim>\<open>dequeue_completion\<close>), each a head and a last
  pointer into a heap of nodes. A failed \<^verbatim>\<open>assert\<close> and a dereference of null are undefined. The interface locale
  states that a queue represents a list of nodes and what the operations do to it; it is interpreted for
  both, which justifies that the other theories keep the queues as lists.
\<close>

section \<open>Nodes and heads\<close>

record 'a qnode =
  n_val :: 'a
  n_next :: "nat option"

type_synonym 'a qheap = "nat \<Rightarrow> 'a qnode option"

record qlist =
  q_head :: "nat option"
  q_last :: "nat option"

definition set_next :: "'a qheap \<Rightarrow> nat \<Rightarrow> nat option \<Rightarrow> 'a qheap option" where
  \<comment> \<open>\<^verbatim>\<open>p->next = v\<close>\<close>
  "set_next h p v = (case h p of None \<Rightarrow> None | Some n \<Rightarrow> Some (h(p \<mapsto> n\<lparr>n_next := v\<rparr>)))"

definition queue_buffer :: "'a qheap \<Rightarrow> qlist \<Rightarrow> nat \<Rightarrow> bool \<Rightarrow> ('a qheap \<times> qlist) option" where
  "queue_buffer h list b add_to_front = do {
     h \<leftarrow> set_next h b None;
     if q_head list \<noteq> None then do {
       _ \<leftarrow> c_assert (q_last list \<noteq> None);
       if add_to_front then do {
         h \<leftarrow> set_next h b (q_head list);
         Some (h, list\<lparr>q_head := Some b\<rparr>)
       }
       else do {
         l \<leftarrow> q_last list;
         h \<leftarrow> set_next h l (Some b);
         Some (h, list\<lparr>q_last := Some b\<rparr>)
       }
     }
     else Some (h, list\<lparr>q_head := Some b, q_last := Some b\<rparr>)
   }"

definition dequeue_buffer :: "'a qheap \<Rightarrow> qlist \<Rightarrow> (nat option \<times> qlist) option" where
  "dequeue_buffer h list =
     (case q_head list of
        None \<Rightarrow> Some (None, list)
      | Some b \<Rightarrow> do {
          n \<leftarrow> h b;
          let list = list\<lparr>q_head := n_next n\<rparr>;
          if q_head list = None then do {
            _ \<leftarrow> c_assert (Some b = q_last list);
            Some (Some b, list\<lparr>q_last := None\<rparr>)
          }
          else Some (Some b, list)
        })"

definition queue_completion_nolock :: "'a qheap \<Rightarrow> qlist \<Rightarrow> nat \<Rightarrow> bool \<Rightarrow> ('a qheap \<times> qlist) option" where
  "queue_completion_nolock h list c add_to_front = do {
     h \<leftarrow> set_next h c None;
     if q_last list \<noteq> None then do {
       _ \<leftarrow> c_assert (q_head list \<noteq> None);
       if \<not> add_to_front then do {
         l \<leftarrow> q_last list;
         h \<leftarrow> set_next h l (Some c);
         Some (h, list\<lparr>q_last := Some c\<rparr>)
       }
       else do {
         h \<leftarrow> set_next h c (q_head list);
         Some (h, list\<lparr>q_head := Some c\<rparr>)
       }
     }
     else do {
       _ \<leftarrow> c_assert (q_head list = None);
       Some (h, list\<lparr>q_head := Some c, q_last := Some c\<rparr>)
     }
   }"

definition dequeue_completion :: "'a qheap \<Rightarrow> qlist \<Rightarrow> (nat option \<times> qlist) option" where
  "dequeue_completion h list =
     (case q_head list of
        None \<Rightarrow> Some (None, list)
      | Some c \<Rightarrow> do {
          n \<leftarrow> h c;
          let list = list\<lparr>q_head := n_next n\<rparr>;
          if q_head list = None then do {
            _ \<leftarrow> c_assert (q_last list = Some c);
            Some (Some c, list\<lparr>q_last := None\<rparr>)
          }
          else Some (Some c, list)
        })"

partial_function (option) queue_len_loop :: "'a qheap \<Rightarrow> nat option \<Rightarrow> nat \<Rightarrow> nat option" where
  "queue_len_loop h ptr i =
     (case ptr of None \<Rightarrow> Some i | Some p \<Rightarrow> do { n \<leftarrow> h p; queue_len_loop h (n_next n) (Suc i) })"

definition get_queue_len :: "'a qheap \<Rightarrow> qlist \<Rightarrow> nat option" where
  "get_queue_len h list = queue_len_loop h (q_head list) 0"

section \<open>The list a queue represents\<close>

fun lseg :: "'a qheap \<Rightarrow> nat option \<Rightarrow> nat list \<Rightarrow> bool" where
  "lseg h p [] \<longleftrightarrow> p = None"
| "lseg h p (a # as) \<longleftrightarrow> p = Some a \<and> (\<exists>n. h a = Some n \<and> lseg h (n_next n) as)"

definition q_rep :: "'a qheap \<Rightarrow> qlist \<Rightarrow> nat list \<Rightarrow> bool" where
  "q_rep h q as \<longleftrightarrow> lseg h (q_head q) as \<and> distinct as \<and>
     q_last q = (if as = [] then None else Some (last as))"

definition same_vals :: "'a qheap \<Rightarrow> 'a qheap \<Rightarrow> bool" where
  "same_vals h h' \<longleftrightarrow> (\<forall>a. map_option n_val (h' a) = map_option n_val (h a))"

lemma lseg_update: "p \<notin> set as \<Longrightarrow> lseg (h(p \<mapsto> n)) q as = lseg h q as"
  by (induction as arbitrary: q) auto

lemma lseg_append_node:
  assumes "lseg h p as" and "as \<noteq> []" and "distinct as" and "b \<notin> set as" and "h b = Some m" and "n_next m = None"
    and "h (last as) = Some n"
  shows "lseg (h(last as \<mapsto> n\<lparr>n_next := Some b\<rparr>)) p (as @ [b])"
  using assms
proof (induction as arbitrary: p)
  case (Cons a as)
  show ?case
  proof (cases "as = []")
    case True
    with Cons.prems show ?thesis by auto
  next
    case False
    with Cons.prems obtain k where k: "h a = Some k" "lseg h (n_next k) as" by auto
    have "lseg (h(last as \<mapsto> n\<lparr>n_next := Some b\<rparr>)) (n_next k) (as @ [b])"
      using Cons.prems False k by (intro Cons.IH) auto
    moreover have "a \<noteq> last as" using Cons.prems(3) False by (metis distinct.simps(2) last_in_set)
    ultimately show ?thesis using Cons.prems False k by (simp add: fun_upd_def)
  qed
qed simp

lemma lseg_dom: "lseg h p as \<Longrightarrow> a \<in> set as \<Longrightarrow> \<exists>n. h a = Some n"
  by (induction as arbitrary: p) auto

lemma lseg_length: "lseg h p as \<Longrightarrow> queue_len_loop h p i = Some (i + length as)"
proof (induction as arbitrary: p i)
  case Nil
  then show ?case by (subst queue_len_loop.simps) simp
next
  case (Cons a as)
  then obtain n where "p = Some a" "h a = Some n" "lseg h (n_next n) as" by auto
  with Cons.IH [of "n_next n" "Suc i"] show ?case by (subst queue_len_loop.simps) simp
qed

section \<open>The interface of a queue\<close>

locale pointer_queue =
  fixes push :: "'a qheap \<Rightarrow> qlist \<Rightarrow> nat \<Rightarrow> bool \<Rightarrow> ('a qheap \<times> qlist) option"
    and pop :: "'a qheap \<Rightarrow> qlist \<Rightarrow> (nat option \<times> qlist) option"
  assumes push_law: "q_rep h q as \<Longrightarrow> h b = Some n \<Longrightarrow> b \<notin> set as \<Longrightarrow>
      \<exists>h' q'. push h q b front = Some (h', q') \<and> q_rep h' q' (if front then b # as else as @ [b]) \<and> same_vals h h'"
    and pop_law: "q_rep h q as \<Longrightarrow>
      \<exists>q'. pop h q = Some (case as of [] \<Rightarrow> None | a # _ \<Rightarrow> Some a, q') \<and> q_rep h q' (tl as)"
begin

fun push_all :: "'a qheap \<Rightarrow> qlist \<Rightarrow> nat list \<Rightarrow> ('a qheap \<times> qlist) option" where
  "push_all h q [] = Some (h, q)"
| "push_all h q (b # bs) = Option.bind (push h q b False) (\<lambda>(h, q). push_all h q bs)"

fun pop_all :: "'a qheap \<Rightarrow> qlist \<Rightarrow> nat \<Rightarrow> (nat list \<times> qlist) option" where
  "pop_all h q 0 = Some ([], q)"
| "pop_all h q (Suc n) = do {
     (r, q) \<leftarrow> pop h q;
     a \<leftarrow> r;
     (as, q) \<leftarrow> pop_all h q n;
     Some (a # as, q)
   }"

lemma push_all_rep:
  assumes "q_rep h q as" and "distinct bs" and "set bs \<inter> set as = {}" and "\<forall>b \<in> set bs. h b \<noteq> None"
  shows "\<exists>h' q'. push_all h q bs = Some (h', q') \<and> q_rep h' q' (as @ bs) \<and> same_vals h h'"
  using assms
proof (induction bs arbitrary: h q as)
  case Nil
  then show ?case by (simp add: same_vals_def)
next
  case (Cons b bs)
  from Cons.prems obtain n where "h b = Some n" "b \<notin> set as" by auto
  from push_law [OF Cons.prems(1) this, of False] obtain h1 q1 where
    1: "push h q b False = Some (h1, q1)" "q_rep h1 q1 (as @ [b])" "same_vals h h1" by auto
  have "\<forall>x \<in> set bs. h1 x \<noteq> None"
    using Cons.prems(4) 1(3) unfolding same_vals_def by (metis list.set_intros(2) option.map_disc_iff)
  then obtain h2 q2 where "push_all h1 q1 bs = Some (h2, q2)" "q_rep h2 q2 ((as @ [b]) @ bs)" "same_vals h1 h2"
    using Cons.IH [OF 1(2)] Cons.prems(2,3) by auto
  with 1 show ?case by (auto simp: same_vals_def)
qed

lemma pop_all_rep:
  assumes "q_rep h q (as @ bs)"
  shows "\<exists>q'. pop_all h q (length as) = Some (as, q') \<and> q_rep h q' bs"
  using assms
proof (induction as arbitrary: q)
  case (Cons a as)
  from pop_law [OF Cons.prems] obtain q1 where "pop h q = Some (Some a, q1)" "q_rep h q1 (as @ bs)" by auto
  with Cons.IH [of q1] show ?case by auto
qed simp

lemma fifo:
  \<comment> \<open>what is queued at the back comes out in the same order, after what was there\<close>
  assumes "q_rep h q as" and "distinct bs" and "set bs \<inter> set as = {}" and "\<forall>b \<in> set bs. h b \<noteq> None"
  shows "\<exists>h' q' q''. push_all h q bs = Some (h', q') \<and>
    pop_all h' q' (length as + length bs) = Some (as @ bs, q'') \<and> q_rep h' q'' [] \<and> same_vals h h'"
proof -
  from push_all_rep [OF assms] obtain h' q' where
    1: "push_all h q bs = Some (h', q')" "q_rep h' q' ((as @ bs) @ [])" "same_vals h h'" by auto
  from pop_all_rep [OF 1(2)] 1 show ?thesis by auto
qed

end

lemma q_rep_Nil [simp]: "q_rep h q [] \<longleftrightarrow> q_head q = None \<and> q_last q = None"
  by (simp add: q_rep_def)

lemma push_node:
  assumes "q_rep h q as" and "h b = Some n" and "b \<notin> set as" and "as \<noteq> []"
  shows "\<exists>k. (h(b \<mapsto> n\<lparr>n_next := None\<rparr>)) (last as) = Some k \<and>
      q_rep ((h(b \<mapsto> n\<lparr>n_next := None\<rparr>))(last as \<mapsto> k\<lparr>n_next := Some b\<rparr>)) (q\<lparr>q_last := Some b\<rparr>) (as @ [b])"
    and "q_rep (h(b \<mapsto> n\<lparr>n_next := q_head q\<rparr>)) (q\<lparr>q_head := Some b\<rparr>) (b # as)"
proof -
  let ?h = "h(b \<mapsto> n\<lparr>n_next := None\<rparr>)"
  have l: "lseg ?h (q_head q) as" and d: "distinct as" and ql: "q_last q = Some (last as)"
    using assms by (auto simp: q_rep_def lseg_update)
  obtain k where k: "?h (last as) = Some k" using lseg_dom [OF l, of "last as"] assms(4) by auto
  have "lseg (?h(last as \<mapsto> k\<lparr>n_next := Some b\<rparr>)) (q_head q) (as @ [b])"
    using lseg_append_node [OF l assms(4) d assms(3), of "n\<lparr>n_next := None\<rparr>" k] k by simp
  with k d assms(3) show "\<exists>k. ?h (last as) = Some k \<and>
      q_rep (?h(last as \<mapsto> k\<lparr>n_next := Some b\<rparr>)) (q\<lparr>q_last := Some b\<rparr>) (as @ [b])"
    by (auto simp: q_rep_def simp del: fun_upd_apply)
  show "q_rep (h(b \<mapsto> n\<lparr>n_next := q_head q\<rparr>)) (q\<lparr>q_head := Some b\<rparr>) (b # as)"
    using assms by (auto simp: q_rep_def lseg_update)
qed

lemma q_rep_cases: "q_rep h q as \<Longrightarrow> as \<noteq> [] \<Longrightarrow> q_head q = Some (hd as) \<and> q_last q = Some (last as)"
  by (cases as) (auto simp: q_rep_def)

lemma pop_node:
  assumes "q_rep h q (a # as)"
  shows "\<exists>n. h a = Some n \<and> q_head q = Some a \<and> (n_next n = None \<longleftrightarrow> as = []) \<and>
    q_rep h (if as = [] then q\<lparr>q_head := n_next n, q_last := None\<rparr> else q\<lparr>q_head := n_next n\<rparr>) as \<and>
    (as = [] \<longrightarrow> q_last q = Some a)"
  using assms by (cases as) (auto simp: q_rep_def)

lemma same_vals_upd: "h b = Some n \<Longrightarrow> same_vals h (h(b \<mapsto> n\<lparr>n_next := x\<rparr>))"
  by (simp add: same_vals_def)

lemma same_vals_trans: "same_vals h h1 \<Longrightarrow> same_vals h1 h2 \<Longrightarrow> same_vals h h2"
  by (simp add: same_vals_def)

lemma push_nonempty:
  \<comment> \<open>what both ways of queueing a node on a non-empty queue amount to\<close>
  assumes "q_rep h q as" and "h b = Some n" and "b \<notin> set as" and "as \<noteq> []"
  shows "\<exists>h' q'. (if front then Some (h(b \<mapsto> n\<lparr>n_next := q_head q\<rparr>), q\<lparr>q_head := Some b\<rparr>)
      else Option.bind (set_next (h(b \<mapsto> n\<lparr>n_next := None\<rparr>)) (last as) (Some b)) (\<lambda>h. Some (h, q\<lparr>q_last := Some b\<rparr>))) =
      Some (h', q') \<and> q_rep h' q' (if front then b # as else as @ [b]) \<and> same_vals h h'"
proof (cases front)
  case True
  then show ?thesis using push_node(2) [OF assms] same_vals_upd [of h b n] assms(2) by simp
next
  case False
  let ?h = "h(b \<mapsto> n\<lparr>n_next := None\<rparr>)"
  from push_node(1) [OF assms] obtain k where k: "?h (last as) = Some k"
    "q_rep (?h(last as \<mapsto> k\<lparr>n_next := Some b\<rparr>)) (q\<lparr>q_last := Some b\<rparr>) (as @ [b])" by blast
  have "set_next ?h (last as) (Some b) = Some (?h(last as \<mapsto> k\<lparr>n_next := Some b\<rparr>))"
    unfolding set_next_def k(1) by simp
  moreover have "same_vals h (?h(last as \<mapsto> k\<lparr>n_next := Some b\<rparr>))"
    using same_vals_trans [OF same_vals_upd [of h b n] same_vals_upd [of ?h "last as" k]] assms(2) k(1) by blast
  ultimately show ?thesis using False k(2) by simp
qed

interpretation buffers: pointer_queue queue_buffer dequeue_buffer
proof unfold_locales
  fix h :: "'a qheap" and q as b n front
  assume r: "q_rep h q as" and b: "h b = Some n" and f: "b \<notin> set as"
  show "\<exists>h' q'. queue_buffer h q b front = Some (h', q') \<and> q_rep h' q' (if front then b # as else as @ [b]) \<and> same_vals h h'"
  proof (cases "as = []")
    case True
    have "queue_buffer h q b front = Some (h(b \<mapsto> n\<lparr>n_next := None\<rparr>), q\<lparr>q_head := Some b, q_last := Some b\<rparr>)"
      using r b True by (simp add: queue_buffer_def set_next_def)
    moreover have "q_rep (h(b \<mapsto> n\<lparr>n_next := None\<rparr>)) (q\<lparr>q_head := Some b, q_last := Some b\<rparr>) [b]"
      by (simp add: q_rep_def)
    ultimately show ?thesis using True same_vals_upd [of h b n None] b by simp
  next
    case False
    note c = q_rep_cases [OF r False]
    have s: "set_next h b None = Some (h(b \<mapsto> n\<lparr>n_next := None\<rparr>))"
      "set_next (h(b \<mapsto> n\<lparr>n_next := None\<rparr>)) b (q_head q) = Some (h(b \<mapsto> n\<lparr>n_next := q_head q\<rparr>))"
      using b by (simp_all add: set_next_def)
    have eq: "queue_buffer h q b front = (if front then Some (h(b \<mapsto> n\<lparr>n_next := q_head q\<rparr>), q\<lparr>q_head := Some b\<rparr>)
      else Option.bind (set_next (h(b \<mapsto> n\<lparr>n_next := None\<rparr>)) (last as) (Some b)) (\<lambda>h. Some (h, q\<lparr>q_last := Some b\<rparr>)))"
      unfolding queue_buffer_def using c s by simp
    show ?thesis unfolding eq by (rule push_nonempty [OF r b f False])
  qed
next
  fix h :: "'a qheap" and q as
  assume r: "q_rep h q as"
  show "\<exists>q'. dequeue_buffer h q = Some (case as of [] \<Rightarrow> None | a # _ \<Rightarrow> Some a, q') \<and> q_rep h q' (tl as)"
  proof (cases as)
    case Nil
    with r show ?thesis by (simp add: dequeue_buffer_def)
  next
    case (Cons a bs)
    note pn = pop_node [OF r [unfolded Cons]]
    show ?thesis
    proof (cases "bs = []")
      case True
      with pn Cons show ?thesis by (auto simp: dequeue_buffer_def Let_def)
    next
      case False
      from pn obtain n where n: "h a = Some n" "q_head q = Some a" "n_next n \<noteq> None" "q_rep h (q\<lparr>q_head := n_next n\<rparr>) bs"
        by (simp add: False) (elim exE conjE, simp)
      then have "dequeue_buffer h q = Some (Some a, q\<lparr>q_head := n_next n\<rparr>)" by (auto simp: dequeue_buffer_def Let_def)
      with n Cons show ?thesis by simp
    qed
  qed
qed

interpretation completions: pointer_queue queue_completion_nolock dequeue_completion
proof unfold_locales
  fix h :: "'a qheap" and q as b n front
  assume r: "q_rep h q as" and b: "h b = Some n" and f: "b \<notin> set as"
  show "\<exists>h' q'. queue_completion_nolock h q b front = Some (h', q') \<and> q_rep h' q' (if front then b # as else as @ [b]) \<and> same_vals h h'"
  proof (cases "as = []")
    case True
    have "queue_completion_nolock h q b front = Some (h(b \<mapsto> n\<lparr>n_next := None\<rparr>), q\<lparr>q_head := Some b, q_last := Some b\<rparr>)"
      using r b True by (simp add: queue_completion_nolock_def set_next_def)
    moreover have "q_rep (h(b \<mapsto> n\<lparr>n_next := None\<rparr>)) (q\<lparr>q_head := Some b, q_last := Some b\<rparr>) [b]"
      by (simp add: q_rep_def)
    ultimately show ?thesis using True same_vals_upd [of h b n None] b by simp
  next
    case False
    note c = q_rep_cases [OF r False]
    have s: "set_next h b None = Some (h(b \<mapsto> n\<lparr>n_next := None\<rparr>))"
      "set_next (h(b \<mapsto> n\<lparr>n_next := None\<rparr>)) b (q_head q) = Some (h(b \<mapsto> n\<lparr>n_next := q_head q\<rparr>))"
      using b by (simp_all add: set_next_def)
    have eq: "queue_completion_nolock h q b front = (if front then Some (h(b \<mapsto> n\<lparr>n_next := q_head q\<rparr>), q\<lparr>q_head := Some b\<rparr>)
      else Option.bind (set_next (h(b \<mapsto> n\<lparr>n_next := None\<rparr>)) (last as) (Some b)) (\<lambda>h. Some (h, q\<lparr>q_last := Some b\<rparr>)))"
      unfolding queue_completion_nolock_def using c s by simp
    show ?thesis unfolding eq by (rule push_nonempty [OF r b f False])
  qed
next
  fix h :: "'a qheap" and q as
  assume r: "q_rep h q as"
  show "\<exists>q'. dequeue_completion h q = Some (case as of [] \<Rightarrow> None | a # _ \<Rightarrow> Some a, q') \<and> q_rep h q' (tl as)"
  proof (cases as)
    case Nil
    with r show ?thesis by (simp add: dequeue_completion_def)
  next
    case (Cons a bs)
    note pn = pop_node [OF r [unfolded Cons]]
    show ?thesis
    proof (cases "bs = []")
      case True
      with pn Cons show ?thesis by (auto simp: dequeue_completion_def Let_def)
    next
      case False
      from pn obtain n where n: "h a = Some n" "q_head q = Some a" "n_next n \<noteq> None" "q_rep h (q\<lparr>q_head := n_next n\<rparr>) bs"
        by (simp add: False) (elim exE conjE, simp)
      then have "dequeue_completion h q = Some (Some a, q\<lparr>q_head := n_next n\<rparr>)" by (auto simp: dequeue_completion_def Let_def)
      with n Cons show ?thesis by simp
    qed
  qed
qed

section \<open>Properties\<close>

text \<open>
  (C35) The linked queues refine lists: queueing a node that is not yet in the queue, at the back or at the front,
  and dequeueing, for the buffers and for the completions, never trip an \<^verbatim>\<open>assert\<close> or a null pointer, and do to the
  represented list of nodes what appending, consing and taking the tail do; the contents of the nodes are untouched.
\<close>

theorem queues_refine_lists:
  assumes "q_rep h q as" and "h b = Some n" and "b \<notin> set as"
  shows "(\<exists>h' q'. queue_buffer h q b front = Some (h', q') \<and>
      q_rep h' q' (if front then b # as else as @ [b]) \<and> same_vals h h') \<and>
    (\<exists>h' q'. queue_completion_nolock h q b front = Some (h', q') \<and>
      q_rep h' q' (if front then b # as else as @ [b]) \<and> same_vals h h') \<and>
    (\<exists>q'. dequeue_buffer h q = Some (case as of [] \<Rightarrow> None | a # _ \<Rightarrow> Some a, q') \<and> q_rep h q' (tl as)) \<and>
    (\<exists>q'. dequeue_completion h q = Some (case as of [] \<Rightarrow> None | a # _ \<Rightarrow> Some a, q') \<and> q_rep h q' (tl as)) \<and>
    get_queue_len h q = Some (length as)"
  using buffers.push_law [OF assms, of front] completions.push_law [OF assms, of front]
    buffers.pop_law [OF assms(1)] completions.pop_law [OF assms(1)] lseg_length [of h "q_head q" as 0] assms(1)
  by (simp add: get_queue_len_def q_rep_def)

theorem queues_refine_lists_witness:
  "\<exists>h' q'. queue_completion_nolock [7 \<mapsto> \<lparr>n_val = ''x'', n_next = Some 9\<rparr>] \<lparr>q_head = None, q_last = None\<rparr> 7 False = Some (h', q') \<and>
     q_rep h' q' [7]"
  using queues_refine_lists [of "[7 \<mapsto> \<lparr>n_val = ''x'', n_next = Some 9\<rparr>]" "\<lparr>q_head = None, q_last = None\<rparr>" "[]" 7
      "\<lparr>n_val = ''x'', n_next = Some 9\<rparr>" False] by auto

end
