(* ===== verification/Recordio.thy ===== *)
theory Recordio
  imports ZkPrelude
begin

text \<open>
  The jute archives of \<^verbatim>\<open>src/recordio.c\<close>: a growing output buffer and a bounded input buffer,
  with the primitive serialisers and deserialisers. The lemmas show that a serialiser appends
  exactly the wire image of its argument (growing the buffer as needed), that a deserialiser
  reads it back, that no input makes a deserialiser read outside its buffer, and which inputs are
  refused with which error code. The function tables \<^verbatim>\<open>oa_default\<close> and \<^verbatim>\<open>ia_default\<close> are fixed, so
  an archive is its private buffer.
\<close>

section \<open>Archives\<close>

record buff_struct =
  bs_len :: int
  bs_off :: int
  bs_buffer :: "bytes option"

type_synonym oarchive = buff_struct
type_synonym iarchive = buff_struct
type_synonym oa_result = "(int \<times> oarchive) option"
type_synonym 'a ia_result = "(int \<times> iarchive \<times> 'a) option"

record cbuffer =
  cb_len :: i32
  cb_buff :: "bytes option"

partial_function (option) grow_len :: "int \<Rightarrow> int \<Rightarrow> int option" where
  "grow_len l newlen =
     (if l < newlen then Option.bind (c_int (l * 2)) (\<lambda>l2. grow_len l2 newlen) else Some l)"

definition resize_buffer :: "host \<Rightarrow> buff_struct \<Rightarrow> int \<Rightarrow> oa_result" where
  "resize_buffer E s newlen = do {
     l \<leftarrow> grow_len (bs_len s) newlen;
     if grants E (to_size l)
     then Some (0, s\<lparr>bs_len := l, bs_buffer := Some (realloc_block (bs_buffer s) l)\<rparr>)
     else Some (- ENOMEM, s\<lparr>bs_len := l, bs_buffer := None\<rparr>)
   }"

section \<open>Output\<close>

definition oa_start_record :: "oarchive \<Rightarrow> oa_result" where
  "oa_start_record oa = Some (0, oa)"

definition oa_end_record :: "oarchive \<Rightarrow> oa_result" where
  "oa_end_record oa = Some (0, oa)"

text \<open>
  The tail the serialisers share: grow when \<open>short\<close> says that the room is too small, give up when
  that fails, otherwise copy and advance.
\<close>

definition oa_put :: "host \<Rightarrow> bool \<Rightarrow> int \<Rightarrow> bytes \<Rightarrow> oarchive \<Rightarrow> oa_result" where
  "oa_put E short newlen src oa = do {
     (rc, oa) \<leftarrow> (if short then resize_buffer E oa newlen else Some (0, oa));
     if rc < 0 then Some (rc, oa)
     else do {
       b \<leftarrow> mem_write (bs_buffer oa) (bs_off oa) src;
       Some (0, oa\<lparr>bs_buffer := Some b, bs_off := bs_off oa + int (length src)\<rparr>)
     }
   }"

definition oa_serialize_int :: "host \<Rightarrow> i32 \<Rightarrow> oarchive \<Rightarrow> oa_result" where
  "oa_serialize_int E d oa =
     oa_put E (to_size (bs_len oa - bs_off oa) < 4) (to_int32 (bs_len oa + 4))
       (host32 E (htonl E d)) oa"

fun swap_ends :: "nat \<Rightarrow> nat \<Rightarrow> bytes \<Rightarrow> bytes" where
  \<comment> \<open>the loop of \<^verbatim>\<open>zoo_htonll\<close>: \<open>k\<close> rounds from index \<open>i\<close>, exchanging bytes \<open>i\<close> and \<open>8-i-1\<close>\<close>
  "swap_ends 0 i s = s"
| "swap_ends (Suc k) i s = swap_ends k (Suc i) (s[i := s ! (8 - i - 1), 8 - i - 1 := s ! i])"

definition zoo_htonll :: "host \<Rightarrow> i64 \<Rightarrow> i64" where
  "zoo_htonll E v =
     (if htonl E 1 = 1 then v else of_host64 E (swap_ends 4 0 (host64 E v)))"

definition oa_serialize_long :: "host \<Rightarrow> i64 \<Rightarrow> oarchive \<Rightarrow> oa_result" where
  "oa_serialize_long E d oa =
     oa_put E (to_size (bs_len oa - bs_off oa) < 8) (to_int32 (bs_len oa + 8))
       (host64 E (zoo_htonll E d)) oa"

definition oa_start_vector :: "host \<Rightarrow> i32 \<Rightarrow> oarchive \<Rightarrow> oa_result" where
  "oa_start_vector E count oa = oa_serialize_int E count oa"

definition oa_end_vector :: "oarchive \<Rightarrow> oa_result" where
  "oa_end_vector oa = Some (0, oa)"

definition oa_serialize_bool :: "host \<Rightarrow> i32 \<Rightarrow> oarchive \<Rightarrow> oa_result" where
  "oa_serialize_bool E i oa = do {
     newlen \<leftarrow> (if bs_len oa - bs_off oa < 1 then c_int (bs_len oa + 1) else Some 0);
     oa_put E (bs_len oa - bs_off oa < 1) newlen [if i = 0 then NUL else CHR 0x01] oa
   }"

definition oa_serialize_buffer :: "host \<Rightarrow> cbuffer option \<Rightarrow> oarchive \<Rightarrow> oa_result" where
  "oa_serialize_buffer E b oa =
     (case b of
        None \<Rightarrow> oa_serialize_int E (- 1) oa
      | Some b \<Rightarrow> do {
          (rc, oa) \<leftarrow> oa_serialize_int E (cb_len b) oa;
          if rc < 0 then Some (rc, oa)
          else if cb_len b = - 1 then Some (rc, oa)
          else do {
            newlen \<leftarrow> (if bs_len oa - bs_off oa < sint (cb_len b)
                       then c_int (bs_len oa + sint (cb_len b)) else Some 0);
            src \<leftarrow> (if cb_len b = 0 then Some [] else mem_read (cb_buff b) 0 (sint (cb_len b)));
            oa_put E (bs_len oa - bs_off oa < sint (cb_len b)) newlen src oa
          }
        })"

definition oa_serialize_string :: "host \<Rightarrow> cstr \<Rightarrow> oarchive \<Rightarrow> oa_result" where
  "oa_serialize_string E s oa =
     (case s of
        None \<Rightarrow> do { (rc, oa) \<leftarrow> oa_serialize_int E (- 1) oa; Some (0, oa) }
      | Some str \<Rightarrow> do {
          let len = to_int32 (int (length str));
          (rc, oa) \<leftarrow> oa_serialize_int E (word_of_int len) oa;
          if rc < 0 then Some (rc, oa)
          else do {
            newlen \<leftarrow> (if bs_len oa - bs_off oa < len then c_int (bs_len oa + len) else Some 0);
            src \<leftarrow> mem_read (Some str) 0 len;
            oa_put E (bs_len oa - bs_off oa < len) newlen src oa
          }
        })"

definition create_buffer_oarchive :: "host \<Rightarrow> oarchive option" where
  \<comment> \<open>\<open>None\<close> is the null pointer; \<^verbatim>\<open>malloc(128)\<close> is not checked: a refused request leaves a null buffer\<close>
  "create_buffer_oarchive E =
     (if grants E 80 \<and> grants E 16
      then Some \<lparr>bs_len = 128, bs_off = 0,
        bs_buffer = (if grants E 128 then Some (replicate 128 NUL) else None)\<rparr>
      else None)"

definition into_buffer :: "host \<Rightarrow> (oarchive \<Rightarrow> oa_result) \<Rightarrow> oa_result" where
  \<comment> \<open>write into a new archive; the callers do not check the null pointer\<close>
  "into_buffer E f = do { oa \<leftarrow> create_buffer_oarchive E; f oa }"

definition get_buffer :: "oarchive \<Rightarrow> bytes option" where
  "get_buffer oa = bs_buffer oa"

definition get_buffer_len :: "oarchive \<Rightarrow> int" where
  "get_buffer_len oa = bs_off oa"

section \<open>Input\<close>

definition ia_start_record :: "iarchive \<times> 'a \<Rightarrow> 'a ia_result" where
  "ia_start_record st = Some (0, st)"

definition ia_end_record :: "iarchive \<times> 'a \<Rightarrow> 'a ia_result" where
  "ia_end_record st = Some (0, st)"

definition ia_deserialize_int :: "host \<Rightarrow> iarchive \<times> i32 \<Rightarrow> i32 ia_result" where
  "ia_deserialize_int E = (\<lambda>(ia, count).
     if to_size (bs_len ia - bs_off ia) < 4 then Some (- E2BIG, ia, count)
     else do {
       bs \<leftarrow> mem_read (bs_buffer ia) (bs_off ia) 4;
       Some (0, ia\<lparr>bs_off := bs_off ia + 4\<rparr>, ntohl E (of_host32 E bs))
     })"

definition ia_deserialize_long :: "host \<Rightarrow> iarchive \<times> i64 \<Rightarrow> i64 ia_result" where
  "ia_deserialize_long E = (\<lambda>(ia, count).
     if to_size (bs_len ia - bs_off ia) < 8 then Some (- E2BIG, ia, count)
     else do {
       bs \<leftarrow> mem_read (bs_buffer ia) (bs_off ia) 8;
       Some (0, ia\<lparr>bs_off := bs_off ia + 8\<rparr>, zoo_htonll E (of_host64 E bs))
     })"

definition ia_start_vector :: "host \<Rightarrow> iarchive \<times> i32 \<Rightarrow> i32 ia_result" where
  "ia_start_vector E st = ia_deserialize_int E st"

definition ia_end_vector :: "iarchive \<Rightarrow> int \<times> iarchive" where
  "ia_end_vector ia = (0, ia)"

definition ia_deserialize_bool :: "iarchive \<times> i32 \<Rightarrow> i32 ia_result" where
  "ia_deserialize_bool = (\<lambda>(ia, v).
     if bs_len ia - bs_off ia < 1 then Some (- E2BIG, ia, v)
     else do {
       bs \<leftarrow> mem_read (bs_buffer ia) (bs_off ia) 1;
       Some (0, ia\<lparr>bs_off := bs_off ia + 1\<rparr>, word_of_int (schar (hd bs)))
     })"

definition ia_deserialize_buffer :: "host \<Rightarrow> iarchive \<times> cbuffer \<Rightarrow> cbuffer ia_result" where
  "ia_deserialize_buffer E = (\<lambda>(ia, b). do {
     (rc, ia, l) \<leftarrow> ia_deserialize_int E (ia, cb_len b);
     if rc < 0 then Some (rc, ia, b\<lparr>cb_len := l\<rparr>)
     else if bs_len ia - bs_off ia < sint l then Some (- E2BIG, ia, b\<lparr>cb_len := l\<rparr>)
     else if l = - 1 then Some (rc, ia, b\<lparr>cb_len := l, cb_buff := None\<rparr>)
     else if \<not> grants E (to_size (sint l)) then Some (- ENOMEM, ia, b\<lparr>cb_len := l, cb_buff := None\<rparr>)
     else do {
       bs \<leftarrow> mem_read (bs_buffer ia) (bs_off ia) (sint l);
       Some (0, ia\<lparr>bs_off := bs_off ia + sint l\<rparr>, \<lparr>cb_len = l, cb_buff = Some bs\<rparr>)
     }
   })"

definition ia_deserialize_string :: "host \<Rightarrow> iarchive \<times> cstr \<Rightarrow> cstr ia_result" where
  "ia_deserialize_string E = (\<lambda>(ia, s). do {
     (rc, ia, len) \<leftarrow> ia_deserialize_int E (ia, 0);
     if rc < 0 then Some (rc, ia, s)
     else if bs_len ia - bs_off ia < sint len then Some (- E2BIG, ia, s)
     else if sint len < 0 then Some (- EINVAL, ia, s)
     else do {
       n \<leftarrow> c_int (sint len + 1);
       if \<not> grants E (to_size n) then Some (- ENOMEM, ia, None)
       else do {
         bs \<leftarrow> mem_read (bs_buffer ia) (bs_off ia) (sint len);
         Some (0, ia\<lparr>bs_off := bs_off ia + sint len\<rparr>, Some (cstring bs))
       }
     }
   })"

definition create_buffer_iarchive :: "host \<Rightarrow> bytes option \<Rightarrow> int \<Rightarrow> iarchive option" where
  \<comment> \<open>\<open>None\<close> is the null pointer\<close>
  "create_buffer_iarchive E b len =
     (if grants E 80 \<and> grants E 16 then Some \<lparr>bs_len = len, bs_off = 0, bs_buffer = b\<rparr> else None)"

definition from_buffer :: "host \<Rightarrow> (iarchive \<times> 'a \<Rightarrow> 'a ia_result) \<Rightarrow> oarchive \<Rightarrow> 'a \<Rightarrow> 'a ia_result" where
  \<comment> \<open>read back what an output archive holds\<close>
  "from_buffer E g oa old = do { ia \<leftarrow> create_buffer_iarchive E (get_buffer oa) (get_buffer_len oa); g (ia, old) }"

definition deallocate_String :: "cstr \<Rightarrow> cstr" where
  "deallocate_String s = None"

definition deallocate_Buffer :: "cbuffer \<Rightarrow> cbuffer" where
  "deallocate_Buffer b = b\<lparr>cb_buff := None\<rparr>"

section \<open>The growth of the output buffer\<close>

abbreviation (input) OA_MAX :: int where "OA_MAX \<equiv> 2 ^ 27"

definition good_host :: "host \<Rightarrow> bool" where
  \<comment> \<open>the allocator grants every request of up to 1 GiB\<close>
  "good_host E \<longleftrightarrow> (\<forall>n. 0 \<le> n \<and> n \<le> 2 ^ 30 \<longrightarrow> grants E n)"

definition oa_wf :: "oarchive \<Rightarrow> bool" where
  "oa_wf oa \<longleftrightarrow>
     (case bs_buffer oa of None \<Rightarrow> False | Some b \<Rightarrow> int (length b) = bs_len oa) \<and>
     0 \<le> bs_off oa \<and> bs_off oa \<le> bs_len oa \<and> 0 < bs_len oa \<and>
     bs_len oa \<le> max 128 (4 * bs_off oa)"

definition oa_bytes :: "oarchive \<Rightarrow> bytes" where
  \<comment> \<open>what has been written: the first \<^verbatim>\<open>get_buffer_len\<close> bytes of \<^verbatim>\<open>get_buffer\<close>\<close>
  "oa_bytes oa = (case bs_buffer oa of None \<Rightarrow> [] | Some b \<Rightarrow> take (nat (bs_off oa)) b)"

lemma good_hostD: "good_host E \<Longrightarrow> 0 \<le> n \<Longrightarrow> n \<le> 2 ^ 30 \<Longrightarrow> grants E n"
  by (simp add: good_host_def)

text \<open>Doubling terminates and overshoots by less than a factor of two.\<close>

lemma grow_len_result:
  assumes "0 < l" and "newlen \<le> 2 ^ 30"
  shows "\<exists>l'. grow_len l newlen = Some l' \<and> newlen \<le> l' \<and> l \<le> l' \<and> (l' = l \<or> l' < 2 * newlen)"
  using assms(1)
proof (induction "nat (newlen - l)" arbitrary: l rule: less_induct)
  case less
  show ?case
  proof (cases "l < newlen")
    case True
    with less.prems assms(2) have two: "c_int (l * 2) = Some (l * 2)" by simp
    have "nat (newlen - l * 2) < nat (newlen - l)" using True less.prems by linarith
    from less.hyps [OF this] less.prems obtain l' where
      "grow_len (l * 2) newlen = Some l'" "newlen \<le> l'" "l * 2 \<le> l'" "l' = l * 2 \<or> l' < 2 * newlen"
      by auto
    with True two less.prems show ?thesis
      by (subst grow_len.simps) auto
  next
    case False
    then show ?thesis by (subst grow_len.simps) auto
  qed
qed

lemma oa_wf_buffer: "oa_wf oa \<Longrightarrow> \<exists>b. bs_buffer oa = Some b \<and> int (length b) = bs_len oa"
  by (auto simp: oa_wf_def split: option.splits)

lemma length_oa_bytes: "oa_wf oa \<Longrightarrow> int (length (oa_bytes oa)) = bs_off oa"
  by (auto simp: oa_wf_def oa_bytes_def split: option.splits)

lemma resize_buffer_ok:
  assumes "oa_wf oa" and "good_host E" and "bs_len oa - bs_off oa < n" and "bs_off oa + n \<le> OA_MAX"
  shows "\<exists>oa' b. resize_buffer E oa (bs_len oa + n) = Some (0, oa') \<and> bs_buffer oa' = Some b \<and>
     int (length b) = bs_len oa' \<and> bs_off oa' = bs_off oa \<and> bs_off oa + n \<le> bs_len oa' \<and>
     bs_len oa' \<le> 4 * (bs_off oa + n) \<and> oa_bytes oa' = oa_bytes oa"
proof -
  from assms(1) obtain b where b: "bs_buffer oa = Some b" "int (length b) = bs_len oa"
    by (blast dest: oa_wf_buffer)
  from assms(1) have wf: "0 < bs_len oa" "0 \<le> bs_off oa" "bs_off oa \<le> bs_len oa"
    "bs_len oa \<le> max 128 (4 * bs_off oa)" by (auto simp: oa_wf_def)
  with assms(3,4) have "bs_len oa + n \<le> 2 ^ 30" by (simp add: max_def split: if_splits)
  from grow_len_result [OF wf(1) this] obtain l where
    l: "grow_len (bs_len oa) (bs_len oa + n) = Some l" "bs_len oa + n \<le> l"
    "bs_len oa \<le> l" "l = bs_len oa \<or> l < 2 * (bs_len oa + n)" by blast
  from l(2,4) assms(3) wf have l4: "l \<le> 4 * (bs_off oa + n)" by auto
  with assms(4) wf l(3) have lmax: "l \<le> 2 ^ 30" "0 \<le> l" by simp_all
  then have g: "grants E (to_size l)" using assms(2) by (simp add: good_hostD)
  have "take (nat (bs_off oa)) (realloc_block (Some b) l) = take (nat (bs_off oa)) b"
    using b(2) wf l(3) by (intro take_realloc_block) linarith+
  with b g l l4 wf show ?thesis by (simp add: resize_buffer_def oa_bytes_def)
qed

lemma oa_put_ok:
  assumes "oa_wf oa" and "good_host E" and "bs_off oa + int (length src) \<le> OA_MAX"
    and "short \<longleftrightarrow> bs_len oa - bs_off oa < int (length src)"
    and "short \<Longrightarrow> newlen = bs_len oa + int (length src)"
  shows "\<exists>oa'. oa_put E short newlen src oa = Some (0, oa') \<and> oa_wf oa' \<and>
           oa_bytes oa' = oa_bytes oa @ src"
proof -
  define r where "r = (if short then resize_buffer E oa newlen else Some (0, oa))"
  from assms(1) obtain b0 where b0: "bs_buffer oa = Some b0" "int (length b0) = bs_len oa"
    by (blast dest: oa_wf_buffer)
  have wf: "0 \<le> bs_off oa" "0 < bs_len oa" "bs_len oa \<le> max 128 (4 * bs_off oa)"
    using assms(1) by (auto simp: oa_wf_def)
  have "\<exists>oa1 b. r = Some (0, oa1) \<and> bs_buffer oa1 = Some b \<and> int (length b) = bs_len oa1 \<and>
     bs_off oa1 = bs_off oa \<and> bs_off oa + int (length src) \<le> bs_len oa1 \<and>
     bs_len oa1 \<le> max 128 (4 * (bs_off oa + int (length src))) \<and> 0 < bs_len oa1 \<and>
     oa_bytes oa1 = oa_bytes oa"
  proof (cases short)
    case True
    from resize_buffer_ok [OF assms(1,2), of "int (length src)"] assms(3-5) True
    obtain oa1 b where *: "resize_buffer E oa newlen = Some (0, oa1)" "bs_buffer oa1 = Some b"
      "int (length b) = bs_len oa1" "bs_off oa1 = bs_off oa"
      "bs_off oa + int (length src) \<le> bs_len oa1"
      "bs_len oa1 \<le> 4 * (bs_off oa + int (length src))" "oa_bytes oa1 = oa_bytes oa"
      by auto
    moreover from * wf True assms(4) have "0 < bs_len oa1" by linarith
    ultimately show ?thesis using True by (intro exI [of _ oa1] exI [of _ b]) (simp add: r_def)
  next
    case False
    with assms(4) b0 wf show ?thesis by (simp add: r_def)
  qed
  then obtain oa1 b where r: "r = Some (0, oa1)" "bs_buffer oa1 = Some b"
    and len: "int (length b) = bs_len oa1" "bs_off oa1 = bs_off oa"
    "bs_off oa + int (length src) \<le> bs_len oa1" "0 < bs_len oa1"
    "bs_len oa1 \<le> max 128 (4 * (bs_off oa + int (length src)))" "oa_bytes oa1 = oa_bytes oa"
    by auto
  define b' where "b' = take (nat (bs_off oa)) b @ src @ drop (nat (bs_off oa) + length src) b"
  have w: "mem_write (bs_buffer oa1) (bs_off oa1) src = Some b'"
    using r len wf by (simp add: mem_write_def b'_def)
  have lb': "length b' = length b" using len wf by (simp add: b'_def)
  have tk: "take (nat (bs_off oa + int (length src))) b' = oa_bytes oa @ src"
  proof -
    have "nat (bs_off oa + int (length src)) = nat (bs_off oa) + length src" using wf by simp
    moreover have "length (take (nat (bs_off oa)) b) = nat (bs_off oa)" using len wf by simp
    moreover have "take (nat (bs_off oa)) b = oa_bytes oa" using len r by (simp add: oa_bytes_def)
    ultimately show ?thesis by (simp add: b'_def)
  qed
  have "oa_put E short newlen src oa =
      Some (0, oa1\<lparr>bs_buffer := Some b', bs_off := bs_off oa + int (length src)\<rparr>)"
    unfolding oa_put_def r_def [symmetric] using r w len by simp
  with len lb' tk wf show ?thesis by (simp add: oa_wf_def oa_bytes_def)
qed

section \<open>What serialisers append and deserialisers consume\<close>

definition oa_writes :: "(oarchive \<Rightarrow> oa_result) \<Rightarrow> bytes \<Rightarrow> bool" where
  "oa_writes f bs \<longleftrightarrow>
     (\<forall>oa. oa_wf oa \<and> bs_off oa + int (length bs) \<le> OA_MAX \<longrightarrow>
       (\<exists>oa'. f oa = Some (0, oa') \<and> oa_wf oa' \<and> oa_bytes oa' = oa_bytes oa @ bs))"

definition ia_wf :: "iarchive \<Rightarrow> bool" where
  "ia_wf ia \<longleftrightarrow>
     (case bs_buffer ia of None \<Rightarrow> False | Some b \<Rightarrow> bs_len ia \<le> int (length b)) \<and>
     0 \<le> bs_off ia \<and> bs_off ia \<le> bs_len ia \<and> bs_len ia \<le> INT_MAX"

definition ia_rest :: "iarchive \<Rightarrow> bytes" where
  \<comment> \<open>the bytes not yet consumed\<close>
  "ia_rest ia =
     (case bs_buffer ia of None \<Rightarrow> []
      | Some b \<Rightarrow> take (nat (bs_len ia - bs_off ia)) (drop (nat (bs_off ia)) b))"

definition ia_reads :: "(iarchive \<times> 'a \<Rightarrow> 'a ia_result) \<Rightarrow> bytes \<Rightarrow> 'a \<Rightarrow> bool" where
  "ia_reads g bs v \<longleftrightarrow>
     (\<forall>ia old r. ia_wf ia \<and> ia_rest ia = bs @ r \<longrightarrow>
       (\<exists>ia'. g (ia, old) = Some (0, ia', v) \<and> ia_wf ia' \<and> ia_rest ia' = r))"

definition ia_safe :: "(iarchive \<times> 'a \<Rightarrow> 'a ia_result) \<Rightarrow> bool" where
  \<comment> \<open>defined on every input, and the archive stays well formed\<close>
  "ia_safe g \<longleftrightarrow>
     (\<forall>ia old. ia_wf ia \<longrightarrow> (\<exists>rc ia' v. g (ia, old) = Some (rc, ia', v) \<and> ia_wf ia'))"

definition sane_host :: "host \<Rightarrow> bool" where
  \<comment> \<open>no allocator grants half of the address space\<close>
  "sane_host E \<longleftrightarrow> (\<forall>n. grants E n \<longrightarrow> n < 2 ^ 63)"

lemma oa_writesD:
  "oa_writes f bs \<Longrightarrow> oa_wf oa \<Longrightarrow> bs_off oa + int (length bs) \<le> OA_MAX \<Longrightarrow>
   \<exists>oa'. f oa = Some (0, oa') \<and> oa_wf oa' \<and> oa_bytes oa' = oa_bytes oa @ bs"
  by (simp add: oa_writes_def)

lemma ia_readsD:
  "ia_reads g bs v \<Longrightarrow> ia_wf ia \<Longrightarrow> ia_rest ia = bs @ r \<Longrightarrow>
   \<exists>ia'. g (ia, old) = Some (0, ia', v) \<and> ia_wf ia' \<and> ia_rest ia' = r"
  by (simp add: ia_reads_def)

lemma ia_wf_buffer: "ia_wf ia \<Longrightarrow> \<exists>b. bs_buffer ia = Some b \<and> bs_len ia \<le> int (length b)"
  by (auto simp: ia_wf_def split: option.splits)

lemma length_ia_rest: "ia_wf ia \<Longrightarrow> int (length (ia_rest ia)) = bs_len ia - bs_off ia"
  by (auto simp: ia_wf_def ia_rest_def split: option.splits)

lemma ia_take:
  assumes "ia_wf ia" and "0 \<le> n" and "n \<le> bs_len ia - bs_off ia"
  shows "mem_read (bs_buffer ia) (bs_off ia) n = Some (take (nat n) (ia_rest ia))"
    and "ia_wf (ia\<lparr>bs_off := bs_off ia + n\<rparr>)"
    and "ia_rest (ia\<lparr>bs_off := bs_off ia + n\<rparr>) = drop (nat n) (ia_rest ia)"
proof -
  from assms(1) obtain b where b: "bs_buffer ia = Some b" "bs_len ia \<le> int (length b)"
    by (blast dest: ia_wf_buffer)
  have wf: "0 \<le> bs_off ia" "bs_off ia \<le> bs_len ia" using assms(1) by (auto simp: ia_wf_def)
  have "nat n \<le> nat (bs_len ia - bs_off ia)" using assms by simp
  with b wf assms(2,3) show "mem_read (bs_buffer ia) (bs_off ia) n = Some (take (nat n) (ia_rest ia))"
    by (simp add: mem_read_def ia_rest_def min_absorb1)
  show "ia_wf (ia\<lparr>bs_off := bs_off ia + n\<rparr>)" using assms by (auto simp: ia_wf_def split: option.splits)
  have "nat (bs_len ia - (bs_off ia + n)) = nat (bs_len ia - bs_off ia) - nat n"
    "nat (bs_off ia + n) = nat n + nat (bs_off ia)" using wf assms by auto
  with b show "ia_rest (ia\<lparr>bs_off := bs_off ia + n\<rparr>) = drop (nat n) (ia_rest ia)"
    by (simp add: ia_rest_def drop_take)
qed

lemma ia_take_prefix:
  assumes "ia_wf ia" and "ia_rest ia = bs @ r" and "n = int (length bs)"
  shows "n \<le> bs_len ia - bs_off ia"
    and "mem_read (bs_buffer ia) (bs_off ia) n = Some bs"
    and "ia_wf (ia\<lparr>bs_off := bs_off ia + n\<rparr>)"
    and "ia_rest (ia\<lparr>bs_off := bs_off ia + n\<rparr>) = r"
proof -
  show n: "n \<le> bs_len ia - bs_off ia"
    using length_ia_rest [OF assms(1)] assms(2,3) by simp
  with ia_take [OF assms(1) _ n] assms(2,3)
  show "mem_read (bs_buffer ia) (bs_off ia) n = Some bs"
    and "ia_wf (ia\<lparr>bs_off := bs_off ia + n\<rparr>)"
    and "ia_rest (ia\<lparr>bs_off := bs_off ia + n\<rparr>) = r" by simp_all
qed

lemma ia_room: "ia_wf ia \<Longrightarrow> to_size (bs_len ia - bs_off ia) = bs_len ia - bs_off ia"
  by (intro to_size_id) (auto simp: ia_wf_def)

lemma oa_room: "oa_wf oa \<Longrightarrow> bs_off oa \<le> OA_MAX \<Longrightarrow> to_size (bs_len oa - bs_off oa) = bs_len oa - bs_off oa"
  by (intro to_size_id) (auto simp: oa_wf_def max_def split: if_splits)

subsection \<open>Byte order\<close>

lemma htonl_one_iff: "htonl E 1 = 1 \<longleftrightarrow> big_endian E"
proof -
  have "be32 1 = [NUL, NUL, NUL, CHR 0x01]" by code_simp
  then show ?thesis by (simp add: htonl_def of_host32_def of_be32_def)
qed

lemma list_of_8: "length s = 8 \<Longrightarrow> \<exists>a b c d e f g h. s = [a, b, c, d, e, f, g, h]"
  by (simp add: numeral_eq_Suc length_Suc_conv, elim exE conjE, simp)

lemma swap_ends_rev:
  assumes "length s = 8"
  shows "swap_ends 4 0 s = rev s"
proof -
  from assms obtain a b c d e f g h where s: "s = [a, b, c, d, e, f, g, h]"
    by (blast dest: list_of_8)
  have "swap_ends 4 0 s = swap_ends (Suc (Suc (Suc (Suc 0)))) 0 s" by (simp add: eval_nat_numeral)
  also have "\<dots> = rev s" by (simp add: s)
  finally show ?thesis .
qed

lemma host64_zoo_htonll [simp]: "host64 E (zoo_htonll E v) = be64 v"
proof (cases "big_endian E")
  case True
  then show ?thesis by (simp add: zoo_htonll_def htonl_one_iff host64_def)
next
  case False
  then have "host64 E (zoo_htonll E v) = swap_ends 4 0 (host64 E v)"
    by (simp add: zoo_htonll_def htonl_one_iff swap_ends_rev host64_of_host64)
  with False show ?thesis by (simp add: swap_ends_rev host64_def)
qed

lemma zoo_htonll_of_host64: "length bs = 8 \<Longrightarrow> zoo_htonll E (of_host64 E bs) = of_be64 bs"
  by (cases "big_endian E")
     (simp_all add: zoo_htonll_def htonl_one_iff host64_of_host64 swap_ends_rev, simp_all add: of_host64_def)

subsection \<open>Serialisers\<close>

lemma oa_writes_record [oa_writes_intros]:
  "oa_writes oa_start_record []" "oa_writes oa_end_record []" "oa_writes oa_end_vector []"
  by (simp_all add: oa_writes_def oa_start_record_def oa_end_record_def oa_end_vector_def)

lemma oa_len_bound: "oa_wf oa \<Longrightarrow> bs_off oa \<le> OA_MAX \<Longrightarrow> bs_len oa \<le> 4 * OA_MAX"
  by (auto simp: oa_wf_def max_def split: if_splits)

lemma oa_serialize_int_writes [oa_writes_intros]:
  assumes "good_host E"
  shows "oa_writes (oa_serialize_int E d) (be32 d)"
  unfolding oa_writes_def
proof (intro allI impI, elim conjE)
  fix oa :: oarchive
  assume wf: "oa_wf oa" and room: "bs_off oa + int (length (be32 d)) \<le> OA_MAX"
  then have len: "bs_len oa \<le> 4 * OA_MAX" "0 < bs_len oa" using oa_len_bound [of oa]
    by (auto simp: oa_wf_def)
  show "\<exists>oa'. oa_serialize_int E d oa = Some (0, oa') \<and> oa_wf oa' \<and> oa_bytes oa' = oa_bytes oa @ be32 d"
    unfolding oa_serialize_int_def host32_htonl
    by (rule oa_put_ok [OF wf assms room]) (use wf room len in \<open>simp_all add: oa_room to_int32_id\<close>)
qed

lemma oa_serialize_long_writes [oa_writes_intros]:
  assumes "good_host E"
  shows "oa_writes (oa_serialize_long E d) (be64 d)"
  unfolding oa_writes_def
proof (intro allI impI, elim conjE)
  fix oa :: oarchive
  assume wf: "oa_wf oa" and room: "bs_off oa + int (length (be64 d)) \<le> OA_MAX"
  then have len: "bs_len oa \<le> 4 * OA_MAX" "0 < bs_len oa" using oa_len_bound [of oa]
    by (auto simp: oa_wf_def)
  show "\<exists>oa'. oa_serialize_long E d oa = Some (0, oa') \<and> oa_wf oa' \<and> oa_bytes oa' = oa_bytes oa @ be64 d"
    unfolding oa_serialize_long_def host64_zoo_htonll
    by (rule oa_put_ok [OF wf assms room]) (use wf room len in \<open>simp_all add: oa_room to_int32_id\<close>)
qed

lemma oa_start_vector_writes [oa_writes_intros]:
  "good_host E \<Longrightarrow> oa_writes (oa_start_vector E n) (be32 n)"
  using oa_serialize_int_writes [of E n] by (simp add: oa_writes_def oa_start_vector_def)

definition enc_bool :: "i32 \<Rightarrow> bytes" where
  "enc_bool i = [if i = 0 then NUL else CHR 0x01]"

lemma oa_serialize_bool_writes [oa_writes_intros]:
  assumes "good_host E"
  shows "oa_writes (oa_serialize_bool E i) (enc_bool i)"
  unfolding oa_writes_def
proof (intro allI impI, elim conjE)
  fix oa :: oarchive
  assume wf: "oa_wf oa" and room: "bs_off oa + int (length (enc_bool i)) \<le> OA_MAX"
  let ?nl = "if bs_len oa - bs_off oa < 1 then bs_len oa + 1 else 0"
  have len: "bs_len oa \<le> 4 * OA_MAX" "0 < bs_len oa" using oa_len_bound [OF wf] room wf
    by (auto simp: oa_wf_def)
  then have "oa_serialize_bool E i oa =
      oa_put E (bs_len oa - bs_off oa < 1) ?nl (enc_bool i) oa"
    by (simp add: oa_serialize_bool_def enc_bool_def)
  moreover have "\<exists>oa'. oa_put E (bs_len oa - bs_off oa < 1) ?nl (enc_bool i) oa = Some (0, oa') \<and>
      oa_wf oa' \<and> oa_bytes oa' = oa_bytes oa @ enc_bool i"
    by (rule oa_put_ok [OF wf assms room]) (simp_all add: enc_bool_def)
  ultimately show "\<exists>oa'. oa_serialize_bool E i oa = Some (0, oa') \<and> oa_wf oa' \<and>
      oa_bytes oa' = oa_bytes oa @ enc_bool i" by simp
qed

text \<open>
  Strings and buffers are a length and their bytes; both share the second step.
\<close>

lemma oa_put_block:
  assumes "oa_wf oa" and "good_host E" and "bs_off oa + int (length src) \<le> OA_MAX"
    and "n = int (length src)"
  shows "\<exists>oa'. Option.bind (if bs_len oa - bs_off oa < n then c_int (bs_len oa + n) else Some 0)
      (\<lambda>newlen. oa_put E (bs_len oa - bs_off oa < n) newlen src oa) = Some (0, oa') \<and>
    oa_wf oa' \<and> oa_bytes oa' = oa_bytes oa @ src"
proof -
  let ?nl = "if bs_len oa - bs_off oa < n then bs_len oa + n else 0"
  have "0 \<le> bs_off oa" using assms(1) by (simp add: oa_wf_def)
  with assms(3,4) have "n \<le> OA_MAX" "bs_off oa \<le> OA_MAX" by linarith+
  with oa_len_bound [OF assms(1)] assms(1,4)
  have "(if bs_len oa - bs_off oa < n then c_int (bs_len oa + n) else Some 0) = Some ?nl"
    by (auto simp: oa_wf_def)
  moreover have "\<exists>oa'. oa_put E (bs_len oa - bs_off oa < n) ?nl src oa = Some (0, oa') \<and>
      oa_wf oa' \<and> oa_bytes oa' = oa_bytes oa @ src"
    by (rule oa_put_ok [OF assms(1-3)]) (simp_all add: assms(4))
  ultimately show ?thesis by simp
qed

definition enc_string :: "cstr \<Rightarrow> bytes" where
  "enc_string s = (case s of None \<Rightarrow> be32 (- 1) | Some str \<Rightarrow> be32 (of_nat (length str)) @ str)"

definition cbuffer_sendable :: "cbuffer \<Rightarrow> bool" where
  "cbuffer_sendable b \<longleftrightarrow>
     cb_len b = - 1 \<or>
     (case cb_buff b of None \<Rightarrow> cb_len b = 0
      | Some d \<Rightarrow> 0 \<le> sint (cb_len b) \<and> sint (cb_len b) \<le> int (length d))"

definition enc_buffer :: "cbuffer \<Rightarrow> bytes" where
  "enc_buffer b =
     be32 (cb_len b) @
     (if cb_len b = - 1 then []
      else case cb_buff b of None \<Rightarrow> [] | Some d \<Rightarrow> take (nat (sint (cb_len b))) d)"

lemma length_enc_string_less: "length (enc_string (Some str)) = 4 + length str"
  by (simp add: enc_string_def)

lemma oa_writesE:
  assumes "oa_writes f bs" and "oa_wf oa" and "bs_off oa + int (length bs) \<le> OA_MAX"
  obtains oa' where "f oa = Some (0, oa')" and "oa_wf oa'" and "oa_bytes oa' = oa_bytes oa @ bs"
    and "bs_off oa' = bs_off oa + int (length bs)"
proof -
  from oa_writesD [OF assms] obtain oa' where
    *: "f oa = Some (0, oa')" "oa_wf oa'" "oa_bytes oa' = oa_bytes oa @ bs" by blast
  moreover have "bs_off oa' = bs_off oa + int (length bs)"
    using length_oa_bytes [OF *(2)] length_oa_bytes [OF assms(2)] *(3) by simp
  ultimately show thesis by (rule that)
qed

lemma oa_int_step:
  assumes "good_host E" and "oa_wf oa" and "bs_off oa + 4 \<le> OA_MAX"
  obtains oa' where "oa_serialize_int E d oa = Some (0, oa')" and "oa_wf oa'"
    and "oa_bytes oa' = oa_bytes oa @ be32 d" and "bs_off oa' = bs_off oa + 4"
  using oa_writesE [OF oa_serialize_int_writes [OF assms(1)] assms(2), of d] assms(3) by auto

lemma oa_serialize_string_writes [oa_writes_intros]:
  assumes "good_host E"
  shows "oa_writes (oa_serialize_string E s) (enc_string s)"
  unfolding oa_writes_def
proof (intro allI impI, elim conjE)
  fix oa :: oarchive
  assume wf: "oa_wf oa" and room: "bs_off oa + int (length (enc_string s)) \<le> OA_MAX"
  show "\<exists>oa'. oa_serialize_string E s oa = Some (0, oa') \<and> oa_wf oa' \<and>
      oa_bytes oa' = oa_bytes oa @ enc_string s"
  proof (cases s)
    case None
    with room obtain oa' where "oa_serialize_int E (- 1) oa = Some (0, oa')" "oa_wf oa'"
      "oa_bytes oa' = oa_bytes oa @ be32 (- 1)"
      by (auto simp: enc_string_def intro: oa_int_step [OF assms wf, of "- 1"])
    with None show ?thesis by (simp add: oa_serialize_string_def enc_string_def)
  next
    case (Some str)
    have "0 \<le> bs_off oa" using wf by (simp add: oa_wf_def)
    with room Some have small: "int (length str) \<le> OA_MAX" by (simp add: enc_string_def)
    then have l: "to_int32 (int (length str)) = int (length str)" by (simp add: to_int32_id)
    obtain oa1 where 1: "oa_serialize_int E (of_nat (length str)) oa = Some (0, oa1)" "oa_wf oa1"
      "oa_bytes oa1 = oa_bytes oa @ be32 (of_nat (length str))" "bs_off oa1 = bs_off oa + 4"
      by (rule oa_int_step [OF assms wf]) (use room Some in \<open>auto simp: enc_string_def\<close>)
    from room Some 1(4) have "bs_off oa1 + int (length str) \<le> OA_MAX" by (simp add: enc_string_def)
    from oa_put_block [OF 1(2) assms this refl] obtain oa' where
      "Option.bind (if bs_len oa1 - bs_off oa1 < int (length str)
         then c_int (bs_len oa1 + int (length str)) else Some 0)
       (\<lambda>newlen. oa_put E (bs_len oa1 - bs_off oa1 < int (length str)) newlen str oa1) = Some (0, oa')"
      "oa_wf oa'" "oa_bytes oa' = oa_bytes oa1 @ str" by blast
    with Some 1 l show ?thesis
      by (simp add: oa_serialize_string_def enc_string_def mem_read_def)
  qed
qed

lemma oa_serialize_buffer_writes [oa_writes_intros]:
  assumes "good_host E" and "cbuffer_sendable b"
  shows "oa_writes (oa_serialize_buffer E (Some b)) (enc_buffer b)"
  unfolding oa_writes_def
proof (intro allI impI, elim conjE)
  fix oa :: oarchive
  assume wf: "oa_wf oa" and room: "bs_off oa + int (length (enc_buffer b)) \<le> OA_MAX"
  obtain oa1 where 1: "oa_serialize_int E (cb_len b) oa = Some (0, oa1)" "oa_wf oa1"
    "oa_bytes oa1 = oa_bytes oa @ be32 (cb_len b)" "bs_off oa1 = bs_off oa + 4"
    by (rule oa_int_step [OF assms(1) wf]) (use room in \<open>simp add: enc_buffer_def\<close>)
  show "\<exists>oa'. oa_serialize_buffer E (Some b) oa = Some (0, oa') \<and> oa_wf oa' \<and>
      oa_bytes oa' = oa_bytes oa @ enc_buffer b"
  proof (cases "cb_len b = - 1")
    case True
    with 1 show ?thesis by (simp add: oa_serialize_buffer_def enc_buffer_def)
  next
    case False
    define d where "d = (case cb_buff b of None \<Rightarrow> [] | Some d \<Rightarrow> take (nat (sint (cb_len b))) d)"
    have d: "int (length d) = sint (cb_len b)"
      and src: "(if cb_len b = 0 then Some [] else mem_read (cb_buff b) 0 (sint (cb_len b))) = Some d"
      using assms(2) False
      by (auto simp: cbuffer_sendable_def d_def mem_read_def split: option.splits)
    have enc: "enc_buffer b = be32 (cb_len b) @ d" using False by (simp add: enc_buffer_def d_def)
    from room enc 1(4) have "bs_off oa1 + int (length d) \<le> OA_MAX" by simp
    from oa_put_block [OF 1(2) assms(1) this, of "sint (cb_len b)"] d obtain oa' where
      "Option.bind (if bs_len oa1 - bs_off oa1 < sint (cb_len b)
         then c_int (bs_len oa1 + sint (cb_len b)) else Some 0)
       (\<lambda>newlen. oa_put E (bs_len oa1 - bs_off oa1 < sint (cb_len b)) newlen d oa1) = Some (0, oa')"
      "oa_wf oa'" "oa_bytes oa' = oa_bytes oa1 @ d" by auto
    with 1 False src enc show ?thesis
      by (simp add: oa_serialize_buffer_def)
  qed
qed

lemma create_buffer_oarchive_wf:
  "good_host E \<Longrightarrow>
   \<exists>oa. create_buffer_oarchive E = Some oa \<and> oa_wf oa \<and> oa_bytes oa = [] \<and> bs_off oa = 0 \<and> bs_len oa = 128"
  by (simp add: create_buffer_oarchive_def oa_wf_def oa_bytes_def good_hostD)

lemma into_buffer_writes:
  assumes "good_host E" and "oa_writes f bs" and "int (length bs) \<le> OA_MAX"
  shows "\<exists>oa. into_buffer E f = Some (0, oa) \<and> oa_wf oa \<and> oa_bytes oa = bs"
proof -
  obtain oa where oa: "create_buffer_oarchive E = Some oa" "oa_wf oa" "oa_bytes oa = []" "bs_off oa = 0"
    using create_buffer_oarchive_wf [OF assms(1)] by blast
  with oa_writesD [OF assms(2) oa(2)] assms(3) show ?thesis by (auto simp: into_buffer_def)
qed

lemma create_buffer_iarchive_wf:
  assumes "good_host E" and "0 \<le> len" and "len \<le> int (length b)" and "len \<le> INT_MAX"
  shows "\<exists>ia. create_buffer_iarchive E (Some b) len = Some ia \<and> ia_wf ia \<and> ia_rest ia = take (nat len) b"
  using assms by (simp add: create_buffer_iarchive_def good_hostD ia_wf_def ia_rest_def)

lemma reopen_archive:
  assumes "good_host E" and "oa_wf oa" and "int (length (oa_bytes oa)) \<le> OA_MAX"
  shows "\<exists>ia. create_buffer_iarchive E (get_buffer oa) (get_buffer_len oa) = Some ia \<and> ia_wf ia \<and> ia_rest ia = oa_bytes oa"
proof -
  obtain b where b: "bs_buffer oa = Some b" "int (length b) = bs_len oa" using oa_wf_buffer [OF assms(2)] by blast
  have "bs_off oa \<le> OA_MAX" using length_oa_bytes [OF assms(2)] assms(3) by simp
  with assms b create_buffer_iarchive_wf [of E "bs_off oa" b] show ?thesis
    by (simp add: get_buffer_def get_buffer_len_def oa_bytes_def oa_wf_def)
qed

subsection \<open>Deserialisers read back what serialisers wrote\<close>

lemma ia_deserialize_int_reads [ia_reads_intros]: "ia_reads (ia_deserialize_int E) (be32 d) d"
  unfolding ia_reads_def
proof (intro allI impI, elim conjE)
  fix ia :: iarchive and old r
  assume wf: "ia_wf ia" and rest: "ia_rest ia = be32 d @ r"
  note t = ia_take_prefix [OF wf rest, of 4, simplified]
  have "mem_read (bs_buffer ia) (bs_off ia) 4 = Some (be32 d)" using t(2) .
  then have "ia_deserialize_int E (ia, old) = Some (0, ia\<lparr>bs_off := bs_off ia + 4\<rparr>, d)"
    using t(1) by (simp add: ia_deserialize_int_def ia_room [OF wf] ntohl_of_host32)
  with t(3,4) show "\<exists>ia'. ia_deserialize_int E (ia, old) = Some (0, ia', d) \<and> ia_wf ia' \<and> ia_rest ia' = r"
    by blast
qed

lemma ia_deserialize_long_reads [ia_reads_intros]: "ia_reads (ia_deserialize_long E) (be64 d) d"
  unfolding ia_reads_def
proof (intro allI impI, elim conjE)
  fix ia :: iarchive and old r
  assume wf: "ia_wf ia" and rest: "ia_rest ia = be64 d @ r"
  note t = ia_take_prefix [OF wf rest, of 8, simplified]
  have "ia_deserialize_long E (ia, old) = Some (0, ia\<lparr>bs_off := bs_off ia + 8\<rparr>, d)"
    using t(1,2) by (simp add: ia_deserialize_long_def ia_room [OF wf] zoo_htonll_of_host64)
  with t(3,4) show "\<exists>ia'. ia_deserialize_long E (ia, old) = Some (0, ia', d) \<and> ia_wf ia' \<and> ia_rest ia' = r"
    by blast
qed

lemma ia_start_vector_reads [ia_reads_intros]: "ia_reads (ia_start_vector E) (be32 d) d"
  using ia_deserialize_int_reads [of E d] by (simp add: ia_reads_def ia_start_vector_def)

lemma ia_deserialize_bool_reads [ia_reads_intros]:
  "ia_reads ia_deserialize_bool (enc_bool i) (if i = 0 then 0 else 1)"
  unfolding ia_reads_def
proof (intro allI impI, elim conjE)
  fix ia :: iarchive and old r
  assume wf: "ia_wf ia" and rest: "ia_rest ia = enc_bool i @ r"
  have one: "(1::int) = int (length (enc_bool i))" by (simp add: enc_bool_def)
  note t = ia_take_prefix [OF wf rest one]
  have "word_of_int (schar (hd (enc_bool i))) = (if i = 0 then 0 else 1 :: i32)"
    by (simp add: enc_bool_def schar_def)
  then have "ia_deserialize_bool (ia, old) =
      Some (0, ia\<lparr>bs_off := bs_off ia + 1\<rparr>, if i = 0 then 0 else 1)"
    using t(1,2) by (simp add: ia_deserialize_bool_def)
  with t(3,4) show "\<exists>ia'. ia_deserialize_bool (ia, old) = Some (0, ia', if i = 0 then 0 else 1) \<and>
      ia_wf ia' \<and> ia_rest ia' = r" by blast
qed

lemma ia_readsE:
  assumes "ia_reads g bs v" and "ia_wf ia" and "ia_rest ia = bs @ r"
  obtains ia' where "g (ia, old) = Some (0, ia', v)" and "ia_wf ia'" and "ia_rest ia' = r"
  using ia_readsD [OF assms] by blast

definition cstr_sendable :: "cstr \<Rightarrow> bool" where
  \<comment> \<open>a non-null C string that fits the archives\<close>
  "cstr_sendable s = (case s of None \<Rightarrow> False | Some str \<Rightarrow> NUL \<notin> set str \<and> int (length str) \<le> OA_MAX)"

lemma sint_of_nat_small: "int n \<le> INT_MAX \<Longrightarrow> sint (of_nat n :: i32) = int n"
  using sint_word_of_int32 [of "int n"] by simp

lemma ia_deserialize_string_reads [ia_reads_intros]:
  assumes "good_host E" and "cstr_sendable s"
  shows "ia_reads (ia_deserialize_string E) (enc_string s) s"
  unfolding ia_reads_def
proof (intro allI impI, elim conjE)
  fix ia :: iarchive and old r
  assume wf: "ia_wf ia" and rest: "ia_rest ia = enc_string s @ r"
  from assms(2) obtain str where s: "s = Some str" "NUL \<notin> set str" "int (length str) \<le> OA_MAX"
    by (auto simp: cstr_sendable_def split: option.splits)
  with rest have "ia_rest ia = be32 (of_nat (length str)) @ str @ r" by (simp add: enc_string_def)
  with wf obtain ia1 where 1: "ia_deserialize_int E (ia, 0) = Some (0, ia1, of_nat (length str))"
    "ia_wf ia1" "ia_rest ia1 = str @ r"
    by (rule ia_readsE [OF ia_deserialize_int_reads])
  have l: "sint (of_nat (length str) :: i32) = int (length str)"
    using s(3) by (intro sint_of_nat_small) simp
  note t = ia_take_prefix [OF 1(2,3) refl]
  have "grants E (to_size (int (length str) + 1))" using s(3) by (simp add: good_hostD [OF assms(1)])
  then have "ia_deserialize_string E (ia, old) =
      Some (0, ia1\<lparr>bs_off := bs_off ia1 + int (length str)\<rparr>, s)"
    using 1(1) t(1,2) s l by (simp add: ia_deserialize_string_def)
  with t(3,4) show "\<exists>ia'. ia_deserialize_string E (ia, old) = Some (0, ia', s) \<and> ia_wf ia' \<and> ia_rest ia' = r"
    by blast
qed

definition cbuffer_ok :: "cbuffer \<Rightarrow> bool" where
  "cbuffer_ok b \<longleftrightarrow>
     (case cb_buff b of None \<Rightarrow> cb_len b = - 1
      | Some d \<Rightarrow> sint (cb_len b) = int (length d) \<and> int (length d) \<le> OA_MAX)"

lemma cbuffer_ok_sendable: "cbuffer_ok b \<Longrightarrow> cbuffer_sendable b"
  by (auto simp: cbuffer_ok_def cbuffer_sendable_def split: option.splits)

lemma ia_deserialize_buffer_reads [ia_reads_intros]:
  assumes "good_host E" and "cbuffer_ok b"
  shows "ia_reads (ia_deserialize_buffer E) (enc_buffer b) b"
  unfolding ia_reads_def
proof (intro allI impI, elim conjE)
  fix ia :: iarchive and old :: cbuffer and r
  assume wf: "ia_wf ia" and rest: "ia_rest ia = enc_buffer b @ r"
  define d where "d = (case cb_buff b of None \<Rightarrow> [] | Some d \<Rightarrow> d)"
  have enc: "enc_buffer b = be32 (cb_len b) @ d"
    using assms(2) by (auto simp: enc_buffer_def cbuffer_ok_def d_def split: option.splits)
  with rest have "ia_rest ia = be32 (cb_len b) @ d @ r" by simp
  with wf obtain ia1 where 1: "ia_deserialize_int E (ia, cb_len old) = Some (0, ia1, cb_len b)"
    "ia_wf ia1" "ia_rest ia1 = d @ r"
    by (rule ia_readsE [OF ia_deserialize_int_reads])
  show "\<exists>ia'. ia_deserialize_buffer E (ia, old) = Some (0, ia', b) \<and> ia_wf ia' \<and> ia_rest ia' = r"
  proof (cases "cb_buff b")
    case None
    moreover have "- 1 \<le> bs_len ia1 - bs_off ia1" using 1(2) by (simp add: ia_wf_def)
    ultimately have "ia_deserialize_buffer E (ia, old) = Some (0, ia1, b)"
      using 1(1) assms(2) by (cases b, cases old) (simp add: ia_deserialize_buffer_def cbuffer_ok_def)
    with 1 None show ?thesis by (simp add: d_def)
  next
    case (Some x)
    then have x: "x = d" "sint (cb_len b) = int (length d)" "int (length d) \<le> OA_MAX" "cb_len b \<noteq> - 1"
      using assms(2) by (auto simp: cbuffer_ok_def d_def)
    note t = ia_take_prefix [OF 1(2,3) refl]
    have "grants E (to_size (int (length d)))" using x by (simp add: good_hostD [OF assms(1)])
    then have "ia_deserialize_buffer E (ia, old) =
        Some (0, ia1\<lparr>bs_off := bs_off ia1 + int (length d)\<rparr>, b)"
      using 1(1) t(1,2) x Some by (cases b) (simp add: ia_deserialize_buffer_def)
    with t(3,4) show ?thesis by blast
  qed
qed

subsection \<open>No input makes a deserialiser read out of bounds\<close>

lemma ia_safeI:
  "(\<And>ia old. ia_wf ia \<Longrightarrow> \<exists>rc ia' v. g (ia, old) = Some (rc, ia', v) \<and> ia_wf ia') \<Longrightarrow> ia_safe g"
  by (simp add: ia_safe_def)

lemma ia_safeE:
  assumes "ia_safe g" and "ia_wf ia"
  obtains rc ia' v where "g (ia, old) = Some (rc, ia', v)" and "ia_wf ia'"
  using assms unfolding ia_safe_def by blast

lemma ia_deserialize_int_cases:
  assumes "ia_wf ia"
  shows "bs_len ia - bs_off ia < 4 \<and> ia_deserialize_int E (ia, old) = Some (- E2BIG, ia, old) \<or>
    4 \<le> bs_len ia - bs_off ia \<and>
      ia_deserialize_int E (ia, old) =
        Some (0, ia\<lparr>bs_off := bs_off ia + 4\<rparr>, of_be32 (take 4 (ia_rest ia))) \<and>
      ia_wf (ia\<lparr>bs_off := bs_off ia + 4\<rparr>)"
proof (cases "bs_len ia - bs_off ia < 4")
  case True
  then show ?thesis by (simp add: ia_deserialize_int_def ia_room [OF assms])
next
  case False
  then have "int (length (ia_rest ia)) \<ge> 4" using length_ia_rest [OF assms] by simp
  then have "length (take 4 (ia_rest ia)) = 4" by simp
  with False ia_take [OF assms, of 4] show ?thesis
    by (simp add: ia_deserialize_int_def ia_room [OF assms] ntohl_of_host32)
qed

lemma ia_deserialize_int_safe: "ia_safe (ia_deserialize_int E)"
  by (rule ia_safeI) (use ia_deserialize_int_cases in blast)

lemma ia_deserialize_long_safe: "ia_safe (ia_deserialize_long E)"
proof (rule ia_safeI)
  fix ia :: iarchive and old :: i64
  assume wf: "ia_wf ia"
  show "\<exists>rc ia' v. ia_deserialize_long E (ia, old) = Some (rc, ia', v) \<and> ia_wf ia'"
    using ia_take [OF wf, of 8] wf by (simp add: ia_deserialize_long_def ia_room)
qed

lemma ia_deserialize_bool_safe: "ia_safe ia_deserialize_bool"
proof (rule ia_safeI)
  fix ia :: iarchive and old :: i32
  assume wf: "ia_wf ia"
  show "\<exists>rc ia' v. ia_deserialize_bool (ia, old) = Some (rc, ia', v) \<and> ia_wf ia'"
    using ia_take [OF wf, of 1] wf by (simp add: ia_deserialize_bool_def)
qed

lemma ia_start_vector_safe: "ia_safe (ia_start_vector E)"
  using ia_deserialize_int_safe [of E] by (simp add: ia_safe_def ia_start_vector_def)

lemma ia_deserialize_buffer_safe:
  assumes "sane_host E"
  shows "ia_safe (ia_deserialize_buffer E)"
proof (rule ia_safeI)
  fix ia :: iarchive and old :: cbuffer
  assume "ia_wf ia"
  then obtain rc ia1 l where 1: "ia_deserialize_int E (ia, cb_len old) = Some (rc, ia1, l)" "ia_wf ia1"
    by (rule ia_safeE [OF ia_deserialize_int_safe])
  have neg: "sint l < 0 \<Longrightarrow> \<not> grants E (to_size (sint l))"
    using assms sint32_range [of l] by (force simp: sane_host_def to_size_neg)
  show "\<exists>rc ia' v. ia_deserialize_buffer E (ia, old) = Some (rc, ia', v) \<and> ia_wf ia'"
  proof (cases "0 \<le> sint l")
    case True
    with 1 ia_take [OF 1(2), of "sint l"] show ?thesis
      by (auto simp: ia_deserialize_buffer_def not_less)
  next
    case False
    with 1 neg show ?thesis by (auto simp: ia_deserialize_buffer_def)
  qed
qed

lemma ia_deserialize_string_safe: "ia_safe (ia_deserialize_string E)"
proof (rule ia_safeI)
  fix ia :: iarchive and old :: cstr
  assume wf: "ia_wf ia"
  show "\<exists>rc ia' v. ia_deserialize_string E (ia, old) = Some (rc, ia', v) \<and> ia_wf ia'"
    using ia_deserialize_int_cases [OF wf, of E 0]
  proof (elim disjE conjE)
    assume "ia_deserialize_int E (ia, 0) = Some (- E2BIG, ia, 0)"
    with wf show ?thesis by (simp add: ia_deserialize_string_def)
  next
    define ia1 where "ia1 = ia\<lparr>bs_off := bs_off ia + 4\<rparr>"
    define l where "l = of_be32 (take 4 (ia_rest ia))"
    assume "ia_deserialize_int E (ia, 0) =
        Some (0, ia\<lparr>bs_off := bs_off ia + 4\<rparr>, of_be32 (take 4 (ia_rest ia)))"
      and "ia_wf (ia\<lparr>bs_off := bs_off ia + 4\<rparr>)" and "4 \<le> bs_len ia - bs_off ia"
    then have 1: "ia_deserialize_int E (ia, 0) = Some (0, ia1, l)" "ia_wf ia1"
      by (simp_all add: ia1_def l_def)
    have "bs_len ia1 - bs_off ia1 < INT_MAX" using wf by (simp add: ia1_def ia_wf_def)
    then have "sint l \<le> bs_len ia1 - bs_off ia1 \<Longrightarrow> 0 \<le> sint l \<Longrightarrow> c_int (sint l + 1) = Some (sint l + 1)"
      by simp
    with 1 ia_take [OF 1(2), of "sint l"] show ?thesis
      by (auto simp: ia_deserialize_string_def not_less)
  qed
qed

lemmas ia_safe_prims =
  ia_deserialize_int_safe ia_deserialize_long_safe ia_deserialize_bool_safe
  ia_deserialize_buffer_safe ia_deserialize_string_safe

section \<open>Codecs\<close>

text \<open>
  The contract every record of the wire protocol keeps: on acceptable values the serialiser appends
  the wire image, and the deserialiser reads that image back to the same value.
\<close>

locale codec =
  fixes ser :: "host \<Rightarrow> 'a \<Rightarrow> oarchive \<Rightarrow> oa_result"
    and deser :: "host \<Rightarrow> iarchive \<times> 'a \<Rightarrow> 'a ia_result"
    and enc :: "'a \<Rightarrow> bytes"
    and ok :: "'a \<Rightarrow> bool"
  assumes writes: "good_host E \<Longrightarrow> ok v \<Longrightarrow> oa_writes (ser E v) (enc v)"
    and reads: "good_host E \<Longrightarrow> ok v \<Longrightarrow> ia_reads (deser E) (enc v) v"
begin

lemma written:
  assumes "good_host E" and "ok v" and "int (length (enc v)) \<le> OA_MAX"
  shows "\<exists>oa. into_buffer E (ser E v) = Some (0, oa) \<and> oa_wf oa \<and> oa_bytes oa = enc v"
  using assms(1) writes [OF assms(1,2)] assms(3) by (rule into_buffer_writes)

lemma roundtrip:
  assumes "good_host E" and "ok v" and "int (length (enc v)) \<le> OA_MAX"
  shows "\<exists>oa ia. into_buffer E (ser E v) = Some (0, oa) \<and>
    from_buffer E (deser E) oa old = Some (0, ia, v) \<and>
    ia_rest ia = []"
proof -
  from written [OF assms] obtain oa where
    oa: "into_buffer E (ser E v) = Some (0, oa)" "oa_wf oa" "oa_bytes oa = enc v" by blast
  then obtain ia where ia: "create_buffer_iarchive E (get_buffer oa) (get_buffer_len oa) = Some ia" "ia_wf ia"
    "ia_rest ia = enc v @ []"
    using reopen_archive [OF assms(1), of oa] assms(3) by auto
  from ia_readsD [OF reads [OF assms(1,2)] ia(2,3)] oa(1) ia(1) show ?thesis by (auto simp: from_buffer_def)
qed

end

interpretation int_codec: codec oa_serialize_int ia_deserialize_int be32 "\<lambda>_. True"
  by unfold_locales (auto intro: oa_serialize_int_writes ia_deserialize_int_reads)

interpretation long_codec: codec oa_serialize_long ia_deserialize_long be64 "\<lambda>_. True"
  by unfold_locales (auto intro: oa_serialize_long_writes ia_deserialize_long_reads)

interpretation string_codec: codec oa_serialize_string ia_deserialize_string enc_string cstr_sendable
  by unfold_locales (auto intro: oa_serialize_string_writes ia_deserialize_string_reads)

interpretation buffer_codec: codec "\<lambda>E b. oa_serialize_buffer E (Some b)" ia_deserialize_buffer
  enc_buffer cbuffer_ok
  by unfold_locales
     (auto intro: oa_serialize_buffer_writes ia_deserialize_buffer_reads cbuffer_ok_sendable)

section \<open>Properties\<close>

definition test_host :: "bool \<Rightarrow> host" where
  \<comment> \<open>a host that grants every request below \<open>2 ^ 63\<close>\<close>
  "test_host be = \<lparr>grants = (\<lambda>n. n < 2 ^ 63), extends = (\<lambda>_. False), big_endian = be\<rparr>"

lemma test_host_good [simp]: "good_host (test_host be)"
  by (simp add: good_host_def test_host_def)

lemma test_host_sane [simp]: "sane_host (test_host be)"
  by (simp add: sane_host_def test_host_def)

text \<open>
  Growing the output archive: while the archive holds fewer than \<open>OA_MAX\<close> bytes, the doubling loop
  of \<^verbatim>\<open>resize_buffer\<close> terminates without overflowing \<^verbatim>\<open>int\<close>, the request is granted, the new block has
  room for the \<open>n\<close> bytes and is at most four times what is needed, and nothing already written is lost.
\<close>

theorem resize_buffer_grows:
  assumes "oa_wf oa" and "good_host E" and "bs_len oa - bs_off oa < n" and "bs_off oa + n \<le> OA_MAX"
  shows "\<exists>oa'. resize_buffer E oa (bs_len oa + n) = Some (0, oa') \<and>
     bs_off oa' = bs_off oa \<and> bs_off oa + n \<le> bs_len oa' \<and> bs_len oa' \<le> 4 * (bs_off oa + n) \<and>
     oa_bytes oa' = oa_bytes oa"
  using resize_buffer_ok [OF assms] by blast

theorem resize_buffer_grows_witness:
  "\<exists>oa oa'. create_buffer_oarchive (test_host False) = Some oa \<and>
     resize_buffer (test_host False) oa (128 + 300) = Some (0, oa') \<and> 300 \<le> bs_len oa'"
proof -
  obtain c where c: "create_buffer_oarchive (test_host False) = Some c" "bs_len c = 128" "bs_off c = 0" "oa_wf c"
    using create_buffer_oarchive_wf [of "test_host False"] by auto
  with resize_buffer_grows [of c "test_host False" 300] show ?thesis by auto
qed

text \<open>
  Whatever bytes an archive holds that is no longer than its block, the string and the buffer deserialisers return a code without reading
  outside the block, and leave the archive well formed: the length prefix is checked against
  what is left before it is used. (For the buffer the refusal of a negative length other than -1 rests on the
  allocator refusing a request of more than \<open>2 ^ 63\<close> bytes.)
\<close>

theorem deserialize_in_bounds:
  assumes "sane_host E" and "ia_wf ia"
  shows "(\<exists>rc ia' s. ia_deserialize_string E (ia, old) = Some (rc, ia', s) \<and> ia_wf ia') \<and>
         (\<exists>rc ia' b. ia_deserialize_buffer E (ia, b0) = Some (rc, ia', b) \<and> ia_wf ia')"
  using ia_deserialize_string_safe [of E] ia_deserialize_buffer_safe [OF assms(1)] assms(2)
  by (simp add: ia_safe_def)

definition lying_length :: iarchive where
  \<comment> \<open>five bytes that announce a string of \<open>INT_MAX\<close> bytes\<close>
  "lying_length = \<lparr>bs_len = 5, bs_off = 0, bs_buffer = Some [CHR 0x7F, CHR 0xFF, CHR 0xFF, CHR 0xFF, CHR ''a'']\<rparr>"

theorem deserialize_in_bounds_witness:
  "\<exists>rc ia' s. ia_deserialize_string (test_host False) (lying_length, None) = Some (rc, ia', s) \<and> ia_wf ia'"
  using deserialize_in_bounds [of "test_host False" lying_length None] by (simp add: ia_wf_def lying_length_def)

text \<open>
  A string of up to \<open>OA_MAX - 4\<close> bytes without NUL that is serialised into a fresh archive, on a host of
  either byte order, is deserialised to itself from that archive's bytes, all of which are consumed.
\<close>

theorem string_roundtrip:
  assumes "good_host E" and "NUL \<notin> set s" and "int (length s) + 4 \<le> OA_MAX"
  shows "\<exists>oa ia. into_buffer E (oa_serialize_string E (Some s)) = Some (0, oa) \<and>
    from_buffer E (ia_deserialize_string E) oa old =
      Some (0, ia, Some s) \<and> ia_rest ia = []"
  using assms by (intro string_codec.roundtrip) (auto simp: cstr_sendable_def enc_string_def)

theorem string_roundtrip_witness:
  "\<exists>oa ia. into_buffer (test_host False) (oa_serialize_string (test_host False) (Some ''/zk'')) = Some (0, oa) \<and>
    from_buffer (test_host False) (ia_deserialize_string (test_host False)) oa None =
      Some (0, ia, Some ''/zk'') \<and> ia_rest ia = []"
  by (rule string_roundtrip) simp_all

text \<open>
  A null string is sent as the length -1, which the deserialiser refuses with \<^verbatim>\<open>-EINVAL\<close>: a null string
  does not survive a round trip.
\<close>

theorem null_string_refused:
  assumes "good_host E"
  shows "\<exists>oa ia. into_buffer E (oa_serialize_string E None) = Some (0, oa) \<and>
    oa_bytes oa = be32 (- 1) \<and>
    from_buffer E (ia_deserialize_string E) oa old =
      Some (- EINVAL, ia, old)"
proof -
  obtain oa where oa: "into_buffer E (oa_serialize_string E None) = Some (0, oa)" "oa_wf oa" "oa_bytes oa = be32 (- 1)"
    using into_buffer_writes [OF assms oa_serialize_string_writes [OF assms, of None]] by (auto simp: enc_string_def)
  then obtain ia where ia: "create_buffer_iarchive E (get_buffer oa) (get_buffer_len oa) = Some ia" "ia_wf ia"
    "ia_rest ia = be32 (- 1) @ []"
    using reopen_archive [OF assms, of oa] by auto
  from ia(2,3) obtain ia1 where ia1: "ia_deserialize_int E (ia, 0) = Some (0, ia1, - 1)" "ia_wf ia1"
    by (rule ia_readsE [OF ia_deserialize_int_reads])
  then have "\<not> bs_len ia1 - bs_off ia1 < - 1" by (simp add: ia_wf_def)
  with ia1 oa ia(1) show ?thesis by (simp add: ia_deserialize_string_def from_buffer_def)
qed

theorem null_string_refused_witness:
  "\<exists>oa ia. into_buffer (test_host True) (oa_serialize_string (test_host True) None) = Some (0, oa) \<and>
    oa_bytes oa = be32 (- 1) \<and>
    from_buffer (test_host True) (ia_deserialize_string (test_host True)) oa (Some ''x'') =
      Some (- EINVAL, ia, Some ''x'')"
  by (rule null_string_refused) simp

end
