(* ===== verification/JuteBase.thy ===== *)
theory JuteBase
  imports Recordio
begin

text \<open>
  The shapes the generated code of \<^verbatim>\<open>generated/zookeeper.jute.c\<close> is made of. A record is its fields
  in order between \<^verbatim>\<open>start_record\<close> and \<^verbatim>\<open>end_record\<close>, each step skipped once a step failed
  (\<^verbatim>\<open>rc = rc ? rc : step\<close>); a vector is its count and its elements. The lemmas lift what the steps
  append or consume to whole records and vectors, so that the codec of each record is a list of facts
  about its fields.
\<close>

section \<open>Records\<close>

fun oa_seq :: "(oarchive \<Rightarrow> oa_result) list \<Rightarrow> int \<times> oarchive \<Rightarrow> oa_result" where
  "oa_seq [] (rc, oa) = Some (rc, oa)"
| "oa_seq (f # fs) (rc, oa) = Option.bind (if rc \<noteq> 0 then Some (rc, oa) else f oa) (oa_seq fs)"

definition oa_record :: "(oarchive \<Rightarrow> oa_result) list \<Rightarrow> oarchive \<Rightarrow> oa_result" where
  "oa_record fs oa = Option.bind (oa_start_record oa) (oa_seq (fs @ [oa_end_record]))"

fun ia_seq :: "(iarchive \<times> 'r \<Rightarrow> 'r ia_result) list \<Rightarrow> int \<times> iarchive \<times> 'r \<Rightarrow> 'r ia_result" where
  "ia_seq [] (rc, st) = Some (rc, st)"
| "ia_seq (f # fs) (rc, st) = Option.bind (if rc \<noteq> 0 then Some (rc, st) else f st) (ia_seq fs)"

definition ia_field ::
  "('r \<Rightarrow> 'a) \<Rightarrow> (('a \<Rightarrow> 'a) \<Rightarrow> 'r \<Rightarrow> 'r) \<Rightarrow> (iarchive \<times> 'a \<Rightarrow> 'a ia_result) \<Rightarrow>
   iarchive \<times> 'r \<Rightarrow> 'r ia_result" where
  \<comment> \<open>deserialise into a field of the structure\<close>
  "ia_field get upd g = (\<lambda>(ia, r). do {
     (rc, ia, x) \<leftarrow> g (ia, get r);
     Some (rc, ia, upd (\<lambda>_. x) r)
   })"

definition ia_record :: "(iarchive \<times> 'r \<Rightarrow> 'r ia_result) list \<Rightarrow> iarchive \<times> 'r \<Rightarrow> 'r ia_result" where
  "ia_record gs st = Option.bind (ia_start_record st) (ia_seq (gs @ [ia_end_record]))"

section \<open>Vectors\<close>

record 'a vector =
  vec_count :: i32
  vec_data :: "'a list option"

definition vec_get :: "'a list option \<Rightarrow> nat \<Rightarrow> 'a option" where
  \<comment> \<open>\<^verbatim>\<open>v->data[i]\<close>, undefined on a null or a too short array\<close>
  "vec_get d i = (case d of None \<Rightarrow> None | Some xs \<Rightarrow> if i < length xs then Some (xs ! i) else None)"

definition vec_set :: "'a list option \<Rightarrow> nat \<Rightarrow> 'a \<Rightarrow> 'a list option option" where
  "vec_set d i x =
     (case d of None \<Rightarrow> None | Some xs \<Rightarrow> if i < length xs then Some (Some (xs[i := x])) else None)"

fun vec_ser_loop ::
  "('a \<Rightarrow> oarchive \<Rightarrow> oa_result) \<Rightarrow> 'a list option \<Rightarrow> nat \<Rightarrow> nat \<Rightarrow> int \<times> oarchive \<Rightarrow> oa_result" where
  "vec_ser_loop f d 0 i (rc, oa) = Some (rc, oa)"
| "vec_ser_loop f d (Suc k) i (rc, oa) =
     Option.bind (if rc \<noteq> 0 then Some (rc, oa) else Option.bind (vec_get d i) (\<lambda>x. f x oa))
       (vec_ser_loop f d k (Suc i))"

definition serialize_vector ::
  "(host \<Rightarrow> 'a \<Rightarrow> oarchive \<Rightarrow> oa_result) \<Rightarrow> host \<Rightarrow> 'a vector \<Rightarrow> oarchive \<Rightarrow> oa_result" where
  "serialize_vector f E v oa = do {
     r \<leftarrow> oa_start_vector E (vec_count v) oa;
     (rc, oa) \<leftarrow> vec_ser_loop (f E) (vec_data v) (nat (sint (vec_count v))) 0 r;
     if rc \<noteq> 0 then Some (rc, oa) else oa_end_vector oa
   }"

fun vec_deser_loop ::
  "(iarchive \<times> 'a \<Rightarrow> 'a ia_result) \<Rightarrow> nat \<Rightarrow> nat \<Rightarrow> int \<times> iarchive \<times> 'a list option \<Rightarrow>
   'a list option ia_result" where
  "vec_deser_loop g 0 i (rc, ia, d) = Some (rc, ia, d)"
| "vec_deser_loop g (Suc k) i (rc, ia, d) =
     Option.bind
       (if rc \<noteq> 0 then Some (rc, ia, d)
        else do {
          x \<leftarrow> vec_get d i;
          (rc, ia, x) \<leftarrow> g (ia, x);
          d \<leftarrow> vec_set d i x;
          Some (rc, ia, d)
        })
       (vec_deser_loop g k (Suc i))"

definition calloc_vec :: "host \<Rightarrow> int \<Rightarrow> 'a \<Rightarrow> i32 \<Rightarrow> 'a list option" where
  \<comment> \<open>\<^verbatim>\<open>calloc(count, size)\<close>: refused when the product leaves \<^verbatim>\<open>size_t\<close> or the allocator says so\<close>
  "calloc_vec E sz zero c =
     (if to_size (sint c) * sz < 2 ^ 64 \<and> grants E (to_size (sint c) * sz)
      then Some (replicate (nat (sint c)) zero) else None)"

definition deserialize_vector ::
  "int \<Rightarrow> 'a \<Rightarrow> (host \<Rightarrow> iarchive \<times> 'a \<Rightarrow> 'a ia_result) \<Rightarrow> host \<Rightarrow>
   iarchive \<times> 'a vector \<Rightarrow> 'a vector ia_result" where
  \<comment> \<open>the last statement is \<^verbatim>\<open>rc = in->end_vector(in, tag)\<close>: what the elements returned is dropped\<close>
  "deserialize_vector sz zero g E = (\<lambda>(ia, v). do {
     (rc, ia, c) \<leftarrow> ia_start_vector E (ia, vec_count v);
     (rc, ia, d) \<leftarrow> vec_deser_loop (g E) (nat (sint c)) 0 (rc, ia, calloc_vec E sz zero c);
     let (rc, ia) = ia_end_vector ia;
     Some (rc, ia, \<lparr>vec_count = c, vec_data = d\<rparr>)
   })"

definition allocate_vector :: "host \<Rightarrow> int \<Rightarrow> 'a \<Rightarrow> i32 \<Rightarrow> 'a vector" where
  "allocate_vector E sz zero len =
     (if len = 0 then \<lparr>vec_count = 0, vec_data = None\<rparr>
      else \<lparr>vec_count = len, vec_data = calloc_vec E sz zero len\<rparr>)"

fun dealloc_loop :: "('a \<Rightarrow> 'a option) \<Rightarrow> 'a list option \<Rightarrow> nat \<Rightarrow> nat \<Rightarrow> unit option" where
  "dealloc_loop f d 0 i = Some ()"
| "dealloc_loop f d (Suc k) i = do { x \<leftarrow> vec_get d i; x \<leftarrow> f x; dealloc_loop f d k (Suc i) }"

definition deallocate_vector :: "('a \<Rightarrow> 'a option) \<Rightarrow> 'a vector \<Rightarrow> 'a vector option" where
  \<comment> \<open>the count survives the deallocation\<close>
  "deallocate_vector f v =
     (if vec_data v = None then Some v
      else do {
        u \<leftarrow> dealloc_loop f (vec_data v) (nat (sint (vec_count v))) 0;
        Some (v\<lparr>vec_data := None\<rparr>)
      })"

section \<open>What records write and read\<close>

lemma oa_seq_writes:
  assumes "list_all2 oa_writes fs bss" and "oa_wf oa" and "bs_off oa + int (length (concat bss)) \<le> OA_MAX"
  shows "\<exists>oa'. oa_seq fs (0, oa) = Some (0, oa') \<and> oa_wf oa' \<and> oa_bytes oa' = oa_bytes oa @ concat bss"
  using assms
proof (induction fs bss arbitrary: oa rule: list_all2_induct)
  case (Cons f fs bs bss)
  from Cons.prems(2) have room: "bs_off oa + int (length bs) \<le> OA_MAX" by simp
  obtain oa1 where 1: "f oa = Some (0, oa1)" "oa_wf oa1" "oa_bytes oa1 = oa_bytes oa @ bs"
    using oa_writesD [OF Cons.hyps(1) Cons.prems(1) room] by blast
  then have "bs_off oa1 = bs_off oa + int (length bs)"
    using length_oa_bytes [OF 1(2)] length_oa_bytes [OF Cons.prems(1)] by simp
  with Cons.prems(2) Cons.IH [OF 1(2)] 1 show ?case by (auto simp: algebra_simps)
qed simp

lemma oa_end_record_writes: "oa_writes oa_end_record []"
  by (simp add: oa_writes_def oa_end_record_def)

lemma oa_record_writes:
  assumes "list_all2 oa_writes fs bss"
  shows "oa_writes (oa_record fs) (concat bss)"
proof -
  have "list_all2 oa_writes (fs @ [oa_end_record]) (bss @ [[]])"
    using assms oa_end_record_writes by (simp add: list_all2_appendI)
  from oa_seq_writes [OF this] show ?thesis
    by (simp add: oa_writes_def oa_record_def oa_start_record_def)
qed

definition ia_updates ::
  "(iarchive \<times> 'r \<Rightarrow> 'r ia_result) list \<Rightarrow> bytes list \<Rightarrow> ('r \<Rightarrow> 'r) \<Rightarrow> bool" where
  \<comment> \<open>the steps consume these images one after the other and update the structure by \<open>u\<close>\<close>
  "ia_updates gs bss u \<longleftrightarrow> (\<forall>ia v r. ia_wf ia \<and> ia_rest ia = concat bss @ r \<longrightarrow>
     (\<exists>ia'. ia_seq (gs @ [ia_end_record]) (0, ia, v) = Some (0, ia', u v) \<and> ia_wf ia' \<and> ia_rest ia' = r))"

lemma ia_updates_Nil: "ia_updates [] [] (\<lambda>r. r)"
  by (simp add: ia_updates_def ia_end_record_def)

lemma ia_updates_Cons:
  assumes "ia_reads g bs x" and "ia_updates gs bss u"
  shows "ia_updates (ia_field get upd g # gs) (bs # bss) (\<lambda>r. u (upd (\<lambda>_. x) r))"
  unfolding ia_updates_def
proof (intro allI impI, elim conjE)
  fix ia v r assume wf: "ia_wf ia" and "ia_rest ia = concat (bs # bss) @ r"
  then have "ia_rest ia = bs @ concat bss @ r" by simp
  from assms(1) wf this obtain ia1 where
    1: "g (ia, get v) = Some (0, ia1, x)" "ia_wf ia1" "ia_rest ia1 = concat bss @ r"
    by (rule ia_readsE)
  with assms(2) show "\<exists>ia'. ia_seq ((ia_field get upd g # gs) @ [ia_end_record]) (0, ia, v) =
      Some (0, ia', u (upd (\<lambda>_. x) v)) \<and> ia_wf ia' \<and> ia_rest ia' = r"
    by (simp add: ia_field_def ia_updates_def)
qed

lemma ia_record_reads:
  assumes "ia_updates gs bss u" and "\<And>r. u r = v"
  shows "ia_reads (ia_record gs) (concat bss) v"
  using assms by (simp add: ia_updates_def ia_reads_def ia_record_def ia_start_record_def)

lemma ia_field_safe: "ia_safe g \<Longrightarrow> ia_safe (ia_field get upd g)"
proof (rule ia_safeI)
  fix ia :: iarchive and old
  assume "ia_safe g" and "ia_wf ia"
  then obtain rc ia' x where "g (ia, get old) = Some (rc, ia', x)" "ia_wf ia'"
    by (rule ia_safeE)
  then show "\<exists>rc ia' v. ia_field get upd g (ia, old) = Some (rc, ia', v) \<and> ia_wf ia'"
    by (simp add: ia_field_def)
qed

lemma ia_seq_safe:
  assumes "list_all ia_safe gs" and "ia_wf ia"
  shows "\<exists>rc' ia' v'. ia_seq gs (rc, ia, v) = Some (rc', ia', v') \<and> ia_wf ia'"
  using assms
proof (induction gs arbitrary: rc ia v)
  case (Cons g gs)
  from Cons.prems have "ia_safe g" by simp
  then obtain rc1 ia1 v1 where 1: "g (ia, v) = Some (rc1, ia1, v1)" "ia_wf ia1"
    using Cons.prems(2) by (rule ia_safeE)
  with Cons.IH [of ia1] Cons.IH [of ia] Cons.prems show ?case by simp
qed simp

lemma ia_record_safe: "list_all ia_safe gs \<Longrightarrow> ia_safe (ia_record gs)"
proof (rule ia_safeI)
  fix ia :: iarchive and old
  assume "list_all ia_safe gs" and wf: "ia_wf ia"
  moreover have "ia_safe ia_end_record" by (simp add: ia_safe_def ia_end_record_def)
  ultimately have "list_all ia_safe (gs @ [ia_end_record])" by simp
  from ia_seq_safe [OF this wf] show "\<exists>rc ia' v. ia_record gs (ia, old) = Some (rc, ia', v) \<and> ia_wf ia'"
    by (simp add: ia_record_def ia_start_record_def)
qed

section \<open>What vectors write and read\<close>

definition vec_list :: "'a vector \<Rightarrow> 'a list" where
  \<comment> \<open>the elements a vector stands for\<close>
  "vec_list v = (case vec_data v of None \<Rightarrow> [] | Some xs \<Rightarrow> take (nat (sint (vec_count v))) xs)"

definition vec_sendable :: "('a \<Rightarrow> bool) \<Rightarrow> 'a vector \<Rightarrow> bool" where
  "vec_sendable P v \<longleftrightarrow> length (vec_list v) = nat (sint (vec_count v)) \<and> list_all P (vec_list v)"

definition vec_ok :: "('a \<Rightarrow> bool) \<Rightarrow> 'a vector \<Rightarrow> bool" where
  \<comment> \<open>what a deserialised vector looks like\<close>
  "vec_ok P v \<longleftrightarrow> 0 \<le> sint (vec_count v) \<and> sint (vec_count v) \<le> 2 ^ 25 \<and>
     vec_data v = Some (vec_list v) \<and> vec_sendable P v"

definition enc_vector :: "('a \<Rightarrow> bytes) \<Rightarrow> 'a vector \<Rightarrow> bytes" where
  "enc_vector e v = be32 (vec_count v) @ concat (map e (vec_list v))"

lemma vec_ser_loop_writes:
  assumes "\<forall>x \<in> set (drop i xs). oa_writes (f x) (e x)" and "oa_wf oa"
    and "i + k = length xs" and "length xs \<le> length ys" and "take (length xs) ys = xs"
    and "bs_off oa + int (length (concat (map e (drop i xs)))) \<le> OA_MAX"
  shows "\<exists>oa'. vec_ser_loop f (Some ys) k i (0, oa) = Some (0, oa') \<and> oa_wf oa' \<and>
     oa_bytes oa' = oa_bytes oa @ concat (map e (drop i xs))"
  using assms
proof (induction k arbitrary: i oa)
  case (Suc k)
  then have i: "i < length xs" by simp
  then have d: "drop i xs = xs ! i # drop (Suc i) xs" by (simp add: Cons_nth_drop_Suc)
  have "ys ! i = xs ! i" using i Suc.prems(5) by (metis nth_take)
  then have get: "vec_get (Some ys) i = Some (xs ! i)" using i Suc.prems(4) by (simp add: vec_get_def)
  from Suc.prems(6) d have room: "bs_off oa + int (length (e (xs ! i))) \<le> OA_MAX" by simp
  have "oa_writes (f (xs ! i)) (e (xs ! i))" using Suc.prems(1) d by simp
  from oa_writesD [OF this Suc.prems(2) room] obtain oa1 where
    1: "f (xs ! i) oa = Some (0, oa1)" "oa_wf oa1" "oa_bytes oa1 = oa_bytes oa @ e (xs ! i)" by blast
  then have off: "bs_off oa1 = bs_off oa + int (length (e (xs ! i)))"
    using length_oa_bytes [OF 1(2)] length_oa_bytes [OF Suc.prems(2)] by simp
  have "\<exists>oa'. vec_ser_loop f (Some ys) k (Suc i) (0, oa1) = Some (0, oa') \<and> oa_wf oa' \<and>
     oa_bytes oa' = oa_bytes oa1 @ concat (map e (drop (Suc i) xs))"
    using Suc.prems d off 1(2) by (intro Suc.IH) auto
  with 1 get d show ?case by auto
qed simp

lemma serialize_vector_writes:
  assumes "good_host E" and "vec_sendable P v" and "\<And>x. P x \<Longrightarrow> oa_writes (f E x) (e x)"
  shows "oa_writes (serialize_vector f E v) (enc_vector e v)"
  unfolding oa_writes_def
proof (intro allI impI, elim conjE)
  fix oa assume wf: "oa_wf oa" and room: "bs_off oa + int (length (enc_vector e v)) \<le> OA_MAX"
  let ?n = "nat (sint (vec_count v))"
  from room have "bs_off oa + int (length (be32 (vec_count v))) \<le> OA_MAX" by (simp add: enc_vector_def)
  from oa_writesD [OF oa_start_vector_writes [OF assms(1)] wf this] obtain oa1 where
    1: "oa_start_vector E (vec_count v) oa = Some (0, oa1)" "oa_wf oa1"
       "oa_bytes oa1 = oa_bytes oa @ be32 (vec_count v)" by blast
  then have off: "bs_off oa1 = bs_off oa + 4"
    using length_oa_bytes [OF 1(2)] length_oa_bytes [OF wf] by simp
  have "\<exists>oa'. vec_ser_loop (f E) (vec_data v) ?n 0 (0, oa1) = Some (0, oa') \<and> oa_wf oa' \<and>
     oa_bytes oa' = oa_bytes oa1 @ concat (map e (vec_list v))"
  proof (cases "vec_data v")
    case None
    with assms(2) have "?n = 0" "vec_list v = []" by (simp_all add: vec_sendable_def vec_list_def)
    with 1(2) show ?thesis by simp
  next
    case (Some ys)
    with assms(2) have "length (vec_list v) = ?n" "vec_list v = take ?n ys" "list_all P (vec_list v)"
      by (simp_all add: vec_sendable_def vec_list_def)
    moreover from this have "?n \<le> length ys" by simp
    ultimately show ?thesis
      using vec_ser_loop_writes [of 0 "vec_list v" "f E" e oa1 ?n ys] Some assms(3) 1(2) off room
      by (simp add: list_all_iff enc_vector_def)
  qed
  with 1 show "\<exists>oa'. serialize_vector f E v oa = Some (0, oa') \<and> oa_wf oa' \<and>
      oa_bytes oa' = oa_bytes oa @ enc_vector e v"
    by (auto simp: serialize_vector_def enc_vector_def oa_end_vector_def)
qed

lemma vec_deser_loop_reads:
  assumes "\<forall>x \<in> set xs. ia_reads g (e x) x" and "ia_wf ia" and "ia_rest ia = concat (map e xs) @ r"
    and "length ys = i + length xs"
  shows "\<exists>ia'. vec_deser_loop g (length xs) i (0, ia, Some ys) = Some (0, ia', Some (take i ys @ xs)) \<and>
     ia_wf ia' \<and> ia_rest ia' = r"
  using assms
proof (induction xs arbitrary: i ia ys)
  case (Cons x xs)
  from Cons.prems have rx: "ia_reads g (e x) x" "ia_rest ia = e x @ concat (map e xs) @ r"
    "i < length ys" by simp_all
  obtain ia1 where 1: "g (ia, ys ! i) = Some (0, ia1, x)" "ia_wf ia1" "ia_rest ia1 = concat (map e xs) @ r"
    by (rule ia_readsE [OF rx(1) Cons.prems(2) rx(2)])
  have "\<exists>ia'. vec_deser_loop g (length xs) (Suc i) (0, ia1, Some (ys[i := x])) =
      Some (0, ia', Some (take (Suc i) (ys[i := x]) @ xs)) \<and> ia_wf ia' \<and> ia_rest ia' = r"
    using Cons.prems 1 by (intro Cons.IH) auto
  with 1 rx(3) show ?case
    by (simp add: vec_get_def vec_set_def take_Suc_conv_app_nth)
qed simp

lemma deserialize_vector_reads:
  fixes v :: "'a vector"
  assumes "good_host E" and "vec_ok P v" and "\<And>x. P x \<Longrightarrow> ia_reads (g E) (e x) x"
    and "0 \<le> sz" and "sz \<le> 32"
  shows "ia_reads (deserialize_vector sz zero g E) (enc_vector e v) v"
  unfolding ia_reads_def
proof (intro allI impI, elim conjE)
  fix ia :: iarchive and old :: "'a vector" and r
  assume wf: "ia_wf ia" and rest: "ia_rest ia = enc_vector e v @ r"
  let ?n = "sint (vec_count v)"
  from assms(2) have v: "0 \<le> ?n" "?n \<le> 2 ^ 25" "vec_data v = Some (vec_list v)"
    "length (vec_list v) = nat ?n" "list_all P (vec_list v)"
    by (auto simp: vec_ok_def vec_sendable_def)
  from rest have "ia_rest ia = be32 (vec_count v) @ concat (map e (vec_list v)) @ r"
    by (simp add: enc_vector_def)
  with wf obtain ia1 where 1: "ia_start_vector E (ia, vec_count old) = Some (0, ia1, vec_count v)"
    "ia_wf ia1" "ia_rest ia1 = concat (map e (vec_list v)) @ r"
    by (rule ia_readsE [OF ia_start_vector_reads])
  have "?n * sz \<le> 2 ^ 25 * 32" using v assms(4,5) by (intro mult_mono) auto
  then have "calloc_vec E sz zero (vec_count v) = Some (replicate (nat ?n) zero)"
    using v assms(4) by (simp add: calloc_vec_def good_hostD [OF assms(1)])
  moreover have "\<forall>x \<in> set (vec_list v). ia_reads (g E) (e x) x" using v(5) assms(3) by (simp add: list_all_iff)
  from vec_deser_loop_reads [OF this 1(2,3), of "replicate (nat ?n) zero" 0] v(4)
  obtain ia' where "vec_deser_loop (g E) (nat ?n) 0 (0, ia1, Some (replicate (nat ?n) zero)) =
      Some (0, ia', Some (vec_list v))" "ia_wf ia'" "ia_rest ia' = r" by auto
  ultimately show "\<exists>ia'. deserialize_vector sz zero g E (ia, old) = Some (0, ia', v) \<and> ia_wf ia' \<and> ia_rest ia' = r"
    using 1(1) v(3) by (cases v) (simp add: deserialize_vector_def ia_end_vector_def)
qed

text \<open>Whatever the input, a vector that is deserialised at all is reported as a success.\<close>

lemma deserialize_vector_rc:
  "deserialize_vector sz zero g E (ia, old) = Some (rc, ia', v) \<Longrightarrow> rc = 0"
  by (auto simp: deserialize_vector_def ia_end_vector_def bind_eq_Some_conv)

lemma vec_deser_loop_safe:
  assumes "ia_safe g" and "ia_wf ia" and "length ys = i + k"
  shows "\<exists>rc' ia' ys'. vec_deser_loop g k i (rc, ia, Some ys) = Some (rc', ia', Some ys') \<and> ia_wf ia'"
  using assms
proof (induction k arbitrary: i ia ys rc)
  case (Suc k)
  obtain rc1 ia1 x where 1: "g (ia, ys ! i) = Some (rc1, ia1, x)" "ia_wf ia1"
    using Suc.prems(1,2) by (rule ia_safeE)
  have "i < length ys" using Suc.prems(3) by simp
  with 1 Suc.IH [of ia1 "ys[i := x]" "Suc i" rc1] Suc.IH [of ia ys "Suc i" rc] Suc.prems show ?case
    by (simp add: vec_get_def vec_set_def)
qed simp

text \<open>
  The deserialiser of a vector stays in bounds as long as the allocator grants the array: the result of
  \<^verbatim>\<open>calloc\<close> is not checked.
\<close>

definition grants_vectors :: "host \<Rightarrow> int \<Rightarrow> bool" where
  "grants_vectors E sz \<longleftrightarrow> (\<forall>n. 0 \<le> n \<and> n \<le> INT_MAX \<longrightarrow> grants E (n * sz))"

lemma calloc_vec_granted:
  assumes "grants_vectors E sz" and "0 < sz" and "sz \<le> 32" and "0 \<le> sint c"
  shows "calloc_vec E sz zero c = Some (replicate (nat (sint c)) zero)"
proof -
  have "sint c * sz \<le> INT_MAX * 32"
    using assms sint32_range [of c] by (intro mult_mono) auto
  then show ?thesis
    using assms sint32_range [of c] by (simp add: calloc_vec_def grants_vectors_def)
qed

lemma deserialize_vector_safe:
  fixes zero :: 'a
  assumes "ia_safe (g E)" and "grants_vectors E sz" and "0 < sz" and "sz \<le> 32"
  shows "ia_safe (deserialize_vector sz zero g E)"
proof (rule ia_safeI)
  fix ia :: iarchive and old :: "'a vector"
  assume "ia_wf ia"
  then obtain rc ia1 c where 1: "ia_start_vector E (ia, vec_count old) = Some (rc, ia1, c)" "ia_wf ia1"
    by (rule ia_safeE [OF ia_start_vector_safe])
  have "\<exists>rc' ia' d. vec_deser_loop (g E) (nat (sint c)) 0 (rc, ia1, calloc_vec E sz zero c) = Some (rc', ia', d)
      \<and> ia_wf ia'"
  proof (cases "0 \<le> sint c")
    case True
    then have "calloc_vec E sz zero c = Some (replicate (nat (sint c)) zero)"
      using assms by (intro calloc_vec_granted)
    moreover obtain rc' ia' ys' where
      "vec_deser_loop (g E) (nat (sint c)) 0 (rc, ia1, Some (replicate (nat (sint c)) zero)) = Some (rc', ia', Some ys')"
      "ia_wf ia'"
      using vec_deser_loop_safe [OF assms(1) 1(2), of "replicate (nat (sint c)) zero" 0 "nat (sint c)" rc] by auto
    ultimately show ?thesis by simp
  next
    case False
    with 1(2) show ?thesis by simp
  qed
  with 1 show "\<exists>rc ia' v. deserialize_vector sz zero g E (ia, old) = Some (rc, ia', v) \<and> ia_wf ia'"
    by (auto simp: deserialize_vector_def ia_end_vector_def)
qed

end
