(* ===== verification/Jute.thy ===== *)
theory Jute
  imports JuteBase
begin

text \<open>
  The records of \<^verbatim>\<open>generated/zookeeper.jute.c\<close> and \<^verbatim>\<open>generated/zookeeper.jute.h\<close> that the client
  sends or receives, in the order of the header: the structure, its serialiser, its deserialiser (into
  a structure that already holds values, which a failing read leaves in place), its deallocator, its
  wire image and the codec laws. The fields carry the name of their record as a prefix. A boolean field
  survives a round trip when it is 0 or 1, a string when it is not null, a vector when its array is there.
\<close>

lemma ia_deserialize_bool_exact:
  assumes "i = 0 \<or> i = 1"
  shows "ia_reads ia_deserialize_bool (enc_bool i) i"
proof -
  have "(if i = 0 then 0 else 1) = i" using assms by auto
  then show ?thesis using ia_deserialize_bool_reads [of i] by simp
qed

lemma vec_ok_sendable: "vec_ok P v \<Longrightarrow> vec_sendable (\<lambda>_. True) v"
  by (simp add: vec_ok_def vec_sendable_def list_all_iff)

named_theorems jute_reads "the deserialisers of records"

lemmas jute_prim_reads [jute_reads] =
  ia_deserialize_int_reads ia_deserialize_long_reads ia_deserialize_bool_exact
  ia_deserialize_string_reads ia_deserialize_buffer_reads

section \<open>Id\<close>

record Id =
  Id_scheme :: cstr
  Id_id :: cstr

definition Id_zero :: Id where
  "Id_zero = \<lparr>Id_scheme = None, Id_id = None\<rparr>"

definition serialize_Id :: "host \<Rightarrow> Id \<Rightarrow> oarchive \<Rightarrow> oa_result" where
  "serialize_Id E v = oa_record
     [oa_serialize_string E (Id_scheme v),
      oa_serialize_string E (Id_id v)]"

definition deserialize_Id :: "host \<Rightarrow> iarchive \<times> Id \<Rightarrow> Id ia_result" where
  "deserialize_Id E = ia_record
     [ia_field Id_scheme Id_scheme_update (ia_deserialize_string E),
      ia_field Id_id Id_id_update (ia_deserialize_string E)]"

definition deallocate_Id :: "Id \<Rightarrow> Id option" where
  "deallocate_Id v = Some (v\<lparr>Id_scheme := deallocate_String (Id_scheme v), Id_id := deallocate_String (Id_id v)\<rparr>)"

definition enc_Id :: "Id \<Rightarrow> bytes" where
  "enc_Id v = concat
     [enc_string (Id_scheme v), enc_string (Id_id v)]"

definition Id_ok :: "Id \<Rightarrow> bool" where
  "Id_ok v \<longleftrightarrow> cstr_sendable (Id_scheme v) \<and> cstr_sendable (Id_id v)"

lemma Id_writes [oa_writes_intros]:
  "good_host E \<Longrightarrow> oa_writes (serialize_Id E v) (enc_Id v)"
  unfolding serialize_Id_def enc_Id_def
  by (rule oa_record_writes) (simp add: oa_writes_intros)

lemma Id_reads [jute_reads]:
  "good_host E \<Longrightarrow> Id_ok v \<Longrightarrow> ia_reads (deserialize_Id E) (enc_Id v) v"
  unfolding deserialize_Id_def enc_Id_def Id_ok_def
  by (rule ia_record_reads, (rule ia_updates_Cons ia_updates_Nil | (rule jute_reads; simp))+, rule Id.equality, simp_all)

lemma Id_safe: "ia_safe (deserialize_Id E)"
  unfolding deserialize_Id_def
  by (rule ia_record_safe) (simp add: ia_field_safe ia_safe_prims )

interpretation Id_codec: codec serialize_Id deserialize_Id enc_Id Id_ok
  by unfold_locales (auto intro: Id_writes Id_reads)

section \<open>ACL\<close>

record ACL =
  ACL_perms :: i32
  ACL_id :: Id

definition ACL_zero :: ACL where
  "ACL_zero = \<lparr>ACL_perms = 0, ACL_id = Id_zero\<rparr>"

definition serialize_ACL :: "host \<Rightarrow> ACL \<Rightarrow> oarchive \<Rightarrow> oa_result" where
  "serialize_ACL E v = oa_record
     [oa_serialize_int E (ACL_perms v),
      serialize_Id E (ACL_id v)]"

definition deserialize_ACL :: "host \<Rightarrow> iarchive \<times> ACL \<Rightarrow> ACL ia_result" where
  "deserialize_ACL E = ia_record
     [ia_field ACL_perms ACL_perms_update (ia_deserialize_int E),
      ia_field ACL_id ACL_id_update (deserialize_Id E)]"

definition deallocate_ACL :: "ACL \<Rightarrow> ACL option" where
  "deallocate_ACL v = do { id' \<leftarrow> deallocate_Id (ACL_id v); Some (v\<lparr>ACL_id := id'\<rparr>) }"

definition enc_ACL :: "ACL \<Rightarrow> bytes" where
  "enc_ACL v = concat
     [be32 (ACL_perms v), enc_Id (ACL_id v)]"

definition ACL_ok :: "ACL \<Rightarrow> bool" where
  "ACL_ok v \<longleftrightarrow> Id_ok (ACL_id v)"

lemma ACL_writes [oa_writes_intros]:
  "good_host E \<Longrightarrow> oa_writes (serialize_ACL E v) (enc_ACL v)"
  unfolding serialize_ACL_def enc_ACL_def
  by (rule oa_record_writes) (simp add: oa_writes_intros)

lemma ACL_reads [jute_reads]:
  "good_host E \<Longrightarrow> ACL_ok v \<Longrightarrow> ia_reads (deserialize_ACL E) (enc_ACL v) v"
  unfolding deserialize_ACL_def enc_ACL_def ACL_ok_def
  by (rule ia_record_reads, (rule ia_updates_Cons ia_updates_Nil | (rule jute_reads; simp))+, rule ACL.equality, simp_all)

lemma ACL_safe: "ia_safe (deserialize_ACL E)"
  unfolding deserialize_ACL_def
  by (rule ia_record_safe) (simp add: ia_field_safe ia_safe_prims Id_safe)

interpretation ACL_codec: codec serialize_ACL deserialize_ACL enc_ACL ACL_ok
  by unfold_locales (auto intro: ACL_writes ACL_reads)

section \<open>Stat\<close>

record Stat =
  Stat_czxid :: i64
  Stat_mzxid :: i64
  Stat_ctime :: i64
  Stat_mtime :: i64
  Stat_version :: i32
  Stat_cversion :: i32
  Stat_aversion :: i32
  Stat_ephemeralOwner :: i64
  Stat_dataLength :: i32
  Stat_numChildren :: i32
  Stat_pzxid :: i64

definition Stat_zero :: Stat where
  "Stat_zero = \<lparr>Stat_czxid = 0, Stat_mzxid = 0, Stat_ctime = 0, Stat_mtime = 0, Stat_version = 0, Stat_cversion = 0, Stat_aversion = 0, Stat_ephemeralOwner = 0, Stat_dataLength = 0, Stat_numChildren = 0, Stat_pzxid = 0\<rparr>"

definition serialize_Stat :: "host \<Rightarrow> Stat \<Rightarrow> oarchive \<Rightarrow> oa_result" where
  "serialize_Stat E v = oa_record
     [oa_serialize_long E (Stat_czxid v),
      oa_serialize_long E (Stat_mzxid v),
      oa_serialize_long E (Stat_ctime v),
      oa_serialize_long E (Stat_mtime v),
      oa_serialize_int E (Stat_version v),
      oa_serialize_int E (Stat_cversion v),
      oa_serialize_int E (Stat_aversion v),
      oa_serialize_long E (Stat_ephemeralOwner v),
      oa_serialize_int E (Stat_dataLength v),
      oa_serialize_int E (Stat_numChildren v),
      oa_serialize_long E (Stat_pzxid v)]"

definition deserialize_Stat :: "host \<Rightarrow> iarchive \<times> Stat \<Rightarrow> Stat ia_result" where
  "deserialize_Stat E = ia_record
     [ia_field Stat_czxid Stat_czxid_update (ia_deserialize_long E),
      ia_field Stat_mzxid Stat_mzxid_update (ia_deserialize_long E),
      ia_field Stat_ctime Stat_ctime_update (ia_deserialize_long E),
      ia_field Stat_mtime Stat_mtime_update (ia_deserialize_long E),
      ia_field Stat_version Stat_version_update (ia_deserialize_int E),
      ia_field Stat_cversion Stat_cversion_update (ia_deserialize_int E),
      ia_field Stat_aversion Stat_aversion_update (ia_deserialize_int E),
      ia_field Stat_ephemeralOwner Stat_ephemeralOwner_update (ia_deserialize_long E),
      ia_field Stat_dataLength Stat_dataLength_update (ia_deserialize_int E),
      ia_field Stat_numChildren Stat_numChildren_update (ia_deserialize_int E),
      ia_field Stat_pzxid Stat_pzxid_update (ia_deserialize_long E)]"

definition deallocate_Stat :: "Stat \<Rightarrow> Stat option" where
  "deallocate_Stat v = Some (v)"

definition enc_Stat :: "Stat \<Rightarrow> bytes" where
  "enc_Stat v = concat
     [be64 (Stat_czxid v), be64 (Stat_mzxid v), be64 (Stat_ctime v), be64 (Stat_mtime v), be32 (Stat_version v), be32 (Stat_cversion v), be32 (Stat_aversion v), be64 (Stat_ephemeralOwner v), be32 (Stat_dataLength v), be32 (Stat_numChildren v), be64 (Stat_pzxid v)]"

definition Stat_ok :: "Stat \<Rightarrow> bool" where
  "Stat_ok v \<longleftrightarrow> True"

lemma Stat_writes [oa_writes_intros]:
  "good_host E \<Longrightarrow> oa_writes (serialize_Stat E v) (enc_Stat v)"
  unfolding serialize_Stat_def enc_Stat_def
  by (rule oa_record_writes) (simp add: oa_writes_intros)

lemma Stat_reads [jute_reads]:
  "good_host E \<Longrightarrow> ia_reads (deserialize_Stat E) (enc_Stat v) v"
  unfolding deserialize_Stat_def enc_Stat_def Stat_ok_def
  by (rule ia_record_reads, (rule ia_updates_Cons ia_updates_Nil | (rule jute_reads; simp))+, rule Stat.equality, simp_all)

lemma Stat_safe: "ia_safe (deserialize_Stat E)"
  unfolding deserialize_Stat_def
  by (rule ia_record_safe) (simp add: ia_field_safe ia_safe_prims )

interpretation Stat_codec: codec serialize_Stat deserialize_Stat enc_Stat Stat_ok
  by unfold_locales (auto intro: Stat_writes Stat_reads)

section \<open>String_vector\<close>

type_synonym String_vector = "cstr vector"

definition serialize_String_vector :: "host \<Rightarrow> String_vector \<Rightarrow> oarchive \<Rightarrow> oa_result" where
  "serialize_String_vector = serialize_vector oa_serialize_string"

definition deserialize_String_vector :: "host \<Rightarrow> iarchive \<times> String_vector \<Rightarrow> String_vector ia_result" where
  "deserialize_String_vector = deserialize_vector 8 None ia_deserialize_string"

definition allocate_String_vector :: "host \<Rightarrow> i32 \<Rightarrow> String_vector" where
  "allocate_String_vector E len = allocate_vector E 8 None len"

definition deallocate_String_vector :: "String_vector \<Rightarrow> String_vector option" where
  "deallocate_String_vector = deallocate_vector (\<lambda>s. Some (deallocate_String s))"

definition enc_String_vector :: "String_vector \<Rightarrow> bytes" where
  "enc_String_vector = enc_vector enc_string"

abbreviation String_vector_ok :: "String_vector \<Rightarrow> bool" where
  "String_vector_ok \<equiv> vec_ok cstr_sendable"

abbreviation String_vector_sendable :: "String_vector \<Rightarrow> bool" where
  "String_vector_sendable \<equiv> vec_sendable (\<lambda>_. True)"

lemma String_vector_writes [oa_writes_intros]:
  "good_host E \<Longrightarrow> String_vector_sendable v \<Longrightarrow> oa_writes (serialize_String_vector E v) (enc_String_vector v)"
  unfolding serialize_String_vector_def enc_String_vector_def
  by (rule serialize_vector_writes [where P = "\<lambda>_. True"]) (auto intro: oa_serialize_string_writes)

lemma String_vector_reads [jute_reads]:
  "good_host E \<Longrightarrow> String_vector_ok v \<Longrightarrow> ia_reads (deserialize_String_vector E) (enc_String_vector v) v"
  unfolding deserialize_String_vector_def enc_String_vector_def
  by (rule deserialize_vector_reads [where P = cstr_sendable]) (auto intro: ia_deserialize_string_reads)

lemma String_vector_safe:
  "grants_vectors E 8 \<Longrightarrow> ia_safe (deserialize_String_vector E)"
  unfolding deserialize_String_vector_def by (rule deserialize_vector_safe) (auto intro: ia_deserialize_string_safe)

interpretation String_vector_codec: codec serialize_String_vector deserialize_String_vector enc_String_vector String_vector_ok
  by unfold_locales (auto intro: String_vector_writes String_vector_reads simp: vec_ok_def vec_sendable_def list_all_iff)

section \<open>SetWatches\<close>

record SetWatches =
  SetWatches_relativeZxid :: i64
  SetWatches_dataWatches :: String_vector
  SetWatches_existWatches :: String_vector
  SetWatches_childWatches :: String_vector

definition SetWatches_zero :: SetWatches where
  "SetWatches_zero = \<lparr>SetWatches_relativeZxid = 0, SetWatches_dataWatches = \<lparr>vec_count = 0, vec_data = None\<rparr>, SetWatches_existWatches = \<lparr>vec_count = 0, vec_data = None\<rparr>, SetWatches_childWatches = \<lparr>vec_count = 0, vec_data = None\<rparr>\<rparr>"

definition serialize_SetWatches :: "host \<Rightarrow> SetWatches \<Rightarrow> oarchive \<Rightarrow> oa_result" where
  "serialize_SetWatches E v = oa_record
     [oa_serialize_long E (SetWatches_relativeZxid v),
      serialize_String_vector E (SetWatches_dataWatches v),
      serialize_String_vector E (SetWatches_existWatches v),
      serialize_String_vector E (SetWatches_childWatches v)]"

definition deserialize_SetWatches :: "host \<Rightarrow> iarchive \<times> SetWatches \<Rightarrow> SetWatches ia_result" where
  "deserialize_SetWatches E = ia_record
     [ia_field SetWatches_relativeZxid SetWatches_relativeZxid_update (ia_deserialize_long E),
      ia_field SetWatches_dataWatches SetWatches_dataWatches_update (deserialize_String_vector E),
      ia_field SetWatches_existWatches SetWatches_existWatches_update (deserialize_String_vector E),
      ia_field SetWatches_childWatches SetWatches_childWatches_update (deserialize_String_vector E)]"

definition deallocate_SetWatches :: "SetWatches \<Rightarrow> SetWatches option" where
  "deallocate_SetWatches v = do { dataWatches' \<leftarrow> deallocate_String_vector (SetWatches_dataWatches v); existWatches' \<leftarrow> deallocate_String_vector (SetWatches_existWatches v); childWatches' \<leftarrow> deallocate_String_vector (SetWatches_childWatches v); Some (v\<lparr>SetWatches_dataWatches := dataWatches', SetWatches_existWatches := existWatches', SetWatches_childWatches := childWatches'\<rparr>) }"

definition enc_SetWatches :: "SetWatches \<Rightarrow> bytes" where
  "enc_SetWatches v = concat
     [be64 (SetWatches_relativeZxid v), enc_String_vector (SetWatches_dataWatches v), enc_String_vector (SetWatches_existWatches v), enc_String_vector (SetWatches_childWatches v)]"

definition SetWatches_ok :: "SetWatches \<Rightarrow> bool" where
  "SetWatches_ok v \<longleftrightarrow> String_vector_ok (SetWatches_dataWatches v) \<and> String_vector_ok (SetWatches_existWatches v) \<and> String_vector_ok (SetWatches_childWatches v)"

lemma SetWatches_writes [oa_writes_intros]:
  "good_host E \<Longrightarrow> String_vector_sendable (SetWatches_dataWatches v) \<Longrightarrow> String_vector_sendable (SetWatches_existWatches v) \<Longrightarrow> String_vector_sendable (SetWatches_childWatches v) \<Longrightarrow> oa_writes (serialize_SetWatches E v) (enc_SetWatches v)"
  unfolding serialize_SetWatches_def enc_SetWatches_def
  by (rule oa_record_writes) (simp add: oa_writes_intros)

lemma SetWatches_reads [jute_reads]:
  "good_host E \<Longrightarrow> SetWatches_ok v \<Longrightarrow> ia_reads (deserialize_SetWatches E) (enc_SetWatches v) v"
  unfolding deserialize_SetWatches_def enc_SetWatches_def SetWatches_ok_def
  by (rule ia_record_reads, (rule ia_updates_Cons ia_updates_Nil | (rule jute_reads; simp))+, rule SetWatches.equality, simp_all)

lemma SetWatches_safe: "grants_vectors E 8 \<Longrightarrow> ia_safe (deserialize_SetWatches E)"
  unfolding deserialize_SetWatches_def
  by (rule ia_record_safe) (simp add: ia_field_safe ia_safe_prims String_vector_safe)

interpretation SetWatches_codec: codec serialize_SetWatches deserialize_SetWatches enc_SetWatches SetWatches_ok
  by unfold_locales (auto intro: SetWatches_writes SetWatches_reads simp: SetWatches_ok_def cbuffer_ok_sendable vec_ok_sendable)

section \<open>RequestHeader\<close>

record RequestHeader =
  RequestHeader_xid :: i32
  RequestHeader_type :: i32

definition RequestHeader_zero :: RequestHeader where
  "RequestHeader_zero = \<lparr>RequestHeader_xid = 0, RequestHeader_type = 0\<rparr>"

definition serialize_RequestHeader :: "host \<Rightarrow> RequestHeader \<Rightarrow> oarchive \<Rightarrow> oa_result" where
  "serialize_RequestHeader E v = oa_record
     [oa_serialize_int E (RequestHeader_xid v),
      oa_serialize_int E (RequestHeader_type v)]"

definition deserialize_RequestHeader :: "host \<Rightarrow> iarchive \<times> RequestHeader \<Rightarrow> RequestHeader ia_result" where
  "deserialize_RequestHeader E = ia_record
     [ia_field RequestHeader_xid RequestHeader_xid_update (ia_deserialize_int E),
      ia_field RequestHeader_type RequestHeader_type_update (ia_deserialize_int E)]"

definition deallocate_RequestHeader :: "RequestHeader \<Rightarrow> RequestHeader option" where
  "deallocate_RequestHeader v = Some (v)"

definition enc_RequestHeader :: "RequestHeader \<Rightarrow> bytes" where
  "enc_RequestHeader v = concat
     [be32 (RequestHeader_xid v), be32 (RequestHeader_type v)]"

definition RequestHeader_ok :: "RequestHeader \<Rightarrow> bool" where
  "RequestHeader_ok v \<longleftrightarrow> True"

lemma RequestHeader_writes [oa_writes_intros]:
  "good_host E \<Longrightarrow> oa_writes (serialize_RequestHeader E v) (enc_RequestHeader v)"
  unfolding serialize_RequestHeader_def enc_RequestHeader_def
  by (rule oa_record_writes) (simp add: oa_writes_intros)

lemma RequestHeader_reads [jute_reads]:
  "good_host E \<Longrightarrow> ia_reads (deserialize_RequestHeader E) (enc_RequestHeader v) v"
  unfolding deserialize_RequestHeader_def enc_RequestHeader_def RequestHeader_ok_def
  by (rule ia_record_reads, (rule ia_updates_Cons ia_updates_Nil | (rule jute_reads; simp))+, rule RequestHeader.equality, simp_all)

lemma RequestHeader_safe: "ia_safe (deserialize_RequestHeader E)"
  unfolding deserialize_RequestHeader_def
  by (rule ia_record_safe) (simp add: ia_field_safe ia_safe_prims )

interpretation RequestHeader_codec: codec serialize_RequestHeader deserialize_RequestHeader enc_RequestHeader RequestHeader_ok
  by unfold_locales (auto intro: RequestHeader_writes RequestHeader_reads)

section \<open>MultiHeader\<close>

record MultiHeader =
  MultiHeader_type :: i32
  MultiHeader_done :: i32
  MultiHeader_err :: i32

definition MultiHeader_zero :: MultiHeader where
  "MultiHeader_zero = \<lparr>MultiHeader_type = 0, MultiHeader_done = 0, MultiHeader_err = 0\<rparr>"

definition serialize_MultiHeader :: "host \<Rightarrow> MultiHeader \<Rightarrow> oarchive \<Rightarrow> oa_result" where
  "serialize_MultiHeader E v = oa_record
     [oa_serialize_int E (MultiHeader_type v),
      oa_serialize_bool E (MultiHeader_done v),
      oa_serialize_int E (MultiHeader_err v)]"

definition deserialize_MultiHeader :: "host \<Rightarrow> iarchive \<times> MultiHeader \<Rightarrow> MultiHeader ia_result" where
  "deserialize_MultiHeader E = ia_record
     [ia_field MultiHeader_type MultiHeader_type_update (ia_deserialize_int E),
      ia_field MultiHeader_done MultiHeader_done_update ia_deserialize_bool,
      ia_field MultiHeader_err MultiHeader_err_update (ia_deserialize_int E)]"

definition deallocate_MultiHeader :: "MultiHeader \<Rightarrow> MultiHeader option" where
  "deallocate_MultiHeader v = Some (v)"

definition enc_MultiHeader :: "MultiHeader \<Rightarrow> bytes" where
  "enc_MultiHeader v = concat
     [be32 (MultiHeader_type v), enc_bool (MultiHeader_done v), be32 (MultiHeader_err v)]"

definition MultiHeader_ok :: "MultiHeader \<Rightarrow> bool" where
  "MultiHeader_ok v \<longleftrightarrow> (MultiHeader_done v = 0 \<or> MultiHeader_done v = 1)"

lemma MultiHeader_writes [oa_writes_intros]:
  "good_host E \<Longrightarrow> oa_writes (serialize_MultiHeader E v) (enc_MultiHeader v)"
  unfolding serialize_MultiHeader_def enc_MultiHeader_def
  by (rule oa_record_writes) (simp add: oa_writes_intros)

lemma MultiHeader_reads [jute_reads]:
  "good_host E \<Longrightarrow> MultiHeader_ok v \<Longrightarrow> ia_reads (deserialize_MultiHeader E) (enc_MultiHeader v) v"
  unfolding deserialize_MultiHeader_def enc_MultiHeader_def MultiHeader_ok_def
  by (rule ia_record_reads, (rule ia_updates_Cons ia_updates_Nil | (rule jute_reads; simp))+, rule MultiHeader.equality, simp_all)

lemma MultiHeader_safe: "ia_safe (deserialize_MultiHeader E)"
  unfolding deserialize_MultiHeader_def
  by (rule ia_record_safe) (simp add: ia_field_safe ia_safe_prims )

interpretation MultiHeader_codec: codec serialize_MultiHeader deserialize_MultiHeader enc_MultiHeader MultiHeader_ok
  by unfold_locales (auto intro: MultiHeader_writes MultiHeader_reads)

section \<open>AuthPacket\<close>

record AuthPacket =
  AuthPacket_type :: i32
  AuthPacket_scheme :: cstr
  AuthPacket_auth :: cbuffer

definition AuthPacket_zero :: AuthPacket where
  "AuthPacket_zero = \<lparr>AuthPacket_type = 0, AuthPacket_scheme = None, AuthPacket_auth = \<lparr>cb_len = 0, cb_buff = None\<rparr>\<rparr>"

definition serialize_AuthPacket :: "host \<Rightarrow> AuthPacket \<Rightarrow> oarchive \<Rightarrow> oa_result" where
  "serialize_AuthPacket E v = oa_record
     [oa_serialize_int E (AuthPacket_type v),
      oa_serialize_string E (AuthPacket_scheme v),
      oa_serialize_buffer E (Some (AuthPacket_auth v))]"

definition deserialize_AuthPacket :: "host \<Rightarrow> iarchive \<times> AuthPacket \<Rightarrow> AuthPacket ia_result" where
  "deserialize_AuthPacket E = ia_record
     [ia_field AuthPacket_type AuthPacket_type_update (ia_deserialize_int E),
      ia_field AuthPacket_scheme AuthPacket_scheme_update (ia_deserialize_string E),
      ia_field AuthPacket_auth AuthPacket_auth_update (ia_deserialize_buffer E)]"

definition deallocate_AuthPacket :: "AuthPacket \<Rightarrow> AuthPacket option" where
  "deallocate_AuthPacket v = Some (v\<lparr>AuthPacket_scheme := deallocate_String (AuthPacket_scheme v), AuthPacket_auth := deallocate_Buffer (AuthPacket_auth v)\<rparr>)"

definition enc_AuthPacket :: "AuthPacket \<Rightarrow> bytes" where
  "enc_AuthPacket v = concat
     [be32 (AuthPacket_type v), enc_string (AuthPacket_scheme v), enc_buffer (AuthPacket_auth v)]"

definition AuthPacket_ok :: "AuthPacket \<Rightarrow> bool" where
  "AuthPacket_ok v \<longleftrightarrow> cstr_sendable (AuthPacket_scheme v) \<and> cbuffer_ok (AuthPacket_auth v)"

lemma AuthPacket_writes [oa_writes_intros]:
  "good_host E \<Longrightarrow> cbuffer_sendable (AuthPacket_auth v) \<Longrightarrow> oa_writes (serialize_AuthPacket E v) (enc_AuthPacket v)"
  unfolding serialize_AuthPacket_def enc_AuthPacket_def
  by (rule oa_record_writes) (simp add: oa_writes_intros)

lemma AuthPacket_reads [jute_reads]:
  "good_host E \<Longrightarrow> AuthPacket_ok v \<Longrightarrow> ia_reads (deserialize_AuthPacket E) (enc_AuthPacket v) v"
  unfolding deserialize_AuthPacket_def enc_AuthPacket_def AuthPacket_ok_def
  by (rule ia_record_reads, (rule ia_updates_Cons ia_updates_Nil | (rule jute_reads; simp))+, rule AuthPacket.equality, simp_all)

lemma AuthPacket_safe: "sane_host E \<Longrightarrow> ia_safe (deserialize_AuthPacket E)"
  unfolding deserialize_AuthPacket_def
  by (rule ia_record_safe) (simp add: ia_field_safe ia_safe_prims )

interpretation AuthPacket_codec: codec serialize_AuthPacket deserialize_AuthPacket enc_AuthPacket AuthPacket_ok
  by unfold_locales (auto intro: AuthPacket_writes AuthPacket_reads simp: AuthPacket_ok_def cbuffer_ok_sendable vec_ok_sendable)

section \<open>ReplyHeader\<close>

record ReplyHeader =
  ReplyHeader_xid :: i32
  ReplyHeader_zxid :: i64
  ReplyHeader_err :: i32

definition ReplyHeader_zero :: ReplyHeader where
  "ReplyHeader_zero = \<lparr>ReplyHeader_xid = 0, ReplyHeader_zxid = 0, ReplyHeader_err = 0\<rparr>"

definition serialize_ReplyHeader :: "host \<Rightarrow> ReplyHeader \<Rightarrow> oarchive \<Rightarrow> oa_result" where
  "serialize_ReplyHeader E v = oa_record
     [oa_serialize_int E (ReplyHeader_xid v),
      oa_serialize_long E (ReplyHeader_zxid v),
      oa_serialize_int E (ReplyHeader_err v)]"

definition deserialize_ReplyHeader :: "host \<Rightarrow> iarchive \<times> ReplyHeader \<Rightarrow> ReplyHeader ia_result" where
  "deserialize_ReplyHeader E = ia_record
     [ia_field ReplyHeader_xid ReplyHeader_xid_update (ia_deserialize_int E),
      ia_field ReplyHeader_zxid ReplyHeader_zxid_update (ia_deserialize_long E),
      ia_field ReplyHeader_err ReplyHeader_err_update (ia_deserialize_int E)]"

definition deallocate_ReplyHeader :: "ReplyHeader \<Rightarrow> ReplyHeader option" where
  "deallocate_ReplyHeader v = Some (v)"

definition enc_ReplyHeader :: "ReplyHeader \<Rightarrow> bytes" where
  "enc_ReplyHeader v = concat
     [be32 (ReplyHeader_xid v), be64 (ReplyHeader_zxid v), be32 (ReplyHeader_err v)]"

definition ReplyHeader_ok :: "ReplyHeader \<Rightarrow> bool" where
  "ReplyHeader_ok v \<longleftrightarrow> True"

lemma ReplyHeader_writes [oa_writes_intros]:
  "good_host E \<Longrightarrow> oa_writes (serialize_ReplyHeader E v) (enc_ReplyHeader v)"
  unfolding serialize_ReplyHeader_def enc_ReplyHeader_def
  by (rule oa_record_writes) (simp add: oa_writes_intros)

lemma ReplyHeader_reads [jute_reads]:
  "good_host E \<Longrightarrow> ia_reads (deserialize_ReplyHeader E) (enc_ReplyHeader v) v"
  unfolding deserialize_ReplyHeader_def enc_ReplyHeader_def ReplyHeader_ok_def
  by (rule ia_record_reads, (rule ia_updates_Cons ia_updates_Nil | (rule jute_reads; simp))+, rule ReplyHeader.equality, simp_all)

lemma ReplyHeader_safe: "ia_safe (deserialize_ReplyHeader E)"
  unfolding deserialize_ReplyHeader_def
  by (rule ia_record_safe) (simp add: ia_field_safe ia_safe_prims )

interpretation ReplyHeader_codec: codec serialize_ReplyHeader deserialize_ReplyHeader enc_ReplyHeader ReplyHeader_ok
  by unfold_locales (auto intro: ReplyHeader_writes ReplyHeader_reads)

section \<open>GetDataRequest\<close>

record GetDataRequest =
  GetDataRequest_path :: cstr
  GetDataRequest_watch :: i32

definition GetDataRequest_zero :: GetDataRequest where
  "GetDataRequest_zero = \<lparr>GetDataRequest_path = None, GetDataRequest_watch = 0\<rparr>"

definition serialize_GetDataRequest :: "host \<Rightarrow> GetDataRequest \<Rightarrow> oarchive \<Rightarrow> oa_result" where
  "serialize_GetDataRequest E v = oa_record
     [oa_serialize_string E (GetDataRequest_path v),
      oa_serialize_bool E (GetDataRequest_watch v)]"

definition deserialize_GetDataRequest :: "host \<Rightarrow> iarchive \<times> GetDataRequest \<Rightarrow> GetDataRequest ia_result" where
  "deserialize_GetDataRequest E = ia_record
     [ia_field GetDataRequest_path GetDataRequest_path_update (ia_deserialize_string E),
      ia_field GetDataRequest_watch GetDataRequest_watch_update ia_deserialize_bool]"

definition deallocate_GetDataRequest :: "GetDataRequest \<Rightarrow> GetDataRequest option" where
  "deallocate_GetDataRequest v = Some (v\<lparr>GetDataRequest_path := deallocate_String (GetDataRequest_path v)\<rparr>)"

definition enc_GetDataRequest :: "GetDataRequest \<Rightarrow> bytes" where
  "enc_GetDataRequest v = concat
     [enc_string (GetDataRequest_path v), enc_bool (GetDataRequest_watch v)]"

definition GetDataRequest_ok :: "GetDataRequest \<Rightarrow> bool" where
  "GetDataRequest_ok v \<longleftrightarrow> cstr_sendable (GetDataRequest_path v) \<and> (GetDataRequest_watch v = 0 \<or> GetDataRequest_watch v = 1)"

lemma GetDataRequest_writes [oa_writes_intros]:
  "good_host E \<Longrightarrow> oa_writes (serialize_GetDataRequest E v) (enc_GetDataRequest v)"
  unfolding serialize_GetDataRequest_def enc_GetDataRequest_def
  by (rule oa_record_writes) (simp add: oa_writes_intros)

lemma GetDataRequest_reads [jute_reads]:
  "good_host E \<Longrightarrow> GetDataRequest_ok v \<Longrightarrow> ia_reads (deserialize_GetDataRequest E) (enc_GetDataRequest v) v"
  unfolding deserialize_GetDataRequest_def enc_GetDataRequest_def GetDataRequest_ok_def
  by (rule ia_record_reads, (rule ia_updates_Cons ia_updates_Nil | (rule jute_reads; simp))+, rule GetDataRequest.equality, simp_all)

lemma GetDataRequest_safe: "ia_safe (deserialize_GetDataRequest E)"
  unfolding deserialize_GetDataRequest_def
  by (rule ia_record_safe) (simp add: ia_field_safe ia_safe_prims )

interpretation GetDataRequest_codec: codec serialize_GetDataRequest deserialize_GetDataRequest enc_GetDataRequest GetDataRequest_ok
  by unfold_locales (auto intro: GetDataRequest_writes GetDataRequest_reads)

section \<open>SetDataRequest\<close>

record SetDataRequest =
  SetDataRequest_path :: cstr
  SetDataRequest_data :: cbuffer
  SetDataRequest_version :: i32

definition SetDataRequest_zero :: SetDataRequest where
  "SetDataRequest_zero = \<lparr>SetDataRequest_path = None, SetDataRequest_data = \<lparr>cb_len = 0, cb_buff = None\<rparr>, SetDataRequest_version = 0\<rparr>"

definition serialize_SetDataRequest :: "host \<Rightarrow> SetDataRequest \<Rightarrow> oarchive \<Rightarrow> oa_result" where
  "serialize_SetDataRequest E v = oa_record
     [oa_serialize_string E (SetDataRequest_path v),
      oa_serialize_buffer E (Some (SetDataRequest_data v)),
      oa_serialize_int E (SetDataRequest_version v)]"

definition deserialize_SetDataRequest :: "host \<Rightarrow> iarchive \<times> SetDataRequest \<Rightarrow> SetDataRequest ia_result" where
  "deserialize_SetDataRequest E = ia_record
     [ia_field SetDataRequest_path SetDataRequest_path_update (ia_deserialize_string E),
      ia_field SetDataRequest_data SetDataRequest_data_update (ia_deserialize_buffer E),
      ia_field SetDataRequest_version SetDataRequest_version_update (ia_deserialize_int E)]"

definition deallocate_SetDataRequest :: "SetDataRequest \<Rightarrow> SetDataRequest option" where
  "deallocate_SetDataRequest v = Some (v\<lparr>SetDataRequest_path := deallocate_String (SetDataRequest_path v), SetDataRequest_data := deallocate_Buffer (SetDataRequest_data v)\<rparr>)"

definition enc_SetDataRequest :: "SetDataRequest \<Rightarrow> bytes" where
  "enc_SetDataRequest v = concat
     [enc_string (SetDataRequest_path v), enc_buffer (SetDataRequest_data v), be32 (SetDataRequest_version v)]"

definition SetDataRequest_ok :: "SetDataRequest \<Rightarrow> bool" where
  "SetDataRequest_ok v \<longleftrightarrow> cstr_sendable (SetDataRequest_path v) \<and> cbuffer_ok (SetDataRequest_data v)"

lemma SetDataRequest_writes [oa_writes_intros]:
  "good_host E \<Longrightarrow> cbuffer_sendable (SetDataRequest_data v) \<Longrightarrow> oa_writes (serialize_SetDataRequest E v) (enc_SetDataRequest v)"
  unfolding serialize_SetDataRequest_def enc_SetDataRequest_def
  by (rule oa_record_writes) (simp add: oa_writes_intros)

lemma SetDataRequest_reads [jute_reads]:
  "good_host E \<Longrightarrow> SetDataRequest_ok v \<Longrightarrow> ia_reads (deserialize_SetDataRequest E) (enc_SetDataRequest v) v"
  unfolding deserialize_SetDataRequest_def enc_SetDataRequest_def SetDataRequest_ok_def
  by (rule ia_record_reads, (rule ia_updates_Cons ia_updates_Nil | (rule jute_reads; simp))+, rule SetDataRequest.equality, simp_all)

lemma SetDataRequest_safe: "sane_host E \<Longrightarrow> ia_safe (deserialize_SetDataRequest E)"
  unfolding deserialize_SetDataRequest_def
  by (rule ia_record_safe) (simp add: ia_field_safe ia_safe_prims )

interpretation SetDataRequest_codec: codec serialize_SetDataRequest deserialize_SetDataRequest enc_SetDataRequest SetDataRequest_ok
  by unfold_locales (auto intro: SetDataRequest_writes SetDataRequest_reads simp: SetDataRequest_ok_def cbuffer_ok_sendable vec_ok_sendable)

section \<open>ReconfigRequest\<close>

record ReconfigRequest =
  ReconfigRequest_joiningServers :: cstr
  ReconfigRequest_leavingServers :: cstr
  ReconfigRequest_newMembers :: cstr
  ReconfigRequest_curConfigId :: i64

definition ReconfigRequest_zero :: ReconfigRequest where
  "ReconfigRequest_zero = \<lparr>ReconfigRequest_joiningServers = None, ReconfigRequest_leavingServers = None, ReconfigRequest_newMembers = None, ReconfigRequest_curConfigId = 0\<rparr>"

definition serialize_ReconfigRequest :: "host \<Rightarrow> ReconfigRequest \<Rightarrow> oarchive \<Rightarrow> oa_result" where
  "serialize_ReconfigRequest E v = oa_record
     [oa_serialize_string E (ReconfigRequest_joiningServers v),
      oa_serialize_string E (ReconfigRequest_leavingServers v),
      oa_serialize_string E (ReconfigRequest_newMembers v),
      oa_serialize_long E (ReconfigRequest_curConfigId v)]"

definition deserialize_ReconfigRequest :: "host \<Rightarrow> iarchive \<times> ReconfigRequest \<Rightarrow> ReconfigRequest ia_result" where
  "deserialize_ReconfigRequest E = ia_record
     [ia_field ReconfigRequest_joiningServers ReconfigRequest_joiningServers_update (ia_deserialize_string E),
      ia_field ReconfigRequest_leavingServers ReconfigRequest_leavingServers_update (ia_deserialize_string E),
      ia_field ReconfigRequest_newMembers ReconfigRequest_newMembers_update (ia_deserialize_string E),
      ia_field ReconfigRequest_curConfigId ReconfigRequest_curConfigId_update (ia_deserialize_long E)]"

definition deallocate_ReconfigRequest :: "ReconfigRequest \<Rightarrow> ReconfigRequest option" where
  "deallocate_ReconfigRequest v = Some (v\<lparr>ReconfigRequest_joiningServers := deallocate_String (ReconfigRequest_joiningServers v), ReconfigRequest_leavingServers := deallocate_String (ReconfigRequest_leavingServers v), ReconfigRequest_newMembers := deallocate_String (ReconfigRequest_newMembers v)\<rparr>)"

definition enc_ReconfigRequest :: "ReconfigRequest \<Rightarrow> bytes" where
  "enc_ReconfigRequest v = concat
     [enc_string (ReconfigRequest_joiningServers v), enc_string (ReconfigRequest_leavingServers v), enc_string (ReconfigRequest_newMembers v), be64 (ReconfigRequest_curConfigId v)]"

definition ReconfigRequest_ok :: "ReconfigRequest \<Rightarrow> bool" where
  "ReconfigRequest_ok v \<longleftrightarrow> cstr_sendable (ReconfigRequest_joiningServers v) \<and> cstr_sendable (ReconfigRequest_leavingServers v) \<and> cstr_sendable (ReconfigRequest_newMembers v)"

lemma ReconfigRequest_writes [oa_writes_intros]:
  "good_host E \<Longrightarrow> oa_writes (serialize_ReconfigRequest E v) (enc_ReconfigRequest v)"
  unfolding serialize_ReconfigRequest_def enc_ReconfigRequest_def
  by (rule oa_record_writes) (simp add: oa_writes_intros)

lemma ReconfigRequest_reads [jute_reads]:
  "good_host E \<Longrightarrow> ReconfigRequest_ok v \<Longrightarrow> ia_reads (deserialize_ReconfigRequest E) (enc_ReconfigRequest v) v"
  unfolding deserialize_ReconfigRequest_def enc_ReconfigRequest_def ReconfigRequest_ok_def
  by (rule ia_record_reads, (rule ia_updates_Cons ia_updates_Nil | (rule jute_reads; simp))+, rule ReconfigRequest.equality, simp_all)

lemma ReconfigRequest_safe: "ia_safe (deserialize_ReconfigRequest E)"
  unfolding deserialize_ReconfigRequest_def
  by (rule ia_record_safe) (simp add: ia_field_safe ia_safe_prims )

interpretation ReconfigRequest_codec: codec serialize_ReconfigRequest deserialize_ReconfigRequest enc_ReconfigRequest ReconfigRequest_ok
  by unfold_locales (auto intro: ReconfigRequest_writes ReconfigRequest_reads)

section \<open>SetDataResponse\<close>

record SetDataResponse =
  SetDataResponse_stat :: Stat

definition SetDataResponse_zero :: SetDataResponse where
  "SetDataResponse_zero = \<lparr>SetDataResponse_stat = Stat_zero\<rparr>"

definition serialize_SetDataResponse :: "host \<Rightarrow> SetDataResponse \<Rightarrow> oarchive \<Rightarrow> oa_result" where
  "serialize_SetDataResponse E v = oa_record
     [serialize_Stat E (SetDataResponse_stat v)]"

definition deserialize_SetDataResponse :: "host \<Rightarrow> iarchive \<times> SetDataResponse \<Rightarrow> SetDataResponse ia_result" where
  "deserialize_SetDataResponse E = ia_record
     [ia_field SetDataResponse_stat SetDataResponse_stat_update (deserialize_Stat E)]"

definition deallocate_SetDataResponse :: "SetDataResponse \<Rightarrow> SetDataResponse option" where
  "deallocate_SetDataResponse v = do { stat' \<leftarrow> deallocate_Stat (SetDataResponse_stat v); Some (v\<lparr>SetDataResponse_stat := stat'\<rparr>) }"

definition enc_SetDataResponse :: "SetDataResponse \<Rightarrow> bytes" where
  "enc_SetDataResponse v = concat
     [enc_Stat (SetDataResponse_stat v)]"

definition SetDataResponse_ok :: "SetDataResponse \<Rightarrow> bool" where
  "SetDataResponse_ok v \<longleftrightarrow> Stat_ok (SetDataResponse_stat v)"

lemma SetDataResponse_writes [oa_writes_intros]:
  "good_host E \<Longrightarrow> oa_writes (serialize_SetDataResponse E v) (enc_SetDataResponse v)"
  unfolding serialize_SetDataResponse_def enc_SetDataResponse_def
  by (rule oa_record_writes) (simp add: oa_writes_intros)

lemma SetDataResponse_reads [jute_reads]:
  "good_host E \<Longrightarrow> SetDataResponse_ok v \<Longrightarrow> ia_reads (deserialize_SetDataResponse E) (enc_SetDataResponse v) v"
  unfolding deserialize_SetDataResponse_def enc_SetDataResponse_def SetDataResponse_ok_def
  by (rule ia_record_reads, (rule ia_updates_Cons ia_updates_Nil | (rule jute_reads; simp))+, rule SetDataResponse.equality, simp_all)

lemma SetDataResponse_safe: "ia_safe (deserialize_SetDataResponse E)"
  unfolding deserialize_SetDataResponse_def
  by (rule ia_record_safe) (simp add: ia_field_safe ia_safe_prims Stat_safe)

interpretation SetDataResponse_codec: codec serialize_SetDataResponse deserialize_SetDataResponse enc_SetDataResponse SetDataResponse_ok
  by unfold_locales (auto intro: SetDataResponse_writes SetDataResponse_reads)

section \<open>ACL_vector\<close>

type_synonym ACL_vector = "ACL vector"

definition serialize_ACL_vector :: "host \<Rightarrow> ACL_vector \<Rightarrow> oarchive \<Rightarrow> oa_result" where
  "serialize_ACL_vector = serialize_vector serialize_ACL"

definition deserialize_ACL_vector :: "host \<Rightarrow> iarchive \<times> ACL_vector \<Rightarrow> ACL_vector ia_result" where
  "deserialize_ACL_vector = deserialize_vector 24 ACL_zero deserialize_ACL"

definition allocate_ACL_vector :: "host \<Rightarrow> i32 \<Rightarrow> ACL_vector" where
  "allocate_ACL_vector E len = allocate_vector E 24 ACL_zero len"

definition deallocate_ACL_vector :: "ACL_vector \<Rightarrow> ACL_vector option" where
  "deallocate_ACL_vector = deallocate_vector deallocate_ACL"

definition enc_ACL_vector :: "ACL_vector \<Rightarrow> bytes" where
  "enc_ACL_vector = enc_vector enc_ACL"

abbreviation ACL_vector_ok :: "ACL_vector \<Rightarrow> bool" where
  "ACL_vector_ok \<equiv> vec_ok ACL_ok"

abbreviation ACL_vector_sendable :: "ACL_vector \<Rightarrow> bool" where
  "ACL_vector_sendable \<equiv> vec_sendable (\<lambda>_. True)"

lemma ACL_vector_writes [oa_writes_intros]:
  "good_host E \<Longrightarrow> ACL_vector_sendable v \<Longrightarrow> oa_writes (serialize_ACL_vector E v) (enc_ACL_vector v)"
  unfolding serialize_ACL_vector_def enc_ACL_vector_def
  by (rule serialize_vector_writes [where P = "\<lambda>_. True"]) (auto intro: ACL_writes)

lemma ACL_vector_reads [jute_reads]:
  "good_host E \<Longrightarrow> ACL_vector_ok v \<Longrightarrow> ia_reads (deserialize_ACL_vector E) (enc_ACL_vector v) v"
  unfolding deserialize_ACL_vector_def enc_ACL_vector_def
  by (rule deserialize_vector_reads [where P = ACL_ok]) (auto intro: ACL_reads)

lemma ACL_vector_safe:
  "grants_vectors E 24 \<Longrightarrow> ia_safe (deserialize_ACL_vector E)"
  unfolding deserialize_ACL_vector_def by (rule deserialize_vector_safe) (auto intro: ACL_safe)

interpretation ACL_vector_codec: codec serialize_ACL_vector deserialize_ACL_vector enc_ACL_vector ACL_vector_ok
  by unfold_locales (auto intro: ACL_vector_writes ACL_vector_reads simp: vec_ok_def vec_sendable_def list_all_iff)

section \<open>CreateRequest\<close>

record CreateRequest =
  CreateRequest_path :: cstr
  CreateRequest_data :: cbuffer
  CreateRequest_acl :: ACL_vector
  CreateRequest_flags :: i32

definition CreateRequest_zero :: CreateRequest where
  "CreateRequest_zero = \<lparr>CreateRequest_path = None, CreateRequest_data = \<lparr>cb_len = 0, cb_buff = None\<rparr>, CreateRequest_acl = \<lparr>vec_count = 0, vec_data = None\<rparr>, CreateRequest_flags = 0\<rparr>"

definition serialize_CreateRequest :: "host \<Rightarrow> CreateRequest \<Rightarrow> oarchive \<Rightarrow> oa_result" where
  "serialize_CreateRequest E v = oa_record
     [oa_serialize_string E (CreateRequest_path v),
      oa_serialize_buffer E (Some (CreateRequest_data v)),
      serialize_ACL_vector E (CreateRequest_acl v),
      oa_serialize_int E (CreateRequest_flags v)]"

definition deserialize_CreateRequest :: "host \<Rightarrow> iarchive \<times> CreateRequest \<Rightarrow> CreateRequest ia_result" where
  "deserialize_CreateRequest E = ia_record
     [ia_field CreateRequest_path CreateRequest_path_update (ia_deserialize_string E),
      ia_field CreateRequest_data CreateRequest_data_update (ia_deserialize_buffer E),
      ia_field CreateRequest_acl CreateRequest_acl_update (deserialize_ACL_vector E),
      ia_field CreateRequest_flags CreateRequest_flags_update (ia_deserialize_int E)]"

definition deallocate_CreateRequest :: "CreateRequest \<Rightarrow> CreateRequest option" where
  "deallocate_CreateRequest v = do { acl' \<leftarrow> deallocate_ACL_vector (CreateRequest_acl v); Some (v\<lparr>CreateRequest_path := deallocate_String (CreateRequest_path v), CreateRequest_data := deallocate_Buffer (CreateRequest_data v), CreateRequest_acl := acl'\<rparr>) }"

definition enc_CreateRequest :: "CreateRequest \<Rightarrow> bytes" where
  "enc_CreateRequest v = concat
     [enc_string (CreateRequest_path v), enc_buffer (CreateRequest_data v), enc_ACL_vector (CreateRequest_acl v), be32 (CreateRequest_flags v)]"

definition CreateRequest_ok :: "CreateRequest \<Rightarrow> bool" where
  "CreateRequest_ok v \<longleftrightarrow> cstr_sendable (CreateRequest_path v) \<and> cbuffer_ok (CreateRequest_data v) \<and> ACL_vector_ok (CreateRequest_acl v)"

lemma CreateRequest_writes [oa_writes_intros]:
  "good_host E \<Longrightarrow> cbuffer_sendable (CreateRequest_data v) \<Longrightarrow> ACL_vector_sendable (CreateRequest_acl v) \<Longrightarrow> oa_writes (serialize_CreateRequest E v) (enc_CreateRequest v)"
  unfolding serialize_CreateRequest_def enc_CreateRequest_def
  by (rule oa_record_writes) (simp add: oa_writes_intros)

lemma CreateRequest_reads [jute_reads]:
  "good_host E \<Longrightarrow> CreateRequest_ok v \<Longrightarrow> ia_reads (deserialize_CreateRequest E) (enc_CreateRequest v) v"
  unfolding deserialize_CreateRequest_def enc_CreateRequest_def CreateRequest_ok_def
  by (rule ia_record_reads, (rule ia_updates_Cons ia_updates_Nil | (rule jute_reads; simp))+, rule CreateRequest.equality, simp_all)

lemma CreateRequest_safe: "sane_host E \<Longrightarrow> grants_vectors E 24 \<Longrightarrow> ia_safe (deserialize_CreateRequest E)"
  unfolding deserialize_CreateRequest_def
  by (rule ia_record_safe) (simp add: ia_field_safe ia_safe_prims ACL_vector_safe)

interpretation CreateRequest_codec: codec serialize_CreateRequest deserialize_CreateRequest enc_CreateRequest CreateRequest_ok
  by unfold_locales (auto intro: CreateRequest_writes CreateRequest_reads simp: CreateRequest_ok_def cbuffer_ok_sendable vec_ok_sendable)

section \<open>CreateTTLRequest\<close>

record CreateTTLRequest =
  CreateTTLRequest_path :: cstr
  CreateTTLRequest_data :: cbuffer
  CreateTTLRequest_acl :: ACL_vector
  CreateTTLRequest_flags :: i32
  CreateTTLRequest_ttl :: i64

definition CreateTTLRequest_zero :: CreateTTLRequest where
  "CreateTTLRequest_zero = \<lparr>CreateTTLRequest_path = None, CreateTTLRequest_data = \<lparr>cb_len = 0, cb_buff = None\<rparr>, CreateTTLRequest_acl = \<lparr>vec_count = 0, vec_data = None\<rparr>, CreateTTLRequest_flags = 0, CreateTTLRequest_ttl = 0\<rparr>"

definition serialize_CreateTTLRequest :: "host \<Rightarrow> CreateTTLRequest \<Rightarrow> oarchive \<Rightarrow> oa_result" where
  "serialize_CreateTTLRequest E v = oa_record
     [oa_serialize_string E (CreateTTLRequest_path v),
      oa_serialize_buffer E (Some (CreateTTLRequest_data v)),
      serialize_ACL_vector E (CreateTTLRequest_acl v),
      oa_serialize_int E (CreateTTLRequest_flags v),
      oa_serialize_long E (CreateTTLRequest_ttl v)]"

definition deserialize_CreateTTLRequest :: "host \<Rightarrow> iarchive \<times> CreateTTLRequest \<Rightarrow> CreateTTLRequest ia_result" where
  "deserialize_CreateTTLRequest E = ia_record
     [ia_field CreateTTLRequest_path CreateTTLRequest_path_update (ia_deserialize_string E),
      ia_field CreateTTLRequest_data CreateTTLRequest_data_update (ia_deserialize_buffer E),
      ia_field CreateTTLRequest_acl CreateTTLRequest_acl_update (deserialize_ACL_vector E),
      ia_field CreateTTLRequest_flags CreateTTLRequest_flags_update (ia_deserialize_int E),
      ia_field CreateTTLRequest_ttl CreateTTLRequest_ttl_update (ia_deserialize_long E)]"

definition deallocate_CreateTTLRequest :: "CreateTTLRequest \<Rightarrow> CreateTTLRequest option" where
  "deallocate_CreateTTLRequest v = do { acl' \<leftarrow> deallocate_ACL_vector (CreateTTLRequest_acl v); Some (v\<lparr>CreateTTLRequest_path := deallocate_String (CreateTTLRequest_path v), CreateTTLRequest_data := deallocate_Buffer (CreateTTLRequest_data v), CreateTTLRequest_acl := acl'\<rparr>) }"

definition enc_CreateTTLRequest :: "CreateTTLRequest \<Rightarrow> bytes" where
  "enc_CreateTTLRequest v = concat
     [enc_string (CreateTTLRequest_path v), enc_buffer (CreateTTLRequest_data v), enc_ACL_vector (CreateTTLRequest_acl v), be32 (CreateTTLRequest_flags v), be64 (CreateTTLRequest_ttl v)]"

definition CreateTTLRequest_ok :: "CreateTTLRequest \<Rightarrow> bool" where
  "CreateTTLRequest_ok v \<longleftrightarrow> cstr_sendable (CreateTTLRequest_path v) \<and> cbuffer_ok (CreateTTLRequest_data v) \<and> ACL_vector_ok (CreateTTLRequest_acl v)"

lemma CreateTTLRequest_writes [oa_writes_intros]:
  "good_host E \<Longrightarrow> cbuffer_sendable (CreateTTLRequest_data v) \<Longrightarrow> ACL_vector_sendable (CreateTTLRequest_acl v) \<Longrightarrow> oa_writes (serialize_CreateTTLRequest E v) (enc_CreateTTLRequest v)"
  unfolding serialize_CreateTTLRequest_def enc_CreateTTLRequest_def
  by (rule oa_record_writes) (simp add: oa_writes_intros)

lemma CreateTTLRequest_reads [jute_reads]:
  "good_host E \<Longrightarrow> CreateTTLRequest_ok v \<Longrightarrow> ia_reads (deserialize_CreateTTLRequest E) (enc_CreateTTLRequest v) v"
  unfolding deserialize_CreateTTLRequest_def enc_CreateTTLRequest_def CreateTTLRequest_ok_def
  by (rule ia_record_reads, (rule ia_updates_Cons ia_updates_Nil | (rule jute_reads; simp))+, rule CreateTTLRequest.equality, simp_all)

lemma CreateTTLRequest_safe: "sane_host E \<Longrightarrow> grants_vectors E 24 \<Longrightarrow> ia_safe (deserialize_CreateTTLRequest E)"
  unfolding deserialize_CreateTTLRequest_def
  by (rule ia_record_safe) (simp add: ia_field_safe ia_safe_prims ACL_vector_safe)

interpretation CreateTTLRequest_codec: codec serialize_CreateTTLRequest deserialize_CreateTTLRequest enc_CreateTTLRequest CreateTTLRequest_ok
  by unfold_locales (auto intro: CreateTTLRequest_writes CreateTTLRequest_reads simp: CreateTTLRequest_ok_def cbuffer_ok_sendable vec_ok_sendable)

section \<open>DeleteRequest\<close>

record DeleteRequest =
  DeleteRequest_path :: cstr
  DeleteRequest_version :: i32

definition DeleteRequest_zero :: DeleteRequest where
  "DeleteRequest_zero = \<lparr>DeleteRequest_path = None, DeleteRequest_version = 0\<rparr>"

definition serialize_DeleteRequest :: "host \<Rightarrow> DeleteRequest \<Rightarrow> oarchive \<Rightarrow> oa_result" where
  "serialize_DeleteRequest E v = oa_record
     [oa_serialize_string E (DeleteRequest_path v),
      oa_serialize_int E (DeleteRequest_version v)]"

definition deserialize_DeleteRequest :: "host \<Rightarrow> iarchive \<times> DeleteRequest \<Rightarrow> DeleteRequest ia_result" where
  "deserialize_DeleteRequest E = ia_record
     [ia_field DeleteRequest_path DeleteRequest_path_update (ia_deserialize_string E),
      ia_field DeleteRequest_version DeleteRequest_version_update (ia_deserialize_int E)]"

definition deallocate_DeleteRequest :: "DeleteRequest \<Rightarrow> DeleteRequest option" where
  "deallocate_DeleteRequest v = Some (v\<lparr>DeleteRequest_path := deallocate_String (DeleteRequest_path v)\<rparr>)"

definition enc_DeleteRequest :: "DeleteRequest \<Rightarrow> bytes" where
  "enc_DeleteRequest v = concat
     [enc_string (DeleteRequest_path v), be32 (DeleteRequest_version v)]"

definition DeleteRequest_ok :: "DeleteRequest \<Rightarrow> bool" where
  "DeleteRequest_ok v \<longleftrightarrow> cstr_sendable (DeleteRequest_path v)"

lemma DeleteRequest_writes [oa_writes_intros]:
  "good_host E \<Longrightarrow> oa_writes (serialize_DeleteRequest E v) (enc_DeleteRequest v)"
  unfolding serialize_DeleteRequest_def enc_DeleteRequest_def
  by (rule oa_record_writes) (simp add: oa_writes_intros)

lemma DeleteRequest_reads [jute_reads]:
  "good_host E \<Longrightarrow> DeleteRequest_ok v \<Longrightarrow> ia_reads (deserialize_DeleteRequest E) (enc_DeleteRequest v) v"
  unfolding deserialize_DeleteRequest_def enc_DeleteRequest_def DeleteRequest_ok_def
  by (rule ia_record_reads, (rule ia_updates_Cons ia_updates_Nil | (rule jute_reads; simp))+, rule DeleteRequest.equality, simp_all)

lemma DeleteRequest_safe: "ia_safe (deserialize_DeleteRequest E)"
  unfolding deserialize_DeleteRequest_def
  by (rule ia_record_safe) (simp add: ia_field_safe ia_safe_prims )

interpretation DeleteRequest_codec: codec serialize_DeleteRequest deserialize_DeleteRequest enc_DeleteRequest DeleteRequest_ok
  by unfold_locales (auto intro: DeleteRequest_writes DeleteRequest_reads)

section \<open>GetChildrenRequest\<close>

record GetChildrenRequest =
  GetChildrenRequest_path :: cstr
  GetChildrenRequest_watch :: i32

definition GetChildrenRequest_zero :: GetChildrenRequest where
  "GetChildrenRequest_zero = \<lparr>GetChildrenRequest_path = None, GetChildrenRequest_watch = 0\<rparr>"

definition serialize_GetChildrenRequest :: "host \<Rightarrow> GetChildrenRequest \<Rightarrow> oarchive \<Rightarrow> oa_result" where
  "serialize_GetChildrenRequest E v = oa_record
     [oa_serialize_string E (GetChildrenRequest_path v),
      oa_serialize_bool E (GetChildrenRequest_watch v)]"

definition deserialize_GetChildrenRequest :: "host \<Rightarrow> iarchive \<times> GetChildrenRequest \<Rightarrow> GetChildrenRequest ia_result" where
  "deserialize_GetChildrenRequest E = ia_record
     [ia_field GetChildrenRequest_path GetChildrenRequest_path_update (ia_deserialize_string E),
      ia_field GetChildrenRequest_watch GetChildrenRequest_watch_update ia_deserialize_bool]"

definition deallocate_GetChildrenRequest :: "GetChildrenRequest \<Rightarrow> GetChildrenRequest option" where
  "deallocate_GetChildrenRequest v = Some (v\<lparr>GetChildrenRequest_path := deallocate_String (GetChildrenRequest_path v)\<rparr>)"

definition enc_GetChildrenRequest :: "GetChildrenRequest \<Rightarrow> bytes" where
  "enc_GetChildrenRequest v = concat
     [enc_string (GetChildrenRequest_path v), enc_bool (GetChildrenRequest_watch v)]"

definition GetChildrenRequest_ok :: "GetChildrenRequest \<Rightarrow> bool" where
  "GetChildrenRequest_ok v \<longleftrightarrow> cstr_sendable (GetChildrenRequest_path v) \<and> (GetChildrenRequest_watch v = 0 \<or> GetChildrenRequest_watch v = 1)"

lemma GetChildrenRequest_writes [oa_writes_intros]:
  "good_host E \<Longrightarrow> oa_writes (serialize_GetChildrenRequest E v) (enc_GetChildrenRequest v)"
  unfolding serialize_GetChildrenRequest_def enc_GetChildrenRequest_def
  by (rule oa_record_writes) (simp add: oa_writes_intros)

lemma GetChildrenRequest_reads [jute_reads]:
  "good_host E \<Longrightarrow> GetChildrenRequest_ok v \<Longrightarrow> ia_reads (deserialize_GetChildrenRequest E) (enc_GetChildrenRequest v) v"
  unfolding deserialize_GetChildrenRequest_def enc_GetChildrenRequest_def GetChildrenRequest_ok_def
  by (rule ia_record_reads, (rule ia_updates_Cons ia_updates_Nil | (rule jute_reads; simp))+, rule GetChildrenRequest.equality, simp_all)

lemma GetChildrenRequest_safe: "ia_safe (deserialize_GetChildrenRequest E)"
  unfolding deserialize_GetChildrenRequest_def
  by (rule ia_record_safe) (simp add: ia_field_safe ia_safe_prims )

interpretation GetChildrenRequest_codec: codec serialize_GetChildrenRequest deserialize_GetChildrenRequest enc_GetChildrenRequest GetChildrenRequest_ok
  by unfold_locales (auto intro: GetChildrenRequest_writes GetChildrenRequest_reads)

section \<open>GetChildren2Request\<close>

record GetChildren2Request =
  GetChildren2Request_path :: cstr
  GetChildren2Request_watch :: i32

definition GetChildren2Request_zero :: GetChildren2Request where
  "GetChildren2Request_zero = \<lparr>GetChildren2Request_path = None, GetChildren2Request_watch = 0\<rparr>"

definition serialize_GetChildren2Request :: "host \<Rightarrow> GetChildren2Request \<Rightarrow> oarchive \<Rightarrow> oa_result" where
  "serialize_GetChildren2Request E v = oa_record
     [oa_serialize_string E (GetChildren2Request_path v),
      oa_serialize_bool E (GetChildren2Request_watch v)]"

definition deserialize_GetChildren2Request :: "host \<Rightarrow> iarchive \<times> GetChildren2Request \<Rightarrow> GetChildren2Request ia_result" where
  "deserialize_GetChildren2Request E = ia_record
     [ia_field GetChildren2Request_path GetChildren2Request_path_update (ia_deserialize_string E),
      ia_field GetChildren2Request_watch GetChildren2Request_watch_update ia_deserialize_bool]"

definition deallocate_GetChildren2Request :: "GetChildren2Request \<Rightarrow> GetChildren2Request option" where
  "deallocate_GetChildren2Request v = Some (v\<lparr>GetChildren2Request_path := deallocate_String (GetChildren2Request_path v)\<rparr>)"

definition enc_GetChildren2Request :: "GetChildren2Request \<Rightarrow> bytes" where
  "enc_GetChildren2Request v = concat
     [enc_string (GetChildren2Request_path v), enc_bool (GetChildren2Request_watch v)]"

definition GetChildren2Request_ok :: "GetChildren2Request \<Rightarrow> bool" where
  "GetChildren2Request_ok v \<longleftrightarrow> cstr_sendable (GetChildren2Request_path v) \<and> (GetChildren2Request_watch v = 0 \<or> GetChildren2Request_watch v = 1)"

lemma GetChildren2Request_writes [oa_writes_intros]:
  "good_host E \<Longrightarrow> oa_writes (serialize_GetChildren2Request E v) (enc_GetChildren2Request v)"
  unfolding serialize_GetChildren2Request_def enc_GetChildren2Request_def
  by (rule oa_record_writes) (simp add: oa_writes_intros)

lemma GetChildren2Request_reads [jute_reads]:
  "good_host E \<Longrightarrow> GetChildren2Request_ok v \<Longrightarrow> ia_reads (deserialize_GetChildren2Request E) (enc_GetChildren2Request v) v"
  unfolding deserialize_GetChildren2Request_def enc_GetChildren2Request_def GetChildren2Request_ok_def
  by (rule ia_record_reads, (rule ia_updates_Cons ia_updates_Nil | (rule jute_reads; simp))+, rule GetChildren2Request.equality, simp_all)

lemma GetChildren2Request_safe: "ia_safe (deserialize_GetChildren2Request E)"
  unfolding deserialize_GetChildren2Request_def
  by (rule ia_record_safe) (simp add: ia_field_safe ia_safe_prims )

interpretation GetChildren2Request_codec: codec serialize_GetChildren2Request deserialize_GetChildren2Request enc_GetChildren2Request GetChildren2Request_ok
  by unfold_locales (auto intro: GetChildren2Request_writes GetChildren2Request_reads)

section \<open>CheckVersionRequest\<close>

record CheckVersionRequest =
  CheckVersionRequest_path :: cstr
  CheckVersionRequest_version :: i32

definition CheckVersionRequest_zero :: CheckVersionRequest where
  "CheckVersionRequest_zero = \<lparr>CheckVersionRequest_path = None, CheckVersionRequest_version = 0\<rparr>"

definition serialize_CheckVersionRequest :: "host \<Rightarrow> CheckVersionRequest \<Rightarrow> oarchive \<Rightarrow> oa_result" where
  "serialize_CheckVersionRequest E v = oa_record
     [oa_serialize_string E (CheckVersionRequest_path v),
      oa_serialize_int E (CheckVersionRequest_version v)]"

definition deserialize_CheckVersionRequest :: "host \<Rightarrow> iarchive \<times> CheckVersionRequest \<Rightarrow> CheckVersionRequest ia_result" where
  "deserialize_CheckVersionRequest E = ia_record
     [ia_field CheckVersionRequest_path CheckVersionRequest_path_update (ia_deserialize_string E),
      ia_field CheckVersionRequest_version CheckVersionRequest_version_update (ia_deserialize_int E)]"

definition deallocate_CheckVersionRequest :: "CheckVersionRequest \<Rightarrow> CheckVersionRequest option" where
  "deallocate_CheckVersionRequest v = Some (v\<lparr>CheckVersionRequest_path := deallocate_String (CheckVersionRequest_path v)\<rparr>)"

definition enc_CheckVersionRequest :: "CheckVersionRequest \<Rightarrow> bytes" where
  "enc_CheckVersionRequest v = concat
     [enc_string (CheckVersionRequest_path v), be32 (CheckVersionRequest_version v)]"

definition CheckVersionRequest_ok :: "CheckVersionRequest \<Rightarrow> bool" where
  "CheckVersionRequest_ok v \<longleftrightarrow> cstr_sendable (CheckVersionRequest_path v)"

lemma CheckVersionRequest_writes [oa_writes_intros]:
  "good_host E \<Longrightarrow> oa_writes (serialize_CheckVersionRequest E v) (enc_CheckVersionRequest v)"
  unfolding serialize_CheckVersionRequest_def enc_CheckVersionRequest_def
  by (rule oa_record_writes) (simp add: oa_writes_intros)

lemma CheckVersionRequest_reads [jute_reads]:
  "good_host E \<Longrightarrow> CheckVersionRequest_ok v \<Longrightarrow> ia_reads (deserialize_CheckVersionRequest E) (enc_CheckVersionRequest v) v"
  unfolding deserialize_CheckVersionRequest_def enc_CheckVersionRequest_def CheckVersionRequest_ok_def
  by (rule ia_record_reads, (rule ia_updates_Cons ia_updates_Nil | (rule jute_reads; simp))+, rule CheckVersionRequest.equality, simp_all)

lemma CheckVersionRequest_safe: "ia_safe (deserialize_CheckVersionRequest E)"
  unfolding deserialize_CheckVersionRequest_def
  by (rule ia_record_safe) (simp add: ia_field_safe ia_safe_prims )

interpretation CheckVersionRequest_codec: codec serialize_CheckVersionRequest deserialize_CheckVersionRequest enc_CheckVersionRequest CheckVersionRequest_ok
  by unfold_locales (auto intro: CheckVersionRequest_writes CheckVersionRequest_reads)

section \<open>SyncRequest\<close>

record SyncRequest =
  SyncRequest_path :: cstr

definition SyncRequest_zero :: SyncRequest where
  "SyncRequest_zero = \<lparr>SyncRequest_path = None\<rparr>"

definition serialize_SyncRequest :: "host \<Rightarrow> SyncRequest \<Rightarrow> oarchive \<Rightarrow> oa_result" where
  "serialize_SyncRequest E v = oa_record
     [oa_serialize_string E (SyncRequest_path v)]"

definition deserialize_SyncRequest :: "host \<Rightarrow> iarchive \<times> SyncRequest \<Rightarrow> SyncRequest ia_result" where
  "deserialize_SyncRequest E = ia_record
     [ia_field SyncRequest_path SyncRequest_path_update (ia_deserialize_string E)]"

definition deallocate_SyncRequest :: "SyncRequest \<Rightarrow> SyncRequest option" where
  "deallocate_SyncRequest v = Some (v\<lparr>SyncRequest_path := deallocate_String (SyncRequest_path v)\<rparr>)"

definition enc_SyncRequest :: "SyncRequest \<Rightarrow> bytes" where
  "enc_SyncRequest v = concat
     [enc_string (SyncRequest_path v)]"

definition SyncRequest_ok :: "SyncRequest \<Rightarrow> bool" where
  "SyncRequest_ok v \<longleftrightarrow> cstr_sendable (SyncRequest_path v)"

lemma SyncRequest_writes [oa_writes_intros]:
  "good_host E \<Longrightarrow> oa_writes (serialize_SyncRequest E v) (enc_SyncRequest v)"
  unfolding serialize_SyncRequest_def enc_SyncRequest_def
  by (rule oa_record_writes) (simp add: oa_writes_intros)

lemma SyncRequest_reads [jute_reads]:
  "good_host E \<Longrightarrow> SyncRequest_ok v \<Longrightarrow> ia_reads (deserialize_SyncRequest E) (enc_SyncRequest v) v"
  unfolding deserialize_SyncRequest_def enc_SyncRequest_def SyncRequest_ok_def
  by (rule ia_record_reads, (rule ia_updates_Cons ia_updates_Nil | (rule jute_reads; simp))+, rule SyncRequest.equality, simp_all)

lemma SyncRequest_safe: "ia_safe (deserialize_SyncRequest E)"
  unfolding deserialize_SyncRequest_def
  by (rule ia_record_safe) (simp add: ia_field_safe ia_safe_prims )

interpretation SyncRequest_codec: codec serialize_SyncRequest deserialize_SyncRequest enc_SyncRequest SyncRequest_ok
  by unfold_locales (auto intro: SyncRequest_writes SyncRequest_reads)

section \<open>GetACLRequest\<close>

record GetACLRequest =
  GetACLRequest_path :: cstr

definition GetACLRequest_zero :: GetACLRequest where
  "GetACLRequest_zero = \<lparr>GetACLRequest_path = None\<rparr>"

definition serialize_GetACLRequest :: "host \<Rightarrow> GetACLRequest \<Rightarrow> oarchive \<Rightarrow> oa_result" where
  "serialize_GetACLRequest E v = oa_record
     [oa_serialize_string E (GetACLRequest_path v)]"

definition deserialize_GetACLRequest :: "host \<Rightarrow> iarchive \<times> GetACLRequest \<Rightarrow> GetACLRequest ia_result" where
  "deserialize_GetACLRequest E = ia_record
     [ia_field GetACLRequest_path GetACLRequest_path_update (ia_deserialize_string E)]"

definition deallocate_GetACLRequest :: "GetACLRequest \<Rightarrow> GetACLRequest option" where
  "deallocate_GetACLRequest v = Some (v\<lparr>GetACLRequest_path := deallocate_String (GetACLRequest_path v)\<rparr>)"

definition enc_GetACLRequest :: "GetACLRequest \<Rightarrow> bytes" where
  "enc_GetACLRequest v = concat
     [enc_string (GetACLRequest_path v)]"

definition GetACLRequest_ok :: "GetACLRequest \<Rightarrow> bool" where
  "GetACLRequest_ok v \<longleftrightarrow> cstr_sendable (GetACLRequest_path v)"

lemma GetACLRequest_writes [oa_writes_intros]:
  "good_host E \<Longrightarrow> oa_writes (serialize_GetACLRequest E v) (enc_GetACLRequest v)"
  unfolding serialize_GetACLRequest_def enc_GetACLRequest_def
  by (rule oa_record_writes) (simp add: oa_writes_intros)

lemma GetACLRequest_reads [jute_reads]:
  "good_host E \<Longrightarrow> GetACLRequest_ok v \<Longrightarrow> ia_reads (deserialize_GetACLRequest E) (enc_GetACLRequest v) v"
  unfolding deserialize_GetACLRequest_def enc_GetACLRequest_def GetACLRequest_ok_def
  by (rule ia_record_reads, (rule ia_updates_Cons ia_updates_Nil | (rule jute_reads; simp))+, rule GetACLRequest.equality, simp_all)

lemma GetACLRequest_safe: "ia_safe (deserialize_GetACLRequest E)"
  unfolding deserialize_GetACLRequest_def
  by (rule ia_record_safe) (simp add: ia_field_safe ia_safe_prims )

interpretation GetACLRequest_codec: codec serialize_GetACLRequest deserialize_GetACLRequest enc_GetACLRequest GetACLRequest_ok
  by unfold_locales (auto intro: GetACLRequest_writes GetACLRequest_reads)

section \<open>SetACLRequest\<close>

record SetACLRequest =
  SetACLRequest_path :: cstr
  SetACLRequest_acl :: ACL_vector
  SetACLRequest_version :: i32

definition SetACLRequest_zero :: SetACLRequest where
  "SetACLRequest_zero = \<lparr>SetACLRequest_path = None, SetACLRequest_acl = \<lparr>vec_count = 0, vec_data = None\<rparr>, SetACLRequest_version = 0\<rparr>"

definition serialize_SetACLRequest :: "host \<Rightarrow> SetACLRequest \<Rightarrow> oarchive \<Rightarrow> oa_result" where
  "serialize_SetACLRequest E v = oa_record
     [oa_serialize_string E (SetACLRequest_path v),
      serialize_ACL_vector E (SetACLRequest_acl v),
      oa_serialize_int E (SetACLRequest_version v)]"

definition deserialize_SetACLRequest :: "host \<Rightarrow> iarchive \<times> SetACLRequest \<Rightarrow> SetACLRequest ia_result" where
  "deserialize_SetACLRequest E = ia_record
     [ia_field SetACLRequest_path SetACLRequest_path_update (ia_deserialize_string E),
      ia_field SetACLRequest_acl SetACLRequest_acl_update (deserialize_ACL_vector E),
      ia_field SetACLRequest_version SetACLRequest_version_update (ia_deserialize_int E)]"

definition deallocate_SetACLRequest :: "SetACLRequest \<Rightarrow> SetACLRequest option" where
  "deallocate_SetACLRequest v = do { acl' \<leftarrow> deallocate_ACL_vector (SetACLRequest_acl v); Some (v\<lparr>SetACLRequest_path := deallocate_String (SetACLRequest_path v), SetACLRequest_acl := acl'\<rparr>) }"

definition enc_SetACLRequest :: "SetACLRequest \<Rightarrow> bytes" where
  "enc_SetACLRequest v = concat
     [enc_string (SetACLRequest_path v), enc_ACL_vector (SetACLRequest_acl v), be32 (SetACLRequest_version v)]"

definition SetACLRequest_ok :: "SetACLRequest \<Rightarrow> bool" where
  "SetACLRequest_ok v \<longleftrightarrow> cstr_sendable (SetACLRequest_path v) \<and> ACL_vector_ok (SetACLRequest_acl v)"

lemma SetACLRequest_writes [oa_writes_intros]:
  "good_host E \<Longrightarrow> ACL_vector_sendable (SetACLRequest_acl v) \<Longrightarrow> oa_writes (serialize_SetACLRequest E v) (enc_SetACLRequest v)"
  unfolding serialize_SetACLRequest_def enc_SetACLRequest_def
  by (rule oa_record_writes) (simp add: oa_writes_intros)

lemma SetACLRequest_reads [jute_reads]:
  "good_host E \<Longrightarrow> SetACLRequest_ok v \<Longrightarrow> ia_reads (deserialize_SetACLRequest E) (enc_SetACLRequest v) v"
  unfolding deserialize_SetACLRequest_def enc_SetACLRequest_def SetACLRequest_ok_def
  by (rule ia_record_reads, (rule ia_updates_Cons ia_updates_Nil | (rule jute_reads; simp))+, rule SetACLRequest.equality, simp_all)

lemma SetACLRequest_safe: "grants_vectors E 24 \<Longrightarrow> ia_safe (deserialize_SetACLRequest E)"
  unfolding deserialize_SetACLRequest_def
  by (rule ia_record_safe) (simp add: ia_field_safe ia_safe_prims ACL_vector_safe)

interpretation SetACLRequest_codec: codec serialize_SetACLRequest deserialize_SetACLRequest enc_SetACLRequest SetACLRequest_ok
  by unfold_locales (auto intro: SetACLRequest_writes SetACLRequest_reads simp: SetACLRequest_ok_def cbuffer_ok_sendable vec_ok_sendable)

section \<open>WatcherEvent\<close>

record WatcherEvent =
  WatcherEvent_type :: i32
  WatcherEvent_state :: i32
  WatcherEvent_path :: cstr

definition WatcherEvent_zero :: WatcherEvent where
  "WatcherEvent_zero = \<lparr>WatcherEvent_type = 0, WatcherEvent_state = 0, WatcherEvent_path = None\<rparr>"

definition serialize_WatcherEvent :: "host \<Rightarrow> WatcherEvent \<Rightarrow> oarchive \<Rightarrow> oa_result" where
  "serialize_WatcherEvent E v = oa_record
     [oa_serialize_int E (WatcherEvent_type v),
      oa_serialize_int E (WatcherEvent_state v),
      oa_serialize_string E (WatcherEvent_path v)]"

definition deserialize_WatcherEvent :: "host \<Rightarrow> iarchive \<times> WatcherEvent \<Rightarrow> WatcherEvent ia_result" where
  "deserialize_WatcherEvent E = ia_record
     [ia_field WatcherEvent_type WatcherEvent_type_update (ia_deserialize_int E),
      ia_field WatcherEvent_state WatcherEvent_state_update (ia_deserialize_int E),
      ia_field WatcherEvent_path WatcherEvent_path_update (ia_deserialize_string E)]"

definition deallocate_WatcherEvent :: "WatcherEvent \<Rightarrow> WatcherEvent option" where
  "deallocate_WatcherEvent v = Some (v\<lparr>WatcherEvent_path := deallocate_String (WatcherEvent_path v)\<rparr>)"

definition enc_WatcherEvent :: "WatcherEvent \<Rightarrow> bytes" where
  "enc_WatcherEvent v = concat
     [be32 (WatcherEvent_type v), be32 (WatcherEvent_state v), enc_string (WatcherEvent_path v)]"

definition WatcherEvent_ok :: "WatcherEvent \<Rightarrow> bool" where
  "WatcherEvent_ok v \<longleftrightarrow> cstr_sendable (WatcherEvent_path v)"

lemma WatcherEvent_writes [oa_writes_intros]:
  "good_host E \<Longrightarrow> oa_writes (serialize_WatcherEvent E v) (enc_WatcherEvent v)"
  unfolding serialize_WatcherEvent_def enc_WatcherEvent_def
  by (rule oa_record_writes) (simp add: oa_writes_intros)

lemma WatcherEvent_reads [jute_reads]:
  "good_host E \<Longrightarrow> WatcherEvent_ok v \<Longrightarrow> ia_reads (deserialize_WatcherEvent E) (enc_WatcherEvent v) v"
  unfolding deserialize_WatcherEvent_def enc_WatcherEvent_def WatcherEvent_ok_def
  by (rule ia_record_reads, (rule ia_updates_Cons ia_updates_Nil | (rule jute_reads; simp))+, rule WatcherEvent.equality, simp_all)

lemma WatcherEvent_safe: "ia_safe (deserialize_WatcherEvent E)"
  unfolding deserialize_WatcherEvent_def
  by (rule ia_record_safe) (simp add: ia_field_safe ia_safe_prims )

interpretation WatcherEvent_codec: codec serialize_WatcherEvent deserialize_WatcherEvent enc_WatcherEvent WatcherEvent_ok
  by unfold_locales (auto intro: WatcherEvent_writes WatcherEvent_reads)

section \<open>ErrorResponse\<close>

record ErrorResponse =
  ErrorResponse_err :: i32

definition ErrorResponse_zero :: ErrorResponse where
  "ErrorResponse_zero = \<lparr>ErrorResponse_err = 0\<rparr>"

definition serialize_ErrorResponse :: "host \<Rightarrow> ErrorResponse \<Rightarrow> oarchive \<Rightarrow> oa_result" where
  "serialize_ErrorResponse E v = oa_record
     [oa_serialize_int E (ErrorResponse_err v)]"

definition deserialize_ErrorResponse :: "host \<Rightarrow> iarchive \<times> ErrorResponse \<Rightarrow> ErrorResponse ia_result" where
  "deserialize_ErrorResponse E = ia_record
     [ia_field ErrorResponse_err ErrorResponse_err_update (ia_deserialize_int E)]"

definition deallocate_ErrorResponse :: "ErrorResponse \<Rightarrow> ErrorResponse option" where
  "deallocate_ErrorResponse v = Some (v)"

definition enc_ErrorResponse :: "ErrorResponse \<Rightarrow> bytes" where
  "enc_ErrorResponse v = concat
     [be32 (ErrorResponse_err v)]"

definition ErrorResponse_ok :: "ErrorResponse \<Rightarrow> bool" where
  "ErrorResponse_ok v \<longleftrightarrow> True"

lemma ErrorResponse_writes [oa_writes_intros]:
  "good_host E \<Longrightarrow> oa_writes (serialize_ErrorResponse E v) (enc_ErrorResponse v)"
  unfolding serialize_ErrorResponse_def enc_ErrorResponse_def
  by (rule oa_record_writes) (simp add: oa_writes_intros)

lemma ErrorResponse_reads [jute_reads]:
  "good_host E \<Longrightarrow> ia_reads (deserialize_ErrorResponse E) (enc_ErrorResponse v) v"
  unfolding deserialize_ErrorResponse_def enc_ErrorResponse_def ErrorResponse_ok_def
  by (rule ia_record_reads, (rule ia_updates_Cons ia_updates_Nil | (rule jute_reads; simp))+, rule ErrorResponse.equality, simp_all)

lemma ErrorResponse_safe: "ia_safe (deserialize_ErrorResponse E)"
  unfolding deserialize_ErrorResponse_def
  by (rule ia_record_safe) (simp add: ia_field_safe ia_safe_prims )

interpretation ErrorResponse_codec: codec serialize_ErrorResponse deserialize_ErrorResponse enc_ErrorResponse ErrorResponse_ok
  by unfold_locales (auto intro: ErrorResponse_writes ErrorResponse_reads)

section \<open>CreateResponse\<close>

record CreateResponse =
  CreateResponse_path :: cstr

definition CreateResponse_zero :: CreateResponse where
  "CreateResponse_zero = \<lparr>CreateResponse_path = None\<rparr>"

definition serialize_CreateResponse :: "host \<Rightarrow> CreateResponse \<Rightarrow> oarchive \<Rightarrow> oa_result" where
  "serialize_CreateResponse E v = oa_record
     [oa_serialize_string E (CreateResponse_path v)]"

definition deserialize_CreateResponse :: "host \<Rightarrow> iarchive \<times> CreateResponse \<Rightarrow> CreateResponse ia_result" where
  "deserialize_CreateResponse E = ia_record
     [ia_field CreateResponse_path CreateResponse_path_update (ia_deserialize_string E)]"

definition deallocate_CreateResponse :: "CreateResponse \<Rightarrow> CreateResponse option" where
  "deallocate_CreateResponse v = Some (v\<lparr>CreateResponse_path := deallocate_String (CreateResponse_path v)\<rparr>)"

definition enc_CreateResponse :: "CreateResponse \<Rightarrow> bytes" where
  "enc_CreateResponse v = concat
     [enc_string (CreateResponse_path v)]"

definition CreateResponse_ok :: "CreateResponse \<Rightarrow> bool" where
  "CreateResponse_ok v \<longleftrightarrow> cstr_sendable (CreateResponse_path v)"

lemma CreateResponse_writes [oa_writes_intros]:
  "good_host E \<Longrightarrow> oa_writes (serialize_CreateResponse E v) (enc_CreateResponse v)"
  unfolding serialize_CreateResponse_def enc_CreateResponse_def
  by (rule oa_record_writes) (simp add: oa_writes_intros)

lemma CreateResponse_reads [jute_reads]:
  "good_host E \<Longrightarrow> CreateResponse_ok v \<Longrightarrow> ia_reads (deserialize_CreateResponse E) (enc_CreateResponse v) v"
  unfolding deserialize_CreateResponse_def enc_CreateResponse_def CreateResponse_ok_def
  by (rule ia_record_reads, (rule ia_updates_Cons ia_updates_Nil | (rule jute_reads; simp))+, rule CreateResponse.equality, simp_all)

lemma CreateResponse_safe: "ia_safe (deserialize_CreateResponse E)"
  unfolding deserialize_CreateResponse_def
  by (rule ia_record_safe) (simp add: ia_field_safe ia_safe_prims )

interpretation CreateResponse_codec: codec serialize_CreateResponse deserialize_CreateResponse enc_CreateResponse CreateResponse_ok
  by unfold_locales (auto intro: CreateResponse_writes CreateResponse_reads)

section \<open>Create2Response\<close>

record Create2Response =
  Create2Response_path :: cstr
  Create2Response_stat :: Stat

definition Create2Response_zero :: Create2Response where
  "Create2Response_zero = \<lparr>Create2Response_path = None, Create2Response_stat = Stat_zero\<rparr>"

definition serialize_Create2Response :: "host \<Rightarrow> Create2Response \<Rightarrow> oarchive \<Rightarrow> oa_result" where
  "serialize_Create2Response E v = oa_record
     [oa_serialize_string E (Create2Response_path v),
      serialize_Stat E (Create2Response_stat v)]"

definition deserialize_Create2Response :: "host \<Rightarrow> iarchive \<times> Create2Response \<Rightarrow> Create2Response ia_result" where
  "deserialize_Create2Response E = ia_record
     [ia_field Create2Response_path Create2Response_path_update (ia_deserialize_string E),
      ia_field Create2Response_stat Create2Response_stat_update (deserialize_Stat E)]"

definition deallocate_Create2Response :: "Create2Response \<Rightarrow> Create2Response option" where
  "deallocate_Create2Response v = do { stat' \<leftarrow> deallocate_Stat (Create2Response_stat v); Some (v\<lparr>Create2Response_path := deallocate_String (Create2Response_path v), Create2Response_stat := stat'\<rparr>) }"

definition enc_Create2Response :: "Create2Response \<Rightarrow> bytes" where
  "enc_Create2Response v = concat
     [enc_string (Create2Response_path v), enc_Stat (Create2Response_stat v)]"

definition Create2Response_ok :: "Create2Response \<Rightarrow> bool" where
  "Create2Response_ok v \<longleftrightarrow> cstr_sendable (Create2Response_path v) \<and> Stat_ok (Create2Response_stat v)"

lemma Create2Response_writes [oa_writes_intros]:
  "good_host E \<Longrightarrow> oa_writes (serialize_Create2Response E v) (enc_Create2Response v)"
  unfolding serialize_Create2Response_def enc_Create2Response_def
  by (rule oa_record_writes) (simp add: oa_writes_intros)

lemma Create2Response_reads [jute_reads]:
  "good_host E \<Longrightarrow> Create2Response_ok v \<Longrightarrow> ia_reads (deserialize_Create2Response E) (enc_Create2Response v) v"
  unfolding deserialize_Create2Response_def enc_Create2Response_def Create2Response_ok_def
  by (rule ia_record_reads, (rule ia_updates_Cons ia_updates_Nil | (rule jute_reads; simp))+, rule Create2Response.equality, simp_all)

lemma Create2Response_safe: "ia_safe (deserialize_Create2Response E)"
  unfolding deserialize_Create2Response_def
  by (rule ia_record_safe) (simp add: ia_field_safe ia_safe_prims Stat_safe)

interpretation Create2Response_codec: codec serialize_Create2Response deserialize_Create2Response enc_Create2Response Create2Response_ok
  by unfold_locales (auto intro: Create2Response_writes Create2Response_reads)

section \<open>ExistsRequest\<close>

record ExistsRequest =
  ExistsRequest_path :: cstr
  ExistsRequest_watch :: i32

definition ExistsRequest_zero :: ExistsRequest where
  "ExistsRequest_zero = \<lparr>ExistsRequest_path = None, ExistsRequest_watch = 0\<rparr>"

definition serialize_ExistsRequest :: "host \<Rightarrow> ExistsRequest \<Rightarrow> oarchive \<Rightarrow> oa_result" where
  "serialize_ExistsRequest E v = oa_record
     [oa_serialize_string E (ExistsRequest_path v),
      oa_serialize_bool E (ExistsRequest_watch v)]"

definition deserialize_ExistsRequest :: "host \<Rightarrow> iarchive \<times> ExistsRequest \<Rightarrow> ExistsRequest ia_result" where
  "deserialize_ExistsRequest E = ia_record
     [ia_field ExistsRequest_path ExistsRequest_path_update (ia_deserialize_string E),
      ia_field ExistsRequest_watch ExistsRequest_watch_update ia_deserialize_bool]"

definition deallocate_ExistsRequest :: "ExistsRequest \<Rightarrow> ExistsRequest option" where
  "deallocate_ExistsRequest v = Some (v\<lparr>ExistsRequest_path := deallocate_String (ExistsRequest_path v)\<rparr>)"

definition enc_ExistsRequest :: "ExistsRequest \<Rightarrow> bytes" where
  "enc_ExistsRequest v = concat
     [enc_string (ExistsRequest_path v), enc_bool (ExistsRequest_watch v)]"

definition ExistsRequest_ok :: "ExistsRequest \<Rightarrow> bool" where
  "ExistsRequest_ok v \<longleftrightarrow> cstr_sendable (ExistsRequest_path v) \<and> (ExistsRequest_watch v = 0 \<or> ExistsRequest_watch v = 1)"

lemma ExistsRequest_writes [oa_writes_intros]:
  "good_host E \<Longrightarrow> oa_writes (serialize_ExistsRequest E v) (enc_ExistsRequest v)"
  unfolding serialize_ExistsRequest_def enc_ExistsRequest_def
  by (rule oa_record_writes) (simp add: oa_writes_intros)

lemma ExistsRequest_reads [jute_reads]:
  "good_host E \<Longrightarrow> ExistsRequest_ok v \<Longrightarrow> ia_reads (deserialize_ExistsRequest E) (enc_ExistsRequest v) v"
  unfolding deserialize_ExistsRequest_def enc_ExistsRequest_def ExistsRequest_ok_def
  by (rule ia_record_reads, (rule ia_updates_Cons ia_updates_Nil | (rule jute_reads; simp))+, rule ExistsRequest.equality, simp_all)

lemma ExistsRequest_safe: "ia_safe (deserialize_ExistsRequest E)"
  unfolding deserialize_ExistsRequest_def
  by (rule ia_record_safe) (simp add: ia_field_safe ia_safe_prims )

interpretation ExistsRequest_codec: codec serialize_ExistsRequest deserialize_ExistsRequest enc_ExistsRequest ExistsRequest_ok
  by unfold_locales (auto intro: ExistsRequest_writes ExistsRequest_reads)

section \<open>GetDataResponse\<close>

record GetDataResponse =
  GetDataResponse_data :: cbuffer
  GetDataResponse_stat :: Stat

definition GetDataResponse_zero :: GetDataResponse where
  "GetDataResponse_zero = \<lparr>GetDataResponse_data = \<lparr>cb_len = 0, cb_buff = None\<rparr>, GetDataResponse_stat = Stat_zero\<rparr>"

definition serialize_GetDataResponse :: "host \<Rightarrow> GetDataResponse \<Rightarrow> oarchive \<Rightarrow> oa_result" where
  "serialize_GetDataResponse E v = oa_record
     [oa_serialize_buffer E (Some (GetDataResponse_data v)),
      serialize_Stat E (GetDataResponse_stat v)]"

definition deserialize_GetDataResponse :: "host \<Rightarrow> iarchive \<times> GetDataResponse \<Rightarrow> GetDataResponse ia_result" where
  "deserialize_GetDataResponse E = ia_record
     [ia_field GetDataResponse_data GetDataResponse_data_update (ia_deserialize_buffer E),
      ia_field GetDataResponse_stat GetDataResponse_stat_update (deserialize_Stat E)]"

definition deallocate_GetDataResponse :: "GetDataResponse \<Rightarrow> GetDataResponse option" where
  "deallocate_GetDataResponse v = do { stat' \<leftarrow> deallocate_Stat (GetDataResponse_stat v); Some (v\<lparr>GetDataResponse_data := deallocate_Buffer (GetDataResponse_data v), GetDataResponse_stat := stat'\<rparr>) }"

definition enc_GetDataResponse :: "GetDataResponse \<Rightarrow> bytes" where
  "enc_GetDataResponse v = concat
     [enc_buffer (GetDataResponse_data v), enc_Stat (GetDataResponse_stat v)]"

definition GetDataResponse_ok :: "GetDataResponse \<Rightarrow> bool" where
  "GetDataResponse_ok v \<longleftrightarrow> cbuffer_ok (GetDataResponse_data v) \<and> Stat_ok (GetDataResponse_stat v)"

lemma GetDataResponse_writes [oa_writes_intros]:
  "good_host E \<Longrightarrow> cbuffer_sendable (GetDataResponse_data v) \<Longrightarrow> oa_writes (serialize_GetDataResponse E v) (enc_GetDataResponse v)"
  unfolding serialize_GetDataResponse_def enc_GetDataResponse_def
  by (rule oa_record_writes) (simp add: oa_writes_intros)

lemma GetDataResponse_reads [jute_reads]:
  "good_host E \<Longrightarrow> GetDataResponse_ok v \<Longrightarrow> ia_reads (deserialize_GetDataResponse E) (enc_GetDataResponse v) v"
  unfolding deserialize_GetDataResponse_def enc_GetDataResponse_def GetDataResponse_ok_def
  by (rule ia_record_reads, (rule ia_updates_Cons ia_updates_Nil | (rule jute_reads; simp))+, rule GetDataResponse.equality, simp_all)

lemma GetDataResponse_safe: "sane_host E \<Longrightarrow> ia_safe (deserialize_GetDataResponse E)"
  unfolding deserialize_GetDataResponse_def
  by (rule ia_record_safe) (simp add: ia_field_safe ia_safe_prims Stat_safe)

interpretation GetDataResponse_codec: codec serialize_GetDataResponse deserialize_GetDataResponse enc_GetDataResponse GetDataResponse_ok
  by unfold_locales (auto intro: GetDataResponse_writes GetDataResponse_reads simp: GetDataResponse_ok_def cbuffer_ok_sendable vec_ok_sendable)

section \<open>GetChildrenResponse\<close>

record GetChildrenResponse =
  GetChildrenResponse_children :: String_vector

definition GetChildrenResponse_zero :: GetChildrenResponse where
  "GetChildrenResponse_zero = \<lparr>GetChildrenResponse_children = \<lparr>vec_count = 0, vec_data = None\<rparr>\<rparr>"

definition serialize_GetChildrenResponse :: "host \<Rightarrow> GetChildrenResponse \<Rightarrow> oarchive \<Rightarrow> oa_result" where
  "serialize_GetChildrenResponse E v = oa_record
     [serialize_String_vector E (GetChildrenResponse_children v)]"

definition deserialize_GetChildrenResponse :: "host \<Rightarrow> iarchive \<times> GetChildrenResponse \<Rightarrow> GetChildrenResponse ia_result" where
  "deserialize_GetChildrenResponse E = ia_record
     [ia_field GetChildrenResponse_children GetChildrenResponse_children_update (deserialize_String_vector E)]"

definition deallocate_GetChildrenResponse :: "GetChildrenResponse \<Rightarrow> GetChildrenResponse option" where
  "deallocate_GetChildrenResponse v = do { children' \<leftarrow> deallocate_String_vector (GetChildrenResponse_children v); Some (v\<lparr>GetChildrenResponse_children := children'\<rparr>) }"

definition enc_GetChildrenResponse :: "GetChildrenResponse \<Rightarrow> bytes" where
  "enc_GetChildrenResponse v = concat
     [enc_String_vector (GetChildrenResponse_children v)]"

definition GetChildrenResponse_ok :: "GetChildrenResponse \<Rightarrow> bool" where
  "GetChildrenResponse_ok v \<longleftrightarrow> String_vector_ok (GetChildrenResponse_children v)"

lemma GetChildrenResponse_writes [oa_writes_intros]:
  "good_host E \<Longrightarrow> String_vector_sendable (GetChildrenResponse_children v) \<Longrightarrow> oa_writes (serialize_GetChildrenResponse E v) (enc_GetChildrenResponse v)"
  unfolding serialize_GetChildrenResponse_def enc_GetChildrenResponse_def
  by (rule oa_record_writes) (simp add: oa_writes_intros)

lemma GetChildrenResponse_reads [jute_reads]:
  "good_host E \<Longrightarrow> GetChildrenResponse_ok v \<Longrightarrow> ia_reads (deserialize_GetChildrenResponse E) (enc_GetChildrenResponse v) v"
  unfolding deserialize_GetChildrenResponse_def enc_GetChildrenResponse_def GetChildrenResponse_ok_def
  by (rule ia_record_reads, (rule ia_updates_Cons ia_updates_Nil | (rule jute_reads; simp))+, rule GetChildrenResponse.equality, simp_all)

lemma GetChildrenResponse_safe: "grants_vectors E 8 \<Longrightarrow> ia_safe (deserialize_GetChildrenResponse E)"
  unfolding deserialize_GetChildrenResponse_def
  by (rule ia_record_safe) (simp add: ia_field_safe ia_safe_prims String_vector_safe)

interpretation GetChildrenResponse_codec: codec serialize_GetChildrenResponse deserialize_GetChildrenResponse enc_GetChildrenResponse GetChildrenResponse_ok
  by unfold_locales (auto intro: GetChildrenResponse_writes GetChildrenResponse_reads simp: GetChildrenResponse_ok_def cbuffer_ok_sendable vec_ok_sendable)

section \<open>GetChildren2Response\<close>

record GetChildren2Response =
  GetChildren2Response_children :: String_vector
  GetChildren2Response_stat :: Stat

definition GetChildren2Response_zero :: GetChildren2Response where
  "GetChildren2Response_zero = \<lparr>GetChildren2Response_children = \<lparr>vec_count = 0, vec_data = None\<rparr>, GetChildren2Response_stat = Stat_zero\<rparr>"

definition serialize_GetChildren2Response :: "host \<Rightarrow> GetChildren2Response \<Rightarrow> oarchive \<Rightarrow> oa_result" where
  "serialize_GetChildren2Response E v = oa_record
     [serialize_String_vector E (GetChildren2Response_children v),
      serialize_Stat E (GetChildren2Response_stat v)]"

definition deserialize_GetChildren2Response :: "host \<Rightarrow> iarchive \<times> GetChildren2Response \<Rightarrow> GetChildren2Response ia_result" where
  "deserialize_GetChildren2Response E = ia_record
     [ia_field GetChildren2Response_children GetChildren2Response_children_update (deserialize_String_vector E),
      ia_field GetChildren2Response_stat GetChildren2Response_stat_update (deserialize_Stat E)]"

definition deallocate_GetChildren2Response :: "GetChildren2Response \<Rightarrow> GetChildren2Response option" where
  "deallocate_GetChildren2Response v = do { children' \<leftarrow> deallocate_String_vector (GetChildren2Response_children v); stat' \<leftarrow> deallocate_Stat (GetChildren2Response_stat v); Some (v\<lparr>GetChildren2Response_children := children', GetChildren2Response_stat := stat'\<rparr>) }"

definition enc_GetChildren2Response :: "GetChildren2Response \<Rightarrow> bytes" where
  "enc_GetChildren2Response v = concat
     [enc_String_vector (GetChildren2Response_children v), enc_Stat (GetChildren2Response_stat v)]"

definition GetChildren2Response_ok :: "GetChildren2Response \<Rightarrow> bool" where
  "GetChildren2Response_ok v \<longleftrightarrow> String_vector_ok (GetChildren2Response_children v) \<and> Stat_ok (GetChildren2Response_stat v)"

lemma GetChildren2Response_writes [oa_writes_intros]:
  "good_host E \<Longrightarrow> String_vector_sendable (GetChildren2Response_children v) \<Longrightarrow> oa_writes (serialize_GetChildren2Response E v) (enc_GetChildren2Response v)"
  unfolding serialize_GetChildren2Response_def enc_GetChildren2Response_def
  by (rule oa_record_writes) (simp add: oa_writes_intros)

lemma GetChildren2Response_reads [jute_reads]:
  "good_host E \<Longrightarrow> GetChildren2Response_ok v \<Longrightarrow> ia_reads (deserialize_GetChildren2Response E) (enc_GetChildren2Response v) v"
  unfolding deserialize_GetChildren2Response_def enc_GetChildren2Response_def GetChildren2Response_ok_def
  by (rule ia_record_reads, (rule ia_updates_Cons ia_updates_Nil | (rule jute_reads; simp))+, rule GetChildren2Response.equality, simp_all)

lemma GetChildren2Response_safe: "grants_vectors E 8 \<Longrightarrow> ia_safe (deserialize_GetChildren2Response E)"
  unfolding deserialize_GetChildren2Response_def
  by (rule ia_record_safe) (simp add: ia_field_safe ia_safe_prims Stat_safe String_vector_safe)

interpretation GetChildren2Response_codec: codec serialize_GetChildren2Response deserialize_GetChildren2Response enc_GetChildren2Response GetChildren2Response_ok
  by unfold_locales (auto intro: GetChildren2Response_writes GetChildren2Response_reads simp: GetChildren2Response_ok_def cbuffer_ok_sendable vec_ok_sendable)

section \<open>GetACLResponse\<close>

record GetACLResponse =
  GetACLResponse_acl :: ACL_vector
  GetACLResponse_stat :: Stat

definition GetACLResponse_zero :: GetACLResponse where
  "GetACLResponse_zero = \<lparr>GetACLResponse_acl = \<lparr>vec_count = 0, vec_data = None\<rparr>, GetACLResponse_stat = Stat_zero\<rparr>"

definition serialize_GetACLResponse :: "host \<Rightarrow> GetACLResponse \<Rightarrow> oarchive \<Rightarrow> oa_result" where
  "serialize_GetACLResponse E v = oa_record
     [serialize_ACL_vector E (GetACLResponse_acl v),
      serialize_Stat E (GetACLResponse_stat v)]"

definition deserialize_GetACLResponse :: "host \<Rightarrow> iarchive \<times> GetACLResponse \<Rightarrow> GetACLResponse ia_result" where
  "deserialize_GetACLResponse E = ia_record
     [ia_field GetACLResponse_acl GetACLResponse_acl_update (deserialize_ACL_vector E),
      ia_field GetACLResponse_stat GetACLResponse_stat_update (deserialize_Stat E)]"

definition deallocate_GetACLResponse :: "GetACLResponse \<Rightarrow> GetACLResponse option" where
  "deallocate_GetACLResponse v = do { acl' \<leftarrow> deallocate_ACL_vector (GetACLResponse_acl v); stat' \<leftarrow> deallocate_Stat (GetACLResponse_stat v); Some (v\<lparr>GetACLResponse_acl := acl', GetACLResponse_stat := stat'\<rparr>) }"

definition enc_GetACLResponse :: "GetACLResponse \<Rightarrow> bytes" where
  "enc_GetACLResponse v = concat
     [enc_ACL_vector (GetACLResponse_acl v), enc_Stat (GetACLResponse_stat v)]"

definition GetACLResponse_ok :: "GetACLResponse \<Rightarrow> bool" where
  "GetACLResponse_ok v \<longleftrightarrow> ACL_vector_ok (GetACLResponse_acl v) \<and> Stat_ok (GetACLResponse_stat v)"

lemma GetACLResponse_writes [oa_writes_intros]:
  "good_host E \<Longrightarrow> ACL_vector_sendable (GetACLResponse_acl v) \<Longrightarrow> oa_writes (serialize_GetACLResponse E v) (enc_GetACLResponse v)"
  unfolding serialize_GetACLResponse_def enc_GetACLResponse_def
  by (rule oa_record_writes) (simp add: oa_writes_intros)

lemma GetACLResponse_reads [jute_reads]:
  "good_host E \<Longrightarrow> GetACLResponse_ok v \<Longrightarrow> ia_reads (deserialize_GetACLResponse E) (enc_GetACLResponse v) v"
  unfolding deserialize_GetACLResponse_def enc_GetACLResponse_def GetACLResponse_ok_def
  by (rule ia_record_reads, (rule ia_updates_Cons ia_updates_Nil | (rule jute_reads; simp))+, rule GetACLResponse.equality, simp_all)

lemma GetACLResponse_safe: "grants_vectors E 24 \<Longrightarrow> ia_safe (deserialize_GetACLResponse E)"
  unfolding deserialize_GetACLResponse_def
  by (rule ia_record_safe) (simp add: ia_field_safe ia_safe_prims ACL_vector_safe Stat_safe)

interpretation GetACLResponse_codec: codec serialize_GetACLResponse deserialize_GetACLResponse enc_GetACLResponse GetACLResponse_ok
  by unfold_locales (auto intro: GetACLResponse_writes GetACLResponse_reads simp: GetACLResponse_ok_def cbuffer_ok_sendable vec_ok_sendable)

section \<open>CheckWatchesRequest\<close>

record CheckWatchesRequest =
  CheckWatchesRequest_path :: cstr
  CheckWatchesRequest_type :: i32

definition CheckWatchesRequest_zero :: CheckWatchesRequest where
  "CheckWatchesRequest_zero = \<lparr>CheckWatchesRequest_path = None, CheckWatchesRequest_type = 0\<rparr>"

definition serialize_CheckWatchesRequest :: "host \<Rightarrow> CheckWatchesRequest \<Rightarrow> oarchive \<Rightarrow> oa_result" where
  "serialize_CheckWatchesRequest E v = oa_record
     [oa_serialize_string E (CheckWatchesRequest_path v),
      oa_serialize_int E (CheckWatchesRequest_type v)]"

definition deserialize_CheckWatchesRequest :: "host \<Rightarrow> iarchive \<times> CheckWatchesRequest \<Rightarrow> CheckWatchesRequest ia_result" where
  "deserialize_CheckWatchesRequest E = ia_record
     [ia_field CheckWatchesRequest_path CheckWatchesRequest_path_update (ia_deserialize_string E),
      ia_field CheckWatchesRequest_type CheckWatchesRequest_type_update (ia_deserialize_int E)]"

definition deallocate_CheckWatchesRequest :: "CheckWatchesRequest \<Rightarrow> CheckWatchesRequest option" where
  "deallocate_CheckWatchesRequest v = Some (v\<lparr>CheckWatchesRequest_path := deallocate_String (CheckWatchesRequest_path v)\<rparr>)"

definition enc_CheckWatchesRequest :: "CheckWatchesRequest \<Rightarrow> bytes" where
  "enc_CheckWatchesRequest v = concat
     [enc_string (CheckWatchesRequest_path v), be32 (CheckWatchesRequest_type v)]"

definition CheckWatchesRequest_ok :: "CheckWatchesRequest \<Rightarrow> bool" where
  "CheckWatchesRequest_ok v \<longleftrightarrow> cstr_sendable (CheckWatchesRequest_path v)"

lemma CheckWatchesRequest_writes [oa_writes_intros]:
  "good_host E \<Longrightarrow> oa_writes (serialize_CheckWatchesRequest E v) (enc_CheckWatchesRequest v)"
  unfolding serialize_CheckWatchesRequest_def enc_CheckWatchesRequest_def
  by (rule oa_record_writes) (simp add: oa_writes_intros)

lemma CheckWatchesRequest_reads [jute_reads]:
  "good_host E \<Longrightarrow> CheckWatchesRequest_ok v \<Longrightarrow> ia_reads (deserialize_CheckWatchesRequest E) (enc_CheckWatchesRequest v) v"
  unfolding deserialize_CheckWatchesRequest_def enc_CheckWatchesRequest_def CheckWatchesRequest_ok_def
  by (rule ia_record_reads, (rule ia_updates_Cons ia_updates_Nil | (rule jute_reads; simp))+, rule CheckWatchesRequest.equality, simp_all)

lemma CheckWatchesRequest_safe: "ia_safe (deserialize_CheckWatchesRequest E)"
  unfolding deserialize_CheckWatchesRequest_def
  by (rule ia_record_safe) (simp add: ia_field_safe ia_safe_prims )

interpretation CheckWatchesRequest_codec: codec serialize_CheckWatchesRequest deserialize_CheckWatchesRequest enc_CheckWatchesRequest CheckWatchesRequest_ok
  by unfold_locales (auto intro: CheckWatchesRequest_writes CheckWatchesRequest_reads)

section \<open>RemoveWatchesRequest\<close>

record RemoveWatchesRequest =
  RemoveWatchesRequest_path :: cstr
  RemoveWatchesRequest_type :: i32

definition RemoveWatchesRequest_zero :: RemoveWatchesRequest where
  "RemoveWatchesRequest_zero = \<lparr>RemoveWatchesRequest_path = None, RemoveWatchesRequest_type = 0\<rparr>"

definition serialize_RemoveWatchesRequest :: "host \<Rightarrow> RemoveWatchesRequest \<Rightarrow> oarchive \<Rightarrow> oa_result" where
  "serialize_RemoveWatchesRequest E v = oa_record
     [oa_serialize_string E (RemoveWatchesRequest_path v),
      oa_serialize_int E (RemoveWatchesRequest_type v)]"

definition deserialize_RemoveWatchesRequest :: "host \<Rightarrow> iarchive \<times> RemoveWatchesRequest \<Rightarrow> RemoveWatchesRequest ia_result" where
  "deserialize_RemoveWatchesRequest E = ia_record
     [ia_field RemoveWatchesRequest_path RemoveWatchesRequest_path_update (ia_deserialize_string E),
      ia_field RemoveWatchesRequest_type RemoveWatchesRequest_type_update (ia_deserialize_int E)]"

definition deallocate_RemoveWatchesRequest :: "RemoveWatchesRequest \<Rightarrow> RemoveWatchesRequest option" where
  "deallocate_RemoveWatchesRequest v = Some (v\<lparr>RemoveWatchesRequest_path := deallocate_String (RemoveWatchesRequest_path v)\<rparr>)"

definition enc_RemoveWatchesRequest :: "RemoveWatchesRequest \<Rightarrow> bytes" where
  "enc_RemoveWatchesRequest v = concat
     [enc_string (RemoveWatchesRequest_path v), be32 (RemoveWatchesRequest_type v)]"

definition RemoveWatchesRequest_ok :: "RemoveWatchesRequest \<Rightarrow> bool" where
  "RemoveWatchesRequest_ok v \<longleftrightarrow> cstr_sendable (RemoveWatchesRequest_path v)"

lemma RemoveWatchesRequest_writes [oa_writes_intros]:
  "good_host E \<Longrightarrow> oa_writes (serialize_RemoveWatchesRequest E v) (enc_RemoveWatchesRequest v)"
  unfolding serialize_RemoveWatchesRequest_def enc_RemoveWatchesRequest_def
  by (rule oa_record_writes) (simp add: oa_writes_intros)

lemma RemoveWatchesRequest_reads [jute_reads]:
  "good_host E \<Longrightarrow> RemoveWatchesRequest_ok v \<Longrightarrow> ia_reads (deserialize_RemoveWatchesRequest E) (enc_RemoveWatchesRequest v) v"
  unfolding deserialize_RemoveWatchesRequest_def enc_RemoveWatchesRequest_def RemoveWatchesRequest_ok_def
  by (rule ia_record_reads, (rule ia_updates_Cons ia_updates_Nil | (rule jute_reads; simp))+, rule RemoveWatchesRequest.equality, simp_all)

lemma RemoveWatchesRequest_safe: "ia_safe (deserialize_RemoveWatchesRequest E)"
  unfolding deserialize_RemoveWatchesRequest_def
  by (rule ia_record_safe) (simp add: ia_field_safe ia_safe_prims )

interpretation RemoveWatchesRequest_codec: codec serialize_RemoveWatchesRequest deserialize_RemoveWatchesRequest enc_RemoveWatchesRequest RemoveWatchesRequest_ok
  by unfold_locales (auto intro: RemoveWatchesRequest_writes RemoveWatchesRequest_reads)

section \<open>Properties\<close>

text \<open>
  (C40) A create request with a path, data, access control list, flags and time to live that is serialised into a
  fresh archive is read back field by field as it was, for every length of the data and of the list that fits.
\<close>

theorem CreateTTLRequest_roundtrip:
  assumes "good_host E" and "CreateTTLRequest_ok v" and "int (length (enc_CreateTTLRequest v)) \<le> OA_MAX"
  shows "\<exists>oa ia. into_buffer E (serialize_CreateTTLRequest E v) = Some (0, oa) \<and>
    from_buffer E (deserialize_CreateTTLRequest E) oa old =
      Some (0, ia, v) \<and> ia_rest ia = []"
  using assms by (rule CreateTTLRequest_codec.roundtrip)

definition sample_create :: CreateTTLRequest where
  "sample_create =
     \<lparr>CreateTTLRequest_path = Some ''/a'', CreateTTLRequest_data = \<lparr>cb_len = 2, cb_buff = Some ''xy''\<rparr>,
      CreateTTLRequest_acl = \<lparr>vec_count = 1, vec_data =
        Some [\<lparr>ACL_perms = 31, ACL_id = \<lparr>Id_scheme = Some ''world'', Id_id = Some ''anyone''\<rparr>\<rparr>]\<rparr>,
      CreateTTLRequest_flags = 5, CreateTTLRequest_ttl = 10000\<rparr>"

lemmas sample_create_simps =
  CreateTTLRequest_ok_def sample_create_def cstr_sendable_def cbuffer_ok_def vec_ok_def
  vec_sendable_def vec_list_def ACL_ok_def Id_ok_def enc_CreateTTLRequest_def enc_string_def enc_buffer_def
  enc_ACL_vector_def enc_vector_def enc_ACL_def enc_Id_def

theorem CreateTTLRequest_roundtrip_witness:
  "\<exists>oa ia. into_buffer (test_host False) (serialize_CreateTTLRequest (test_host False) sample_create) = Some (0, oa) \<and>
    from_buffer (test_host False) (deserialize_CreateTTLRequest (test_host False)) oa CreateTTLRequest_zero =
      Some (0, ia, sample_create) \<and> ia_rest ia = []"
  by (rule CreateTTLRequest_roundtrip) (simp_all add: sample_create_simps)

text \<open>
  The watch re-registration message survives the wire: the three path lists and the zxid that
  \<^verbatim>\<open>send_set_watches\<close> serialises are exactly what the receiver reads.
\<close>

theorem SetWatches_roundtrip:
  assumes "good_host E" and "SetWatches_ok v" and "int (length (enc_SetWatches v)) \<le> OA_MAX"
  shows "\<exists>oa ia. into_buffer E (serialize_SetWatches E v) = Some (0, oa) \<and>
    from_buffer E (deserialize_SetWatches E) oa old =
      Some (0, ia, v) \<and> ia_rest ia = []"
  using assms by (rule SetWatches_codec.roundtrip)

definition sample_watches :: SetWatches where
  "sample_watches =
     \<lparr>SetWatches_relativeZxid = 77, SetWatches_dataWatches = \<lparr>vec_count = 2, vec_data = Some [Some ''/a'', Some ''/b'']\<rparr>,
      SetWatches_existWatches = \<lparr>vec_count = 0, vec_data = Some []\<rparr>,
      SetWatches_childWatches = \<lparr>vec_count = 1, vec_data = Some [Some ''/'']\<rparr>\<rparr>"

theorem SetWatches_roundtrip_witness:
  "\<exists>oa ia. into_buffer (test_host True) (serialize_SetWatches (test_host True) sample_watches) = Some (0, oa) \<and>
    from_buffer (test_host True) (deserialize_SetWatches (test_host True)) oa SetWatches_zero =
      Some (0, ia, sample_watches) \<and> ia_rest ia = []"
  by (rule SetWatches_roundtrip)
     (simp_all add: SetWatches_ok_def sample_watches_def cstr_sendable_def vec_ok_def
      vec_sendable_def vec_list_def enc_SetWatches_def enc_string_def enc_String_vector_def enc_vector_def)

text \<open>
  The reply to a \<^verbatim>\<open>getAcl\<close>, with its list of access control entries and the node's statistics, survives the wire.
\<close>

theorem GetACLResponse_roundtrip:
  assumes "good_host E" and "GetACLResponse_ok v" and "int (length (enc_GetACLResponse v)) \<le> OA_MAX"
  shows "\<exists>oa ia. into_buffer E (serialize_GetACLResponse E v) = Some (0, oa) \<and>
    from_buffer E (deserialize_GetACLResponse E) oa old =
      Some (0, ia, v) \<and> ia_rest ia = []"
  using assms by (rule GetACLResponse_codec.roundtrip)

theorem GetACLResponse_roundtrip_witness:
  "\<exists>oa ia. into_buffer (test_host False) (serialize_GetACLResponse (test_host False)
        \<lparr>GetACLResponse_acl = CreateTTLRequest_acl sample_create, GetACLResponse_stat = Stat_zero\<rparr>) = Some (0, oa) \<and>
    from_buffer (test_host False) (deserialize_GetACLResponse (test_host False)) oa GetACLResponse_zero =
      Some (0, ia, \<lparr>GetACLResponse_acl = CreateTTLRequest_acl sample_create, GetACLResponse_stat = Stat_zero\<rparr>) \<and>
    ia_rest ia = []"
  by (rule GetACLResponse_roundtrip)
     (simp_all add: sample_create_simps GetACLResponse_ok_def Stat_ok_def enc_GetACLResponse_def enc_Stat_def)

text \<open>
  The deserialiser of a list of strings never reports an error: \<^verbatim>\<open>rc = in->end_vector(in, tag)\<close> overwrites
  what the elements returned. A list whose announced third string is cut off is reported as a success.
\<close>

theorem String_vector_never_fails:
  "deserialize_String_vector E (ia, old) = Some (rc, ia', v) \<Longrightarrow> rc = 0"
  unfolding deserialize_String_vector_def by (rule deserialize_vector_rc)

definition truncated_list :: iarchive where
  "truncated_list = \<lparr>bs_len = 13, bs_off = 0, bs_buffer = Some (be32 3 @ be32 1 @ ''a'' @ be32 9)\<rparr>"

theorem String_vector_never_fails_witness:
  "\<exists>ia' v. deserialize_String_vector (test_host False) (truncated_list, \<lparr>vec_count = 0, vec_data = None\<rparr>) = Some (0, ia', v) \<and>
     vec_count v = 3 \<and> vec_data v = Some [Some ''a'', None, None]"
proof -
  let ?r = "deserialize_String_vector (test_host False) (truncated_list, \<lparr>vec_count = 0, vec_data = None\<rparr>)"
  have "map_option (\<lambda>(rc, ia', v). (vec_count v, vec_data v)) ?r = Some (3, Some [Some ''a'', None, None])"
    by (simp add: truncated_list_def deserialize_String_vector_def deserialize_vector_def
        ia_start_vector_def ia_deserialize_int_def ia_deserialize_string_def ia_end_vector_def calloc_vec_def
        test_host_def mem_read_def ntohl_of_host32 eval_nat_numeral vec_get_def vec_set_def)
  then obtain rc ia' v where r: "?r = Some (rc, ia', v)" "vec_count v = 3" "vec_data v = Some [Some ''a'', None, None]"
    by (auto simp: map_option_eq_Some)
  from String_vector_never_fails [OF r(1)] r show ?thesis by blast
qed

end
