(* ===== verification/JuteServer.thy ===== *)
theory JuteServer
  imports Jute
begin

text \<open>
  The rest of \<^verbatim>\<open>generated/zookeeper.jute.c\<close> and \<^verbatim>\<open>generated/zookeeper.jute.h\<close>: the records of the handshake, of authentication and
  of the quorum and the transaction log, which the generator makes for every language although the client does not use them. The model and
  the laws of each record are those of \<^verbatim>\<open>Jute.thy\<close>; a record that holds transactions can be sent when the data of each can.
\<close>

lemma vec_ok_sends: "vec_ok P v \<Longrightarrow> (\<And>x. P x \<Longrightarrow> Q x) \<Longrightarrow> vec_sendable Q v"
  by (auto simp: vec_ok_def vec_sendable_def list_all_iff)

section \<open>StatPersisted\<close>

record StatPersisted =
  StatPersisted_czxid :: i64
  StatPersisted_mzxid :: i64
  StatPersisted_ctime :: i64
  StatPersisted_mtime :: i64
  StatPersisted_version :: i32
  StatPersisted_cversion :: i32
  StatPersisted_aversion :: i32
  StatPersisted_ephemeralOwner :: i64
  StatPersisted_pzxid :: i64

definition StatPersisted_zero :: StatPersisted where
  "StatPersisted_zero = \<lparr>StatPersisted_czxid = 0, StatPersisted_mzxid = 0, StatPersisted_ctime = 0, StatPersisted_mtime = 0, StatPersisted_version = 0, StatPersisted_cversion = 0, StatPersisted_aversion = 0, StatPersisted_ephemeralOwner = 0, StatPersisted_pzxid = 0\<rparr>"

definition serialize_StatPersisted :: "host \<Rightarrow> StatPersisted \<Rightarrow> oarchive \<Rightarrow> oa_result" where
  "serialize_StatPersisted E v = oa_record
     [oa_serialize_long E (StatPersisted_czxid v),
      oa_serialize_long E (StatPersisted_mzxid v),
      oa_serialize_long E (StatPersisted_ctime v),
      oa_serialize_long E (StatPersisted_mtime v),
      oa_serialize_int E (StatPersisted_version v),
      oa_serialize_int E (StatPersisted_cversion v),
      oa_serialize_int E (StatPersisted_aversion v),
      oa_serialize_long E (StatPersisted_ephemeralOwner v),
      oa_serialize_long E (StatPersisted_pzxid v)]"

definition deserialize_StatPersisted :: "host \<Rightarrow> iarchive \<times> StatPersisted \<Rightarrow> StatPersisted ia_result" where
  "deserialize_StatPersisted E = ia_record
     [ia_field StatPersisted_czxid StatPersisted_czxid_update (ia_deserialize_long E),
      ia_field StatPersisted_mzxid StatPersisted_mzxid_update (ia_deserialize_long E),
      ia_field StatPersisted_ctime StatPersisted_ctime_update (ia_deserialize_long E),
      ia_field StatPersisted_mtime StatPersisted_mtime_update (ia_deserialize_long E),
      ia_field StatPersisted_version StatPersisted_version_update (ia_deserialize_int E),
      ia_field StatPersisted_cversion StatPersisted_cversion_update (ia_deserialize_int E),
      ia_field StatPersisted_aversion StatPersisted_aversion_update (ia_deserialize_int E),
      ia_field StatPersisted_ephemeralOwner StatPersisted_ephemeralOwner_update (ia_deserialize_long E),
      ia_field StatPersisted_pzxid StatPersisted_pzxid_update (ia_deserialize_long E)]"

definition deallocate_StatPersisted :: "StatPersisted \<Rightarrow> StatPersisted option" where
  "deallocate_StatPersisted v = Some (v)"

definition enc_StatPersisted :: "StatPersisted \<Rightarrow> bytes" where
  "enc_StatPersisted v = concat
     [be64 (StatPersisted_czxid v), be64 (StatPersisted_mzxid v), be64 (StatPersisted_ctime v), be64 (StatPersisted_mtime v), be32 (StatPersisted_version v), be32 (StatPersisted_cversion v), be32 (StatPersisted_aversion v), be64 (StatPersisted_ephemeralOwner v), be64 (StatPersisted_pzxid v)]"

definition StatPersisted_ok :: "StatPersisted \<Rightarrow> bool" where
  "StatPersisted_ok v \<longleftrightarrow> True"

lemma StatPersisted_writes [oa_writes_intros]:
  "good_host E \<Longrightarrow> oa_writes (serialize_StatPersisted E v) (enc_StatPersisted v)"
  unfolding serialize_StatPersisted_def enc_StatPersisted_def
  by (rule oa_record_writes) (simp add: oa_writes_intros)

lemma StatPersisted_reads [jute_reads]:
  "good_host E \<Longrightarrow> ia_reads (deserialize_StatPersisted E) (enc_StatPersisted v) v"
  unfolding deserialize_StatPersisted_def enc_StatPersisted_def StatPersisted_ok_def
  by (rule ia_record_reads, (rule ia_updates_Cons ia_updates_Nil | (rule jute_reads; simp))+, rule StatPersisted.equality, simp_all)

lemma StatPersisted_safe: "ia_safe (deserialize_StatPersisted E)"
  unfolding deserialize_StatPersisted_def
  by (rule ia_record_safe) (simp add: ia_field_safe ia_safe_prims )

interpretation StatPersisted_codec: codec serialize_StatPersisted deserialize_StatPersisted enc_StatPersisted StatPersisted_ok
  by unfold_locales (auto intro: StatPersisted_writes StatPersisted_reads)

section \<open>ConnectRequest\<close>

record ConnectRequest =
  ConnectRequest_protocolVersion :: i32
  ConnectRequest_lastZxidSeen :: i64
  ConnectRequest_timeOut :: i32
  ConnectRequest_sessionId :: i64
  ConnectRequest_passwd :: cbuffer

definition ConnectRequest_zero :: ConnectRequest where
  "ConnectRequest_zero = \<lparr>ConnectRequest_protocolVersion = 0, ConnectRequest_lastZxidSeen = 0, ConnectRequest_timeOut = 0, ConnectRequest_sessionId = 0, ConnectRequest_passwd = \<lparr>cb_len = 0, cb_buff = None\<rparr>\<rparr>"

definition serialize_ConnectRequest :: "host \<Rightarrow> ConnectRequest \<Rightarrow> oarchive \<Rightarrow> oa_result" where
  "serialize_ConnectRequest E v = oa_record
     [oa_serialize_int E (ConnectRequest_protocolVersion v),
      oa_serialize_long E (ConnectRequest_lastZxidSeen v),
      oa_serialize_int E (ConnectRequest_timeOut v),
      oa_serialize_long E (ConnectRequest_sessionId v),
      oa_serialize_buffer E (Some (ConnectRequest_passwd v))]"

definition deserialize_ConnectRequest :: "host \<Rightarrow> iarchive \<times> ConnectRequest \<Rightarrow> ConnectRequest ia_result" where
  "deserialize_ConnectRequest E = ia_record
     [ia_field ConnectRequest_protocolVersion ConnectRequest_protocolVersion_update (ia_deserialize_int E),
      ia_field ConnectRequest_lastZxidSeen ConnectRequest_lastZxidSeen_update (ia_deserialize_long E),
      ia_field ConnectRequest_timeOut ConnectRequest_timeOut_update (ia_deserialize_int E),
      ia_field ConnectRequest_sessionId ConnectRequest_sessionId_update (ia_deserialize_long E),
      ia_field ConnectRequest_passwd ConnectRequest_passwd_update (ia_deserialize_buffer E)]"

definition deallocate_ConnectRequest :: "ConnectRequest \<Rightarrow> ConnectRequest option" where
  "deallocate_ConnectRequest v = Some (v\<lparr>ConnectRequest_passwd := deallocate_Buffer (ConnectRequest_passwd v)\<rparr>)"

definition enc_ConnectRequest :: "ConnectRequest \<Rightarrow> bytes" where
  "enc_ConnectRequest v = concat
     [be32 (ConnectRequest_protocolVersion v), be64 (ConnectRequest_lastZxidSeen v), be32 (ConnectRequest_timeOut v), be64 (ConnectRequest_sessionId v), enc_buffer (ConnectRequest_passwd v)]"

definition ConnectRequest_ok :: "ConnectRequest \<Rightarrow> bool" where
  "ConnectRequest_ok v \<longleftrightarrow> cbuffer_ok (ConnectRequest_passwd v)"

lemma ConnectRequest_writes [oa_writes_intros]:
  "good_host E \<Longrightarrow> cbuffer_sendable (ConnectRequest_passwd v) \<Longrightarrow> oa_writes (serialize_ConnectRequest E v) (enc_ConnectRequest v)"
  unfolding serialize_ConnectRequest_def enc_ConnectRequest_def
  by (rule oa_record_writes) (simp add: oa_writes_intros)

lemma ConnectRequest_reads [jute_reads]:
  "good_host E \<Longrightarrow> ConnectRequest_ok v \<Longrightarrow> ia_reads (deserialize_ConnectRequest E) (enc_ConnectRequest v) v"
  unfolding deserialize_ConnectRequest_def enc_ConnectRequest_def ConnectRequest_ok_def
  by (rule ia_record_reads, (rule ia_updates_Cons ia_updates_Nil | (rule jute_reads; simp))+, rule ConnectRequest.equality, simp_all)

lemma ConnectRequest_safe: "sane_host E \<Longrightarrow> ia_safe (deserialize_ConnectRequest E)"
  unfolding deserialize_ConnectRequest_def
  by (rule ia_record_safe) (simp add: ia_field_safe ia_safe_prims )

interpretation ConnectRequest_codec: codec serialize_ConnectRequest deserialize_ConnectRequest enc_ConnectRequest ConnectRequest_ok
  by unfold_locales (auto intro: ConnectRequest_writes ConnectRequest_reads simp: ConnectRequest_ok_def cbuffer_ok_sendable vec_ok_sendable)

section \<open>ConnectResponse\<close>

record ConnectResponse =
  ConnectResponse_protocolVersion :: i32
  ConnectResponse_timeOut :: i32
  ConnectResponse_sessionId :: i64
  ConnectResponse_passwd :: cbuffer

definition ConnectResponse_zero :: ConnectResponse where
  "ConnectResponse_zero = \<lparr>ConnectResponse_protocolVersion = 0, ConnectResponse_timeOut = 0, ConnectResponse_sessionId = 0, ConnectResponse_passwd = \<lparr>cb_len = 0, cb_buff = None\<rparr>\<rparr>"

definition serialize_ConnectResponse :: "host \<Rightarrow> ConnectResponse \<Rightarrow> oarchive \<Rightarrow> oa_result" where
  "serialize_ConnectResponse E v = oa_record
     [oa_serialize_int E (ConnectResponse_protocolVersion v),
      oa_serialize_int E (ConnectResponse_timeOut v),
      oa_serialize_long E (ConnectResponse_sessionId v),
      oa_serialize_buffer E (Some (ConnectResponse_passwd v))]"

definition deserialize_ConnectResponse :: "host \<Rightarrow> iarchive \<times> ConnectResponse \<Rightarrow> ConnectResponse ia_result" where
  "deserialize_ConnectResponse E = ia_record
     [ia_field ConnectResponse_protocolVersion ConnectResponse_protocolVersion_update (ia_deserialize_int E),
      ia_field ConnectResponse_timeOut ConnectResponse_timeOut_update (ia_deserialize_int E),
      ia_field ConnectResponse_sessionId ConnectResponse_sessionId_update (ia_deserialize_long E),
      ia_field ConnectResponse_passwd ConnectResponse_passwd_update (ia_deserialize_buffer E)]"

definition deallocate_ConnectResponse :: "ConnectResponse \<Rightarrow> ConnectResponse option" where
  "deallocate_ConnectResponse v = Some (v\<lparr>ConnectResponse_passwd := deallocate_Buffer (ConnectResponse_passwd v)\<rparr>)"

definition enc_ConnectResponse :: "ConnectResponse \<Rightarrow> bytes" where
  "enc_ConnectResponse v = concat
     [be32 (ConnectResponse_protocolVersion v), be32 (ConnectResponse_timeOut v), be64 (ConnectResponse_sessionId v), enc_buffer (ConnectResponse_passwd v)]"

definition ConnectResponse_ok :: "ConnectResponse \<Rightarrow> bool" where
  "ConnectResponse_ok v \<longleftrightarrow> cbuffer_ok (ConnectResponse_passwd v)"

lemma ConnectResponse_writes [oa_writes_intros]:
  "good_host E \<Longrightarrow> cbuffer_sendable (ConnectResponse_passwd v) \<Longrightarrow> oa_writes (serialize_ConnectResponse E v) (enc_ConnectResponse v)"
  unfolding serialize_ConnectResponse_def enc_ConnectResponse_def
  by (rule oa_record_writes) (simp add: oa_writes_intros)

lemma ConnectResponse_reads [jute_reads]:
  "good_host E \<Longrightarrow> ConnectResponse_ok v \<Longrightarrow> ia_reads (deserialize_ConnectResponse E) (enc_ConnectResponse v) v"
  unfolding deserialize_ConnectResponse_def enc_ConnectResponse_def ConnectResponse_ok_def
  by (rule ia_record_reads, (rule ia_updates_Cons ia_updates_Nil | (rule jute_reads; simp))+, rule ConnectResponse.equality, simp_all)

lemma ConnectResponse_safe: "sane_host E \<Longrightarrow> ia_safe (deserialize_ConnectResponse E)"
  unfolding deserialize_ConnectResponse_def
  by (rule ia_record_safe) (simp add: ia_field_safe ia_safe_prims )

interpretation ConnectResponse_codec: codec serialize_ConnectResponse deserialize_ConnectResponse enc_ConnectResponse ConnectResponse_ok
  by unfold_locales (auto intro: ConnectResponse_writes ConnectResponse_reads simp: ConnectResponse_ok_def cbuffer_ok_sendable vec_ok_sendable)

section \<open>GetSASLRequest\<close>

record GetSASLRequest =
  GetSASLRequest_token :: cbuffer

definition GetSASLRequest_zero :: GetSASLRequest where
  "GetSASLRequest_zero = \<lparr>GetSASLRequest_token = \<lparr>cb_len = 0, cb_buff = None\<rparr>\<rparr>"

definition serialize_GetSASLRequest :: "host \<Rightarrow> GetSASLRequest \<Rightarrow> oarchive \<Rightarrow> oa_result" where
  "serialize_GetSASLRequest E v = oa_record
     [oa_serialize_buffer E (Some (GetSASLRequest_token v))]"

definition deserialize_GetSASLRequest :: "host \<Rightarrow> iarchive \<times> GetSASLRequest \<Rightarrow> GetSASLRequest ia_result" where
  "deserialize_GetSASLRequest E = ia_record
     [ia_field GetSASLRequest_token GetSASLRequest_token_update (ia_deserialize_buffer E)]"

definition deallocate_GetSASLRequest :: "GetSASLRequest \<Rightarrow> GetSASLRequest option" where
  "deallocate_GetSASLRequest v = Some (v\<lparr>GetSASLRequest_token := deallocate_Buffer (GetSASLRequest_token v)\<rparr>)"

definition enc_GetSASLRequest :: "GetSASLRequest \<Rightarrow> bytes" where
  "enc_GetSASLRequest v = concat
     [enc_buffer (GetSASLRequest_token v)]"

definition GetSASLRequest_ok :: "GetSASLRequest \<Rightarrow> bool" where
  "GetSASLRequest_ok v \<longleftrightarrow> cbuffer_ok (GetSASLRequest_token v)"

lemma GetSASLRequest_writes [oa_writes_intros]:
  "good_host E \<Longrightarrow> cbuffer_sendable (GetSASLRequest_token v) \<Longrightarrow> oa_writes (serialize_GetSASLRequest E v) (enc_GetSASLRequest v)"
  unfolding serialize_GetSASLRequest_def enc_GetSASLRequest_def
  by (rule oa_record_writes) (simp add: oa_writes_intros)

lemma GetSASLRequest_reads [jute_reads]:
  "good_host E \<Longrightarrow> GetSASLRequest_ok v \<Longrightarrow> ia_reads (deserialize_GetSASLRequest E) (enc_GetSASLRequest v) v"
  unfolding deserialize_GetSASLRequest_def enc_GetSASLRequest_def GetSASLRequest_ok_def
  by (rule ia_record_reads, (rule ia_updates_Cons ia_updates_Nil | (rule jute_reads; simp))+, rule GetSASLRequest.equality, simp_all)

lemma GetSASLRequest_safe: "sane_host E \<Longrightarrow> ia_safe (deserialize_GetSASLRequest E)"
  unfolding deserialize_GetSASLRequest_def
  by (rule ia_record_safe) (simp add: ia_field_safe ia_safe_prims )

interpretation GetSASLRequest_codec: codec serialize_GetSASLRequest deserialize_GetSASLRequest enc_GetSASLRequest GetSASLRequest_ok
  by unfold_locales (auto intro: GetSASLRequest_writes GetSASLRequest_reads simp: GetSASLRequest_ok_def cbuffer_ok_sendable vec_ok_sendable)

section \<open>SetSASLRequest\<close>

record SetSASLRequest =
  SetSASLRequest_token :: cbuffer

definition SetSASLRequest_zero :: SetSASLRequest where
  "SetSASLRequest_zero = \<lparr>SetSASLRequest_token = \<lparr>cb_len = 0, cb_buff = None\<rparr>\<rparr>"

definition serialize_SetSASLRequest :: "host \<Rightarrow> SetSASLRequest \<Rightarrow> oarchive \<Rightarrow> oa_result" where
  "serialize_SetSASLRequest E v = oa_record
     [oa_serialize_buffer E (Some (SetSASLRequest_token v))]"

definition deserialize_SetSASLRequest :: "host \<Rightarrow> iarchive \<times> SetSASLRequest \<Rightarrow> SetSASLRequest ia_result" where
  "deserialize_SetSASLRequest E = ia_record
     [ia_field SetSASLRequest_token SetSASLRequest_token_update (ia_deserialize_buffer E)]"

definition deallocate_SetSASLRequest :: "SetSASLRequest \<Rightarrow> SetSASLRequest option" where
  "deallocate_SetSASLRequest v = Some (v\<lparr>SetSASLRequest_token := deallocate_Buffer (SetSASLRequest_token v)\<rparr>)"

definition enc_SetSASLRequest :: "SetSASLRequest \<Rightarrow> bytes" where
  "enc_SetSASLRequest v = concat
     [enc_buffer (SetSASLRequest_token v)]"

definition SetSASLRequest_ok :: "SetSASLRequest \<Rightarrow> bool" where
  "SetSASLRequest_ok v \<longleftrightarrow> cbuffer_ok (SetSASLRequest_token v)"

lemma SetSASLRequest_writes [oa_writes_intros]:
  "good_host E \<Longrightarrow> cbuffer_sendable (SetSASLRequest_token v) \<Longrightarrow> oa_writes (serialize_SetSASLRequest E v) (enc_SetSASLRequest v)"
  unfolding serialize_SetSASLRequest_def enc_SetSASLRequest_def
  by (rule oa_record_writes) (simp add: oa_writes_intros)

lemma SetSASLRequest_reads [jute_reads]:
  "good_host E \<Longrightarrow> SetSASLRequest_ok v \<Longrightarrow> ia_reads (deserialize_SetSASLRequest E) (enc_SetSASLRequest v) v"
  unfolding deserialize_SetSASLRequest_def enc_SetSASLRequest_def SetSASLRequest_ok_def
  by (rule ia_record_reads, (rule ia_updates_Cons ia_updates_Nil | (rule jute_reads; simp))+, rule SetSASLRequest.equality, simp_all)

lemma SetSASLRequest_safe: "sane_host E \<Longrightarrow> ia_safe (deserialize_SetSASLRequest E)"
  unfolding deserialize_SetSASLRequest_def
  by (rule ia_record_safe) (simp add: ia_field_safe ia_safe_prims )

interpretation SetSASLRequest_codec: codec serialize_SetSASLRequest deserialize_SetSASLRequest enc_SetSASLRequest SetSASLRequest_ok
  by unfold_locales (auto intro: SetSASLRequest_writes SetSASLRequest_reads simp: SetSASLRequest_ok_def cbuffer_ok_sendable vec_ok_sendable)

section \<open>SetSASLResponse\<close>

record SetSASLResponse =
  SetSASLResponse_token :: cbuffer

definition SetSASLResponse_zero :: SetSASLResponse where
  "SetSASLResponse_zero = \<lparr>SetSASLResponse_token = \<lparr>cb_len = 0, cb_buff = None\<rparr>\<rparr>"

definition serialize_SetSASLResponse :: "host \<Rightarrow> SetSASLResponse \<Rightarrow> oarchive \<Rightarrow> oa_result" where
  "serialize_SetSASLResponse E v = oa_record
     [oa_serialize_buffer E (Some (SetSASLResponse_token v))]"

definition deserialize_SetSASLResponse :: "host \<Rightarrow> iarchive \<times> SetSASLResponse \<Rightarrow> SetSASLResponse ia_result" where
  "deserialize_SetSASLResponse E = ia_record
     [ia_field SetSASLResponse_token SetSASLResponse_token_update (ia_deserialize_buffer E)]"

definition deallocate_SetSASLResponse :: "SetSASLResponse \<Rightarrow> SetSASLResponse option" where
  "deallocate_SetSASLResponse v = Some (v\<lparr>SetSASLResponse_token := deallocate_Buffer (SetSASLResponse_token v)\<rparr>)"

definition enc_SetSASLResponse :: "SetSASLResponse \<Rightarrow> bytes" where
  "enc_SetSASLResponse v = concat
     [enc_buffer (SetSASLResponse_token v)]"

definition SetSASLResponse_ok :: "SetSASLResponse \<Rightarrow> bool" where
  "SetSASLResponse_ok v \<longleftrightarrow> cbuffer_ok (SetSASLResponse_token v)"

lemma SetSASLResponse_writes [oa_writes_intros]:
  "good_host E \<Longrightarrow> cbuffer_sendable (SetSASLResponse_token v) \<Longrightarrow> oa_writes (serialize_SetSASLResponse E v) (enc_SetSASLResponse v)"
  unfolding serialize_SetSASLResponse_def enc_SetSASLResponse_def
  by (rule oa_record_writes) (simp add: oa_writes_intros)

lemma SetSASLResponse_reads [jute_reads]:
  "good_host E \<Longrightarrow> SetSASLResponse_ok v \<Longrightarrow> ia_reads (deserialize_SetSASLResponse E) (enc_SetSASLResponse v) v"
  unfolding deserialize_SetSASLResponse_def enc_SetSASLResponse_def SetSASLResponse_ok_def
  by (rule ia_record_reads, (rule ia_updates_Cons ia_updates_Nil | (rule jute_reads; simp))+, rule SetSASLResponse.equality, simp_all)

lemma SetSASLResponse_safe: "sane_host E \<Longrightarrow> ia_safe (deserialize_SetSASLResponse E)"
  unfolding deserialize_SetSASLResponse_def
  by (rule ia_record_safe) (simp add: ia_field_safe ia_safe_prims )

interpretation SetSASLResponse_codec: codec serialize_SetSASLResponse deserialize_SetSASLResponse enc_SetSASLResponse SetSASLResponse_ok
  by unfold_locales (auto intro: SetSASLResponse_writes SetSASLResponse_reads simp: SetSASLResponse_ok_def cbuffer_ok_sendable vec_ok_sendable)

section \<open>GetMaxChildrenRequest\<close>

record GetMaxChildrenRequest =
  GetMaxChildrenRequest_path :: cstr

definition GetMaxChildrenRequest_zero :: GetMaxChildrenRequest where
  "GetMaxChildrenRequest_zero = \<lparr>GetMaxChildrenRequest_path = None\<rparr>"

definition serialize_GetMaxChildrenRequest :: "host \<Rightarrow> GetMaxChildrenRequest \<Rightarrow> oarchive \<Rightarrow> oa_result" where
  "serialize_GetMaxChildrenRequest E v = oa_record
     [oa_serialize_string E (GetMaxChildrenRequest_path v)]"

definition deserialize_GetMaxChildrenRequest :: "host \<Rightarrow> iarchive \<times> GetMaxChildrenRequest \<Rightarrow> GetMaxChildrenRequest ia_result" where
  "deserialize_GetMaxChildrenRequest E = ia_record
     [ia_field GetMaxChildrenRequest_path GetMaxChildrenRequest_path_update (ia_deserialize_string E)]"

definition deallocate_GetMaxChildrenRequest :: "GetMaxChildrenRequest \<Rightarrow> GetMaxChildrenRequest option" where
  "deallocate_GetMaxChildrenRequest v = Some (v\<lparr>GetMaxChildrenRequest_path := deallocate_String (GetMaxChildrenRequest_path v)\<rparr>)"

definition enc_GetMaxChildrenRequest :: "GetMaxChildrenRequest \<Rightarrow> bytes" where
  "enc_GetMaxChildrenRequest v = concat
     [enc_string (GetMaxChildrenRequest_path v)]"

definition GetMaxChildrenRequest_ok :: "GetMaxChildrenRequest \<Rightarrow> bool" where
  "GetMaxChildrenRequest_ok v \<longleftrightarrow> cstr_sendable (GetMaxChildrenRequest_path v)"

lemma GetMaxChildrenRequest_writes [oa_writes_intros]:
  "good_host E \<Longrightarrow> oa_writes (serialize_GetMaxChildrenRequest E v) (enc_GetMaxChildrenRequest v)"
  unfolding serialize_GetMaxChildrenRequest_def enc_GetMaxChildrenRequest_def
  by (rule oa_record_writes) (simp add: oa_writes_intros)

lemma GetMaxChildrenRequest_reads [jute_reads]:
  "good_host E \<Longrightarrow> GetMaxChildrenRequest_ok v \<Longrightarrow> ia_reads (deserialize_GetMaxChildrenRequest E) (enc_GetMaxChildrenRequest v) v"
  unfolding deserialize_GetMaxChildrenRequest_def enc_GetMaxChildrenRequest_def GetMaxChildrenRequest_ok_def
  by (rule ia_record_reads, (rule ia_updates_Cons ia_updates_Nil | (rule jute_reads; simp))+, rule GetMaxChildrenRequest.equality, simp_all)

lemma GetMaxChildrenRequest_safe: "ia_safe (deserialize_GetMaxChildrenRequest E)"
  unfolding deserialize_GetMaxChildrenRequest_def
  by (rule ia_record_safe) (simp add: ia_field_safe ia_safe_prims )

interpretation GetMaxChildrenRequest_codec: codec serialize_GetMaxChildrenRequest deserialize_GetMaxChildrenRequest enc_GetMaxChildrenRequest GetMaxChildrenRequest_ok
  by unfold_locales (auto intro: GetMaxChildrenRequest_writes GetMaxChildrenRequest_reads)

section \<open>GetMaxChildrenResponse\<close>

record GetMaxChildrenResponse =
  GetMaxChildrenResponse_max :: i32

definition GetMaxChildrenResponse_zero :: GetMaxChildrenResponse where
  "GetMaxChildrenResponse_zero = \<lparr>GetMaxChildrenResponse_max = 0\<rparr>"

definition serialize_GetMaxChildrenResponse :: "host \<Rightarrow> GetMaxChildrenResponse \<Rightarrow> oarchive \<Rightarrow> oa_result" where
  "serialize_GetMaxChildrenResponse E v = oa_record
     [oa_serialize_int E (GetMaxChildrenResponse_max v)]"

definition deserialize_GetMaxChildrenResponse :: "host \<Rightarrow> iarchive \<times> GetMaxChildrenResponse \<Rightarrow> GetMaxChildrenResponse ia_result" where
  "deserialize_GetMaxChildrenResponse E = ia_record
     [ia_field GetMaxChildrenResponse_max GetMaxChildrenResponse_max_update (ia_deserialize_int E)]"

definition deallocate_GetMaxChildrenResponse :: "GetMaxChildrenResponse \<Rightarrow> GetMaxChildrenResponse option" where
  "deallocate_GetMaxChildrenResponse v = Some (v)"

definition enc_GetMaxChildrenResponse :: "GetMaxChildrenResponse \<Rightarrow> bytes" where
  "enc_GetMaxChildrenResponse v = concat
     [be32 (GetMaxChildrenResponse_max v)]"

definition GetMaxChildrenResponse_ok :: "GetMaxChildrenResponse \<Rightarrow> bool" where
  "GetMaxChildrenResponse_ok v \<longleftrightarrow> True"

lemma GetMaxChildrenResponse_writes [oa_writes_intros]:
  "good_host E \<Longrightarrow> oa_writes (serialize_GetMaxChildrenResponse E v) (enc_GetMaxChildrenResponse v)"
  unfolding serialize_GetMaxChildrenResponse_def enc_GetMaxChildrenResponse_def
  by (rule oa_record_writes) (simp add: oa_writes_intros)

lemma GetMaxChildrenResponse_reads [jute_reads]:
  "good_host E \<Longrightarrow> ia_reads (deserialize_GetMaxChildrenResponse E) (enc_GetMaxChildrenResponse v) v"
  unfolding deserialize_GetMaxChildrenResponse_def enc_GetMaxChildrenResponse_def GetMaxChildrenResponse_ok_def
  by (rule ia_record_reads, (rule ia_updates_Cons ia_updates_Nil | (rule jute_reads; simp))+, rule GetMaxChildrenResponse.equality, simp_all)

lemma GetMaxChildrenResponse_safe: "ia_safe (deserialize_GetMaxChildrenResponse E)"
  unfolding deserialize_GetMaxChildrenResponse_def
  by (rule ia_record_safe) (simp add: ia_field_safe ia_safe_prims )

interpretation GetMaxChildrenResponse_codec: codec serialize_GetMaxChildrenResponse deserialize_GetMaxChildrenResponse enc_GetMaxChildrenResponse GetMaxChildrenResponse_ok
  by unfold_locales (auto intro: GetMaxChildrenResponse_writes GetMaxChildrenResponse_reads)

section \<open>SetMaxChildrenRequest\<close>

record SetMaxChildrenRequest =
  SetMaxChildrenRequest_path :: cstr
  SetMaxChildrenRequest_max :: i32

definition SetMaxChildrenRequest_zero :: SetMaxChildrenRequest where
  "SetMaxChildrenRequest_zero = \<lparr>SetMaxChildrenRequest_path = None, SetMaxChildrenRequest_max = 0\<rparr>"

definition serialize_SetMaxChildrenRequest :: "host \<Rightarrow> SetMaxChildrenRequest \<Rightarrow> oarchive \<Rightarrow> oa_result" where
  "serialize_SetMaxChildrenRequest E v = oa_record
     [oa_serialize_string E (SetMaxChildrenRequest_path v),
      oa_serialize_int E (SetMaxChildrenRequest_max v)]"

definition deserialize_SetMaxChildrenRequest :: "host \<Rightarrow> iarchive \<times> SetMaxChildrenRequest \<Rightarrow> SetMaxChildrenRequest ia_result" where
  "deserialize_SetMaxChildrenRequest E = ia_record
     [ia_field SetMaxChildrenRequest_path SetMaxChildrenRequest_path_update (ia_deserialize_string E),
      ia_field SetMaxChildrenRequest_max SetMaxChildrenRequest_max_update (ia_deserialize_int E)]"

definition deallocate_SetMaxChildrenRequest :: "SetMaxChildrenRequest \<Rightarrow> SetMaxChildrenRequest option" where
  "deallocate_SetMaxChildrenRequest v = Some (v\<lparr>SetMaxChildrenRequest_path := deallocate_String (SetMaxChildrenRequest_path v)\<rparr>)"

definition enc_SetMaxChildrenRequest :: "SetMaxChildrenRequest \<Rightarrow> bytes" where
  "enc_SetMaxChildrenRequest v = concat
     [enc_string (SetMaxChildrenRequest_path v), be32 (SetMaxChildrenRequest_max v)]"

definition SetMaxChildrenRequest_ok :: "SetMaxChildrenRequest \<Rightarrow> bool" where
  "SetMaxChildrenRequest_ok v \<longleftrightarrow> cstr_sendable (SetMaxChildrenRequest_path v)"

lemma SetMaxChildrenRequest_writes [oa_writes_intros]:
  "good_host E \<Longrightarrow> oa_writes (serialize_SetMaxChildrenRequest E v) (enc_SetMaxChildrenRequest v)"
  unfolding serialize_SetMaxChildrenRequest_def enc_SetMaxChildrenRequest_def
  by (rule oa_record_writes) (simp add: oa_writes_intros)

lemma SetMaxChildrenRequest_reads [jute_reads]:
  "good_host E \<Longrightarrow> SetMaxChildrenRequest_ok v \<Longrightarrow> ia_reads (deserialize_SetMaxChildrenRequest E) (enc_SetMaxChildrenRequest v) v"
  unfolding deserialize_SetMaxChildrenRequest_def enc_SetMaxChildrenRequest_def SetMaxChildrenRequest_ok_def
  by (rule ia_record_reads, (rule ia_updates_Cons ia_updates_Nil | (rule jute_reads; simp))+, rule SetMaxChildrenRequest.equality, simp_all)

lemma SetMaxChildrenRequest_safe: "ia_safe (deserialize_SetMaxChildrenRequest E)"
  unfolding deserialize_SetMaxChildrenRequest_def
  by (rule ia_record_safe) (simp add: ia_field_safe ia_safe_prims )

interpretation SetMaxChildrenRequest_codec: codec serialize_SetMaxChildrenRequest deserialize_SetMaxChildrenRequest enc_SetMaxChildrenRequest SetMaxChildrenRequest_ok
  by unfold_locales (auto intro: SetMaxChildrenRequest_writes SetMaxChildrenRequest_reads)

section \<open>SyncResponse\<close>

record SyncResponse =
  SyncResponse_path :: cstr

definition SyncResponse_zero :: SyncResponse where
  "SyncResponse_zero = \<lparr>SyncResponse_path = None\<rparr>"

definition serialize_SyncResponse :: "host \<Rightarrow> SyncResponse \<Rightarrow> oarchive \<Rightarrow> oa_result" where
  "serialize_SyncResponse E v = oa_record
     [oa_serialize_string E (SyncResponse_path v)]"

definition deserialize_SyncResponse :: "host \<Rightarrow> iarchive \<times> SyncResponse \<Rightarrow> SyncResponse ia_result" where
  "deserialize_SyncResponse E = ia_record
     [ia_field SyncResponse_path SyncResponse_path_update (ia_deserialize_string E)]"

definition deallocate_SyncResponse :: "SyncResponse \<Rightarrow> SyncResponse option" where
  "deallocate_SyncResponse v = Some (v\<lparr>SyncResponse_path := deallocate_String (SyncResponse_path v)\<rparr>)"

definition enc_SyncResponse :: "SyncResponse \<Rightarrow> bytes" where
  "enc_SyncResponse v = concat
     [enc_string (SyncResponse_path v)]"

definition SyncResponse_ok :: "SyncResponse \<Rightarrow> bool" where
  "SyncResponse_ok v \<longleftrightarrow> cstr_sendable (SyncResponse_path v)"

lemma SyncResponse_writes [oa_writes_intros]:
  "good_host E \<Longrightarrow> oa_writes (serialize_SyncResponse E v) (enc_SyncResponse v)"
  unfolding serialize_SyncResponse_def enc_SyncResponse_def
  by (rule oa_record_writes) (simp add: oa_writes_intros)

lemma SyncResponse_reads [jute_reads]:
  "good_host E \<Longrightarrow> SyncResponse_ok v \<Longrightarrow> ia_reads (deserialize_SyncResponse E) (enc_SyncResponse v) v"
  unfolding deserialize_SyncResponse_def enc_SyncResponse_def SyncResponse_ok_def
  by (rule ia_record_reads, (rule ia_updates_Cons ia_updates_Nil | (rule jute_reads; simp))+, rule SyncResponse.equality, simp_all)

lemma SyncResponse_safe: "ia_safe (deserialize_SyncResponse E)"
  unfolding deserialize_SyncResponse_def
  by (rule ia_record_safe) (simp add: ia_field_safe ia_safe_prims )

interpretation SyncResponse_codec: codec serialize_SyncResponse deserialize_SyncResponse enc_SyncResponse SyncResponse_ok
  by unfold_locales (auto intro: SyncResponse_writes SyncResponse_reads)

section \<open>SetACLResponse\<close>

record SetACLResponse =
  SetACLResponse_stat :: Stat

definition SetACLResponse_zero :: SetACLResponse where
  "SetACLResponse_zero = \<lparr>SetACLResponse_stat = Stat_zero\<rparr>"

definition serialize_SetACLResponse :: "host \<Rightarrow> SetACLResponse \<Rightarrow> oarchive \<Rightarrow> oa_result" where
  "serialize_SetACLResponse E v = oa_record
     [serialize_Stat E (SetACLResponse_stat v)]"

definition deserialize_SetACLResponse :: "host \<Rightarrow> iarchive \<times> SetACLResponse \<Rightarrow> SetACLResponse ia_result" where
  "deserialize_SetACLResponse E = ia_record
     [ia_field SetACLResponse_stat SetACLResponse_stat_update (deserialize_Stat E)]"

definition deallocate_SetACLResponse :: "SetACLResponse \<Rightarrow> SetACLResponse option" where
  "deallocate_SetACLResponse v = do { stat' \<leftarrow> deallocate_Stat (SetACLResponse_stat v); Some (v\<lparr>SetACLResponse_stat := stat'\<rparr>) }"

definition enc_SetACLResponse :: "SetACLResponse \<Rightarrow> bytes" where
  "enc_SetACLResponse v = concat
     [enc_Stat (SetACLResponse_stat v)]"

definition SetACLResponse_ok :: "SetACLResponse \<Rightarrow> bool" where
  "SetACLResponse_ok v \<longleftrightarrow> Stat_ok (SetACLResponse_stat v)"

lemma SetACLResponse_writes [oa_writes_intros]:
  "good_host E \<Longrightarrow> oa_writes (serialize_SetACLResponse E v) (enc_SetACLResponse v)"
  unfolding serialize_SetACLResponse_def enc_SetACLResponse_def
  by (rule oa_record_writes) (simp add: oa_writes_intros)

lemma SetACLResponse_reads [jute_reads]:
  "good_host E \<Longrightarrow> SetACLResponse_ok v \<Longrightarrow> ia_reads (deserialize_SetACLResponse E) (enc_SetACLResponse v) v"
  unfolding deserialize_SetACLResponse_def enc_SetACLResponse_def SetACLResponse_ok_def
  by (rule ia_record_reads, (rule ia_updates_Cons ia_updates_Nil | (rule jute_reads; simp))+, rule SetACLResponse.equality, simp_all)

lemma SetACLResponse_safe: "ia_safe (deserialize_SetACLResponse E)"
  unfolding deserialize_SetACLResponse_def
  by (rule ia_record_safe) (simp add: ia_field_safe ia_safe_prims Stat_safe)

interpretation SetACLResponse_codec: codec serialize_SetACLResponse deserialize_SetACLResponse enc_SetACLResponse SetACLResponse_ok
  by unfold_locales (auto intro: SetACLResponse_writes SetACLResponse_reads)

section \<open>ExistsResponse\<close>

record ExistsResponse =
  ExistsResponse_stat :: Stat

definition ExistsResponse_zero :: ExistsResponse where
  "ExistsResponse_zero = \<lparr>ExistsResponse_stat = Stat_zero\<rparr>"

definition serialize_ExistsResponse :: "host \<Rightarrow> ExistsResponse \<Rightarrow> oarchive \<Rightarrow> oa_result" where
  "serialize_ExistsResponse E v = oa_record
     [serialize_Stat E (ExistsResponse_stat v)]"

definition deserialize_ExistsResponse :: "host \<Rightarrow> iarchive \<times> ExistsResponse \<Rightarrow> ExistsResponse ia_result" where
  "deserialize_ExistsResponse E = ia_record
     [ia_field ExistsResponse_stat ExistsResponse_stat_update (deserialize_Stat E)]"

definition deallocate_ExistsResponse :: "ExistsResponse \<Rightarrow> ExistsResponse option" where
  "deallocate_ExistsResponse v = do { stat' \<leftarrow> deallocate_Stat (ExistsResponse_stat v); Some (v\<lparr>ExistsResponse_stat := stat'\<rparr>) }"

definition enc_ExistsResponse :: "ExistsResponse \<Rightarrow> bytes" where
  "enc_ExistsResponse v = concat
     [enc_Stat (ExistsResponse_stat v)]"

definition ExistsResponse_ok :: "ExistsResponse \<Rightarrow> bool" where
  "ExistsResponse_ok v \<longleftrightarrow> Stat_ok (ExistsResponse_stat v)"

lemma ExistsResponse_writes [oa_writes_intros]:
  "good_host E \<Longrightarrow> oa_writes (serialize_ExistsResponse E v) (enc_ExistsResponse v)"
  unfolding serialize_ExistsResponse_def enc_ExistsResponse_def
  by (rule oa_record_writes) (simp add: oa_writes_intros)

lemma ExistsResponse_reads [jute_reads]:
  "good_host E \<Longrightarrow> ExistsResponse_ok v \<Longrightarrow> ia_reads (deserialize_ExistsResponse E) (enc_ExistsResponse v) v"
  unfolding deserialize_ExistsResponse_def enc_ExistsResponse_def ExistsResponse_ok_def
  by (rule ia_record_reads, (rule ia_updates_Cons ia_updates_Nil | (rule jute_reads; simp))+, rule ExistsResponse.equality, simp_all)

lemma ExistsResponse_safe: "ia_safe (deserialize_ExistsResponse E)"
  unfolding deserialize_ExistsResponse_def
  by (rule ia_record_safe) (simp add: ia_field_safe ia_safe_prims Stat_safe)

interpretation ExistsResponse_codec: codec serialize_ExistsResponse deserialize_ExistsResponse enc_ExistsResponse ExistsResponse_ok
  by unfold_locales (auto intro: ExistsResponse_writes ExistsResponse_reads)

section \<open>LearnerInfo\<close>

record LearnerInfo =
  LearnerInfo_serverid :: i64
  LearnerInfo_protocolVersion :: i32
  LearnerInfo_configVersion :: i64

definition LearnerInfo_zero :: LearnerInfo where
  "LearnerInfo_zero = \<lparr>LearnerInfo_serverid = 0, LearnerInfo_protocolVersion = 0, LearnerInfo_configVersion = 0\<rparr>"

definition serialize_LearnerInfo :: "host \<Rightarrow> LearnerInfo \<Rightarrow> oarchive \<Rightarrow> oa_result" where
  "serialize_LearnerInfo E v = oa_record
     [oa_serialize_long E (LearnerInfo_serverid v),
      oa_serialize_int E (LearnerInfo_protocolVersion v),
      oa_serialize_long E (LearnerInfo_configVersion v)]"

definition deserialize_LearnerInfo :: "host \<Rightarrow> iarchive \<times> LearnerInfo \<Rightarrow> LearnerInfo ia_result" where
  "deserialize_LearnerInfo E = ia_record
     [ia_field LearnerInfo_serverid LearnerInfo_serverid_update (ia_deserialize_long E),
      ia_field LearnerInfo_protocolVersion LearnerInfo_protocolVersion_update (ia_deserialize_int E),
      ia_field LearnerInfo_configVersion LearnerInfo_configVersion_update (ia_deserialize_long E)]"

definition deallocate_LearnerInfo :: "LearnerInfo \<Rightarrow> LearnerInfo option" where
  "deallocate_LearnerInfo v = Some (v)"

definition enc_LearnerInfo :: "LearnerInfo \<Rightarrow> bytes" where
  "enc_LearnerInfo v = concat
     [be64 (LearnerInfo_serverid v), be32 (LearnerInfo_protocolVersion v), be64 (LearnerInfo_configVersion v)]"

definition LearnerInfo_ok :: "LearnerInfo \<Rightarrow> bool" where
  "LearnerInfo_ok v \<longleftrightarrow> True"

lemma LearnerInfo_writes [oa_writes_intros]:
  "good_host E \<Longrightarrow> oa_writes (serialize_LearnerInfo E v) (enc_LearnerInfo v)"
  unfolding serialize_LearnerInfo_def enc_LearnerInfo_def
  by (rule oa_record_writes) (simp add: oa_writes_intros)

lemma LearnerInfo_reads [jute_reads]:
  "good_host E \<Longrightarrow> ia_reads (deserialize_LearnerInfo E) (enc_LearnerInfo v) v"
  unfolding deserialize_LearnerInfo_def enc_LearnerInfo_def LearnerInfo_ok_def
  by (rule ia_record_reads, (rule ia_updates_Cons ia_updates_Nil | (rule jute_reads; simp))+, rule LearnerInfo.equality, simp_all)

lemma LearnerInfo_safe: "ia_safe (deserialize_LearnerInfo E)"
  unfolding deserialize_LearnerInfo_def
  by (rule ia_record_safe) (simp add: ia_field_safe ia_safe_prims )

interpretation LearnerInfo_codec: codec serialize_LearnerInfo deserialize_LearnerInfo enc_LearnerInfo LearnerInfo_ok
  by unfold_locales (auto intro: LearnerInfo_writes LearnerInfo_reads)

section \<open>Id_vector\<close>

type_synonym Id_vector = "Id vector"

definition serialize_Id_vector :: "host \<Rightarrow> Id_vector \<Rightarrow> oarchive \<Rightarrow> oa_result" where
  "serialize_Id_vector = serialize_vector serialize_Id"

definition deserialize_Id_vector :: "host \<Rightarrow> iarchive \<times> Id_vector \<Rightarrow> Id_vector ia_result" where
  "deserialize_Id_vector = deserialize_vector 16 Id_zero deserialize_Id"

definition allocate_Id_vector :: "host \<Rightarrow> i32 \<Rightarrow> Id_vector" where
  "allocate_Id_vector E len = allocate_vector E 16 Id_zero len"

definition deallocate_Id_vector :: "Id_vector \<Rightarrow> Id_vector option" where
  "deallocate_Id_vector = deallocate_vector deallocate_Id"

definition enc_Id_vector :: "Id_vector \<Rightarrow> bytes" where
  "enc_Id_vector = enc_vector enc_Id"

abbreviation Id_vector_ok :: "Id_vector \<Rightarrow> bool" where
  "Id_vector_ok \<equiv> vec_ok Id_ok"

abbreviation Id_vector_sendable :: "Id_vector \<Rightarrow> bool" where
  "Id_vector_sendable \<equiv> vec_sendable (\<lambda>_. True)"

lemma Id_vector_writes [oa_writes_intros]:
  "good_host E \<Longrightarrow> Id_vector_sendable v \<Longrightarrow> oa_writes (serialize_Id_vector E v) (enc_Id_vector v)"
  unfolding serialize_Id_vector_def enc_Id_vector_def
  by (rule serialize_vector_writes [where P = "\<lambda>_. True"]) (auto intro: Id_writes)

lemma Id_vector_reads [jute_reads]:
  "good_host E \<Longrightarrow> Id_vector_ok v \<Longrightarrow> ia_reads (deserialize_Id_vector E) (enc_Id_vector v) v"
  unfolding deserialize_Id_vector_def enc_Id_vector_def
  by (rule deserialize_vector_reads [where P = Id_ok]) (auto intro: Id_reads)

lemma Id_vector_safe:
  "grants_vectors E 16 \<Longrightarrow> ia_safe (deserialize_Id_vector E)"
  unfolding deserialize_Id_vector_def by (rule deserialize_vector_safe) (auto intro: Id_safe)

interpretation Id_vector_codec: codec serialize_Id_vector deserialize_Id_vector enc_Id_vector Id_vector_ok
  by unfold_locales (auto intro: Id_vector_writes Id_vector_reads simp: vec_ok_def vec_sendable_def list_all_iff)

section \<open>QuorumPacket\<close>

record QuorumPacket =
  QuorumPacket_type :: i32
  QuorumPacket_zxid :: i64
  QuorumPacket_data :: cbuffer
  QuorumPacket_authinfo :: Id_vector

definition QuorumPacket_zero :: QuorumPacket where
  "QuorumPacket_zero = \<lparr>QuorumPacket_type = 0, QuorumPacket_zxid = 0, QuorumPacket_data = \<lparr>cb_len = 0, cb_buff = None\<rparr>, QuorumPacket_authinfo = \<lparr>vec_count = 0, vec_data = None\<rparr>\<rparr>"

definition serialize_QuorumPacket :: "host \<Rightarrow> QuorumPacket \<Rightarrow> oarchive \<Rightarrow> oa_result" where
  "serialize_QuorumPacket E v = oa_record
     [oa_serialize_int E (QuorumPacket_type v),
      oa_serialize_long E (QuorumPacket_zxid v),
      oa_serialize_buffer E (Some (QuorumPacket_data v)),
      serialize_Id_vector E (QuorumPacket_authinfo v)]"

definition deserialize_QuorumPacket :: "host \<Rightarrow> iarchive \<times> QuorumPacket \<Rightarrow> QuorumPacket ia_result" where
  "deserialize_QuorumPacket E = ia_record
     [ia_field QuorumPacket_type QuorumPacket_type_update (ia_deserialize_int E),
      ia_field QuorumPacket_zxid QuorumPacket_zxid_update (ia_deserialize_long E),
      ia_field QuorumPacket_data QuorumPacket_data_update (ia_deserialize_buffer E),
      ia_field QuorumPacket_authinfo QuorumPacket_authinfo_update (deserialize_Id_vector E)]"

definition deallocate_QuorumPacket :: "QuorumPacket \<Rightarrow> QuorumPacket option" where
  "deallocate_QuorumPacket v = do { authinfo' \<leftarrow> deallocate_Id_vector (QuorumPacket_authinfo v); Some (v\<lparr>QuorumPacket_data := deallocate_Buffer (QuorumPacket_data v), QuorumPacket_authinfo := authinfo'\<rparr>) }"

definition enc_QuorumPacket :: "QuorumPacket \<Rightarrow> bytes" where
  "enc_QuorumPacket v = concat
     [be32 (QuorumPacket_type v), be64 (QuorumPacket_zxid v), enc_buffer (QuorumPacket_data v), enc_Id_vector (QuorumPacket_authinfo v)]"

definition QuorumPacket_ok :: "QuorumPacket \<Rightarrow> bool" where
  "QuorumPacket_ok v \<longleftrightarrow> cbuffer_ok (QuorumPacket_data v) \<and> Id_vector_ok (QuorumPacket_authinfo v)"

lemma QuorumPacket_writes [oa_writes_intros]:
  "good_host E \<Longrightarrow> cbuffer_sendable (QuorumPacket_data v) \<Longrightarrow> Id_vector_sendable (QuorumPacket_authinfo v) \<Longrightarrow> oa_writes (serialize_QuorumPacket E v) (enc_QuorumPacket v)"
  unfolding serialize_QuorumPacket_def enc_QuorumPacket_def
  by (rule oa_record_writes) (simp add: oa_writes_intros)

lemma QuorumPacket_reads [jute_reads]:
  "good_host E \<Longrightarrow> QuorumPacket_ok v \<Longrightarrow> ia_reads (deserialize_QuorumPacket E) (enc_QuorumPacket v) v"
  unfolding deserialize_QuorumPacket_def enc_QuorumPacket_def QuorumPacket_ok_def
  by (rule ia_record_reads, (rule ia_updates_Cons ia_updates_Nil | (rule jute_reads; simp))+, rule QuorumPacket.equality, simp_all)

lemma QuorumPacket_safe: "sane_host E \<Longrightarrow> grants_vectors E 16 \<Longrightarrow> ia_safe (deserialize_QuorumPacket E)"
  unfolding deserialize_QuorumPacket_def
  by (rule ia_record_safe) (simp add: ia_field_safe ia_safe_prims Id_vector_safe)

interpretation QuorumPacket_codec: codec serialize_QuorumPacket deserialize_QuorumPacket enc_QuorumPacket QuorumPacket_ok
  by unfold_locales (auto intro: QuorumPacket_writes QuorumPacket_reads simp: QuorumPacket_ok_def cbuffer_ok_sendable vec_ok_sendable)

section \<open>QuorumAuthPacket\<close>

record QuorumAuthPacket =
  QuorumAuthPacket_magic :: i64
  QuorumAuthPacket_status :: i32
  QuorumAuthPacket_token :: cbuffer

definition QuorumAuthPacket_zero :: QuorumAuthPacket where
  "QuorumAuthPacket_zero = \<lparr>QuorumAuthPacket_magic = 0, QuorumAuthPacket_status = 0, QuorumAuthPacket_token = \<lparr>cb_len = 0, cb_buff = None\<rparr>\<rparr>"

definition serialize_QuorumAuthPacket :: "host \<Rightarrow> QuorumAuthPacket \<Rightarrow> oarchive \<Rightarrow> oa_result" where
  "serialize_QuorumAuthPacket E v = oa_record
     [oa_serialize_long E (QuorumAuthPacket_magic v),
      oa_serialize_int E (QuorumAuthPacket_status v),
      oa_serialize_buffer E (Some (QuorumAuthPacket_token v))]"

definition deserialize_QuorumAuthPacket :: "host \<Rightarrow> iarchive \<times> QuorumAuthPacket \<Rightarrow> QuorumAuthPacket ia_result" where
  "deserialize_QuorumAuthPacket E = ia_record
     [ia_field QuorumAuthPacket_magic QuorumAuthPacket_magic_update (ia_deserialize_long E),
      ia_field QuorumAuthPacket_status QuorumAuthPacket_status_update (ia_deserialize_int E),
      ia_field QuorumAuthPacket_token QuorumAuthPacket_token_update (ia_deserialize_buffer E)]"

definition deallocate_QuorumAuthPacket :: "QuorumAuthPacket \<Rightarrow> QuorumAuthPacket option" where
  "deallocate_QuorumAuthPacket v = Some (v\<lparr>QuorumAuthPacket_token := deallocate_Buffer (QuorumAuthPacket_token v)\<rparr>)"

definition enc_QuorumAuthPacket :: "QuorumAuthPacket \<Rightarrow> bytes" where
  "enc_QuorumAuthPacket v = concat
     [be64 (QuorumAuthPacket_magic v), be32 (QuorumAuthPacket_status v), enc_buffer (QuorumAuthPacket_token v)]"

definition QuorumAuthPacket_ok :: "QuorumAuthPacket \<Rightarrow> bool" where
  "QuorumAuthPacket_ok v \<longleftrightarrow> cbuffer_ok (QuorumAuthPacket_token v)"

lemma QuorumAuthPacket_writes [oa_writes_intros]:
  "good_host E \<Longrightarrow> cbuffer_sendable (QuorumAuthPacket_token v) \<Longrightarrow> oa_writes (serialize_QuorumAuthPacket E v) (enc_QuorumAuthPacket v)"
  unfolding serialize_QuorumAuthPacket_def enc_QuorumAuthPacket_def
  by (rule oa_record_writes) (simp add: oa_writes_intros)

lemma QuorumAuthPacket_reads [jute_reads]:
  "good_host E \<Longrightarrow> QuorumAuthPacket_ok v \<Longrightarrow> ia_reads (deserialize_QuorumAuthPacket E) (enc_QuorumAuthPacket v) v"
  unfolding deserialize_QuorumAuthPacket_def enc_QuorumAuthPacket_def QuorumAuthPacket_ok_def
  by (rule ia_record_reads, (rule ia_updates_Cons ia_updates_Nil | (rule jute_reads; simp))+, rule QuorumAuthPacket.equality, simp_all)

lemma QuorumAuthPacket_safe: "sane_host E \<Longrightarrow> ia_safe (deserialize_QuorumAuthPacket E)"
  unfolding deserialize_QuorumAuthPacket_def
  by (rule ia_record_safe) (simp add: ia_field_safe ia_safe_prims )

interpretation QuorumAuthPacket_codec: codec serialize_QuorumAuthPacket deserialize_QuorumAuthPacket enc_QuorumAuthPacket QuorumAuthPacket_ok
  by unfold_locales (auto intro: QuorumAuthPacket_writes QuorumAuthPacket_reads simp: QuorumAuthPacket_ok_def cbuffer_ok_sendable vec_ok_sendable)

section \<open>FileHeader\<close>

record FileHeader =
  FileHeader_magic :: i32
  FileHeader_version :: i32
  FileHeader_dbid :: i64

definition FileHeader_zero :: FileHeader where
  "FileHeader_zero = \<lparr>FileHeader_magic = 0, FileHeader_version = 0, FileHeader_dbid = 0\<rparr>"

definition serialize_FileHeader :: "host \<Rightarrow> FileHeader \<Rightarrow> oarchive \<Rightarrow> oa_result" where
  "serialize_FileHeader E v = oa_record
     [oa_serialize_int E (FileHeader_magic v),
      oa_serialize_int E (FileHeader_version v),
      oa_serialize_long E (FileHeader_dbid v)]"

definition deserialize_FileHeader :: "host \<Rightarrow> iarchive \<times> FileHeader \<Rightarrow> FileHeader ia_result" where
  "deserialize_FileHeader E = ia_record
     [ia_field FileHeader_magic FileHeader_magic_update (ia_deserialize_int E),
      ia_field FileHeader_version FileHeader_version_update (ia_deserialize_int E),
      ia_field FileHeader_dbid FileHeader_dbid_update (ia_deserialize_long E)]"

definition deallocate_FileHeader :: "FileHeader \<Rightarrow> FileHeader option" where
  "deallocate_FileHeader v = Some (v)"

definition enc_FileHeader :: "FileHeader \<Rightarrow> bytes" where
  "enc_FileHeader v = concat
     [be32 (FileHeader_magic v), be32 (FileHeader_version v), be64 (FileHeader_dbid v)]"

definition FileHeader_ok :: "FileHeader \<Rightarrow> bool" where
  "FileHeader_ok v \<longleftrightarrow> True"

lemma FileHeader_writes [oa_writes_intros]:
  "good_host E \<Longrightarrow> oa_writes (serialize_FileHeader E v) (enc_FileHeader v)"
  unfolding serialize_FileHeader_def enc_FileHeader_def
  by (rule oa_record_writes) (simp add: oa_writes_intros)

lemma FileHeader_reads [jute_reads]:
  "good_host E \<Longrightarrow> ia_reads (deserialize_FileHeader E) (enc_FileHeader v) v"
  unfolding deserialize_FileHeader_def enc_FileHeader_def FileHeader_ok_def
  by (rule ia_record_reads, (rule ia_updates_Cons ia_updates_Nil | (rule jute_reads; simp))+, rule FileHeader.equality, simp_all)

lemma FileHeader_safe: "ia_safe (deserialize_FileHeader E)"
  unfolding deserialize_FileHeader_def
  by (rule ia_record_safe) (simp add: ia_field_safe ia_safe_prims )

interpretation FileHeader_codec: codec serialize_FileHeader deserialize_FileHeader enc_FileHeader FileHeader_ok
  by unfold_locales (auto intro: FileHeader_writes FileHeader_reads)

section \<open>TxnHeader\<close>

record TxnHeader =
  TxnHeader_clientId :: i64
  TxnHeader_cxid :: i32
  TxnHeader_zxid :: i64
  TxnHeader_time :: i64
  TxnHeader_type :: i32

definition TxnHeader_zero :: TxnHeader where
  "TxnHeader_zero = \<lparr>TxnHeader_clientId = 0, TxnHeader_cxid = 0, TxnHeader_zxid = 0, TxnHeader_time = 0, TxnHeader_type = 0\<rparr>"

definition serialize_TxnHeader :: "host \<Rightarrow> TxnHeader \<Rightarrow> oarchive \<Rightarrow> oa_result" where
  "serialize_TxnHeader E v = oa_record
     [oa_serialize_long E (TxnHeader_clientId v),
      oa_serialize_int E (TxnHeader_cxid v),
      oa_serialize_long E (TxnHeader_zxid v),
      oa_serialize_long E (TxnHeader_time v),
      oa_serialize_int E (TxnHeader_type v)]"

definition deserialize_TxnHeader :: "host \<Rightarrow> iarchive \<times> TxnHeader \<Rightarrow> TxnHeader ia_result" where
  "deserialize_TxnHeader E = ia_record
     [ia_field TxnHeader_clientId TxnHeader_clientId_update (ia_deserialize_long E),
      ia_field TxnHeader_cxid TxnHeader_cxid_update (ia_deserialize_int E),
      ia_field TxnHeader_zxid TxnHeader_zxid_update (ia_deserialize_long E),
      ia_field TxnHeader_time TxnHeader_time_update (ia_deserialize_long E),
      ia_field TxnHeader_type TxnHeader_type_update (ia_deserialize_int E)]"

definition deallocate_TxnHeader :: "TxnHeader \<Rightarrow> TxnHeader option" where
  "deallocate_TxnHeader v = Some (v)"

definition enc_TxnHeader :: "TxnHeader \<Rightarrow> bytes" where
  "enc_TxnHeader v = concat
     [be64 (TxnHeader_clientId v), be32 (TxnHeader_cxid v), be64 (TxnHeader_zxid v), be64 (TxnHeader_time v), be32 (TxnHeader_type v)]"

definition TxnHeader_ok :: "TxnHeader \<Rightarrow> bool" where
  "TxnHeader_ok v \<longleftrightarrow> True"

lemma TxnHeader_writes [oa_writes_intros]:
  "good_host E \<Longrightarrow> oa_writes (serialize_TxnHeader E v) (enc_TxnHeader v)"
  unfolding serialize_TxnHeader_def enc_TxnHeader_def
  by (rule oa_record_writes) (simp add: oa_writes_intros)

lemma TxnHeader_reads [jute_reads]:
  "good_host E \<Longrightarrow> ia_reads (deserialize_TxnHeader E) (enc_TxnHeader v) v"
  unfolding deserialize_TxnHeader_def enc_TxnHeader_def TxnHeader_ok_def
  by (rule ia_record_reads, (rule ia_updates_Cons ia_updates_Nil | (rule jute_reads; simp))+, rule TxnHeader.equality, simp_all)

lemma TxnHeader_safe: "ia_safe (deserialize_TxnHeader E)"
  unfolding deserialize_TxnHeader_def
  by (rule ia_record_safe) (simp add: ia_field_safe ia_safe_prims )

interpretation TxnHeader_codec: codec serialize_TxnHeader deserialize_TxnHeader enc_TxnHeader TxnHeader_ok
  by unfold_locales (auto intro: TxnHeader_writes TxnHeader_reads)

section \<open>CreateTxnV0\<close>

record CreateTxnV0 =
  CreateTxnV0_path :: cstr
  CreateTxnV0_data :: cbuffer
  CreateTxnV0_acl :: ACL_vector
  CreateTxnV0_ephemeral :: i32

definition CreateTxnV0_zero :: CreateTxnV0 where
  "CreateTxnV0_zero = \<lparr>CreateTxnV0_path = None, CreateTxnV0_data = \<lparr>cb_len = 0, cb_buff = None\<rparr>, CreateTxnV0_acl = \<lparr>vec_count = 0, vec_data = None\<rparr>, CreateTxnV0_ephemeral = 0\<rparr>"

definition serialize_CreateTxnV0 :: "host \<Rightarrow> CreateTxnV0 \<Rightarrow> oarchive \<Rightarrow> oa_result" where
  "serialize_CreateTxnV0 E v = oa_record
     [oa_serialize_string E (CreateTxnV0_path v),
      oa_serialize_buffer E (Some (CreateTxnV0_data v)),
      serialize_ACL_vector E (CreateTxnV0_acl v),
      oa_serialize_bool E (CreateTxnV0_ephemeral v)]"

definition deserialize_CreateTxnV0 :: "host \<Rightarrow> iarchive \<times> CreateTxnV0 \<Rightarrow> CreateTxnV0 ia_result" where
  "deserialize_CreateTxnV0 E = ia_record
     [ia_field CreateTxnV0_path CreateTxnV0_path_update (ia_deserialize_string E),
      ia_field CreateTxnV0_data CreateTxnV0_data_update (ia_deserialize_buffer E),
      ia_field CreateTxnV0_acl CreateTxnV0_acl_update (deserialize_ACL_vector E),
      ia_field CreateTxnV0_ephemeral CreateTxnV0_ephemeral_update ia_deserialize_bool]"

definition deallocate_CreateTxnV0 :: "CreateTxnV0 \<Rightarrow> CreateTxnV0 option" where
  "deallocate_CreateTxnV0 v = do { acl' \<leftarrow> deallocate_ACL_vector (CreateTxnV0_acl v); Some (v\<lparr>CreateTxnV0_path := deallocate_String (CreateTxnV0_path v), CreateTxnV0_data := deallocate_Buffer (CreateTxnV0_data v), CreateTxnV0_acl := acl'\<rparr>) }"

definition enc_CreateTxnV0 :: "CreateTxnV0 \<Rightarrow> bytes" where
  "enc_CreateTxnV0 v = concat
     [enc_string (CreateTxnV0_path v), enc_buffer (CreateTxnV0_data v), enc_ACL_vector (CreateTxnV0_acl v), enc_bool (CreateTxnV0_ephemeral v)]"

definition CreateTxnV0_ok :: "CreateTxnV0 \<Rightarrow> bool" where
  "CreateTxnV0_ok v \<longleftrightarrow> cstr_sendable (CreateTxnV0_path v) \<and> cbuffer_ok (CreateTxnV0_data v) \<and> ACL_vector_ok (CreateTxnV0_acl v) \<and> (CreateTxnV0_ephemeral v = 0 \<or> CreateTxnV0_ephemeral v = 1)"

lemma CreateTxnV0_writes [oa_writes_intros]:
  "good_host E \<Longrightarrow> cbuffer_sendable (CreateTxnV0_data v) \<Longrightarrow> ACL_vector_sendable (CreateTxnV0_acl v) \<Longrightarrow> oa_writes (serialize_CreateTxnV0 E v) (enc_CreateTxnV0 v)"
  unfolding serialize_CreateTxnV0_def enc_CreateTxnV0_def
  by (rule oa_record_writes) (simp add: oa_writes_intros)

lemma CreateTxnV0_reads [jute_reads]:
  "good_host E \<Longrightarrow> CreateTxnV0_ok v \<Longrightarrow> ia_reads (deserialize_CreateTxnV0 E) (enc_CreateTxnV0 v) v"
  unfolding deserialize_CreateTxnV0_def enc_CreateTxnV0_def CreateTxnV0_ok_def
  by (rule ia_record_reads, (rule ia_updates_Cons ia_updates_Nil | (rule jute_reads; simp))+, rule CreateTxnV0.equality, simp_all)

lemma CreateTxnV0_safe: "sane_host E \<Longrightarrow> grants_vectors E 24 \<Longrightarrow> ia_safe (deserialize_CreateTxnV0 E)"
  unfolding deserialize_CreateTxnV0_def
  by (rule ia_record_safe) (simp add: ia_field_safe ia_safe_prims ACL_vector_safe)

interpretation CreateTxnV0_codec: codec serialize_CreateTxnV0 deserialize_CreateTxnV0 enc_CreateTxnV0 CreateTxnV0_ok
  by unfold_locales (auto intro: CreateTxnV0_writes CreateTxnV0_reads simp: CreateTxnV0_ok_def cbuffer_ok_sendable vec_ok_sendable)

section \<open>CreateTxn\<close>

record CreateTxn =
  CreateTxn_path :: cstr
  CreateTxn_data :: cbuffer
  CreateTxn_acl :: ACL_vector
  CreateTxn_ephemeral :: i32
  CreateTxn_parentCVersion :: i32

definition CreateTxn_zero :: CreateTxn where
  "CreateTxn_zero = \<lparr>CreateTxn_path = None, CreateTxn_data = \<lparr>cb_len = 0, cb_buff = None\<rparr>, CreateTxn_acl = \<lparr>vec_count = 0, vec_data = None\<rparr>, CreateTxn_ephemeral = 0, CreateTxn_parentCVersion = 0\<rparr>"

definition serialize_CreateTxn :: "host \<Rightarrow> CreateTxn \<Rightarrow> oarchive \<Rightarrow> oa_result" where
  "serialize_CreateTxn E v = oa_record
     [oa_serialize_string E (CreateTxn_path v),
      oa_serialize_buffer E (Some (CreateTxn_data v)),
      serialize_ACL_vector E (CreateTxn_acl v),
      oa_serialize_bool E (CreateTxn_ephemeral v),
      oa_serialize_int E (CreateTxn_parentCVersion v)]"

definition deserialize_CreateTxn :: "host \<Rightarrow> iarchive \<times> CreateTxn \<Rightarrow> CreateTxn ia_result" where
  "deserialize_CreateTxn E = ia_record
     [ia_field CreateTxn_path CreateTxn_path_update (ia_deserialize_string E),
      ia_field CreateTxn_data CreateTxn_data_update (ia_deserialize_buffer E),
      ia_field CreateTxn_acl CreateTxn_acl_update (deserialize_ACL_vector E),
      ia_field CreateTxn_ephemeral CreateTxn_ephemeral_update ia_deserialize_bool,
      ia_field CreateTxn_parentCVersion CreateTxn_parentCVersion_update (ia_deserialize_int E)]"

definition deallocate_CreateTxn :: "CreateTxn \<Rightarrow> CreateTxn option" where
  "deallocate_CreateTxn v = do { acl' \<leftarrow> deallocate_ACL_vector (CreateTxn_acl v); Some (v\<lparr>CreateTxn_path := deallocate_String (CreateTxn_path v), CreateTxn_data := deallocate_Buffer (CreateTxn_data v), CreateTxn_acl := acl'\<rparr>) }"

definition enc_CreateTxn :: "CreateTxn \<Rightarrow> bytes" where
  "enc_CreateTxn v = concat
     [enc_string (CreateTxn_path v), enc_buffer (CreateTxn_data v), enc_ACL_vector (CreateTxn_acl v), enc_bool (CreateTxn_ephemeral v), be32 (CreateTxn_parentCVersion v)]"

definition CreateTxn_ok :: "CreateTxn \<Rightarrow> bool" where
  "CreateTxn_ok v \<longleftrightarrow> cstr_sendable (CreateTxn_path v) \<and> cbuffer_ok (CreateTxn_data v) \<and> ACL_vector_ok (CreateTxn_acl v) \<and> (CreateTxn_ephemeral v = 0 \<or> CreateTxn_ephemeral v = 1)"

lemma CreateTxn_writes [oa_writes_intros]:
  "good_host E \<Longrightarrow> cbuffer_sendable (CreateTxn_data v) \<Longrightarrow> ACL_vector_sendable (CreateTxn_acl v) \<Longrightarrow> oa_writes (serialize_CreateTxn E v) (enc_CreateTxn v)"
  unfolding serialize_CreateTxn_def enc_CreateTxn_def
  by (rule oa_record_writes) (simp add: oa_writes_intros)

lemma CreateTxn_reads [jute_reads]:
  "good_host E \<Longrightarrow> CreateTxn_ok v \<Longrightarrow> ia_reads (deserialize_CreateTxn E) (enc_CreateTxn v) v"
  unfolding deserialize_CreateTxn_def enc_CreateTxn_def CreateTxn_ok_def
  by (rule ia_record_reads, (rule ia_updates_Cons ia_updates_Nil | (rule jute_reads; simp))+, rule CreateTxn.equality, simp_all)

lemma CreateTxn_safe: "sane_host E \<Longrightarrow> grants_vectors E 24 \<Longrightarrow> ia_safe (deserialize_CreateTxn E)"
  unfolding deserialize_CreateTxn_def
  by (rule ia_record_safe) (simp add: ia_field_safe ia_safe_prims ACL_vector_safe)

interpretation CreateTxn_codec: codec serialize_CreateTxn deserialize_CreateTxn enc_CreateTxn CreateTxn_ok
  by unfold_locales (auto intro: CreateTxn_writes CreateTxn_reads simp: CreateTxn_ok_def cbuffer_ok_sendable vec_ok_sendable)

section \<open>CreateTTLTxn\<close>

record CreateTTLTxn =
  CreateTTLTxn_path :: cstr
  CreateTTLTxn_data :: cbuffer
  CreateTTLTxn_acl :: ACL_vector
  CreateTTLTxn_parentCVersion :: i32
  CreateTTLTxn_ttl :: i64

definition CreateTTLTxn_zero :: CreateTTLTxn where
  "CreateTTLTxn_zero = \<lparr>CreateTTLTxn_path = None, CreateTTLTxn_data = \<lparr>cb_len = 0, cb_buff = None\<rparr>, CreateTTLTxn_acl = \<lparr>vec_count = 0, vec_data = None\<rparr>, CreateTTLTxn_parentCVersion = 0, CreateTTLTxn_ttl = 0\<rparr>"

definition serialize_CreateTTLTxn :: "host \<Rightarrow> CreateTTLTxn \<Rightarrow> oarchive \<Rightarrow> oa_result" where
  "serialize_CreateTTLTxn E v = oa_record
     [oa_serialize_string E (CreateTTLTxn_path v),
      oa_serialize_buffer E (Some (CreateTTLTxn_data v)),
      serialize_ACL_vector E (CreateTTLTxn_acl v),
      oa_serialize_int E (CreateTTLTxn_parentCVersion v),
      oa_serialize_long E (CreateTTLTxn_ttl v)]"

definition deserialize_CreateTTLTxn :: "host \<Rightarrow> iarchive \<times> CreateTTLTxn \<Rightarrow> CreateTTLTxn ia_result" where
  "deserialize_CreateTTLTxn E = ia_record
     [ia_field CreateTTLTxn_path CreateTTLTxn_path_update (ia_deserialize_string E),
      ia_field CreateTTLTxn_data CreateTTLTxn_data_update (ia_deserialize_buffer E),
      ia_field CreateTTLTxn_acl CreateTTLTxn_acl_update (deserialize_ACL_vector E),
      ia_field CreateTTLTxn_parentCVersion CreateTTLTxn_parentCVersion_update (ia_deserialize_int E),
      ia_field CreateTTLTxn_ttl CreateTTLTxn_ttl_update (ia_deserialize_long E)]"

definition deallocate_CreateTTLTxn :: "CreateTTLTxn \<Rightarrow> CreateTTLTxn option" where
  "deallocate_CreateTTLTxn v = do { acl' \<leftarrow> deallocate_ACL_vector (CreateTTLTxn_acl v); Some (v\<lparr>CreateTTLTxn_path := deallocate_String (CreateTTLTxn_path v), CreateTTLTxn_data := deallocate_Buffer (CreateTTLTxn_data v), CreateTTLTxn_acl := acl'\<rparr>) }"

definition enc_CreateTTLTxn :: "CreateTTLTxn \<Rightarrow> bytes" where
  "enc_CreateTTLTxn v = concat
     [enc_string (CreateTTLTxn_path v), enc_buffer (CreateTTLTxn_data v), enc_ACL_vector (CreateTTLTxn_acl v), be32 (CreateTTLTxn_parentCVersion v), be64 (CreateTTLTxn_ttl v)]"

definition CreateTTLTxn_ok :: "CreateTTLTxn \<Rightarrow> bool" where
  "CreateTTLTxn_ok v \<longleftrightarrow> cstr_sendable (CreateTTLTxn_path v) \<and> cbuffer_ok (CreateTTLTxn_data v) \<and> ACL_vector_ok (CreateTTLTxn_acl v)"

lemma CreateTTLTxn_writes [oa_writes_intros]:
  "good_host E \<Longrightarrow> cbuffer_sendable (CreateTTLTxn_data v) \<Longrightarrow> ACL_vector_sendable (CreateTTLTxn_acl v) \<Longrightarrow> oa_writes (serialize_CreateTTLTxn E v) (enc_CreateTTLTxn v)"
  unfolding serialize_CreateTTLTxn_def enc_CreateTTLTxn_def
  by (rule oa_record_writes) (simp add: oa_writes_intros)

lemma CreateTTLTxn_reads [jute_reads]:
  "good_host E \<Longrightarrow> CreateTTLTxn_ok v \<Longrightarrow> ia_reads (deserialize_CreateTTLTxn E) (enc_CreateTTLTxn v) v"
  unfolding deserialize_CreateTTLTxn_def enc_CreateTTLTxn_def CreateTTLTxn_ok_def
  by (rule ia_record_reads, (rule ia_updates_Cons ia_updates_Nil | (rule jute_reads; simp))+, rule CreateTTLTxn.equality, simp_all)

lemma CreateTTLTxn_safe: "sane_host E \<Longrightarrow> grants_vectors E 24 \<Longrightarrow> ia_safe (deserialize_CreateTTLTxn E)"
  unfolding deserialize_CreateTTLTxn_def
  by (rule ia_record_safe) (simp add: ia_field_safe ia_safe_prims ACL_vector_safe)

interpretation CreateTTLTxn_codec: codec serialize_CreateTTLTxn deserialize_CreateTTLTxn enc_CreateTTLTxn CreateTTLTxn_ok
  by unfold_locales (auto intro: CreateTTLTxn_writes CreateTTLTxn_reads simp: CreateTTLTxn_ok_def cbuffer_ok_sendable vec_ok_sendable)

section \<open>CreateContainerTxn\<close>

record CreateContainerTxn =
  CreateContainerTxn_path :: cstr
  CreateContainerTxn_data :: cbuffer
  CreateContainerTxn_acl :: ACL_vector
  CreateContainerTxn_parentCVersion :: i32

definition CreateContainerTxn_zero :: CreateContainerTxn where
  "CreateContainerTxn_zero = \<lparr>CreateContainerTxn_path = None, CreateContainerTxn_data = \<lparr>cb_len = 0, cb_buff = None\<rparr>, CreateContainerTxn_acl = \<lparr>vec_count = 0, vec_data = None\<rparr>, CreateContainerTxn_parentCVersion = 0\<rparr>"

definition serialize_CreateContainerTxn :: "host \<Rightarrow> CreateContainerTxn \<Rightarrow> oarchive \<Rightarrow> oa_result" where
  "serialize_CreateContainerTxn E v = oa_record
     [oa_serialize_string E (CreateContainerTxn_path v),
      oa_serialize_buffer E (Some (CreateContainerTxn_data v)),
      serialize_ACL_vector E (CreateContainerTxn_acl v),
      oa_serialize_int E (CreateContainerTxn_parentCVersion v)]"

definition deserialize_CreateContainerTxn :: "host \<Rightarrow> iarchive \<times> CreateContainerTxn \<Rightarrow> CreateContainerTxn ia_result" where
  "deserialize_CreateContainerTxn E = ia_record
     [ia_field CreateContainerTxn_path CreateContainerTxn_path_update (ia_deserialize_string E),
      ia_field CreateContainerTxn_data CreateContainerTxn_data_update (ia_deserialize_buffer E),
      ia_field CreateContainerTxn_acl CreateContainerTxn_acl_update (deserialize_ACL_vector E),
      ia_field CreateContainerTxn_parentCVersion CreateContainerTxn_parentCVersion_update (ia_deserialize_int E)]"

definition deallocate_CreateContainerTxn :: "CreateContainerTxn \<Rightarrow> CreateContainerTxn option" where
  "deallocate_CreateContainerTxn v = do { acl' \<leftarrow> deallocate_ACL_vector (CreateContainerTxn_acl v); Some (v\<lparr>CreateContainerTxn_path := deallocate_String (CreateContainerTxn_path v), CreateContainerTxn_data := deallocate_Buffer (CreateContainerTxn_data v), CreateContainerTxn_acl := acl'\<rparr>) }"

definition enc_CreateContainerTxn :: "CreateContainerTxn \<Rightarrow> bytes" where
  "enc_CreateContainerTxn v = concat
     [enc_string (CreateContainerTxn_path v), enc_buffer (CreateContainerTxn_data v), enc_ACL_vector (CreateContainerTxn_acl v), be32 (CreateContainerTxn_parentCVersion v)]"

definition CreateContainerTxn_ok :: "CreateContainerTxn \<Rightarrow> bool" where
  "CreateContainerTxn_ok v \<longleftrightarrow> cstr_sendable (CreateContainerTxn_path v) \<and> cbuffer_ok (CreateContainerTxn_data v) \<and> ACL_vector_ok (CreateContainerTxn_acl v)"

lemma CreateContainerTxn_writes [oa_writes_intros]:
  "good_host E \<Longrightarrow> cbuffer_sendable (CreateContainerTxn_data v) \<Longrightarrow> ACL_vector_sendable (CreateContainerTxn_acl v) \<Longrightarrow> oa_writes (serialize_CreateContainerTxn E v) (enc_CreateContainerTxn v)"
  unfolding serialize_CreateContainerTxn_def enc_CreateContainerTxn_def
  by (rule oa_record_writes) (simp add: oa_writes_intros)

lemma CreateContainerTxn_reads [jute_reads]:
  "good_host E \<Longrightarrow> CreateContainerTxn_ok v \<Longrightarrow> ia_reads (deserialize_CreateContainerTxn E) (enc_CreateContainerTxn v) v"
  unfolding deserialize_CreateContainerTxn_def enc_CreateContainerTxn_def CreateContainerTxn_ok_def
  by (rule ia_record_reads, (rule ia_updates_Cons ia_updates_Nil | (rule jute_reads; simp))+, rule CreateContainerTxn.equality, simp_all)

lemma CreateContainerTxn_safe: "sane_host E \<Longrightarrow> grants_vectors E 24 \<Longrightarrow> ia_safe (deserialize_CreateContainerTxn E)"
  unfolding deserialize_CreateContainerTxn_def
  by (rule ia_record_safe) (simp add: ia_field_safe ia_safe_prims ACL_vector_safe)

interpretation CreateContainerTxn_codec: codec serialize_CreateContainerTxn deserialize_CreateContainerTxn enc_CreateContainerTxn CreateContainerTxn_ok
  by unfold_locales (auto intro: CreateContainerTxn_writes CreateContainerTxn_reads simp: CreateContainerTxn_ok_def cbuffer_ok_sendable vec_ok_sendable)

section \<open>DeleteTxn\<close>

record DeleteTxn =
  DeleteTxn_path :: cstr

definition DeleteTxn_zero :: DeleteTxn where
  "DeleteTxn_zero = \<lparr>DeleteTxn_path = None\<rparr>"

definition serialize_DeleteTxn :: "host \<Rightarrow> DeleteTxn \<Rightarrow> oarchive \<Rightarrow> oa_result" where
  "serialize_DeleteTxn E v = oa_record
     [oa_serialize_string E (DeleteTxn_path v)]"

definition deserialize_DeleteTxn :: "host \<Rightarrow> iarchive \<times> DeleteTxn \<Rightarrow> DeleteTxn ia_result" where
  "deserialize_DeleteTxn E = ia_record
     [ia_field DeleteTxn_path DeleteTxn_path_update (ia_deserialize_string E)]"

definition deallocate_DeleteTxn :: "DeleteTxn \<Rightarrow> DeleteTxn option" where
  "deallocate_DeleteTxn v = Some (v\<lparr>DeleteTxn_path := deallocate_String (DeleteTxn_path v)\<rparr>)"

definition enc_DeleteTxn :: "DeleteTxn \<Rightarrow> bytes" where
  "enc_DeleteTxn v = concat
     [enc_string (DeleteTxn_path v)]"

definition DeleteTxn_ok :: "DeleteTxn \<Rightarrow> bool" where
  "DeleteTxn_ok v \<longleftrightarrow> cstr_sendable (DeleteTxn_path v)"

lemma DeleteTxn_writes [oa_writes_intros]:
  "good_host E \<Longrightarrow> oa_writes (serialize_DeleteTxn E v) (enc_DeleteTxn v)"
  unfolding serialize_DeleteTxn_def enc_DeleteTxn_def
  by (rule oa_record_writes) (simp add: oa_writes_intros)

lemma DeleteTxn_reads [jute_reads]:
  "good_host E \<Longrightarrow> DeleteTxn_ok v \<Longrightarrow> ia_reads (deserialize_DeleteTxn E) (enc_DeleteTxn v) v"
  unfolding deserialize_DeleteTxn_def enc_DeleteTxn_def DeleteTxn_ok_def
  by (rule ia_record_reads, (rule ia_updates_Cons ia_updates_Nil | (rule jute_reads; simp))+, rule DeleteTxn.equality, simp_all)

lemma DeleteTxn_safe: "ia_safe (deserialize_DeleteTxn E)"
  unfolding deserialize_DeleteTxn_def
  by (rule ia_record_safe) (simp add: ia_field_safe ia_safe_prims )

interpretation DeleteTxn_codec: codec serialize_DeleteTxn deserialize_DeleteTxn enc_DeleteTxn DeleteTxn_ok
  by unfold_locales (auto intro: DeleteTxn_writes DeleteTxn_reads)

section \<open>SetDataTxn\<close>

record SetDataTxn =
  SetDataTxn_path :: cstr
  SetDataTxn_data :: cbuffer
  SetDataTxn_version :: i32

definition SetDataTxn_zero :: SetDataTxn where
  "SetDataTxn_zero = \<lparr>SetDataTxn_path = None, SetDataTxn_data = \<lparr>cb_len = 0, cb_buff = None\<rparr>, SetDataTxn_version = 0\<rparr>"

definition serialize_SetDataTxn :: "host \<Rightarrow> SetDataTxn \<Rightarrow> oarchive \<Rightarrow> oa_result" where
  "serialize_SetDataTxn E v = oa_record
     [oa_serialize_string E (SetDataTxn_path v),
      oa_serialize_buffer E (Some (SetDataTxn_data v)),
      oa_serialize_int E (SetDataTxn_version v)]"

definition deserialize_SetDataTxn :: "host \<Rightarrow> iarchive \<times> SetDataTxn \<Rightarrow> SetDataTxn ia_result" where
  "deserialize_SetDataTxn E = ia_record
     [ia_field SetDataTxn_path SetDataTxn_path_update (ia_deserialize_string E),
      ia_field SetDataTxn_data SetDataTxn_data_update (ia_deserialize_buffer E),
      ia_field SetDataTxn_version SetDataTxn_version_update (ia_deserialize_int E)]"

definition deallocate_SetDataTxn :: "SetDataTxn \<Rightarrow> SetDataTxn option" where
  "deallocate_SetDataTxn v = Some (v\<lparr>SetDataTxn_path := deallocate_String (SetDataTxn_path v), SetDataTxn_data := deallocate_Buffer (SetDataTxn_data v)\<rparr>)"

definition enc_SetDataTxn :: "SetDataTxn \<Rightarrow> bytes" where
  "enc_SetDataTxn v = concat
     [enc_string (SetDataTxn_path v), enc_buffer (SetDataTxn_data v), be32 (SetDataTxn_version v)]"

definition SetDataTxn_ok :: "SetDataTxn \<Rightarrow> bool" where
  "SetDataTxn_ok v \<longleftrightarrow> cstr_sendable (SetDataTxn_path v) \<and> cbuffer_ok (SetDataTxn_data v)"

lemma SetDataTxn_writes [oa_writes_intros]:
  "good_host E \<Longrightarrow> cbuffer_sendable (SetDataTxn_data v) \<Longrightarrow> oa_writes (serialize_SetDataTxn E v) (enc_SetDataTxn v)"
  unfolding serialize_SetDataTxn_def enc_SetDataTxn_def
  by (rule oa_record_writes) (simp add: oa_writes_intros)

lemma SetDataTxn_reads [jute_reads]:
  "good_host E \<Longrightarrow> SetDataTxn_ok v \<Longrightarrow> ia_reads (deserialize_SetDataTxn E) (enc_SetDataTxn v) v"
  unfolding deserialize_SetDataTxn_def enc_SetDataTxn_def SetDataTxn_ok_def
  by (rule ia_record_reads, (rule ia_updates_Cons ia_updates_Nil | (rule jute_reads; simp))+, rule SetDataTxn.equality, simp_all)

lemma SetDataTxn_safe: "sane_host E \<Longrightarrow> ia_safe (deserialize_SetDataTxn E)"
  unfolding deserialize_SetDataTxn_def
  by (rule ia_record_safe) (simp add: ia_field_safe ia_safe_prims )

interpretation SetDataTxn_codec: codec serialize_SetDataTxn deserialize_SetDataTxn enc_SetDataTxn SetDataTxn_ok
  by unfold_locales (auto intro: SetDataTxn_writes SetDataTxn_reads simp: SetDataTxn_ok_def cbuffer_ok_sendable vec_ok_sendable)

section \<open>CheckVersionTxn\<close>

record CheckVersionTxn =
  CheckVersionTxn_path :: cstr
  CheckVersionTxn_version :: i32

definition CheckVersionTxn_zero :: CheckVersionTxn where
  "CheckVersionTxn_zero = \<lparr>CheckVersionTxn_path = None, CheckVersionTxn_version = 0\<rparr>"

definition serialize_CheckVersionTxn :: "host \<Rightarrow> CheckVersionTxn \<Rightarrow> oarchive \<Rightarrow> oa_result" where
  "serialize_CheckVersionTxn E v = oa_record
     [oa_serialize_string E (CheckVersionTxn_path v),
      oa_serialize_int E (CheckVersionTxn_version v)]"

definition deserialize_CheckVersionTxn :: "host \<Rightarrow> iarchive \<times> CheckVersionTxn \<Rightarrow> CheckVersionTxn ia_result" where
  "deserialize_CheckVersionTxn E = ia_record
     [ia_field CheckVersionTxn_path CheckVersionTxn_path_update (ia_deserialize_string E),
      ia_field CheckVersionTxn_version CheckVersionTxn_version_update (ia_deserialize_int E)]"

definition deallocate_CheckVersionTxn :: "CheckVersionTxn \<Rightarrow> CheckVersionTxn option" where
  "deallocate_CheckVersionTxn v = Some (v\<lparr>CheckVersionTxn_path := deallocate_String (CheckVersionTxn_path v)\<rparr>)"

definition enc_CheckVersionTxn :: "CheckVersionTxn \<Rightarrow> bytes" where
  "enc_CheckVersionTxn v = concat
     [enc_string (CheckVersionTxn_path v), be32 (CheckVersionTxn_version v)]"

definition CheckVersionTxn_ok :: "CheckVersionTxn \<Rightarrow> bool" where
  "CheckVersionTxn_ok v \<longleftrightarrow> cstr_sendable (CheckVersionTxn_path v)"

lemma CheckVersionTxn_writes [oa_writes_intros]:
  "good_host E \<Longrightarrow> oa_writes (serialize_CheckVersionTxn E v) (enc_CheckVersionTxn v)"
  unfolding serialize_CheckVersionTxn_def enc_CheckVersionTxn_def
  by (rule oa_record_writes) (simp add: oa_writes_intros)

lemma CheckVersionTxn_reads [jute_reads]:
  "good_host E \<Longrightarrow> CheckVersionTxn_ok v \<Longrightarrow> ia_reads (deserialize_CheckVersionTxn E) (enc_CheckVersionTxn v) v"
  unfolding deserialize_CheckVersionTxn_def enc_CheckVersionTxn_def CheckVersionTxn_ok_def
  by (rule ia_record_reads, (rule ia_updates_Cons ia_updates_Nil | (rule jute_reads; simp))+, rule CheckVersionTxn.equality, simp_all)

lemma CheckVersionTxn_safe: "ia_safe (deserialize_CheckVersionTxn E)"
  unfolding deserialize_CheckVersionTxn_def
  by (rule ia_record_safe) (simp add: ia_field_safe ia_safe_prims )

interpretation CheckVersionTxn_codec: codec serialize_CheckVersionTxn deserialize_CheckVersionTxn enc_CheckVersionTxn CheckVersionTxn_ok
  by unfold_locales (auto intro: CheckVersionTxn_writes CheckVersionTxn_reads)

section \<open>SetACLTxn\<close>

record SetACLTxn =
  SetACLTxn_path :: cstr
  SetACLTxn_acl :: ACL_vector
  SetACLTxn_version :: i32

definition SetACLTxn_zero :: SetACLTxn where
  "SetACLTxn_zero = \<lparr>SetACLTxn_path = None, SetACLTxn_acl = \<lparr>vec_count = 0, vec_data = None\<rparr>, SetACLTxn_version = 0\<rparr>"

definition serialize_SetACLTxn :: "host \<Rightarrow> SetACLTxn \<Rightarrow> oarchive \<Rightarrow> oa_result" where
  "serialize_SetACLTxn E v = oa_record
     [oa_serialize_string E (SetACLTxn_path v),
      serialize_ACL_vector E (SetACLTxn_acl v),
      oa_serialize_int E (SetACLTxn_version v)]"

definition deserialize_SetACLTxn :: "host \<Rightarrow> iarchive \<times> SetACLTxn \<Rightarrow> SetACLTxn ia_result" where
  "deserialize_SetACLTxn E = ia_record
     [ia_field SetACLTxn_path SetACLTxn_path_update (ia_deserialize_string E),
      ia_field SetACLTxn_acl SetACLTxn_acl_update (deserialize_ACL_vector E),
      ia_field SetACLTxn_version SetACLTxn_version_update (ia_deserialize_int E)]"

definition deallocate_SetACLTxn :: "SetACLTxn \<Rightarrow> SetACLTxn option" where
  "deallocate_SetACLTxn v = do { acl' \<leftarrow> deallocate_ACL_vector (SetACLTxn_acl v); Some (v\<lparr>SetACLTxn_path := deallocate_String (SetACLTxn_path v), SetACLTxn_acl := acl'\<rparr>) }"

definition enc_SetACLTxn :: "SetACLTxn \<Rightarrow> bytes" where
  "enc_SetACLTxn v = concat
     [enc_string (SetACLTxn_path v), enc_ACL_vector (SetACLTxn_acl v), be32 (SetACLTxn_version v)]"

definition SetACLTxn_ok :: "SetACLTxn \<Rightarrow> bool" where
  "SetACLTxn_ok v \<longleftrightarrow> cstr_sendable (SetACLTxn_path v) \<and> ACL_vector_ok (SetACLTxn_acl v)"

lemma SetACLTxn_writes [oa_writes_intros]:
  "good_host E \<Longrightarrow> ACL_vector_sendable (SetACLTxn_acl v) \<Longrightarrow> oa_writes (serialize_SetACLTxn E v) (enc_SetACLTxn v)"
  unfolding serialize_SetACLTxn_def enc_SetACLTxn_def
  by (rule oa_record_writes) (simp add: oa_writes_intros)

lemma SetACLTxn_reads [jute_reads]:
  "good_host E \<Longrightarrow> SetACLTxn_ok v \<Longrightarrow> ia_reads (deserialize_SetACLTxn E) (enc_SetACLTxn v) v"
  unfolding deserialize_SetACLTxn_def enc_SetACLTxn_def SetACLTxn_ok_def
  by (rule ia_record_reads, (rule ia_updates_Cons ia_updates_Nil | (rule jute_reads; simp))+, rule SetACLTxn.equality, simp_all)

lemma SetACLTxn_safe: "grants_vectors E 24 \<Longrightarrow> ia_safe (deserialize_SetACLTxn E)"
  unfolding deserialize_SetACLTxn_def
  by (rule ia_record_safe) (simp add: ia_field_safe ia_safe_prims ACL_vector_safe)

interpretation SetACLTxn_codec: codec serialize_SetACLTxn deserialize_SetACLTxn enc_SetACLTxn SetACLTxn_ok
  by unfold_locales (auto intro: SetACLTxn_writes SetACLTxn_reads simp: SetACLTxn_ok_def cbuffer_ok_sendable vec_ok_sendable)

section \<open>SetMaxChildrenTxn\<close>

record SetMaxChildrenTxn =
  SetMaxChildrenTxn_path :: cstr
  SetMaxChildrenTxn_max :: i32

definition SetMaxChildrenTxn_zero :: SetMaxChildrenTxn where
  "SetMaxChildrenTxn_zero = \<lparr>SetMaxChildrenTxn_path = None, SetMaxChildrenTxn_max = 0\<rparr>"

definition serialize_SetMaxChildrenTxn :: "host \<Rightarrow> SetMaxChildrenTxn \<Rightarrow> oarchive \<Rightarrow> oa_result" where
  "serialize_SetMaxChildrenTxn E v = oa_record
     [oa_serialize_string E (SetMaxChildrenTxn_path v),
      oa_serialize_int E (SetMaxChildrenTxn_max v)]"

definition deserialize_SetMaxChildrenTxn :: "host \<Rightarrow> iarchive \<times> SetMaxChildrenTxn \<Rightarrow> SetMaxChildrenTxn ia_result" where
  "deserialize_SetMaxChildrenTxn E = ia_record
     [ia_field SetMaxChildrenTxn_path SetMaxChildrenTxn_path_update (ia_deserialize_string E),
      ia_field SetMaxChildrenTxn_max SetMaxChildrenTxn_max_update (ia_deserialize_int E)]"

definition deallocate_SetMaxChildrenTxn :: "SetMaxChildrenTxn \<Rightarrow> SetMaxChildrenTxn option" where
  "deallocate_SetMaxChildrenTxn v = Some (v\<lparr>SetMaxChildrenTxn_path := deallocate_String (SetMaxChildrenTxn_path v)\<rparr>)"

definition enc_SetMaxChildrenTxn :: "SetMaxChildrenTxn \<Rightarrow> bytes" where
  "enc_SetMaxChildrenTxn v = concat
     [enc_string (SetMaxChildrenTxn_path v), be32 (SetMaxChildrenTxn_max v)]"

definition SetMaxChildrenTxn_ok :: "SetMaxChildrenTxn \<Rightarrow> bool" where
  "SetMaxChildrenTxn_ok v \<longleftrightarrow> cstr_sendable (SetMaxChildrenTxn_path v)"

lemma SetMaxChildrenTxn_writes [oa_writes_intros]:
  "good_host E \<Longrightarrow> oa_writes (serialize_SetMaxChildrenTxn E v) (enc_SetMaxChildrenTxn v)"
  unfolding serialize_SetMaxChildrenTxn_def enc_SetMaxChildrenTxn_def
  by (rule oa_record_writes) (simp add: oa_writes_intros)

lemma SetMaxChildrenTxn_reads [jute_reads]:
  "good_host E \<Longrightarrow> SetMaxChildrenTxn_ok v \<Longrightarrow> ia_reads (deserialize_SetMaxChildrenTxn E) (enc_SetMaxChildrenTxn v) v"
  unfolding deserialize_SetMaxChildrenTxn_def enc_SetMaxChildrenTxn_def SetMaxChildrenTxn_ok_def
  by (rule ia_record_reads, (rule ia_updates_Cons ia_updates_Nil | (rule jute_reads; simp))+, rule SetMaxChildrenTxn.equality, simp_all)

lemma SetMaxChildrenTxn_safe: "ia_safe (deserialize_SetMaxChildrenTxn E)"
  unfolding deserialize_SetMaxChildrenTxn_def
  by (rule ia_record_safe) (simp add: ia_field_safe ia_safe_prims )

interpretation SetMaxChildrenTxn_codec: codec serialize_SetMaxChildrenTxn deserialize_SetMaxChildrenTxn enc_SetMaxChildrenTxn SetMaxChildrenTxn_ok
  by unfold_locales (auto intro: SetMaxChildrenTxn_writes SetMaxChildrenTxn_reads)

section \<open>CreateSessionTxn\<close>

record CreateSessionTxn =
  CreateSessionTxn_timeOut :: i32

definition CreateSessionTxn_zero :: CreateSessionTxn where
  "CreateSessionTxn_zero = \<lparr>CreateSessionTxn_timeOut = 0\<rparr>"

definition serialize_CreateSessionTxn :: "host \<Rightarrow> CreateSessionTxn \<Rightarrow> oarchive \<Rightarrow> oa_result" where
  "serialize_CreateSessionTxn E v = oa_record
     [oa_serialize_int E (CreateSessionTxn_timeOut v)]"

definition deserialize_CreateSessionTxn :: "host \<Rightarrow> iarchive \<times> CreateSessionTxn \<Rightarrow> CreateSessionTxn ia_result" where
  "deserialize_CreateSessionTxn E = ia_record
     [ia_field CreateSessionTxn_timeOut CreateSessionTxn_timeOut_update (ia_deserialize_int E)]"

definition deallocate_CreateSessionTxn :: "CreateSessionTxn \<Rightarrow> CreateSessionTxn option" where
  "deallocate_CreateSessionTxn v = Some (v)"

definition enc_CreateSessionTxn :: "CreateSessionTxn \<Rightarrow> bytes" where
  "enc_CreateSessionTxn v = concat
     [be32 (CreateSessionTxn_timeOut v)]"

definition CreateSessionTxn_ok :: "CreateSessionTxn \<Rightarrow> bool" where
  "CreateSessionTxn_ok v \<longleftrightarrow> True"

lemma CreateSessionTxn_writes [oa_writes_intros]:
  "good_host E \<Longrightarrow> oa_writes (serialize_CreateSessionTxn E v) (enc_CreateSessionTxn v)"
  unfolding serialize_CreateSessionTxn_def enc_CreateSessionTxn_def
  by (rule oa_record_writes) (simp add: oa_writes_intros)

lemma CreateSessionTxn_reads [jute_reads]:
  "good_host E \<Longrightarrow> ia_reads (deserialize_CreateSessionTxn E) (enc_CreateSessionTxn v) v"
  unfolding deserialize_CreateSessionTxn_def enc_CreateSessionTxn_def CreateSessionTxn_ok_def
  by (rule ia_record_reads, (rule ia_updates_Cons ia_updates_Nil | (rule jute_reads; simp))+, rule CreateSessionTxn.equality, simp_all)

lemma CreateSessionTxn_safe: "ia_safe (deserialize_CreateSessionTxn E)"
  unfolding deserialize_CreateSessionTxn_def
  by (rule ia_record_safe) (simp add: ia_field_safe ia_safe_prims )

interpretation CreateSessionTxn_codec: codec serialize_CreateSessionTxn deserialize_CreateSessionTxn enc_CreateSessionTxn CreateSessionTxn_ok
  by unfold_locales (auto intro: CreateSessionTxn_writes CreateSessionTxn_reads)

section \<open>ErrorTxn\<close>

record ErrorTxn =
  ErrorTxn_err :: i32

definition ErrorTxn_zero :: ErrorTxn where
  "ErrorTxn_zero = \<lparr>ErrorTxn_err = 0\<rparr>"

definition serialize_ErrorTxn :: "host \<Rightarrow> ErrorTxn \<Rightarrow> oarchive \<Rightarrow> oa_result" where
  "serialize_ErrorTxn E v = oa_record
     [oa_serialize_int E (ErrorTxn_err v)]"

definition deserialize_ErrorTxn :: "host \<Rightarrow> iarchive \<times> ErrorTxn \<Rightarrow> ErrorTxn ia_result" where
  "deserialize_ErrorTxn E = ia_record
     [ia_field ErrorTxn_err ErrorTxn_err_update (ia_deserialize_int E)]"

definition deallocate_ErrorTxn :: "ErrorTxn \<Rightarrow> ErrorTxn option" where
  "deallocate_ErrorTxn v = Some (v)"

definition enc_ErrorTxn :: "ErrorTxn \<Rightarrow> bytes" where
  "enc_ErrorTxn v = concat
     [be32 (ErrorTxn_err v)]"

definition ErrorTxn_ok :: "ErrorTxn \<Rightarrow> bool" where
  "ErrorTxn_ok v \<longleftrightarrow> True"

lemma ErrorTxn_writes [oa_writes_intros]:
  "good_host E \<Longrightarrow> oa_writes (serialize_ErrorTxn E v) (enc_ErrorTxn v)"
  unfolding serialize_ErrorTxn_def enc_ErrorTxn_def
  by (rule oa_record_writes) (simp add: oa_writes_intros)

lemma ErrorTxn_reads [jute_reads]:
  "good_host E \<Longrightarrow> ia_reads (deserialize_ErrorTxn E) (enc_ErrorTxn v) v"
  unfolding deserialize_ErrorTxn_def enc_ErrorTxn_def ErrorTxn_ok_def
  by (rule ia_record_reads, (rule ia_updates_Cons ia_updates_Nil | (rule jute_reads; simp))+, rule ErrorTxn.equality, simp_all)

lemma ErrorTxn_safe: "ia_safe (deserialize_ErrorTxn E)"
  unfolding deserialize_ErrorTxn_def
  by (rule ia_record_safe) (simp add: ia_field_safe ia_safe_prims )

interpretation ErrorTxn_codec: codec serialize_ErrorTxn deserialize_ErrorTxn enc_ErrorTxn ErrorTxn_ok
  by unfold_locales (auto intro: ErrorTxn_writes ErrorTxn_reads)

section \<open>Txn\<close>

record Txn =
  Txn_type :: i32
  Txn_data :: cbuffer

definition Txn_zero :: Txn where
  "Txn_zero = \<lparr>Txn_type = 0, Txn_data = \<lparr>cb_len = 0, cb_buff = None\<rparr>\<rparr>"

definition serialize_Txn :: "host \<Rightarrow> Txn \<Rightarrow> oarchive \<Rightarrow> oa_result" where
  "serialize_Txn E v = oa_record
     [oa_serialize_int E (Txn_type v),
      oa_serialize_buffer E (Some (Txn_data v))]"

definition deserialize_Txn :: "host \<Rightarrow> iarchive \<times> Txn \<Rightarrow> Txn ia_result" where
  "deserialize_Txn E = ia_record
     [ia_field Txn_type Txn_type_update (ia_deserialize_int E),
      ia_field Txn_data Txn_data_update (ia_deserialize_buffer E)]"

definition deallocate_Txn :: "Txn \<Rightarrow> Txn option" where
  "deallocate_Txn v = Some (v\<lparr>Txn_data := deallocate_Buffer (Txn_data v)\<rparr>)"

definition enc_Txn :: "Txn \<Rightarrow> bytes" where
  "enc_Txn v = concat
     [be32 (Txn_type v), enc_buffer (Txn_data v)]"

definition Txn_ok :: "Txn \<Rightarrow> bool" where
  "Txn_ok v \<longleftrightarrow> cbuffer_ok (Txn_data v)"

lemma Txn_writes [oa_writes_intros]:
  "good_host E \<Longrightarrow> cbuffer_sendable (Txn_data v) \<Longrightarrow> oa_writes (serialize_Txn E v) (enc_Txn v)"
  unfolding serialize_Txn_def enc_Txn_def
  by (rule oa_record_writes) (simp add: oa_writes_intros)

lemma Txn_reads [jute_reads]:
  "good_host E \<Longrightarrow> Txn_ok v \<Longrightarrow> ia_reads (deserialize_Txn E) (enc_Txn v) v"
  unfolding deserialize_Txn_def enc_Txn_def Txn_ok_def
  by (rule ia_record_reads, (rule ia_updates_Cons ia_updates_Nil | (rule jute_reads; simp))+, rule Txn.equality, simp_all)

lemma Txn_safe: "sane_host E \<Longrightarrow> ia_safe (deserialize_Txn E)"
  unfolding deserialize_Txn_def
  by (rule ia_record_safe) (simp add: ia_field_safe ia_safe_prims )

interpretation Txn_codec: codec serialize_Txn deserialize_Txn enc_Txn Txn_ok
  by unfold_locales (auto intro: Txn_writes Txn_reads simp: Txn_ok_def cbuffer_ok_sendable vec_ok_sendable)

section \<open>Txn_vector\<close>

type_synonym Txn_vector = "Txn vector"

definition serialize_Txn_vector :: "host \<Rightarrow> Txn_vector \<Rightarrow> oarchive \<Rightarrow> oa_result" where
  "serialize_Txn_vector = serialize_vector serialize_Txn"

definition deserialize_Txn_vector :: "host \<Rightarrow> iarchive \<times> Txn_vector \<Rightarrow> Txn_vector ia_result" where
  "deserialize_Txn_vector = deserialize_vector 24 Txn_zero deserialize_Txn"

definition allocate_Txn_vector :: "host \<Rightarrow> i32 \<Rightarrow> Txn_vector" where
  "allocate_Txn_vector E len = allocate_vector E 24 Txn_zero len"

definition deallocate_Txn_vector :: "Txn_vector \<Rightarrow> Txn_vector option" where
  "deallocate_Txn_vector = deallocate_vector deallocate_Txn"

definition enc_Txn_vector :: "Txn_vector \<Rightarrow> bytes" where
  "enc_Txn_vector = enc_vector enc_Txn"

abbreviation Txn_vector_ok :: "Txn_vector \<Rightarrow> bool" where
  "Txn_vector_ok \<equiv> vec_ok Txn_ok"

abbreviation Txn_vector_sendable :: "Txn_vector \<Rightarrow> bool" where
  "Txn_vector_sendable \<equiv> vec_sendable (\<lambda>v. cbuffer_sendable (Txn_data v))"

lemma Txn_vector_writes [oa_writes_intros]:
  "good_host E \<Longrightarrow> Txn_vector_sendable v \<Longrightarrow> oa_writes (serialize_Txn_vector E v) (enc_Txn_vector v)"
  unfolding serialize_Txn_vector_def enc_Txn_vector_def
  by (rule serialize_vector_writes [where P = "\<lambda>v. cbuffer_sendable (Txn_data v)"]) (auto intro: Txn_writes)

lemma Txn_vector_reads [jute_reads]:
  "good_host E \<Longrightarrow> Txn_vector_ok v \<Longrightarrow> ia_reads (deserialize_Txn_vector E) (enc_Txn_vector v) v"
  unfolding deserialize_Txn_vector_def enc_Txn_vector_def
  by (rule deserialize_vector_reads [where P = Txn_ok]) (auto intro: Txn_reads)

lemma Txn_vector_safe:
  "sane_host E \<Longrightarrow> grants_vectors E 24 \<Longrightarrow> ia_safe (deserialize_Txn_vector E)"
  unfolding deserialize_Txn_vector_def by (rule deserialize_vector_safe) (auto intro: Txn_safe)

interpretation Txn_vector_codec: codec serialize_Txn_vector deserialize_Txn_vector enc_Txn_vector Txn_vector_ok
  by unfold_locales (auto intro!: Txn_vector_writes Txn_vector_reads vec_ok_sends simp: Txn_ok_def cbuffer_ok_sendable)

section \<open>MultiTxn\<close>

record MultiTxn =
  MultiTxn_txns :: Txn_vector

definition MultiTxn_zero :: MultiTxn where
  "MultiTxn_zero = \<lparr>MultiTxn_txns = \<lparr>vec_count = 0, vec_data = None\<rparr>\<rparr>"

definition serialize_MultiTxn :: "host \<Rightarrow> MultiTxn \<Rightarrow> oarchive \<Rightarrow> oa_result" where
  "serialize_MultiTxn E v = oa_record
     [serialize_Txn_vector E (MultiTxn_txns v)]"

definition deserialize_MultiTxn :: "host \<Rightarrow> iarchive \<times> MultiTxn \<Rightarrow> MultiTxn ia_result" where
  "deserialize_MultiTxn E = ia_record
     [ia_field MultiTxn_txns MultiTxn_txns_update (deserialize_Txn_vector E)]"

definition deallocate_MultiTxn :: "MultiTxn \<Rightarrow> MultiTxn option" where
  "deallocate_MultiTxn v = do { txns' \<leftarrow> deallocate_Txn_vector (MultiTxn_txns v); Some (v\<lparr>MultiTxn_txns := txns'\<rparr>) }"

definition enc_MultiTxn :: "MultiTxn \<Rightarrow> bytes" where
  "enc_MultiTxn v = concat
     [enc_Txn_vector (MultiTxn_txns v)]"

definition MultiTxn_ok :: "MultiTxn \<Rightarrow> bool" where
  "MultiTxn_ok v \<longleftrightarrow> Txn_vector_ok (MultiTxn_txns v)"

lemma MultiTxn_writes [oa_writes_intros]:
  "good_host E \<Longrightarrow> Txn_vector_sendable (MultiTxn_txns v) \<Longrightarrow> oa_writes (serialize_MultiTxn E v) (enc_MultiTxn v)"
  unfolding serialize_MultiTxn_def enc_MultiTxn_def
  by (rule oa_record_writes) (simp add: oa_writes_intros)

lemma MultiTxn_reads [jute_reads]:
  "good_host E \<Longrightarrow> MultiTxn_ok v \<Longrightarrow> ia_reads (deserialize_MultiTxn E) (enc_MultiTxn v) v"
  unfolding deserialize_MultiTxn_def enc_MultiTxn_def MultiTxn_ok_def
  by (rule ia_record_reads, (rule ia_updates_Cons ia_updates_Nil | (rule jute_reads; simp))+, rule MultiTxn.equality, simp_all)

lemma MultiTxn_safe: "sane_host E \<Longrightarrow> grants_vectors E 24 \<Longrightarrow> ia_safe (deserialize_MultiTxn E)"
  unfolding deserialize_MultiTxn_def
  by (rule ia_record_safe) (simp add: ia_field_safe ia_safe_prims Txn_vector_safe)

interpretation MultiTxn_codec: codec serialize_MultiTxn deserialize_MultiTxn enc_MultiTxn MultiTxn_ok
  by unfold_locales (auto intro!: MultiTxn_writes MultiTxn_reads vec_ok_sends simp: MultiTxn_ok_def Txn_ok_def cbuffer_ok_sendable)

end
