(* ===== verification/Addrvec.thy ===== *)
theory Addrvec
  imports ZkPrelude "HOL-Library.Multiset"
begin

text \<open>
  The list of server addresses of \<^verbatim>\<open>src/addrvec.c\<close>: a growing array with a cursor. An address is
  the 128 bytes of a \<^verbatim>\<open>struct sockaddr_storage\<close>; its family is the leading \<^verbatim>\<open>sa_family_t\<close>, the IPv4
  address stands at offset 4 and the IPv6 address at offset 8. Counters are 32 bit unsigned.
  The lemmas relate the array to the list of its addresses: appending adds at the end and keeps
  the array well formed, shuffling permutes, the cursor goes round robin, and \<^verbatim>\<open>addrvec_eq\<close> compares by
  containment of the host addresses, ports apart.
\<close>

section \<open>Socket addresses\<close>

type_synonym sockaddr = bytes

abbreviation (input) AF_INET :: nat where "AF_INET \<equiv> 2"
abbreviation (input) AF_INET6 :: nat where "AF_INET6 \<equiv> 10"
abbreviation (input) SS_SIZE :: nat where "SS_SIZE \<equiv> 128"

definition ss_zero :: sockaddr where
  "ss_zero = replicate SS_SIZE NUL"

definition ss_family :: "host \<Rightarrow> sockaddr \<Rightarrow> nat" where
  "ss_family E a = be_value (if big_endian E then take 2 a else rev (take 2 a))"

definition sin_addr :: "sockaddr \<Rightarrow> bytes" where
  "sin_addr a = take 4 (drop 4 a)"

definition sin6_addr :: "sockaddr \<Rightarrow> bytes" where
  "sin6_addr a = take 16 (drop 8 a)"

record addrinfo =
  ai_addr :: bytes
  ai_addrlen :: int

section \<open>The vector\<close>

record addrvec =
  av_next :: i32
  av_count :: i32
  av_capacity :: i32
  av_data :: "sockaddr list option"

definition addrvec_init :: addrvec where
  "addrvec_init = \<lparr>av_next = 0, av_count = 0, av_capacity = 0, av_data = None\<rparr>"

definition addrvec_free :: "addrvec option \<Rightarrow> addrvec option" where
  "addrvec_free avec =
     (case avec of None \<Rightarrow> None
      | Some a \<Rightarrow> Some (a\<lparr>av_next := 0, av_count := 0, av_capacity := 0, av_data := None\<rparr>))"

definition data_at :: "sockaddr list option \<Rightarrow> nat \<Rightarrow> sockaddr option" where
  "data_at d i = (case d of None \<Rightarrow> None | Some xs \<Rightarrow> if i < length xs then Some (xs ! i) else None)"

definition realloc_data :: "sockaddr list option \<Rightarrow> nat \<Rightarrow> sockaddr list" where
  \<comment> \<open>the array after a granted \<^verbatim>\<open>realloc\<close>; added entries are indeterminate in C\<close>
  "realloc_data d n =
     (let xs = (case d of None \<Rightarrow> [] | Some xs \<Rightarrow> xs) in take n xs @ replicate (n - length xs) ss_zero)"

definition addrvec_grow :: "host \<Rightarrow> i32 \<Rightarrow> addrvec \<Rightarrow> (int \<times> addrvec) option" where
  \<comment> \<open>a capacity that wraps round to 0 asks for \<^verbatim>\<open>realloc(p, 0)\<close>, which the C standard leaves open\<close>
  "addrvec_grow E grow_amount a =
     (if grow_amount = 0 then Some (0, a)
      else
        let capacity = av_capacity a + grow_amount in
        if capacity = 0 then None
        else if grants E (128 * uint capacity)
        then Some (0, a\<lparr>av_capacity := capacity, av_data := Some (realloc_data (av_data a) (unat capacity))\<rparr>)
        else Some (1, a))"

definition addrvec_grow_default :: "host \<Rightarrow> addrvec \<Rightarrow> (int \<times> addrvec) option" where
  "addrvec_grow_default E a = addrvec_grow E 16 a"

definition addrvec_alloc :: "host \<Rightarrow> (int \<times> addrvec) option" where
  "addrvec_alloc E = addrvec_grow_default E addrvec_init"

definition addrvec_alloc_capacity :: "host \<Rightarrow> i32 \<Rightarrow> (int \<times> addrvec) option" where
  "addrvec_alloc_capacity E capacity = addrvec_grow E capacity addrvec_init"

definition addrvec_grow_if_full :: "host \<Rightarrow> addrvec \<Rightarrow> (int \<times> addrvec) option" where
  "addrvec_grow_if_full E a =
     (if av_count a = av_capacity a then addrvec_grow_default E a else Some (0, a))"

definition same_host_addr :: "host \<Rightarrow> sockaddr \<Rightarrow> sockaddr \<Rightarrow> bool" where
  \<comment> \<open>the body of the loop of \<^verbatim>\<open>addrvec_contains\<close>: equal family, equal IPv4 or IPv6 address\<close>
  "same_host_addr E x addr =
     (if ss_family E x \<noteq> ss_family E addr then False
      else if ss_family E addr = AF_INET then sin_addr x = sin_addr addr
      else if ss_family E addr = AF_INET6 then sin6_addr x = sin6_addr addr
      else False)"

fun contains_loop :: "host \<Rightarrow> sockaddr list option \<Rightarrow> sockaddr \<Rightarrow> nat \<Rightarrow> nat \<Rightarrow> bool option" where
  "contains_loop E d addr 0 i = Some False"
| "contains_loop E d addr (Suc k) i = do {
     x \<leftarrow> data_at d i;
     if same_host_addr E x addr then Some True else contains_loop E d addr k (Suc i)
   }"

definition addrvec_contains :: "host \<Rightarrow> addrvec option \<Rightarrow> sockaddr option \<Rightarrow> bool option" where
  "addrvec_contains E avec addr =
     (case (avec, addr) of
        (Some a, Some x) \<Rightarrow> contains_loop E (av_data a) x (unat (av_count a)) 0
      | _ \<Rightarrow> Some False)"

definition addrvec_put :: "bytes \<Rightarrow> addrvec \<Rightarrow> addrvec option" where
  \<comment> \<open>\<^verbatim>\<open>memcpy(avec->data + avec->count, src, n); ++avec->count;\<close> a copy longer than an entry is undefined\<close>
  "addrvec_put src a = do {
     x \<leftarrow> data_at (av_data a) (unat (av_count a));
     y \<leftarrow> mem_write (Some x) 0 src;
     Some (a\<lparr>av_data := map_option (\<lambda>xs. xs[unat (av_count a) := y]) (av_data a),
             av_count := av_count a + 1\<rparr>)
   }"

definition addrvec_append :: "host \<Rightarrow> addrvec \<Rightarrow> sockaddr \<Rightarrow> (int \<times> addrvec) option" where
  "addrvec_append E a addr = do {
     (rc, a) \<leftarrow> addrvec_grow_if_full E a;
     if rc \<noteq> 0 then Some (rc, a)
     else do { a \<leftarrow> addrvec_put addr a; Some (0, a) }
   }"

definition addrvec_append_addrinfo :: "host \<Rightarrow> addrvec \<Rightarrow> addrinfo \<Rightarrow> (int \<times> addrvec) option" where
  "addrvec_append_addrinfo E a ai = do {
     (rc, a) \<leftarrow> addrvec_grow_if_full E a;
     if rc \<noteq> 0 then Some (rc, a)
     else do {
       src \<leftarrow> mem_read (Some (ai_addr ai)) 0 (ai_addrlen ai);
       a \<leftarrow> addrvec_put src a;
       Some (0, a)
     }
   }"

fun shuffle_loop :: "(nat \<Rightarrow> nat) \<Rightarrow> nat \<Rightarrow> nat \<Rightarrow> sockaddr list option \<Rightarrow> (nat \<times> sockaddr list option) option" where
  \<comment> \<open>\<open>rnd c\<close> is the value the \<open>c\<close>-th call of \<^verbatim>\<open>random()\<close> returns\<close>
  "shuffle_loop rnd c 0 d = Some (c, d)"
| "shuffle_loop rnd c (Suc i) d =
     (let j = rnd c mod (Suc i + 1) in
      if Suc i \<noteq> j
      then do {
        t \<leftarrow> data_at d (Suc i);
        u \<leftarrow> data_at d j;
        shuffle_loop rnd (Suc c) i (map_option (\<lambda>xs. xs[Suc i := u, j := t]) d)
      }
      else shuffle_loop rnd (Suc c) i d)"

definition addrvec_shuffle :: "(nat \<Rightarrow> nat) \<Rightarrow> nat \<Rightarrow> addrvec \<Rightarrow> (nat \<times> addrvec) option" where
  "addrvec_shuffle rnd c a = do {
     (c, d) \<leftarrow> shuffle_loop rnd c (nat (sint (av_count a - 1))) (av_data a);
     Some (c, a\<lparr>av_data := d\<rparr>)
   }"

definition addrvec_hasnext :: "addrvec \<Rightarrow> bool" where
  "addrvec_hasnext a \<longleftrightarrow> av_count a > 0 \<and> av_next a < av_count a"

definition addrvec_atend :: "addrvec \<Rightarrow> bool" where
  "addrvec_atend a \<longleftrightarrow> av_count a > 0 \<and> av_next a \<ge> av_count a"

definition addrvec_next :: "addrvec \<Rightarrow> (sockaddr \<times> addrvec) option" where
  \<comment> \<open>the address written to \<^verbatim>\<open>*next\<close> and the vector; \<^verbatim>\<open>int index\<close> is the signed reading of the cursor\<close>
  "addrvec_next a =
     (let a = (if addrvec_atend a then a\<lparr>av_next := 0\<rparr> else a) in
      if \<not> addrvec_hasnext a then Some (ss_zero, a)
      else if sint (av_next a) < 0 then None
      else do {
        x \<leftarrow> data_at (av_data a) (nat (sint (av_next a)));
        Some (x, a\<lparr>av_next := av_next a + 1\<rparr>)
      })"

definition addrvec_skip :: "addrvec \<Rightarrow> addrvec" where
  \<comment> \<open>\<^verbatim>\<open>addrvec_next(avec, NULL)\<close>\<close>
  "addrvec_skip a =
     (let a = (if addrvec_atend a then a\<lparr>av_next := 0\<rparr> else a) in
      if \<not> addrvec_hasnext a then a else a\<lparr>av_next := av_next a + 1\<rparr>)"

definition addrvec_peek :: "addrvec \<Rightarrow> sockaddr option" where
  "addrvec_peek a =
     (if av_count a = 0 then Some ss_zero
      else
        let index = (if addrvec_atend a then 0 else sint (av_next a)) in
        if index < 0 then None else data_at (av_data a) (nat index))"

fun eq_loop :: "host \<Rightarrow> sockaddr list option \<Rightarrow> addrvec \<Rightarrow> nat \<Rightarrow> nat \<Rightarrow> bool option" where
  "eq_loop E d a2 0 i = Some True"
| "eq_loop E d a2 (Suc k) i = do {
     x \<leftarrow> data_at d i;
     c \<leftarrow> addrvec_contains E (Some a2) (Some x);
     if \<not> c then Some False else eq_loop E d a2 k (Suc i)
   }"

definition addrvec_eq :: "host \<Rightarrow> addrvec \<Rightarrow> addrvec \<Rightarrow> bool option" where
  "addrvec_eq E a1 a2 =
     (if av_count a1 \<noteq> av_count a2 then Some False
      else eq_loop E (av_data a1) a2 (unat (av_count a1)) 0)"

section \<open>The list an address vector stands for\<close>

definition av_list :: "addrvec \<Rightarrow> sockaddr list" where
  "av_list a = (case av_data a of None \<Rightarrow> [] | Some xs \<Rightarrow> take (unat (av_count a)) xs)"

definition av_wf :: "addrvec \<Rightarrow> bool" where
  \<comment> \<open>the bound keeps \<^verbatim>\<open>int index\<close> and \<^verbatim>\<open>int i\<close> non-negative: more than 2^31 addresses are out of scope\<close>
  "av_wf a \<longleftrightarrow>
     unat (av_capacity a) = (case av_data a of None \<Rightarrow> 0 | Some xs \<Rightarrow> length xs) \<and>
     av_count a \<le> av_capacity a \<and> av_next a \<le> av_count a \<and> unat (av_capacity a) < 2 ^ 31 \<and>
     (case av_data a of None \<Rightarrow> True | Some xs \<Rightarrow> list_all (\<lambda>x. length x = SS_SIZE) xs)"

lemma length_ss_zero [simp]: "length ss_zero = SS_SIZE"
  by (simp add: ss_zero_def)

lemma av_wf_cases:
  assumes "av_wf a"
  shows "(av_data a = None \<and> av_count a = 0 \<and> av_capacity a = 0 \<and> av_next a = 0) \<or>
    (\<exists>xs. av_data a = Some xs \<and> length xs = unat (av_capacity a) \<and> unat (av_count a) \<le> length xs \<and>
       unat (av_next a) \<le> unat (av_count a) \<and> length xs < 2 ^ 31 \<and> (\<forall>x \<in> set xs. length x = SS_SIZE))"
proof (cases "av_data a")
  case None
  with assms have "av_capacity a = 0" by (simp add: av_wf_def unat_eq_0)
  with assms None show ?thesis by (auto simp: av_wf_def)
next
  case (Some xs)
  with assms show ?thesis by (auto simp: av_wf_def list_all_iff word_le_nat_alt)
qed

lemma length_av_list: "av_wf a \<Longrightarrow> length (av_list a) = unat (av_count a)"
  using av_wf_cases [of a] by (auto simp: av_list_def)

lemma data_at_av_list: "av_wf a \<Longrightarrow> i < unat (av_count a) \<Longrightarrow> data_at (av_data a) i = Some (av_list a ! i)"
  using av_wf_cases [of a] by (auto simp: av_list_def data_at_def)

lemma sint_small: "unat (w :: i32) < 2 ^ 31 \<Longrightarrow> sint w = int (unat w)"
proof -
  assume "unat w < 2 ^ 31"
  then have "unat w < 2147483648" by simp
  then have "int (unat w) \<le> INT_MAX" by linarith
  then have "sint (word_of_int (int (unat w)) :: i32) = int (unat w)"
    by (intro sint_word_of_int32) linarith+
  then show ?thesis by simp
qed

lemma unat_Suc: "unat (w :: i32) < 2 ^ 32 - 1 \<Longrightarrow> unat (w + 1) = Suc (unat w)"
  using unat_add_lem [of w 1] by (simp add: unat_less)

lemma realloc_data_props:
  "length (realloc_data d n) = n"
  "(case d of None \<Rightarrow> True | Some xs \<Rightarrow> list_all (\<lambda>x. length x = SS_SIZE) xs) \<Longrightarrow>
   list_all (\<lambda>x. length x = SS_SIZE) (realloc_data d n)"
  by (auto simp: realloc_data_def Let_def list_all_iff split: option.splits dest: in_set_takeD)

lemma addrvec_init_wf [simp]: "av_wf addrvec_init" "av_list addrvec_init = []"
  by (simp_all add: av_wf_def addrvec_init_def av_list_def)

lemma addrvec_grow_cases:
  assumes "av_wf a" and "unat (av_capacity a) + unat g < 2 ^ 31" and "addrvec_grow E g a = Some (rc, a')"
  shows "av_wf a' \<and> av_list a' = av_list a \<and> av_count a' = av_count a \<and> av_next a' = av_next a \<and>
    (rc = 0 \<and> unat (av_capacity a') = unat (av_capacity a) + unat g \<or> rc = 1 \<and> a' = a)"
proof -
  have cap: "unat (av_capacity a + g) = unat (av_capacity a) + unat g"
    using assms(2) by (simp add: unat_add_lem [THEN iffD1])
  have "take (unat (av_count a)) (realloc_data (av_data a) (unat (av_capacity a + g))) = av_list a"
    using av_wf_cases [OF assms(1)] cap by (auto simp: realloc_data_def av_list_def Let_def)
  moreover have "av_count a \<le> av_capacity a + g"
    using assms(1) cap by (simp add: av_wf_def word_le_nat_alt)
  ultimately show ?thesis
    using assms cap realloc_data_props [of "av_data a" "unat (av_capacity a + g)"]
    by (auto simp: addrvec_grow_def Let_def av_wf_def av_list_def split: if_splits)
qed

lemma addrvec_grow_returns:
  "unat (av_capacity a) + unat g < 2 ^ 31 \<Longrightarrow> \<exists>rc a'. addrvec_grow E g a = Some (rc, a')"
  using unat_add_lem [of "av_capacity a" g]
  by (auto simp: addrvec_grow_def Let_def unat_eq_0 [symmetric])

lemma addrvec_put_ok:
  assumes "av_wf a" and "av_count a < av_capacity a" and "length addr = SS_SIZE"
  shows "\<exists>a'. addrvec_put addr a = Some a' \<and> av_wf a' \<and> av_list a' = av_list a @ [addr] \<and>
    av_next a' = av_next a \<and> av_capacity a' = av_capacity a"
proof -
  let ?n = "unat (av_count a)"
  have lt: "?n < unat (av_capacity a)" using assms(2) by (simp add: word_less_nat_alt)
  then obtain xs where xs: "av_data a = Some xs" "length xs = unat (av_capacity a)" "unat (av_next a) \<le> ?n"
    "length xs < 2 ^ 31" "\<forall>x \<in> set xs. length x = SS_SIZE"
    using av_wf_cases [OF assms(1)] by auto
  with lt have at: "data_at (av_data a) ?n = Some (xs ! ?n)" "length (xs ! ?n) = SS_SIZE" "?n < length xs"
    by (simp_all add: data_at_def)
  have suc: "unat (av_count a + 1) = Suc ?n" using at(3) xs(4) by (intro unat_Suc) simp
  have w: "mem_write (Some (xs ! ?n)) 0 addr = Some addr"
    using at(2) assms(3) by (simp add: mem_write_def)
  have "list_all (\<lambda>x. length x = SS_SIZE) (xs[?n := addr])"
    using xs(5) assms(3) by (auto simp: list_all_iff dest!: set_update_subset_insert [THEN subsetD])
  then show ?thesis
    using at w xs suc lt by (auto simp: addrvec_put_def av_wf_def av_list_def word_le_nat_alt take_Suc_conv_app_nth)
qed

lemma addrvec_append_ok:
  assumes "av_wf a" and "length addr = SS_SIZE" and "unat (av_capacity a) < 2 ^ 31 - 16"
  shows "\<exists>rc a'. addrvec_append E a addr = Some (rc, a') \<and> av_wf a' \<and> av_next a' = av_next a \<and>
    (rc = 0 \<and> av_list a' = av_list a @ [addr] \<or> rc = 1 \<and> a' = a)"
proof (cases "av_count a = av_capacity a")
  case True
  obtain rc a1 where g: "addrvec_grow E 16 a = Some (rc, a1)"
    using addrvec_grow_returns [of a 16 E] assms(3) by auto
  with addrvec_grow_cases [OF assms(1) _ g] assms(3) have
    1: "av_wf a1" "av_list a1 = av_list a" "av_count a1 = av_count a" "av_next a1 = av_next a"
      "rc = 0 \<and> unat (av_capacity a1) = unat (av_capacity a) + 16 \<or> rc = 1 \<and> a1 = a" by auto
  show ?thesis
  proof (cases "rc = 0")
    case rc: True
    with 1 True have "av_count a1 < av_capacity a1" by (simp add: word_less_nat_alt)
    from addrvec_put_ok [OF 1(1) this assms(2)] 1 g True rc show ?thesis
      by (auto simp: addrvec_append_def addrvec_grow_if_full_def addrvec_grow_default_def)
  next
    case False
    with 1 g True show ?thesis
      by (simp add: addrvec_append_def addrvec_grow_if_full_def addrvec_grow_default_def)
  qed
next
  case False
  with assms(1) have "av_count a < av_capacity a" by (simp add: av_wf_def order.strict_iff_order)
  from addrvec_put_ok [OF assms(1) this assms(2)] False show ?thesis
    by (auto simp: addrvec_append_def addrvec_grow_if_full_def)
qed

section \<open>Shuffling\<close>

lemma mset_swap: "i < length xs \<Longrightarrow> j < length xs \<Longrightarrow> mset (xs[i := xs ! j, j := xs ! i]) = mset xs"
  by (simp add: mset_swap)

lemma shuffle_loop_perm:
  assumes "n < length xs"
  shows "\<exists>ys. shuffle_loop rnd c n (Some xs) = Some (c + n, Some ys) \<and> mset ys = mset xs \<and>
    drop (Suc n) ys = drop (Suc n) xs"
  using assms
proof (induction n arbitrary: c xs)
  case (Suc i)
  let ?j = "rnd c mod (Suc i + 1)"
  let ?ys = "if Suc i \<noteq> ?j then xs[Suc i := xs ! ?j, ?j := xs ! Suc i] else xs"
  have j: "?j < Suc i + 1" by (rule mod_less_divisor) simp
  then have jl: "?j < length xs" using Suc.prems by linarith
  have len: "length ?ys = length xs" by simp
  have ms: "mset ?ys = mset xs" using mset_swap [OF Suc.prems jl] by simp
  have dr: "drop (Suc (Suc i)) ?ys = drop (Suc (Suc i)) xs" using j by simp
  have step: "shuffle_loop rnd c (Suc i) (Some xs) = shuffle_loop rnd (Suc c) i (Some ?ys)"
    using Suc.prems jl by (simp add: Let_def data_at_def)
  obtain zs where zs: "shuffle_loop rnd (Suc c) i (Some ?ys) = Some (Suc c + i, Some zs)"
    "mset zs = mset ?ys" "drop (Suc i) zs = drop (Suc i) ?ys"
    using Suc.IH [of ?ys "Suc c"] Suc.prems len by auto
  have "drop (Suc (Suc i)) zs = drop (Suc (Suc i)) ?ys"
    using arg_cong [OF zs(3), of "drop 1"] by simp
  with step zs ms dr show ?case by (simp del: shuffle_loop.simps)
qed simp

section \<open>The cursor\<close>

definition av_pos :: "addrvec \<Rightarrow> nat" where
  \<comment> \<open>the index the next call returns\<close>
  "av_pos a = unat (av_next a) mod unat (av_count a)"

lemma addrvec_next_ok:
  assumes "av_wf a" and "av_list a \<noteq> []"
  shows "\<exists>a'. addrvec_next a = Some (av_list a ! av_pos a, a') \<and> av_wf a' \<and> av_list a' = av_list a \<and>
    unat (av_next a') = Suc (av_pos a) \<and> av_count a' = av_count a"
proof -
  have n: "0 < unat (av_count a)" using assms(2) length_av_list [OF assms(1)] by (metis length_greater_0_conv)
  define b where "b = (if addrvec_atend a then a\<lparr>av_next := 0\<rparr> else a)"
  have b: "av_wf b" "av_list b = av_list a" "av_count b = av_count a" "av_data b = av_data a"
    using assms(1) by (auto simp: b_def av_wf_def av_list_def split: option.splits)
  have pos: "unat (av_next b) = av_pos a" "unat (av_next b) < unat (av_count b)"
    using n av_wf_cases [OF assms(1)]
    by (auto simp: b_def av_pos_def addrvec_atend_def word_less_nat_alt word_le_nat_alt not_le
        intro!: mod_self [symmetric])
  have small: "unat (av_next b) < 2 ^ 31" using pos(2) av_wf_cases [OF b(1)] by auto
  have "addrvec_hasnext b" using pos(2) n b(3) by (simp add: addrvec_hasnext_def word_less_nat_alt)
  moreover have "data_at (av_data b) (unat (av_next b)) = Some (av_list a ! av_pos a)"
    using data_at_av_list [OF b(1) pos(2)] b pos by simp
  moreover have suc: "unat (av_next b + 1) = Suc (unat (av_next b))" using small by (intro unat_Suc) simp
  moreover have "av_wf (b\<lparr>av_next := av_next b + 1\<rparr>)"
    using b(1) pos(2) suc by (simp add: av_wf_def word_le_nat_alt)
  ultimately show ?thesis
    using b pos sint_small [OF small]
    by (simp add: addrvec_next_def Let_def flip: b_def) (simp add: av_list_def split: option.splits)
qed

lemma addrvec_peek_ok:
  assumes "av_wf a" and "av_list a \<noteq> []"
  shows "addrvec_peek a = Some (av_list a ! av_pos a)"
proof -
  have n: "0 < unat (av_count a)" using assms(2) length_av_list [OF assms(1)] by (metis length_greater_0_conv)
  then have "av_count a \<noteq> 0" by auto
  moreover have small: "unat (av_next a) < 2 ^ 31" using av_wf_cases [OF assms(1)] by auto
  moreover have "unat (av_next a) \<le> unat (av_count a)" using av_wf_cases [OF assms(1)] by auto
  ultimately show ?thesis
    using n data_at_av_list [OF assms(1), of "unat (av_next a)"] data_at_av_list [OF assms(1), of 0] sint_small [OF small]
    by (auto simp: addrvec_peek_def Let_def addrvec_atend_def av_pos_def word_less_nat_alt word_le_nat_alt)
qed

fun next_n :: "nat \<Rightarrow> addrvec \<Rightarrow> (sockaddr list \<times> addrvec) option" where
  \<comment> \<open>\<open>n\<close> calls of \<^verbatim>\<open>addrvec_next\<close> in a row\<close>
  "next_n 0 a = Some ([], a)"
| "next_n (Suc n) a = do { (x, a) \<leftarrow> addrvec_next a; (xs, a) \<leftarrow> next_n n a; Some (x # xs, a) }"

lemma next_n_round_robin:
  assumes "av_wf a" and "av_list a \<noteq> []"
  shows "\<exists>a'. next_n n a =
    Some (map (\<lambda>k. av_list a ! ((unat (av_next a) + k) mod length (av_list a))) [0..<n], a')"
  using assms
proof (induction n arbitrary: a)
  case (Suc n)
  obtain a1 where 1: "addrvec_next a = Some (av_list a ! av_pos a, a1)" "av_wf a1" "av_list a1 = av_list a"
    "unat (av_next a1) = Suc (av_pos a)"
    using addrvec_next_ok [OF Suc.prems] by blast
  let ?m = "length (av_list a)"
  have p: "av_pos a = unat (av_next a) mod ?m" using length_av_list [OF Suc.prems(1)] by (simp add: av_pos_def)
  have "(Suc (av_pos a) + k) mod ?m = (unat (av_next a) + Suc k) mod ?m" for k
    using mod_add_left_eq [of "unat (av_next a)" ?m "Suc k"] by (simp add: p)
  with Suc.IH [OF 1(2)] Suc.prems(2) 1 p show ?case
    by (auto simp: upt_conv_Cons map_Suc_upt [symmetric] simp del: upt_Suc)
qed simp

section \<open>Comparison\<close>

lemma contains_loop_ok:
  assumes "av_wf a" and "i + k = unat (av_count a)"
  shows "contains_loop E (av_data a) x k i = Some (\<exists>y \<in> set (drop i (av_list a)). same_host_addr E y x)"
  using assms
proof (induction k arbitrary: i)
  case 0
  then show ?case by (simp add: length_av_list)
next
  case (Suc k)
  then have i: "i < length (av_list a)" by (simp add: length_av_list)
  with Suc show ?case by (simp add: data_at_av_list Cons_nth_drop_Suc [OF i, symmetric])
qed

lemma addrvec_contains_ok:
  "av_wf a \<Longrightarrow> addrvec_contains E (Some a) (Some x) = Some (\<exists>y \<in> set (av_list a). same_host_addr E y x)"
  using contains_loop_ok [of a 0 "unat (av_count a)" E x] by (simp add: addrvec_contains_def)

lemma eq_loop_ok:
  assumes "av_wf a" and "av_wf b" and "i + k = unat (av_count a)"
  shows "eq_loop E (av_data a) b k i =
    Some (\<forall>x \<in> set (drop i (av_list a)). \<exists>y \<in> set (av_list b). same_host_addr E y x)"
  using assms
proof (induction k arbitrary: i)
  case 0
  then show ?case by (simp add: length_av_list)
next
  case (Suc k)
  then have i: "i < length (av_list a)" by (simp add: length_av_list)
  with Suc show ?case
    by (simp add: data_at_av_list addrvec_contains_ok Cons_nth_drop_Suc [OF i, symmetric])
qed

lemma addrvec_shuffle_ok:
  assumes "av_wf a"
  shows "\<exists>c' a'. addrvec_shuffle rnd c a = Some (c', a') \<and> av_wf a' \<and>
    mset (av_list a') = mset (av_list a) \<and> av_count a' = av_count a \<and> av_next a' = av_next a"
proof (cases "av_count a = 0")
  case True
  with assms show ?thesis by (simp add: addrvec_shuffle_def)
next
  case False
  let ?n = "unat (av_count a)"
  have n: "0 < ?n" using False by (simp add: unat_gt_0)
  obtain xs where xs: "av_data a = Some xs" "?n \<le> length xs" "length xs < 2 ^ 31" "\<forall>x \<in> set xs. length x = SS_SIZE"
    "length xs = unat (av_capacity a)"
    using av_wf_cases [OF assms] False by auto
  have m: "unat (av_count a - 1) = ?n - 1" using n by (simp add: unat_sub word_le_nat_alt)
  then have "sint (av_count a - 1) = int (?n - 1)"
    using sint_small [of "av_count a - 1"] xs(2,3) by simp
  then have k: "nat (sint (av_count a - 1)) = ?n - 1" by simp
  have lt: "?n - 1 < length xs" using n xs(2) by linarith
  from shuffle_loop_perm [OF lt, of rnd c] obtain ys where
    ys: "shuffle_loop rnd c (?n - 1) (Some xs) = Some (c + (?n - 1), Some ys)" "mset ys = mset xs"
      "drop (Suc (?n - 1)) ys = drop (Suc (?n - 1)) xs" by blast
  then have d: "drop ?n ys = drop ?n xs" using n by simp
  have "mset (take ?n ys) + mset (drop ?n ys) = mset (take ?n xs) + mset (drop ?n xs)"
    using ys(2) by (metis append_take_drop_id mset_append)
  with d have "mset (take ?n ys) = mset (take ?n xs)" by simp
  moreover have "length ys = length xs" "set ys = set xs"
    using ys(2) mset_eq_length mset_eq_setD by blast+
  ultimately show ?thesis
    using assms xs ys(1) k by (simp add: addrvec_shuffle_def av_wf_def av_list_def list_all_iff)
qed

section \<open>Properties\<close>

text \<open>
  Appending an address to a well formed vector (below two thousand million entries) never writes outside
  the array: either the address is added at the end of the list, the array growing by 16 entries when it is full,
  or the allocator refused and the vector is as before with the error 1.
\<close>

theorem addrvec_append_spec:
  assumes "av_wf a" and "length addr = SS_SIZE" and "unat (av_capacity a) < 2 ^ 31 - 16"
  shows "\<exists>rc a'. addrvec_append E a addr = Some (rc, a') \<and> av_wf a' \<and> av_next a' = av_next a \<and>
    (rc = 0 \<and> av_list a' = av_list a @ [addr] \<or> rc = 1 \<and> a' = a)"
  using assms by (rule addrvec_append_ok)

definition any_host :: host where
  "any_host = \<lparr>grants = (\<lambda>_. True), extends = (\<lambda>_. False), big_endian = False\<rparr>"

theorem addrvec_append_spec_witness:
  "\<exists>rc a'. addrvec_append any_host addrvec_init ss_zero = Some (rc, a') \<and> av_wf a' \<and> av_next a' = 0 \<and>
    (rc = 0 \<and> av_list a' = [ss_zero] \<or> rc = 1 \<and> a' = addrvec_init)"
  using addrvec_append_spec [of addrvec_init ss_zero any_host] by (simp add: addrvec_init_def av_wf_def av_list_def)

text \<open>
  Shuffling, whatever \<^verbatim>\<open>random()\<close> returns, stays inside the array and permutes the addresses: none is lost,
  none is duplicated.
\<close>

theorem addrvec_shuffle_permutes:
  assumes "av_wf a"
  shows "\<exists>c' a'. addrvec_shuffle rnd c a = Some (c', a') \<and> av_wf a' \<and>
    mset (av_list a') = mset (av_list a) \<and> av_count a' = av_count a \<and> av_next a' = av_next a"
  using assms by (rule addrvec_shuffle_ok)

definition addr_of :: "nat list \<Rightarrow> sockaddr" where
  \<comment> \<open>a little endian \<^verbatim>\<open>sockaddr_in\<close> with this IPv4 address\<close>
  "addr_of ip = [CHR 0x02, NUL, NUL, NUL] @ map char_of ip @ replicate (124 - length ip) NUL"

definition vec_of :: "sockaddr list \<Rightarrow> addrvec" where
  "vec_of xs = \<lparr>av_next = 0, av_count = of_nat (length xs), av_capacity = of_nat (length xs), av_data = Some xs\<rparr>"

theorem addrvec_shuffle_permutes_witness:
  "\<exists>c' a'. addrvec_shuffle (\<lambda>_. 0) 5 (vec_of [addr_of [1], addr_of [2], addr_of [3]]) = Some (c', a') \<and> av_wf a' \<and>
    mset (av_list a') = {#addr_of [1], addr_of [2], addr_of [3]#} \<and> av_count a' = 3 \<and> av_next a' = 0"
  using addrvec_shuffle_permutes [of "vec_of [addr_of [1], addr_of [2], addr_of [3]]" "\<lambda>_. 0" 5]
  by (simp add: vec_of_def av_wf_def av_list_def addr_of_def)

text \<open>
  The cursor goes round robin: \<open>n\<close> calls of \<^verbatim>\<open>addrvec_next\<close> on a non-empty vector return the addresses in
  order from the cursor on, wrapping round at the end, for every \<open>n\<close>; and \<^verbatim>\<open>addrvec_peek\<close> is what the next call returns.
\<close>

theorem addrvec_next_round_robin:
  assumes "av_wf a" and "av_list a \<noteq> []"
  shows "(\<exists>a'. next_n n a =
      Some (map (\<lambda>k. av_list a ! ((unat (av_next a) + k) mod length (av_list a))) [0..<n], a')) \<and>
    addrvec_peek a = Some (av_list a ! (unat (av_next a) mod length (av_list a)))"
  using next_n_round_robin [OF assms, of n] addrvec_peek_ok [OF assms] length_av_list [OF assms(1)]
  by (simp add: av_pos_def)

theorem addrvec_next_round_robin_witness:
  "(\<exists>a'. next_n 3 (vec_of [addr_of [1], addr_of [2]]) = Some ([addr_of [1], addr_of [2], addr_of [1]], a')) \<and>
   addrvec_peek (vec_of [addr_of [1], addr_of [2]]) = Some (addr_of [1])"
  using addrvec_next_round_robin [of "vec_of [addr_of [1], addr_of [2]]" 3]
  by (simp add: vec_of_def av_wf_def av_list_def addr_of_def upt_rec)

text \<open>
  \<^verbatim>\<open>addrvec_eq\<close> is decided by the counts and by whether every host address of the first list occurs in the
  second; ports and repetitions do not matter.
\<close>

theorem addrvec_eq_spec:
  assumes "av_wf a" and "av_wf b"
  shows "addrvec_eq E a b =
    Some (length (av_list a) = length (av_list b) \<and>
      (\<forall>x \<in> set (av_list a). \<exists>y \<in> set (av_list b). same_host_addr E y x))"
  using eq_loop_ok [OF assms, of 0 "unat (av_count a)" E] length_av_list [OF assms(1)] length_av_list [OF assms(2)]
  by (auto simp: addrvec_eq_def word_unat_eq_iff)

theorem addrvec_eq_spec_witness:
  "addrvec_eq any_host (vec_of [addr_of [1], addr_of [1]]) (vec_of [addr_of [1], addr_of [2]]) = Some True \<and>
   addrvec_eq any_host (vec_of [addr_of [1], addr_of [2]]) (vec_of [addr_of [1], addr_of [1]]) = Some False"
  using addrvec_eq_spec [of "vec_of [addr_of [1], addr_of [1]]" "vec_of [addr_of [1], addr_of [2]]" any_host]
    addrvec_eq_spec [of "vec_of [addr_of [1], addr_of [2]]" "vec_of [addr_of [1], addr_of [1]]" any_host]
  by (simp add: vec_of_def av_wf_def av_list_def addr_of_def same_host_addr_def any_host_def ss_family_def sin_addr_def)

end
