(* ===== verification/Hashtable.thy ===== *)
theory Hashtable
  imports ZkPrelude "HOL-Library.Multiset"
begin

unbundle bit_operations_syntax

text \<open>
  The chained hash table of \<^verbatim>\<open>src/hashtable/hashtable.c\<close>, \<^verbatim>\<open>hashtable_private.h\<close> and
  \<^verbatim>\<open>hashtable_itr.c\<close>. A chain is the list of its entries, the table the list of its chains; an iterator is
  a bucket and a position in its chain. The lemmas show that the table implements a finite map
  (search, insert of a new key, remove, growth), and that an iterator visits every entry once.
  The number of entries stays below \<open>2 ^ 32\<close>, so the counters are natural numbers.
\<close>

section \<open>Data\<close>

record ('k, 'v) entry =
  e_k :: 'k
  e_v :: 'v
  e_h :: i32

record ('k, 'v) hashtable =
  tablelength :: nat
  table :: "('k, 'v) entry list list"
  entrycount :: nat
  loadlimit :: nat
  primeindex :: nat
  hashfn :: "'k \<Rightarrow> i32"
  eqfn :: "'k \<Rightarrow> 'k \<Rightarrow> bool"

definition primes :: "nat list" where
  "primes =
     [53, 97, 193, 389,
      769, 1543, 3079, 6151,
      12289, 24593, 49157, 98317,
      196613, 393241, 786433, 1572869,
      3145739, 6291469, 12582917, 25165843,
      50331653, 100663319, 201326611, 402653189,
      805306457, 1610612741]"

definition prime_table_length :: nat where
  "prime_table_length = 26"

subsection \<open>The load limit\<close>

text \<open>
  \<^verbatim>\<open>(unsigned int) ceil(size * max_load_factor)\<close> is computed in single precision: \<open>size\<close> and the product are
  rounded to 24 significant bits, ties to even. The float \<^verbatim>\<open>0.65\<close> is \<open>10905190 / 2 ^ 24\<close>.
\<close>

fun bitlen :: "nat \<Rightarrow> nat" where
  "bitlen n = (if n = 0 then 0 else Suc (bitlen (n div 2)))"

declare bitlen.simps [simp del]

definition round24 :: "nat \<Rightarrow> nat" where
  "round24 n =
     (let k = bitlen n - 24; q = n div 2 ^ k; r = n mod 2 ^ k in
      if k = 0 then n
      else if 2 ^ (k - 1) < r \<or> r = 2 ^ (k - 1) \<and> odd q then (q + 1) * 2 ^ k else q * 2 ^ k)"

definition load_limit :: "nat \<Rightarrow> nat" where
  "load_limit sz = (round24 (round24 sz * 10905190) + (2 ^ 24 - 1)) div 2 ^ 24"

section \<open>Operations\<close>

fun prime_above :: "nat list \<Rightarrow> nat \<Rightarrow> nat \<Rightarrow> nat \<times> nat" where
  \<comment> \<open>the index and the size the loop of \<^verbatim>\<open>create_hashtable\<close> leaves with\<close>
  "prime_above [] minsize pindex = (pindex, primes ! 0)"
| "prime_above (p # ps) minsize pindex =
     (if p > minsize then (pindex, p) else prime_above ps minsize (Suc pindex))"

definition create_hashtable ::
  "host \<Rightarrow> nat \<Rightarrow> ('k \<Rightarrow> i32) \<Rightarrow> ('k \<Rightarrow> 'k \<Rightarrow> bool) \<Rightarrow> ('k, 'v) hashtable option" where
  \<comment> \<open>\<open>None\<close> is the null pointer\<close>
  "create_hashtable E minsize hashf eqf =
     (if minsize > 2 ^ 30 then None
      else
        let (pindex, sz) = prime_above primes minsize 0 in
        if \<not> grants E 48 then None
        else if \<not> grants E (8 * int sz) then None
        else Some \<lparr>tablelength = sz, table = replicate sz [], entrycount = 0,
               loadlimit = load_limit sz, primeindex = pindex, hashfn = hashf, eqfn = eqf\<rparr>)"

definition hash :: "('k, 'v) hashtable \<Rightarrow> 'k \<Rightarrow> i32" where
  "hash h k =
     (let i = hashfn h k;
          i = i + NOT (push_bit 9 i);
          i = i XOR (drop_bit 14 i OR push_bit 18 i);
          i = i + push_bit 4 i
      in i XOR (drop_bit 10 i OR push_bit 22 i))"

definition indexFor :: "nat \<Rightarrow> i32 \<Rightarrow> nat" where
  "indexFor len hashvalue = unat hashvalue mod len"

fun move_chain :: "nat \<Rightarrow> ('k, 'v) entry list \<Rightarrow> ('k, 'v) entry list list \<Rightarrow> ('k, 'v) entry list list" where
  "move_chain newsize [] new = new"
| "move_chain newsize (e # es) new =
     (let index = indexFor newsize (e_h e) in move_chain newsize es (new[index := e # new ! index]))"

fun move_all :: "nat \<Rightarrow> ('k, 'v) entry list list \<Rightarrow> ('k, 'v) entry list list \<Rightarrow> ('k, 'v) entry list list" where
  "move_all newsize [] new = new"
| "move_all newsize (c # cs) new = move_all newsize cs (move_chain newsize c new)"

definition hashtable_expand :: "host \<Rightarrow> ('k, 'v) hashtable \<Rightarrow> (int \<times> ('k, 'v) hashtable) option" where
  \<comment> \<open>the fallback on \<^verbatim>\<open>realloc\<close> writes through the indeterminate pointer \<^verbatim>\<open>newtable[h->tablelength]\<close>
      where the array itself was meant: undefined\<close>
  "hashtable_expand E h =
     (if primeindex h = prime_table_length - 1 then Some (0, h)
      else
        let pindex = Suc (primeindex h); newsize = primes ! pindex in
        if grants E (8 * int newsize)
        then Some (- 1, h\<lparr>primeindex := pindex,
               table := move_all newsize (table h) (replicate newsize []),
               tablelength := newsize, loadlimit := load_limit newsize\<rparr>)
        else if extends E (8 * int newsize) then None
        else Some (0, h))"

definition hashtable_count :: "('k, 'v) hashtable \<Rightarrow> nat" where
  "hashtable_count h = entrycount h"

definition make_room :: "host \<Rightarrow> ('k, 'v) hashtable \<Rightarrow> (int \<times> ('k, 'v) hashtable) option" where
  \<comment> \<open>\<^verbatim>\<open>if (++(h->entrycount) > h->loadlimit) hashtable_expand(h)\<close>\<close>
  "make_room E h =
     (let h = h\<lparr>entrycount := entrycount h + 1\<rparr>
      in if entrycount h > loadlimit h then hashtable_expand E h else Some (0, h))"

definition hashtable_insert ::
  "host \<Rightarrow> ('k, 'v) hashtable \<Rightarrow> 'k \<Rightarrow> 'v \<Rightarrow> (int \<times> ('k, 'v) hashtable) option" where
  "hashtable_insert E h k v = do {
     (rc, h) \<leftarrow> make_room E h;
     if \<not> grants E 32 then Some (0, h\<lparr>entrycount := entrycount h - 1\<rparr>)
     else do {
       let e = \<lparr>e_k = k, e_v = v, e_h = hash h k\<rparr>;
       let index = indexFor (tablelength h) (e_h e);
       Some (- 1, h\<lparr>table := (table h)[index := e # table h ! index]\<rparr>)
     }
   }"

fun search_chain :: "('k \<Rightarrow> 'k \<Rightarrow> bool) \<Rightarrow> i32 \<Rightarrow> 'k \<Rightarrow> ('k, 'v) entry list \<Rightarrow> 'v option" where
  "search_chain eq hv k [] = None"
| "search_chain eq hv k (e # es) = (if hv = e_h e \<and> eq k (e_k e) then Some (e_v e) else search_chain eq hv k es)"

definition hashtable_search :: "('k, 'v) hashtable \<Rightarrow> 'k \<Rightarrow> 'v option" where
  "hashtable_search h k =
     (let hashvalue = hash h k; index = indexFor (tablelength h) hashvalue
      in search_chain (eqfn h) hashvalue k (table h ! index))"

fun remove_chain ::
  "('k \<Rightarrow> 'k \<Rightarrow> bool) \<Rightarrow> i32 \<Rightarrow> 'k \<Rightarrow> ('k, 'v) entry list \<Rightarrow> ('v \<times> ('k, 'v) entry list) option" where
  \<comment> \<open>unlink the first match: its value and the chain without it\<close>
  "remove_chain eq hv k [] = None"
| "remove_chain eq hv k (e # es) =
     (if hv = e_h e \<and> eq k (e_k e) then Some (e_v e, es)
      else map_option (\<lambda>(v, es). (v, e # es)) (remove_chain eq hv k es))"

definition hashtable_remove :: "('k, 'v) hashtable \<Rightarrow> 'k \<Rightarrow> 'v option \<times> ('k, 'v) hashtable" where
  "hashtable_remove h k =
     (let hashvalue = hash h k; index = indexFor (tablelength h) hashvalue in
      case remove_chain (eqfn h) hashvalue k (table h ! index) of
        None \<Rightarrow> (None, h)
      | Some (v, c) \<Rightarrow> (Some v, h\<lparr>table := (table h)[index := c], entrycount := entrycount h - 1\<rparr>))"

fun store_chain :: "('k \<Rightarrow> 'k \<Rightarrow> bool) \<Rightarrow> i32 \<Rightarrow> 'k \<Rightarrow> 'v \<Rightarrow> ('k, 'v) entry list \<Rightarrow> ('k, 'v) entry list" where
  "store_chain eq hv k v [] = []"
| "store_chain eq hv k v (e # es) =
     (if hv = e_h e \<and> eq k (e_k e) then e\<lparr>e_v := v\<rparr> # es else e # store_chain eq hv k v es)"

definition hashtable_store :: "('k, 'v) hashtable \<Rightarrow> 'k \<Rightarrow> 'v \<Rightarrow> ('k, 'v) hashtable" where
  \<comment> \<open>the effect of writing through the value pointer that \<^verbatim>\<open>hashtable_search\<close> returned for \<open>k\<close>\<close>
  "hashtable_store h k v =
     (let hashvalue = hash h k; index = indexFor (tablelength h) hashvalue
      in h\<lparr>table := (table h)[index := store_chain (eqfn h) hashvalue k v (table h ! index)]\<rparr>)"

definition hashtable_destroy :: "('k, 'v) hashtable \<Rightarrow> bool \<Rightarrow> 'k list \<times> 'v list" where
  \<comment> \<open>the keys and the values that are freed, bucket by bucket\<close>
  "hashtable_destroy h free_values =
     (let es = concat (take (tablelength h) (table h))
      in (map e_k es, if free_values then map e_v es else []))"

section \<open>Iterators\<close>

text \<open>
  \<^verbatim>\<open>itr->e\<close> and \<^verbatim>\<open>itr->parent\<close> are positions in the chain of bucket \<^verbatim>\<open>itr->index\<close>; \<open>None\<close> is the null pointer.
\<close>

record hashtable_itr =
  it_index :: nat
  it_e :: "nat option"
  it_parent :: "nat option"

fun first_bucket :: "('k, 'v) entry list list \<Rightarrow> nat \<Rightarrow> nat option" where
  \<comment> \<open>the scan for the next non-empty bucket, which starts at index \<open>i\<close>\<close>
  "first_bucket [] i = None"
| "first_bucket (c # cs) i = (if c \<noteq> [] then Some i else first_bucket cs (Suc i))"

definition hashtable_iterator :: "host \<Rightarrow> ('k, 'v) hashtable \<Rightarrow> hashtable_itr option" where
  "hashtable_iterator E h =
     (if \<not> grants E 32 then None
      else
        let itr = \<lparr>it_index = tablelength h, it_e = None, it_parent = None\<rparr> in
        if entrycount h = 0 then Some itr
        else case first_bucket (take (tablelength h) (table h)) 0 of
               None \<Rightarrow> Some itr
             | Some i \<Rightarrow> Some (itr\<lparr>it_e := Some 0, it_index := i\<rparr>))"

definition itr_entry :: "('k, 'v) hashtable \<Rightarrow> hashtable_itr \<Rightarrow> ('k, 'v) entry option" where
  \<comment> \<open>\<^verbatim>\<open>*itr->e\<close>, undefined when it is null or gone\<close>
  "itr_entry h itr = do {
     p \<leftarrow> it_e itr;
     if it_index itr < length (table h) \<and> p < length (table h ! it_index itr)
     then Some (table h ! it_index itr ! p) else None
   }"

definition hashtable_iterator_key :: "('k, 'v) hashtable \<Rightarrow> hashtable_itr \<Rightarrow> 'k option" where
  "hashtable_iterator_key h itr = map_option e_k (itr_entry h itr)"

definition hashtable_iterator_value :: "('k, 'v) hashtable \<Rightarrow> hashtable_itr \<Rightarrow> 'v option" where
  "hashtable_iterator_value h itr = map_option e_v (itr_entry h itr)"

definition next_bucket :: "('k, 'v) hashtable \<Rightarrow> hashtable_itr \<Rightarrow> int \<times> hashtable_itr" where
  \<comment> \<open>the part of \<^verbatim>\<open>hashtable_iterator_advance\<close> that leaves the chain\<close>
  "next_bucket h itr =
     (let j = Suc (it_index itr); itr = itr\<lparr>it_parent := None, it_index := j\<rparr> in
      if tablelength h \<le> j then (0, itr\<lparr>it_e := None\<rparr>)
      else case first_bucket (drop j (take (tablelength h) (table h))) j of
             None \<Rightarrow> (0, itr\<lparr>it_index := tablelength h, it_e := None\<rparr>)
           | Some j \<Rightarrow> (- 1, itr\<lparr>it_index := j, it_e := Some 0\<rparr>))"

definition hashtable_iterator_advance :: "('k, 'v) hashtable \<Rightarrow> hashtable_itr \<Rightarrow> int \<times> hashtable_itr" where
  "hashtable_iterator_advance h itr =
     (case it_e itr of
        None \<Rightarrow> (0, itr)
      | Some p \<Rightarrow>
          if Suc p < length (table h ! it_index itr)
          then (- 1, itr\<lparr>it_parent := Some p, it_e := Some (Suc p)\<rparr>)
          else next_bucket h itr)"

definition hashtable_iterator_remove ::
  "('k, 'v) hashtable \<Rightarrow> hashtable_itr \<Rightarrow> (int \<times> ('k, 'v) hashtable \<times> hashtable_itr) option" where
  \<comment> \<open>the entry is unlinked from the head of its chain or from its parent; its own \<^verbatim>\<open>next\<close> pointer survives and
      leads the advance, so that its successor takes over its position, with the old parent restored\<close>
  "hashtable_iterator_remove h itr = do {
     p \<leftarrow> it_e itr;
     let chain = table h ! it_index itr;
     let chain' = (case it_parent itr of None \<Rightarrow> drop (Suc p) chain
                   | Some q \<Rightarrow> take (Suc q) chain @ drop (Suc p) chain);
     let h' = h\<lparr>table := (table h)[it_index itr := chain'], entrycount := entrycount h - 1\<rparr>;
     if \<not> p < length chain then None
     else if Suc p < length chain then Some (- 1, h', itr)
     else case next_bucket h' itr of (rc, itr) \<Rightarrow> Some (rc, h', itr)
   }"

definition hashtable_iterator_search ::
  "('k, 'v) hashtable \<Rightarrow> 'k \<Rightarrow> hashtable_itr \<Rightarrow> int \<times> hashtable_itr" where
  "hashtable_iterator_search h k itr =
     (let hashvalue = hash h k; index = indexFor (tablelength h) hashvalue; chain = table h ! index;
          p = length (takeWhile (\<lambda>e. \<not> (hashvalue = e_h e \<and> eqfn h k (e_k e))) chain)
      in if p < length chain
         then (- 1, \<lparr>it_index = index, it_e = Some p, it_parent = (if p = 0 then None else Some (p - 1))\<rparr>)
         else (0, itr))"

section \<open>The map a table stands for\<close>

definition ht_entries :: "('k, 'v) hashtable \<Rightarrow> ('k, 'v) entry list" where
  "ht_entries h = concat (table h)"

definition ht_map :: "('k, 'v) hashtable \<Rightarrow> 'k \<Rightarrow> 'v option" where
  "ht_map h = map_of (map (\<lambda>e. (e_k e, e_v e)) (ht_entries h))"

definition bucketed :: "('k, 'v) entry list list \<Rightarrow> bool" where
  "bucketed t \<longleftrightarrow> (\<forall>i < length t. \<forall>e \<in> set (t ! i). indexFor (length t) (e_h e) = i)"

definition ht_wf :: "('k, 'v) hashtable \<Rightarrow> bool" where
  "ht_wf h \<longleftrightarrow>
     primeindex h < prime_table_length \<and> tablelength h = primes ! primeindex h \<and>
     length (table h) = tablelength h \<and> loadlimit h = load_limit (tablelength h) \<and>
     eqfn h = (=) \<and> entrycount h = length (ht_entries h) \<and>
     bucketed (table h) \<and> (\<forall>e \<in> set (ht_entries h). e_h e = hash h (e_k e)) \<and>
     distinct (map e_k (ht_entries h))"

lemma primes_pos: "i < prime_table_length \<Longrightarrow> 0 < primes ! i"
proof -
  assume "i < prime_table_length"
  then have "i < length primes" by (simp add: primes_def prime_table_length_def)
  moreover have "\<forall>p \<in> set primes. 0 < p" by (simp add: primes_def)
  ultimately show ?thesis using nth_mem by blast
qed

lemma ht_wf_length: "ht_wf h \<Longrightarrow> 0 < tablelength h" "ht_wf h \<Longrightarrow> length (table h) = tablelength h"
  by (simp_all add: ht_wf_def primes_pos)

lemma indexFor_less: "0 < n \<Longrightarrow> indexFor n w < n"
  by (simp add: indexFor_def)

lemma hash_cong: "hashfn h = hashfn h' \<Longrightarrow> hash h = hash h'"
  by (rule ext) (simp add: hash_def)

lemma mset_concat_update:
  "i < length t \<Longrightarrow> mset (concat (t[i := c])) + mset (t ! i) = mset (concat t) + mset c"
proof (induction t arbitrary: i)
  case (Cons a t)
  then show ?case by (cases i) (auto simp: ac_simps)
qed simp

lemma set_concat_nth: "i < length t \<Longrightarrow> set (t ! i) \<subseteq> set (concat t)"
  using nth_mem by fastforce

lemma distinct_keys_nth: "i < length t \<Longrightarrow> distinct (map f (concat t)) \<Longrightarrow> distinct (map f (t ! i))"
proof (induction t arbitrary: i)
  case (Cons a t)
  then show ?case by (cases i) auto
qed simp

lemma map_of_cong_mset:
  assumes "distinct (map fst xs)" and "mset xs = mset ys"
  shows "map_of xs = map_of ys"
proof -
  have "distinct (map fst ys)"
    using assms by (metis mset_eq_imp_distinct_iff mset_map)
  moreover have "set xs = set ys" using assms(2) by (rule mset_eq_setD)
  ultimately show ?thesis using assms(1) by (simp add: map_of_inject_set)
qed

lemma search_chain_map_of:
  "\<forall>e \<in> set c. e_h e = hash h (e_k e) \<Longrightarrow>
   search_chain (=) (hash h k) k c = map_of (map (\<lambda>e. (e_k e, e_v e)) c) k"
  by (induction c) auto

lemma map_fst_kv: "map fst (map (\<lambda>e. (e_k e, e_v e)) c) = map e_k c"
  by simp

lemma bucket_of_key:
  assumes "ht_wf h" and "e \<in> set (ht_entries h)"
  shows "e \<in> set (table h ! indexFor (tablelength h) (hash h (e_k e)))"
proof -
  from assms(2) obtain c where "c \<in> set (table h)" "e \<in> set c" by (auto simp: ht_entries_def)
  then obtain i where "i < length (table h)" "e \<in> set (table h ! i)" by (auto simp: in_set_conv_nth [of c])
  moreover from this assms(1) have "indexFor (length (table h)) (e_h e) = i"
    unfolding ht_wf_def bucketed_def by blast
  moreover from assms have "e_h e = hash h (e_k e)" unfolding ht_wf_def by blast
  ultimately show ?thesis using assms(1) by (simp add: ht_wf_length)
qed

lemma hashtable_search_map:
  assumes "ht_wf h"
  shows "hashtable_search h = ht_map h"
proof
  fix k
  let ?i = "indexFor (tablelength h) (hash h k)"
  let ?kv = "map (\<lambda>e. (e_k e, e_v e))"
  have i: "?i < length (table h)" using assms by (simp add: ht_wf_length indexFor_less)
  have d: "distinct (map e_k (concat (table h)))" using assms by (simp add: ht_wf_def ht_entries_def)
  have "\<forall>e \<in> set (table h ! ?i). e_h e = hash h (e_k e)"
    using assms set_concat_nth [OF i] by (auto simp: ht_wf_def ht_entries_def)
  then have s: "hashtable_search h k = map_of (?kv (table h ! ?i)) k"
    using assms search_chain_map_of [of "table h ! ?i" h k] by (simp add: hashtable_search_def Let_def ht_wf_def)
  have in_kv: "(k, v) \<in> set (?kv c) \<longleftrightarrow> (\<exists>e \<in> set c. e_k e = k \<and> e_v e = v)" for v and c :: "('a, 'b) entry list"
    by auto
  have mem: "map_of (?kv c) k = Some v \<longleftrightarrow> (\<exists>e \<in> set c. e_k e = k \<and> e_v e = v)"
    if "distinct (map e_k c)" for v and c :: "('a, 'b) entry list"
    using map_of_eq_Some_iff [of "?kv c" k v] that unfolding in_kv [symmetric] by (simp add: comp_def)
  have "(\<exists>e \<in> set (table h ! ?i). e_k e = k \<and> e_v e = v) \<longleftrightarrow> (\<exists>e \<in> set (concat (table h)). e_k e = k \<and> e_v e = v)" for v
  proof
    assume "\<exists>e \<in> set (table h ! ?i). e_k e = k \<and> e_v e = v"
    then show "\<exists>e \<in> set (concat (table h)). e_k e = k \<and> e_v e = v" using set_concat_nth [OF i] by blast
  next
    assume "\<exists>e \<in> set (concat (table h)). e_k e = k \<and> e_v e = v"
    then obtain e where "e \<in> set (ht_entries h)" "e_k e = k" "e_v e = v" by (auto simp: ht_entries_def)
    with bucket_of_key [OF assms, of e] show "\<exists>e \<in> set (table h ! ?i). e_k e = k \<and> e_v e = v" by blast
  qed
  then have "map_of (?kv (table h ! ?i)) k = Some v \<longleftrightarrow> map_of (?kv (concat (table h))) k = Some v" for v
    unfolding mem [OF d] mem [OF distinct_keys_nth [OF i d]] .
  then have "map_of (?kv (table h ! ?i)) k = map_of (?kv (concat (table h))) k"
    by (rule option_eqI)
  with s show "hashtable_search h k = ht_map h k" by (simp add: ht_map_def ht_entries_def)
qed

subsection \<open>Growth\<close>

lemma bucketed_replicate: "bucketed (replicate n [])"
  by (simp add: bucketed_def)

lemma move_chain_ok:
  assumes "0 < length new" and "bucketed new"
  shows "length (move_chain (length new) c new) = length new \<and> bucketed (move_chain (length new) c new) \<and>
    mset (concat (move_chain (length new) c new)) = mset c + mset (concat new)"
  using assms
proof (induction c arbitrary: new)
  case (Cons e c)
  let ?i = "indexFor (length new) (e_h e)"
  let ?new = "new[?i := e # new ! ?i]"
  have i: "?i < length new" using Cons.prems(1) by (rule indexFor_less)
  have b: "bucketed ?new" using Cons.prems(2) i by (auto simp: bucketed_def nth_list_update)
  have m: "mset (concat ?new) = add_mset e (mset (concat new))"
    using mset_concat_update [OF i, of "e # new ! ?i"] by simp
  from Cons.IH [of ?new] Cons.prems(1) b m show ?case by (simp add: Let_def)
qed simp

lemma move_all_ok:
  assumes "0 < length new" and "bucketed new"
  shows "length (move_all (length new) t new) = length new \<and> bucketed (move_all (length new) t new) \<and>
    mset (concat (move_all (length new) t new)) = mset (concat t) + mset (concat new)"
  using assms
proof (induction t arbitrary: new)
  case (Cons c t)
  let ?new = "move_chain (length new) c new"
  from move_chain_ok [OF Cons.prems, of c] have
    "length ?new = length new" "bucketed ?new" "mset (concat ?new) = mset c + mset (concat new)" by auto
  with Cons.IH [of ?new] Cons.prems(1) show ?case by simp
qed simp

lemma ht_wf_transfer:
  \<comment> \<open>the part of the invariant that depends on the entries only up to their order\<close>
  assumes "mset (ht_entries h') = mset (ht_entries h)" and "distinct (map e_k (ht_entries h))"
  shows "distinct (map e_k (ht_entries h'))" and "ht_map h' = ht_map h"
    and "set (ht_entries h') = set (ht_entries h)" and "length (ht_entries h') = length (ht_entries h)"
proof -
  let ?kv = "\<lambda>e :: ('a, 'b) entry. (e_k e, e_v e)"
  show "distinct (map e_k (ht_entries h'))"
    using assms by (metis mset_eq_imp_distinct_iff mset_map)
  show "set (ht_entries h') = set (ht_entries h)" "length (ht_entries h') = length (ht_entries h)"
    using assms(1) mset_eq_setD mset_eq_length by blast+
  have "mset (map ?kv (ht_entries h)) = mset (map ?kv (ht_entries h'))" using assms(1) by simp
  then show "ht_map h' = ht_map h"
    unfolding ht_map_def using assms(2)
    by (intro map_of_cong_mset [symmetric]) (simp_all add: comp_def)
qed

definition ht_same :: "('k, 'v) hashtable \<Rightarrow> ('k, 'v) hashtable \<Rightarrow> bool" where
  \<comment> \<open>the same entries, in another arrangement\<close>
  "ht_same h h' \<longleftrightarrow> mset (ht_entries h') = mset (ht_entries h) \<and> entrycount h' = entrycount h \<and>
     hashfn h' = hashfn h \<and> eqfn h' = eqfn h"

lemma hashtable_expand_cases:
  assumes "hashtable_expand E h = Some (rc, h')"
    and "primeindex h < prime_table_length" and "bucketed (table h)" and "length (table h) = tablelength h"
    and "tablelength h = primes ! primeindex h" and "loadlimit h = load_limit (tablelength h)"
  shows "ht_same h h' \<and> primeindex h' < prime_table_length \<and> bucketed (table h') \<and>
    length (table h') = tablelength h' \<and> tablelength h' = primes ! primeindex h' \<and>
    loadlimit h' = load_limit (tablelength h')"
proof (cases "h' = h")
  case True
  then show ?thesis using assms by (simp add: ht_same_def)
next
  case False
  let ?n = "primes ! Suc (primeindex h)"
  have p: "Suc (primeindex h) < prime_table_length"
    and h': "h' = h\<lparr>primeindex := Suc (primeindex h), table := move_all ?n (table h) (replicate ?n []),
               tablelength := ?n, loadlimit := load_limit ?n\<rparr>"
    using assms(1,2) False by (auto simp: hashtable_expand_def Let_def split: if_splits)
  have "0 < ?n" using p by (rule primes_pos)
  then have "length (move_all ?n (table h) (replicate ?n [])) = ?n \<and> bucketed (move_all ?n (table h) (replicate ?n [])) \<and>
      mset (concat (move_all ?n (table h) (replicate ?n []))) = mset (concat (table h))"
    using move_all_ok [of "replicate ?n []" "table h"] bucketed_replicate by fastforce
  with p show ?thesis by (simp add: h' ht_same_def ht_entries_def)
qed

subsection \<open>Insert and remove\<close>

lemma hash_same [simp]:
  "hash (h\<lparr>table := t\<rparr>) = hash h" "hash (h\<lparr>entrycount := n\<rparr>) = hash h"
  by (auto intro: hash_cong)

lemma make_room_cases:
  assumes "ht_wf h" and "make_room E h = Some (rc, h')"
  shows "ht_same (h\<lparr>entrycount := entrycount h + 1\<rparr>) h' \<and> primeindex h' < prime_table_length \<and>
    bucketed (table h') \<and> length (table h') = tablelength h' \<and> tablelength h' = primes ! primeindex h' \<and>
    loadlimit h' = load_limit (tablelength h')"
proof (cases "entrycount h + 1 > loadlimit h")
  case True
  with assms(2) have "hashtable_expand E (h\<lparr>entrycount := entrycount h + 1\<rparr>) = Some (rc, h')"
    by (simp add: make_room_def)
  then show ?thesis by (rule hashtable_expand_cases) (use assms(1) in \<open>simp_all add: ht_wf_def\<close>)
next
  case False
  with assms show ?thesis by (auto simp: make_room_def ht_same_def ht_wf_def)
qed

lemma hashtable_insert_new:
  assumes "ht_wf h" and "ht_map h k = None" and "hashtable_insert E h k v = Some (rc, h')"
  shows "ht_wf h' \<and> hashfn h' = hashfn h \<and>
    (rc = - 1 \<and> ht_map h' = (ht_map h)(k \<mapsto> v) \<or> rc = 0 \<and> ht_map h' = ht_map h)"
proof -
  obtain rc1 h1 where 1: "make_room E h = Some (rc1, h1)"
    using assms(3) by (auto simp: hashtable_insert_def bind_eq_Some_conv)
  have wf: "distinct (map e_k (ht_entries h))" "\<forall>e \<in> set (ht_entries h). e_h e = hash h (e_k e)"
    "eqfn h = (=)" "entrycount h = length (ht_entries h)" using assms(1) by (simp_all add: ht_wf_def)
  have s: "ht_same (h\<lparr>entrycount := entrycount h + 1\<rparr>) h1 \<and> primeindex h1 < prime_table_length \<and> bucketed (table h1) \<and>
    length (table h1) = tablelength h1 \<and> tablelength h1 = primes ! primeindex h1 \<and>
    loadlimit h1 = load_limit (tablelength h1)"
    using assms(1) 1 by (rule make_room_cases)
  have e: "ht_entries (h\<lparr>entrycount := entrycount h + 1\<rparr>) = ht_entries h" by (simp add: ht_entries_def)
  with s have fn: "hashfn h1 = hashfn h" "eqfn h1 = (=)" "entrycount h1 = length (ht_entries h) + 1"
    and ms: "mset (ht_entries h1) = mset (ht_entries h)" using wf e by (auto simp: ht_same_def)
  note tr = ht_wf_transfer [OF ms wf(1)]
  have hh: "hash h1 = hash h" using fn(1) by (rule hash_cong)
  have pos: "0 < tablelength h1" using s primes_pos by auto
  define i where "i = indexFor (tablelength h1) (hash h k)"
  define en where "en = \<lparr>e_k = k, e_v = v, e_h = hash h k\<rparr>"
  have i: "i < length (table h1)" using s pos by (simp add: i_def indexFor_less)
  show ?thesis
  proof (cases "grants E 32")
    case False
    then have "h' = h1\<lparr>entrycount := entrycount h1 - 1\<rparr>" "rc = 0"
      using assms(3) 1 by (auto simp: hashtable_insert_def Let_def)
    then show ?thesis
      using s fn tr wf hh by (auto simp: ht_wf_def ht_map_def ht_entries_def)
  next
    case True
    define t where "t = (table h1)[i := en # table h1 ! i]"
    have h': "h' = h1\<lparr>table := t\<rparr>" "rc = - 1"
      using True assms(3) 1 by (auto simp: hashtable_insert_def Let_def hh t_def en_def i_def)
    have m: "mset (ht_entries h') = add_mset en (mset (ht_entries h))"
      using mset_concat_update [OF i, of "en # table h1 ! i"] ms by (simp add: h' t_def ht_entries_def)
    have fresh: "k \<notin> e_k ` set (ht_entries h)"
      using assms(2) by (force simp: ht_map_def map_of_eq_None_iff)
    have "mset (map e_k (ht_entries h')) = mset (k # map e_k (ht_entries h))" using m by (simp add: en_def)
    then have d: "distinct (map e_k (ht_entries h'))"
      using mset_eq_imp_distinct_iff [of "map e_k (ht_entries h')" "k # map e_k (ht_entries h)"] wf(1) fresh by simp
    have "set (ht_entries h') = insert en (set (ht_entries h))" using m by (metis set_mset_add_mset_insert set_mset_mset)
    then have eh: "\<forall>e \<in> set (ht_entries h'). e_h e = hash h (e_k e)" using wf(2) by (simp add: en_def)
    have b: "bucketed t" using s i by (auto simp: t_def bucketed_def nth_list_update en_def i_def)
    have c: "entrycount h' = length (ht_entries h')" using fn(3) arg_cong [OF m, of size] by (simp add: h')
    have wf': "ht_wf h'"
      using s fn d eh b c hh by (simp add: ht_wf_def h' t_def hash_cong [of "h1\<lparr>table := _\<rparr>" h])
    have "ht_map h' = map_of ((k, v) # map (\<lambda>e. (e_k e, e_v e)) (ht_entries h))"
      unfolding ht_map_def using d m by (intro map_of_cong_mset) (simp_all add: comp_def en_def)
    then show ?thesis using wf' fn h' by (simp add: ht_map_def)
  qed
qed

lemma remove_chain_split:
  "remove_chain eq hv k c = Some (v, c') \<Longrightarrow>
   \<exists>xs e ys. c = xs @ e # ys \<and> c' = xs @ ys \<and> e_v e = v \<and> eq k (e_k e) \<and> e_h e = hv"
proof (induction c arbitrary: c')
  case (Cons a c)
  show ?case
  proof (cases "hv = e_h a \<and> eq k (e_k a)")
    case True
    with Cons.prems show ?thesis by (intro exI [of _ "[]"] exI [of _ a] exI [of _ c]) auto
  next
    case False
    with Cons.prems obtain c'' where "remove_chain eq hv k c = Some (v, c'')" "c' = a # c''"
      by (auto split: if_splits)
    with Cons.IH obtain xs e ys where "c = xs @ e # ys" "c' = (a # xs) @ ys" "e_v e = v" "eq k (e_k e)" "e_h e = hv"
      by fastforce
    then show ?thesis by (intro exI [of _ "a # xs"]) auto
  qed
qed simp

lemma remove_chain_None: "remove_chain eq hv k c = None \<longleftrightarrow> search_chain eq hv k c = None"
  by (induction c) auto

lemma hashtable_remove_map:
  assumes "ht_wf h" and "hashtable_remove h k = (r, h')"
  shows "ht_wf h' \<and> hashfn h' = hashfn h \<and> r = ht_map h k \<and> ht_map h' = (ht_map h)(k := None)"
proof (cases "remove_chain (eqfn h) (hash h k) k (table h ! indexFor (tablelength h) (hash h k))")
  case None
  then have "hashtable_search h k = None" by (simp add: hashtable_search_def Let_def remove_chain_None)
  with None assms hashtable_search_map [OF assms(1)] show ?thesis
    by (auto simp: hashtable_remove_def Let_def)
next
  case (Some vc)
  define i where "i = indexFor (tablelength h) (hash h k)"
  obtain v c where vc: "vc = (v, c)" by (cases vc)
  have i: "i < length (table h)" using assms by (simp add: ht_wf_length indexFor_less i_def)
  have wf: "distinct (map e_k (ht_entries h))" "\<forall>e \<in> set (ht_entries h). e_h e = hash h (e_k e)"
    "eqfn h = (=)" "entrycount h = length (ht_entries h)" "bucketed (table h)" using assms(1) by (simp_all add: ht_wf_def)
  from remove_chain_split [OF Some [unfolded vc]] obtain xs e ys where
    ch: "table h ! i = xs @ e # ys" "c = xs @ ys" "e_v e = v" "e_k e = k"
    by (auto simp: wf(3) i_def)
  have h': "h' = h\<lparr>table := (table h)[i := c], entrycount := entrycount h - 1\<rparr>" "r = Some v"
    using assms(2) Some vc by (simp_all add: hashtable_remove_def Let_def i_def)
  have m: "mset (ht_entries h) = add_mset e (mset (ht_entries h'))"
    using mset_concat_update [OF i, of c] by (simp add: h' ht_entries_def ch)
  have "mset (map e_k (ht_entries h)) = mset (k # map e_k (ht_entries h'))" using m ch(4) by simp
  then have d: "distinct (k # map e_k (ht_entries h'))"
    using wf(1) mset_eq_imp_distinct_iff by blast
  have st: "set (ht_entries h) = insert e (set (ht_entries h'))" using m by (metis set_mset_add_mset_insert set_mset_mset)
  have "bucketed ((table h)[i := c])" using wf(5) i ch(1,2) by (auto simp: bucketed_def nth_list_update)
  moreover have "entrycount h' = length (ht_entries h')" using wf(4) arg_cong [OF m, of size] by (simp add: h')
  ultimately have "ht_wf h'"
    using assms(1) d wf st by (simp add: ht_wf_def h' hash_cong [of "h\<lparr>table := _, entrycount := _\<rparr>" h])
  moreover have mp: "ht_map h = map_of ((k, v) # map (\<lambda>e. (e_k e, e_v e)) (ht_entries h'))"
    unfolding ht_map_def using wf(1) m ch by (intro map_of_cong_mset) (simp_all add: comp_def)
  moreover have "ht_map h' k = None" using d by (force simp: ht_map_def map_of_eq_None_iff)
  ultimately show ?thesis using h' by (auto simp: ht_map_def)
qed

lemma hashtable_insert_returns:
  assumes "\<And>n. extends E n \<Longrightarrow> grants E n"
  shows "\<exists>rc h'. hashtable_insert E h k v = Some (rc, h')"
proof -
  have "\<exists>rc h'. hashtable_expand E g = Some (rc, h')" for g :: "('a, 'b) hashtable"
    using assms by (auto simp: hashtable_expand_def Let_def)
  then have "\<exists>rc h'. make_room E h = Some (rc, h')" by (simp add: make_room_def Let_def)
  then show ?thesis by (auto simp: hashtable_insert_def Let_def)
qed

subsection \<open>Writing through a value pointer\<close>

definition set_value :: "'k \<Rightarrow> 'v \<Rightarrow> ('k, 'v) entry \<Rightarrow> ('k, 'v) entry" where
  "set_value k v e = (if e_k e = k then e\<lparr>e_v := v\<rparr> else e)"

lemma set_value_key [simp]: "e_k (set_value k v e) = e_k e" "e_h (set_value k v e) = e_h e"
  by (simp_all add: set_value_def)

lemma store_chain_map:
  assumes "\<forall>e \<in> set c. e_h e = hash h (e_k e)" and "distinct (map e_k c)"
  shows "store_chain (=) (hash h k) k v c = map (set_value k v) c"
  using assms
proof (induction c)
  case (Cons e c)
  have "k \<notin> e_k ` set c \<Longrightarrow> map (set_value k v) c = c" by (rule map_idI) (auto simp: set_value_def)
  with Cons show ?case by (cases "e_k e = k") (auto simp: set_value_def [of k v e])
qed simp

lemma hashtable_store_table:
  assumes "ht_wf h"
  shows "table (hashtable_store h k v) = map (map (set_value k v)) (table h)"
proof (rule nth_equalityI)
  let ?i = "indexFor (tablelength h) (hash h k)"
  have i: "?i < length (table h)" using assms by (simp add: ht_wf_length indexFor_less)
  have eh: "\<forall>e \<in> set (ht_entries h). e_h e = hash h (e_k e)" and d: "distinct (map e_k (concat (table h)))"
    and eq: "eqfn h = (=)" using assms by (simp_all add: ht_wf_def ht_entries_def)
  show "length (table (hashtable_store h k v)) = length (map (map (set_value k v)) (table h))"
    by (simp add: hashtable_store_def Let_def)
  fix j assume "j < length (table (hashtable_store h k v))"
  then have j: "j < length (table h)" by (simp add: hashtable_store_def Let_def)
  have here: "\<forall>e \<in> set (table h ! j). e_h e = hash h (e_k e)"
    using eh set_concat_nth [OF j] by (auto simp: ht_entries_def)
  show "table (hashtable_store h k v) ! j = map (map (set_value k v)) (table h) ! j"
  proof (cases "j = ?i")
    case True
    with i store_chain_map [OF here distinct_keys_nth [OF j d]] show ?thesis
      by (simp add: hashtable_store_def Let_def eq)
  next
    case False
    have "e_k e \<noteq> k" if "e \<in> set (table h ! j)" for e
    proof
      assume k: "e_k e = k"
      have "indexFor (length (table h)) (e_h e) = j"
        using assms j that unfolding ht_wf_def bucketed_def by blast
      with False k here that assms show False by (simp add: ht_wf_length)
    qed
    then have "map (set_value k v) (table h ! j) = table h ! j" by (auto intro!: map_idI simp: set_value_def)
    with False j show ?thesis by (simp add: hashtable_store_def Let_def)
  qed
qed

lemma map_of_set_value:
  "k \<in> e_k ` set es \<Longrightarrow>
   map_of (map (\<lambda>e. (e_k e, e_v e)) (map (set_value k v) es)) = (map_of (map (\<lambda>e. (e_k e, e_v e)) es))(k \<mapsto> v)"
proof -
  have "map_of (map (\<lambda>e. (e_k e, e_v e)) (map (set_value k v) es)) =
      (\<lambda>x. if x = k \<and> k \<in> e_k ` set es then Some v else map_of (map (\<lambda>e. (e_k e, e_v e)) es) x)"
    by (induction es) (auto simp: set_value_def)
  then show "k \<in> e_k ` set es \<Longrightarrow> ?thesis" by auto
qed

lemma hashtable_store_map:
  assumes "ht_wf h" and "ht_map h k = Some v0"
  shows "ht_wf (hashtable_store h k v) \<and> ht_map (hashtable_store h k v) = (ht_map h)(k \<mapsto> v) \<and>
    hashfn (hashtable_store h k v) = hashfn h"
proof -
  let ?g = "hashtable_store h k v"
  have fields: "primeindex ?g = primeindex h" "tablelength ?g = tablelength h" "loadlimit ?g = loadlimit h"
    "eqfn ?g = eqfn h" "entrycount ?g = entrycount h" "hashfn ?g = hashfn h"
    by (simp_all add: hashtable_store_def Let_def)
  have en: "ht_entries ?g = map (set_value k v) (ht_entries h)"
    using hashtable_store_table [OF assms(1)] by (simp add: ht_entries_def map_concat)
  have "bucketed (table ?g)"
    using assms(1) hashtable_store_table [OF assms(1), of k v] by (auto simp: ht_wf_def bucketed_def)
  moreover have "k \<in> e_k ` set (ht_entries h)"
    using assms(2) by (force simp: ht_map_def dest: map_of_SomeD)
  ultimately show ?thesis
    using assms(1) fields en hashtable_store_table [OF assms(1), of k v] map_of_set_value [of k "ht_entries h" v]
    by (simp add: ht_wf_def ht_map_def hash_cong [of ?g h] comp_def)
qed

section \<open>Iteration\<close>

definition itr_rest :: "('k, 'v) hashtable \<Rightarrow> hashtable_itr \<Rightarrow> ('k, 'v) entry list" where
  \<comment> \<open>the entries from the iterator's position on\<close>
  "itr_rest h itr =
     (case it_e itr of None \<Rightarrow> []
      | Some p \<Rightarrow> drop p (table h ! it_index itr) @ concat (drop (Suc (it_index itr)) (table h)))"

definition itr_wf :: "('k, 'v) hashtable \<Rightarrow> hashtable_itr \<Rightarrow> bool" where
  "itr_wf h itr \<longleftrightarrow> length (table h) = tablelength h \<and>
     (case it_e itr of None \<Rightarrow> True
      | Some p \<Rightarrow> it_index itr < tablelength h \<and> p < length (table h ! it_index itr) \<and>
          it_parent itr = (if p = 0 then None else Some (p - 1)))"

lemma first_bucket_None: "first_bucket cs i = None \<longleftrightarrow> concat cs = []"
  by (induction cs arbitrary: i) auto

lemma first_bucket_Some:
  "first_bucket cs i = Some j \<Longrightarrow>
   i \<le> j \<and> j - i < length cs \<and> cs ! (j - i) \<noteq> [] \<and> concat cs = cs ! (j - i) @ concat (drop (Suc (j - i)) cs)"
proof (induction cs arbitrary: i)
  case (Cons c cs)
  show ?case
  proof (cases "c = []")
    case True
    with Cons.prems have "first_bucket cs (Suc i) = Some j" by simp
    with Cons.IH have "Suc i \<le> j \<and> j - Suc i < length cs \<and> cs ! (j - Suc i) \<noteq> [] \<and>
        concat cs = cs ! (j - Suc i) @ concat (drop (Suc (j - Suc i)) cs)" by blast
    moreover from this have "j - i = Suc (j - Suc i)" by linarith
    ultimately show ?thesis using True by simp
  next
    case False
    with Cons.prems show ?thesis by auto
  qed
qed simp

lemma first_bucket_drop:
  assumes "first_bucket (drop i t) i = Some j"
  shows "i \<le> j" and "j < length t" and "t ! j \<noteq> []"
    and "concat (drop i t) = t ! j @ concat (drop (Suc j) t)"
proof -
  note fb = first_bucket_Some [OF assms]
  then obtain d where j: "j = i + d" using le_Suc_ex by blast
  from fb show "i \<le> j" "j < length t" "t ! j \<noteq> []" "concat (drop i t) = t ! j @ concat (drop (Suc j) t)"
    by (auto simp: j add.commute less_diff_conv)
qed

lemma hashtable_iterator_returns: "grants E 32 \<Longrightarrow> \<exists>itr. hashtable_iterator E h = Some itr"
  by (cases "first_bucket (take (tablelength h) (table h)) 0") (simp_all add: hashtable_iterator_def Let_def)

lemma hashtable_iterator_starts:
  assumes "ht_wf h" and "hashtable_iterator E h = Some itr"
  shows "itr_wf h itr \<and> itr_rest h itr = ht_entries h"
proof (cases "entrycount h = 0")
  case True
  then show ?thesis
    using assms by (auto simp: hashtable_iterator_def Let_def itr_wf_def itr_rest_def ht_wf_def split: if_splits)
next
  case False
  note len = ht_wf_length [OF assms(1)]
  show ?thesis
  proof (cases "first_bucket (table h) 0")
    case None
    with False assms show ?thesis
      by (simp add: ht_wf_def first_bucket_None ht_entries_def)
  next
    case (Some i)
    with False assms(2) len have "itr = \<lparr>it_index = i, it_e = Some 0, it_parent = None\<rparr>"
      by (simp add: hashtable_iterator_def Let_def split: if_splits)
    with first_bucket_Some [OF Some] len show ?thesis
      by (simp add: itr_wf_def itr_rest_def ht_entries_def)
  qed
qed

lemma next_bucket_ok:
  assumes "length (table h) = tablelength h" and "it_index itr < tablelength h"
  shows "case next_bucket h itr of (rc, itr') \<Rightarrow>
    itr_wf h itr' \<and> itr_rest h itr' = concat (drop (Suc (it_index itr)) (table h)) \<and>
    (rc = 0 \<longleftrightarrow> itr_rest h itr' = [])"
proof (cases "tablelength h \<le> Suc (it_index itr)")
  case True
  then show ?thesis using assms by (simp add: next_bucket_def Let_def itr_wf_def itr_rest_def)
next
  case False
  let ?j = "Suc (it_index itr)"
  have t: "take (tablelength h) (table h) = table h" using assms(1) by simp
  show ?thesis
  proof (cases "first_bucket (drop ?j (table h)) ?j")
    case None
    moreover from this have "concat (drop ?j (table h)) = []" by (simp only: first_bucket_None)
    ultimately show ?thesis
      using False assms by (simp add: next_bucket_def Let_def itr_wf_def itr_rest_def t)
  next
    case (Some j)
    with first_bucket_drop [OF Some] False assms show ?thesis
      by (simp add: next_bucket_def Let_def itr_wf_def itr_rest_def t)
  qed
qed

lemma itr_rest_Cons:
  assumes "itr_wf h itr" and "it_e itr = Some p"
  shows "itr_rest h itr = table h ! it_index itr ! p #
      drop (Suc p) (table h ! it_index itr) @ concat (drop (Suc (it_index itr)) (table h))"
    and "itr_entry h itr = Some (table h ! it_index itr ! p)"
  using assms by (simp_all add: itr_wf_def itr_rest_def itr_entry_def Cons_nth_drop_Suc [symmetric])

lemma hashtable_iterator_advance_ok:
  assumes "itr_wf h itr" and "itr_rest h itr = e # es" and "hashtable_iterator_advance h itr = (rc, itr')"
  shows "itr_entry h itr = Some e \<and> itr_wf h itr' \<and> itr_rest h itr' = es \<and> (rc = 0 \<longleftrightarrow> es = [])"
proof -
  from assms(2) obtain p where p: "it_e itr = Some p" by (auto simp: itr_rest_def split: option.splits)
  note rest = itr_rest_Cons [OF assms(1) p]
  have es: "es = drop (Suc p) (table h ! it_index itr) @ concat (drop (Suc (it_index itr)) (table h))"
    and e: "itr_entry h itr = Some e" using rest assms(2) by simp_all
  show ?thesis
  proof (cases "Suc p < length (table h ! it_index itr)")
    case True
    with p assms(1,3) have "itr' = itr\<lparr>it_parent := Some p, it_e := Some (Suc p)\<rparr>" "rc = - 1"
      by (simp_all add: hashtable_iterator_advance_def)
    with True assms(1) p e es show ?thesis by (simp add: itr_wf_def itr_rest_def)
  next
    case False
    with p assms(3) have "next_bucket h itr = (rc, itr')" by (simp add: hashtable_iterator_advance_def)
    with next_bucket_ok [of h itr] assms(1) p False e es show ?thesis by (simp add: itr_wf_def)
  qed
qed

lemma hashtable_iterator_remove_ok:
  assumes "itr_wf h itr" and "itr_rest h itr = e # es" and "ht_wf h"
  shows "\<exists>rc h' itr' pre. hashtable_iterator_remove h itr = Some (rc, h', itr') \<and> ht_wf h' \<and> itr_wf h' itr' \<and>
    itr_rest h' itr' = es \<and> (rc = 0 \<longleftrightarrow> es = []) \<and> ht_entries h = pre @ e # es \<and> ht_entries h' = pre @ es \<and>
    hashfn h' = hashfn h"
proof -
  from assms(2) obtain p where p: "it_e itr = Some p" by (auto simp: itr_rest_def split: option.splits)
  define i where "i = it_index itr"
  define chain where "chain = table h ! i"
  define chain' where "chain' = take p chain @ drop (Suc p) chain"
  define h' where "h' = h\<lparr>table := (table h)[i := chain'], entrycount := entrycount h - 1\<rparr>"
  define pre where "pre = concat (take i (table h)) @ take p chain"
  have w: "length (table h) = tablelength h" "i < length (table h)" "p < length chain"
    "it_parent itr = (if p = 0 then None else Some (p - 1))"
    using assms(1) p by (auto simp: itr_wf_def i_def chain_def)
  have e: "e = chain ! p" and es: "es = drop (Suc p) chain @ concat (drop (Suc i) (table h))"
    using itr_rest_Cons [OF assms(1) p] assms(2) by (simp_all add: i_def chain_def)
  have t: "table h = take i (table h) @ chain # drop (Suc i) (table h)"
    using w(2) by (simp add: chain_def id_take_nth_drop)
  have t': "table h' = take i (table h) @ chain' # drop (Suc i) (table h)"
    using w(2) by (simp add: h'_def upd_conv_take_nth_drop)
  have c: "chain = take p chain @ e # drop (Suc p) chain" unfolding e using w(3) by (rule id_take_nth_drop)
  have "ht_entries h = concat (take i (table h)) @ chain @ concat (drop (Suc i) (table h))"
    using arg_cong [OF t, of concat] by (simp add: ht_entries_def)
  also have "\<dots> = concat (take i (table h)) @ (take p chain @ e # drop (Suc p) chain) @ concat (drop (Suc i) (table h))"
    using c by simp
  finally have ent: "ht_entries h = pre @ e # es" by (simp add: pre_def es)
  have ent': "ht_entries h' = pre @ es"
    using arg_cong [OF t', of concat] by (simp add: ht_entries_def pre_def es chain'_def)
  have ch': "(case it_parent itr of None \<Rightarrow> drop (Suc p) chain | Some q \<Rightarrow> take (Suc q) chain @ drop (Suc p) chain) = chain'"
    using w(4) by (simp add: chain'_def)
  have b: "bucketed (table h')"
    using assms(3) w(2) by (auto simp: ht_wf_def bucketed_def h'_def nth_list_update chain'_def chain_def
        dest: in_set_takeD in_set_dropD)
  have wf': "ht_wf h'"
    using assms(3) ent ent' b by (auto simp: ht_wf_def h'_def hash_cong [of "h\<lparr>table := _, entrycount := _\<rparr>" h])
  have rm: "hashtable_iterator_remove h itr =
     (if Suc p < length chain then Some (- 1, h', itr) else case next_bucket h' itr of (rc, itr) \<Rightarrow> Some (rc, h', itr))"
    using p w(3) ch' by (simp add: hashtable_iterator_remove_def Let_def h'_def flip: i_def chain_def)
  show ?thesis
  proof (cases "Suc p < length chain")
    case True
    have "itr_wf h' itr" "itr_rest h' itr = es"
      using True p w by (simp_all add: itr_wf_def itr_rest_def h'_def chain'_def es flip: i_def)
    moreover have "es \<noteq> []" using True by (simp add: es)
    ultimately show ?thesis using rm True wf' ent ent' by (auto simp: h'_def)
  next
    case False
    obtain rc itr' where n: "next_bucket h' itr = (rc, itr')" by fastforce
    have "concat (drop (Suc i) (table h')) = es" using False by (simp add: es h'_def)
    with next_bucket_ok [of h' itr] w n have "itr_wf h' itr'" "itr_rest h' itr' = es" "rc = 0 \<longleftrightarrow> es = []"
      by (simp_all add: h'_def flip: i_def)
    with rm False n wf' ent ent' show ?thesis by (auto simp: h'_def)
  qed
qed

section \<open>The interface of a table\<close>

text \<open>
  What the watcher tables rely on: a lookup after an insertion, a removal or a write through a value pointer.
\<close>

locale map_table =
  fixes inv :: "'t \<Rightarrow> bool"
    and lookup :: "'t \<Rightarrow> 'k \<Rightarrow> 'v option"
    and ins :: "'t \<Rightarrow> 'k \<Rightarrow> 'v \<Rightarrow> (int \<times> 't) option"
    and rem :: "'t \<Rightarrow> 'k \<Rightarrow> 'v option \<times> 't"
    and store :: "'t \<Rightarrow> 'k \<Rightarrow> 'v \<Rightarrow> 't"
  assumes ins_law: "inv t \<Longrightarrow> lookup t k = None \<Longrightarrow> ins t k v = Some (rc, t') \<Longrightarrow>
      inv t' \<and> (rc \<noteq> 0 \<and> lookup t' = (lookup t)(k \<mapsto> v) \<or> rc = 0 \<and> lookup t' = lookup t)"
    and rem_law: "inv t \<Longrightarrow> rem t k = (r, t') \<Longrightarrow> inv t' \<and> r = lookup t k \<and> lookup t' = (lookup t)(k := None)"
    and store_law: "inv t \<Longrightarrow> lookup t k = Some v0 \<Longrightarrow> inv (store t k v) \<and> lookup (store t k v) = (lookup t)(k \<mapsto> v)"
begin

lemma ins_lookup:
  assumes "inv t" and "lookup t k = None" and "ins t k v = Some (rc, t')" and "rc \<noteq> 0"
  shows "lookup t' k' = (if k' = k then Some v else lookup t k')"
  using ins_law [OF assms(1-3)] assms(4) by auto

lemma ins_rem:
  \<comment> \<open>removing what was just inserted gives it back and restores the map\<close>
  assumes "inv t" and "lookup t k = None" and "ins t k v = Some (rc, t')" and "rc \<noteq> 0" and "rem t' k = (r, t'')"
  shows "r = Some v \<and> lookup t'' = lookup t"
  using ins_law [OF assms(1-3)] rem_law [of t' k r t''] assms(2,4,5) by auto

lemma rem_lookup:
  assumes "inv t" and "rem t k = (r, t')"
  shows "r = lookup t k" and "lookup t' k' = (if k' = k then None else lookup t k')" and "inv t'"
  using rem_law [OF assms] by auto

lemma rem_twice:
  assumes "inv t" and "rem t k = (r, t')" and "rem t' k = (r', t'')"
  shows "r' = None \<and> lookup t'' = lookup t'"
  using rem_law [OF assms(1,2)] rem_law [of t' k r' t''] assms(3) by auto

end

interpretation ht: map_table ht_wf hashtable_search "hashtable_insert E" hashtable_remove hashtable_store for E
proof unfold_locales
  fix t :: "('a, 'b) hashtable" and k v rc t'
  assume "ht_wf t" "hashtable_search t k = None" "hashtable_insert E t k v = Some (rc, t')"
  moreover from this have "ht_map t k = None" by (simp add: hashtable_search_map)
  ultimately show "ht_wf t' \<and> (rc \<noteq> 0 \<and> hashtable_search t' = (hashtable_search t)(k \<mapsto> v) \<or>
      rc = 0 \<and> hashtable_search t' = hashtable_search t)"
    using hashtable_insert_new [of t k E v rc t'] by (auto simp: hashtable_search_map)
next
  fix t :: "('a, 'b) hashtable" and k r t'
  assume "ht_wf t" "hashtable_remove t k = (r, t')"
  with hashtable_remove_map [OF this] show "ht_wf t' \<and> r = hashtable_search t k \<and>
      hashtable_search t' = (hashtable_search t)(k := None)"
    by (simp add: hashtable_search_map)
next
  fix t :: "('a, 'b) hashtable" and k v0 v
  assume "ht_wf t" "hashtable_search t k = Some v0"
  with hashtable_store_map [of t k v0 v] show "ht_wf (hashtable_store t k v) \<and>
      hashtable_search (hashtable_store t k v) = (hashtable_search t)(k \<mapsto> v)"
    by (simp add: hashtable_search_map)
qed

lemma create_hashtable_empty:
  assumes "create_hashtable E 32 hf (=) = Some h"
  shows "ht_wf h \<and> (\<forall>k. hashtable_search h k = None) \<and> hashfn h = hf \<and> ht_entries h = []"
proof -
  have h: "h = \<lparr>tablelength = 53, table = replicate 53 [], entrycount = 0, loadlimit = load_limit 53,
      primeindex = 0, hashfn = hf, eqfn = (=)\<rparr>"
    using assms by (simp add: create_hashtable_def primes_def Let_def split: if_splits)
  have "ht_wf h"
    by (simp add: h ht_wf_def prime_table_length_def primes_def ht_entries_def bucketed_def)
  moreover have "ht_map h = (\<lambda>_. None)" "ht_entries h = []" by (simp_all add: h ht_map_def ht_entries_def)
  ultimately show ?thesis by (simp add: hashtable_search_map h)
qed

section \<open>Properties\<close>

definition must_grow :: "('k, 'v) hashtable \<Rightarrow> bool" where
  \<comment> \<open>the next entry passes the load limit, and there is a larger size\<close>
  "must_grow h \<longleftrightarrow> loadlimit h \<le> entrycount h \<and> primeindex h < prime_table_length - 1"

definition next_size :: "('k, 'v) hashtable \<Rightarrow> nat" where
  "next_size h = primes ! Suc (primeindex h)"

lemma hashtable_insert_runs:
  assumes "ht_wf h"
  shows "if must_grow h \<and> \<not> grants E (8 * int (next_size h)) \<and> extends E (8 * int (next_size h)) then hashtable_insert E h k v = None
    else \<exists>h'. hashtable_insert E h k v = Some (if grants E 32 then - 1 else 0, h') \<and>
      tablelength h' = (if must_grow h \<and> grants E (8 * int (next_size h)) then next_size h else tablelength h) \<and>
      entrycount h' = entrycount h + (if grants E 32 then 1 else 0)"
proof -
  have "primeindex h \<le> prime_table_length - 1" using assms by (simp add: ht_wf_def prime_table_length_def)
  then show ?thesis
    by (auto simp: hashtable_insert_def make_room_def hashtable_expand_def must_grow_def next_size_def Let_def prime_table_length_def)
qed

text \<open>
  (C39) Inserting a key that is not in the table. The result is non-zero exactly when the allocator grants the entry: then the table maps
  the key to the value, counts one entry more, and maps every other key as before; otherwise nothing is mapped otherwise than before.
  The invariant (entries in their buckets, keys distinct, the count exact) is kept. An insertion that passes the load limit takes the
  table to its next size when the allocator grants the new array, and leaves its size when it does not; only where \<^verbatim>\<open>malloc\<close> refuses the array and
  the fallback on \<^verbatim>\<open>realloc\<close> gets it is the insertion undefined.
\<close>

theorem hashtable_insert_updates:
  assumes "ht_wf h" and "hashtable_search h k = None"
  shows "if must_grow h \<and> \<not> grants E (8 * int (next_size h)) \<and> extends E (8 * int (next_size h)) then hashtable_insert E h k v = None
    else \<exists>h'. hashtable_insert E h k v = Some (if grants E 32 then - 1 else 0, h') \<and> ht_wf h' \<and>
      hashtable_search h' = (if grants E 32 then (hashtable_search h)(k \<mapsto> v) else hashtable_search h) \<and>
      hashtable_count h' = hashtable_count h + (if grants E 32 then 1 else 0) \<and>
      tablelength h' = (if must_grow h \<and> grants E (8 * int (next_size h)) then next_size h else tablelength h)"
proof (cases "must_grow h \<and> \<not> grants E (8 * int (next_size h)) \<and> extends E (8 * int (next_size h))")
  case True
  with hashtable_insert_runs [OF assms(1), of E k v] show ?thesis by simp
next
  case False
  with hashtable_insert_runs [OF assms(1), of E k v] obtain h' where
    r: "hashtable_insert E h k v = Some (if grants E 32 then - 1 else 0, h')"
    "tablelength h' = (if must_grow h \<and> grants E (8 * int (next_size h)) then next_size h else tablelength h)"
    "entrycount h' = entrycount h + (if grants E 32 then 1 else 0)" unfolding if_not_P [OF False] by blast
  from ht.ins_law [OF assms r(1)] r False show ?thesis unfolding if_not_P [OF False]
    by (intro exI [of _ h']) (auto simp: hashtable_count_def split: if_splits)
qed

definition empty_table :: "(nat, nat) hashtable" where
  "empty_table = \<lparr>tablelength = 53, table = replicate 53 [], entrycount = 0, loadlimit = load_limit 53,
     primeindex = 0, hashfn = of_nat, eqfn = (=)\<rparr>"

lemma empty_table_wf: "ht_wf empty_table" "hashtable_search empty_table k = None"
proof -
  show wf: "ht_wf empty_table"
    by (simp add: empty_table_def ht_wf_def prime_table_length_def primes_def ht_entries_def bucketed_def)
  have "ht_entries empty_table = []" by (simp add: ht_entries_def empty_table_def)
  then show "hashtable_search empty_table k = None"
    by (simp add: hashtable_search_map [OF wf] ht_map_def)
qed

definition granting_host :: host where
  "granting_host = \<lparr>grants = (\<lambda>_. True), extends = (\<lambda>_. True), big_endian = False\<rparr>"

theorem hashtable_insert_updates_witness:
  "\<exists>h'. hashtable_insert granting_host (empty_table :: (nat, nat) hashtable) 7 42 = Some (- 1, h') \<and> ht_wf h' \<and>
    hashtable_search h' = (hashtable_search empty_table)(7 \<mapsto> 42) \<and> hashtable_count h' = 1"
proof -
  have "grants granting_host n" "hashtable_count empty_table = 0" for n by (simp_all add: granting_host_def hashtable_count_def empty_table_def)
  then show ?thesis using hashtable_insert_updates [OF empty_table_wf, of granting_host 7 42] by auto
qed

text \<open>
  Removing a key returns the value it was mapped to (or null), unmaps it and nothing else, and keeps the
  invariant.
\<close>

theorem hashtable_remove_unmaps:
  assumes "ht_wf h" and "hashtable_remove h k = (r, h')"
  shows "ht_wf h' \<and> r = hashtable_search h k \<and> hashtable_search h' = (hashtable_search h)(k := None)"
  using ht.rem_law [OF assms] .

theorem hashtable_remove_unmaps_witness:
  "ht_wf (snd (hashtable_remove empty_table 3)) \<and>
   fst (hashtable_remove empty_table 3) = hashtable_search empty_table 3"
  using hashtable_remove_unmaps [OF empty_table_wf(1), of 3] by (simp add: prod_eq_iff)

text \<open>
  The fallback of \<^verbatim>\<open>hashtable_expand\<close> on \<^verbatim>\<open>realloc\<close> is wrong: whenever \<^verbatim>\<open>malloc\<close> refuses the new array but
  \<^verbatim>\<open>realloc\<close> grants it, the insertion that fills the table writes through an uninitialised pointer.
\<close>

theorem hashtable_expand_plan_b_undefined:
  assumes "primeindex h < prime_table_length - 1"
    and "\<not> grants E (8 * int (primes ! Suc (primeindex h)))"
    and "extends E (8 * int (primes ! Suc (primeindex h)))"
    and "loadlimit h \<le> entrycount h"
  shows "hashtable_insert E h k v = None"
  using assms by (simp add: hashtable_insert_def make_room_def hashtable_expand_def Let_def)

definition stingy_host :: host where
  "stingy_host = \<lparr>grants = (\<lambda>n. n \<le> 424), extends = (\<lambda>_. True), big_endian = False\<rparr>"

theorem hashtable_expand_plan_b_undefined_witness:
  "hashtable_insert stingy_host (empty_table\<lparr>loadlimit := 0\<rparr>) 1 1 = None"
  by (rule hashtable_expand_plan_b_undefined)
     (simp_all add: stingy_host_def empty_table_def primes_def prime_table_length_def)

end
