(* ===== verification/Paths.thy ===== *)
theory Paths
  imports ZkPrelude "HOL-Library.Sublist"
begin

text \<open>
  Paths in \<^verbatim>\<open>src/zookeeper.c\<close>: the check of \<^verbatim>\<open>isValidPath\<close>, the chroot prefix that \<^verbatim>\<open>prepend_string\<close> adds
  and \<^verbatim>\<open>sub_string\<close> removes, and \<^verbatim>\<open>count_hosts\<close>. A C string is read together with its terminating NUL; a
  read outside it is undefined. The lemmas show that the scan never reads outside the string and
  accepts exactly the paths without an empty, \<^verbatim>\<open>.\<close> or \<^verbatim>\<open>..\<close> component, that a client path survives the
  chroot, and where it does not.
\<close>

section \<open>Definitions\<close>

abbreviation (input) ZOO_PERSISTENT :: int where "ZOO_PERSISTENT \<equiv> 0"
abbreviation (input) ZOO_EPHEMERAL :: int where "ZOO_EPHEMERAL \<equiv> 1"
abbreviation (input) ZOO_PERSISTENT_SEQUENTIAL :: int where "ZOO_PERSISTENT_SEQUENTIAL \<equiv> 2"
abbreviation (input) ZOO_EPHEMERAL_SEQUENTIAL :: int where "ZOO_EPHEMERAL_SEQUENTIAL \<equiv> 3"
abbreviation (input) ZOO_CONTAINER :: int where "ZOO_CONTAINER \<equiv> 4"
abbreviation (input) ZOO_PERSISTENT_WITH_TTL :: int where "ZOO_PERSISTENT_WITH_TTL \<equiv> 5"
abbreviation (input) ZOO_PERSISTENT_SEQUENTIAL_WITH_TTL :: int where "ZOO_PERSISTENT_SEQUENTIAL_WITH_TTL \<equiv> 6"

definition ZOOKEEPER_IS_SEQUENCE :: "int \<Rightarrow> bool" where
  "ZOOKEEPER_IS_SEQUENCE mode \<longleftrightarrow>
     mode = ZOO_PERSISTENT_SEQUENTIAL \<or> mode = ZOO_EPHEMERAL_SEQUENTIAL \<or> mode = ZOO_PERSISTENT_SEQUENTIAL_WITH_TTL"

definition ZOOKEEPER_IS_TTL :: "int \<Rightarrow> bool" where
  "ZOOKEEPER_IS_TTL mode \<longleftrightarrow> mode = ZOO_PERSISTENT_WITH_TTL \<or> mode = ZOO_PERSISTENT_SEQUENTIAL_WITH_TTL"

definition char_at :: "bytes \<Rightarrow> int \<Rightarrow> char option" where
  \<comment> \<open>\<^verbatim>\<open>path[i]\<close>: the terminating NUL is the last byte of the string's block\<close>
  "char_at s i = (if 0 \<le> i \<and> i \<le> int (length s) then Some ((s @ [NUL]) ! nat i) else None)"

definition dot_component :: "bytes \<Rightarrow> int \<Rightarrow> nat \<Rightarrow> int \<Rightarrow> bool option" where
  \<comment> \<open>\<^verbatim>\<open>path[i-back] == '/' && (((i + 1 == len) && !ZOOKEEPER_IS_SEQUENCE(mode)) || path[i+1] == '/')\<close>\<close>
  "dot_component s mode i back = do {
     p \<leftarrow> char_at s (int i - back);
     if p \<noteq> CHR ''/'' then Some False
     else if i + 1 = length s \<and> \<not> ZOOKEEPER_IS_SEQUENCE mode then Some True
     else do { n \<leftarrow> char_at s (int i + 1); Some (n = CHR ''/'') }
   }"

fun valid_loop :: "bytes \<Rightarrow> int \<Rightarrow> nat \<Rightarrow> nat \<Rightarrow> char \<Rightarrow> bool option" where
  \<comment> \<open>\<open>k\<close> rounds are left, from index \<open>i\<close>\<close>
  "valid_loop s mode 0 i lastc = Some True"
| "valid_loop s mode (Suc k) i lastc = do {
     c \<leftarrow> char_at s (int i);
     if c = NUL then Some False
     else if c = CHR ''/'' \<and> lastc = CHR ''/'' then Some False
     else if c = CHR ''.'' \<and> lastc = CHR ''.'' then do {
       bad \<leftarrow> dot_component s mode i 2;
       if bad then Some False else valid_loop s mode k (Suc i) c
     }
     else if c = CHR ''.'' then do {
       bad \<leftarrow> dot_component s mode i 1;
       if bad then Some False else valid_loop s mode k (Suc i) c
     }
     else if schar c > 0 \<and> schar c < 0x1f then Some False
     else valid_loop s mode k (Suc i) c
   }"

definition isValidPath :: "cstr \<Rightarrow> int \<Rightarrow> bool option" where
  "isValidPath path mode =
     (case path of
        None \<Rightarrow> Some False
      | Some s \<Rightarrow>
          if length s = 0 then Some False
          else do {
            c0 \<leftarrow> char_at s 0;
            if c0 \<noteq> CHR ''/'' then Some False
            else if length s = 1 then Some True
            else do {
              cl \<leftarrow> char_at s (int (length s) - 1);
              if cl = CHR ''/'' \<and> \<not> ZOOKEEPER_IS_SEQUENCE mode then Some False
              else valid_loop s mode (length s - 1) 1 (CHR ''/'')
            }
          })"

definition strdup :: "host \<Rightarrow> bytes \<Rightarrow> cstr" where
  "strdup E s = (if grants E (int (length s) + 1) then Some s else None)"

definition prepend_string :: "host \<Rightarrow> cstr option \<Rightarrow> cstr \<Rightarrow> cstr option" where
  \<comment> \<open>the handle is given by its chroot, a null handle by \<open>None\<close>; the result of \<^verbatim>\<open>malloc\<close> is not checked\<close>
  "prepend_string E zh client_path =
     (case zh of
        None \<Rightarrow> Some client_path
      | Some None \<Rightarrow> Some client_path
      | Some (Some chroot) \<Rightarrow> do {
          p \<leftarrow> client_path;
          if length p = 1 then Some (strdup E chroot)
          else if grants E (int (length chroot + length p) + 1) then Some (Some (chroot @ p))
          else None
        })"

definition sub_string :: "host \<Rightarrow> cstr \<Rightarrow> cstr \<Rightarrow> cstr option" where
  "sub_string E chroot server_path =
     (case chroot of
        None \<Rightarrow> Some server_path
      | Some chroot \<Rightarrow> do {
          s \<leftarrow> server_path;
          if take (length chroot) s \<noteq> chroot then Some (Some s)
          else if length s = length chroot then Some (strdup E ''/'')
          else Some (strdup E (drop (length chroot) s))
        })"

fun count_commas :: "bytes \<Rightarrow> nat" where
  "count_commas [] = 0"
| "count_commas (c # cs) = (if c = CHR '','' then Suc (count_commas cs) else count_commas cs)"

definition count_hosts :: "cstr \<Rightarrow> nat" where
  "count_hosts hosts =
     (case hosts of None \<Rightarrow> 0 | Some s \<Rightarrow> if length s = 0 then 0 else count_commas s + 1)"

section \<open>What the scan accepts\<close>

definition closed_path :: "int \<Rightarrow> bytes \<Rightarrow> bytes" where
  \<comment> \<open>the path with the slash that ends its last component; the server completes that of a sequential node\<close>
  "closed_path mode s = (if ZOOKEEPER_IS_SEQUENCE mode then s else s @ ''/'')"

definition valid_path :: "int \<Rightarrow> bytes \<Rightarrow> bool" where
  \<comment> \<open>the specification: absolute, no empty, \<open>.\<close> or \<open>..\<close> component, no control character up to 0x1e\<close>
  "valid_path mode s \<longleftrightarrow>
     s = ''/'' \<or>
     (\<exists>r. s = CHR ''/'' # r) \<and>
     \<not> sublist ''//'' (closed_path mode s) \<and> \<not> sublist ''/./'' (closed_path mode s) \<and>
     \<not> sublist ''/../'' (closed_path mode s) \<and>
     (\<forall>c \<in> set s. \<not> (0 < schar c \<and> schar c < 0x1f))"

definition at :: "bytes \<Rightarrow> nat \<Rightarrow> char \<Rightarrow> bool" where
  "at t i c \<longleftrightarrow> i < length t \<and> t ! i = c"

definition good_at :: "int \<Rightarrow> bytes \<Rightarrow> nat \<Rightarrow> bool" where
  \<comment> \<open>what one round of the scan demands at index \<open>i\<close>\<close>
  "good_at mode s i \<longleftrightarrow>
     (let t = closed_path mode s; c = s ! i in
      \<not> (c = CHR ''/'' \<and> s ! (i - 1) = CHR ''/'') \<and>
      \<not> (c = CHR ''.'' \<and> s ! (i - 1) = CHR ''.'' \<and> s ! (i - 2) = CHR ''/'' \<and> at t (i + 1) (CHR ''/'')) \<and>
      \<not> (c = CHR ''.'' \<and> s ! (i - 1) = CHR ''/'' \<and> at t (i + 1) (CHR ''/'')) \<and>
      \<not> (0 < schar c \<and> schar c < 0x1f))"

lemma char_at_Some: "i < length s \<Longrightarrow> char_at s (int i) = Some (s ! i)"
  by (simp add: char_at_def nth_append)

lemma dot_component_ok:
  assumes "b \<le> i" and "i < length s"
  shows "dot_component s mode i (int b) =
    Some (s ! (i - b) = CHR ''/'' \<and> at (closed_path mode s) (i + 1) (CHR ''/''))"
proof -
  have "char_at s (int i - int b) = Some (s ! (i - b))"
    using assms char_at_Some [of "i - b" s] by (simp add: of_nat_diff)
  moreover have "char_at s (int i + 1) = Some ((s @ [NUL]) ! Suc i)"
    using assms by (simp add: char_at_def nat_add_distrib)
  ultimately show ?thesis
    using assms by (auto simp: dot_component_def at_def closed_path_def nth_append less_Suc_eq)
qed

lemma valid_loop_ok:
  assumes "i + k = length s" and "0 < i" and "s ! 0 = CHR ''/''" and "NUL \<notin> set s"
  shows "valid_loop s mode k i (s ! (i - 1)) = Some (\<forall>j. i \<le> j \<and> j < length s \<longrightarrow> good_at mode s j)"
  using assms(1,2)
proof (induction k arbitrary: i)
  case (Suc k)
  have i: "i < length s" using Suc.prems by simp
  then have nul: "s ! i \<noteq> NUL" using assms(4) nth_mem by metis
  have two: "s ! i = CHR ''.'' \<Longrightarrow> s ! (i - 1) = CHR ''.'' \<Longrightarrow> 2 \<le> i"
    using Suc.prems(2) assms(3) by (cases "i = 1") auto
  note d2 = dot_component_ok [of 2 i s mode, OF _ i, simplified]
  note d1 = dot_component_ok [of 1 i s mode, OF _ i, simplified]
  have IH: "valid_loop s mode k (Suc i) (s ! i) = Some (\<forall>j. Suc i \<le> j \<and> j < length s \<longrightarrow> good_at mode s j)"
    using Suc.IH [of "Suc i"] Suc.prems by simp
  have split: "(\<forall>j. i \<le> j \<and> j < length s \<longrightarrow> good_at mode s j) \<longleftrightarrow>
      good_at mode s i \<and> (\<forall>j. Suc i \<le> j \<and> j < length s \<longrightarrow> good_at mode s j)"
    using i by (metis Suc_leD Suc_leI le_eq_less_or_eq)
  have dot: "\<not> (0 < schar (CHR ''.'') \<and> schar (CHR ''.'') < 31)" by (simp add: schar_def)
  have slash: "\<not> (0 < schar (CHR ''/'') \<and> schar (CHR ''/'') < 31)" by (simp add: schar_def)
  show ?case
    unfolding split
    using Suc.prems(2) two nul IH d2 d1 dot slash
    by (auto simp: char_at_Some [OF i] good_at_def Let_def)
qed auto

lemma sublist_at:
  assumes "xs \<noteq> []"
  shows "sublist xs t \<longleftrightarrow> (\<exists>i. \<forall>k < length xs. at t (i + k) (xs ! k))"
proof
  assume "sublist xs t"
  then obtain ps ss where "t = ps @ xs @ ss" by (auto simp: sublist_def)
  then show "\<exists>i. \<forall>k < length xs. at t (i + k) (xs ! k)"
    by (intro exI [of _ "length ps"]) (simp add: at_def nth_append)
next
  assume "\<exists>i. \<forall>k < length xs. at t (i + k) (xs ! k)"
  then obtain i where i: "\<And>k. k < length xs \<Longrightarrow> at t (i + k) (xs ! k)" by blast
  have "length xs - 1 < length xs" using assms by simp
  from i [OF this] have len: "i + length xs \<le> length t" using assms by (cases xs) (auto simp: at_def)
  have "take (length xs) (drop i t) = xs"
    using i len by (intro nth_equalityI) (auto simp: at_def)
  then have "t = take i t @ xs @ drop (length xs) (drop i t)"
    by (metis append_take_drop_id)
  then show "sublist xs t" by (auto simp: sublist_def)
qed

lemma sublist_slashes: "sublist ''//'' t \<longleftrightarrow> (\<exists>i. at t i (CHR ''/'') \<and> at t (Suc i) (CHR ''/''))"
  by (auto simp: sublist_at All_less_Suc)

lemma sublist_dot: "sublist ''/./'' t \<longleftrightarrow>
    (\<exists>i. at t i (CHR ''/'') \<and> at t (Suc i) (CHR ''.'') \<and> at t (Suc (Suc i)) (CHR ''/''))"
  by (simp add: sublist_at All_less_Suc conj_commute conj_left_commute)

lemma sublist_dots: "sublist ''/../'' t \<longleftrightarrow>
    (\<exists>i. at t i (CHR ''/'') \<and> at t (Suc i) (CHR ''.'') \<and> at t (Suc (Suc i)) (CHR ''.'') \<and>
         at t (Suc (Suc (Suc i))) (CHR ''/''))"
  by (simp add: sublist_at All_less_Suc conj_commute conj_left_commute)

lemma at_closed:
  "at (closed_path mode s) i c \<longleftrightarrow>
   i < length s \<and> s ! i = c \<or> \<not> ZOOKEEPER_IS_SEQUENCE mode \<and> i = length s \<and> c = CHR ''/''"
  by (auto simp: at_def closed_path_def nth_append less_Suc_eq)

lemma all_good_iff:
  assumes "s ! 0 = CHR ''/''" and "2 \<le> length s"
  shows "(\<forall>j. 1 \<le> j \<and> j < length s \<longrightarrow> good_at mode s j) \<and>
      (s ! (length s - 1) = CHR ''/'' \<longrightarrow> ZOOKEEPER_IS_SEQUENCE mode) \<longleftrightarrow>
    \<not> sublist ''//'' (closed_path mode s) \<and> \<not> sublist ''/./'' (closed_path mode s) \<and>
    \<not> sublist ''/../'' (closed_path mode s) \<and> (\<forall>c \<in> set s. \<not> (0 < schar c \<and> schar c < 0x1f))"
    (is "?L \<and> ?T \<longleftrightarrow> \<not> ?A \<and> \<not> ?B \<and> \<not> ?C \<and> ?D")
proof -
  let ?t = "closed_path mode s"
  have A: "?A \<longleftrightarrow> (\<exists>j. 1 \<le> j \<and> j < length s \<and> s ! j = CHR ''/'' \<and> s ! (j - 1) = CHR ''/'') \<or> \<not> ?T"
  proof
    assume ?A
    then obtain i where i: "at ?t i (CHR ''/'')" "at ?t (Suc i) (CHR ''/'')" by (auto simp: sublist_slashes)
    show "(\<exists>j. 1 \<le> j \<and> j < length s \<and> s ! j = CHR ''/'' \<and> s ! (j - 1) = CHR ''/'') \<or> \<not> ?T"
    proof (cases "Suc i < length s")
      case True
      with i show ?thesis by (intro disjI1 exI [of _ "Suc i"]) (auto simp: at_closed)
    next
      case False
      with i have "Suc i = length s" "s ! i = CHR ''/''" "\<not> ZOOKEEPER_IS_SEQUENCE mode" by (auto simp: at_closed)
      moreover from this have "length s - 1 = i" by simp
      ultimately show ?thesis by simp
    qed
  next
    assume "(\<exists>j. 1 \<le> j \<and> j < length s \<and> s ! j = CHR ''/'' \<and> s ! (j - 1) = CHR ''/'') \<or> \<not> ?T"
    then show ?A
    proof
      assume "\<exists>j. 1 \<le> j \<and> j < length s \<and> s ! j = CHR ''/'' \<and> s ! (j - 1) = CHR ''/''"
      then obtain j where "1 \<le> j" "j < length s" "s ! j = CHR ''/''" "s ! (j - 1) = CHR ''/''" by blast
      then show ?A unfolding sublist_slashes by (intro exI [of _ "j - 1"]) (auto simp: at_closed)
    next
      assume "\<not> ?T"
      then show ?A
        unfolding sublist_slashes using assms(2) by (intro exI [of _ "length s - 1"]) (auto simp: at_closed)
    qed
  qed
  have B: "?B \<longleftrightarrow> (\<exists>j. 1 \<le> j \<and> j < length s \<and> s ! j = CHR ''.'' \<and> s ! (j - 1) = CHR ''/'' \<and> at ?t (j + 1) (CHR ''/''))"
  proof
    assume ?B
    then obtain i where "at ?t i (CHR ''/'')" "at ?t (Suc i) (CHR ''.'')" "at ?t (Suc (Suc i)) (CHR ''/'')"
      by (auto simp: sublist_dot)
    then show "\<exists>j. 1 \<le> j \<and> j < length s \<and> s ! j = CHR ''.'' \<and> s ! (j - 1) = CHR ''/'' \<and> at ?t (j + 1) (CHR ''/'')"
      by (intro exI [of _ "Suc i"]) (auto simp: at_closed)
  next
    assume "\<exists>j. 1 \<le> j \<and> j < length s \<and> s ! j = CHR ''.'' \<and> s ! (j - 1) = CHR ''/'' \<and> at ?t (j + 1) (CHR ''/'')"
    then obtain j where "1 \<le> j" "j < length s" "s ! j = CHR ''.''" "s ! (j - 1) = CHR ''/''" "at ?t (j + 1) (CHR ''/'')"
      by blast
    then show ?B unfolding sublist_dot by (intro exI [of _ "j - 1"]) (auto simp: at_closed)
  qed
  have C: "?C \<longleftrightarrow> (\<exists>j. 1 \<le> j \<and> j < length s \<and> s ! j = CHR ''.'' \<and> s ! (j - 1) = CHR ''.'' \<and>
      s ! (j - 2) = CHR ''/'' \<and> at ?t (j + 1) (CHR ''/''))"
  proof
    assume ?C
    then obtain i where "at ?t i (CHR ''/'')" "at ?t (Suc i) (CHR ''.'')" "at ?t (Suc (Suc i)) (CHR ''.'')"
      "at ?t (Suc (Suc (Suc i))) (CHR ''/'')" by (auto simp: sublist_dots)
    then show "\<exists>j. 1 \<le> j \<and> j < length s \<and> s ! j = CHR ''.'' \<and> s ! (j - 1) = CHR ''.'' \<and>
        s ! (j - 2) = CHR ''/'' \<and> at ?t (j + 1) (CHR ''/'')"
      by (intro exI [of _ "Suc (Suc i)"]) (auto simp: at_closed)
  next
    assume "\<exists>j. 1 \<le> j \<and> j < length s \<and> s ! j = CHR ''.'' \<and> s ! (j - 1) = CHR ''.'' \<and>
        s ! (j - 2) = CHR ''/'' \<and> at ?t (j + 1) (CHR ''/'')"
    then obtain j where j: "1 \<le> j" "j < length s" "s ! j = CHR ''.''" "s ! (j - 1) = CHR ''.''"
      "s ! (j - 2) = CHR ''/''" "at ?t (j + 1) (CHR ''/'')" by blast
    moreover from this have "2 \<le> j" using assms(1) by (cases "j = 1") auto
    then obtain i where "j = Suc (Suc i)" by (metis Suc_le_D add_2_eq_Suc le_Suc_ex)
    ultimately show ?C unfolding sublist_dots by (intro exI [of _ i]) (auto simp: at_closed)
  qed
  have D: "?D \<longleftrightarrow> (\<forall>j. 1 \<le> j \<and> j < length s \<longrightarrow> \<not> (0 < schar (s ! j) \<and> schar (s ! j) < 0x1f))"
  proof
    assume "\<forall>j. 1 \<le> j \<and> j < length s \<longrightarrow> \<not> (0 < schar (s ! j) \<and> schar (s ! j) < 0x1f)"
    moreover have "\<not> (0 < schar (s ! 0) \<and> schar (s ! 0) < 0x1f)" by (simp add: assms(1) schar_def)
    ultimately show ?D by (metis One_nat_def Suc_leI in_set_conv_nth not_gr_zero)
  qed simp
  show ?thesis unfolding A B C D good_at_def Let_def by blast
qed

lemma isValidPath_iff:
  assumes "NUL \<notin> set s"
  shows "isValidPath (Some s) mode = Some (valid_path mode s)"
proof (cases s)
  case Nil
  then show ?thesis by (simp add: isValidPath_def valid_path_def)
next
  case (Cons c0 r)
  show ?thesis
  proof (cases "c0 = CHR ''/'' \<and> r \<noteq> []")
    case False
    with Cons show ?thesis by (auto simp: isValidPath_def valid_path_def char_at_def)
  next
    case True
    have s0: "s ! 0 = CHR ''/''" and len: "2 \<le> length s"
      using Cons True by (auto simp: Suc_le_eq neq_Nil_conv)
    have c: "char_at s 0 = Some (CHR ''/'')" using len s0 by (cases s) (simp_all add: char_at_def)
    have l: "char_at s (int (length s) - 1) = Some (s ! (length s - 1))"
      using char_at_Some [of "length s - 1" s] len by (simp add: of_nat_diff)
    have "valid_loop s mode (length s - 1) 1 (s ! (1 - 1)) = Some (\<forall>j. 1 \<le> j \<and> j < length s \<longrightarrow> good_at mode s j)"
      using len s0 assms by (intro valid_loop_ok) simp_all
    then have v: "valid_loop s mode (length s - 1) 1 (CHR ''/'') = Some (\<forall>j. 1 \<le> j \<and> j < length s \<longrightarrow> good_at mode s j)"
      by (simp add: s0)
    have "isValidPath (Some s) mode =
        Some ((\<forall>j. 1 \<le> j \<and> j < length s \<longrightarrow> good_at mode s j) \<and> (s ! (length s - 1) = CHR ''/'' \<longrightarrow> ZOOKEEPER_IS_SEQUENCE mode))"
      using len c l v by (simp add: isValidPath_def) auto
    also have "\<dots> = Some (valid_path mode s)"
      unfolding all_good_iff [OF s0 len] valid_path_def using Cons True by auto
    finally show ?thesis .
  qed
qed

lemma valid_path_slash: "valid_path mode s \<Longrightarrow> \<exists>r. s = CHR ''/'' # r"
  by (auto simp: valid_path_def)

lemma sub_prepend:
  assumes "\<And>n. 0 \<le> n \<Longrightarrow> n \<le> int (length chroot + length p) + 2 \<Longrightarrow> grants E n" and "p = CHR ''/'' # r"
  shows "prepend_string E (Some (Some chroot)) (Some p) = Some (Some (if p = ''/'' then chroot else chroot @ p))"
    and "sub_string E (Some chroot) (Some (if p = ''/'' then chroot else chroot @ p)) = Some (Some p)"
  using assms by (auto simp: prepend_string_def sub_string_def strdup_def)

section \<open>Properties\<close>

text \<open>
  (C38) \<^verbatim>\<open>isValidPath\<close> on a C string reads only inside the string and its terminator (the look-behind \<^verbatim>\<open>path[i-2]\<close>
  and the look-ahead \<^verbatim>\<open>path[i+1]\<close> included), and accepts exactly the absolute paths with no empty, \<^verbatim>\<open>.\<close> or \<^verbatim>\<open>..\<close>
  component and no control character below 0x1f; for a sequential node the last component is exempt.
\<close>

theorem isValidPath_spec:
  assumes "NUL \<notin> set s"
  shows "isValidPath (Some s) mode = Some (valid_path mode s)"
  using assms by (rule isValidPath_iff)

theorem isValidPath_spec_witness:
  "isValidPath (Some ''/a/../b'') 0 = Some (valid_path 0 ''/a/../b'') \<and> isValidPath (Some ''/a/../b'') 0 = Some False \<and>
   isValidPath (Some ''/a/..'') 2 = Some True"
  using isValidPath_spec [of "''/a/../b''" 0]
  by (simp add: isValidPath_def char_at_def dot_component_def ZOOKEEPER_IS_SEQUENCE_def schar_def eval_nat_numeral)

text \<open>
  The chroot is transparent: the server path of a valid client path, with the chroot stripped again, is the
  client path, the root included.
\<close>

theorem chroot_roundtrip:
  assumes "valid_path mode p"
    and "\<And>n. 0 \<le> n \<Longrightarrow> n \<le> int (length chroot + length p) + 2 \<Longrightarrow> grants E n"
  shows "\<exists>q. prepend_string E (Some (Some chroot)) (Some p) = Some (Some q) \<and>
    sub_string E (Some chroot) (Some q) = Some (Some p)"
  using valid_path_slash [OF assms(1)] sub_prepend [of chroot p E, OF assms(2)] by blast

theorem chroot_roundtrip_witness:
  "\<exists>q. prepend_string \<lparr>grants = (\<lambda>_. True), extends = (\<lambda>_. True), big_endian = False\<rparr> (Some (Some ''/app'')) (Some ''/'') = Some (Some q) \<and>
    sub_string \<lparr>grants = (\<lambda>_. True), extends = (\<lambda>_. True), big_endian = False\<rparr> (Some ''/app'') (Some q) = Some (Some ''/'')"
  by (rule chroot_roundtrip [of 0]) (simp_all add: valid_path_def)

text \<open>
  The chroot is compared as a prefix of characters, not of components: a server path outside the chroot that
  continues its last component is stripped to a relative path.
\<close>

theorem sub_string_ignores_component_boundary:
  assumes "c \<noteq> CHR ''/''" and "grants E (int (length (c # r)) + 1)"
  shows "sub_string E (Some chroot) (Some (chroot @ c # r)) = Some (Some (c # r)) \<and>
    \<not> valid_path mode (c # r)"
  using assms by (auto simp: sub_string_def strdup_def valid_path_def)

theorem sub_string_ignores_component_boundary_witness:
  "sub_string \<lparr>grants = (\<lambda>_. True), extends = (\<lambda>_. True), big_endian = False\<rparr> (Some ''/foo'') (Some ''/foobar'') = Some (Some ''bar'') \<and>
   \<not> valid_path 0 ''bar''"
  using sub_string_ignores_component_boundary [of "CHR ''b''" "\<lparr>grants = (\<lambda>_. True), extends = (\<lambda>_. True), big_endian = False\<rparr>"
      "''ar''" "''/foo''" 0] by simp

end
