(* ===== verification/Watchers.thy ===== *)
theory Watchers
  imports Hashtable Paths
begin

text \<open>
  The watcher tables of \<^verbatim>\<open>src/zk_hashtable.c\<close>: three hash tables from paths to lists of watcher objects. A
  watcher object is a pair of its function and its context, both opaque addresses (0 is null). A list is a value
  of its table; the code changes it in place through the pointer that a search returned, which is
  \<open>hashtable_store\<close> here. A failed \<^verbatim>\<open>assert\<close> on an allocation is undefined. The lemmas show that lists never hold a
  watcher twice, that an event takes the watchers of its path out of the tables and leaves all others, that a
  session event copies them all, and that a removal removes.
\<close>

section \<open>Tables\<close>

type_synonym watcher_object = "nat \<times> nat"
type_synonym watcher_object_list = "watcher_object list"
type_synonym zk_hashtable = "(bytes, watcher_object_list) hashtable"

record watch_tables =
  active_node_watchers :: zk_hashtable
  active_exist_watchers :: zk_hashtable
  active_child_watchers :: zk_hashtable

abbreviation (input) CREATED_EVENT_DEF :: int where "CREATED_EVENT_DEF \<equiv> 1"
abbreviation (input) DELETED_EVENT_DEF :: int where "DELETED_EVENT_DEF \<equiv> 2"
abbreviation (input) CHANGED_EVENT_DEF :: int where "CHANGED_EVENT_DEF \<equiv> 3"
abbreviation (input) CHILD_EVENT_DEF :: int where "CHILD_EVENT_DEF \<equiv> 4"
abbreviation (input) SESSION_EVENT_DEF :: int where "SESSION_EVENT_DEF \<equiv> - 1"
abbreviation (input) NOTWATCHING_EVENT_DEF :: int where "NOTWATCHING_EVENT_DEF \<equiv> - 2"

abbreviation (input) ZWATCHTYPE_CHILD :: int where "ZWATCHTYPE_CHILD \<equiv> 1"
abbreviation (input) ZWATCHTYPE_DATA :: int where "ZWATCHTYPE_DATA \<equiv> 2"
abbreviation (input) ZWATCHTYPE_ANY :: int where "ZWATCHTYPE_ANY \<equiv> 3"

datatype watch_table = Node_table | Exist_table | Child_table

fun get_table :: "watch_tables \<Rightarrow> watch_table \<Rightarrow> zk_hashtable" where
  "get_table zh Node_table = active_node_watchers zh"
| "get_table zh Exist_table = active_exist_watchers zh"
| "get_table zh Child_table = active_child_watchers zh"

fun set_table :: "watch_tables \<Rightarrow> watch_table \<Rightarrow> zk_hashtable \<Rightarrow> watch_tables" where
  "set_table zh Node_table ht = zh\<lparr>active_node_watchers := ht\<rparr>"
| "set_table zh Exist_table ht = zh\<lparr>active_exist_watchers := ht\<rparr>"
| "set_table zh Child_table ht = zh\<lparr>active_child_watchers := ht\<rparr>"

fun djb2 :: "i32 \<Rightarrow> bytes \<Rightarrow> i32" where
  "djb2 h [] = h"
| "djb2 h (c # cs) = djb2 ((push_bit 5 h + h) + word_of_int (schar c)) cs"

definition string_hash_djb2 :: "bytes \<Rightarrow> i32" where
  "string_hash_djb2 str = djb2 5381 str"

definition string_equal :: "bytes \<Rightarrow> bytes \<Rightarrow> bool" where
  "string_equal key1 key2 \<longleftrightarrow> key1 = key2"

definition getFirstWatcher :: "zk_hashtable \<Rightarrow> bytes \<Rightarrow> watcher_object option" where
  "getFirstWatcher ht path =
     (case hashtable_search ht path of None \<Rightarrow> None
      | Some wl \<Rightarrow> (case wl of [] \<Rightarrow> None | wo # _ \<Rightarrow> Some wo))"

definition clone_watcher_object :: "host \<Rightarrow> watcher_object \<Rightarrow> watcher_object option" where
  "clone_watcher_object E wo = do { _ \<leftarrow> c_assert (grants E 24); Some wo }"

definition create_watcher_object :: "host \<Rightarrow> nat \<Rightarrow> nat \<Rightarrow> watcher_object option" where
  "create_watcher_object E watcher ctx = do { _ \<leftarrow> c_assert (grants E 24); Some (watcher, ctx) }"

definition create_watcher_object_list :: "host \<Rightarrow> watcher_object_list \<Rightarrow> watcher_object_list option" where
  "create_watcher_object_list E head = do { _ \<leftarrow> c_assert (grants E 8); Some head }"

definition create_zk_hashtable :: "host \<Rightarrow> zk_hashtable option" where
  \<comment> \<open>a null inner table, which the first operation dereferences, is \<open>None\<close> as well\<close>
  "create_zk_hashtable E = do {
     _ \<leftarrow> c_assert (grants E 8);
     create_hashtable E 32 string_hash_djb2 string_equal
   }"

partial_function (option) clean_loop :: "zk_hashtable \<Rightarrow> hashtable_itr \<Rightarrow> zk_hashtable option" where
  "clean_loop ht it = do {
     w \<leftarrow> hashtable_iterator_value ht it;
     (hasMore, ht, it) \<leftarrow> hashtable_iterator_remove ht it;
     if hasMore \<noteq> 0 then clean_loop ht it else Some ht
   }"

definition do_clean_hashtable :: "host \<Rightarrow> zk_hashtable \<Rightarrow> zk_hashtable option" where
  "do_clean_hashtable E ht =
     (if hashtable_count ht = 0 then Some ht
      else do { it \<leftarrow> hashtable_iterator E ht; clean_loop ht it })"

definition destroy_zk_hashtable :: "host \<Rightarrow> zk_hashtable \<Rightarrow> (bytes list \<times> watcher_object_list list) option" where
  \<comment> \<open>what is still in the table when \<^verbatim>\<open>hashtable_destroy\<close> frees it\<close>
  "destroy_zk_hashtable E ht = do { ht \<leftarrow> do_clean_hashtable E ht; Some (hashtable_destroy ht False) }"

section \<open>Lists\<close>

definition search_watcher :: "watcher_object_list \<Rightarrow> watcher_object \<Rightarrow> watcher_object option" where
  "search_watcher wl wo = List.find (\<lambda>w. fst w = fst wo \<and> snd w = snd wo) wl"

definition add_to_list ::
  "host \<Rightarrow> watcher_object_list \<Rightarrow> watcher_object \<Rightarrow> bool \<Rightarrow> (int \<times> watcher_object_list) option" where
  "add_to_list E wl wo clone =
     (if search_watcher wl wo = None
      then do {
        cloned \<leftarrow> (if clone then clone_watcher_object E wo else Some wo);
        Some (1, cloned # wl)
      }
      else Some (0, wl))"

definition do_insert_watcher_object ::
  "host \<Rightarrow> zk_hashtable \<Rightarrow> bytes \<Rightarrow> watcher_object \<Rightarrow> (int \<times> zk_hashtable) option" where
  \<comment> \<open>a null \<^verbatim>\<open>strdup(path)\<close> is hashed, which dereferences it\<close>
  "do_insert_watcher_object E ht path wo =
     (case hashtable_search ht path of
        None \<Rightarrow> do {
          wl \<leftarrow> create_watcher_object_list E [wo];
          key \<leftarrow> strdup E path;
          (res, ht) \<leftarrow> hashtable_insert E ht key wl;
          _ \<leftarrow> c_assert (res \<noteq> 0);
          Some (1, ht)
        }
      | Some wl \<Rightarrow> do {
          (res, wl) \<leftarrow> add_to_list E wl wo False;
          Some (res, hashtable_store ht path wl)
        })"

fun collect_loop :: "host \<Rightarrow> zk_hashtable \<Rightarrow> nat \<Rightarrow> hashtable_itr option \<Rightarrow> cstr list option" where
  "collect_loop E ht 0 it = Some []"
| "collect_loop E ht (Suc n) it = do {
     i \<leftarrow> it;
     k \<leftarrow> hashtable_iterator_key ht i;
     ks \<leftarrow> collect_loop E ht n (Some (snd (hashtable_iterator_advance ht i)));
     Some (strdup E k # ks)
   }"

definition collect_keys :: "host \<Rightarrow> zk_hashtable \<Rightarrow> (nat \<times> cstr list option) option" where
  \<comment> \<open>the count and the array, null when \<^verbatim>\<open>calloc\<close> refused it, which is fatal unless it is empty\<close>
  "collect_keys E ht = do {
     let count = hashtable_count ht;
     ks \<leftarrow> collect_loop E ht count (hashtable_iterator E ht);
     if grants E (8 * int count) then Some (count, Some ks)
     else if count = 0 then Some (0, None) else None
   }"

definition insert_watcher_object ::
  "host \<Rightarrow> zk_hashtable \<Rightarrow> bytes \<Rightarrow> watcher_object \<Rightarrow> (int \<times> zk_hashtable) option" where
  "insert_watcher_object E ht path wo = do_insert_watcher_object E ht path wo"

fun copy_watchers :: "host \<Rightarrow> watcher_object_list \<Rightarrow> watcher_object_list \<Rightarrow> bool \<Rightarrow> watcher_object_list option" where
  "copy_watchers E [] to clone = Some to"
| "copy_watchers E (wo # from) to clone = do {
     (r, to) \<leftarrow> add_to_list E to wo clone;
     copy_watchers E from to clone
   }"

partial_function (option) copy_loop ::
  "host \<Rightarrow> zk_hashtable \<Rightarrow> hashtable_itr \<Rightarrow> watcher_object_list \<Rightarrow> watcher_object_list option" where
  "copy_loop E ht it to = do {
     w \<leftarrow> hashtable_iterator_value ht it;
     to \<leftarrow> copy_watchers E w to True;
     let (hasMore, it) = hashtable_iterator_advance ht it;
     if hasMore \<noteq> 0 then copy_loop E ht it to else Some to
   }"

definition copy_table :: "host \<Rightarrow> zk_hashtable \<Rightarrow> watcher_object_list \<Rightarrow> watcher_object_list option" where
  "copy_table E from to =
     (if hashtable_count from = 0 then Some to
      else do { it \<leftarrow> hashtable_iterator E from; copy_loop E from it to })"

definition collect_session_watchers ::
  "host \<Rightarrow> watch_tables \<Rightarrow> watcher_object_list \<Rightarrow> watcher_object_list option" where
  "collect_session_watchers E zh list = do {
     list \<leftarrow> copy_table E (active_node_watchers zh) list;
     list \<leftarrow> copy_table E (active_exist_watchers zh) list;
     copy_table E (active_child_watchers zh) list
   }"

definition add_for_event ::
  "host \<Rightarrow> zk_hashtable \<Rightarrow> bytes \<Rightarrow> watcher_object_list \<Rightarrow> (zk_hashtable \<times> watcher_object_list) option" where
  "add_for_event E ht path list =
     (case hashtable_remove ht path of
        (None, ht) \<Rightarrow> Some (ht, list)
      | (Some wl, ht) \<Rightarrow> do { list \<leftarrow> copy_watchers E wl list False; Some (ht, list) })"

definition event_take ::
  "host \<Rightarrow> bytes \<Rightarrow> watch_table \<Rightarrow> watch_tables \<times> watcher_object_list \<Rightarrow>
   (watch_tables \<times> watcher_object_list) option" where
  \<comment> \<open>\<^verbatim>\<open>add_for_event\<close> on one of the handle's tables\<close>
  "event_take E path t = (\<lambda>(zh, list). do {
     (ht, list) \<leftarrow> add_for_event E (get_table zh t) path list;
     Some (set_table zh t ht, list)
   })"

definition collectWatchers ::
  "host \<Rightarrow> watcher_object \<Rightarrow> watch_tables \<Rightarrow> int \<Rightarrow> bytes \<Rightarrow> (watch_tables \<times> watcher_object_list) option" where
  \<comment> \<open>\<open>defWatcher\<close> is the handle's own watcher with its context\<close>
  "collectWatchers E defWatcher zh type path = do {
     list \<leftarrow> create_watcher_object_list E [];
     if type = SESSION_EVENT_DEF then do {
       (r, list) \<leftarrow> add_to_list E list defWatcher True;
       list \<leftarrow> collect_session_watchers E zh list;
       Some (zh, list)
     }
     else if type = CREATED_EVENT_DEF \<or> type = CHANGED_EVENT_DEF then
       do { st \<leftarrow> event_take E path Node_table (zh, list); event_take E path Exist_table st }
     else if type = CHILD_EVENT_DEF then event_take E path Child_table (zh, list)
     else if type = DELETED_EVENT_DEF then
       do {
         st \<leftarrow> event_take E path Node_table (zh, list);
         st \<leftarrow> event_take E path Exist_table st;
         event_take E path Child_table st
       }
     else Some (zh, list)
   }"

section \<open>Delivery and registration\<close>

record watcher_call =
  wc_watcher :: nat
  wc_type :: int
  wc_state :: int
  wc_path :: cstr
  wc_context :: nat

definition do_foreach_watcher ::
  "host \<Rightarrow> cstr \<Rightarrow> watcher_object_list \<Rightarrow> cstr \<Rightarrow> int \<Rightarrow> int \<Rightarrow> watcher_call list option" where
  \<comment> \<open>the calls of the user's functions, in order; the handle is given by its chroot\<close>
  "do_foreach_watcher E chroot wl path type state = do {
     client_path \<leftarrow> (if type \<noteq> SESSION_EVENT_DEF then sub_string E chroot path else Some path);
     Some (map (\<lambda>wo. \<lparr>wc_watcher = fst wo, wc_type = type, wc_state = state, wc_path = client_path,
                      wc_context = snd wo\<rparr>) wl)
   }"

definition deliverWatchers ::
  "host \<Rightarrow> cstr \<Rightarrow> int \<Rightarrow> int \<Rightarrow> cstr \<Rightarrow> watcher_object_list option \<Rightarrow>
   (watcher_call list \<times> watcher_object_list option) option" where
  "deliverWatchers E chroot type state path list =
     (case list of
        None \<Rightarrow> Some ([], None)
      | Some wl \<Rightarrow> do { calls \<leftarrow> do_foreach_watcher E chroot wl path type state; Some (calls, None) })"

datatype result_checker = exists_result_checker | data_result_checker | child_result_checker

fun run_checker :: "result_checker \<Rightarrow> int \<Rightarrow> watch_table option" where
  "run_checker exists_result_checker rc =
     (if rc = ZOK then Some Node_table else if rc = ZNONODE then Some Exist_table else None)"
| "run_checker data_result_checker rc = (if rc = ZOK then Some Node_table else None)"
| "run_checker child_result_checker rc = (if rc = ZOK then Some Child_table else None)"

record watcher_registration =
  wr_watcher :: nat
  wr_context :: nat
  wr_checker :: result_checker
  wr_path :: cstr

record watcher_deregistration =
  wd_watcher :: nat
  wd_context :: nat
  wd_type :: int
  wd_path :: cstr

definition activateWatcher ::
  "host \<Rightarrow> watch_tables \<Rightarrow> watcher_registration option \<Rightarrow> int \<Rightarrow> watch_tables option" where
  "activateWatcher E zh reg rc =
     (case reg of
        None \<Rightarrow> Some zh
      | Some reg \<Rightarrow>
          (case run_checker (wr_checker reg) rc of
             None \<Rightarrow> Some zh
           | Some t \<Rightarrow> do {
               wo \<leftarrow> create_watcher_object E (wr_watcher reg) (wr_context reg);
               path \<leftarrow> wr_path reg;
               (r, ht) \<leftarrow> insert_watcher_object E (get_table zh t) path wo;
               Some (set_table zh t ht)
             }))"

section \<open>Removal\<close>

definition containsWatcher :: "zk_hashtable \<Rightarrow> bytes \<Rightarrow> nat \<Rightarrow> nat \<Rightarrow> bool" where
  "containsWatcher watchers path watcher watcherCtx =
     (if watcher = 0 then True
      else case hashtable_search watchers path of
             None \<Rightarrow> False
           | Some wl \<Rightarrow> search_watcher wl (watcher, watcherCtx) \<noteq> None)"

fun unlink_next :: "watcher_object_list \<Rightarrow> watcher_object \<Rightarrow> watcher_object_list" where
  \<comment> \<open>the first loop: unlink the first match that has a predecessor\<close>
  "unlink_next (e # f # es) wo = (if fst f = fst wo \<and> snd f = snd wo then e # es else e # unlink_next (f # es) wo)"
| "unlink_next es wo = es"

definition removeWatcherFromList :: "watcher_object_list \<Rightarrow> nat \<Rightarrow> nat \<Rightarrow> watcher_object_list" where
  "removeWatcherFromList wl watcher watcherCtx =
     (case unlink_next wl (watcher, watcherCtx) of
        [] \<Rightarrow> []
      | e # es \<Rightarrow> if fst e = watcher \<and> snd e = watcherCtx then es else e # es)"

definition removeWatcher :: "zk_hashtable \<Rightarrow> bytes \<Rightarrow> nat \<Rightarrow> nat \<Rightarrow> zk_hashtable" where
  "removeWatcher watchers path watcher watcherCtx =
     (case hashtable_search watchers path of
        None \<Rightarrow> watchers
      | Some wl \<Rightarrow>
          if watcher = 0 then snd (hashtable_remove watchers path)
          else
            let wl = removeWatcherFromList wl watcher watcherCtx; watchers = hashtable_store watchers path wl
            in if wl = [] then snd (hashtable_remove watchers path) else watchers)"

definition removeWatchers :: "watch_tables \<Rightarrow> bytes \<Rightarrow> int \<Rightarrow> nat \<Rightarrow> nat \<Rightarrow> watch_tables" where
  "removeWatchers zh path type watcher ctx =
     (let child = (\<lambda>zh. zh\<lparr>active_child_watchers := removeWatcher (active_child_watchers zh) path watcher ctx\<rparr>);
          node = (\<lambda>zh. zh\<lparr>active_node_watchers := removeWatcher (active_node_watchers zh) path watcher ctx\<rparr>);
          exist = (\<lambda>zh. zh\<lparr>active_exist_watchers := removeWatcher (active_exist_watchers zh) path watcher ctx\<rparr>)
      in if type = ZWATCHTYPE_CHILD then child zh
         else if type = ZWATCHTYPE_DATA then exist (node zh)
         else if type = ZWATCHTYPE_ANY then exist (node (child zh))
         else zh)"

definition deactivateWatcher :: "watch_tables \<Rightarrow> watcher_deregistration option \<Rightarrow> int \<Rightarrow> watch_tables option" where
  "deactivateWatcher zh dereg rc =
     (case dereg of
        None \<Rightarrow> Some zh
      | Some d \<Rightarrow>
          if rc \<noteq> ZOK then Some zh
          else do {
            path \<leftarrow> wd_path d;
            Some (removeWatchers zh path (wd_type d) (wd_watcher d) (wd_context d))
          })"

definition pathHasWatcher :: "watch_tables \<Rightarrow> bytes \<Rightarrow> int \<Rightarrow> nat \<Rightarrow> nat \<Rightarrow> bool" where
  "pathHasWatcher zh path wtype watcher ctx =
     (if wtype = ZWATCHTYPE_CHILD then containsWatcher (active_child_watchers zh) path watcher ctx
      else if wtype = ZWATCHTYPE_DATA then
        (let found = containsWatcher (active_node_watchers zh) path watcher ctx
         in if \<not> found then containsWatcher (active_exist_watchers zh) path watcher ctx else found)
      else if wtype = ZWATCHTYPE_ANY then
        (let found = containsWatcher (active_child_watchers zh) path watcher ctx;
             found = (if \<not> found then containsWatcher (active_node_watchers zh) path watcher ctx else found)
         in if \<not> found then containsWatcher (active_exist_watchers zh) path watcher ctx else found)
      else False)"

section \<open>Lists of watchers\<close>

lemma search_watcher_None [simp]: "search_watcher wl wo = None \<longleftrightarrow> wo \<notin> set wl"
  by (auto simp: search_watcher_def find_None_iff prod_eq_iff)

lemma add_to_list_ok:
  assumes "distinct wl" and "clone \<Longrightarrow> grants E 24"
  shows "\<exists>r wl'. add_to_list E wl wo clone = Some (r, wl') \<and> distinct wl' \<and> set wl' = insert wo (set wl) \<and>
    wl' \<noteq> []"
  using assms by (cases "wo \<in> set wl") (auto simp: add_to_list_def clone_watcher_object_def)

lemma copy_watchers_ok:
  assumes "distinct to" and "clone \<Longrightarrow> grants E 24"
  shows "\<exists>to'. copy_watchers E from to clone = Some to' \<and> distinct to' \<and> set to' = set from \<union> set to"
  using assms(1)
proof (induction "from" arbitrary: to)
  case (Cons wo "from")
  obtain r to1 where 1: "add_to_list E to wo clone = Some (r, to1)" "distinct to1" "set to1 = insert wo (set to)"
    using add_to_list_ok [OF Cons.prems assms(2)] by blast
  with Cons.IH [OF 1(2)] show ?case by auto
qed simp

lemma unlink_next_remove:
  "distinct (e # es) \<Longrightarrow> unlink_next (e # es) wo = e # removeAll wo es"
proof (induction es arbitrary: e)
  case (Cons f es)
  show ?case
  proof (cases "f = wo")
    case True
    with Cons.prems show ?thesis by simp
  next
    case False
    then have "\<not> (fst f = fst wo \<and> snd f = snd wo)" by (auto simp: prod_eq_iff)
    with Cons.IH [of f] Cons.prems False show ?thesis by auto
  qed
qed simp

lemma removeWatcherFromList_removes:
  assumes "distinct wl"
  shows "removeWatcherFromList wl w c = removeAll (w, c) wl"
proof (cases wl)
  case (Cons e es)
  with assms unlink_next_remove [of e es "(w, c)"] show ?thesis
    by (cases e) (auto simp: removeWatcherFromList_def)
qed (simp add: removeWatcherFromList_def)

section \<open>The abstract view of a table\<close>

definition watchers_at :: "zk_hashtable \<Rightarrow> bytes \<Rightarrow> watcher_object_list" where
  "watchers_at ht path = (case hashtable_search ht path of None \<Rightarrow> [] | Some wl \<Rightarrow> wl)"

definition wt_wf :: "zk_hashtable \<Rightarrow> bool" where
  "wt_wf ht \<longleftrightarrow> ht_wf ht \<and>
     (\<forall>path wl. hashtable_search ht path = Some wl \<longrightarrow> wl \<noteq> [] \<and> distinct wl)"

definition tables_wf :: "watch_tables \<Rightarrow> bool" where
  "tables_wf zh \<longleftrightarrow> (\<forall>t. wt_wf (get_table zh t))"

lemma get_set_table [simp]:
  "get_table (set_table zh t ht) t' = (if t' = t then ht else get_table zh t')"
  by (cases t; cases t') simp_all

lemma tables_wf_set: "tables_wf zh \<Longrightarrow> wt_wf ht \<Longrightarrow> tables_wf (set_table zh t ht)"
  by (simp add: tables_wf_def)

lemma distinct_watchers_at: "wt_wf ht \<Longrightarrow> distinct (watchers_at ht path)"
  by (auto simp: wt_wf_def watchers_at_def split: option.splits)

lemma search_watchers_at:
  "wt_wf ht \<Longrightarrow> hashtable_search ht path = (if watchers_at ht path = [] then None else Some (watchers_at ht path))"
  by (auto simp: wt_wf_def watchers_at_def split: option.splits)

lemma create_zk_hashtable_ok:
  assumes "create_zk_hashtable E = Some ht"
  shows "wt_wf ht \<and> (\<forall>p. watchers_at ht p = [])"
proof -
  have eq: "string_equal = (=)" by (rule ext)+ (simp add: string_equal_def)
  have "create_hashtable E 32 string_hash_djb2 (=) = Some ht"
    using assms by (auto simp: create_zk_hashtable_def eq bind_eq_Some_conv)
  from create_hashtable_empty [OF this] show ?thesis by (simp add: wt_wf_def watchers_at_def)
qed

subsection \<open>Taking the watchers of a path\<close>

lemma add_for_event_ok:
  assumes "wt_wf ht" and "distinct list"
  shows "\<exists>ht' list'. add_for_event E ht path list = Some (ht', list') \<and> wt_wf ht' \<and> distinct list' \<and>
    set list' = set (watchers_at ht path) \<union> set list \<and>
    (\<forall>q. watchers_at ht' q = (if q = path then [] else watchers_at ht q))"
proof -
  obtain r ht' where rm: "hashtable_remove ht path = (r, ht')" by fastforce
  have inv: "ht_wf ht" using assms(1) by (simp add: wt_wf_def)
  note law = ht.rem_law [OF inv rm]
  have wf': "wt_wf ht'" using law assms(1) by (auto simp: wt_wf_def split: if_splits)
  have at: "\<forall>q. watchers_at ht' q = (if q = path then [] else watchers_at ht q)"
    using law by (simp add: watchers_at_def)
  show ?thesis
  proof (cases r)
    case None
    with rm law wf' at assms(2) show ?thesis by (auto simp: add_for_event_def watchers_at_def)
  next
    case (Some wl)
    obtain list' where "copy_watchers E wl list False = Some list'" "distinct list'" "set list' = set wl \<union> set list"
      using copy_watchers_ok [OF assms(2), of False E wl] by auto
    with Some rm law wf' at show ?thesis by (auto simp: add_for_event_def watchers_at_def)
  qed
qed

lemma event_take_ok:
  assumes "tables_wf zh" and "distinct list"
  shows "\<exists>zh' list'. event_take E path t (zh, list) = Some (zh', list') \<and> tables_wf zh' \<and> distinct list' \<and>
    set list' = set (watchers_at (get_table zh t) path) \<union> set list \<and>
    (\<forall>t' q. watchers_at (get_table zh' t') q =
       (if t' = t \<and> q = path then [] else watchers_at (get_table zh t') q))"
proof -
  have "wt_wf (get_table zh t)" using assms(1) by (simp add: tables_wf_def)
  from add_for_event_ok [OF this assms(2), of E path] obtain ht' list' where
    "add_for_event E (get_table zh t) path list = Some (ht', list')" "wt_wf ht'" "distinct list'"
    "set list' = set (watchers_at (get_table zh t) path) \<union> set list"
    "\<forall>q. watchers_at ht' q = (if q = path then [] else watchers_at (get_table zh t) q)" by blast
  with assms(1) show ?thesis by (simp add: event_take_def tables_wf_set)
qed

fun event_tables :: "int \<Rightarrow> watch_table list" where
  \<comment> \<open>the tables an event of this type fires\<close>
  "event_tables type =
     (if type = CREATED_EVENT_DEF \<or> type = CHANGED_EVENT_DEF then [Node_table, Exist_table]
      else if type = CHILD_EVENT_DEF then [Child_table]
      else if type = DELETED_EVENT_DEF then [Node_table, Exist_table, Child_table]
      else [])"

fun event_takes ::
  "host \<Rightarrow> bytes \<Rightarrow> watch_table list \<Rightarrow> watch_tables \<times> watcher_object_list \<Rightarrow>
   (watch_tables \<times> watcher_object_list) option" where
  "event_takes E path [] st = Some st"
| "event_takes E path (t # ts) st = do { st \<leftarrow> event_take E path t st; event_takes E path ts st }"

lemma event_takes_fun:
  "event_takes E path [] = Some"
  "event_takes E path (t # ts) = (\<lambda>st. Option.bind (event_take E path t st) (event_takes E path ts))"
  by (rule ext, simp)+

lemma collectWatchers_event:
  "type \<noteq> SESSION_EVENT_DEF \<Longrightarrow> grants E 8 \<Longrightarrow>
   collectWatchers E dw zh type path = event_takes E path (event_tables type) (zh, [])"
  by (simp add: collectWatchers_def create_watcher_object_list_def event_takes_fun)

lemma event_takes_ok:
  assumes "tables_wf zh" and "distinct list" and "distinct ts"
  shows "\<exists>zh' list'. event_takes E path ts (zh, list) = Some (zh', list') \<and> tables_wf zh' \<and> distinct list' \<and>
    set list' = (\<Union>t \<in> set ts. set (watchers_at (get_table zh t) path)) \<union> set list \<and>
    (\<forall>t' q. watchers_at (get_table zh' t') q =
       (if t' \<in> set ts \<and> q = path then [] else watchers_at (get_table zh t') q))"
  using assms
proof (induction ts arbitrary: zh list)
  case (Cons t ts)
  obtain zh1 list1 where 1: "event_take E path t (zh, list) = Some (zh1, list1)" "tables_wf zh1" "distinct list1"
    "set list1 = set (watchers_at (get_table zh t) path) \<union> set list"
    "\<forall>t' q. watchers_at (get_table zh1 t') q = (if t' = t \<and> q = path then [] else watchers_at (get_table zh t') q)"
    using event_take_ok [OF Cons.prems(1,2)] by blast
  obtain zh2 list2 where 2: "event_takes E path ts (zh1, list1) = Some (zh2, list2)" "tables_wf zh2" "distinct list2"
    "set list2 = (\<Union>t \<in> set ts. set (watchers_at (get_table zh1 t) path)) \<union> set list1"
    "\<forall>t' q. watchers_at (get_table zh2 t') q = (if t' \<in> set ts \<and> q = path then [] else watchers_at (get_table zh1 t') q)"
    using Cons.IH [OF 1(2,3)] Cons.prems(3) by auto
  have "(\<Union>t \<in> set ts. set (watchers_at (get_table zh1 t) path)) = (\<Union>t \<in> set ts. set (watchers_at (get_table zh t) path))"
    using 1(5) Cons.prems(3) by (intro SUP_cong) auto
  with 1 2 show ?case by auto
qed simp

subsection \<open>Copying all watchers\<close>

definition all_watchers :: "zk_hashtable \<Rightarrow> watcher_object set" where
  "all_watchers ht = (\<Union>path. set (watchers_at ht path))"

lemma all_watchers_entries:
  assumes "wt_wf ht"
  shows "all_watchers ht = (\<Union>e \<in> set (ht_entries ht). set (e_v e))"
proof -
  have wf: "ht_wf ht" using assms by (simp add: wt_wf_def)
  have d: "distinct (map fst (map (\<lambda>e. (e_k e, e_v e)) (ht_entries ht)))" using wf by (simp add: ht_wf_def comp_def)
  have A: "hashtable_search ht p = Some wl \<longleftrightarrow> (\<exists>e \<in> set (ht_entries ht). e_k e = p \<and> e_v e = wl)" for p wl
    using map_of_eq_Some_iff [OF d, of p wl] by (auto simp: hashtable_search_map [OF wf] ht_map_def)
  have B: "wo \<in> set (watchers_at ht p) \<longleftrightarrow> (\<exists>wl. hashtable_search ht p = Some wl \<and> wo \<in> set wl)" for wo p
    by (cases "hashtable_search ht p") (auto simp: watchers_at_def)
  have "wo \<in> set (watchers_at ht p) \<longleftrightarrow> (\<exists>e \<in> set (ht_entries ht). e_k e = p \<and> wo \<in> set (e_v e))" for wo p
    unfolding B A by blast
  then have "wo \<in> all_watchers ht \<longleftrightarrow> wo \<in> (\<Union>e \<in> set (ht_entries ht). set (e_v e))" for wo
    by (simp add: all_watchers_def) blast
  then show ?thesis by (rule set_eqI)
qed

lemma copy_loop_ok:
  assumes "itr_wf ht it" and "itr_rest ht it = e # es" and "distinct to" and "grants E 24"
  shows "\<exists>to'. copy_loop E ht it to = Some to' \<and> distinct to' \<and>
    set to' = (\<Union>e \<in> set (e # es). set (e_v e)) \<union> set to"
  using assms(1-3)
proof (induction es arbitrary: it to e)
  case Nil
  obtain rc it' where adv: "hashtable_iterator_advance ht it = (rc, it')" by fastforce
  from hashtable_iterator_advance_ok [OF Nil.prems(1,2) adv] have
    1: "itr_entry ht it = Some e" "rc = 0" by auto
  obtain to1 where "copy_watchers E (e_v e) to True = Some to1" "distinct to1" "set to1 = set (e_v e) \<union> set to"
    using copy_watchers_ok [OF Nil.prems(3), of True E] assms(4) by blast
  with adv 1 show ?case by (subst copy_loop.simps) (simp add: hashtable_iterator_value_def)
next
  case (Cons f es)
  obtain rc it' where adv: "hashtable_iterator_advance ht it = (rc, it')" by fastforce
  from hashtable_iterator_advance_ok [OF Cons.prems(1,2) adv] have
    1: "itr_entry ht it = Some e" "rc \<noteq> 0" "itr_wf ht it'" "itr_rest ht it' = f # es" by auto
  obtain to1 where 2: "copy_watchers E (e_v e) to True = Some to1" "distinct to1" "set to1 = set (e_v e) \<union> set to"
    using copy_watchers_ok [OF Cons.prems(3), of True E] assms(4) by blast
  obtain to' where "copy_loop E ht it' to1 = Some to'" "distinct to'"
    "set to' = (\<Union>e \<in> set (f # es). set (e_v e)) \<union> set to1"
    using Cons.IH [OF 1(3,4) 2(2)] by blast
  with adv 1 2 show ?case by (subst copy_loop.simps) (auto simp: hashtable_iterator_value_def)
qed

lemma copy_table_ok:
  assumes "wt_wf ht" and "distinct to" and "grants E 24" and "grants E 32"
  shows "\<exists>to'. copy_table E ht to = Some to' \<and> distinct to' \<and> set to' = all_watchers ht \<union> set to"
proof (cases "ht_entries ht")
  case Nil
  moreover have "entrycount ht = 0" using Nil assms(1) by (simp add: wt_wf_def ht_wf_def)
  ultimately show ?thesis
    using assms by (simp add: copy_table_def hashtable_count_def all_watchers_entries)
next
  case (Cons e es)
  have wf: "ht_wf ht" using assms(1) by (simp add: wt_wf_def)
  then have n: "entrycount ht \<noteq> 0" using Cons by (simp add: ht_wf_def)
  obtain it where it: "hashtable_iterator E ht = Some it"
    using hashtable_iterator_returns [OF assms(4)] by blast
  from hashtable_iterator_starts [OF wf it] Cons have "itr_wf ht it" "itr_rest ht it = e # es" by simp_all
  from copy_loop_ok [OF this assms(2,3)] it n Cons show ?thesis
    by (simp add: copy_table_def hashtable_count_def all_watchers_entries [OF assms(1)])
qed

lemma collectWatchers_session:
  assumes "tables_wf zh" and "grants E 8" and "grants E 24" and "grants E 32"
  shows "\<exists>wl. collectWatchers E dw zh SESSION_EVENT_DEF path = Some (zh, wl) \<and> distinct wl \<and>
    set wl = insert dw (\<Union>t. all_watchers (get_table zh t))"
proof -
  have wf: "wt_wf (active_node_watchers zh)" "wt_wf (active_exist_watchers zh)" "wt_wf (active_child_watchers zh)"
    using assms(1) by (metis get_table.simps tables_wf_def)+
  obtain l1 where 1: "copy_table E (active_node_watchers zh) [dw] = Some l1" "distinct l1"
    "set l1 = all_watchers (active_node_watchers zh) \<union> set [dw]"
    using copy_table_ok [OF wf(1) _ assms(3,4), of "[dw]"] by auto
  obtain l2 where 2: "copy_table E (active_exist_watchers zh) l1 = Some l2" "distinct l2"
    "set l2 = all_watchers (active_exist_watchers zh) \<union> set l1"
    using copy_table_ok [OF wf(2) 1(2) assms(3,4)] by auto
  obtain l3 where 3: "copy_table E (active_child_watchers zh) l2 = Some l3" "distinct l3"
    "set l3 = all_watchers (active_child_watchers zh) \<union> set l2"
    using copy_table_ok [OF wf(3) 2(2) assms(3,4)] by auto
  have u: "(UNIV :: watch_table set) = {Node_table, Exist_table, Child_table}"
    using watch_table.exhaust by auto
  have "(\<Union>t. all_watchers (get_table zh t)) = all_watchers (active_node_watchers zh) \<union>
      all_watchers (active_exist_watchers zh) \<union> all_watchers (active_child_watchers zh)"
    unfolding u by auto
  moreover have "add_to_list E [] dw True = Some (1, [dw])"
    using assms(3) by (simp add: add_to_list_def clone_watcher_object_def)
  ultimately show ?thesis
    using 1 2 3 assms(2)
    by (auto simp: collectWatchers_def create_watcher_object_list_def collect_session_watchers_def)
qed

subsection \<open>Registration\<close>

lemma do_insert_watcher_object_ok:
  assumes "wt_wf ht" and "grants E 8" and "grants E 32" and "grants E (int (length path) + 1)"
    and "\<And>n. extends E n \<Longrightarrow> grants E n"
  shows "\<exists>r ht'. do_insert_watcher_object E ht path wo = Some (r, ht') \<and> wt_wf ht' \<and>
    set (watchers_at ht' path) = insert wo (set (watchers_at ht path)) \<and>
    (\<forall>q. q \<noteq> path \<longrightarrow> watchers_at ht' q = watchers_at ht q)"
proof (cases "hashtable_search ht path")
  case None
  have wf: "ht_wf ht" using assms(1) by (simp add: wt_wf_def)
  obtain rc ht' where i: "hashtable_insert E ht path [wo] = Some (rc, ht')"
    using hashtable_insert_returns [of E ht path "[wo]"] assms(5) by blast
  have rc: "rc \<noteq> 0"
    using i assms(3) by (auto simp: hashtable_insert_def bind_eq_Some_conv Let_def)
  from ht.ins_law [OF wf None i] rc have l: "ht_wf ht'" "hashtable_search ht' = (hashtable_search ht)(path \<mapsto> [wo])" by auto
  then have "wt_wf ht'" using assms(1) by (auto simp: wt_wf_def)
  with None i rc l assms show ?thesis
    by (simp add: do_insert_watcher_object_def create_watcher_object_list_def strdup_def watchers_at_def)
next
  case (Some wl)
  have wf: "ht_wf ht" and d: "distinct wl" using assms(1) Some by (auto simp: wt_wf_def)
  obtain r wl' where a: "add_to_list E wl wo False = Some (r, wl')" "distinct wl'" "set wl' = insert wo (set wl)" "wl' \<noteq> []"
    using add_to_list_ok [OF d, of False E wo] by auto
  from ht.store_law [OF wf Some, of wl'] have
    l: "ht_wf (hashtable_store ht path wl')" "hashtable_search (hashtable_store ht path wl') = (hashtable_search ht)(path \<mapsto> wl')"
    by auto
  then have "wt_wf (hashtable_store ht path wl')" using assms(1) a by (auto simp: wt_wf_def)
  with Some a l show ?thesis by (auto simp: do_insert_watcher_object_def watchers_at_def)
qed

lemma activateWatcher_ok:
  assumes "tables_wf zh" and "wr_path reg = Some p" and "grants E 8" and "grants E 24" and "grants E 32"
    and "grants E (int (length p) + 1)" and "\<And>n. extends E n \<Longrightarrow> grants E n"
  shows "\<exists>zh'. activateWatcher E zh (Some reg) rc = Some zh' \<and> tables_wf zh' \<and>
    (\<forall>t q. set (watchers_at (get_table zh' t) q) = set (watchers_at (get_table zh t) q) \<union>
       (if run_checker (wr_checker reg) rc = Some t \<and> q = p then {(wr_watcher reg, wr_context reg)} else {}))"
proof (cases "run_checker (wr_checker reg) rc")
  case None
  with assms(1) show ?thesis by (simp add: activateWatcher_def)
next
  case (Some t)
  have "wt_wf (get_table zh t)" using assms(1) by (simp add: tables_wf_def)
  then obtain r ht' where
    "do_insert_watcher_object E (get_table zh t) p (wr_watcher reg, wr_context reg) = Some (r, ht')" "wt_wf ht'"
    "set (watchers_at ht' p) =
       insert (wr_watcher reg, wr_context reg) (set (watchers_at (get_table zh t) p))"
    "\<forall>q. q \<noteq> p \<longrightarrow> watchers_at ht' q = watchers_at (get_table zh t) q"
    using do_insert_watcher_object_ok [of "get_table zh t" E p "(wr_watcher reg, wr_context reg)"] assms
    by blast
  then show ?thesis
    using Some assms(1,2,4)
    by (auto simp: activateWatcher_def create_watcher_object_def insert_watcher_object_def tables_wf_set)
qed

subsection \<open>Removal\<close>

lemma removeWatcher_ok:
  assumes "wt_wf ht"
  shows "wt_wf (removeWatcher ht path w c) \<and>
    (\<forall>q. watchers_at (removeWatcher ht path w c) q =
      (if q = path then (if w = 0 then [] else removeAll (w, c) (watchers_at ht q)) else watchers_at ht q))"
proof (cases "hashtable_search ht path")
  case None
  with assms show ?thesis by (simp add: removeWatcher_def watchers_at_def)
next
  case (Some wl)
  have wf: "ht_wf ht" and d: "distinct wl" using assms Some by (auto simp: wt_wf_def)
  show ?thesis
  proof (cases "w = 0")
    case True
    obtain r ht' where rm: "hashtable_remove ht path = (r, ht')" by fastforce
    from ht.rem_law [OF wf rm] have "ht_wf ht'" "hashtable_search ht' = (hashtable_search ht)(path := None)" by auto
    with True Some rm assms show ?thesis by (auto simp: removeWatcher_def watchers_at_def wt_wf_def)
  next
    case False
    let ?wl = "removeAll (w, c) wl"
    let ?st = "hashtable_store ht path ?wl"
    from ht.store_law [OF wf Some, of ?wl] have
      l: "ht_wf ?st" "hashtable_search ?st = (hashtable_search ht)(path \<mapsto> ?wl)" by auto
    obtain r ht' where rm: "hashtable_remove ?st path = (r, ht')" by fastforce
    from ht.rem_law [OF l(1) rm] l have m: "ht_wf ht'" "hashtable_search ht' = (hashtable_search ht)(path := None)" by auto
    have eq: "removeWatcher ht path w c = (if ?wl = [] then ht' else ?st)"
      using Some False rm
      by (cases "?wl = []") (simp_all add: removeWatcher_def removeWatcherFromList_removes [OF d] Let_def del: removeAll_id)
    show ?thesis
    proof (cases "?wl = []")
      case True
      with eq m Some False assms show ?thesis by (auto simp: watchers_at_def wt_wf_def)
    next
      case nonempty: False
      with eq l Some False assms d show ?thesis by (auto simp: watchers_at_def wt_wf_def distinct_removeAll)
    qed
  qed
qed

lemma removeWatchers_wf:
  assumes "tables_wf zh"
  shows "tables_wf (removeWatchers zh path type w c)"
  unfolding tables_wf_def
proof
  have wf: "wt_wf (active_node_watchers zh)" "wt_wf (active_exist_watchers zh)" "wt_wf (active_child_watchers zh)"
    using assms by (metis get_table.simps tables_wf_def)+
  fix t show "wt_wf (get_table (removeWatchers zh path type w c) t)"
    using removeWatcher_ok [OF wf(1), of path w c] removeWatcher_ok [OF wf(2), of path w c]
      removeWatcher_ok [OF wf(3), of path w c] wf
    by (cases t) (simp_all add: removeWatchers_def Let_def)
qed

lemma containsWatcher_iff: "containsWatcher ht path w c \<longleftrightarrow> w = 0 \<or> (w, c) \<in> set (watchers_at ht path)"
  by (auto simp: containsWatcher_def watchers_at_def split: option.splits)

subsection \<open>Collecting keys, and cleaning up\<close>

lemma collect_loop_ok:
  assumes "itr_wf ht it" and "\<forall>k \<in> e_k ` set (itr_rest ht it). grants E (int (length k) + 1)"
  shows "collect_loop E ht (length (itr_rest ht it)) (Some it) = Some (map (Some \<circ> e_k) (itr_rest ht it))"
  using assms
proof (induction "itr_rest ht it" arbitrary: it)
  case (Cons e es)
  obtain rc it' where adv: "hashtable_iterator_advance ht it = (rc, it')" by fastforce
  from hashtable_iterator_advance_ok [OF Cons.prems(1) Cons.hyps(2) [symmetric] adv] have
    1: "itr_entry ht it = Some e" "itr_wf ht it'" "itr_rest ht it' = es" by auto
  have "collect_loop E ht (length es) (Some it') = Some (map (Some \<circ> e_k) es)"
    using Cons.hyps(1) [OF 1(3) [symmetric] 1(2)] 1(3) Cons.prems(2) Cons.hyps(2) [symmetric] by simp
  then show ?case
    using 1 adv Cons.prems(2) by (simp add: Cons.hyps(2) [symmetric] hashtable_iterator_key_def strdup_def)
qed simp

definition watched_paths :: "zk_hashtable \<Rightarrow> bytes list" where
  "watched_paths ht = map e_k (ht_entries ht)"

lemma watched_paths_exact:
  assumes "ht_wf ht"
  shows "distinct (watched_paths ht)" and "p \<in> set (watched_paths ht) \<longleftrightarrow> hashtable_search ht p \<noteq> None"
proof -
  show "distinct (watched_paths ht)" using assms by (simp add: watched_paths_def ht_wf_def)
  show "p \<in> set (watched_paths ht) \<longleftrightarrow> hashtable_search ht p \<noteq> None"
    unfolding watched_paths_def hashtable_search_map [OF assms] ht_map_def map_of_eq_None_iff by force
qed

lemma collect_keys_ok:
  assumes "ht_wf ht" and "grants E 32" and "grants E (8 * int (length (watched_paths ht)))"
    and "\<forall>k \<in> set (watched_paths ht). grants E (int (length k) + 1)"
  shows "collect_keys E ht = Some (length (watched_paths ht), Some (map Some (watched_paths ht)))"
proof -
  obtain it where it: "hashtable_iterator E ht = Some it"
    using hashtable_iterator_returns [of E ht] assms(2) by auto
  from hashtable_iterator_starts [OF assms(1) it] have i: "itr_wf ht it" "itr_rest ht it = ht_entries ht" by auto
  have n: "entrycount ht = length (ht_entries ht)" using assms(1) by (simp add: ht_wf_def)
  from collect_loop_ok [OF i(1), of E] i(2) assms(4)
  have "collect_loop E ht (length (ht_entries ht)) (Some it) = Some (map (Some \<circ> e_k) (ht_entries ht))"
    by (simp add: watched_paths_def)
  then show ?thesis
    using it n assms(3) by (simp add: collect_keys_def hashtable_count_def watched_paths_def comp_def)
qed

lemma clean_loop_ok:
  assumes "ht_wf ht" and "itr_wf ht it" and "itr_rest ht it = e # es" and "ht_entries ht = e # es"
  shows "\<exists>ht'. clean_loop ht it = Some ht' \<and> ht_wf ht' \<and> ht_entries ht' = []"
  using assms
proof (induction es arbitrary: ht it e)
  case Nil
  from hashtable_iterator_remove_ok [OF Nil.prems(2,3,1)] obtain rc ht' it' pre where
    1: "hashtable_iterator_remove ht it = Some (rc, ht', it')" "ht_wf ht'" "rc = 0" "ht_entries ht = pre @ [e]"
    "ht_entries ht' = pre" by auto
  have v: "hashtable_iterator_value ht it \<noteq> None"
    using hashtable_iterator_advance_ok [OF Nil.prems(2,3)] by (metis hashtable_iterator_value_def option.map_disc_iff option.simps(3) surj_pair)
  with 1 Nil.prems(4) show ?case by (subst clean_loop.simps) auto
next
  case (Cons f es)
  from hashtable_iterator_remove_ok [OF Cons.prems(2,3,1)] obtain rc ht' it' pre where
    1: "hashtable_iterator_remove ht it = Some (rc, ht', it')" "ht_wf ht'" "rc \<noteq> 0" "ht_entries ht = pre @ e # f # es"
    "ht_entries ht' = pre @ f # es" "itr_wf ht' it'" "itr_rest ht' it' = f # es" by auto
  then have "ht_entries ht' = f # es" using Cons.prems(4) by auto
  moreover have v: "hashtable_iterator_value ht it \<noteq> None"
    using hashtable_iterator_advance_ok [OF Cons.prems(2,3)] by (metis hashtable_iterator_value_def option.map_disc_iff option.simps(3) surj_pair)
  ultimately show ?case
    using Cons.IH [OF 1(2,6,7)] 1 by (subst clean_loop.simps) auto
qed

section \<open>Properties\<close>

text \<open>
  (C37) An event for a path fires each watcher of that path once: the delivery list holds exactly the watchers the
  concerned tables had for the path, without repetition (a watcher that was registered in two tables is
  called once), they are gone from those tables, and every other path and table is untouched.
\<close>

theorem collectWatchers_moves:
  assumes "tables_wf zh" and "grants E 8" and "type \<noteq> SESSION_EVENT_DEF"
  shows "\<exists>zh' wl. collectWatchers E dw zh type path = Some (zh', wl) \<and> tables_wf zh' \<and> distinct wl \<and>
    set wl = (\<Union>t \<in> set (event_tables type). set (watchers_at (get_table zh t) path)) \<and>
    (\<forall>t q. watchers_at (get_table zh' t) q =
       (if t \<in> set (event_tables type) \<and> q = path then [] else watchers_at (get_table zh t) q))"
proof -
  have "distinct (event_tables type)" by simp
  from event_takes_ok [OF assms(1) distinct.simps(1) [THEN iffD2, OF TrueI] this, of E path] show ?thesis
    using assms(2,3) by (simp add: collectWatchers_event del: event_tables.simps)
qed

definition empty_watch_table :: zk_hashtable where
  "empty_watch_table = \<lparr>tablelength = 53, table = replicate 53 [], entrycount = 0, loadlimit = load_limit 53,
     primeindex = 0, hashfn = string_hash_djb2, eqfn = (=)\<rparr>"

definition no_watchers :: watch_tables where
  "no_watchers = \<lparr>active_node_watchers = empty_watch_table, active_exist_watchers = empty_watch_table,
     active_child_watchers = empty_watch_table\<rparr>"

lemma empty_watch_table_ok [simp]:
  "ht_wf empty_watch_table" "wt_wf empty_watch_table" "hashtable_search empty_watch_table p = None"
  "watchers_at empty_watch_table p = []"
proof -
  have "create_hashtable granting_host 32 string_hash_djb2 (=) = Some empty_watch_table"
    by (simp add: create_hashtable_def granting_host_def primes_def empty_watch_table_def)
  from create_hashtable_empty [OF this] show
    "ht_wf empty_watch_table" "wt_wf empty_watch_table" "hashtable_search empty_watch_table p = None"
    "watchers_at empty_watch_table p = []"
    by (simp_all add: wt_wf_def watchers_at_def)
qed

lemma no_watchers_tables [simp]:
  "active_node_watchers no_watchers = empty_watch_table" "active_exist_watchers no_watchers = empty_watch_table"
  "active_child_watchers no_watchers = empty_watch_table" "get_table no_watchers t = empty_watch_table"
  by (simp_all add: no_watchers_def) (cases t; simp add: no_watchers_def)

lemma no_watchers_wf: "tables_wf no_watchers"
  by (simp add: tables_wf_def)

theorem collectWatchers_moves_witness:
  "\<exists>zh' wl. collectWatchers granting_host (1, 1) no_watchers CHANGED_EVENT_DEF ''/a'' = Some (zh', wl) \<and>
    tables_wf zh' \<and> wl = []"
  using collectWatchers_moves [OF no_watchers_wf, of granting_host CHANGED_EVENT_DEF "(1, 1)" "''/a''"]
  by (auto simp: granting_host_def)

text \<open>
  A session event reaches the handle's own watcher and every registered watcher exactly once, and removes none:
  the loop over each table terminates and visits every entry.
\<close>

theorem collectWatchers_session_copies:
  assumes "tables_wf zh" and "grants E 8" and "grants E 24" and "grants E 32"
  shows "\<exists>wl. collectWatchers E dw zh SESSION_EVENT_DEF path = Some (zh, wl) \<and> distinct wl \<and>
    set wl = insert dw (\<Union>t p. set (watchers_at (get_table zh t) p))"
  using collectWatchers_session [OF assms] by (simp add: all_watchers_def)

theorem collectWatchers_session_copies_witness:
  "\<exists>wl. collectWatchers granting_host (1, 1) no_watchers SESSION_EVENT_DEF [] = Some (no_watchers, wl) \<and> set wl = {(1, 1)}"
  using collectWatchers_session_copies [OF no_watchers_wf, of granting_host "(1, 1)" "[]"]
  by (auto simp: granting_host_def)

text \<open>
  Activating a registration adds the watcher to the table its checker selects for the result code (an exists
  watch goes to the exist table on \<^verbatim>\<open>ZNONODE\<close>), once even when it is already there; with any other code nothing changes.
\<close>

theorem activateWatcher_registers:
  assumes "tables_wf zh" and "wr_path reg = Some p" and "grants E 8" and "grants E 24" and "grants E 32"
    and "grants E (int (length p) + 1)" and "\<And>n. extends E n \<Longrightarrow> grants E n"
  shows "\<exists>zh'. activateWatcher E zh (Some reg) rc = Some zh' \<and> tables_wf zh' \<and>
    (\<forall>t q. set (watchers_at (get_table zh' t) q) = set (watchers_at (get_table zh t) q) \<union>
       (if run_checker (wr_checker reg) rc = Some t \<and> q = p then {(wr_watcher reg, wr_context reg)} else {}))"
  using assms by (rule activateWatcher_ok)

definition sample_reg :: watcher_registration where
  "sample_reg = \<lparr>wr_watcher = 5, wr_context = 6, wr_checker = exists_result_checker, wr_path = Some ''/a''\<rparr>"

theorem activateWatcher_registers_witness:
  "\<exists>zh'. activateWatcher granting_host no_watchers (Some sample_reg) ZNONODE = Some zh' \<and>
     set (watchers_at (active_exist_watchers zh') ''/a'') = {(5, 6)} \<and>
     set (watchers_at (active_node_watchers zh') ''/a'') = {}"
proof -
  obtain zh' where z: "activateWatcher granting_host no_watchers (Some sample_reg) ZNONODE = Some zh'"
    "\<forall>t q. set (watchers_at (get_table zh' t) q) = set (watchers_at (get_table no_watchers t) q) \<union>
       (if run_checker (wr_checker sample_reg) ZNONODE = Some t \<and> q = ''/a''
        then {(wr_watcher sample_reg, wr_context sample_reg)} else {})"
    using activateWatcher_registers [OF no_watchers_wf, of sample_reg "''/a''" granting_host ZNONODE]
    by (auto simp: granting_host_def sample_reg_def)
  from z(2) [rule_format, of Exist_table "''/a''"] z(2) [rule_format, of Node_table "''/a''"] z(1) show ?thesis
    by (simp add: sample_reg_def)
qed

text \<open>
  After \<^verbatim>\<open>removeWatchers\<close> for a path, a type and a watcher (null meaning all of them), \<^verbatim>\<open>pathHasWatcher\<close> no longer
  finds that watcher there, in any table the type covers; watchers of other paths, and other watchers of this path
  when one was named, stay.
\<close>

theorem removeWatchers_removes:
  assumes "tables_wf zh"
  shows "tables_wf (removeWatchers zh path type w c) \<and>
    (w \<noteq> 0 \<longrightarrow> \<not> pathHasWatcher (removeWatchers zh path type w c) path type w c) \<and>
    (\<forall>q w' c'. q \<noteq> path \<or> w \<noteq> 0 \<and> (w', c') \<noteq> (w, c) \<longrightarrow>
       pathHasWatcher (removeWatchers zh path type w c) q type w' c' = pathHasWatcher zh q type w' c')"
proof -
  have wf: "wt_wf (active_node_watchers zh)" "wt_wf (active_exist_watchers zh)" "wt_wf (active_child_watchers zh)"
    using assms by (metis get_table.simps tables_wf_def)+
  note ok = removeWatcher_ok [OF wf(1), of path w c] removeWatcher_ok [OF wf(2), of path w c]
    removeWatcher_ok [OF wf(3), of path w c]
  from removeWatchers_wf [OF assms, of path type w c] show ?thesis using ok by (auto simp: removeWatchers_def Let_def pathHasWatcher_def containsWatcher_iff)
qed

theorem removeWatchers_removes_witness:
  "\<not> pathHasWatcher (removeWatchers no_watchers ''/a'' ZWATCHTYPE_ANY 5 6) ''/a'' ZWATCHTYPE_ANY 5 6"
  using removeWatchers_removes [OF no_watchers_wf, of "''/a''" ZWATCHTYPE_ANY 5 6] by simp

end
