(* ===== verification/Framing.thy ===== *)
theory Framing
  imports ZkPrelude
begin

text \<open>
  Packets on the socket, \<^verbatim>\<open>send_buffer\<close> and \<^verbatim>\<open>recv_buffer\<close> of \<^verbatim>\<open>src/zookeeper.c\<close>: a packet is the four
  bytes of its length followed by its bytes, and both functions resume where the last call stopped. The kernel's socket is a
  plan of what each call does (how many bytes it takes or delivers, whether it would block, whether it
  fails) with the bytes that went out and the bytes that are coming in. The lemmas show that however the kernel
  splits the traffic, the bytes sent are the frame and nothing else, and the receiver reassembles exactly the
  packet and leaves the next one in the socket.
\<close>

section \<open>The socket\<close>

datatype io_event = Io nat | Io_again | Io_closed | Io_error

record sock =
  so_plan :: "io_event list"
  so_out :: bytes
  so_in :: bytes

datatype 'a io = Got 'a | Eagain | Efail

definition sock_send :: "sock \<Rightarrow> bytes \<Rightarrow> nat io \<times> sock" where
  \<comment> \<open>POSIX \<^verbatim>\<open>send\<close>: at most the bytes given are taken; with no event left the call would block\<close>
  "sock_send s data =
     (case so_plan s of
        [] \<Rightarrow> (Eagain, s)
      | Io n # p \<Rightarrow> (Got (min n (length data)), s\<lparr>so_plan := p, so_out := so_out s @ take n data\<rparr>)
      | Io_again # p \<Rightarrow> (Eagain, s\<lparr>so_plan := p\<rparr>)
      | _ # p \<Rightarrow> (Efail, s\<lparr>so_plan := p\<rparr>))"

definition sock_recv :: "sock \<Rightarrow> nat \<Rightarrow> bytes io \<times> sock" where
  \<comment> \<open>POSIX \<^verbatim>\<open>recv\<close>: between one byte and \<open>n\<close> bytes of what is there; no bytes for a closed connection or \<open>n = 0\<close>\<close>
  "sock_recv s n =
     (case so_plan s of
        [] \<Rightarrow> (Eagain, s)
      | Io k # p \<Rightarrow>
          if n = 0 then (Got [], s\<lparr>so_plan := p\<rparr>)
          else if so_in s = [] then (Eagain, s\<lparr>so_plan := p\<rparr>)
          else
            let m = min n (Suc k)
            in (Got (take m (so_in s)), s\<lparr>so_plan := p, so_in := drop m (so_in s)\<rparr>)
      | Io_again # p \<Rightarrow> (Eagain, s\<lparr>so_plan := p\<rparr>)
      | Io_closed # p \<Rightarrow> (Got [], s\<lparr>so_plan := p\<rparr>)
      | Io_error # p \<Rightarrow> (Efail, s\<lparr>so_plan := p\<rparr>))"

section \<open>Packets\<close>

record buffer_list =
  bl_buffer :: "bytes option"
  bl_len :: i32
  bl_curr_offset :: int

definition allocate_buffer :: "host \<Rightarrow> bytes option \<Rightarrow> int \<Rightarrow> buffer_list option" where
  \<comment> \<open>\<open>None\<close> is the null pointer; a length of 0 is replaced by the size of the structure\<close>
  "allocate_buffer E buff len =
     (if \<not> grants E 24 then None
      else Some \<lparr>bl_buffer = buff, bl_len = (if len = 0 then 24 else word_of_int len), bl_curr_offset = 0\<rparr>)"

definition whole_packet :: "buffer_list \<Rightarrow> int \<Rightarrow> bool" where
  \<comment> \<open>\<^verbatim>\<open>buff->curr_offset == len + sizeof(buff->len)\<close>, compared as \<^verbatim>\<open>size_t\<close>\<close>
  "whole_packet b len \<longleftrightarrow> to_size (bl_curr_offset b) = to_size (len + 4)"

definition send_body :: "buffer_list \<Rightarrow> sock \<Rightarrow> (int \<times> buffer_list \<times> sock) option" where
  "send_body b s =
     (let len = sint (bl_len b) in
      if bl_curr_offset b \<ge> 4 then do {
        let off = bl_curr_offset b - 4;
        src \<leftarrow> mem_read (bl_buffer b) off (len - off);
        case sock_send s src of
          (Efail, s) \<Rightarrow> Some (- 1, b, s)
        | (Eagain, s) \<Rightarrow> Some (if whole_packet b len then 1 else 0, b, s)
        | (Got n, s) \<Rightarrow>
            let b = b\<lparr>bl_curr_offset := bl_curr_offset b + int n\<rparr>
            in Some (if whole_packet b len then 1 else 0, b, s)
      }
      else Some (if whole_packet b len then 1 else 0, b, s))"

definition send_buffer :: "host \<Rightarrow> buffer_list \<Rightarrow> sock \<Rightarrow> (int \<times> buffer_list \<times> sock) option" where
  "send_buffer E b s =
     (let off = bl_curr_offset b in
      if off < 4 then do {
        src \<leftarrow> mem_read (Some (host32 E (htonl E (bl_len b)))) off (4 - off);
        case sock_send s src of
          (Efail, s) \<Rightarrow> Some (- 1, b, s)
        | (Eagain, s) \<Rightarrow> Some (0, b, s)
        | (Got n, s) \<Rightarrow> send_body (b\<lparr>bl_curr_offset := bl_curr_offset b + int n\<rparr>) s
      }
      else send_body b s)"

definition recv_body :: "bool \<Rightarrow> buffer_list \<Rightarrow> sock \<Rightarrow> (int \<times> buffer_list \<times> sock) option" where
  \<comment> \<open>\<open>primer\<close> says that the packet is the handshake's, for which one byte less than announced will do\<close>
  "recv_body primer b s =
     (let len = sint (bl_len b); done = (\<lambda>b. if whole_packet b len then 1 else 0) in
      case bl_buffer b of
        None \<Rightarrow> Some (done b, b, s)
      | Some _ \<Rightarrow>
          let off = bl_curr_offset b - 4 in
          case sock_recv s (nat (to_size (len - off))) of
            (Efail, s) \<Rightarrow> Some (- 1, b, s)
          | (Eagain, s) \<Rightarrow> Some (done b, b, s)
          | (Got bs, s) \<Rightarrow> do {
              buf \<leftarrow> (if bs = [] then bl_buffer b else mem_write (bl_buffer b) off bs);
              let rc = int (length bs);
              let rc = (if primer \<and> rc = len - 1 then rc + 1 else rc);
              let b = b\<lparr>bl_buffer := Some buf\<rparr>;
              if rc = 0 then Some (- 1, b, s)
              else
                let b = b\<lparr>bl_curr_offset := bl_curr_offset b + rc\<rparr>
                in Some (done b, b, s)
            })"

definition recv_buffer :: "host \<Rightarrow> bool \<Rightarrow> buffer_list \<Rightarrow> sock \<Rightarrow> (int \<times> buffer_list \<times> sock) option" where
  "recv_buffer E primer b s =
     (let off = bl_curr_offset b in
      if off < 4 then
        (case sock_recv s (nat (to_size (4 - off))) of
           (Efail, s) \<Rightarrow> Some (- 1, b, s)
         | (Eagain, s) \<Rightarrow> Some (0, b, s)
         | (Got bs, s) \<Rightarrow>
             if bs = [] then Some (- 1, b, s)
             else do {
               l \<leftarrow> mem_write (Some (host32 E (bl_len b))) off bs;
               let b = b\<lparr>bl_len := of_host32 E l, bl_curr_offset := off + int (length bs)\<rparr>;
               let b = (if bl_curr_offset b = 4
                        then
                          let len = ntohl E (bl_len b) in
                          b\<lparr>bl_len := len,
                            bl_buffer := (if grants E (to_size (sint len))
                                          then Some (replicate (nat (sint len)) NUL) else None)\<rparr>
                        else b);
               recv_body primer b s
             })
      else recv_body primer b s)"

section \<open>Sending\<close>

definition packet :: "bytes \<Rightarrow> buffer_list \<Rightarrow> bool" where
  \<comment> \<open>a packet of these bytes, in any state of transmission; the block may be longer than the packet\<close>
  "packet p b \<longleftrightarrow> (\<exists>junk. bl_buffer b = Some (p @ junk)) \<and> sint (bl_len b) = int (length p) \<and>
     0 \<le> bl_curr_offset b \<and> bl_curr_offset b \<le> int (length p) + 4"

definition frame :: "bytes \<Rightarrow> bytes" where
  "frame p = be32 (of_nat (length p)) @ p"

lemma length_frame [simp]: "length (frame p) = length p + 4"
  by (simp add: frame_def)

lemma packet_len: "packet p b \<Longrightarrow> bl_len b = of_nat (length p)"
proof -
  assume "packet p b"
  then have "word_of_int (sint (bl_len b)) = (of_nat (length p) :: i32)" by (simp add: packet_def)
  then show ?thesis by simp
qed

lemma packet_bound: "packet p b \<Longrightarrow> int (length p) \<le> INT_MAX"
  using sint32_range(2) [of "bl_len b"] by (simp add: packet_def)

lemma whole_packet_iff: "packet p b \<Longrightarrow> whole_packet b (sint (bl_len b)) \<longleftrightarrow> bl_curr_offset b = int (length p) + 4"
  using packet_bound [of p b] by (simp add: packet_def whole_packet_def)

definition good_plan :: "io_event list \<Rightarrow> bool" where
  \<comment> \<open>every call goes through, for at least one byte\<close>
  "good_plan es \<longleftrightarrow> (\<forall>e \<in> set es. \<exists>k. e = Io (Suc k))"

lemma good_plan_drop: "good_plan es \<Longrightarrow> good_plan (drop i es)"
  by (auto simp: good_plan_def dest: in_set_dropD)

definition progress :: "nat \<Rightarrow> bytes \<Rightarrow> buffer_list \<Rightarrow> sock \<Rightarrow> int \<Rightarrow> buffer_list \<Rightarrow> sock \<Rightarrow> bool" where
  \<comment> \<open>a call moved the packet forward and put exactly the passed part of its frame on the wire, in at most \<open>j\<close> events\<close>
  "progress j p b s rc b' s' \<longleftrightarrow> packet p b' \<and> bl_curr_offset b \<le> bl_curr_offset b' \<and>
     so_out s' = so_out s @ take (nat (bl_curr_offset b' - bl_curr_offset b)) (drop (nat (bl_curr_offset b)) (frame p)) \<and>
     so_in s' = so_in s \<and> rc \<in> {- 1, 0, 1} \<and> (rc = 1 \<longrightarrow> bl_curr_offset b' = int (length p) + 4) \<and>
     (rc = 0 \<longrightarrow> bl_curr_offset b' \<noteq> int (length p) + 4) \<and>
     (\<exists>i \<le> j. so_plan s' = drop i (so_plan s)) \<and>
     (good_plan (so_plan s) \<longrightarrow> rc \<noteq> - 1 \<and>
       (so_plan s = [] \<or> bl_curr_offset b < bl_curr_offset b' \<or> bl_curr_offset b = int (length p) + 4))"

lemma progressI:
  assumes "packet p b'" and "bl_curr_offset b' = bl_curr_offset b + int n"
    and "so_out s' = so_out s @ take n (drop (nat (bl_curr_offset b)) (frame p))" and "so_in s' = so_in s"
    and "so_plan s' = drop 1 (so_plan s)" and "0 < j"
    and "good_plan (so_plan s) \<Longrightarrow> rc \<noteq> - 1 \<and> (so_plan s = [] \<or> 0 < n \<or> bl_curr_offset b = int (length p) + 4)"
    and "rc = - 1 \<or> rc = (if whole_packet b' (sint (bl_len b')) then 1 else 0)"
  shows "progress j p b s rc b' s'"
proof -
  have "whole_packet b' (sint (bl_len b')) \<longleftrightarrow> bl_curr_offset b' = int (length p) + 4"
    using assms(1) by (rule whole_packet_iff)
  moreover have "\<exists>i \<le> j. so_plan s' = drop i (so_plan s)" using assms(5,6) by (intro exI [of _ 1]) simp
  ultimately show ?thesis using assms unfolding progress_def by auto
qed

lemma sock_send_cases:
  "sock_send s d = (r, s') \<Longrightarrow> so_in s' = so_in s \<and>
   (case r of Got n \<Rightarrow> n \<le> length d \<and> so_out s' = so_out s @ take n d | _ \<Rightarrow> so_out s' = so_out s) \<and>
   so_plan s' = drop 1 (so_plan s) \<and>
   (good_plan (so_plan s) \<longrightarrow> r \<noteq> Efail \<and> (so_plan s = [] \<or> (\<exists>n. r = Got n \<and> (0 < n \<or> d = []))))"
  by (auto simp: sock_send_def good_plan_def min_def split: list.splits io_event.splits)

lemma send_body_progress:
  assumes "packet p b" and "4 \<le> bl_curr_offset b"
  shows "\<exists>rc b' s'. send_body b s = Some (rc, b', s') \<and> progress 1 p b s rc b' s'"
proof -
  define off where "off = nat (bl_curr_offset b - 4)"
  have off: "bl_curr_offset b = int off + 4" "off \<le> length p" using assms by (auto simp: off_def packet_def)
  have src: "mem_read (bl_buffer b) (int off) (int (length p) - int off) = Some (drop off p)"
    using assms(1) off by (auto simp: packet_def mem_read_def)
  have fr: "drop (nat (bl_curr_offset b)) (frame p) = drop off p" using off by (simp add: frame_def nat_add_distrib)
  obtain r s1 where r: "sock_send s (drop off p) = (r, s1)" by fastforce
  note c = sock_send_cases [OF r]
  have emp: "drop off p = [] \<Longrightarrow> bl_curr_offset b = int (length p) + 4" using off by simp
  show ?thesis
  proof (cases r)
    case (Got n)
    let ?b = "b\<lparr>bl_curr_offset := bl_curr_offset b + int n\<rparr>"
    have "send_body b s = Some (if whole_packet ?b (sint (bl_len ?b)) then 1 else 0, ?b, s1)"
      using assms off src r Got by (simp add: send_body_def packet_def Let_def)
    moreover have "packet p ?b" using assms(1) c Got off by (auto simp: packet_def)
    then have "progress 1 p b s (if whole_packet ?b (sint (bl_len ?b)) then 1 else 0) ?b s1"
      by (rule progressI [where n = n]) (use c Got fr emp in auto)
    ultimately show ?thesis by blast
  next
    case Eagain
    have "send_body b s = Some (if whole_packet b (sint (bl_len b)) then 1 else 0, b, s1)"
      using assms off src r Eagain by (simp add: send_body_def packet_def Let_def)
    moreover have "progress 1 p b s (if whole_packet b (sint (bl_len b)) then 1 else 0) b s1"
      using assms(1) by (rule progressI [where n = 0]) (use c Eagain in auto)
    ultimately show ?thesis by blast
  next
    case Efail
    have "send_body b s = Some (- 1, b, s1)"
      using assms off src r Efail by (simp add: send_body_def packet_def Let_def)
    moreover have "progress 1 p b s (- 1) b s1"
      using assms(1) by (rule progressI [where n = 0]) (use c Efail in auto)
    ultimately show ?thesis by blast
  qed
qed

lemma progress_trans:
  \<comment> \<open>the header went out up to offset \<open>off + n\<close>, then the body followed\<close>
  assumes "progress 1 p (b\<lparr>bl_curr_offset := int off + int n\<rparr>) s1 rc b' s'" and "bl_curr_offset b = int off"
    and "so_out s1 = so_out s @ take n (drop off (frame p))" and "so_in s1 = so_in s"
    and "so_plan s1 = drop 1 (so_plan s)" and "good_plan (so_plan s) \<Longrightarrow> so_plan s = [] \<or> 0 < n"
  shows "progress 2 p b s rc b' s'"
proof -
  have le: "int off + int n \<le> bl_curr_offset b'" using assms(1) by (simp add: progress_def)
  have "nat (bl_curr_offset b' - int off) = n + nat (bl_curr_offset b' - (int off + int n))" using le by simp
  then have "take n (drop off (frame p)) @ take (nat (bl_curr_offset b' - (int off + int n))) (drop (off + n) (frame p)) =
      take (nat (bl_curr_offset b' - int off)) (drop off (frame p))"
    by (simp add: take_add add.commute)
  moreover obtain i where "i \<le> 1" "so_plan s' = drop i (so_plan s1)" using assms(1) by (auto simp: progress_def)
  then have "\<exists>i \<le> 2. so_plan s' = drop i (so_plan s)" using assms(5) by (intro exI [of _ "i + 1"]) simp
  moreover have "nat (int off + int n) = off + n" by simp
  moreover have "good_plan (so_plan s) \<Longrightarrow> good_plan (so_plan s1)" using assms(5) good_plan_drop by simp
  ultimately show ?thesis using assms le unfolding progress_def by auto
qed

lemma send_buffer_progress:
  assumes "packet p b"
  shows "\<exists>rc b' s'. send_buffer E b s = Some (rc, b', s') \<and> progress 2 p b s rc b' s'"
proof (cases "4 \<le> bl_curr_offset b")
  case True
  then obtain rc b' s' where 1: "send_body b s = Some (rc, b', s')" "progress 1 p b s rc b' s'"
    using send_body_progress [OF assms True, of s] by blast
  then have "progress 2 p b s rc b' s'" unfolding progress_def by (meson le_trans one_le_numeral)
  with 1 True show ?thesis by (simp add: send_buffer_def Let_def)
next
  case False
  define off where "off = nat (bl_curr_offset b)"
  have off: "bl_curr_offset b = int off" "off < 4" using False assms by (auto simp: off_def packet_def)
  let ?h = "be32 (bl_len b)"
  have src: "mem_read (Some (host32 E (htonl E (bl_len b)))) (int off) (4 - int off) = Some (drop off ?h)"
    using off by (simp add: mem_read_def)
  obtain r s1 where r: "sock_send s (drop off ?h) = (r, s1)" by fastforce
  note c = sock_send_cases [OF r]
  have h: "?h = take 4 (frame p)" using packet_len [OF assms] by (simp add: frame_def)
  have hn: "drop off ?h \<noteq> []" using off by simp
  show ?thesis
  proof (cases r)
    case (Got n)
    let ?b = "b\<lparr>bl_curr_offset := int off + int n\<rparr>"
    have n: "n \<le> 4 - off" "so_out s1 = so_out s @ take n (drop off ?h)" "so_in s1 = so_in s" using c Got by auto
    have th: "take n (drop off ?h) = take n (drop off (frame p))"
      using n(1) off(2) unfolding h by (simp add: take_drop min_def)
    have pk: "packet p ?b" using assms n(1) off by (auto simp: packet_def)
    have eq: "send_buffer E b s = send_body ?b s1" using off src r Got by (simp add: send_buffer_def Let_def)
    show ?thesis
    proof (cases "4 \<le> bl_curr_offset ?b")
      case True
      from send_body_progress [OF pk True, of s1] obtain rc b' s' where
        2: "send_body ?b s1 = Some (rc, b', s')" "progress 1 p ?b s1 rc b' s'" by blast
      have "progress 2 p b s rc b' s'"
        using 2(2) off(1) by (rule progress_trans) (use c Got n th hn in auto)
      with 2 eq show ?thesis by simp
    next
      case f: False
      then have "send_body ?b s1 = Some (if whole_packet ?b (sint (bl_len ?b)) then 1 else 0, ?b, s1)"
        by (simp add: send_body_def Let_def)
      moreover have "progress 2 p b s (if whole_packet ?b (sint (bl_len ?b)) then 1 else 0) ?b s1"
        using pk by (rule progressI [where n = n]) (use c Got n th off hn in auto)
      ultimately show ?thesis using eq by auto
    qed
  next
    case Eagain
    have "send_buffer E b s = Some (0, b, s1)" using off src r Eagain by (simp add: send_buffer_def Let_def)
    moreover have "progress 2 p b s 0 b s1"
      using assms by (rule progressI [where n = 0]) (use c Eagain off whole_packet_iff [OF assms] in auto)
    ultimately show ?thesis by blast
  next
    case Efail
    have "send_buffer E b s = Some (- 1, b, s1)" using off src r Efail by (simp add: send_buffer_def Let_def)
    moreover have "progress 2 p b s (- 1) b s1"
      using assms by (rule progressI [where n = 0]) (use c Efail in auto)
    ultimately show ?thesis by blast
  qed
qed

fun send_calls :: "host \<Rightarrow> nat \<Rightarrow> buffer_list \<Rightarrow> sock \<Rightarrow> (int \<times> buffer_list \<times> sock) option" where
  \<comment> \<open>up to \<open>n\<close> calls, until the packet is out or the socket fails\<close>
  "send_calls E 0 b s = Some (0, b, s)"
| "send_calls E (Suc n) b s = do {
     (rc, b, s) \<leftarrow> send_buffer E b s;
     if rc \<noteq> 0 then Some (rc, b, s) else send_calls E n b s
   }"

lemma send_calls_wire:
  assumes "packet p b" and "so_out s = w @ take (nat (bl_curr_offset b)) (frame p)"
  shows "\<exists>rc b' s'. send_calls E n b s = Some (rc, b', s') \<and> packet p b' \<and> rc \<in> {- 1, 0, 1} \<and>
    so_out s' = w @ take (nat (bl_curr_offset b')) (frame p) \<and> (rc = 1 \<longrightarrow> so_out s' = w @ frame p)"
  using assms
proof (induction n arbitrary: b s)
  case (Suc n)
  from send_buffer_progress [OF Suc.prems(1), of E s] obtain rc b1 s1 where
    1: "send_buffer E b s = Some (rc, b1, s1)" "progress 2 p b s rc b1 s1" by blast
  then have pk: "packet p b1" and le: "bl_curr_offset b \<le> bl_curr_offset b1" "0 \<le> bl_curr_offset b"
    using Suc.prems(1) by (auto simp: progress_def packet_def)
  have "nat (bl_curr_offset b1) = nat (bl_curr_offset b) + nat (bl_curr_offset b1 - bl_curr_offset b)" using le by simp
  then have out: "so_out s1 = w @ take (nat (bl_curr_offset b1)) (frame p)"
    using 1(2) Suc.prems(2) by (simp add: progress_def take_add)
  show ?case
  proof (cases "rc = 0")
    case True
    with Suc.IH [OF pk out] 1 show ?thesis by simp
  next
    case False
    moreover have "rc = 1 \<Longrightarrow> so_out s1 = w @ frame p" using 1(2) out by (simp add: progress_def nat_add_distrib)
    ultimately show ?thesis using 1 pk out by (auto simp: progress_def)
  qed
qed simp

lemma send_calls_complete:
  assumes "packet p b" and "good_plan (so_plan s)" and "2 * n \<le> length (so_plan s)"
    and "int (length p) + 4 - bl_curr_offset b < int n"
  shows "\<exists>b' s'. send_calls E n b s = Some (1, b', s')"
  using assms
proof (induction n arbitrary: b s)
  case 0
  then show ?case by (simp add: packet_def)
next
  case (Suc n)
  from send_buffer_progress [OF Suc.prems(1), of E s] obtain rc b1 s1 where
    1: "send_buffer E b s = Some (rc, b1, s1)" "progress 2 p b s rc b1 s1" by blast
  have ne: "so_plan s \<noteq> []" using Suc.prems(3) by auto
  obtain i where i: "i \<le> 2" "so_plan s1 = drop i (so_plan s)" using 1(2) by (auto simp: progress_def)
  show ?case
  proof (cases "rc = 0")
    case True
    then have "bl_curr_offset b < bl_curr_offset b1"
      using 1(2) Suc.prems(2) ne by (auto simp: progress_def packet_def)
    then have "int (length p) + 4 - bl_curr_offset b1 < int n" using Suc.prems(4) by simp
    moreover have "packet p b1" using 1(2) by (simp add: progress_def)
    moreover have "good_plan (so_plan s1)" "2 * n \<le> length (so_plan s1)"
      using i Suc.prems(2,3) good_plan_drop by auto
    ultimately show ?thesis using Suc.IH [of b1 s1] 1 True by simp
  next
    case False
    with 1 Suc.prems(2) show ?thesis by (auto simp: progress_def)
  qed
qed

section \<open>Receiving\<close>

definition rx :: "host \<Rightarrow> bytes \<Rightarrow> bytes \<Rightarrow> buffer_list \<Rightarrow> sock \<Rightarrow> bool" where
  \<comment> \<open>part of the frame of \<open>p\<close>, followed by \<open>rest\<close> in the stream, has been received into \<open>b\<close>; the bytes of
      the length that are missing are still those of 24, the length \<^verbatim>\<open>allocate_buffer\<close> starts with\<close>
  "rx E p rest b s \<longleftrightarrow>
     p \<noteq> [] \<and> int (length p) \<le> INT_MAX \<and> grants E (int (length p)) \<and>
     0 \<le> bl_curr_offset b \<and> bl_curr_offset b \<le> int (length p) + 4 \<and>
     so_in s = drop (nat (bl_curr_offset b)) (frame p @ rest) \<and>
     (if bl_curr_offset b < 4
      then bl_buffer b = None \<and>
        take (nat (bl_curr_offset b)) (host32 E (bl_len b)) = take (nat (bl_curr_offset b)) (frame p) \<and>
        drop (nat (bl_curr_offset b)) (host32 E (bl_len b)) = drop (nat (bl_curr_offset b)) (host32 E 24)
      else sint (bl_len b) = int (length p) \<and>
        (\<exists>buf. bl_buffer b = Some buf \<and> length buf = length p \<and>
           take (nat (bl_curr_offset b - 4)) buf = take (nat (bl_curr_offset b - 4)) p))"

definition rprogress :: "nat \<Rightarrow> host \<Rightarrow> bytes \<Rightarrow> bytes \<Rightarrow> buffer_list \<Rightarrow> sock \<Rightarrow> int \<Rightarrow> buffer_list \<Rightarrow> sock \<Rightarrow> bool" where
  "rprogress j E p rest b s rc b' s' \<longleftrightarrow> rx E p rest b' s' \<and> bl_curr_offset b \<le> bl_curr_offset b' \<and>
     rc \<in> {- 1, 0, 1} \<and> (rc = 1 \<longrightarrow> bl_curr_offset b' = int (length p) + 4) \<and>
     (rc = 0 \<longrightarrow> bl_curr_offset b' \<noteq> int (length p) + 4) \<and> (\<exists>i \<le> j. so_plan s' = drop i (so_plan s)) \<and>
     (good_plan (so_plan s) \<longrightarrow> rc \<noteq> - 1 \<and> (so_plan s = [] \<or> bl_curr_offset b < bl_curr_offset b'))"

lemma sock_recv_cases:
  "sock_recv s n = (r, s') \<Longrightarrow> 0 < n \<Longrightarrow>
   (case r of Got bs \<Rightarrow> length bs \<le> n \<and> so_in s = bs @ so_in s' | _ \<Rightarrow> so_in s' = so_in s) \<and>
   so_plan s' = drop 1 (so_plan s) \<and>
   (good_plan (so_plan s) \<longrightarrow> so_in s \<noteq> [] \<longrightarrow> r \<noteq> Efail \<and> r \<noteq> Got [] \<and> (so_plan s = [] \<or> (\<exists>bs. r = Got bs)))"
  by (auto simp: sock_recv_def good_plan_def Let_def split: list.splits io_event.splits if_splits)

lemma rx_whole:
  assumes "rx E p rest b s" and "4 \<le> bl_curr_offset b"
  shows "whole_packet b (sint (bl_len b)) \<longleftrightarrow> bl_curr_offset b = int (length p) + 4"
  using assms by (simp add: rx_def whole_packet_def)

lemma stream_split:
  assumes "drop k (frame p @ rest) = bs @ r" and "k + length bs \<le> length p + 4"
  shows "r = drop (k + length bs) (frame p @ rest)" and "bs = take (length bs) (drop k (frame p))"
proof -
  have "r = drop (length bs) (drop k (frame p @ rest))" unfolding assms(1) by simp
  then show "r = drop (k + length bs) (frame p @ rest)" by (simp only: drop_drop add.commute)
  have "bs = take (length bs) (bs @ r)" by simp
  also have "\<dots> = take (length bs) (drop k (frame p))"
    unfolding assms(1) [symmetric] using assms(2) by simp
  finally show "bs = take (length bs) (drop k (frame p))" .
qed

lemma recv_body_progress:
  assumes "rx E p rest b s" and "4 \<le> bl_curr_offset b" and "bl_curr_offset b < int (length p) + 4"
  shows "\<exists>rc b' s'. recv_body False b s = Some (rc, b', s') \<and> rprogress 1 E p rest b s rc b' s'"
proof -
  define off where "off = nat (bl_curr_offset b - 4)"
  have off: "bl_curr_offset b = int off + 4" "off < length p" "nat (bl_curr_offset b) = off + 4"
    using assms(2,3) by (auto simp: off_def)
  obtain buf where buf: "bl_buffer b = Some buf" "length buf = length p" "take off buf = take off p"
    "sint (bl_len b) = int (length p)" "so_in s = drop (off + 4) (frame p @ rest)"
    and pre: "p \<noteq> []" "int (length p) \<le> INT_MAX" "grants E (int (length p))"
    using assms off by (auto simp: rx_def)
  let ?n = "length p - off"
  have n: "nat (to_size (int (length p) - int off)) = ?n" "0 < ?n"
    using off pre by auto
  have ne: "so_in s \<noteq> []" using buf(5) off by simp
  obtain r s1 where r: "sock_recv s ?n = (r, s1)" by fastforce
  note c = sock_recv_cases [OF r n(2)]
  have i: "\<exists>i \<le> 1. so_plan s1 = drop i (so_plan s)" using c by auto
  have same: "rx E p rest b s1" if "so_in s1 = so_in s" using assms(1) that by (simp add: rx_def)
  show ?thesis
  proof (cases r)
    case (Got bs)
    show ?thesis
    proof (cases "bs = []")
      case True
      have "recv_body False b s = Some (- 1, b\<lparr>bl_buffer := Some buf\<rparr>, s1)"
        using buf off n r Got True by (simp add: recv_body_def Let_def)
      moreover have "b\<lparr>bl_buffer := Some buf\<rparr> = b" using buf(1) by simp
      ultimately show ?thesis using same c Got True i ne unfolding rprogress_def by auto
    next
      case False
      let ?k = "length bs"
      let ?buf = "take off buf @ bs @ drop (off + ?k) buf"
      let ?b = "b\<lparr>bl_buffer := Some ?buf, bl_curr_offset := bl_curr_offset b + int ?k\<rparr>"
      have k: "off + ?k \<le> length p" "so_in s = bs @ so_in s1" using c Got off by auto
      have st: "so_in s1 = drop (off + 4 + ?k) (frame p @ rest)" "bs = take ?k (drop (off + 4) (frame p))"
        using stream_split [of "off + 4" p rest bs "so_in s1"] k buf(5) by auto
      have bsp: "bs = take ?k (drop off p)" using st(2) by (simp add: frame_def)
      have tk: "take (off + ?k) ?buf = take (off + ?k) p"
        using buf(2,3) k(1) bsp off(2) by (simp add: take_add)
      have "mem_write (Some buf) (int off) bs = Some ?buf" using k(1) buf(2) by (simp add: mem_write_def)
      then have eq: "recv_body False b s = Some (if whole_packet ?b (sint (bl_len ?b)) then 1 else 0, ?b, s1)"
        using buf off n r Got False by (simp add: recv_body_def Let_def)
      have nats: "nat (int off + 4 + int ?k) = off + 4 + ?k" "nat (int off + 4 + int ?k - 4) = off + ?k" by simp_all
      have rx': "rx E p rest ?b s1"
        unfolding rx_def using pre buf(2,4) k(1) st(1) tk off by (simp add: nats nat_int_add)
      have "rprogress 1 E p rest b s (if whole_packet ?b (sint (bl_len ?b)) then 1 else 0) ?b s1"
        using rx' rx_whole [OF rx'] off i False unfolding rprogress_def by auto
      with eq show ?thesis by blast
    qed
  next
    case Eagain
    have "recv_body False b s = Some (if whole_packet b (sint (bl_len b)) then 1 else 0, b, s1)"
      using buf off n r Eagain by (simp add: recv_body_def Let_def)
    moreover have "\<not> whole_packet b (sint (bl_len b))" using rx_whole [OF assms(1,2)] assms(3) by simp
    ultimately show ?thesis using same c Eagain i ne assms(3) unfolding rprogress_def by auto
  next
    case Efail
    have "recv_body False b s = Some (- 1, b, s1)" using buf off n r Efail by (simp add: recv_body_def Let_def)
    then show ?thesis using same c Efail i ne unfolding rprogress_def by auto
  qed
qed

lemma recv_header:
  assumes "rx E p rest b s" and "bl_curr_offset b < 4" and "so_in s = bs @ r" and "bs \<noteq> []"
    and "int (length bs) \<le> 4 - bl_curr_offset b"
  shows "\<exists>l. mem_write (Some (host32 E (bl_len b))) (bl_curr_offset b) bs = Some l \<and> length l = 4 \<and>
    take (nat (bl_curr_offset b) + length bs) l = take (nat (bl_curr_offset b) + length bs) (frame p) \<and>
    drop (nat (bl_curr_offset b) + length bs) l = drop (nat (bl_curr_offset b) + length bs) (host32 E 24) \<and>
    r = drop (nat (bl_curr_offset b) + length bs) (frame p @ rest)"
proof -
  define k where "k = nat (bl_curr_offset b)"
  have k: "bl_curr_offset b = int k" "k < 4" using assms(1,2) by (auto simp: rx_def k_def)
  have len: "k + length bs \<le> 4" using assms(5) k by simp
  have st: "drop k (frame p @ rest) = bs @ r" and h: "take k (host32 E (bl_len b)) = take k (frame p)"
    and d: "drop k (host32 E (bl_len b)) = drop k (host32 E 24)"
    using assms k by (auto simp: rx_def)
  have le: "k + length bs \<le> length p + 4" using len by simp
  note s = stream_split [OF st le]
  let ?l = "take k (host32 E (bl_len b)) @ bs @ drop (k + length bs) (host32 E (bl_len b))"
  have "take (k + length bs) ?l = take k (frame p) @ bs" using h k(2) len by simp
  also have "\<dots> = take (k + length bs) (frame p)" using s(2) by (simp add: take_add)
  finally have "take (k + length bs) ?l = take (k + length bs) (frame p)" .
  moreover have "mem_write (Some (host32 E (bl_len b))) (int k) bs = Some ?l" using len by (simp add: mem_write_def)
  moreover have "length ?l = 4" using len by simp
  moreover have "drop (k + length bs) ?l = drop (k + length bs) (host32 E 24)"
    using arg_cong [OF d, of "drop (length bs)"] k(2) by (simp add: add.commute)
  ultimately show ?thesis using s(1) k(1) by simp
qed

lemma last_byte_differs:
  "l = - 1 \<or> l = - 2 \<or> l = - 3 \<Longrightarrow> drop 3 (host32 E l) \<noteq> drop 3 (host32 E 24)"
proof -
  have m1: "unat (- 1 :: i32) = 4294967295" by (simp add: unsigned_minus_1_eq_mask mask_eq_exp_minus_1)
  show "l = - 1 \<or> l = - 2 \<or> l = - 3 \<Longrightarrow> ?thesis"
    by (elim disjE) (simp_all add: host32_def be32_unfold char_of_eq_char_of m1)
qed

lemma partial_length_not_whole:
  \<comment> \<open>a length that is only partly received is never mistaken for the end of the packet\<close>
  assumes "0 < k" and "k < 4" and "drop k (host32 E l) = drop k (host32 E 24)"
  shows "to_size (int k) \<noteq> to_size (sint l + 4)"
proof
  assume eq: "to_size (int k) = to_size (sint l + 4)"
  have k: "to_size (int k) = int k" using assms(2) by simp
  have "sint l + 4 = int k"
  proof (cases "0 \<le> sint l + 4")
    case True
    then show ?thesis using eq k sint32_range [of l] by simp
  next
    case False
    then have "to_size (sint l + 4) = sint l + 4 + 2 ^ 64" using sint32_range [of l] by (intro to_size_neg) auto
    then show ?thesis using eq k sint32_range [of l] assms(2) by simp
  qed
  then have l: "sint l = - 1 \<or> sint l = - 2 \<or> sint l = - 3" using assms(1,2) by linarith
  then have "word_of_int (sint l) = (- 1 :: i32) \<or> word_of_int (sint l) = (- 2 :: i32) \<or> word_of_int (sint l) = (- 3 :: i32)"
    by (elim disjE) simp_all
  then have "drop 3 (host32 E l) \<noteq> drop 3 (host32 E 24)" by (intro last_byte_differs) simp
  moreover have "drop 3 (host32 E l) = drop 3 (host32 E 24)"
    using arg_cong [OF assms(3), of "drop (3 - k)"] assms(2) by simp
  ultimately show False by simp
qed

lemma recv_buffer_progress:
  assumes "rx E p rest b s" and "bl_curr_offset b < int (length p) + 4"
  shows "\<exists>rc b' s'. recv_buffer E False b s = Some (rc, b', s') \<and> rprogress 2 E p rest b s rc b' s'"
proof (cases "4 \<le> bl_curr_offset b")
  case True
  then obtain rc b' s' where 1: "recv_body False b s = Some (rc, b', s')" "rprogress 1 E p rest b s rc b' s'"
    using recv_body_progress [OF assms(1) True assms(2)] by blast
  then have "rprogress 2 E p rest b s rc b' s'" unfolding rprogress_def by (meson le_trans one_le_numeral)
  with 1 True show ?thesis by (simp add: recv_buffer_def Let_def)
next
  case False
  define k where "k = nat (bl_curr_offset b)"
  have k: "bl_curr_offset b = int k" "k < 4" using assms(1) False by (auto simp: rx_def k_def)
  have pre: "p \<noteq> []" "int (length p) \<le> INT_MAX" "grants E (int (length p))" "bl_buffer b = None"
    using assms(1) False by (auto simp: rx_def)
  have n: "nat (to_size (4 - int k)) = 4 - k" "0 < 4 - k" using k by auto
  have ne: "so_in s \<noteq> []" using assms(1) k by (simp add: rx_def)
  obtain r s1 where r: "sock_recv s (4 - k) = (r, s1)" by fastforce
  note c = sock_recv_cases [OF r n(2)]
  have i: "\<exists>i \<le> 2. so_plan s1 = drop i (so_plan s)" using c by (intro exI [of _ 1]) simp
  have same: "rx E p rest b s1" if "so_in s1 = so_in s" using assms(1) that by (simp add: rx_def)
  show ?thesis
  proof (cases r)
    case (Got bs)
    show ?thesis
    proof (cases "bs = []")
      case True
      have "recv_buffer E False b s = Some (- 1, b, s1)"
        using k n r Got True by (simp add: recv_buffer_def Let_def)
      then show ?thesis using same c Got True i ne unfolding rprogress_def by auto
    next
      case bs: False
      have len: "int (length bs) \<le> 4 - bl_curr_offset b" "so_in s = bs @ so_in s1" using c Got k by auto
      from recv_header [OF assms(1) _ len(2) bs len(1)] k obtain l where
        l: "mem_write (Some (host32 E (bl_len b))) (int k) bs = Some l" "length l = 4"
          "take (k + length bs) l = take (k + length bs) (frame p)" "drop (k + length bs) l = drop (k + length bs) (host32 E 24)"
          "so_in s1 = drop (k + length bs) (frame p @ rest)"
        by (auto simp: nat_int_add)
      let ?b0 = "b\<lparr>bl_len := of_host32 E l, bl_curr_offset := int k + int (length bs)\<rparr>"
      have b0: "host32 E (bl_len ?b0) = l" using l(2) by (simp add: host32_of_host32)
      show ?thesis
      proof (cases "k + length bs = 4")
        case full: True
        have "l = be32 (of_nat (length p))" using l(2,3) full by (simp add: frame_def)
        then have nl: "ntohl E (of_host32 E l) = of_nat (length p)" by (simp add: ntohl_of_host32)
        have sl: "sint (of_nat (length p) :: i32) = int (length p)"
          using sint_word_of_int32 [of "int (length p)"] pre(2) by simp
        have ts: "to_size (int (length p)) = int (length p)" using pre(2) by simp
        let ?b = "b\<lparr>bl_curr_offset := 4, bl_len := of_nat (length p), bl_buffer := Some (replicate (length p) NUL)\<rparr>"
        have off4: "int k + int (length bs) = 4" using full by linarith
        have eq: "recv_buffer E False b s = recv_body False ?b s1"
          using k n r Got bs l(1) nl sl pre(3) off4 ts by (simp add: recv_buffer_def Let_def)
        have rx1: "rx E p rest ?b s1" using pre l(5) full sl by (simp add: rx_def)
        from recv_body_progress [OF rx1] pre(1) obtain rc b' s' where
          2: "recv_body False ?b s1 = Some (rc, b', s')" "rprogress 1 E p rest ?b s1 rc b' s'" by auto
        obtain j where "j \<le> 1" "so_plan s' = drop j (so_plan s1)" using 2(2) by (auto simp: rprogress_def)
        then have "\<exists>i \<le> 2. so_plan s' = drop i (so_plan s)" using c by (intro exI [of _ "j + 1"]) simp
        moreover have "good_plan (so_plan s) \<Longrightarrow> good_plan (so_plan s1)" using c good_plan_drop by simp
        ultimately have "rprogress 2 E p rest b s rc b' s'" using 2(2) k unfolding rprogress_def by auto
        with eq 2(1) show ?thesis by simp
      next
        case part: False
        then have lt: "k + length bs < 4" using len k by simp
        have eq: "recv_buffer E False b s = Some (if whole_packet ?b0 (sint (bl_len ?b0)) then 1 else 0, ?b0, s1)"
          using k n r Got bs l(1) pre(4) lt by (simp add: recv_buffer_def recv_body_def Let_def)
        have rx0: "rx E p rest ?b0 s1"
          using pre l lt b0 by (simp add: rx_def nat_int_add)
        have "drop (k + length bs) (host32 E (bl_len ?b0)) = drop (k + length bs) (host32 E 24)"
          unfolding b0 by (rule l(4))
        then have "\<not> whole_packet ?b0 (sint (bl_len ?b0))"
          using partial_length_not_whole [of "k + length bs" E "bl_len ?b0"] lt bs by (simp add: whole_packet_def)
        with eq rx0 i bs k lt show ?thesis unfolding rprogress_def by auto
      qed
    qed
  next
    case Eagain
    have "recv_buffer E False b s = Some (0, b, s1)" using k n r Eagain by (simp add: recv_buffer_def Let_def)
    then show ?thesis using same c Eagain i ne assms(2) unfolding rprogress_def by auto
  next
    case Efail
    have "recv_buffer E False b s = Some (- 1, b, s1)" using k n r Efail by (simp add: recv_buffer_def Let_def)
    then show ?thesis using same c Efail i ne unfolding rprogress_def by auto
  qed
qed

fun recv_calls :: "host \<Rightarrow> nat \<Rightarrow> buffer_list \<Rightarrow> sock \<Rightarrow> (int \<times> buffer_list \<times> sock) option" where
  \<comment> \<open>up to \<open>n\<close> calls, until the packet is there or the socket fails\<close>
  "recv_calls E 0 b s = Some (0, b, s)"
| "recv_calls E (Suc n) b s = do {
     (rc, b, s) \<leftarrow> recv_buffer E False b s;
     if rc \<noteq> 0 then Some (rc, b, s) else recv_calls E n b s
   }"

lemma recv_calls_rx:
  assumes "rx E p rest b s" and "bl_curr_offset b < int (length p) + 4"
  shows "\<exists>rc b' s'. recv_calls E n b s = Some (rc, b', s') \<and> rx E p rest b' s' \<and> rc \<in> {- 1, 0, 1} \<and>
    (rc = 1 \<longrightarrow> bl_curr_offset b' = int (length p) + 4)"
  using assms
proof (induction n arbitrary: b s)
  case (Suc n)
  from recv_buffer_progress [OF Suc.prems] obtain rc b1 s1 where
    1: "recv_buffer E False b s = Some (rc, b1, s1)" "rprogress 2 E p rest b s rc b1 s1" by blast
  show ?case
  proof (cases "rc = 0")
    case True
    then have "rx E p rest b1 s1" "bl_curr_offset b1 < int (length p) + 4"
      using 1(2) by (auto simp: rprogress_def rx_def)
    with Suc.IH 1 True show ?thesis by simp
  next
    case False
    with 1 show ?thesis by (auto simp: rprogress_def)
  qed
qed simp

lemma recv_calls_complete:
  assumes "rx E p rest b s" and "bl_curr_offset b < int (length p) + 4" and "good_plan (so_plan s)"
    and "2 * n \<le> length (so_plan s)" and "int (length p) + 4 - bl_curr_offset b \<le> int n"
  shows "\<exists>b' s'. recv_calls E n b s = Some (1, b', s')"
  using assms
proof (induction n arbitrary: b s)
  case 0
  then show ?case by simp
next
  case (Suc n)
  from recv_buffer_progress [OF Suc.prems(1,2)] obtain rc b1 s1 where
    1: "recv_buffer E False b s = Some (rc, b1, s1)" "rprogress 2 E p rest b s rc b1 s1" by blast
  have ne: "so_plan s \<noteq> []" using Suc.prems(4) by auto
  obtain i where i: "i \<le> 2" "so_plan s1 = drop i (so_plan s)" using 1(2) by (auto simp: rprogress_def)
  show ?case
  proof (cases "rc = 0")
    case True
    then have b1: "rx E p rest b1 s1" "bl_curr_offset b1 < int (length p) + 4" "bl_curr_offset b < bl_curr_offset b1"
      using 1(2) Suc.prems(3) ne by (auto simp: rprogress_def rx_def)
    moreover have "good_plan (so_plan s1)" "2 * n \<le> length (so_plan s1)"
      using i Suc.prems(3,4) good_plan_drop by auto
    moreover have "int (length p) + 4 - bl_curr_offset b1 \<le> int n" using b1(3) Suc.prems(5) by simp
    ultimately show ?thesis using Suc.IH [of b1 s1] 1 True by simp
  next
    case False
    with 1 Suc.prems(3) show ?thesis by (auto simp: rprogress_def)
  qed
qed

lemma fresh_rx:
  assumes "p \<noteq> []" and "int (length p) \<le> INT_MAX" and "grants E (int (length p))" and "so_in s = frame p @ rest"
    and "allocate_buffer E None 0 = Some b"
  shows "rx E p rest b s \<and> bl_curr_offset b = 0"
  using assms by (auto simp: rx_def allocate_buffer_def split: if_splits)

lemma rx_end:
  assumes "rx E p rest b s" and "bl_curr_offset b = int (length p) + 4"
  shows "bl_buffer b = Some p" and "so_in s = rest"
  using assms by (auto simp: rx_def nat_add_distrib)

section \<open>Properties\<close>

text \<open>
  Sending: however the kernel splits the calls, blocks in between or fails, the bytes that reached the wire
  are a prefix of the frame (four bytes of length, then the packet), as long as the recorded offset says, and
  \<^verbatim>\<open>send_buffer\<close> returns 1 only when all of it is out; when every call goes through for at least a byte, it gets there.
\<close>

theorem send_buffer_frames:
  assumes "packet p b" and "bl_curr_offset b = 0"
  shows "(\<exists>rc b' s'. send_calls E n b s = Some (rc, b', s') \<and> rc \<in> {- 1, 0, 1} \<and>
      so_out s' = so_out s @ take (nat (bl_curr_offset b')) (frame p) \<and> (rc = 1 \<longrightarrow> so_out s' = so_out s @ frame p)) \<and>
    (good_plan (so_plan s) \<and> 2 * n \<le> length (so_plan s) \<and> length p + 4 < n \<longrightarrow>
      (\<exists>b' s'. send_calls E n b s = Some (1, b', s')))"
  using send_calls_wire [OF assms(1), of s "so_out s" E n] send_calls_complete [OF assms(1), of s n E] assms(2)
  by auto

definition quiet_host :: host where
  "quiet_host = \<lparr>grants = (\<lambda>n. n \<le> 2 ^ 20), extends = (\<lambda>_. False), big_endian = False\<rparr>"

theorem send_buffer_frames_witness:
  "\<exists>b' s'. send_calls quiet_host 8 \<lparr>bl_buffer = Some ''abc'', bl_len = 3, bl_curr_offset = 0\<rparr>
      \<lparr>so_plan = replicate 16 (Io 1), so_out = ''x'', so_in = []\<rparr> = Some (1, b', s') \<and>
      so_out s' = ''x'' @ frame ''abc''"
  using send_buffer_frames [of "''abc''" "\<lparr>bl_buffer = Some ''abc'', bl_len = 3, bl_curr_offset = 0\<rparr>" quiet_host 8
      "\<lparr>so_plan = replicate 16 (Io 1), so_out = ''x'', so_in = []\<rparr>"]
  by (auto simp: packet_def good_plan_def)

text \<open>
  (C19) Receiving: a fresh input buffer fed from a stream that starts with the frame of a non-empty packet collects,
  however the kernel splits the stream, exactly that packet: when \<^verbatim>\<open>recv_buffer\<close> returns 1 the buffer holds the
  packet's bytes and the stream is at the first byte of what follows. A length that has only partly arrived is
  never mistaken for the end, and when every call delivers a byte the packet does arrive.
\<close>

theorem recv_buffer_reassembles:
  assumes "p \<noteq> []" and "int (length p) \<le> INT_MAX" and "grants E (int (length p))" and "so_in s = frame p @ rest"
    and "allocate_buffer E None 0 = Some b"
  shows "(\<exists>rc b' s'. recv_calls E n b s = Some (rc, b', s') \<and> rc \<in> {- 1, 0, 1} \<and>
      (rc = 1 \<longrightarrow> bl_buffer b' = Some p \<and> so_in s' = rest)) \<and>
    (good_plan (so_plan s) \<and> 2 * n \<le> length (so_plan s) \<and> length p + 4 \<le> n \<longrightarrow>
      (\<exists>b' s'. recv_calls E n b s = Some (1, b', s')))"
proof -
  from fresh_rx [OF assms] have r: "rx E p rest b s" "bl_curr_offset b < int (length p) + 4" "bl_curr_offset b = 0" by auto
  from recv_calls_rx [OF r(1,2), of n] obtain rc b' s' where
    1: "recv_calls E n b s = Some (rc, b', s')" "rx E p rest b' s'" "rc \<in> {- 1, 0, 1}"
      "rc = 1 \<longrightarrow> bl_curr_offset b' = int (length p) + 4" by blast
  have "rc = 1 \<longrightarrow> bl_buffer b' = Some p \<and> so_in s' = rest" using 1(2,4) rx_end by blast
  moreover have "good_plan (so_plan s) \<and> 2 * n \<le> length (so_plan s) \<and> length p + 4 \<le> n \<longrightarrow>
      (\<exists>b' s'. recv_calls E n b s = Some (1, b', s'))"
    using recv_calls_complete [OF r(1,2), of n] r(3) by auto
  ultimately show ?thesis using 1 by blast
qed

theorem recv_buffer_reassembles_witness:
  "\<exists>rc b' s'. recv_calls quiet_host 7 \<lparr>bl_buffer = None, bl_len = 24, bl_curr_offset = 0\<rparr>
      \<lparr>so_plan = replicate 14 (Io 1), so_out = [], so_in = frame ''abc'' @ ''def''\<rparr> = Some (rc, b', s') \<and>
      rc = 1 \<and> bl_buffer b' = Some ''abc'' \<and> so_in s' = ''def''"
proof -
  let ?b = "\<lparr>bl_buffer = None, bl_len = 24, bl_curr_offset = 0\<rparr>"
  let ?s = "\<lparr>so_plan = replicate 14 (Io 1), so_out = [], so_in = frame ''abc'' @ ''def''\<rparr>"
  have "allocate_buffer quiet_host None 0 = Some ?b" by (simp add: allocate_buffer_def quiet_host_def)
  from recv_buffer_reassembles [of "''abc''" quiet_host ?s "''def''" ?b 7, OF _ _ _ _ this] show ?thesis
    by (auto simp: quiet_host_def good_plan_def)
qed

end
