(* ===== verification/Handle.thy ===== *)
theory Handle
  imports Complex_Main Jute Addrvec Watchers Framing
begin

text \<open>
  The handle of \<^verbatim>\<open>src/zk_adaptor.h\<close> and the parts of \<^verbatim>\<open>src/zookeeper.c\<close> that only touch its queues: authentication
  lists, completion entries, the queues of outgoing buffers and outstanding requests, the flush of the outgoing queue.
  A \<open>client\<close> is the handle with the part of the process it acts on: the socket, the static transaction counter, the
  number of system calls so far, and a trace of the calls into user code, which is all that a callback does here.
  The \<open>os\<close> record is what the process runs on: the allocator, the clock, \<^verbatim>\<open>poll\<close>, the wake-up pipe, and which of the
  two libraries (single or multi threaded) it is linked with. Queues are lists, which theory \<open>PtrQueue\<close> justifies;
  mutexes are erased, since every operation here runs inside its critical section.
\<close>

section \<open>Data\<close>

record timeval =
  tv_sec :: int
  tv_usec :: int

datatype connect_result = Connect_done | Connect_pending | Connect_failed

datatype gai_result = Gai_ok "(nat \<times> addrinfo) list" | Gai_bad_flags | Gai_failed int

record os =
  os_host :: host
  os_threaded :: bool
  os_clock :: "nat \<Rightarrow> timeval option"
  os_time :: i32
  os_poll :: "nat \<Rightarrow> int"
  os_wakeup :: "nat \<Rightarrow> bool"
  os_loglevel :: nat
  os_socket :: "nat \<Rightarrow> int"
  os_connect :: "nat \<Rightarrow> connect_result"
  os_new_sock :: "nat \<Rightarrow> sock"
  os_so_error :: "nat \<Rightarrow> bool"
  os_isro :: "nat \<Rightarrow> bytes option"
  os_getaddrinfo :: "nat \<Rightarrow> bool \<Rightarrow> bytes \<Rightarrow> bytes \<Rightarrow> gai_result"
  os_random :: "nat \<Rightarrow> nat"
  os_drand48 :: "nat \<Rightarrow> rat"
  os_round :: "rat \<Rightarrow> rat"

text \<open>
  Every field that takes a number is asked with the count of system calls made so far, so that each call may have an answer of
  its own: \<open>os_new_sock\<close> is the connection that a call of \<^verbatim>\<open>connect\<close> starts, \<open>os_isro\<close> what a server answers to the
  probe \<^verbatim>\<open>isro\<close>, \<open>os_getaddrinfo\<close> what the resolver answers with or without \<^verbatim>\<open>AI_ADDRCONFIG\<close>, \<open>os_round\<close> the rounding of
  the results of floating point operations; a probability that is not a finite number is \<open>None\<close>.
\<close>

datatype callback = No_fn | SYNCHRONOUS_MARKER | Fn nat | op_result_string_fn | op_result_void_fn | op_result_stat_fn

datatype completion_type = COMPLETION_WATCH | COMPLETION_VOID | COMPLETION_STAT | COMPLETION_DATA
  | COMPLETION_STRINGLIST | COMPLETION_STRINGLIST_STAT | COMPLETION_ACLLIST | COMPLETION_STRING
  | COMPLETION_MULTI | COMPLETION_STRING_STAT

datatype completion_list = Completion
  (cl_xid: i32) (cl_type: completion_type) (cl_fn: callback) (cl_watcher_result: "watcher_object_list option")
  (cl_clist: "completion_list list") (cl_data: nat) (cl_buffer: "buffer_list option")
  (cl_watcher: "watcher_registration option") (cl_watcher_deregistration: "watcher_deregistration option")

fun set_cl_buffer :: "buffer_list option \<Rightarrow> completion_list \<Rightarrow> completion_list" where
  "set_cl_buffer b (Completion x t f w cs d _ r dr) = Completion x t f w cs d b r dr"

fun set_cl_watcher_result :: "watcher_object_list option \<Rightarrow> completion_list \<Rightarrow> completion_list" where
  "set_cl_watcher_result w (Completion x t f _ cs d b r dr) = Completion x t f w cs d b r dr"

record auth_info =
  au_state :: int
  au_scheme :: cstr
  au_auth :: cbuffer
  au_completion :: nat
  au_data :: nat

datatype user_call =
    Void_call nat int nat
  | Stat_call nat int "Stat option" nat
  | Data_call nat int "bytes option" i32 "Stat option" nat
  | Strings_call nat int "cstr vector option" nat
  | Strings_stat_call nat int "cstr vector option" "Stat option" nat
  | String_call nat int cstr nat
  | String_stat_call nat int cstr "Stat option" nat
  | Acl_call nat int "ACL vector option" "Stat option" nat
  | Watcher_fn_call watcher_call

datatype input_buffer = No_input | Primer_input | Input buffer_list

record prime_struct =
  pr_len :: i32
  pr_protocolVersion :: i32
  pr_timeOut :: i32
  pr_sessionId :: i64
  pr_passwd_len :: i32
  pr_passwd :: bytes
  pr_readOnly :: char

record zhandle =
  zh_fd :: int
  zh_hostname :: cstr
  zh_addr_cur :: sockaddr
  zh_addr_rw_server :: sockaddr
  zh_addrs :: addrvec
  zh_addrs_old :: addrvec
  zh_addrs_new :: addrvec
  zh_reconfig :: bool
  zh_pOld :: "rat option"
  zh_pNew :: "rat option"
  zh_delay :: bool
  zh_disable_reconnection_attempt :: bool
  zh_watcher :: nat
  zh_last_recv :: timeval
  zh_last_send :: timeval
  zh_last_ping :: timeval
  zh_next_deadline :: timeval
  zh_recv_timeout :: i32
  zh_input_buffer :: input_buffer
  zh_to_process :: "buffer_list list"
  zh_to_send :: "buffer_list list"
  zh_sent_requests :: "completion_list list"
  zh_completions_to_process :: "completion_list list"
  zh_outstanding_sync :: int
  zh_last_ping_rw :: timeval
  zh_ping_rw_timeout :: int
  zh_state :: int
  zh_context :: nat
  zh_client_id :: i64
  zh_passwd :: bytes
  zh_last_zxid :: i64
  zh_auth_h :: "auth_info list"
  zh_primer_buffer :: buffer_list
  zh_primer_storage :: prime_struct
  zh_ref_counter :: int
  zh_close_requested :: bool
  zh_socket_readable :: timeval
  zh_watchers :: watch_tables
  zh_chroot :: cstr
  zh_allow_read_only :: char
  zh_seen_rw_server_before :: char

datatype sync_union = U_none | U_str int | U_data int Stat | U_stat Stat | U_strs "cstr vector"
  | U_strs_stat "cstr vector" Stat | U_acl "ACL vector" Stat

record sync_completion =
  sc_rc :: int
  sc_complete :: bool
  sc_u :: sync_union
  sc_buffer :: "bytes option"

record zoo_op_result =
  opr_err :: int
  opr_value :: "bytes option"
  opr_valuelen :: int
  opr_stat :: "Stat option"

record client = zhandle +
  w_null :: bool
  w_freed :: bool
  w_addr_rw :: bool
  w_sock :: sock
  w_xid :: i32
  w_ticks :: nat
  w_calls :: "user_call list"
  w_syncs :: "nat \<Rightarrow> sync_completion option"
  w_results :: "nat \<Rightarrow> zoo_op_result option"

text \<open>
  \<open>w_null\<close> says that the handle pointer a function was given is null; the fields of the handle are then not read. \<open>w_freed\<close> says
  that the handle has been freed, \<open>w_addr_rw\<close> that the static pointer \<^verbatim>\<open>addr_rw_server\<close> is set.
  \<open>w_syncs\<close> and \<open>w_results\<close> hold the structures that synchronous callers and the operations of a multi request
  own, by their address: of a synchronous completion the union \<open>sc_u\<close> (its member named by the constructor) and the caller's
  buffer \<open>sc_buffer\<close> that \<^verbatim>\<open>u.str.str\<close> or \<^verbatim>\<open>u.data.buffer\<close> points to.
\<close>

abbreviation (input) ZOO_EXPIRED_SESSION_STATE :: int where "ZOO_EXPIRED_SESSION_STATE \<equiv> - 112"
abbreviation (input) ZOO_AUTH_FAILED_STATE :: int where "ZOO_AUTH_FAILED_STATE \<equiv> - 113"
abbreviation (input) ZOO_CONNECTING_STATE :: int where "ZOO_CONNECTING_STATE \<equiv> 1"
abbreviation (input) ZOO_ASSOCIATING_STATE :: int where "ZOO_ASSOCIATING_STATE \<equiv> 2"
abbreviation (input) ZOO_CONNECTED_STATE :: int where "ZOO_CONNECTED_STATE \<equiv> 3"
abbreviation (input) ZOO_READONLY_STATE :: int where "ZOO_READONLY_STATE \<equiv> 5"

abbreviation (input) WATCHER_EVENT_XID :: i32 where "WATCHER_EVENT_XID \<equiv> - 1"
abbreviation (input) PING_XID :: i32 where "PING_XID \<equiv> - 2"
abbreviation (input) AUTH_XID :: i32 where "AUTH_XID \<equiv> - 4"
abbreviation (input) SET_WATCHES_XID :: i32 where "SET_WATCHES_XID \<equiv> - 8"

section \<open>State, time and counters\<close>

definition is_unrecoverable :: "client \<Rightarrow> int" where
  "is_unrecoverable c = (if zh_state c < 0 then ZINVALIDSTATE else ZOK)"

definition is_connected :: "client \<Rightarrow> bool" where
  "is_connected c \<longleftrightarrow> zh_state c = ZOO_CONNECTED_STATE \<or> zh_state c = ZOO_READONLY_STATE"

definition zoo_state :: "client \<Rightarrow> int" where
  "zoo_state c = (if \<not> w_null c then zh_state c else 0)"

definition zoo_set_context :: "nat \<Rightarrow> client \<Rightarrow> client" where
  "zoo_set_context ctx c = (if \<not> w_null c then c\<lparr>zh_context := ctx\<rparr> else c)"

definition zoo_get_context :: "client \<Rightarrow> nat option" where
  "zoo_get_context c = do { _ \<leftarrow> c_assert (\<not> w_null c); Some (zh_context c) }"

definition zoo_recv_timeout :: "client \<Rightarrow> i32 option" where
  "zoo_recv_timeout c = do { _ \<leftarrow> c_assert (\<not> w_null c); Some (zh_recv_timeout c) }"

definition get_system_time :: "os \<Rightarrow> client \<Rightarrow> (timeval \<times> client) option" where
  \<comment> \<open>the process aborts when there is no clock\<close>
  "get_system_time E c = do {
     tv \<leftarrow> os_clock E (w_ticks c);
     Some (tv, c\<lparr>w_ticks := w_ticks c + 1\<rparr>)
   }"

definition c_div :: "int \<Rightarrow> int \<Rightarrow> int" where
  \<comment> \<open>the division of C rounds towards zero\<close>
  "c_div a b = sgn a * sgn b * (\<bar>a\<bar> div \<bar>b\<bar>)"

definition calculate_interval :: "timeval \<Rightarrow> timeval \<Rightarrow> int" where
  "calculate_interval start end =
     to_int32 ((tv_sec end - tv_sec start) * 1000 + c_div (tv_usec end - tv_usec start) 1000)"

definition get_timeval :: "int \<Rightarrow> timeval" where
  "get_timeval interval =
     (let interval = (if interval < 0 then 0 else interval)
      in \<lparr>tv_sec = interval div 1000, tv_usec = (interval mod 1000) * 1000\<rparr>)"

definition get_xid :: "os \<Rightarrow> client \<Rightarrow> (i32 \<times> client) option" where
  \<comment> \<open>\<^verbatim>\<open>xid++\<close> on a signed counter is undefined at \<open>INT_MAX\<close>; the atomic addition of the threaded library wraps\<close>
  "get_xid E c =
     (let xid = (if w_xid c = - 1 then os_time E else w_xid c) in do {
        _ \<leftarrow> c_assert (os_threaded E \<or> sint xid < INT_MAX);
        Some (xid, c\<lparr>w_xid := xid + 1\<rparr>)
      })"

definition inc_ref_counter :: "client \<Rightarrow> int \<Rightarrow> int \<times> client" where
  "inc_ref_counter c i =
     (let n = zh_ref_counter c + (if i < 0 then - 1 else if i > 0 then 1 else 0) in (n, c\<lparr>zh_ref_counter := n\<rparr>))"

definition process_async :: "os \<Rightarrow> int \<Rightarrow> bool" where
  "process_async E outstanding_sync \<longleftrightarrow> \<not> os_threaded E \<and> outstanding_sync = 0"

section \<open>Authentication lists\<close>

definition get_last_auth :: "auth_info list \<Rightarrow> auth_info option" where
  "get_last_auth as = (if as = [] then None else Some (last as))"

definition add_last_auth :: "auth_info list \<Rightarrow> auth_info \<Rightarrow> auth_info list" where
  "add_last_auth as a = as @ [a]"

definition add_auth_completion :: "host \<Rightarrow> (nat \<times> nat) list \<Rightarrow> nat \<times> nat \<Rightarrow> (nat \<times> nat) list option" where
  \<comment> \<open>the first element is on the stack of the caller; the allocation of the others is not checked\<close>
  "add_auth_completion H a_list el =
     (if a_list = [] then Some [el]
      else do { _ \<leftarrow> c_assert (grants H 24); Some (a_list @ [el]) })"

fun get_auth_completions ::
  "host \<Rightarrow> auth_info list \<Rightarrow> (nat \<times> nat) list \<Rightarrow> (auth_info list \<times> (nat \<times> nat) list) option" where
  "get_auth_completions H [] a_list = Some ([], a_list)"
| "get_auth_completions H (a # as) a_list = do {
     a_list \<leftarrow> (if au_completion a \<noteq> 0 then add_auth_completion H a_list (au_completion a, au_data a) else Some a_list);
     (as, a_list) \<leftarrow> get_auth_completions H as a_list;
     Some (a\<lparr>au_completion := 0\<rparr> # as, a_list)
   }"

definition mark_active_auth :: "client \<Rightarrow> client" where
  "mark_active_auth c = c\<lparr>zh_auth_h := map (\<lambda>a. a\<lparr>au_state := 1\<rparr>) (zh_auth_h c)\<rparr>"

definition call_auth_completions :: "int \<Rightarrow> (nat \<times> nat) list \<Rightarrow> client \<Rightarrow> client" where
  \<comment> \<open>the loop that calls the user's functions one after the other\<close>
  "call_auth_completions rc a_list c = c\<lparr>w_calls := w_calls c @ map (\<lambda>(f, d). Void_call f rc d) a_list\<rparr>"

section \<open>Queues of buffers\<close>

definition queue_buffer_bytes :: "host \<Rightarrow> buffer_list list \<Rightarrow> bytes option \<Rightarrow> int \<Rightarrow> int \<times> buffer_list list" where
  "queue_buffer_bytes H list buff len =
     (case allocate_buffer H buff len of None \<Rightarrow> (ZSYSTEMERROR, list) | Some b \<Rightarrow> (ZOK, list @ [b]))"

definition queue_front_buffer_bytes ::
  "host \<Rightarrow> buffer_list list \<Rightarrow> bytes option \<Rightarrow> int \<Rightarrow> int \<times> buffer_list list" where
  "queue_front_buffer_bytes H list buff len =
     (case allocate_buffer H buff len of None \<Rightarrow> (ZSYSTEMERROR, list) | Some b \<Rightarrow> (ZOK, b # list))"

definition remove_buffer :: "buffer_list list \<Rightarrow> bool \<times> buffer_list list" where
  "remove_buffer list = (case list of [] \<Rightarrow> (False, []) | b # bs \<Rightarrow> (True, bs))"

fun free_buffers :: "buffer_list list \<Rightarrow> buffer_list list" where
  "free_buffers [] = []"
| "free_buffers (b # bs) = free_buffers bs"

section \<open>Completion entries\<close>

definition create_watcher_registration ::
  "host \<Rightarrow> cstr \<Rightarrow> result_checker \<Rightarrow> nat \<Rightarrow> nat \<Rightarrow> watcher_registration option option" where
  \<comment> \<open>the result of \<^verbatim>\<open>calloc\<close> is not checked; the inner \<open>None\<close> is the null pointer\<close>
  "create_watcher_registration H path checker watcher ctx =
     (if watcher = 0 then Some None
      else do {
        _ \<leftarrow> c_assert (grants H 32);
        p \<leftarrow> path;
        Some (Some \<lparr>wr_watcher = watcher, wr_context = ctx, wr_checker = checker, wr_path = strdup H p\<rparr>)
      })"

definition create_watcher_deregistration ::
  "host \<Rightarrow> cstr \<Rightarrow> nat \<Rightarrow> nat \<Rightarrow> int \<Rightarrow> watcher_deregistration option option" where
  "create_watcher_deregistration H path watcher ctx wtype =
     (if \<not> grants H 32 then Some None
      else do {
        p \<leftarrow> path;
        Some (Some \<lparr>wd_watcher = watcher, wd_context = ctx, wd_type = wtype, wd_path = strdup H p\<rparr>)
      })"

definition do_create_completion_entry ::
  "os \<Rightarrow> i32 \<Rightarrow> completion_type \<Rightarrow> callback \<Rightarrow> nat \<Rightarrow> watcher_registration option \<Rightarrow>
   completion_list list option \<Rightarrow> watcher_deregistration option \<Rightarrow> completion_list option option" where
  \<comment> \<open>the inner \<open>None\<close> is the null pointer; an entry for a watcher event gets no function\<close>
  "do_create_completion_entry E xid ct dc data wo clist wdo =
     (if \<not> grants (os_host E) (if os_threaded E then 168 else 80) then Some None
      else
        (let entry = (\<lambda>f cs. Some (Some (Completion xid ct f None cs data None wo wdo))) in
         case ct of
           COMPLETION_WATCH \<Rightarrow> entry No_fn []
         | COMPLETION_MULTI \<Rightarrow> do { cs \<leftarrow> clist; entry dc cs }
         | _ \<Rightarrow> entry dc []))"

definition create_completion_entry ::
  "os \<Rightarrow> i32 \<Rightarrow> completion_type \<Rightarrow> callback \<Rightarrow> nat \<Rightarrow> watcher_registration option \<Rightarrow>
   completion_list list option \<Rightarrow> completion_list option option" where
  "create_completion_entry E xid ct dc data wo clist = do_create_completion_entry E xid ct dc data wo clist None"

definition create_completion_entry_deregistration ::
  "os \<Rightarrow> i32 \<Rightarrow> completion_type \<Rightarrow> callback \<Rightarrow> nat \<Rightarrow> watcher_deregistration option \<Rightarrow>
   completion_list list option \<Rightarrow> completion_list option option" where
  "create_completion_entry_deregistration E xid ct dc data wdo clist =
     do_create_completion_entry E xid ct dc data None clist wdo"

definition do_add_completion :: "callback \<Rightarrow> completion_list option \<Rightarrow> bool \<Rightarrow> client \<Rightarrow> int \<times> client" where
  "do_add_completion dc cl add_to_front c =
     (case cl of
        None \<Rightarrow> (ZSYSTEMERROR, c)
      | Some e \<Rightarrow>
          if \<not> zh_close_requested c then
            let c = c\<lparr>zh_sent_requests := (if add_to_front then e # zh_sent_requests c else zh_sent_requests c @ [e])\<rparr>;
                c = (if dc = SYNCHRONOUS_MARKER then c\<lparr>zh_outstanding_sync := zh_outstanding_sync c + 1\<rparr> else c)
            in (ZOK, c)
          else (ZINVALIDSTATE, c))"

definition add_completion ::
  "os \<Rightarrow> i32 \<Rightarrow> completion_type \<Rightarrow> callback \<Rightarrow> nat \<Rightarrow> bool \<Rightarrow> watcher_registration option \<Rightarrow>
   completion_list list option \<Rightarrow> client \<Rightarrow> (int \<times> client) option" where
  "add_completion E xid ct dc data add_to_front wo clist c = do {
     cl \<leftarrow> create_completion_entry E xid ct dc data wo clist;
     Some (do_add_completion dc cl add_to_front c)
   }"

definition add_completion_deregistration ::
  "os \<Rightarrow> i32 \<Rightarrow> completion_type \<Rightarrow> callback \<Rightarrow> nat \<Rightarrow> bool \<Rightarrow> watcher_deregistration option \<Rightarrow>
   completion_list list option \<Rightarrow> client \<Rightarrow> (int \<times> client) option" where
  "add_completion_deregistration E xid ct dc data add_to_front wdo clist c = do {
     cl \<leftarrow> create_completion_entry_deregistration E xid ct dc data wdo clist;
     Some (do_add_completion dc cl add_to_front c)
   }"

definition add_data_completion where
  "add_data_completion E xid dc data wo = add_completion E xid COMPLETION_DATA dc data False wo None"

definition add_stat_completion where
  "add_stat_completion E xid dc data wo = add_completion E xid COMPLETION_STAT dc data False wo None"

definition add_strings_completion where
  "add_strings_completion E xid dc data wo = add_completion E xid COMPLETION_STRINGLIST dc data False wo None"

definition add_strings_stat_completion where
  "add_strings_stat_completion E xid dc data wo = add_completion E xid COMPLETION_STRINGLIST_STAT dc data False wo None"

definition add_acl_completion where
  "add_acl_completion E xid dc data = add_completion E xid COMPLETION_ACLLIST dc data False None None"

definition add_void_completion where
  "add_void_completion E xid dc data = add_completion E xid COMPLETION_VOID dc data False None None"

definition add_string_completion where
  "add_string_completion E xid dc data = add_completion E xid COMPLETION_STRING dc data False None None"

definition add_string_stat_completion where
  "add_string_stat_completion E xid dc data = add_completion E xid COMPLETION_STRING_STAT dc data False None None"

definition add_multi_completion where
  "add_multi_completion E xid dc data clist = add_completion E xid COMPLETION_MULTI dc data False None clist"

section \<open>The flush of the outgoing queue\<close>

definition flush_wait :: "os \<Rightarrow> int \<Rightarrow> timeval \<Rightarrow> client \<Rightarrow> (int option \<times> client) option" where
  \<comment> \<open>the wait of a blocking flush: \<open>Some rc\<close> leaves the loop with that code\<close>
  "flush_wait E timeout started c = do {
     (now, c) \<leftarrow> get_system_time E c;
     let elapsed = calculate_interval started now;
     if elapsed > timeout then Some (Some ZOPERATIONTIMEOUT, c)
     else
       let rc = os_poll E (w_ticks c); c = c\<lparr>w_ticks := w_ticks c + 1\<rparr>
       in Some (if rc \<le> 0 then Some (if rc = 0 then ZOPERATIONTIMEOUT else ZSYSTEMERROR) else None, c)
   }"

partial_function (option) flush_loop :: "os \<Rightarrow> int \<Rightarrow> timeval \<Rightarrow> int \<Rightarrow> client \<Rightarrow> (int \<times> client) option" where
  "flush_loop E timeout started rc c =
     (case zh_to_send c of
        [] \<Rightarrow> Some (rc, c)
      | b # bs \<Rightarrow>
          if \<not> is_connected c then Some (rc, c)
          else do {
            (stop, c) \<leftarrow> (if timeout \<noteq> 0 then flush_wait E timeout started c else Some (None, c));
            case stop of
              Some rc \<Rightarrow> Some (rc, c)
            | None \<Rightarrow> do {
                (rc, b, s) \<leftarrow> send_buffer (os_host E) b (w_sock c);
                let c = c\<lparr>w_sock := s, zh_to_send := b # bs\<rparr>;
                if rc = 0 \<and> timeout = 0 then Some (ZOK, c)
                else if rc < 0 then Some (ZCONNECTIONLOSS, c)
                else do {
                  let c = (if rc > 0 then c\<lparr>zh_to_send := snd (remove_buffer (zh_to_send c))\<rparr> else c);
                  (tv, c) \<leftarrow> get_system_time E c;
                  flush_loop E timeout started ZOK (c\<lparr>zh_last_send := tv\<rparr>)
                }
              }
          })"

definition flush_send_queue :: "os \<Rightarrow> int \<Rightarrow> client \<Rightarrow> (int \<times> client) option" where
  "flush_send_queue E timeout c = do {
     (started, c) \<leftarrow> get_system_time E c;
     flush_loop E timeout started ZOK c
   }"

definition wakeup_io_thread :: "os \<Rightarrow> client \<Rightarrow> int \<times> client" where
  "wakeup_io_thread E c =
     (if os_wakeup E (w_ticks c) then ZOK else ZSYSTEMERROR, c\<lparr>w_ticks := w_ticks c + 1\<rparr>)"

definition adaptor_send_queue :: "os \<Rightarrow> int \<Rightarrow> client \<Rightarrow> (int \<times> client) option" where
  \<comment> \<open>the single threaded library flushes, the multi threaded one wakes its I/O thread unless the handle is closing\<close>
  "adaptor_send_queue E timeout c =
     (if os_threaded E \<and> \<not> zh_close_requested c then Some (wakeup_io_thread E c)
      else flush_send_queue E timeout c)"

section \<open>What a flush does\<close>

definition payload :: "buffer_list \<Rightarrow> bytes" where
  "payload b = (case bl_buffer b of None \<Rightarrow> [] | Some buf \<Rightarrow> take (nat (sint (bl_len b))) buf)"

definition unsent :: "buffer_list \<Rightarrow> bytes" where
  \<comment> \<open>the bytes of the frame that are not on the wire yet\<close>
  "unsent b = drop (nat (bl_curr_offset b)) (frame (payload b))"

definition pending :: "buffer_list list \<Rightarrow> bytes" where
  "pending bs = concat (map unsent bs)"

definition out_stream :: "client \<Rightarrow> bytes" where
  \<comment> \<open>everything the client has sent and will send: the wire and then the queue\<close>
  "out_stream c = so_out (w_sock c) @ pending (zh_to_send c)"

definition is_packet :: "buffer_list \<Rightarrow> bool" where
  "is_packet b \<longleftrightarrow> (\<exists>p. packet p b)"

definition has_clock :: "os \<Rightarrow> bool" where
  "has_clock E \<longleftrightarrow> (\<forall>n. os_clock E n \<noteq> None)"

definition io_rest :: "client \<Rightarrow> client" where
  \<comment> \<open>the client without what a flush may change: the socket, the outgoing queue, the clock\<close>
  "io_rest c = c\<lparr>w_sock := \<lparr>so_plan = [], so_out = [], so_in = []\<rparr>, zh_to_send := [], w_ticks := 0,
     zh_last_send := \<lparr>tv_sec = 0, tv_usec = 0\<rparr>\<rparr>"

lemma packet_payload: "packet p b \<Longrightarrow> payload b = p"
  by (auto simp: packet_def payload_def)

lemma io_rest_update [simp]: "io_rest (c\<lparr>w_sock := s\<rparr>) = io_rest c" "io_rest (c\<lparr>zh_to_send := q\<rparr>) = io_rest c"
  "io_rest (c\<lparr>w_ticks := n\<rparr>) = io_rest c" "io_rest (c\<lparr>zh_last_send := tv\<rparr>) = io_rest c"
  by (simp_all add: io_rest_def)

lemma io_rest_fields:
  assumes "io_rest c' = io_rest c"
  shows "zh_state c' = zh_state c" "zh_sent_requests c' = zh_sent_requests c" "zh_close_requested c' = zh_close_requested c"
    "zh_watchers c' = zh_watchers c" "w_calls c' = w_calls c" "zh_chroot c' = zh_chroot c" "w_xid c' = w_xid c"
    "zh_outstanding_sync c' = zh_outstanding_sync c" "w_null c' = w_null c"
    "zh_completions_to_process c' = zh_completions_to_process c"
  using assms [THEN arg_cong [where f = zh_state]] assms [THEN arg_cong [where f = zh_sent_requests]]
    assms [THEN arg_cong [where f = zh_close_requested]] assms [THEN arg_cong [where f = zh_watchers]]
    assms [THEN arg_cong [where f = w_calls]] assms [THEN arg_cong [where f = zh_chroot]]
    assms [THEN arg_cong [where f = w_xid]] assms [THEN arg_cong [where f = zh_outstanding_sync]]
    assms [THEN arg_cong [where f = w_null]] assms [THEN arg_cong [where f = zh_completions_to_process]]
  by (simp_all add: io_rest_def)

lemma send_buffer_stream:
  assumes "is_packet b" and "send_buffer H b s = Some (rc, b', s')"
  shows "is_packet b'" and "payload b' = payload b" and "so_out s' @ unsent b' = so_out s @ unsent b"
    and "rc = 1 \<Longrightarrow> unsent b' = []" and "rc \<in> {- 1, 0, 1}"
proof -
  obtain p where p: "packet p b" using assms(1) by (auto simp: is_packet_def)
  have pr: "progress 2 p b s rc b' s'" using send_buffer_progress [OF p, of H s] assms(2) by auto
  then have p': "packet p b'" by (simp add: progress_def)
  show "is_packet b'" "payload b' = payload b" using p p' packet_payload by (auto simp: is_packet_def)
  define i j where "i = nat (bl_curr_offset b)" and "j = nat (bl_curr_offset b')"
  have ij: "i \<le> j" "nat (bl_curr_offset b' - bl_curr_offset b) = j - i"
    using pr p by (auto simp: progress_def packet_def i_def j_def nat_diff_distrib)
  then have "take (j - i) (drop i (frame p)) @ drop j (frame p) = drop i (frame p)"
    by (metis append_take_drop_id drop_drop le_add_diff_inverse2)
  then show "so_out s' @ unsent b' = so_out s @ unsent b"
    using pr ij p p' by (simp add: progress_def unsent_def packet_payload flip: i_def j_def)
  show "rc = 1 \<Longrightarrow> unsent b' = []" "rc \<in> {- 1, 0, 1}"
    using pr p' by (auto simp: progress_def unsent_def packet_payload)
qed

lemma send_buffer_returns: "is_packet b \<Longrightarrow> \<exists>rc b' s'. send_buffer H b s = Some (rc, b', s')"
  using send_buffer_progress by (fastforce simp: is_packet_def)

lemma pending_Cons [simp]: "pending (b # bs) = unsent b @ pending bs" "pending [] = []"
  by (simp_all add: pending_def)

lemma pending_append [simp]: "pending (as @ bs) = pending as @ pending bs"
  by (simp add: pending_def)

text \<open>One step of the loop without a timeout, as the loop sees it.\<close>

lemma flush_loop_Nil: "zh_to_send c = [] \<Longrightarrow> flush_loop E timeout started rc c = Some (rc, c)"
  by (subst flush_loop.simps) simp

lemma flush_loop_off: "\<not> is_connected c \<Longrightarrow> flush_loop E timeout started rc c = Some (rc, c)"
  by (subst flush_loop.simps) (simp split: list.splits)

lemma flush_loop_step:
  assumes "zh_to_send c = b # bs" and "is_connected c" and "send_buffer (os_host E) b (w_sock c) = Some (r, b', s')"
    and "os_clock E (w_ticks c) = Some tv" and "r \<in> {- 1, 0, 1}"
  shows "flush_loop E 0 started rc c =
    (if r = 0 then Some (ZOK, c\<lparr>w_sock := s', zh_to_send := b' # bs\<rparr>)
     else if r < 0 then Some (ZCONNECTIONLOSS, c\<lparr>w_sock := s', zh_to_send := b' # bs\<rparr>)
     else flush_loop E 0 started ZOK (c\<lparr>w_sock := s', zh_to_send := bs, w_ticks := w_ticks c + 1, zh_last_send := tv\<rparr>))"
  using assms by (subst flush_loop.simps) (auto simp: get_system_time_def remove_buffer_def Let_def)

lemma flush_loop_stream:
  assumes "list_all is_packet (zh_to_send c)" and "has_clock E"
  shows "\<exists>rc c'. flush_loop E 0 started rc0 c = Some (rc, c') \<and> out_stream c' = out_stream c \<and>
    list_all is_packet (zh_to_send c') \<and> io_rest c' = io_rest c \<and> rc \<in> {rc0, ZOK, ZCONNECTIONLOSS}"
  using assms
proof (induction "zh_to_send c" arbitrary: c rc0)
  case Nil
  then show ?case by (intro exI conjI) (rule flush_loop_Nil, simp_all)
next
  case (Cons b bs)
  show ?case
  proof (cases "is_connected c")
    case True
    have b: "is_packet b" "list_all is_packet bs" using Cons.prems(1) by (simp_all flip: Cons.hyps(2))
    obtain r b' s' where r: "send_buffer (os_host E) b (w_sock c) = Some (r, b', s')"
      using send_buffer_returns [OF b(1)] by blast
    note st = send_buffer_stream [OF b(1) r]
    obtain tv where tv: "os_clock E (w_ticks c) = Some tv" using Cons.prems(2) by (auto simp: has_clock_def)
    note step = flush_loop_step [OF Cons.hyps(2) [symmetric] True r tv st(5), of started rc0]
    let ?c = "c\<lparr>w_sock := s', zh_to_send := bs, w_ticks := w_ticks c + 1, zh_last_send := tv\<rparr>"
    show ?thesis
    proof (cases "r = 1")
      case r1: True
      have "bs = zh_to_send ?c" "list_all is_packet (zh_to_send ?c)" using b by simp_all
      from Cons.hyps(1) [OF this Cons.prems(2), of ZOK] obtain rc c' where
        2: "flush_loop E 0 started ZOK ?c = Some (rc, c')" "out_stream c' = out_stream ?c"
        "list_all is_packet (zh_to_send c')" "io_rest c' = io_rest ?c" "rc \<in> {ZOK, ZCONNECTIONLOSS}" by auto
      have "out_stream ?c = out_stream c" using st(3,4) r1 Cons.hyps(2) by (simp add: out_stream_def flip: Cons.hyps(2))
      with 2 step r1 show ?thesis by auto
    next
      case False
      let ?d = "c\<lparr>w_sock := s', zh_to_send := b' # bs\<rparr>"
      have "flush_loop E 0 started rc0 c = Some (if r = 0 then ZOK else ZCONNECTIONLOSS, ?d)" using step False st(5) by auto
      moreover have "out_stream ?d = out_stream c"
        using st(3) by (simp add: out_stream_def flip: Cons.hyps(2))
      moreover have "list_all is_packet (zh_to_send ?d)" using st(1) b by simp
      ultimately show ?thesis by (intro exI conjI) (assumption, simp_all)
    qed
  qed (use Cons.prems flush_loop_off in auto)
qed

lemma flush_stream:
  assumes "list_all is_packet (zh_to_send c)" and "has_clock E"
  shows "\<exists>rc c'. flush_send_queue E 0 c = Some (rc, c') \<and> out_stream c' = out_stream c \<and>
    list_all is_packet (zh_to_send c') \<and> io_rest c' = io_rest c \<and> rc \<in> {ZOK, ZCONNECTIONLOSS}"
proof -
  obtain tv where tv: "os_clock E (w_ticks c) = Some tv" using assms(2) by (auto simp: has_clock_def)
  let ?c = "c\<lparr>w_ticks := w_ticks c + 1\<rparr>"
  have "list_all is_packet (zh_to_send ?c)" using assms(1) by simp
  from flush_loop_stream [OF this assms(2), of tv ZOK] tv show ?thesis
    by (auto simp: flush_send_queue_def get_system_time_def out_stream_def)
qed

lemma send_queue_stream:
  assumes "list_all is_packet (zh_to_send c)" and "has_clock E"
  shows "\<exists>rc c'. adaptor_send_queue E 0 c = Some (rc, c') \<and> out_stream c' = out_stream c \<and>
    list_all is_packet (zh_to_send c') \<and> io_rest c' = io_rest c"
  using flush_stream [OF assms] assms(1)
  by (auto simp: adaptor_send_queue_def wakeup_io_thread_def out_stream_def)

text \<open>A flush with a timeout: it never changes the stream, and it returns once the clock passes the timeout.\<close>

lemma flush_wait_only_ticks:
  "flush_wait E timeout started c = Some (stop, c') \<Longrightarrow> \<exists>n > w_ticks c. c' = c\<lparr>w_ticks := n\<rparr>"
  by (auto simp: flush_wait_def get_system_time_def Let_def split: bind_splits if_splits
      intro: exI [of _ "Suc (w_ticks c)"] exI [of _ "Suc (Suc (w_ticks c))"])

lemma flush_loop_keeps_stream:
  assumes "flush_loop E timeout started rc0 c = Some r"
  shows "list_all is_packet (zh_to_send c) \<longrightarrow> out_stream (snd r) = out_stream c \<and> io_rest (snd r) = io_rest c \<and>
    list_all is_packet (zh_to_send (snd r))"
  using assms
proof (induction rule: flush_loop.raw_induct [rotated, consumes 1, case_names 1])
  case (1 loop E timeout started rc c r)
  show ?case
  proof (cases "zh_to_send c = [] \<or> \<not> is_connected c")
    case True
    with 1(2) have "r = (rc, c)" by (auto split: list.splits)
    then show ?thesis by simp
  next
    case False
    then obtain b bs where q: "zh_to_send c = b # bs" and on: "is_connected c" by (cases "zh_to_send c") auto
    from 1(2) q on obtain stop c1 where
      w: "(if timeout \<noteq> 0 then flush_wait E timeout started c else Some (None, c)) = Some (stop, c1)"
      by (auto split: bind_splits)
    have "\<exists>n. c1 = c\<lparr>w_ticks := n\<rparr>"
    proof (cases "timeout = 0")
      case True
      then show ?thesis using w by (intro exI [of _ "w_ticks c"]) simp
    qed (use w flush_wait_only_ticks [of E timeout started c stop c1] in auto)
    then obtain n where c1: "c1 = c\<lparr>w_ticks := n\<rparr>" ..
    show ?thesis
    proof (cases stop)
      case (Some rc')
      then have "r = (rc', c1)" using 1(2) q on w by simp
      then show ?thesis by (simp add: c1 out_stream_def)
    next
      case None
      show ?thesis
      proof
        assume pk: "list_all is_packet (zh_to_send c)"
        then have b: "is_packet b" "list_all is_packet bs" by (simp_all add: q)
        from 1(2) q on w None obtain k b' s' where k: "send_buffer (os_host E) b (w_sock c1) = Some (k, b', s')"
          by (auto split: bind_splits)
        note st = send_buffer_stream [OF b(1) k]
        let ?d = "c1\<lparr>w_sock := s', zh_to_send := b' # bs\<rparr>"
        have d: "out_stream ?d = out_stream c" "io_rest ?d = io_rest c" "list_all is_packet (zh_to_send ?d)"
          using st(1,3) b by (simp_all add: out_stream_def q c1)
        show "out_stream (snd r) = out_stream c \<and> io_rest (snd r) = io_rest c \<and> list_all is_packet (zh_to_send (snd r))"
        proof (cases "k < 0 \<or> k = 0 \<and> timeout = 0")
          case True
          then have "snd r = ?d" using 1(2) q on w None k by auto
          then show ?thesis using d by simp
        next
          case False
          let ?e = "if k > 0 then ?d\<lparr>zh_to_send := bs\<rparr> else ?d"
          have e: "out_stream ?e = out_stream c" "io_rest ?e = io_rest c" "list_all is_packet (zh_to_send ?e)"
            using d st(3-5) b by (auto simp: out_stream_def q c1)
          from 1(2) q on w None k False obtain tv m where
            "loop E timeout started ZOK (?e\<lparr>w_ticks := m, zh_last_send := tv\<rparr>) = Some r"
            by (auto simp: get_system_time_def remove_buffer_def Let_def split: bind_splits if_splits)
          from 1(1) [OF this] e show ?thesis by (simp add: out_stream_def)
        qed
      qed
    qed
  qed
qed

lemma flush_loop_returns:
  assumes "list_all is_packet (zh_to_send c)" and "has_clock E" and "timeout \<noteq> 0"
    and "\<forall>n \<ge> N. \<forall>tv. os_clock E n = Some tv \<longrightarrow> timeout < calculate_interval started tv"
  shows "\<exists>r. flush_loop E timeout started rc c = Some r"
  using assms
proof (induction "N - w_ticks c" arbitrary: c rc rule: less_induct)
  case less
  obtain tv where tv: "os_clock E (w_ticks c) = Some tv" using less.prems(2) by (auto simp: has_clock_def)
  show ?case
  proof (cases "zh_to_send c = [] \<or> \<not> is_connected c")
    case True
    then show ?thesis by (subst flush_loop.simps) (auto split: list.splits)
  next
    case False
    then obtain b bs where q: "zh_to_send c = b # bs" and on: "is_connected c" by (cases "zh_to_send c") auto
    have "flush_wait E timeout started c \<noteq> None" by (simp add: flush_wait_def get_system_time_def tv Let_def)
    then obtain stop c1 where w: "flush_wait E timeout started c = Some (stop, c1)" by auto
    obtain n where c1: "c1 = c\<lparr>w_ticks := n\<rparr>" "w_ticks c < n" using flush_wait_only_ticks [OF w] by auto
    show ?thesis
    proof (cases stop)
      case (Some rc')
      then show ?thesis using q on w less.prems(3) by (subst flush_loop.simps) simp
    next
      case None
      then have "\<not> timeout < calculate_interval started tv"
        using w by (auto simp: flush_wait_def get_system_time_def tv Let_def)
      then have lt: "w_ticks c < N" using less.prems(4) tv not_le by blast
      have b: "is_packet b" "list_all is_packet bs" using less.prems(1) by (simp_all add: q)
      obtain k b' s' where k: "send_buffer (os_host E) b (w_sock c1) = Some (k, b', s')"
        using send_buffer_returns [OF b(1)] by blast
      obtain tv' where tv': "os_clock E n = Some tv'" using less.prems(2) by (auto simp: has_clock_def)
      let ?e = "c1\<lparr>w_sock := s', zh_to_send := (if k > 0 then bs else b' # bs), w_ticks := n + 1, zh_last_send := tv'\<rparr>"
      have "\<exists>r. flush_loop E timeout started ZOK ?e = Some r"
        by (rule less.hyps)
          (use less.prems lt c1 b send_buffer_stream(1) [OF b(1) k] in auto)
      then show ?thesis
        using q on w None k tv' c1 less.prems(3)
        by (subst flush_loop.simps) (auto simp: get_system_time_def remove_buffer_def Let_def)
    qed
  qed
qed

section \<open>Properties\<close>

text \<open>
  (C18) Flushing the outgoing queue never loses, repeats or reorders a byte: what is on the wire followed by what is still
  queued stays the same, whatever part of it the kernel takes, and nothing else of the handle changes. Without a timeout the
  flush always returns; with one it returns as soon as the clock has passed it.
\<close>

theorem flush_keeps_stream:
  assumes "list_all is_packet (zh_to_send c)" and "has_clock E"
    and "timeout = 0 \<or> (\<exists>N. \<forall>n \<ge> N. \<forall>start tv. os_clock E (w_ticks c) = Some start \<and> os_clock E n = Some tv \<longrightarrow>
           timeout < calculate_interval start tv)"
  shows "\<exists>rc c'. flush_send_queue E timeout c = Some (rc, c') \<and> out_stream c' = out_stream c \<and>
    list_all is_packet (zh_to_send c') \<and> io_rest c' = io_rest c"
proof (cases "timeout = 0")
  case True
  with flush_stream [OF assms(1,2)] show ?thesis by blast
next
  case False
  obtain tv where tv: "os_clock E (w_ticks c) = Some tv" using assms(2) by (auto simp: has_clock_def)
  let ?c = "c\<lparr>w_ticks := w_ticks c + 1\<rparr>"
  have pk: "list_all is_packet (zh_to_send ?c)" using assms(1) by simp
  obtain N where "\<forall>n \<ge> N. \<forall>t. os_clock E n = Some t \<longrightarrow> timeout < calculate_interval tv t"
    using assms(3) False tv by auto
  from flush_loop_returns [OF pk assms(2) False this, of ZOK] obtain r where
    r: "flush_loop E timeout tv ZOK ?c = Some r" by blast
  have "out_stream ?c = out_stream c" "io_rest ?c = io_rest c" by (simp_all add: out_stream_def)
  with flush_loop_keeps_stream [OF r] pk r tv show ?thesis
    by (cases r) (auto simp: flush_send_queue_def get_system_time_def)
qed

definition test_os :: os where
  \<comment> \<open>a clock that advances one second per call, a socket that is always ready\<close>
  "test_os = \<lparr>os_host = test_host False, os_threaded = False, os_clock = (\<lambda>n. Some \<lparr>tv_sec = int n, tv_usec = 0\<rparr>),
     os_time = 1600000000, os_poll = (\<lambda>_. 1), os_wakeup = (\<lambda>_. True), os_loglevel = 3, os_socket = (\<lambda>_. 4),
     os_connect = (\<lambda>_. Connect_done), os_new_sock = (\<lambda>_. \<lparr>so_plan = replicate 50 (Io 100), so_out = [], so_in = []\<rparr>),
     os_so_error = (\<lambda>_. False), os_isro = (\<lambda>_. None), os_getaddrinfo = (\<lambda>_ _ _ _. Gai_failed 2), os_random = (\<lambda>n. n),
     os_drand48 = (\<lambda>_. 0), os_round = (\<lambda>x. x)\<rparr>"

definition prime_zero :: prime_struct where
  "prime_zero = \<lparr>pr_len = 0, pr_protocolVersion = 0, pr_timeOut = 0, pr_sessionId = 0, pr_passwd_len = 0,
     pr_passwd = replicate 16 NUL, pr_readOnly = NUL\<rparr>"

definition tv_zero :: timeval where
  "tv_zero = \<lparr>tv_sec = 0, tv_usec = 0\<rparr>"

definition test_client :: client where
  "test_client = \<lparr>zh_fd = 3, zh_hostname = Some ''a:1'', zh_addr_cur = ss_zero, zh_addr_rw_server = ss_zero,
     zh_addrs = addrvec_init, zh_addrs_old = addrvec_init, zh_addrs_new = addrvec_init, zh_reconfig = False, zh_pOld = Some 0, zh_pNew = Some 0,
     zh_delay = False, zh_disable_reconnection_attempt = False, zh_watcher = 7, zh_last_recv = \<lparr>tv_sec = 0, tv_usec = 0\<rparr>, zh_last_send = \<lparr>tv_sec = 0, tv_usec = 0\<rparr>,
     zh_last_ping = \<lparr>tv_sec = 0, tv_usec = 0\<rparr>, zh_next_deadline = \<lparr>tv_sec = 0, tv_usec = 0\<rparr>, zh_recv_timeout = 10000, zh_input_buffer = No_input,
     zh_to_process = [], zh_to_send = [], zh_sent_requests = [], zh_completions_to_process = [],
     zh_outstanding_sync = 0, zh_last_ping_rw = \<lparr>tv_sec = 0, tv_usec = 0\<rparr>, zh_ping_rw_timeout = 200, zh_state = ZOO_CONNECTED_STATE, zh_context = 0, zh_client_id = 0,
     zh_passwd = replicate 16 NUL, zh_last_zxid = 0, zh_auth_h = [],
     zh_primer_buffer = \<lparr>bl_buffer = Some (replicate 41 NUL), bl_len = 41, bl_curr_offset = 0\<rparr>,
     zh_primer_storage = prime_zero, zh_ref_counter = 0, zh_close_requested = False,
     zh_socket_readable = \<lparr>tv_sec = 0, tv_usec = 0\<rparr>, zh_watchers = no_watchers, zh_chroot = None,
     zh_allow_read_only = NUL, zh_seen_rw_server_before = NUL, w_null = False, w_freed = False, w_addr_rw = False,
     w_sock = \<lparr>so_plan = [Io 100, Io 2], so_out = [], so_in = []\<rparr>, w_xid = 5, w_ticks = 0, w_calls = [], w_syncs = (\<lambda>_. None), w_results = (\<lambda>_. None)\<rparr>"

lemma test_client_fields [simp]:
  "zh_to_send test_client = []" "zh_sent_requests test_client = []" "zh_state test_client = ZOO_CONNECTED_STATE"
  "zh_close_requested test_client = False" "zh_watchers test_client = no_watchers" "zh_chroot test_client = None"
  "w_null test_client = False" "w_xid test_client = 5" "w_calls test_client = []" "so_out (w_sock test_client) = []"
  "zh_completions_to_process test_client = []" "zh_outstanding_sync test_client = 0" "zh_watcher test_client = 7"
  "w_freed test_client = False" "zh_ref_counter test_client = 0" "zh_input_buffer test_client = No_input"
  "zh_context test_client = 0" "w_ticks test_client = 0" "zh_auth_h test_client = []"
  by (simp_all add: test_client_def)

definition hello_buffer :: buffer_list where
  "hello_buffer = \<lparr>bl_buffer = Some ''hello!'', bl_len = 5, bl_curr_offset = 0\<rparr>"

lemma has_clock_test [simp]: "has_clock test_os"
  by (simp add: has_clock_def test_os_def)

lemma is_packet_hello: "is_packet hello_buffer" "unsent hello_buffer = frame ''hello''"
proof -
  have p: "packet ''hello'' hello_buffer" by (simp add: packet_def hello_buffer_def)
  then show "is_packet hello_buffer" by (auto simp: is_packet_def)
  show "unsent hello_buffer = frame ''hello''" using packet_payload [OF p] by (simp add: unsent_def hello_buffer_def)
qed

theorem flush_keeps_stream_witness:
  "\<exists>rc c'. flush_send_queue test_os 0 (test_client\<lparr>zh_to_send := [hello_buffer]\<rparr>) = Some (rc, c') \<and>
     out_stream c' = frame ''hello''"
  using flush_keeps_stream [of "test_client\<lparr>zh_to_send := [hello_buffer]\<rparr>" test_os 0] is_packet_hello
  by (auto simp: out_stream_def)

end
