(* ===== verification/Requests.thy ===== *)
theory Requests
  imports Handle
begin

text \<open>
  The asynchronous API of \<^verbatim>\<open>src/zookeeper.c\<close>: each call checks its arguments, builds its request record, appends one
  completion entry to the outstanding requests and one packet to the outgoing queue, and tries to send. All of them end with the
  same statements, which are \<open>submit\<close> here. The lemmas show that an accepted call adds exactly one frame, the header with the
  call's transaction number and the request, to the outgoing stream and the matching entry to the outstanding
  requests, and that a refused call changes nothing but the transaction counter.
\<close>

abbreviation (input) ZOO_CREATE_OP :: i32 where "ZOO_CREATE_OP \<equiv> 1"
abbreviation (input) ZOO_DELETE_OP :: i32 where "ZOO_DELETE_OP \<equiv> 2"
abbreviation (input) ZOO_EXISTS_OP :: i32 where "ZOO_EXISTS_OP \<equiv> 3"
abbreviation (input) ZOO_GETDATA_OP :: i32 where "ZOO_GETDATA_OP \<equiv> 4"
abbreviation (input) ZOO_SETDATA_OP :: i32 where "ZOO_SETDATA_OP \<equiv> 5"
abbreviation (input) ZOO_GETACL_OP :: i32 where "ZOO_GETACL_OP \<equiv> 6"
abbreviation (input) ZOO_SETACL_OP :: i32 where "ZOO_SETACL_OP \<equiv> 7"
abbreviation (input) ZOO_GETCHILDREN_OP :: i32 where "ZOO_GETCHILDREN_OP \<equiv> 8"
abbreviation (input) ZOO_SYNC_OP :: i32 where "ZOO_SYNC_OP \<equiv> 9"
abbreviation (input) ZOO_GETCHILDREN2_OP :: i32 where "ZOO_GETCHILDREN2_OP \<equiv> 12"
abbreviation (input) ZOO_CHECK_OP :: i32 where "ZOO_CHECK_OP \<equiv> 13"
abbreviation (input) ZOO_MULTI_OP :: i32 where "ZOO_MULTI_OP \<equiv> 14"
abbreviation (input) ZOO_CREATE2_OP :: i32 where "ZOO_CREATE2_OP \<equiv> 15"
abbreviation (input) ZOO_RECONFIG_OP :: i32 where "ZOO_RECONFIG_OP \<equiv> 16"
abbreviation (input) ZOO_CHECK_WATCHES :: i32 where "ZOO_CHECK_WATCHES \<equiv> 17"
abbreviation (input) ZOO_REMOVE_WATCHES :: i32 where "ZOO_REMOVE_WATCHES \<equiv> 18"
abbreviation (input) ZOO_CREATE_CONTAINER_OP :: i32 where "ZOO_CREATE_CONTAINER_OP \<equiv> 19"
abbreviation (input) ZOO_CREATE_TTL_OP :: i32 where "ZOO_CREATE_TTL_OP \<equiv> 21"

abbreviation (input) ZOO_CONTAINER :: int where "ZOO_CONTAINER \<equiv> 4"
abbreviation (input) ZOO_MAX_TTL :: int where "ZOO_MAX_TTL \<equiv> 0xFFFFFFFFFF"

section \<open>Request initialisation\<close>

definition handle_chroot :: "client \<Rightarrow> cstr option" where
  \<comment> \<open>the handle as \<^verbatim>\<open>prepend_string\<close> sees it\<close>
  "handle_chroot c = (if w_null c then None else Some (zh_chroot c))"

definition Request_path_init :: "os \<Rightarrow> client \<Rightarrow> int \<Rightarrow> cstr \<Rightarrow> (int \<times> cstr) option" where
  "Request_path_init E c mode path = do {
     path_out \<leftarrow> prepend_string (os_host E) (handle_chroot c) path;
     valid \<leftarrow> (if w_null c then Some False else isValidPath path_out mode);
     if \<not> valid then Some (ZBADARGUMENTS, path_out)
     else if is_unrecoverable c \<noteq> 0 then Some (ZINVALIDSTATE, path_out)
     else Some (ZOK, path_out)
   }"

definition Request_path_watch_init :: "os \<Rightarrow> client \<Rightarrow> int \<Rightarrow> cstr \<Rightarrow> bool \<Rightarrow> (int \<times> cstr \<times> i32) option" where
  "Request_path_watch_init E c mode path watch = do {
     (rc, path_out) \<leftarrow> Request_path_init E c mode path;
     if rc \<noteq> ZOK then Some (rc, path_out, 0) else Some (ZOK, path_out, if watch then 1 else 0)
   }"

definition SetDataRequest_init ::
  "os \<Rightarrow> client \<Rightarrow> cstr \<Rightarrow> cbuffer \<Rightarrow> i32 \<Rightarrow> (int \<times> SetDataRequest) option" where
  "SetDataRequest_init E c path buffer version = do {
     (rc, p) \<leftarrow> Request_path_init E c 0 path;
     Some (rc, \<lparr>SetDataRequest_path = p, SetDataRequest_data = buffer, SetDataRequest_version = version\<rparr>)
   }"

definition acl_or_empty :: "ACL_vector option \<Rightarrow> ACL_vector" where
  "acl_or_empty acl_entries = (case acl_entries of None \<Rightarrow> \<lparr>vec_count = 0, vec_data = None\<rparr> | Some v \<Rightarrow> v)"

definition CreateRequest_init ::
  "os \<Rightarrow> client \<Rightarrow> cstr \<Rightarrow> cbuffer \<Rightarrow> ACL_vector option \<Rightarrow> i32 \<Rightarrow> (int \<times> CreateRequest) option" where
  "CreateRequest_init E c path value acl_entries mode = do {
     (rc, p) \<leftarrow> Request_path_init E c (sint mode) path;
     Some (rc, \<lparr>CreateRequest_path = p, CreateRequest_data = value, CreateRequest_acl = acl_or_empty acl_entries,
       CreateRequest_flags = mode\<rparr>)
   }"

definition CreateTTLRequest_init ::
  "os \<Rightarrow> client \<Rightarrow> cstr \<Rightarrow> cbuffer \<Rightarrow> ACL_vector option \<Rightarrow> i32 \<Rightarrow> i64 \<Rightarrow> (int \<times> CreateTTLRequest) option" where
  "CreateTTLRequest_init E c path value acl_entries mode ttl = do {
     (rc, p) \<leftarrow> Request_path_init E c (sint mode) path;
     Some (rc, \<lparr>CreateTTLRequest_path = p, CreateTTLRequest_data = value,
       CreateTTLRequest_acl = acl_or_empty acl_entries, CreateTTLRequest_flags = mode, CreateTTLRequest_ttl = ttl\<rparr>)
   }"

definition DeleteRequest_init :: "os \<Rightarrow> client \<Rightarrow> cstr \<Rightarrow> i32 \<Rightarrow> (int \<times> DeleteRequest) option" where
  "DeleteRequest_init E c path version = do {
     (rc, p) \<leftarrow> Request_path_init E c 0 path;
     Some (rc, \<lparr>DeleteRequest_path = p, DeleteRequest_version = version\<rparr>)
   }"

definition CheckVersionRequest_init :: "os \<Rightarrow> client \<Rightarrow> cstr \<Rightarrow> i32 \<Rightarrow> (int \<times> CheckVersionRequest) option" where
  "CheckVersionRequest_init E c path version = do {
     (rc, p) \<leftarrow> Request_path_init E c 0 path;
     Some (rc, \<lparr>CheckVersionRequest_path = p, CheckVersionRequest_version = version\<rparr>)
   }"

definition get_create_op_type :: "int \<Rightarrow> i32 \<Rightarrow> i32" where
  "get_create_op_type mode default_op =
     (if mode = ZOO_CONTAINER then ZOO_CREATE_CONTAINER_OP
      else if ZOOKEEPER_IS_TTL mode then ZOO_CREATE_TTL_OP else default_op)"

section \<open>The common end of a call\<close>

definition request_bytes :: "host \<Rightarrow> RequestHeader \<Rightarrow> (oarchive \<Rightarrow> oa_result) \<Rightarrow> oa_result" where
  \<comment> \<open>a new archive with the header and the request; \<^verbatim>\<open>rc = rc < 0 ? rc : ...\<close>\<close>
  "request_bytes H h ser = into_buffer H (\<lambda>oa. do {
     (rc, oa) \<leftarrow> serialize_RequestHeader H h oa;
     if rc < 0 then Some (rc, oa) else ser oa
   })"

definition enqueue :: "os \<Rightarrow> int \<times> oarchive \<Rightarrow> (client \<Rightarrow> (int \<times> client) option) \<Rightarrow> client \<Rightarrow> (int \<times> client) option" where
  \<comment> \<open>the critical section: add the completion, then queue the packet\<close>
  "enqueue E r add c = (case r of (rc, oa) \<Rightarrow> do {
     (rc, c) \<leftarrow> (if rc < 0 then Some (rc, c) else add c);
     if rc < 0 then Some (rc, c)
     else
       let (rc, q) = queue_buffer_bytes (os_host E) (zh_to_send c) (get_buffer oa) (get_buffer_len oa)
       in Some (rc, c\<lparr>zh_to_send := q\<rparr>)
   })"

definition submit ::
  "os \<Rightarrow> RequestHeader \<Rightarrow> (oarchive \<Rightarrow> oa_result) \<Rightarrow> (client \<Rightarrow> (int \<times> client) option) \<Rightarrow> client \<Rightarrow> (int \<times> client) option" where
  "submit E h ser add c = do {
     r \<leftarrow> request_bytes (os_host E) h ser;
     (rc, c) \<leftarrow> enqueue E r add c;
     (ignored, c) \<leftarrow> adaptor_send_queue E 0 c;
     Some (if rc < 0 then ZMARSHALLINGERROR else ZOK, c)
   }"

section \<open>The calls\<close>

definition zoo_awget ::
  "os \<Rightarrow> cstr \<Rightarrow> nat \<Rightarrow> nat \<Rightarrow> callback \<Rightarrow> nat \<Rightarrow> client \<Rightarrow> (int \<times> client) option" where
  "zoo_awget E path watcher watcherCtx dc data c = do {
     server_path \<leftarrow> prepend_string (os_host E) (handle_chroot c) path;
     (xid, c) \<leftarrow> get_xid E c;
     let h = \<lparr>RequestHeader_xid = xid, RequestHeader_type = ZOO_GETDATA_OP\<rparr>;
     let req = \<lparr>GetDataRequest_path = server_path, GetDataRequest_watch = (if watcher \<noteq> 0 then 1 else 0)\<rparr>;
     valid \<leftarrow> (if w_null c then Some False else isValidPath server_path 0);
     if \<not> valid then Some (ZBADARGUMENTS, c)
     else if is_unrecoverable c \<noteq> 0 then Some (ZINVALIDSTATE, c)
     else submit E h (serialize_GetDataRequest (os_host E) req)
       (\<lambda>c. do {
          wo \<leftarrow> create_watcher_registration (os_host E) server_path data_result_checker watcher watcherCtx;
          add_data_completion E xid dc data wo c
        }) c
   }"

definition zoo_aget :: "os \<Rightarrow> cstr \<Rightarrow> bool \<Rightarrow> callback \<Rightarrow> nat \<Rightarrow> client \<Rightarrow> (int \<times> client) option" where
  "zoo_aget E path watch dc data c = do {
     _ \<leftarrow> c_assert (\<not> w_null c);
     zoo_awget E path (if watch then zh_watcher c else 0) (zh_context c) dc data c
   }"

definition zoo_awgetconfig ::
  "os \<Rightarrow> nat \<Rightarrow> nat \<Rightarrow> callback \<Rightarrow> nat \<Rightarrow> client \<Rightarrow> (int \<times> client) option" where
  "zoo_awgetconfig E watcher watcherCtx dc data c = do {
     let server_path = Some ''/zookeeper/config'';
     (xid, c) \<leftarrow> get_xid E c;
     let h = \<lparr>RequestHeader_xid = xid, RequestHeader_type = ZOO_GETDATA_OP\<rparr>;
     let req = \<lparr>GetDataRequest_path = server_path, GetDataRequest_watch = (if watcher \<noteq> 0 then 1 else 0)\<rparr>;
     valid \<leftarrow> (if w_null c then Some False else isValidPath server_path 0);
     if \<not> valid then Some (ZBADARGUMENTS, c)
     else if is_unrecoverable c \<noteq> 0 then Some (ZINVALIDSTATE, c)
     else submit E h (serialize_GetDataRequest (os_host E) req)
       (\<lambda>c. do {
          wo \<leftarrow> create_watcher_registration (os_host E) server_path data_result_checker watcher watcherCtx;
          add_data_completion E xid dc data wo c
        }) c
   }"

definition zoo_agetconfig :: "os \<Rightarrow> bool \<Rightarrow> callback \<Rightarrow> nat \<Rightarrow> client \<Rightarrow> (int \<times> client) option" where
  "zoo_agetconfig E watch dc data c = do {
     _ \<leftarrow> c_assert (\<not> w_null c);
     zoo_awgetconfig E (if watch then zh_watcher c else 0) (zh_context c) dc data c
   }"

definition zoo_areconfig ::
  "os \<Rightarrow> cstr \<Rightarrow> cstr \<Rightarrow> cstr \<Rightarrow> i64 \<Rightarrow> callback \<Rightarrow> nat \<Rightarrow> client \<Rightarrow> (int \<times> client) option" where
  "zoo_areconfig E joining leaving members version dc data c = do {
     (xid, c) \<leftarrow> get_xid E c;
     let h = \<lparr>RequestHeader_xid = xid, RequestHeader_type = ZOO_RECONFIG_OP\<rparr>;
     if w_null c then Some (ZBADARGUMENTS, c)
     else if is_unrecoverable c \<noteq> 0 then Some (ZINVALIDSTATE, c)
     else
       let req = \<lparr>ReconfigRequest_joiningServers = joining, ReconfigRequest_leavingServers = leaving,
         ReconfigRequest_newMembers = members, ReconfigRequest_curConfigId = version\<rparr>
       in submit E h (serialize_ReconfigRequest (os_host E) req) (add_data_completion E xid dc data None) c
   }"

definition zoo_aset ::
  "os \<Rightarrow> cstr \<Rightarrow> cbuffer \<Rightarrow> i32 \<Rightarrow> callback \<Rightarrow> nat \<Rightarrow> client \<Rightarrow> (int \<times> client) option" where
  "zoo_aset E path buffer version dc data c = do {
     (xid, c) \<leftarrow> get_xid E c;
     let h = \<lparr>RequestHeader_xid = xid, RequestHeader_type = ZOO_SETDATA_OP\<rparr>;
     (rc, req) \<leftarrow> SetDataRequest_init E c path buffer version;
     if rc \<noteq> ZOK then Some (rc, c)
     else submit E h (serialize_SetDataRequest (os_host E) req) (add_stat_completion E xid dc data None) c
   }"

definition create_request ::
  "os \<Rightarrow> i32 \<Rightarrow> (i32 \<Rightarrow> client \<Rightarrow> (int \<times> client) option) \<Rightarrow> cstr \<Rightarrow> cbuffer \<Rightarrow> ACL_vector option \<Rightarrow> i32 \<Rightarrow> i64 \<Rightarrow>
   client \<Rightarrow> (int \<times> client) option" where
  \<comment> \<open>\<^verbatim>\<open>zoo_acreate_ttl\<close> and \<^verbatim>\<open>zoo_acreate2_ttl\<close> differ in the default operation and in the completion they add\<close>
  "create_request E default_op add path value acl_entries mode ttl c = do {
     (xid, c) \<leftarrow> get_xid E c;
     let h = \<lparr>RequestHeader_xid = xid, RequestHeader_type = get_create_op_type (sint mode) default_op\<rparr>;
     if ZOOKEEPER_IS_TTL (sint mode) then
       if sint ttl \<le> 0 \<or> sint ttl > ZOO_MAX_TTL then Some (ZBADARGUMENTS, c)
       else do {
         (rc, req) \<leftarrow> CreateTTLRequest_init E c path value acl_entries mode ttl;
         if rc \<noteq> ZOK then Some (rc, c)
         else submit E h (serialize_CreateTTLRequest (os_host E) req) (add xid) c
       }
     else if sint ttl \<ge> 0 then Some (ZBADARGUMENTS, c)
     else do {
       (rc, req) \<leftarrow> CreateRequest_init E c path value acl_entries mode;
       if rc \<noteq> ZOK then Some (rc, c)
       else submit E h (serialize_CreateRequest (os_host E) req) (add xid) c
     }
   }"

definition zoo_acreate_ttl ::
  "os \<Rightarrow> cstr \<Rightarrow> cbuffer \<Rightarrow> ACL_vector option \<Rightarrow> i32 \<Rightarrow> i64 \<Rightarrow> callback \<Rightarrow> nat \<Rightarrow> client \<Rightarrow> (int \<times> client) option" where
  "zoo_acreate_ttl E path value acl_entries mode ttl completion data =
     create_request E ZOO_CREATE_OP (\<lambda>xid. add_string_completion E xid completion data) path value acl_entries mode ttl"

definition zoo_acreate ::
  "os \<Rightarrow> cstr \<Rightarrow> cbuffer \<Rightarrow> ACL_vector option \<Rightarrow> i32 \<Rightarrow> callback \<Rightarrow> nat \<Rightarrow> client \<Rightarrow> (int \<times> client) option" where
  "zoo_acreate E path value acl_entries mode completion data =
     zoo_acreate_ttl E path value acl_entries mode (- 1) completion data"

definition zoo_acreate2_ttl ::
  "os \<Rightarrow> cstr \<Rightarrow> cbuffer \<Rightarrow> ACL_vector option \<Rightarrow> i32 \<Rightarrow> i64 \<Rightarrow> callback \<Rightarrow> nat \<Rightarrow> client \<Rightarrow> (int \<times> client) option" where
  "zoo_acreate2_ttl E path value acl_entries mode ttl completion data =
     create_request E ZOO_CREATE2_OP (\<lambda>xid. add_string_stat_completion E xid completion data) path value acl_entries mode ttl"

definition zoo_acreate2 ::
  "os \<Rightarrow> cstr \<Rightarrow> cbuffer \<Rightarrow> ACL_vector option \<Rightarrow> i32 \<Rightarrow> callback \<Rightarrow> nat \<Rightarrow> client \<Rightarrow> (int \<times> client) option" where
  "zoo_acreate2 E path value acl_entries mode completion data =
     zoo_acreate2_ttl E path value acl_entries mode (- 1) completion data"

definition zoo_adelete :: "os \<Rightarrow> cstr \<Rightarrow> i32 \<Rightarrow> callback \<Rightarrow> nat \<Rightarrow> client \<Rightarrow> (int \<times> client) option" where
  "zoo_adelete E path version completion data c = do {
     (xid, c) \<leftarrow> get_xid E c;
     let h = \<lparr>RequestHeader_xid = xid, RequestHeader_type = ZOO_DELETE_OP\<rparr>;
     (rc, req) \<leftarrow> DeleteRequest_init E c path version;
     if rc \<noteq> ZOK then Some (rc, c)
     else submit E h (serialize_DeleteRequest (os_host E) req) (add_void_completion E xid completion data) c
   }"

definition zoo_awexists ::
  "os \<Rightarrow> cstr \<Rightarrow> nat \<Rightarrow> nat \<Rightarrow> callback \<Rightarrow> nat \<Rightarrow> client \<Rightarrow> (int \<times> client) option" where
  "zoo_awexists E path watcher watcherCtx completion data c = do {
     (xid, c) \<leftarrow> get_xid E c;
     let h = \<lparr>RequestHeader_xid = xid, RequestHeader_type = ZOO_EXISTS_OP\<rparr>;
     (rc, p, w) \<leftarrow> Request_path_watch_init E c 0 path (watcher \<noteq> 0);
     if rc \<noteq> ZOK then Some (rc, c)
     else submit E h (serialize_ExistsRequest (os_host E) \<lparr>ExistsRequest_path = p, ExistsRequest_watch = w\<rparr>)
       (\<lambda>c. do {
          wo \<leftarrow> create_watcher_registration (os_host E) p exists_result_checker watcher watcherCtx;
          add_stat_completion E xid completion data wo c
        }) c
   }"

definition zoo_aexists :: "os \<Rightarrow> cstr \<Rightarrow> bool \<Rightarrow> callback \<Rightarrow> nat \<Rightarrow> client \<Rightarrow> (int \<times> client) option" where
  "zoo_aexists E path watch sc data c = do {
     _ \<leftarrow> c_assert (\<not> w_null c);
     zoo_awexists E path (if watch then zh_watcher c else 0) (zh_context c) sc data c
   }"

definition zoo_awget_children_static ::
  "os \<Rightarrow> cstr \<Rightarrow> nat \<Rightarrow> nat \<Rightarrow> callback \<Rightarrow> nat \<Rightarrow> client \<Rightarrow> (int \<times> client) option" where
  "zoo_awget_children_static E path watcher watcherCtx sc data c = do {
     (xid, c) \<leftarrow> get_xid E c;
     let h = \<lparr>RequestHeader_xid = xid, RequestHeader_type = ZOO_GETCHILDREN_OP\<rparr>;
     (rc, p, w) \<leftarrow> Request_path_watch_init E c 0 path (watcher \<noteq> 0);
     if rc \<noteq> ZOK then Some (rc, c)
     else submit E h (serialize_GetChildrenRequest (os_host E) \<lparr>GetChildrenRequest_path = p, GetChildrenRequest_watch = w\<rparr>)
       (\<lambda>c. do {
          wo \<leftarrow> create_watcher_registration (os_host E) p child_result_checker watcher watcherCtx;
          add_strings_completion E xid sc data wo c
        }) c
   }"

definition zoo_aget_children :: "os \<Rightarrow> cstr \<Rightarrow> bool \<Rightarrow> callback \<Rightarrow> nat \<Rightarrow> client \<Rightarrow> (int \<times> client) option" where
  "zoo_aget_children E path watch dc data c = do {
     _ \<leftarrow> c_assert (\<not> w_null c);
     zoo_awget_children_static E path (if watch then zh_watcher c else 0) (zh_context c) dc data c
   }"

definition zoo_awget_children ::
  "os \<Rightarrow> cstr \<Rightarrow> nat \<Rightarrow> nat \<Rightarrow> callback \<Rightarrow> nat \<Rightarrow> client \<Rightarrow> (int \<times> client) option" where
  "zoo_awget_children E path watcher watcherCtx dc data = zoo_awget_children_static E path watcher watcherCtx dc data"

definition zoo_awget_children2_static ::
  "os \<Rightarrow> cstr \<Rightarrow> nat \<Rightarrow> nat \<Rightarrow> callback \<Rightarrow> nat \<Rightarrow> client \<Rightarrow> (int \<times> client) option" where
  "zoo_awget_children2_static E path watcher watcherCtx ssc data c = do {
     (xid, c) \<leftarrow> get_xid E c;
     let h = \<lparr>RequestHeader_xid = xid, RequestHeader_type = ZOO_GETCHILDREN2_OP\<rparr>;
     (rc, p, w) \<leftarrow> Request_path_watch_init E c 0 path (watcher \<noteq> 0);
     if rc \<noteq> ZOK then Some (rc, c)
     else submit E h (serialize_GetChildren2Request (os_host E) \<lparr>GetChildren2Request_path = p, GetChildren2Request_watch = w\<rparr>)
       (\<lambda>c. do {
          wo \<leftarrow> create_watcher_registration (os_host E) p child_result_checker watcher watcherCtx;
          add_strings_stat_completion E xid ssc data wo c
        }) c
   }"

definition zoo_aget_children2 :: "os \<Rightarrow> cstr \<Rightarrow> bool \<Rightarrow> callback \<Rightarrow> nat \<Rightarrow> client \<Rightarrow> (int \<times> client) option" where
  "zoo_aget_children2 E path watch dc data c = do {
     _ \<leftarrow> c_assert (\<not> w_null c);
     zoo_awget_children2_static E path (if watch then zh_watcher c else 0) (zh_context c) dc data c
   }"

definition zoo_awget_children2 ::
  "os \<Rightarrow> cstr \<Rightarrow> nat \<Rightarrow> nat \<Rightarrow> callback \<Rightarrow> nat \<Rightarrow> client \<Rightarrow> (int \<times> client) option" where
  "zoo_awget_children2 E path watcher watcherCtx dc data = zoo_awget_children2_static E path watcher watcherCtx dc data"

definition zoo_async :: "os \<Rightarrow> cstr \<Rightarrow> callback \<Rightarrow> nat \<Rightarrow> client \<Rightarrow> (int \<times> client) option" where
  "zoo_async E path completion data c = do {
     (xid, c) \<leftarrow> get_xid E c;
     let h = \<lparr>RequestHeader_xid = xid, RequestHeader_type = ZOO_SYNC_OP\<rparr>;
     (rc, p) \<leftarrow> Request_path_init E c 0 path;
     if rc \<noteq> ZOK then Some (rc, c)
     else submit E h (serialize_SyncRequest (os_host E) \<lparr>SyncRequest_path = p\<rparr>)
       (add_string_completion E xid completion data) c
   }"

definition zoo_aget_acl :: "os \<Rightarrow> cstr \<Rightarrow> callback \<Rightarrow> nat \<Rightarrow> client \<Rightarrow> (int \<times> client) option" where
  "zoo_aget_acl E path completion data c = do {
     (xid, c) \<leftarrow> get_xid E c;
     let h = \<lparr>RequestHeader_xid = xid, RequestHeader_type = ZOO_GETACL_OP\<rparr>;
     (rc, p) \<leftarrow> Request_path_init E c 0 path;
     if rc \<noteq> ZOK then Some (rc, c)
     else submit E h (serialize_GetACLRequest (os_host E) \<lparr>GetACLRequest_path = p\<rparr>)
       (add_acl_completion E xid completion data) c
   }"

definition zoo_aset_acl ::
  "os \<Rightarrow> cstr \<Rightarrow> i32 \<Rightarrow> ACL_vector option \<Rightarrow> callback \<Rightarrow> nat \<Rightarrow> client \<Rightarrow> (int \<times> client) option" where
  "zoo_aset_acl E path version acl completion data c = do {
     (xid, c) \<leftarrow> get_xid E c;
     let h = \<lparr>RequestHeader_xid = xid, RequestHeader_type = ZOO_SETACL_OP\<rparr>;
     (rc, p) \<leftarrow> Request_path_init E c 0 path;
     if rc \<noteq> ZOK then Some (rc, c)
     else do {
       acl \<leftarrow> acl;
       submit E h (serialize_SetACLRequest (os_host E)
           \<lparr>SetACLRequest_path = p, SetACLRequest_acl = acl, SetACLRequest_version = version\<rparr>)
         (add_void_completion E xid completion data) c
     }
   }"

section \<open>What a submission does\<close>

definition next_xid :: "os \<Rightarrow> client \<Rightarrow> i32" where
  "next_xid E c = (if w_xid c = - 1 then os_time E else w_xid c)"

definition drew_xid :: "os \<Rightarrow> client \<Rightarrow> client" where
  \<comment> \<open>the client after a transaction number was drawn, and nothing else\<close>
  "drew_xid E c = c\<lparr>w_xid := next_xid E c + 1\<rparr>"

definition xid_left :: "os \<Rightarrow> client \<Rightarrow> bool" where
  "xid_left E c \<longleftrightarrow> os_threaded E \<or> sint (next_xid E c) < INT_MAX"

lemma get_xid_next: "xid_left E c \<Longrightarrow> get_xid E c = Some (next_xid E c, drew_xid E c)"
  by (simp add: get_xid_def xid_left_def next_xid_def drew_xid_def Let_def)

lemma drew_xid_fields [simp]:
  "w_null (drew_xid E c) = w_null c" "zh_chroot (drew_xid E c) = zh_chroot c" "zh_state (drew_xid E c) = zh_state c"
  "zh_to_send (drew_xid E c) = zh_to_send c" "out_stream (drew_xid E c) = out_stream c"
  "zh_sent_requests (drew_xid E c) = zh_sent_requests c" "zh_close_requested (drew_xid E c) = zh_close_requested c"
  "zh_watcher (drew_xid E c) = zh_watcher c" "zh_context (drew_xid E c) = zh_context c"
  by (simp_all add: drew_xid_def out_stream_def)

definition server_path :: "cstr \<Rightarrow> bytes \<Rightarrow> bytes" where
  \<comment> \<open>the path the server sees\<close>
  "server_path chroot path = (case chroot of None \<Rightarrow> path | Some r \<Rightarrow> if length path = 1 then r else r @ path)"

definition path_fits :: "cstr \<Rightarrow> bytes \<Rightarrow> bool" where
  "path_fits chroot path \<longleftrightarrow> NUL \<notin> set (server_path chroot path) \<and>
     length path + (case chroot of None \<Rightarrow> 0 | Some r \<Rightarrow> length r) + 2 \<le> 2 ^ 27"

lemma prepend_server_path:
  assumes "good_host H" and "path_fits chroot path"
  shows "prepend_string H (Some chroot) (Some path) = Some (Some (server_path chroot path))"
  using assms by (auto simp: prepend_string_def server_path_def path_fits_def strdup_def good_hostD split: option.splits)

lemma server_path_fits: "path_fits chroot path \<Longrightarrow> length (server_path chroot path) + 2 \<le> 2 ^ 27"
  by (auto simp: path_fits_def server_path_def split: option.splits)

lemma oa_writes_then:
  assumes "oa_writes f as" and "oa_writes g bs"
  shows "oa_writes (\<lambda>oa. do { (rc, oa) \<leftarrow> f oa; if rc < 0 then Some (rc, oa) else g oa }) (as @ bs)"
  unfolding oa_writes_def
proof (intro allI impI, elim conjE)
  fix oa assume wf: "oa_wf oa" and room: "bs_off oa + int (length (as @ bs)) \<le> OA_MAX"
  then obtain oa1 where 1: "f oa = Some (0, oa1)" "oa_wf oa1" "oa_bytes oa1 = oa_bytes oa @ as"
    using oa_writesD [OF assms(1) wf] by auto
  then have "bs_off oa1 = bs_off oa + int (length as)" using length_oa_bytes [OF 1(2)] length_oa_bytes [OF wf] by simp
  with room 1 oa_writesD [OF assms(2) 1(2)]
  show "\<exists>oa'. f oa \<bind> (\<lambda>(rc, oa). if rc < 0 then Some (rc, oa) else g oa) = Some (0, oa') \<and> oa_wf oa' \<and>
      oa_bytes oa' = oa_bytes oa @ as @ bs"
    by auto
qed

lemma request_bytes_ok:
  assumes "good_host H" and "oa_writes ser bs" and "int (length bs) + 8 \<le> OA_MAX"
  shows "\<exists>oa. request_bytes H h ser = Some (0, oa) \<and> oa_wf oa \<and> oa_bytes oa = enc_RequestHeader h @ bs"
  unfolding request_bytes_def
  using assms by (intro into_buffer_writes oa_writes_then RequestHeader_writes) (simp_all add: enc_RequestHeader_def)

lemma allocate_packet:
  assumes "good_host H" and "oa_wf oa" and "oa_bytes oa \<noteq> []" and "int (length (oa_bytes oa)) \<le> OA_MAX"
  shows "\<exists>b. allocate_buffer H (get_buffer oa) (get_buffer_len oa) = Some b \<and> is_packet b \<and> unsent b = frame (oa_bytes oa)"
proof -
  obtain blk where blk: "bs_buffer oa = Some blk" "int (length blk) = bs_len oa" using oa_wf_buffer [OF assms(2)] by blast
  have off: "int (length (oa_bytes oa)) = bs_off oa" by (rule length_oa_bytes [OF assms(2)])
  let ?b = "\<lparr>bl_buffer = bs_buffer oa, bl_len = word_of_int (bs_off oa), bl_curr_offset = 0\<rparr>"
  have "oa_bytes oa = take (nat (bs_off oa)) blk" using blk by (simp add: oa_bytes_def)
  then have "blk = oa_bytes oa @ drop (nat (bs_off oa)) blk" by simp
  then have p: "packet (oa_bytes oa) ?b"
    unfolding packet_def using blk off assms(4) by (auto simp: sint_word_of_int32)
  have "bs_off oa \<noteq> 0" using off assms(3) by auto
  then have "allocate_buffer H (get_buffer oa) (get_buffer_len oa) = Some ?b"
    using assms(1) by (simp add: allocate_buffer_def get_buffer_def get_buffer_len_def good_hostD)
  moreover have "unsent ?b = frame (oa_bytes oa)" using packet_payload [OF p] by (simp add: unsent_def)
  ultimately show ?thesis using p by (auto simp: is_packet_def)
qed

lemma enqueue_ok:
  assumes "good_host (os_host E)" and "oa_wf oa" and "oa_bytes oa \<noteq> []" and "int (length (oa_bytes oa)) \<le> OA_MAX"
    and "add c = Some (ZOK, c1)"
  shows "\<exists>b. enqueue E (0, oa) add c = Some (ZOK, c1\<lparr>zh_to_send := zh_to_send c1 @ [b]\<rparr>) \<and> is_packet b \<and>
    unsent b = frame (oa_bytes oa)"
  using allocate_packet [OF assms(1-4)] assms(5) by (auto simp: enqueue_def queue_buffer_bytes_def)

lemma submit_ok:
  assumes "good_host (os_host E)" and "has_clock E" and "list_all is_packet (zh_to_send c1)"
    and "oa_writes ser bs" and "int (length bs) + 8 \<le> OA_MAX" and "add c = Some (ZOK, c1)"
  shows "\<exists>c'. submit E h ser add c = Some (ZOK, c') \<and> list_all is_packet (zh_to_send c') \<and>
    out_stream c' = out_stream c1 @ frame (enc_RequestHeader h @ bs) \<and> io_rest c' = io_rest c1"
proof -
  obtain oa where oa: "request_bytes (os_host E) h ser = Some (0, oa)" "oa_wf oa" "oa_bytes oa = enc_RequestHeader h @ bs"
    using request_bytes_ok [OF assms(1,4,5)] by blast
  have len: "length (enc_RequestHeader h) = 8" by (simp add: enc_RequestHeader_def)
  then have ne: "oa_bytes oa \<noteq> []" "int (length (oa_bytes oa)) \<le> OA_MAX" using oa(3) assms(5) by auto
  obtain b where b: "enqueue E (0, oa) add c = Some (ZOK, c1\<lparr>zh_to_send := zh_to_send c1 @ [b]\<rparr>)" "is_packet b"
    "unsent b = frame (oa_bytes oa)"
    using enqueue_ok [where add = add and c = c, OF assms(1) oa(2) ne assms(6)] by blast
  let ?c = "c1\<lparr>zh_to_send := zh_to_send c1 @ [b]\<rparr>"
  have "list_all is_packet (zh_to_send ?c)" using assms(3) b(2) by simp
  from send_queue_stream [OF this assms(2)] obtain rc c' where
    c': "adaptor_send_queue E 0 ?c = Some (rc, c')" "out_stream c' = out_stream ?c" "list_all is_packet (zh_to_send c')"
    "io_rest c' = io_rest ?c" by blast
  then show ?thesis using oa b by (simp add: submit_def out_stream_def)
qed

lemma submit_fails:
  assumes "good_host (os_host E)" and "has_clock E" and "list_all is_packet (zh_to_send c)"
    and "oa_writes ser bs" and "int (length bs) + 8 \<le> OA_MAX" and "add c = Some (rc, c)" and "rc < 0"
  shows "\<exists>c'. submit E h ser add c = Some (ZMARSHALLINGERROR, c') \<and> list_all is_packet (zh_to_send c') \<and>
    out_stream c' = out_stream c \<and> io_rest c' = io_rest c"
proof -
  obtain oa where oa: "request_bytes (os_host E) h ser = Some (0, oa)" using request_bytes_ok [OF assms(1,4,5)] by blast
  obtain r c' where "adaptor_send_queue E 0 c = Some (r, c')" "out_stream c' = out_stream c"
    "list_all is_packet (zh_to_send c')" "io_rest c' = io_rest c"
    using send_queue_stream [OF assms(3,2)] by blast
  then show ?thesis using oa assms(6,7) by (simp add: submit_def enqueue_def)
qed

section \<open>The contract of an asynchronous call\<close>

definition accepted :: "os \<Rightarrow> completion_list \<Rightarrow> client \<Rightarrow> client" where
  \<comment> \<open>the client after a number was drawn and the entry of the call was added\<close>
  "accepted E e c = (drew_xid E c)\<lparr>zh_sent_requests := zh_sent_requests c @ [e],
     zh_outstanding_sync := zh_outstanding_sync c + (if cl_fn e = SYNCHRONOUS_MARKER then 1 else 0)\<rparr>"

definition issues :: "os \<Rightarrow> client \<Rightarrow> (int \<times> client) option \<Rightarrow> i32 \<Rightarrow> bytes \<Rightarrow> completion_list \<Rightarrow> bool" where
  \<comment> \<open>the call returned \<^verbatim>\<open>ZOK\<close>, added this entry, put one frame with this operation and request behind the outgoing
      stream, and changed nothing else\<close>
  "issues E c r op bs e \<longleftrightarrow> (\<exists>c'. r = Some (ZOK, c') \<and>
     out_stream c' = out_stream c @
       frame (enc_RequestHeader \<lparr>RequestHeader_xid = next_xid E c, RequestHeader_type = op\<rparr> @ bs) \<and>
     list_all is_packet (zh_to_send c') \<and> io_rest c' = io_rest (accepted E e c))"

definition refuses :: "os \<Rightarrow> client \<Rightarrow> (int \<times> client) option \<Rightarrow> int \<Rightarrow> bool" where
  "refuses E c r rc \<longleftrightarrow> r = Some (rc, drew_xid E c)"

definition works :: "os \<Rightarrow> client \<Rightarrow> bool" where
  \<comment> \<open>what every call needs of the machine and of the outgoing queue\<close>
  "works E c \<longleftrightarrow> good_host (os_host E) \<and> has_clock E \<and> xid_left E c \<and> \<not> w_null c \<and> list_all is_packet (zh_to_send c)"

definition turned_away :: "client \<Rightarrow> (int \<times> client) option \<Rightarrow> bool" where
  \<comment> \<open>the call reports \<^verbatim>\<open>ZMARSHALLINGERROR\<close>, no packet is queued and no request is outstanding that was not before\<close>
  "turned_away c r \<longleftrightarrow> (\<exists>c'. r = Some (ZMARSHALLINGERROR, c') \<and> out_stream c' = out_stream c \<and> zh_sent_requests c' = zh_sent_requests c)"

locale async_call =
  fixes call :: "os \<Rightarrow> client \<Rightarrow> (int \<times> client) option"
    and path :: bytes and mode :: int and op :: i32 and args_ok :: bool
    and ser :: "host \<Rightarrow> bytes \<Rightarrow> oarchive \<Rightarrow> oa_result"
    and enc :: "bytes \<Rightarrow> bytes"
    and add :: "os \<Rightarrow> i32 \<Rightarrow> bytes \<Rightarrow> client \<Rightarrow> (int \<times> client) option"
    and entry :: "i32 \<Rightarrow> bytes \<Rightarrow> completion_list"
  assumes runs: "args_ok \<Longrightarrow> works E c \<Longrightarrow> path_fits (zh_chroot c) path \<Longrightarrow>
      call E c =
        (let p = server_path (zh_chroot c) path in
         if \<not> valid_path mode p then Some (ZBADARGUMENTS, drew_xid E c)
         else if zh_state c < 0 then Some (ZINVALIDSTATE, drew_xid E c)
         else submit E \<lparr>RequestHeader_xid = next_xid E c, RequestHeader_type = op\<rparr> (ser (os_host E) p)
           (add E (next_xid E c) p) (drew_xid E c))"
    and writes: "args_ok \<Longrightarrow> good_host H \<Longrightarrow> oa_writes (ser H p) (enc p)"
    and adds: "good_host (os_host E) \<Longrightarrow> length p + 2 \<le> 2 ^ 27 \<Longrightarrow>
      add E xid p c = Some (do_add_completion (cl_fn (entry xid p)) (Some (entry xid p)) False c)"
begin

lemma refused:
  assumes "args_ok" and "works E c" and "path_fits (zh_chroot c) path"
  shows "\<not> valid_path mode (server_path (zh_chroot c) path) \<Longrightarrow> refuses E c (call E c) ZBADARGUMENTS"
    and "valid_path mode (server_path (zh_chroot c) path) \<Longrightarrow> zh_state c < 0 \<Longrightarrow> refuses E c (call E c) ZINVALIDSTATE"
  using runs [OF assms] by (simp_all add: refuses_def Let_def)

lemma issued:
  assumes "args_ok" and "works E c" and "path_fits (zh_chroot c) path" and "p = server_path (zh_chroot c) path"
    and "valid_path mode p" and "0 \<le> zh_state c" and "\<not> zh_close_requested c" and "int (length (enc p)) + 8 \<le> OA_MAX"
  shows "issues E c (call E c) op (enc p) (entry (next_xid E c) p)"
proof -
  let ?h = "\<lparr>RequestHeader_xid = next_xid E c, RequestHeader_type = op\<rparr>"
  let ?a = "accepted E (entry (next_xid E c) p) c"
  have H: "good_host (os_host E)" "has_clock E" "list_all is_packet (zh_to_send ?a)"
    using assms(2) by (simp_all add: works_def accepted_def)
  have "add E (next_xid E c) p (drew_xid E c) = Some (ZOK, ?a)"
    using adds [OF H(1), of p] server_path_fits [OF assms(3)] assms(4,7)
    by (simp add: do_add_completion_def accepted_def drew_xid_def Let_def)
  from submit_ok [where add = "add E (next_xid E c) p" and c = "drew_xid E c" and h = ?h,
      OF H writes [OF assms(1) H(1)] assms(8) this]
  show ?thesis
    using runs [OF assms(1-3)] assms(4-6) by (auto simp: issues_def Let_def accepted_def out_stream_def drew_xid_def)
qed

lemma closing:
  assumes "args_ok" and "works E c" and "path_fits (zh_chroot c) path" and "p = server_path (zh_chroot c) path"
    and "valid_path mode p" and "0 \<le> zh_state c" and "zh_close_requested c" and "int (length (enc p)) + 8 \<le> OA_MAX"
  shows "turned_away c (call E c)"
proof -
  let ?h = "\<lparr>RequestHeader_xid = next_xid E c, RequestHeader_type = op\<rparr>"
  have H: "good_host (os_host E)" "has_clock E" "list_all is_packet (zh_to_send (drew_xid E c))"
    using assms(2) by (simp_all add: works_def)
  have "add E (next_xid E c) p (drew_xid E c) = Some (ZINVALIDSTATE, drew_xid E c)"
    using adds [OF H(1), of p] server_path_fits [OF assms(3)] assms(4,7) by (simp add: do_add_completion_def)
  from submit_fails [where add = "add E (next_xid E c) p" and c = "drew_xid E c" and h = ?h,
      OF H writes [OF assms(1) H(1)] assms(8) this]
  obtain c' where "submit E ?h (ser (os_host E) p) (add E (next_xid E c) p) (drew_xid E c) = Some (ZMARSHALLINGERROR, c')"
    "out_stream c' = out_stream (drew_xid E c)" "io_rest c' = io_rest (drew_xid E c)" by auto
  then show ?thesis
    using runs [OF assms(1-3)] assms(4-6) io_rest_fields(2) [of c' "drew_xid E c"] by (simp add: turned_away_def Let_def)
qed

end

section \<open>Every call keeps the contract\<close>

lemma Request_path_init_server:
  assumes "works E c" and "path_fits (zh_chroot c) path"
  shows "Request_path_init E (drew_xid E c) mode (Some path) =
    (let p = server_path (zh_chroot c) path in
     Some (if \<not> valid_path mode p then ZBADARGUMENTS else if zh_state c < 0 then ZINVALIDSTATE else ZOK, Some p))"
  using assms prepend_server_path [of "os_host E" "zh_chroot c" path]
  by (simp add: Request_path_init_def handle_chroot_def works_def isValidPath_iff path_fits_def is_unrecoverable_def Let_def)

definition registration :: "nat \<Rightarrow> nat \<Rightarrow> result_checker \<Rightarrow> bytes \<Rightarrow> watcher_registration option" where
  "registration watcher ctx checker p =
     (if watcher = 0 then None
      else Some \<lparr>wr_watcher = watcher, wr_context = ctx, wr_checker = checker, wr_path = Some p\<rparr>)"

lemma create_watcher_registration_ok:
  "good_host H \<Longrightarrow> length p + 2 \<le> 2 ^ 27 \<Longrightarrow>
   create_watcher_registration H (Some p) checker watcher ctx = Some (registration watcher ctx checker p)"
  by (simp add: create_watcher_registration_def registration_def strdup_def good_hostD)

definition request_entry ::
  "completion_type \<Rightarrow> callback \<Rightarrow> nat \<Rightarrow> watcher_registration option \<Rightarrow> i32 \<Rightarrow> completion_list" where
  "request_entry ct dc data wo xid = Completion xid ct dc None [] data None wo None"

lemma request_entry_fn [simp]: "cl_fn (request_entry ct dc data wo xid) = dc" "cl_xid (request_entry ct dc data wo xid) = xid"
  by (simp_all add: request_entry_def)

lemma add_completion_ok:
  "good_host (os_host E) \<Longrightarrow> ct \<noteq> COMPLETION_WATCH \<Longrightarrow> ct \<noteq> COMPLETION_MULTI \<Longrightarrow>
   add_completion E xid ct dc data False wo None c =
     Some (do_add_completion dc (Some (request_entry ct dc data wo xid)) False c)"
  by (cases ct) (simp_all add: add_completion_def create_completion_entry_def do_create_completion_entry_def
      request_entry_def good_hostD)

lemmas add_completion_defs = add_data_completion_def add_stat_completion_def add_strings_completion_def
  add_strings_stat_completion_def add_acl_completion_def add_void_completion_def add_string_completion_def
  add_string_stat_completion_def

lemmas call_simps = get_xid_next Request_path_init_server Request_path_watch_init_def Let_def

interpretation awget: async_call "\<lambda>E. zoo_awget E (Some path) w ctx dc data" path 0 ZOO_GETDATA_OP True
  "\<lambda>H p. serialize_GetDataRequest H \<lparr>GetDataRequest_path = Some p, GetDataRequest_watch = (if w \<noteq> 0 then 1 else 0)\<rparr>"
  "\<lambda>p. enc_GetDataRequest \<lparr>GetDataRequest_path = Some p, GetDataRequest_watch = (if w \<noteq> 0 then 1 else 0)\<rparr>"
  "\<lambda>E xid p c. do {
     wo \<leftarrow> create_watcher_registration (os_host E) (Some p) data_result_checker w ctx;
     add_data_completion E xid dc data wo c }"
  "\<lambda>xid p. request_entry COMPLETION_DATA dc data (registration w ctx data_result_checker p) xid"
  for path w ctx dc data
  by unfold_locales
     (auto simp: zoo_awget_def works_def prepend_server_path handle_chroot_def isValidPath_iff path_fits_def
       is_unrecoverable_def get_xid_next Let_def create_watcher_registration_ok add_data_completion_def add_completion_ok
       intro: GetDataRequest_writes)

interpretation awexists: async_call "\<lambda>E. zoo_awexists E (Some path) w ctx dc data" path 0 ZOO_EXISTS_OP True
  "\<lambda>H p. serialize_ExistsRequest H \<lparr>ExistsRequest_path = Some p, ExistsRequest_watch = (if w \<noteq> 0 then 1 else 0)\<rparr>"
  "\<lambda>p. enc_ExistsRequest \<lparr>ExistsRequest_path = Some p, ExistsRequest_watch = (if w \<noteq> 0 then 1 else 0)\<rparr>"
  "\<lambda>E xid p c. do {
     wo \<leftarrow> create_watcher_registration (os_host E) (Some p) exists_result_checker w ctx;
     add_stat_completion E xid dc data wo c }"
  "\<lambda>xid p. request_entry COMPLETION_STAT dc data (registration w ctx exists_result_checker p) xid"
  for path w ctx dc data
  by unfold_locales
     (auto simp: zoo_awexists_def works_def call_simps create_watcher_registration_ok add_stat_completion_def add_completion_ok
       intro: ExistsRequest_writes)

interpretation awget_children: async_call "\<lambda>E. zoo_awget_children_static E (Some path) w ctx dc data" path 0 ZOO_GETCHILDREN_OP True
  "\<lambda>H p. serialize_GetChildrenRequest H \<lparr>GetChildrenRequest_path = Some p, GetChildrenRequest_watch = (if w \<noteq> 0 then 1 else 0)\<rparr>"
  "\<lambda>p. enc_GetChildrenRequest \<lparr>GetChildrenRequest_path = Some p, GetChildrenRequest_watch = (if w \<noteq> 0 then 1 else 0)\<rparr>"
  "\<lambda>E xid p c. do {
     wo \<leftarrow> create_watcher_registration (os_host E) (Some p) child_result_checker w ctx;
     add_strings_completion E xid dc data wo c }"
  "\<lambda>xid p. request_entry COMPLETION_STRINGLIST dc data (registration w ctx child_result_checker p) xid"
  for path w ctx dc data
  by unfold_locales
     (auto simp: zoo_awget_children_static_def works_def call_simps create_watcher_registration_ok add_strings_completion_def
       add_completion_ok intro: GetChildrenRequest_writes)

interpretation awget_children2: async_call "\<lambda>E. zoo_awget_children2_static E (Some path) w ctx dc data" path 0 ZOO_GETCHILDREN2_OP True
  "\<lambda>H p. serialize_GetChildren2Request H \<lparr>GetChildren2Request_path = Some p, GetChildren2Request_watch = (if w \<noteq> 0 then 1 else 0)\<rparr>"
  "\<lambda>p. enc_GetChildren2Request \<lparr>GetChildren2Request_path = Some p, GetChildren2Request_watch = (if w \<noteq> 0 then 1 else 0)\<rparr>"
  "\<lambda>E xid p c. do {
     wo \<leftarrow> create_watcher_registration (os_host E) (Some p) child_result_checker w ctx;
     add_strings_stat_completion E xid dc data wo c }"
  "\<lambda>xid p. request_entry COMPLETION_STRINGLIST_STAT dc data (registration w ctx child_result_checker p) xid"
  for path w ctx dc data
  by unfold_locales
     (auto simp: zoo_awget_children2_static_def works_def call_simps create_watcher_registration_ok add_strings_stat_completion_def
       add_completion_ok intro: GetChildren2Request_writes)

interpretation aset: async_call "\<lambda>E. zoo_aset E (Some path) buf version dc data" path 0 ZOO_SETDATA_OP "cbuffer_sendable buf"
  "\<lambda>H p. serialize_SetDataRequest H \<lparr>SetDataRequest_path = Some p, SetDataRequest_data = buf, SetDataRequest_version = version\<rparr>"
  "\<lambda>p. enc_SetDataRequest \<lparr>SetDataRequest_path = Some p, SetDataRequest_data = buf, SetDataRequest_version = version\<rparr>"
  "\<lambda>E xid p. add_stat_completion E xid dc data None"
  "\<lambda>xid p. request_entry COMPLETION_STAT dc data None xid"
  for path buf version dc data
  by unfold_locales
     (auto simp: zoo_aset_def works_def call_simps SetDataRequest_init_def add_stat_completion_def add_completion_ok
       intro: SetDataRequest_writes)

interpretation adelete: async_call "\<lambda>E. zoo_adelete E (Some path) version dc data" path 0 ZOO_DELETE_OP True
  "\<lambda>H p. serialize_DeleteRequest H \<lparr>DeleteRequest_path = Some p, DeleteRequest_version = version\<rparr>"
  "\<lambda>p. enc_DeleteRequest \<lparr>DeleteRequest_path = Some p, DeleteRequest_version = version\<rparr>"
  "\<lambda>E xid p. add_void_completion E xid dc data"
  "\<lambda>xid p. request_entry COMPLETION_VOID dc data None xid"
  for path version dc data
  by unfold_locales
     (auto simp: zoo_adelete_def works_def call_simps DeleteRequest_init_def add_void_completion_def add_completion_ok
       intro: DeleteRequest_writes)

interpretation async: async_call "\<lambda>E. zoo_async E (Some path) dc data" path 0 ZOO_SYNC_OP True
  "\<lambda>H p. serialize_SyncRequest H \<lparr>SyncRequest_path = Some p\<rparr>" "\<lambda>p. enc_SyncRequest \<lparr>SyncRequest_path = Some p\<rparr>"
  "\<lambda>E xid p. add_string_completion E xid dc data"
  "\<lambda>xid p. request_entry COMPLETION_STRING dc data None xid"
  for path dc data
  by unfold_locales
     (auto simp: zoo_async_def works_def call_simps add_string_completion_def add_completion_ok intro: SyncRequest_writes)

interpretation aget_acl: async_call "\<lambda>E. zoo_aget_acl E (Some path) dc data" path 0 ZOO_GETACL_OP True
  "\<lambda>H p. serialize_GetACLRequest H \<lparr>GetACLRequest_path = Some p\<rparr>" "\<lambda>p. enc_GetACLRequest \<lparr>GetACLRequest_path = Some p\<rparr>"
  "\<lambda>E xid p. add_acl_completion E xid dc data"
  "\<lambda>xid p. request_entry COMPLETION_ACLLIST dc data None xid"
  for path dc data
  by unfold_locales
     (auto simp: zoo_aget_acl_def works_def call_simps add_acl_completion_def add_completion_ok intro: GetACLRequest_writes)

interpretation aset_acl: async_call "\<lambda>E. zoo_aset_acl E (Some path) version (Some acl) dc data" path 0 ZOO_SETACL_OP
  "ACL_vector_sendable acl"
  "\<lambda>H p. serialize_SetACLRequest H \<lparr>SetACLRequest_path = Some p, SetACLRequest_acl = acl, SetACLRequest_version = version\<rparr>"
  "\<lambda>p. enc_SetACLRequest \<lparr>SetACLRequest_path = Some p, SetACLRequest_acl = acl, SetACLRequest_version = version\<rparr>"
  "\<lambda>E xid p. add_void_completion E xid dc data"
  "\<lambda>xid p. request_entry COMPLETION_VOID dc data None xid"
  for path version acl dc data
  by unfold_locales
     (auto simp: zoo_aset_acl_def works_def call_simps add_void_completion_def add_completion_ok intro: SetACLRequest_writes)

text \<open>Creation: with a TTL mode the TTL must be positive and at most \<open>ZOO_MAX_TTL\<close>, without one it must be negative.\<close>

definition ttl_accepted :: "i32 \<Rightarrow> i64 \<Rightarrow> bool" where
  "ttl_accepted mode ttl \<longleftrightarrow>
     (if ZOOKEEPER_IS_TTL (sint mode) then 0 < sint ttl \<and> sint ttl \<le> ZOO_MAX_TTL else sint ttl < 0)"

definition enc_create :: "cbuffer \<Rightarrow> ACL_vector option \<Rightarrow> i32 \<Rightarrow> i64 \<Rightarrow> bytes \<Rightarrow> bytes" where
  "enc_create value acl mode ttl p =
     (if ZOOKEEPER_IS_TTL (sint mode)
      then enc_CreateTTLRequest \<lparr>CreateTTLRequest_path = Some p, CreateTTLRequest_data = value,
        CreateTTLRequest_acl = acl_or_empty acl, CreateTTLRequest_flags = mode, CreateTTLRequest_ttl = ttl\<rparr>
      else enc_CreateRequest \<lparr>CreateRequest_path = Some p, CreateRequest_data = value,
        CreateRequest_acl = acl_or_empty acl, CreateRequest_flags = mode\<rparr>)"

definition ser_create :: "cbuffer \<Rightarrow> ACL_vector option \<Rightarrow> i32 \<Rightarrow> i64 \<Rightarrow> host \<Rightarrow> bytes \<Rightarrow> oarchive \<Rightarrow> oa_result" where
  "ser_create value acl mode ttl H p =
     (if ZOOKEEPER_IS_TTL (sint mode)
      then serialize_CreateTTLRequest H \<lparr>CreateTTLRequest_path = Some p, CreateTTLRequest_data = value,
        CreateTTLRequest_acl = acl_or_empty acl, CreateTTLRequest_flags = mode, CreateTTLRequest_ttl = ttl\<rparr>
      else serialize_CreateRequest H \<lparr>CreateRequest_path = Some p, CreateRequest_data = value,
        CreateRequest_acl = acl_or_empty acl, CreateRequest_flags = mode\<rparr>)"

lemma create_request_runs:
  assumes "ttl_accepted mode ttl" and "works E c" and "path_fits (zh_chroot c) path"
  shows "create_request E default_op add (Some path) value acl mode ttl c =
    (let p = server_path (zh_chroot c) path in
     if \<not> valid_path (sint mode) p then Some (ZBADARGUMENTS, drew_xid E c)
     else if zh_state c < 0 then Some (ZINVALIDSTATE, drew_xid E c)
     else submit E \<lparr>RequestHeader_xid = next_xid E c, RequestHeader_type = get_create_op_type (sint mode) default_op\<rparr>
       (ser_create value acl mode ttl (os_host E) p) (add (next_xid E c)) (drew_xid E c))"
proof -
  have xid: "get_xid E c = Some (next_xid E c, drew_xid E c)" using assms(2) by (intro get_xid_next) (simp add: works_def)
  show ?thesis
    using assms(1) xid Request_path_init_server [OF assms(2,3), of "sint mode"]
    by (auto simp: create_request_def ttl_accepted_def CreateTTLRequest_init_def CreateRequest_init_def ser_create_def Let_def)
qed

lemma ser_create_writes:
  "cbuffer_sendable value \<Longrightarrow> ACL_vector_sendable (acl_or_empty acl) \<Longrightarrow> good_host H \<Longrightarrow>
   oa_writes (ser_create value acl mode ttl H p) (enc_create value acl mode ttl p)"
  by (auto simp: ser_create_def enc_create_def intro: CreateTTLRequest_writes CreateRequest_writes)

interpretation acreate: async_call "\<lambda>E. zoo_acreate_ttl E (Some path) val acl mode ttl dc data" path "sint mode"
  "get_create_op_type (sint mode) ZOO_CREATE_OP"
  "ttl_accepted mode ttl \<and> cbuffer_sendable val \<and> ACL_vector_sendable (acl_or_empty acl)"
  "ser_create val acl mode ttl" "enc_create val acl mode ttl"
  "\<lambda>E xid p. add_string_completion E xid dc data"
  "\<lambda>xid p. request_entry COMPLETION_STRING dc data None xid"
  for path val acl mode ttl dc data
  by unfold_locales
     (simp_all add: zoo_acreate_ttl_def create_request_runs ser_create_writes add_string_completion_def add_completion_ok Let_def)

interpretation acreate2: async_call "\<lambda>E. zoo_acreate2_ttl E (Some path) val acl mode ttl dc data" path "sint mode"
  "get_create_op_type (sint mode) ZOO_CREATE2_OP"
  "ttl_accepted mode ttl \<and> cbuffer_sendable val \<and> ACL_vector_sendable (acl_or_empty acl)"
  "ser_create val acl mode ttl" "enc_create val acl mode ttl"
  "\<lambda>E xid p. add_string_stat_completion E xid dc data"
  "\<lambda>xid p. request_entry COMPLETION_STRING_STAT dc data None xid"
  for path val acl mode ttl dc data
  by unfold_locales
     (simp_all add: zoo_acreate2_ttl_def create_request_runs ser_create_writes add_string_stat_completion_def add_completion_ok Let_def)

section \<open>Properties\<close>

lemma path_request_length: "length (enc_string (Some p)) = length p + 4" "length (enc_bool b) = 1"
  by (simp_all add: enc_string_def enc_bool_def)

text \<open>
  (C16) A read request on a valid path, on a live handle that is not closing, returns \<^verbatim>\<open>ZOK\<close>, appends to the outstanding requests
  one entry with the drawn transaction number, the caller's completion and the watch registration its checker asks for,
  and adds to the outgoing stream one frame: the header with the same number and the operation, then the request with the server
  path. In the single threaded library part of it may be on the wire already; no byte is lost either way.
\<close>

theorem read_requests_issue:
  assumes "works E c" and "path_fits (zh_chroot c) path" and "p = server_path (zh_chroot c) path" and "valid_path 0 p"
    and "0 \<le> zh_state c" and "\<not> zh_close_requested c" and "length p + 13 \<le> 2 ^ 27"
  shows "issues E c (zoo_awget E (Some path) w ctx dc data c) ZOO_GETDATA_OP
      (enc_GetDataRequest \<lparr>GetDataRequest_path = Some p, GetDataRequest_watch = (if w \<noteq> 0 then 1 else 0)\<rparr>)
      (request_entry COMPLETION_DATA dc data (registration w ctx data_result_checker p) (next_xid E c)) \<and>
    issues E c (zoo_awexists E (Some path) w ctx dc data c) ZOO_EXISTS_OP
      (enc_ExistsRequest \<lparr>ExistsRequest_path = Some p, ExistsRequest_watch = (if w \<noteq> 0 then 1 else 0)\<rparr>)
      (request_entry COMPLETION_STAT dc data (registration w ctx exists_result_checker p) (next_xid E c)) \<and>
    issues E c (zoo_awget_children E (Some path) w ctx dc data c) ZOO_GETCHILDREN_OP
      (enc_GetChildrenRequest \<lparr>GetChildrenRequest_path = Some p, GetChildrenRequest_watch = (if w \<noteq> 0 then 1 else 0)\<rparr>)
      (request_entry COMPLETION_STRINGLIST dc data (registration w ctx child_result_checker p) (next_xid E c)) \<and>
    issues E c (zoo_awget_children2 E (Some path) w ctx dc data c) ZOO_GETCHILDREN2_OP
      (enc_GetChildren2Request \<lparr>GetChildren2Request_path = Some p, GetChildren2Request_watch = (if w \<noteq> 0 then 1 else 0)\<rparr>)
      (request_entry COMPLETION_STRINGLIST_STAT dc data (registration w ctx child_result_checker p) (next_xid E c))"
  unfolding zoo_awget_children_def zoo_awget_children2_def
  using assms(7)
  by (intro conjI awget.issued awexists.issued awget_children.issued awget_children2.issued TrueI assms(1-6))
     (simp_all add: enc_GetDataRequest_def enc_ExistsRequest_def enc_GetChildrenRequest_def enc_GetChildren2Request_def
       path_request_length)

lemma works_test [simp]: "works test_os test_client"
  by (simp add: works_def xid_left_def next_xid_def) (simp add: test_os_def)

lemma next_xid_test [simp]: "next_xid test_os test_client = 5"
  by (simp add: next_xid_def)

lemma valid_a [simp]: "valid_path 0 ''/a''"
proof -
  have "isValidPath (Some ''/a'') 0 = Some True"
    by (simp add: isValidPath_def char_at_def dot_component_def ZOOKEEPER_IS_SEQUENCE_def schar_def eval_nat_numeral)
  then show ?thesis using isValidPath_iff [of "''/a''" 0] by simp
qed

theorem read_requests_issue_witness:
  "issues test_os test_client (zoo_awget test_os (Some ''/a'') 9 8 (Fn 3) 4 test_client) ZOO_GETDATA_OP
      (enc_GetDataRequest \<lparr>GetDataRequest_path = Some ''/a'', GetDataRequest_watch = 1\<rparr>)
      (request_entry COMPLETION_DATA (Fn 3) 4 (registration 9 8 data_result_checker ''/a'') 5)"
  using read_requests_issue [of test_os test_client "''/a''" "''/a''" 9 8 "Fn 3" 4]
  by (simp add: path_fits_def server_path_def)

text \<open>
  (C17) The same for the requests that change the tree: setting data, deleting, setting an access control list, and creating
  a node, with the record and the operation code that the mode of the new node asks for (container, TTL or plain).
\<close>

theorem write_requests_issue:
  assumes "works E c" and "path_fits (zh_chroot c) path" and "p = server_path (zh_chroot c) path"
    and "0 \<le> zh_state c" and "\<not> zh_close_requested c"
    and "cbuffer_sendable buf" and "ACL_vector_sendable (acl_or_empty acl)" and "ttl_accepted mode ttl"
    and "int (length p + length (enc_buffer buf) + length (enc_ACL_vector (acl_or_empty acl))) + 24 \<le> OA_MAX"
  shows "(valid_path 0 p \<longrightarrow>
      issues E c (zoo_aset E (Some path) buf version dc data c) ZOO_SETDATA_OP
        (enc_SetDataRequest \<lparr>SetDataRequest_path = Some p, SetDataRequest_data = buf, SetDataRequest_version = version\<rparr>)
        (request_entry COMPLETION_STAT dc data None (next_xid E c)) \<and>
      issues E c (zoo_adelete E (Some path) version dc data c) ZOO_DELETE_OP
        (enc_DeleteRequest \<lparr>DeleteRequest_path = Some p, DeleteRequest_version = version\<rparr>)
        (request_entry COMPLETION_VOID dc data None (next_xid E c)) \<and>
      issues E c (zoo_aset_acl E (Some path) version (Some (acl_or_empty acl)) dc data c) ZOO_SETACL_OP
        (enc_SetACLRequest \<lparr>SetACLRequest_path = Some p, SetACLRequest_acl = acl_or_empty acl, SetACLRequest_version = version\<rparr>)
        (request_entry COMPLETION_VOID dc data None (next_xid E c))) \<and>
    (valid_path (sint mode) p \<longrightarrow>
      issues E c (zoo_acreate_ttl E (Some path) buf acl mode ttl dc data c) (get_create_op_type (sint mode) ZOO_CREATE_OP)
        (enc_create buf acl mode ttl p) (request_entry COMPLETION_STRING dc data None (next_xid E c)) \<and>
      issues E c (zoo_acreate2_ttl E (Some path) buf acl mode ttl dc data c) (get_create_op_type (sint mode) ZOO_CREATE2_OP)
        (enc_create buf acl mode ttl p) (request_entry COMPLETION_STRING_STAT dc data None (next_xid E c)))"
  using assms(9)
  by (intro conjI impI aset.issued adelete.issued aset_acl.issued acreate.issued acreate2.issued TrueI assms(1-8))
     (simp_all add: enc_SetDataRequest_def enc_DeleteRequest_def enc_SetACLRequest_def enc_create_def enc_CreateRequest_def
       enc_CreateTTLRequest_def path_request_length)

theorem write_requests_issue_witness:
  "issues test_os test_client (zoo_adelete test_os (Some ''/a'') 2 (Fn 3) 4 test_client) ZOO_DELETE_OP
      (enc_DeleteRequest \<lparr>DeleteRequest_path = Some ''/a'', DeleteRequest_version = 2\<rparr>)
      (request_entry COMPLETION_VOID (Fn 3) 4 None 5)"
proof -
  let ?b = "\<lparr>cb_len = 1, cb_buff = Some ''x''\<rparr>"
  have "cbuffer_sendable ?b" by (simp add: cbuffer_sendable_def)
  moreover have "ACL_vector_sendable (acl_or_empty None)"
    by (simp add: acl_or_empty_def vec_sendable_def vec_list_def)
  moreover have "ttl_accepted 0 (- 1)" by (simp add: ttl_accepted_def ZOOKEEPER_IS_TTL_def)
  moreover have "length (enc_buffer ?b) = 5" "length (enc_ACL_vector (acl_or_empty None)) = 4"
    by (simp_all add: enc_buffer_def acl_or_empty_def enc_ACL_vector_def enc_vector_def vec_list_def)
  ultimately show ?thesis
    using write_requests_issue [of test_os test_client "''/a''" "''/a''" ?b None 0 "- 1" 2 "Fn 3" 4]
    by (simp add: path_fits_def server_path_def)
qed

text \<open>
  (C31) A call that is refused changes nothing but the transaction counter: a path that is not valid is answered with
  \<^verbatim>\<open>ZBADARGUMENTS\<close>, a handle in an unrecoverable state with \<^verbatim>\<open>ZINVALIDSTATE\<close>, a creation whose TTL does not fit its mode with
  \<^verbatim>\<open>ZBADARGUMENTS\<close> before the path is looked at.
\<close>

theorem requests_refused:
  assumes "works E c" and "path_fits (zh_chroot c) path" and "p = server_path (zh_chroot c) path"
  shows "(\<not> valid_path 0 p \<longrightarrow>
      refuses E c (zoo_awget E (Some path) w ctx dc data c) ZBADARGUMENTS \<and>
      refuses E c (zoo_awexists E (Some path) w ctx dc data c) ZBADARGUMENTS \<and>
      refuses E c (zoo_adelete E (Some path) version dc data c) ZBADARGUMENTS \<and>
      refuses E c (zoo_aget_acl E (Some path) dc data c) ZBADARGUMENTS) \<and>
    (valid_path 0 p \<and> zh_state c < 0 \<longrightarrow>
      refuses E c (zoo_awget E (Some path) w ctx dc data c) ZINVALIDSTATE \<and>
      refuses E c (zoo_awexists E (Some path) w ctx dc data c) ZINVALIDSTATE \<and>
      refuses E c (zoo_adelete E (Some path) version dc data c) ZINVALIDSTATE \<and>
      refuses E c (zoo_aget_acl E (Some path) dc data c) ZINVALIDSTATE) \<and>
    (\<not> ttl_accepted mode ttl \<longrightarrow> refuses E c (zoo_acreate_ttl E (Some path) buf acl mode ttl dc data c) ZBADARGUMENTS)"
proof -
  have "get_xid E c = Some (next_xid E c, drew_xid E c)" using assms(1) by (intro get_xid_next) (simp add: works_def)
  then have "\<not> ttl_accepted mode ttl \<Longrightarrow> refuses E c (zoo_acreate_ttl E (Some path) buf acl mode ttl dc data c) ZBADARGUMENTS"
    by (auto simp: zoo_acreate_ttl_def create_request_def ttl_accepted_def refuses_def split: if_splits)
  then show ?thesis
    using awget.refused [OF TrueI assms(1,2), of w ctx dc data] awexists.refused [OF TrueI assms(1,2), of w ctx dc data]
      adelete.refused [OF TrueI assms(1,2), of version dc data] aget_acl.refused [OF TrueI assms(1,2), of dc data] assms(3)
    by simp
qed

theorem requests_refused_witness:
  "refuses test_os test_client (zoo_awget test_os (Some ''a'') 9 8 (Fn 3) 4 test_client) ZBADARGUMENTS"
  using requests_refused [of test_os test_client "''a''" "''a''"] by (simp add: path_fits_def server_path_def valid_path_def)

lemma reads_when_closing:
  assumes "works E c" and "path_fits (zh_chroot c) path" and "p = server_path (zh_chroot c) path" and "valid_path 0 p"
    and "0 \<le> zh_state c" and "zh_close_requested c" and "length p + 13 \<le> 2 ^ 27"
  shows "turned_away c (zoo_awget E (Some path) w ctx dc data c)" "turned_away c (zoo_awexists E (Some path) w ctx dc data c)"
    "turned_away c (zoo_awget_children E (Some path) w ctx dc data c)" "turned_away c (zoo_awget_children2 E (Some path) w ctx dc data c)"
    "turned_away c (zoo_aget_acl E (Some path) dc data c)" "turned_away c (zoo_async E (Some path) dc data c)"
  unfolding zoo_awget_children_def zoo_awget_children2_def
  using assms(7)
  by (intro awget.closing [where p = p] awexists.closing [where p = p] awget_children.closing [where p = p] awget_children2.closing [where p = p]
      aget_acl.closing [where p = p] async.closing [where p = p] TrueI assms(1-6);
      simp add: enc_GetDataRequest_def enc_ExistsRequest_def enc_GetChildrenRequest_def enc_GetChildren2Request_def enc_GetACLRequest_def
        enc_SyncRequest_def path_request_length)+

lemma writes_when_closing:
  assumes "works E c" and "path_fits (zh_chroot c) path" and "p = server_path (zh_chroot c) path"
    and "0 \<le> zh_state c" and "zh_close_requested c"
    and "cbuffer_sendable buf" and "ACL_vector_sendable (acl_or_empty acl)" and "ttl_accepted mode ttl"
    and "int (length p + length (enc_buffer buf) + length (enc_ACL_vector (acl_or_empty acl))) + 24 \<le> OA_MAX"
  shows "valid_path 0 p \<Longrightarrow> turned_away c (zoo_aset E (Some path) buf version dc data c)"
    "valid_path 0 p \<Longrightarrow> turned_away c (zoo_adelete E (Some path) version dc data c)"
    "valid_path 0 p \<Longrightarrow> turned_away c (zoo_aset_acl E (Some path) version (Some (acl_or_empty acl)) dc data c)"
    "valid_path (sint mode) p \<Longrightarrow> turned_away c (zoo_acreate_ttl E (Some path) buf acl mode ttl dc data c)"
    "valid_path (sint mode) p \<Longrightarrow> turned_away c (zoo_acreate2_ttl E (Some path) buf acl mode ttl dc data c)"
  using assms(9)
  by (intro aset.closing [where p = p] adelete.closing [where p = p] aset_acl.closing [where p = p] acreate.closing [where p = p]
      acreate2.closing [where p = p] TrueI conjI assms(1-8);
      simp add: enc_SetDataRequest_def enc_DeleteRequest_def enc_SetACLRequest_def enc_create_def enc_CreateRequest_def
        enc_CreateTTLRequest_def path_request_length)+

end
