(* ===== verification/Session.thy ===== *)
theory Session
  imports Requests
begin

text \<open>
  The packets the library sends on its own: pings, authentication data, the watches to set again after a
  reconnection, and the two hand-coded records of the handshake. The lemmas show that authentication and watches go to the front of
  the outgoing queue, in which order, that the watches sent are exactly the watched paths, and that the handshake
  records have the layout the server expects on hosts of either byte order.
\<close>

abbreviation (input) ZOO_PING_OP :: i32 where "ZOO_PING_OP \<equiv> 11"
abbreviation (input) ZOO_SETAUTH_OP :: i32 where "ZOO_SETAUTH_OP \<equiv> 100"
abbreviation (input) ZOO_SETWATCHES_OP :: i32 where "ZOO_SETWATCHES_OP \<equiv> 101"

section \<open>Pings, authentication, watches\<close>

definition queue_front :: "os \<Rightarrow> int \<times> oarchive \<Rightarrow> client \<Rightarrow> int \<times> client" where
  \<comment> \<open>\<^verbatim>\<open>rc = rc < 0 ? rc : queue_front_buffer_bytes(...)\<close>\<close>
  "queue_front E r c = (case r of (rc, oa) \<Rightarrow>
     if rc < 0 then (rc, c)
     else
       let (rc, q) = queue_front_buffer_bytes (os_host E) (zh_to_send c) (get_buffer oa) (get_buffer_len oa)
       in (rc, c\<lparr>zh_to_send := q\<rparr>))"

definition send_ping :: "os \<Rightarrow> client \<Rightarrow> (int \<times> client) option" where
  "send_ping E c = do {
     (rc, oa) \<leftarrow> into_buffer (os_host E)
       (serialize_RequestHeader (os_host E) \<lparr>RequestHeader_xid = PING_XID, RequestHeader_type = ZOO_PING_OP\<rparr>);
     (tv, c) \<leftarrow> get_system_time E c;
     let c = c\<lparr>zh_last_ping := tv\<rparr>;
     let (rc, q) = (if rc < 0 then (rc, zh_to_send c)
                    else queue_buffer_bytes (os_host E) (zh_to_send c) (get_buffer oa) (get_buffer_len oa));
     let c = c\<lparr>zh_to_send := q\<rparr>;
     if rc < 0 then Some (rc, c) else adaptor_send_queue E 0 c
   }"

definition send_info_packet :: "os \<Rightarrow> auth_info \<Rightarrow> client \<Rightarrow> (int \<times> client) option" where
  "send_info_packet E auth c = do {
     let h = \<lparr>RequestHeader_xid = AUTH_XID, RequestHeader_type = ZOO_SETAUTH_OP\<rparr>;
     let req = \<lparr>AuthPacket_type = 0, AuthPacket_scheme = au_scheme auth, AuthPacket_auth = au_auth auth\<rparr>;
     r \<leftarrow> request_bytes (os_host E) h (serialize_AuthPacket (os_host E) req);
     Some (queue_front E r c)
   }"

fun send_auth_loop :: "os \<Rightarrow> auth_info list \<Rightarrow> int \<Rightarrow> client \<Rightarrow> (int \<times> client) option" where
  \<comment> \<open>the code of an earlier packet is overwritten by that of the next one\<close>
  "send_auth_loop E [] rc c = Some (rc, c)"
| "send_auth_loop E (auth # as) rc c = do {
     (rc, c) \<leftarrow> send_info_packet E auth c;
     send_auth_loop E as rc c
   }"

definition send_auth_info :: "os \<Rightarrow> client \<Rightarrow> (int \<times> client) option" where
  "send_auth_info E c =
     (if zh_auth_h c = [] then Some (ZOK, c)
      else do {
        (rc, c) \<leftarrow> send_auth_loop E (zh_auth_h c) 0 c;
        Some (if rc < 0 then ZMARSHALLINGERROR else ZOK, c)
      })"

definition send_last_auth_info :: "os \<Rightarrow> client \<Rightarrow> (int \<times> client) option" where
  "send_last_auth_info E c =
     (case get_last_auth (zh_auth_h c) of
        None \<Rightarrow> Some (ZOK, c)
      | Some auth \<Rightarrow> do {
          (rc, c) \<leftarrow> send_info_packet E auth c;
          Some (if rc < 0 then ZMARSHALLINGERROR else ZOK, c)
        })"

definition zoo_add_auth ::
  "os \<Rightarrow> cstr \<Rightarrow> bytes option \<Rightarrow> i32 \<Rightarrow> nat \<Rightarrow> nat \<Rightarrow> client \<Rightarrow> (int \<times> client) option" where
  \<comment> \<open>\<^verbatim>\<open>malloc\<close> of the entry is not checked, and its \<^verbatim>\<open>state\<close>, which nothing reads, is not set\<close>
  "zoo_add_auth E scheme cert certLen completion data c =
     (if scheme = None \<or> w_null c then Some (ZBADARGUMENTS, c)
      else if is_unrecoverable c \<noteq> 0 then Some (ZINVALIDSTATE, c)
      else if zoo_state c = 0 then Some (ZINVALIDSTATE, c)
      else if cert \<noteq> None \<and> certLen \<noteq> 0 \<and> \<not> grants (os_host E) (to_size (sint certLen)) then Some (ZSYSTEMERROR, c)
      else do {
        auth \<leftarrow> (if cert \<noteq> None \<and> certLen \<noteq> 0
                 then do { b \<leftarrow> mem_read cert 0 (sint certLen); Some \<lparr>cb_len = certLen, cb_buff = Some b\<rparr> }
                 else Some \<lparr>cb_len = 0, cb_buff = None\<rparr>);
        _ \<leftarrow> c_assert (grants (os_host E) 56);
        s \<leftarrow> scheme;
        let authinfo = \<lparr>au_state = 0, au_scheme = strdup (os_host E) s, au_auth = auth, au_completion = completion,
          au_data = data\<rparr>;
        let c = c\<lparr>zh_auth_h := add_last_auth (zh_auth_h c) authinfo\<rparr>;
        if is_connected c \<or> zh_state c = ZOO_ASSOCIATING_STATE then send_last_auth_info E c else Some (ZOK, c)
      })"

definition send_set_watches :: "os \<Rightarrow> client \<Rightarrow> (int \<times> client) option" where
  "send_set_watches E c = do {
     let h = \<lparr>RequestHeader_xid = SET_WATCHES_XID, RequestHeader_type = ZOO_SETWATCHES_OP\<rparr>;
     (dn, dks) \<leftarrow> collect_keys (os_host E) (active_node_watchers (zh_watchers c));
     (en, eks) \<leftarrow> collect_keys (os_host E) (active_exist_watchers (zh_watchers c));
     (cn, cks) \<leftarrow> collect_keys (os_host E) (active_child_watchers (zh_watchers c));
     let req = \<lparr>SetWatches_relativeZxid = zh_last_zxid c,
       SetWatches_dataWatches = \<lparr>vec_count = of_nat dn, vec_data = dks\<rparr>,
       SetWatches_existWatches = \<lparr>vec_count = of_nat en, vec_data = eks\<rparr>,
       SetWatches_childWatches = \<lparr>vec_count = of_nat cn, vec_data = cks\<rparr>\<rparr>;
     if vec_count (SetWatches_dataWatches req) = 0 \<and> vec_count (SetWatches_existWatches req) = 0 \<and>
        vec_count (SetWatches_childWatches req) = 0
     then Some (ZOK, c)
     else do {
       r \<leftarrow> request_bytes (os_host E) h (serialize_SetWatches (os_host E) req);
       let (rc, c) = queue_front E r c;
       Some (if rc < 0 then ZMARSHALLINGERROR else ZOK, c)
     }
   }"

section \<open>The handshake records\<close>

record connect_req =
  cr_protocolVersion :: i32
  cr_lastZxidSeen :: i64
  cr_timeOut :: i32
  cr_sessionId :: i64
  cr_passwd_len :: i32
  cr_passwd :: bytes
  cr_readOnly :: char

definition serialize_prime_connect :: "host \<Rightarrow> connect_req \<Rightarrow> bytes \<Rightarrow> bytes option" where
  \<comment> \<open>each field is put into network order in place and its memory image is copied to the next offset\<close>
  "serialize_prime_connect H req buffer = do {
     b \<leftarrow> mem_write (Some buffer) 0 (host32 H (htonl H (cr_protocolVersion req)));
     b \<leftarrow> mem_write (Some b) 4 (host64 H (zoo_htonll H (cr_lastZxidSeen req)));
     b \<leftarrow> mem_write (Some b) 12 (host32 H (htonl H (cr_timeOut req)));
     b \<leftarrow> mem_write (Some b) 16 (host64 H (zoo_htonll H (cr_sessionId req)));
     b \<leftarrow> mem_write (Some b) 24 (host32 H (htonl H (cr_passwd_len req)));
     b \<leftarrow> mem_write (Some b) 28 (cr_passwd req);
     mem_write (Some b) 44 [cr_readOnly req]
   }"

definition deserialize_prime_response :: "host \<Rightarrow> bytes option \<Rightarrow> prime_struct option" where
  "deserialize_prime_response H buffer = do {
     len \<leftarrow> mem_read buffer 0 4;
     version \<leftarrow> mem_read buffer 4 4;
     timeOut \<leftarrow> mem_read buffer 8 4;
     sessionId \<leftarrow> mem_read buffer 12 8;
     passwd_len \<leftarrow> mem_read buffer 20 4;
     passwd \<leftarrow> mem_read buffer 24 16;
     readOnly \<leftarrow> mem_read buffer 40 1;
     Some \<lparr>pr_len = ntohl H (of_host32 H len), pr_protocolVersion = ntohl H (of_host32 H version),
       pr_timeOut = ntohl H (of_host32 H timeOut), pr_sessionId = zoo_htonll H (of_host64 H sessionId),
       pr_passwd_len = ntohl H (of_host32 H passwd_len), pr_passwd = passwd, pr_readOnly = hd readOnly\<rparr>
   }"

definition connect_request :: "client \<Rightarrow> connect_req" where
  \<comment> \<open>the request \<^verbatim>\<open>prime_connection\<close> fills in\<close>
  "connect_request c = \<lparr>cr_protocolVersion = 0, cr_lastZxidSeen = zh_last_zxid c, cr_timeOut = zh_recv_timeout c,
     cr_sessionId = (if zh_seen_rw_server_before c \<noteq> NUL then zh_client_id c else 0), cr_passwd_len = 16,
     cr_passwd = zh_passwd c, cr_readOnly = zh_allow_read_only c\<rparr>"

section \<open>The layout of the handshake\<close>

definition enc_connect_req :: "connect_req \<Rightarrow> bytes" where
  "enc_connect_req r = be32 (cr_protocolVersion r) @ be64 (cr_lastZxidSeen r) @ be32 (cr_timeOut r) @ be64 (cr_sessionId r) @
     be32 (cr_passwd_len r) @ cr_passwd r @ [cr_readOnly r]"

definition enc_prime :: "prime_struct \<Rightarrow> bytes" where
  "enc_prime r = be32 (pr_len r) @ be32 (pr_protocolVersion r) @ be32 (pr_timeOut r) @ be64 (pr_sessionId r) @
     be32 (pr_passwd_len r) @ pr_passwd r @ [pr_readOnly r]"

lemma mem_write_next:
  "length d \<le> length z \<Longrightarrow> off = int (length pre) \<Longrightarrow> mem_write (Some (pre @ z)) off d = Some ((pre @ d) @ drop (length d) z)"
  by (simp add: mem_write_def)

lemma serialize_prime_connect_layout:
  assumes "length buf = 45" and "length (cr_passwd req) = 16"
  shows "serialize_prime_connect H req buf = Some (enc_connect_req req)"
proof -
  let ?a = "be32 (cr_protocolVersion req)" and ?b = "be64 (cr_lastZxidSeen req)" and ?c = "be32 (cr_timeOut req)"
    and ?d = "be64 (cr_sessionId req)" and ?e = "be32 (cr_passwd_len req)" and ?f = "cr_passwd req"
  define z1 z2 z3 z4 z5 z6 where "z1 = drop 4 buf" and "z2 = drop 8 z1" and "z3 = drop 4 z2" and "z4 = drop 8 z3"
    and "z5 = drop 4 z4" and "z6 = drop 16 z5"
  have len: "length z1 = 41" "length z2 = 33" "length z3 = 29" "length z4 = 21" "length z5 = 17" "length z6 = 1"
    using assms(1) by (simp_all add: z1_def z2_def z3_def z4_def z5_def z6_def)
  have 1: "mem_write (Some buf) 0 ?a = Some (?a @ z1)"
    using mem_write_next [of ?a buf 0 "[]"] assms(1) unfolding z1_def by simp
  have 2: "mem_write (Some (?a @ z1)) 4 ?b = Some ((?a @ ?b) @ z2)"
    using mem_write_next [of ?b z1 4 ?a] len unfolding z2_def by simp
  have 3: "mem_write (Some ((?a @ ?b) @ z2)) 12 ?c = Some (((?a @ ?b) @ ?c) @ z3)"
    using mem_write_next [of ?c z2 12 "?a @ ?b"] len unfolding z3_def by simp
  have 4: "mem_write (Some (((?a @ ?b) @ ?c) @ z3)) 16 ?d = Some ((((?a @ ?b) @ ?c) @ ?d) @ z4)"
    using mem_write_next [of ?d z3 16 "(?a @ ?b) @ ?c"] len unfolding z4_def by simp
  have 5: "mem_write (Some ((((?a @ ?b) @ ?c) @ ?d) @ z4)) 24 ?e = Some (((((?a @ ?b) @ ?c) @ ?d) @ ?e) @ z5)"
    using mem_write_next [of ?e z4 24 "((?a @ ?b) @ ?c) @ ?d"] len unfolding z5_def by simp
  have 6: "mem_write (Some (((((?a @ ?b) @ ?c) @ ?d) @ ?e) @ z5)) 28 ?f = Some ((((((?a @ ?b) @ ?c) @ ?d) @ ?e) @ ?f) @ z6)"
    using mem_write_next [of ?f z5 28 "(((?a @ ?b) @ ?c) @ ?d) @ ?e"] len assms(2) unfolding z6_def by simp
  have 7: "mem_write (Some ((((((?a @ ?b) @ ?c) @ ?d) @ ?e) @ ?f) @ z6)) 44 [cr_readOnly req] = Some (enc_connect_req req)"
    using mem_write_next [of "[cr_readOnly req]" z6 44 "((((?a @ ?b) @ ?c) @ ?d) @ ?e) @ ?f"] len assms(2)
    by (simp add: enc_connect_req_def)
  show ?thesis
    unfolding serialize_prime_connect_def host32_htonl host64_zoo_htonll 1 bind.bind_lunit 2 3 4 5 6 7 ..
qed

lemma mem_read_next:
  "bs = pre @ d @ z \<Longrightarrow> off = int (length pre) \<Longrightarrow> n = int (length d) \<Longrightarrow> mem_read (Some bs) off n = Some d"
  by (simp add: mem_read_def)

lemma deserialize_prime_response_layout:
  assumes "length (pr_passwd r) = 16"
  shows "deserialize_prime_response H (Some (enc_prime r)) = Some r"
proof -
  let ?a = "be32 (pr_len r)" and ?b = "be32 (pr_protocolVersion r)" and ?c = "be32 (pr_timeOut r)"
    and ?d = "be64 (pr_sessionId r)" and ?e = "be32 (pr_passwd_len r)" and ?f = "pr_passwd r" and ?g = "[pr_readOnly r]"
  have "mem_read (Some (enc_prime r)) 0 4 = Some ?a"
    by (rule mem_read_next [of _ "[]" _ "?b @ ?c @ ?d @ ?e @ ?f @ ?g"]) (simp_all add: enc_prime_def)
  moreover have "mem_read (Some (enc_prime r)) 4 4 = Some ?b"
    by (rule mem_read_next [of _ ?a _ "?c @ ?d @ ?e @ ?f @ ?g"]) (simp_all add: enc_prime_def)
  moreover have "mem_read (Some (enc_prime r)) 8 4 = Some ?c"
    by (rule mem_read_next [of _ "?a @ ?b" _ "?d @ ?e @ ?f @ ?g"]) (simp_all add: enc_prime_def)
  moreover have "mem_read (Some (enc_prime r)) 12 8 = Some ?d"
    by (rule mem_read_next [of _ "?a @ ?b @ ?c" _ "?e @ ?f @ ?g"]) (simp_all add: enc_prime_def)
  moreover have "mem_read (Some (enc_prime r)) 20 4 = Some ?e"
    by (rule mem_read_next [of _ "?a @ ?b @ ?c @ ?d" _ "?f @ ?g"]) (simp_all add: enc_prime_def)
  moreover have "mem_read (Some (enc_prime r)) 24 16 = Some ?f"
    by (rule mem_read_next [of _ "?a @ ?b @ ?c @ ?d @ ?e" _ ?g]) (simp_all add: enc_prime_def assms)
  moreover have "mem_read (Some (enc_prime r)) 40 1 = Some ?g"
    by (rule mem_read_next [of _ "?a @ ?b @ ?c @ ?d @ ?e @ ?f" _ "[]"]) (simp_all add: enc_prime_def assms)
  ultimately show ?thesis
    by (simp add: deserialize_prime_response_def ntohl_of_host32 zoo_htonll_of_host64)
qed

section \<open>What the packets do to the outgoing stream\<close>

lemma queue_front_ok:
  assumes "good_host (os_host E)" and "oa_wf oa" and "oa_bytes oa \<noteq> []" and "int (length (oa_bytes oa)) \<le> OA_MAX"
  shows "\<exists>b. queue_front E (0, oa) c = (ZOK, c\<lparr>zh_to_send := b # zh_to_send c\<rparr>) \<and> is_packet b \<and> unsent b = frame (oa_bytes oa)"
  using allocate_packet [OF assms] by (auto simp: queue_front_def queue_front_buffer_bytes_def)

lemma length_enc_header [simp]: "length (enc_RequestHeader h) = 8"
  by (simp add: enc_RequestHeader_def)

lemma front_packet:
  \<comment> \<open>a header and a record, queued in front\<close>
  assumes "good_host (os_host E)" and "oa_writes ser bs" and "int (length bs) + 8 \<le> OA_MAX"
  shows "\<exists>r b. request_bytes (os_host E) h ser = Some r \<and> queue_front E r c = (ZOK, c\<lparr>zh_to_send := b # zh_to_send c\<rparr>) \<and>
    is_packet b \<and> unsent b = frame (enc_RequestHeader h @ bs)"
proof -
  obtain oa where oa: "request_bytes (os_host E) h ser = Some (0, oa)" "oa_wf oa" "oa_bytes oa = enc_RequestHeader h @ bs"
    using request_bytes_ok [OF assms] by blast
  have "length (oa_bytes oa) = 8 + length bs" by (simp add: oa(3))
  then have "oa_bytes oa \<noteq> []" "int (length (oa_bytes oa)) \<le> OA_MAX" using assms(3) by auto
  from queue_front_ok [OF assms(1) oa(2) this] oa show ?thesis by force
qed

definition auth_frame :: "auth_info \<Rightarrow> bytes" where
  "auth_frame a = frame (enc_RequestHeader \<lparr>RequestHeader_xid = AUTH_XID, RequestHeader_type = ZOO_SETAUTH_OP\<rparr> @
     enc_AuthPacket \<lparr>AuthPacket_type = 0, AuthPacket_scheme = au_scheme a, AuthPacket_auth = au_auth a\<rparr>)"

definition auth_sendable :: "auth_info \<Rightarrow> bool" where
  "auth_sendable a \<longleftrightarrow> cbuffer_sendable (au_auth a) \<and>
     int (length (enc_AuthPacket \<lparr>AuthPacket_type = 0, AuthPacket_scheme = au_scheme a, AuthPacket_auth = au_auth a\<rparr>)) + 8 \<le> OA_MAX"

lemma send_info_packet_front:
  assumes "good_host (os_host E)" and "auth_sendable a"
  shows "\<exists>b. send_info_packet E a c = Some (ZOK, c\<lparr>zh_to_send := b # zh_to_send c\<rparr>) \<and> is_packet b \<and> unsent b = auth_frame a"
proof -
  let ?h = "\<lparr>RequestHeader_xid = AUTH_XID, RequestHeader_type = ZOO_SETAUTH_OP\<rparr>"
  let ?req = "\<lparr>AuthPacket_type = 0, AuthPacket_scheme = au_scheme a, AuthPacket_auth = au_auth a\<rparr>"
  have w: "oa_writes (serialize_AuthPacket (os_host E) ?req) (enc_AuthPacket ?req)"
    using assms by (intro AuthPacket_writes) (simp_all add: auth_sendable_def)
  have "int (length (enc_AuthPacket ?req)) + 8 \<le> OA_MAX" using assms(2) by (simp add: auth_sendable_def)
  from front_packet [OF assms(1) w this, of ?h c] obtain r b where
    "request_bytes (os_host E) ?h (serialize_AuthPacket (os_host E) ?req) = Some r"
    "queue_front E r c = (ZOK, c\<lparr>zh_to_send := b # zh_to_send c\<rparr>)" "is_packet b" "unsent b = auth_frame a"
    by (auto simp: auth_frame_def)
  then show ?thesis by (intro exI [of _ b]) (simp add: send_info_packet_def Let_def)
qed

lemma send_auth_loop_front:
  assumes "good_host (os_host E)" and "list_all auth_sendable as"
  shows "\<exists>bs. send_auth_loop E as 0 c = Some (ZOK, c\<lparr>zh_to_send := bs @ zh_to_send c\<rparr>) \<and> list_all is_packet bs \<and>
    pending bs = concat (map auth_frame (rev as))"
  using assms(2)
proof (induction as arbitrary: c)
  case (Cons a as)
  obtain b where b: "send_info_packet E a c = Some (ZOK, c\<lparr>zh_to_send := b # zh_to_send c\<rparr>)" "is_packet b"
    "unsent b = auth_frame a"
    using send_info_packet_front [OF assms(1), of a c] Cons.prems by auto
  from Cons.IH [of "c\<lparr>zh_to_send := b # zh_to_send c\<rparr>"] Cons.prems obtain bs where
    "send_auth_loop E as 0 (c\<lparr>zh_to_send := b # zh_to_send c\<rparr>) = Some (ZOK, c\<lparr>zh_to_send := bs @ b # zh_to_send c\<rparr>)"
    "list_all is_packet bs" "pending bs = concat (map auth_frame (rev as))" by auto
  with b show ?case by (intro exI [of _ "bs @ [b]"]) simp
next
  case Nil
  show ?case by (intro exI [of _ "[]"]) simp
qed

lemma send_auth_info_front:
  assumes "good_host (os_host E)" and "list_all auth_sendable (zh_auth_h c)"
  shows "\<exists>bs. send_auth_info E c = Some (ZOK, c\<lparr>zh_to_send := bs @ zh_to_send c\<rparr>) \<and> list_all is_packet bs \<and>
    pending bs = concat (map auth_frame (rev (zh_auth_h c)))"
  using send_auth_loop_front [OF assms, of c] by (cases "zh_auth_h c = []") (auto simp: send_auth_info_def)

definition watch_lists :: "client \<Rightarrow> SetWatches" where
  \<comment> \<open>the message that lists every watched path of the three tables\<close>
  "watch_lists c =
     (let vec = (\<lambda>ht. \<lparr>vec_count = of_nat (length (watched_paths ht)), vec_data = Some (map Some (watched_paths ht))\<rparr>) in
      \<lparr>SetWatches_relativeZxid = zh_last_zxid c,
       SetWatches_dataWatches = vec (active_node_watchers (zh_watchers c)),
       SetWatches_existWatches = vec (active_exist_watchers (zh_watchers c)),
       SetWatches_childWatches = vec (active_child_watchers (zh_watchers c))\<rparr>)"

definition table_fits :: "zk_hashtable \<Rightarrow> bool" where
  "table_fits ht \<longleftrightarrow> length (watched_paths ht) \<le> 2 ^ 27 \<and> (\<forall>k \<in> set (watched_paths ht). length k < 2 ^ 27)"

lemma watched_vec_sendable:
  "length ks \<le> 2 ^ 27 \<Longrightarrow> vec_sendable (\<lambda>_. True) \<lparr>vec_count = of_nat (length ks), vec_data = Some (map Some ks)\<rparr>"
  by (simp add: vec_sendable_def vec_list_def sint_of_nat_small list_all_iff)

lemma collect_keys_table:
  assumes "wt_wf ht" and "table_fits ht" and "good_host H"
  shows "collect_keys H ht = Some (length (watched_paths ht), Some (map Some (watched_paths ht)))"
proof (rule collect_keys_ok)
  show "ht_wf ht" using assms(1) by (simp add: wt_wf_def)
  show "grants H (8 * int (length (watched_paths ht)))"
    using assms(2,3) by (intro good_hostD) (auto simp: table_fits_def)
  show "\<forall>k \<in> set (watched_paths ht). grants H (int (length k) + 1)"
  proof
    fix k assume "k \<in> set (watched_paths ht)"
    then have "length k < 2 ^ 27" using assms(2) by (simp add: table_fits_def)
    then show "grants H (int (length k) + 1)" using assms(3) by (intro good_hostD) auto
  qed
qed (use assms(3) good_hostD in auto)

lemma of_nat_eq_0_small: "n \<le> 2 ^ 27 \<Longrightarrow> (of_nat n :: i32) = 0 \<longleftrightarrow> n = 0"
proof -
  assume "n \<le> 2 ^ 27"
  then have "unat (of_nat n :: i32) = n" by (simp add: unat_of_nat)
  moreover have "(of_nat n :: i32) = 0 \<longleftrightarrow> unat (of_nat n :: i32) = 0" by (simp only: unsigned_eq_0_iff)
  ultimately show ?thesis by simp
qed

lemma send_set_watches_front:
  assumes "good_host (os_host E)" and "tables_wf (zh_watchers c)" and "\<forall>t. table_fits (get_table (zh_watchers c) t)"
    and "int (length (enc_SetWatches (watch_lists c))) + 8 \<le> OA_MAX"
  shows "if \<forall>t. watched_paths (get_table (zh_watchers c) t) = [] then send_set_watches E c = Some (ZOK, c)
    else \<exists>b. send_set_watches E c = Some (ZOK, c\<lparr>zh_to_send := b # zh_to_send c\<rparr>) \<and> is_packet b \<and>
      unsent b = frame (enc_RequestHeader \<lparr>RequestHeader_xid = SET_WATCHES_XID, RequestHeader_type = ZOO_SETWATCHES_OP\<rparr> @
        enc_SetWatches (watch_lists c))"
proof -
  let ?n = "active_node_watchers (zh_watchers c)" and ?e = "active_exist_watchers (zh_watchers c)"
    and ?c = "active_child_watchers (zh_watchers c)"
  let ?h = "\<lparr>RequestHeader_xid = SET_WATCHES_XID, RequestHeader_type = ZOO_SETWATCHES_OP\<rparr>"
  have wf: "wt_wf ?n" "wt_wf ?e" "wt_wf ?c" using assms(2) by (metis get_table.simps tables_wf_def)+
  have fit: "table_fits ?n" "table_fits ?e" "table_fits ?c" using assms(3) by (metis get_table.simps)+
  note keys = collect_keys_table [OF wf(1) fit(1) assms(1)] collect_keys_table [OF wf(2) fit(2) assms(1)]
    collect_keys_table [OF wf(3) fit(3) assms(1)]
  have small: "length (watched_paths ?n) \<le> 2 ^ 27" "length (watched_paths ?e) \<le> 2 ^ 27" "length (watched_paths ?c) \<le> 2 ^ 27"
    using fit by (simp_all add: table_fits_def)
  have all: "(\<forall>t. watched_paths (get_table (zh_watchers c) t) = []) \<longleftrightarrow>
      watched_paths ?n = [] \<and> watched_paths ?e = [] \<and> watched_paths ?c = []"
    by (metis get_table.simps watch_table.exhaust)
  have zero: "(of_nat (length (watched_paths ?n)) :: i32) = 0 \<longleftrightarrow> watched_paths ?n = []"
    "(of_nat (length (watched_paths ?e)) :: i32) = 0 \<longleftrightarrow> watched_paths ?e = []"
    "(of_nat (length (watched_paths ?c)) :: i32) = 0 \<longleftrightarrow> watched_paths ?c = []"
    using of_nat_eq_0_small [OF small(1)] of_nat_eq_0_small [OF small(2)] of_nat_eq_0_small [OF small(3)] by simp_all
  have w: "oa_writes (serialize_SetWatches (os_host E) (watch_lists c)) (enc_SetWatches (watch_lists c))"
    by (rule SetWatches_writes) (use small watched_vec_sendable assms(1) in \<open>auto simp: watch_lists_def Let_def\<close>)
  from front_packet [OF assms(1) w assms(4), of ?h c] obtain r b where
    r: "request_bytes (os_host E) ?h (serialize_SetWatches (os_host E) (watch_lists c)) = Some r"
    "queue_front E r c = (ZOK, c\<lparr>zh_to_send := b # zh_to_send c\<rparr>)" and b: "is_packet b"
    "unsent b = frame (enc_RequestHeader ?h @ enc_SetWatches (watch_lists c))" by blast
  have "send_set_watches E c = (if watched_paths ?n = [] \<and> watched_paths ?e = [] \<and> watched_paths ?c = [] then Some (ZOK, c)
      else do {
        r \<leftarrow> request_bytes (os_host E) ?h (serialize_SetWatches (os_host E) (watch_lists c));
        let (rc, c) = queue_front E r c;
        Some (if rc < 0 then ZMARSHALLINGERROR else ZOK, c)
      })"
    unfolding send_set_watches_def keys bind.bind_lunit prod.case Let_def SetWatches.simps vector.simps zero watch_lists_def ..
  then have eq: "send_set_watches E c = (if watched_paths ?n = [] \<and> watched_paths ?e = [] \<and> watched_paths ?c = [] then Some (ZOK, c)
      else Some (ZOK, c\<lparr>zh_to_send := b # zh_to_send c\<rparr>))" by (simp add: r Let_def)
  show ?thesis
  proof (cases "watched_paths ?n = [] \<and> watched_paths ?e = [] \<and> watched_paths ?c = []")
    case True
    show ?thesis unfolding all eq if_P [OF True] ..
  next
    case False
    show ?thesis unfolding all eq if_not_P [OF False] by (intro exI [of _ b] conjI refl b)
  qed
qed

section \<open>Properties\<close>

text \<open>
  The handshake: the request \<^verbatim>\<open>prime_connection\<close> builds fills its 45 bytes exactly, with every integer in network
  order on hosts of either byte order; and a reply of 41 bytes in that layout is read back to the same values.
\<close>

theorem handshake_layout:
  assumes "length buf = 45" and "length (zh_passwd c) = 16" and "length (pr_passwd r) = 16"
  shows "serialize_prime_connect H (connect_request c) buf = Some (enc_connect_req (connect_request c)) \<and>
    length (enc_connect_req (connect_request c)) = 45 \<and>
    deserialize_prime_response H (Some (enc_prime r)) = Some r \<and> length (enc_prime r) = 41"
  using serialize_prime_connect_layout [OF assms(1), of "connect_request c" H] deserialize_prime_response_layout [OF assms(3), of H]
    assms
  by (simp add: connect_request_def enc_connect_req_def enc_prime_def)

definition sample_prime :: prime_struct where
  "sample_prime = \<lparr>pr_len = 37, pr_protocolVersion = 0, pr_timeOut = 4000, pr_sessionId = 77, pr_passwd_len = 16,
     pr_passwd = replicate 16 (CHR ''p''), pr_readOnly = NUL\<rparr>"

theorem handshake_layout_witness:
  "deserialize_prime_response (test_host False) (Some (enc_prime sample_prime)) = Some sample_prime"
proof -
  have "length (zh_passwd test_client) = 16" by (simp add: test_client_def)
  from handshake_layout [of "replicate 45 NUL", OF _ this, of sample_prime "test_host False"] show ?thesis
    by (simp add: sample_prime_def)
qed

text \<open>
  (C33) After a reconnection the client asks the server to set again exactly the watches it has: the message queued in
  front of everything else lists every path of the three tables, each once, with the last transaction the
  client saw; when no path is watched nothing is sent.
\<close>

theorem set_watches_complete:
  assumes "good_host (os_host E)" and "tables_wf (zh_watchers c)" and "\<forall>t. table_fits (get_table (zh_watchers c) t)"
    and "int (length (enc_SetWatches (watch_lists c))) + 8 \<le> OA_MAX"
  shows "(\<exists>c'. send_set_watches E c = Some (ZOK, c') \<and> zh_watchers c' = zh_watchers c \<and>
      out_stream c' = so_out (w_sock c) @
        (if \<forall>t. watched_paths (get_table (zh_watchers c) t) = [] then []
         else frame (enc_RequestHeader \<lparr>RequestHeader_xid = SET_WATCHES_XID, RequestHeader_type = ZOO_SETWATCHES_OP\<rparr> @
           enc_SetWatches (watch_lists c))) @ pending (zh_to_send c)) \<and>
    (\<forall>t p. distinct (watched_paths (get_table (zh_watchers c) t)) \<and>
      (p \<in> set (watched_paths (get_table (zh_watchers c) t)) \<longleftrightarrow> watchers_at (get_table (zh_watchers c) t) p \<noteq> []))"
proof -
  have wf: "wt_wf (get_table (zh_watchers c) t)" for t using assms(2) by (simp add: tables_wf_def)
  have "distinct (watched_paths (get_table (zh_watchers c) t)) \<and>
      (p \<in> set (watched_paths (get_table (zh_watchers c) t)) \<longleftrightarrow> watchers_at (get_table (zh_watchers c) t) p \<noteq> [])" for t p
    using wf [of t] watched_paths_exact [of "get_table (zh_watchers c) t"] search_watchers_at [OF wf [of t], of p]
    by (simp add: wt_wf_def)
  moreover have "\<exists>c'. send_set_watches E c = Some (ZOK, c') \<and> zh_watchers c' = zh_watchers c \<and>
      out_stream c' = so_out (w_sock c) @
        (if \<forall>t. watched_paths (get_table (zh_watchers c) t) = [] then []
         else frame (enc_RequestHeader \<lparr>RequestHeader_xid = SET_WATCHES_XID, RequestHeader_type = ZOO_SETWATCHES_OP\<rparr> @
           enc_SetWatches (watch_lists c))) @ pending (zh_to_send c)"
    using send_set_watches_front [OF assms] by (auto simp: out_stream_def split: if_splits)
  ultimately show ?thesis by blast
qed

lemma no_watched_paths: "watched_paths (get_table no_watchers t) = []"
  by (cases t) (simp_all add: watched_paths_def no_watchers_def empty_watch_table_def ht_entries_def)

lemma no_watches_fit:
  assumes "zh_watchers c = no_watchers"
  shows "\<forall>t. table_fits (get_table (zh_watchers c) t)" and "int (length (enc_SetWatches (watch_lists c))) + 8 \<le> OA_MAX"
  using no_watched_paths [of Node_table] no_watched_paths [of Exist_table] no_watched_paths [of Child_table]
  by (simp_all add: assms table_fits_def no_watched_paths watch_lists_def enc_SetWatches_def enc_String_vector_def enc_vector_def
      vec_list_def Let_def)

theorem set_watches_complete_witness:
  "\<exists>c'. send_set_watches test_os test_client = Some (ZOK, c') \<and> out_stream c' = []"
proof -
  have "good_host (os_host test_os)" using works_test by (simp add: works_def)
  then show ?thesis
    using set_watches_complete [of test_os test_client] no_watches_fit [of test_client] no_watched_paths no_watchers_wf
    by (auto simp: pending_def)
qed

lemma add_auth_front:
  assumes "good_host (os_host E)" and "\<not> w_null c" and "is_connected c" and "length scheme < 2 ^ 20"
    and "cert = None \<or> (\<exists>b. cert = Some b \<and> sint certLen = int (length b) \<and> 0 < length b \<and> length b < 2 ^ 20)"
  shows "\<exists>c' a. zoo_add_auth E (Some scheme) cert certLen completion data c = Some (ZOK, c') \<and>
    zh_auth_h c' = zh_auth_h c @ [a] \<and> au_scheme a = Some scheme \<and> au_completion a = completion \<and>
    out_stream c' = so_out (w_sock c) @ auth_frame a @ pending (zh_to_send c)"
proof -
  let ?auth = "case cert of None \<Rightarrow> \<lparr>cb_len = 0, cb_buff = None\<rparr> | Some b \<Rightarrow> \<lparr>cb_len = certLen, cb_buff = Some b\<rparr>"
  let ?a = "\<lparr>au_state = 0, au_scheme = Some scheme, au_auth = ?auth, au_completion = completion, au_data = data\<rparr>"
  let ?c = "c\<lparr>zh_auth_h := zh_auth_h c @ [?a]\<rparr>"
  have "auth_sendable ?a"
    using assms(4,5)
    by (auto simp: auth_sendable_def cbuffer_sendable_def enc_AuthPacket_def enc_buffer_def path_request_length)
  from send_info_packet_front [OF assms(1) this, of ?c] obtain b where
    b: "send_info_packet E ?a ?c = Some (ZOK, ?c\<lparr>zh_to_send := b # zh_to_send c\<rparr>)" "unsent b = auth_frame ?a" by auto
  have st: "is_unrecoverable c = 0" "zoo_state c \<noteq> 0" "is_connected ?c"
    using assms(2,3) by (auto simp: is_connected_def is_unrecoverable_def zoo_state_def)
  have g: "grants (os_host E) 56" "strdup (os_host E) scheme = Some scheme"
    using assms(1,4) by (simp_all add: good_hostD strdup_def)
  have last: "send_last_auth_info E ?c = Some (ZOK, ?c\<lparr>zh_to_send := b # zh_to_send c\<rparr>)"
    using b(1) by (simp add: send_last_auth_info_def get_last_auth_def)
  have "zoo_add_auth E (Some scheme) cert certLen completion data c =
      Some (ZOK, ?c\<lparr>zh_to_send := b # zh_to_send c\<rparr>)"
  proof (cases cert)
    case None
    with assms(2) st g last show ?thesis by (simp add: zoo_add_auth_def add_last_auth_def)
  next
    case (Some d)
    with assms(5) have d: "sint certLen = int (length d)" "0 < length d" "length d < 2 ^ 20" by auto
    then have "certLen \<noteq> 0" "grants (os_host E) (to_size (sint certLen))" "mem_read (Some d) 0 (sint certLen) = Some d"
      using assms(1) by (auto simp: good_hostD mem_read_def)
    with Some assms(2) st g last show ?thesis by (simp add: zoo_add_auth_def add_last_auth_def)
  qed
  then show ?thesis using b(2) by (intro exI conjI) (assumption, simp_all add: out_stream_def)
qed

text \<open>
  (C34) Authentication packets are put in front of whatever is queued, without a look at how much of the queue's head has
  been sent. \<^verbatim>\<open>zoo_add_auth\<close> on a connected handle therefore cuts into a packet whose first bytes are on the wire already: the server
  receives part of that packet, then the authentication frame, then the rest.
\<close>

theorem add_auth_splits_frame:
  assumes "good_host (os_host E)" and "\<not> w_null c" and "is_connected c" and "length scheme < 2 ^ 20"
    and "cert = None \<or> (\<exists>b. cert = Some b \<and> sint certLen = int (length b) \<and> 0 < length b \<and> length b < 2 ^ 20)"
  shows "\<exists>c' a. zoo_add_auth E (Some scheme) cert certLen completion data c = Some (ZOK, c') \<and>
    zh_auth_h c' = zh_auth_h c @ [a] \<and> au_scheme a = Some scheme \<and> au_completion a = completion \<and>
    out_stream c' = so_out (w_sock c) @ auth_frame a @ pending (zh_to_send c)"
  using assms by (rule add_auth_front)

theorem add_auth_splits_frame_witness:
  "\<exists>c' a. zoo_add_auth test_os (Some ''digest'') (Some ''u:p'') 3 11 12
      (test_client\<lparr>zh_to_send := [hello_buffer\<lparr>bl_curr_offset := 2\<rparr>],
         w_sock := \<lparr>so_plan = [], so_out = take 2 (frame ''hello''), so_in = []\<rparr>\<rparr>) = Some (ZOK, c') \<and>
     out_stream c' = take 2 (frame ''hello'') @ auth_frame a @ drop 2 (frame ''hello'')"
proof -
  let ?b = "hello_buffer\<lparr>bl_curr_offset := 2\<rparr>"
  let ?c = "test_client\<lparr>zh_to_send := [?b], w_sock := \<lparr>so_plan = [], so_out = take 2 (frame ''hello''), so_in = []\<rparr>\<rparr>"
  have "unsent ?b = drop 2 (frame ''hello'')" by (simp add: unsent_def payload_def hello_buffer_def)
  moreover have "good_host (os_host test_os)" using works_test by (simp add: works_def)
  moreover have "is_connected ?c" by (simp add: is_connected_def)
  ultimately show ?thesis
    using add_auth_splits_frame [of test_os ?c "''digest''" "Some ''u:p''" 3 11 12] by auto
qed

text \<open>
  (C32) A handle that is closing. The calls that ask for or change a node are turned away once \<^verbatim>\<open>zookeeper_close\<close> has begun: they report
  \<^verbatim>\<open>ZMARSHALLINGERROR\<close> (not the \<^verbatim>\<open>ZINVALIDSTATE\<close> of \<^verbatim>\<open>do_add_completion\<close>), no entry is added and no packet is queued. \<^verbatim>\<open>zoo_add_auth\<close> does not look
  whether the handle is closing: on a connected handle it reports success and its packet is queued in front of the others.
\<close>

theorem requests_when_closing:
  assumes "works E c" and "path_fits (zh_chroot c) path" and "p = server_path (zh_chroot c) path" and "valid_path 0 p" and "valid_path (sint mode) p"
    and "0 \<le> zh_state c" and "zh_close_requested c"
    and "cbuffer_sendable buf" and "ACL_vector_sendable (acl_or_empty acl)" and "ttl_accepted mode ttl"
    and "int (length p + length (enc_buffer buf) + length (enc_ACL_vector (acl_or_empty acl))) + 24 \<le> OA_MAX" and "length p + 13 \<le> 2 ^ 27"
    and "is_connected c" and "length scheme < 2 ^ 20"
  shows "turned_away c (zoo_awget E (Some path) w ctx dc data c) \<and> turned_away c (zoo_awexists E (Some path) w ctx dc data c) \<and>
    turned_away c (zoo_awget_children E (Some path) w ctx dc data c) \<and> turned_away c (zoo_awget_children2 E (Some path) w ctx dc data c) \<and>
    turned_away c (zoo_aget_acl E (Some path) dc data c) \<and> turned_away c (zoo_async E (Some path) dc data c) \<and>
    turned_away c (zoo_aset E (Some path) buf version dc data c) \<and> turned_away c (zoo_adelete E (Some path) version dc data c) \<and>
    turned_away c (zoo_aset_acl E (Some path) version (Some (acl_or_empty acl)) dc data c) \<and>
    turned_away c (zoo_acreate_ttl E (Some path) buf acl mode ttl dc data c) \<and>
    turned_away c (zoo_acreate2_ttl E (Some path) buf acl mode ttl dc data c) \<and>
    (\<exists>c' a. zoo_add_auth E (Some scheme) None 0 completion data c = Some (ZOK, c') \<and> au_scheme a = Some scheme \<and>
      out_stream c' = so_out (w_sock c) @ auth_frame a @ pending (zh_to_send c))"
proof -
  have "good_host (os_host E)" "\<not> w_null c" using assms(1) by (simp_all add: works_def)
  from add_auth_front [OF this assms(13,14), of None 0 completion data]
    reads_when_closing [OF assms(1-4,6,7,12)] writes_when_closing [OF assms(1-3,6-11)] assms(4,5)
  show ?thesis by auto
qed

theorem requests_when_closing_witness:
  "turned_away (test_client\<lparr>zh_close_requested := True\<rparr>)
     (zoo_awget test_os (Some ''/a'') 9 8 (Fn 3) 4 (test_client\<lparr>zh_close_requested := True\<rparr>)) \<and>
   (\<exists>c'. zoo_add_auth test_os (Some ''digest'') None 0 11 4 (test_client\<lparr>zh_close_requested := True\<rparr>) = Some (ZOK, c'))"
proof -
  let ?b = "\<lparr>cb_len = 1, cb_buff = Some ''x''\<rparr>"
  have "works test_os (test_client\<lparr>zh_close_requested := True\<rparr>)"
    using works_test by (simp add: works_def xid_left_def next_xid_def)
  moreover have "cbuffer_sendable ?b" by (simp add: cbuffer_sendable_def)
  moreover have "ACL_vector_sendable (acl_or_empty None)"
    by (simp add: acl_or_empty_def vec_sendable_def vec_list_def)
  moreover have "ttl_accepted 0 (- 1)" by (simp add: ttl_accepted_def ZOOKEEPER_IS_TTL_def)
  moreover have "length (enc_buffer ?b) = 5" "length (enc_ACL_vector (acl_or_empty None)) = 4"
    by (simp_all add: enc_buffer_def acl_or_empty_def enc_ACL_vector_def enc_vector_def vec_list_def)
  ultimately show ?thesis
    using requests_when_closing [of test_os "test_client\<lparr>zh_close_requested := True\<rparr>" "''/a''" "''/a''" 0 ?b None "- 1" "''digest''" 9 8 "Fn 3" 4 2 11]
    by (auto simp: path_fits_def server_path_def is_connected_def)
qed

end
