(* ===== verification/Response.thy ===== *)
theory Response
  imports Session
begin

text \<open>
  What happens to replies and to outstanding requests: a reply is decoded and handed to the completion of its request, queued
  completions are processed in order, and when the connection is lost or the handle closed every outstanding request is
  answered with the reason. A structure that the code does not initialise and that a truncated reply leaves unset is
  undefined when it is read, which is \<open>None\<close> here, as are failing assertions and calls through a null function pointer.
\<close>

section \<open>Calls of completions\<close>

definition emit :: "user_call \<Rightarrow> client \<Rightarrow> client" where
  "emit k c = c\<lparr>w_calls := w_calls c @ [k]\<rparr>"

definition op_result_string_completion :: "int \<Rightarrow> cstr \<Rightarrow> nat \<Rightarrow> client \<Rightarrow> client option" where
  "op_result_string_completion err val data c = do {
     r \<leftarrow> w_results c data;
     let r = r\<lparr>opr_err := err\<rparr>;
     r \<leftarrow> (case (opr_value r, val) of
            (Some buf, Some s) \<Rightarrow>
              let len = int (length s) + 1;
                  len = (if len > opr_valuelen r then opr_valuelen r else len)
              in if len > 0 then do {
                   buf \<leftarrow> mem_write (Some buf) 0 (take (nat (len - 1)) s);
                   buf \<leftarrow> mem_write (Some buf) (len - 1) [NUL];
                   Some (r\<lparr>opr_value := Some buf\<rparr>)
                 }
                 else Some r
          | _ \<Rightarrow> Some (r\<lparr>opr_value := None\<rparr>));
     Some (c\<lparr>w_results := (w_results c)(data \<mapsto> r)\<rparr>)
   }"

definition op_result_void_completion :: "int \<Rightarrow> nat \<Rightarrow> client \<Rightarrow> client option" where
  "op_result_void_completion err data c = do {
     r \<leftarrow> w_results c data;
     Some (c\<lparr>w_results := (w_results c)(data \<mapsto> r\<lparr>opr_err := err\<rparr>)\<rparr>)
   }"

definition op_result_stat_completion :: "int \<Rightarrow> Stat option \<Rightarrow> nat \<Rightarrow> client \<Rightarrow> client option" where
  \<comment> \<open>the null pointer is \<open>None\<close>; a result whose pointer is set keeps it only on success\<close>
  "op_result_stat_completion err stat data c = do {
     r \<leftarrow> w_results c data;
     let r = r\<lparr>opr_err := err\<rparr>;
     let r = (if opr_stat r \<noteq> None \<and> err = 0 \<and> stat \<noteq> None then r\<lparr>opr_stat := stat\<rparr> else r\<lparr>opr_stat := None\<rparr>);
     Some (c\<lparr>w_results := (w_results c)(data \<mapsto> r)\<rparr>)
   }"

fun void_result :: "callback \<Rightarrow> int \<Rightarrow> nat \<Rightarrow> client \<Rightarrow> client option" where
  "void_result (Fn f) rc data c = Some (emit (Void_call f rc data) c)"
| "void_result op_result_void_fn rc data c = op_result_void_completion rc data c"
| "void_result _ rc data c = None"

fun stat_result :: "callback \<Rightarrow> int \<Rightarrow> Stat option \<Rightarrow> nat \<Rightarrow> client \<Rightarrow> client option" where
  "stat_result (Fn f) rc stat data c = Some (emit (Stat_call f rc stat data) c)"
| "stat_result op_result_stat_fn rc stat data c = op_result_stat_completion rc stat data c"
| "stat_result _ rc stat data c = None"

fun string_result :: "callback \<Rightarrow> int \<Rightarrow> cstr \<Rightarrow> nat \<Rightarrow> client \<Rightarrow> client option" where
  "string_result (Fn f) rc s data c = Some (emit (String_call f rc s data) c)"
| "string_result op_result_string_fn rc s data c = op_result_string_completion rc s data c"
| "string_result _ rc s data c = None"

fun fn_result :: "callback \<Rightarrow> (nat \<Rightarrow> user_call) \<Rightarrow> client \<Rightarrow> client option" where
  \<comment> \<open>the completions that only users have\<close>
  "fn_result (Fn f) k c = Some (emit (k f) c)"
| "fn_result _ k c = None"

section \<open>Decoding a reply\<close>

definition reply :: "(iarchive \<times> 'r \<Rightarrow> 'r ia_result) \<Rightarrow> 'r \<Rightarrow> iarchive option \<Rightarrow> ('r \<times> iarchive) option" where
  \<comment> \<open>a structure that is not initialised: what a failed decoding leaves in it must not be read\<close>
  "reply g zero ia = do {
     a \<leftarrow> ia;
     (rc, a, res) \<leftarrow> g (a, zero);
     _ \<leftarrow> c_assert (rc = 0);
     Some (res, a)
   }"

definition simple_response ::
  "os \<Rightarrow> completion_type \<Rightarrow> bool \<Rightarrow> int \<Rightarrow> completion_list \<Rightarrow> iarchive option \<Rightarrow> client \<Rightarrow>
   (iarchive option \<times> client) option" where
  \<comment> \<open>the branches of the switch in \<^verbatim>\<open>deserialize_response\<close> other than \<^verbatim>\<open>COMPLETION_MULTI\<close>\<close>
  "simple_response E ct failed rc cptr ia c =
     (let H = os_host E; f = cl_fn cptr; data = cl_data cptr in
      case ct of
        COMPLETION_DATA \<Rightarrow>
          if failed then do { c \<leftarrow> fn_result f (\<lambda>f. Data_call f rc None 0 None data) c; Some (ia, c) }
          else do {
            (res, a) \<leftarrow> reply (deserialize_GetDataResponse H) GetDataResponse_zero ia;
            c \<leftarrow> fn_result f (\<lambda>f. Data_call f rc (cb_buff (GetDataResponse_data res)) (cb_len (GetDataResponse_data res))
                   (Some (GetDataResponse_stat res)) data) c;
            _ \<leftarrow> deallocate_GetDataResponse res;
            Some (Some a, c)
          }
      | COMPLETION_STAT \<Rightarrow>
          if failed then do { c \<leftarrow> stat_result f rc None data c; Some (ia, c) }
          else do {
            (res, a) \<leftarrow> reply (deserialize_SetDataResponse H) SetDataResponse_zero ia;
            c \<leftarrow> stat_result f rc (Some (SetDataResponse_stat res)) data c;
            _ \<leftarrow> deallocate_SetDataResponse res;
            Some (Some a, c)
          }
      | COMPLETION_STRINGLIST \<Rightarrow>
          if failed then do { c \<leftarrow> fn_result f (\<lambda>f. Strings_call f rc None data) c; Some (ia, c) }
          else do {
            (res, a) \<leftarrow> reply (deserialize_GetChildrenResponse H) GetChildrenResponse_zero ia;
            c \<leftarrow> fn_result f (\<lambda>f. Strings_call f rc (Some (GetChildrenResponse_children res)) data) c;
            _ \<leftarrow> deallocate_GetChildrenResponse res;
            Some (Some a, c)
          }
      | COMPLETION_STRINGLIST_STAT \<Rightarrow>
          if failed then do { c \<leftarrow> fn_result f (\<lambda>f. Strings_stat_call f rc None None data) c; Some (ia, c) }
          else do {
            (res, a) \<leftarrow> reply (deserialize_GetChildren2Response H) GetChildren2Response_zero ia;
            c \<leftarrow> fn_result f (\<lambda>f. Strings_stat_call f rc (Some (GetChildren2Response_children res))
                   (Some (GetChildren2Response_stat res)) data) c;
            _ \<leftarrow> deallocate_GetChildren2Response res;
            Some (Some a, c)
          }
      | COMPLETION_STRING \<Rightarrow>
          if failed then do { c \<leftarrow> string_result f rc None data c; Some (ia, c) }
          else do {
            a \<leftarrow> ia;
            (drc, a, res) \<leftarrow> deserialize_CreateResponse H (a, CreateResponse_zero);
            client_path \<leftarrow> sub_string H (zh_chroot c) (CreateResponse_path res);
            c \<leftarrow> string_result f rc client_path data c;
            _ \<leftarrow> deallocate_CreateResponse res;
            Some (Some a, c)
          }
      | COMPLETION_STRING_STAT \<Rightarrow>
          if failed then do { c \<leftarrow> fn_result f (\<lambda>f. String_stat_call f rc None None data) c; Some (ia, c) }
          else do {
            (res, a) \<leftarrow> reply (deserialize_Create2Response H) Create2Response_zero ia;
            client_path \<leftarrow> sub_string H (zh_chroot c) (Create2Response_path res);
            c \<leftarrow> fn_result f (\<lambda>f. String_stat_call f rc client_path (Some (Create2Response_stat res)) data) c;
            _ \<leftarrow> deallocate_Create2Response res;
            Some (Some a, c)
          }
      | COMPLETION_ACLLIST \<Rightarrow>
          if failed then do { c \<leftarrow> fn_result f (\<lambda>f. Acl_call f rc None None data) c; Some (ia, c) }
          else do {
            (res, a) \<leftarrow> reply (deserialize_GetACLResponse H) GetACLResponse_zero ia;
            c \<leftarrow> fn_result f (\<lambda>f. Acl_call f rc (Some (GetACLResponse_acl res)) (Some (GetACLResponse_stat res)) data) c;
            _ \<leftarrow> deallocate_GetACLResponse res;
            Some (Some a, c)
          }
      | COMPLETION_VOID \<Rightarrow> do { c \<leftarrow> void_result f rc data c; Some (ia, c) }
      | COMPLETION_MULTI \<Rightarrow> None
      | COMPLETION_WATCH \<Rightarrow> Some (ia, c))"

text \<open>
  \<^verbatim>\<open>deserialize_response\<close>, \<^verbatim>\<open>cleanup_failed_multi\<close> and the loop of \<^verbatim>\<open>deserialize_multi\<close> call each other on
  the entries of a multi request.
\<close>

lemma clist_size [termination_simp]: "size_list size (cl_clist e) < size e"
  by (cases e) simp

fun deserialize_response ::
    "os \<Rightarrow> completion_type \<Rightarrow> i32 \<Rightarrow> bool \<Rightarrow> int \<Rightarrow> completion_list \<Rightarrow> iarchive option \<Rightarrow> client \<Rightarrow>
     (iarchive option \<times> client) option"
  and cleanup_failed_multi :: "os \<Rightarrow> i32 \<Rightarrow> int \<Rightarrow> completion_list list \<Rightarrow> client \<Rightarrow> client option"
  and multi_loop ::
    "os \<Rightarrow> i32 \<Rightarrow> completion_list list \<Rightarrow> MultiHeader \<Rightarrow> int \<Rightarrow> iarchive \<Rightarrow> client \<Rightarrow> (int \<times> iarchive \<times> client) option"
where
  "deserialize_response E ct xid failed rc cptr ia c =
     (if ct = COMPLETION_MULTI then do {
        _ \<leftarrow> c_assert (cl_fn cptr \<noteq> No_fn);
        (rc, ia, c) \<leftarrow>
          (if failed then do {
             c \<leftarrow> cleanup_failed_multi E xid rc (cl_clist cptr) c;
             Some (rc, ia, c)
           }
           else do {
             a \<leftarrow> ia;
             (r, a, mhdr) \<leftarrow> deserialize_MultiHeader (os_host E) (a, MultiHeader_zero);
             (rc, a, c) \<leftarrow> multi_loop E xid (cl_clist cptr) mhdr 0 a c;
             Some (rc, Some a, c)
           });
        c \<leftarrow> void_result (cl_fn cptr) rc (cl_data cptr) c;
        Some (ia, c)
      }
      else simple_response E ct failed rc cptr ia c)"
| "cleanup_failed_multi E xid rc [] c = Some c"
| "cleanup_failed_multi E xid rc (entry # es) c = do {
     (ia, c) \<leftarrow> deserialize_response E (cl_type entry) xid True rc entry None c;
     cleanup_failed_multi E xid rc es c
   }"
| "multi_loop E xid [] mhdr rc ia c = (if MultiHeader_done mhdr \<noteq> 0 then Some (rc, ia, c) else None)"
| "multi_loop E xid (entry # es) mhdr rc ia c =
     (if MultiHeader_done mhdr \<noteq> 0 then Some (rc, ia, c)
      else do {
        (mhdr, rc, ia) \<leftarrow>
          (if MultiHeader_type mhdr = - 1 then do {
             (er, ia) \<leftarrow> reply (deserialize_ErrorResponse (os_host E)) ErrorResponse_zero (Some ia);
             let err = sint (ErrorResponse_err er);
             Some (mhdr\<lparr>MultiHeader_err := ErrorResponse_err er\<rparr>,
               if rc = 0 \<and> err \<noteq> 0 \<and> err \<noteq> ZRUNTIMEINCONSISTENCY then err else rc, ia)
           }
           else Some (mhdr, rc, ia));
        (ia, c) \<leftarrow> deserialize_response E (cl_type entry) xid (MultiHeader_type mhdr = - 1) (sint (MultiHeader_err mhdr))
          entry (Some ia) c;
        a \<leftarrow> ia;
        (r, a, mhdr) \<leftarrow> deserialize_MultiHeader (os_host E) (a, mhdr);
        multi_loop E xid es mhdr rc a c
      })"

definition deserialize_multi ::
  "os \<Rightarrow> i32 \<Rightarrow> completion_list \<Rightarrow> iarchive \<Rightarrow> client \<Rightarrow> (int \<times> iarchive \<times> client) option" where
  "deserialize_multi E xid cptr ia c = do {
     (r, ia, mhdr) \<leftarrow> deserialize_MultiHeader (os_host E) (ia, MultiHeader_zero);
     multi_loop E xid (cl_clist cptr) mhdr 0 ia c
   }"

section \<open>Processing the queue of completions\<close>

definition process_one :: "os \<Rightarrow> completion_list \<Rightarrow> client \<Rightarrow> client option" where
  \<comment> \<open>the body of the loop of \<^verbatim>\<open>process_completions\<close>\<close>
  "process_one E cptr c = do {
     bptr \<leftarrow> cl_buffer cptr;
     ia \<leftarrow> create_buffer_iarchive (os_host E) (bl_buffer bptr) (sint (bl_len bptr));
     (hdr, ia) \<leftarrow> reply (deserialize_ReplyHeader (os_host E)) ReplyHeader_zero (Some ia);
     if ReplyHeader_xid hdr = WATCHER_EVENT_XID then do {
       (evt, ia) \<leftarrow> reply (deserialize_WatcherEvent (os_host E)) WatcherEvent_zero (Some ia);
       (calls, _) \<leftarrow> deliverWatchers (os_host E) (zh_chroot c) (sint (WatcherEvent_type evt)) (sint (WatcherEvent_state evt))
         (WatcherEvent_path evt) (cl_watcher_result cptr);
       _ \<leftarrow> deallocate_WatcherEvent evt;
       Some (c\<lparr>w_calls := w_calls c @ map Watcher_fn_call calls\<rparr>)
     }
     else do {
       (ia, c) \<leftarrow> deserialize_response E (cl_type cptr) (ReplyHeader_xid hdr) (ReplyHeader_err hdr \<noteq> 0)
         (sint (ReplyHeader_err hdr)) cptr (Some ia) c;
       Some c
     }
   }"

fun process_loop :: "os \<Rightarrow> completion_list list \<Rightarrow> client \<Rightarrow> client option" where
  "process_loop E [] c = Some c"
| "process_loop E (cptr # cs) c = do {
     c \<leftarrow> process_one E cptr (c\<lparr>zh_completions_to_process := cs\<rparr>);
     process_loop E cs c
   }"

definition process_completions :: "os \<Rightarrow> client \<Rightarrow> client option" where
  \<comment> \<open>callbacks do not act on the handle here, so the loop ends with the entries that were queued\<close>
  "process_completions E c = process_loop E (zh_completions_to_process c) c"

definition queue_completion :: "completion_list \<Rightarrow> client \<Rightarrow> client" where
  \<comment> \<open>\<^verbatim>\<open>queue_completion(&zh->completions_to_process, cptr, 0)\<close>\<close>
  "queue_completion cptr c = c\<lparr>zh_completions_to_process := zh_completions_to_process c @ [cptr]\<rparr>"

definition run_async :: "os \<Rightarrow> client \<Rightarrow> client option" where
  \<comment> \<open>\<^verbatim>\<open>if (process_async(zh->outstanding_sync)) process_completions(zh)\<close>\<close>
  "run_async E c = (if process_async E (zh_outstanding_sync c) then process_completions E c else Some c)"

definition queue_session_event :: "os \<Rightarrow> int \<Rightarrow> client \<Rightarrow> (int \<times> client) option" where
  \<comment> \<open>the new entry and its buffer are used before they are compared with null\<close>
  "queue_session_event E state c =
     (case create_buffer_oarchive (os_host E) of
        None \<Rightarrow> Some (ZSYSTEMERROR, c)
      | Some oa \<Rightarrow> do {
          (rc, oa) \<leftarrow> serialize_ReplyHeader (os_host E)
            \<lparr>ReplyHeader_xid = WATCHER_EVENT_XID, ReplyHeader_zxid = 0, ReplyHeader_err = 0\<rparr> oa;
          (rc, oa) \<leftarrow> (if rc < 0 then Some (rc, oa) else serialize_WatcherEvent (os_host E)
            \<lparr>WatcherEvent_type = word_of_int SESSION_EVENT_DEF, WatcherEvent_state = word_of_int state,
             WatcherEvent_path = Some []\<rparr> oa);
          if rc < 0 then Some (ZSYSTEMERROR, c)
          else do {
            entry \<leftarrow> create_completion_entry E WATCHER_EVENT_XID COMPLETION_WATCH No_fn 0 None None;
            cptr \<leftarrow> entry;
            b \<leftarrow> allocate_buffer (os_host E) (get_buffer oa) (get_buffer_len oa);
            let cptr = set_cl_buffer (Some (b\<lparr>bl_curr_offset := get_buffer_len oa\<rparr>)) cptr;
            (tables, wl) \<leftarrow> collectWatchers (os_host E) (zh_watcher c, zh_context c) (zh_watchers c) SESSION_EVENT_DEF [];
            let c = queue_completion (set_cl_watcher_result (Some wl) cptr) (c\<lparr>zh_watchers := tables\<rparr>);
            c \<leftarrow> run_async E c;
            Some (ZOK, c)
          }
        })"

section \<open>Losing the connection\<close>

definition notify_sync :: "nat \<Rightarrow> int \<Rightarrow> client \<Rightarrow> client option" where
  \<comment> \<open>\<^verbatim>\<open>sc->rc = reason; notify_sync_completion(sc); zh->outstanding_sync--\<close>\<close>
  "notify_sync data reason c = do {
     sc \<leftarrow> w_syncs c data;
     Some (c\<lparr>w_syncs := (w_syncs c)(data \<mapsto> sc\<lparr>sc_rc := reason, sc_complete := True\<rparr>),
       zh_outstanding_sync := zh_outstanding_sync c - 1\<rparr>)
   }"

definition fake_response :: "os \<Rightarrow> int \<Rightarrow> completion_list \<Rightarrow> completion_list option" where
  \<comment> \<open>the reply that \<^verbatim>\<open>free_completions\<close> makes up: a header with the reason and nothing else\<close>
  "fake_response E reason cptr = do {
     (rc, oa) \<leftarrow> into_buffer (os_host E) (serialize_ReplyHeader (os_host E)
       \<lparr>ReplyHeader_xid = cl_xid cptr, ReplyHeader_zxid = - 1, ReplyHeader_err = word_of_int reason\<rparr>);
     _ \<leftarrow> c_assert (grants (os_host E) 24);
     Some (set_cl_buffer (Some \<lparr>bl_buffer = get_buffer oa, bl_len = word_of_int (get_buffer_len oa), bl_curr_offset = 0\<rparr>) cptr)
   }"

fun free_loop :: "os \<Rightarrow> bool \<Rightarrow> int \<Rightarrow> completion_list list \<Rightarrow> client \<Rightarrow> client option" where
  \<comment> \<open>a synchronous entry without threads aborts the process; without \<open>callCompletion\<close> the entry is dropped\<close>
  "free_loop E callCompletion reason [] c = Some c"
| "free_loop E callCompletion reason (cptr # cs) c = do {
     c \<leftarrow> (if cl_fn cptr = SYNCHRONOUS_MARKER then
             (if os_threaded E then notify_sync (cl_data cptr) reason c else None)
           else if callCompletion then do {
             cptr \<leftarrow> fake_response E reason cptr;
             Some (queue_completion cptr c)
           }
           else Some c);
     free_loop E callCompletion reason cs c
   }"

definition free_completions :: "os \<Rightarrow> bool \<Rightarrow> int \<Rightarrow> client \<Rightarrow> client option" where
  "free_completions E callCompletion reason c = do {
     let tmp_list = zh_sent_requests c;
     c \<leftarrow> free_loop E callCompletion reason tmp_list (c\<lparr>zh_sent_requests := []\<rparr>);
     (as, a_list) \<leftarrow> get_auth_completions (os_host E) (zh_auth_h c) [];
     Some (call_auth_completions reason a_list (c\<lparr>zh_auth_h := as\<rparr>))
   }"

definition cleanup_bufs :: "os \<Rightarrow> bool \<Rightarrow> int \<Rightarrow> client \<Rightarrow> client option" where
  "cleanup_bufs E callCompletion rc c = do {
     let c = c\<lparr>zh_to_send := free_buffers (zh_to_send c), zh_to_process := free_buffers (zh_to_process c)\<rparr>;
     c \<leftarrow> free_completions E callCompletion rc c;
     Some (case zh_input_buffer c of Input b \<Rightarrow> c\<lparr>zh_input_buffer := No_input\<rparr> | _ \<Rightarrow> c)
   }"

definition cleanup :: "os \<Rightarrow> int \<Rightarrow> client \<Rightarrow> client option" where
  "cleanup E rc c = do {
     c \<leftarrow> (if is_unrecoverable c \<noteq> 0 then do { (r, c) \<leftarrow> queue_session_event E (zh_state c) c; Some c }
           else if is_connected c then do { (r, c) \<leftarrow> queue_session_event E ZOO_CONNECTING_STATE c; Some c }
           else Some c);
     c \<leftarrow> cleanup_bufs E True rc c;
     let c = c\<lparr>zh_fd := - 1\<rparr>;
     let c = (if is_unrecoverable c = 0 then c\<lparr>zh_state := 0\<rparr> else c);
     run_async E c
   }"

definition handle_error :: "os \<Rightarrow> int \<Rightarrow> client \<Rightarrow> client option" where
  "handle_error E rc c = do {
     c \<leftarrow> cleanup E rc c;
     let c = c\<lparr>zh_delay := addrvec_atend (zh_addrs c)\<rparr>;
     (a, v) \<leftarrow> addrvec_next (zh_addrs c);
     Some (c\<lparr>zh_addr_cur := a, zh_addrs := v\<rparr>)
   }"

definition handle_socket_error_msg :: "os \<Rightarrow> int \<Rightarrow> client \<Rightarrow> (int \<times> client) option" where
  "handle_socket_error_msg E rc c = do { c \<leftarrow> handle_error E rc c; Some (rc, c) }"

definition auth_completion_func :: "os \<Rightarrow> int \<Rightarrow> client \<Rightarrow> client option" where
  \<comment> \<open>the log line reads the scheme of the first entry of a list that may be empty\<close>
  "auth_completion_func E rc c = (if w_null c then Some c else do {
     let c = (if rc \<noteq> 0 then c\<lparr>zh_state := ZOO_AUTH_FAILED_STATE\<rparr> else mark_active_auth c);
     (as, a_list) \<leftarrow> get_auth_completions (os_host E) (zh_auth_h c) [];
     let c = c\<lparr>zh_auth_h := as\<rparr>;
     _ \<leftarrow> c_assert (os_loglevel E < (if rc \<noteq> 0 then 1 else 3) \<or> zh_auth_h c \<noteq> []);
     Some (call_auth_completions rc a_list c)
   })"

section \<open>What a reply does\<close>

definition reply_buffer :: "bytes \<Rightarrow> buffer_list option \<Rightarrow> bool" where
  \<comment> \<open>a received packet that holds these bytes\<close>
  "reply_buffer bs b \<longleftrightarrow> (\<exists>p blk. b = Some p \<and> bl_buffer p = Some (bs @ blk) \<and> sint (bl_len p) = int (length bs))"

lemma reply_reads:
  assumes "ia_reads g bs v" and "ia_wf ia" and "ia_rest ia = bs @ r"
  shows "\<exists>ia'. reply g zero (Some ia) = Some (v, ia') \<and> ia_wf ia' \<and> ia_rest ia' = r"
  using ia_readsD [OF assms, of zero] by (auto simp: reply_def)

lemma open_reply:
  assumes "good_host (os_host E)" and "reply_buffer (enc_ReplyHeader h @ bs) b"
  shows "\<exists>p ia ia'. b = Some p \<and> create_buffer_iarchive (os_host E) (bl_buffer p) (sint (bl_len p)) = Some ia \<and>
    reply (deserialize_ReplyHeader (os_host E)) ReplyHeader_zero (Some ia) = Some (h, ia') \<and> ia_wf ia' \<and> ia_rest ia' = bs"
proof -
  obtain p blk where p: "b = Some p" "bl_buffer p = Some ((enc_ReplyHeader h @ bs) @ blk)"
    "sint (bl_len p) = int (length (enc_ReplyHeader h @ bs))"
    using assms(2) by (auto simp: reply_buffer_def)
  have "sint (bl_len p) \<le> INT_MAX" by (rule sint32_range(2))
  with create_buffer_iarchive_wf [OF assms(1), of "sint (bl_len p)" "(enc_ReplyHeader h @ bs) @ blk"] p
  obtain ia where ia: "create_buffer_iarchive (os_host E) (bl_buffer p) (sint (bl_len p)) = Some ia" "ia_wf ia"
    "ia_rest ia = enc_ReplyHeader h @ bs" by auto
  from reply_reads [OF ReplyHeader_reads [OF assms(1), of h] ia(2,3), of ReplyHeader_zero] ia(1) p(1) show ?thesis by blast
qed

text \<open>
  The call a completion makes for a reply, by the type of the request: with the error alone when the header has one.
\<close>

fun failure_call :: "completion_type \<Rightarrow> nat \<Rightarrow> int \<Rightarrow> nat \<Rightarrow> user_call" where
  "failure_call COMPLETION_DATA f rc d = Data_call f rc None 0 None d"
| "failure_call COMPLETION_STAT f rc d = Stat_call f rc None d"
| "failure_call COMPLETION_STRINGLIST f rc d = Strings_call f rc None d"
| "failure_call COMPLETION_STRINGLIST_STAT f rc d = Strings_stat_call f rc None None d"
| "failure_call COMPLETION_STRING f rc d = String_call f rc None d"
| "failure_call COMPLETION_STRING_STAT f rc d = String_stat_call f rc None None d"
| "failure_call COMPLETION_ACLLIST f rc d = Acl_call f rc None None d"
| "failure_call _ f rc d = Void_call f rc d"

definition user_entry :: "completion_list \<Rightarrow> bool" where
  \<comment> \<open>an entry of a single asynchronous request\<close>
  "user_entry e \<longleftrightarrow> (\<exists>f. cl_fn e = Fn f) \<and> cl_type e \<noteq> COMPLETION_WATCH \<and> cl_type e \<noteq> COMPLETION_MULTI \<and>
     cl_xid e \<noteq> WATCHER_EVENT_XID"

fun user_fn :: "callback \<Rightarrow> nat" where
  "user_fn (Fn f) = f"
| "user_fn _ = 0"

lemma set_cl_buffer_simps [simp]:
  "cl_fn (set_cl_buffer b e) = cl_fn e" "cl_type (set_cl_buffer b e) = cl_type e" "cl_data (set_cl_buffer b e) = cl_data e"
  "cl_xid (set_cl_buffer b e) = cl_xid e" "cl_buffer (set_cl_buffer b e) = b" "cl_clist (set_cl_buffer b e) = cl_clist e"
  "cl_watcher_result (set_cl_buffer b e) = cl_watcher_result e"
  by (cases e; simp)+

lemma failed_response:
  assumes "user_entry e"
  shows "deserialize_response E (cl_type e) xid True rc e ia c =
    Some (ia, emit (failure_call (cl_type e) (user_fn (cl_fn e)) rc (cl_data e)) c)"
  using assms by (cases "cl_type e") (auto simp: user_entry_def simple_response_def Let_def)

lemma process_failed:
  assumes "good_host (os_host E)" and "user_entry e" and "reply_buffer (enc_ReplyHeader h @ bs) (cl_buffer e)"
    and "ReplyHeader_xid h = cl_xid e" and "ReplyHeader_err h \<noteq> 0"
  shows "process_one E e c = Some (emit (failure_call (cl_type e) (user_fn (cl_fn e)) (sint (ReplyHeader_err h)) (cl_data e)) c)"
proof -
  obtain p ia ia' where "cl_buffer e = Some p"
    "create_buffer_iarchive (os_host E) (bl_buffer p) (sint (bl_len p)) = Some ia"
    "reply (deserialize_ReplyHeader (os_host E)) ReplyHeader_zero (Some ia) = Some (h, ia')"
    using open_reply [OF assms(1,3)] by blast
  with assms(2,4,5) failed_response [OF assms(2)] show ?thesis
    by (simp add: process_one_def user_entry_def del: deserialize_response.simps)
qed

lemma fake_response_ok:
  assumes "good_host (os_host E)" and "INT_MIN \<le> reason" and "reason \<le> INT_MAX"
  shows "\<exists>b. fake_response E reason e = Some (set_cl_buffer b e) \<and>
    reply_buffer (enc_ReplyHeader \<lparr>ReplyHeader_xid = cl_xid e, ReplyHeader_zxid = - 1, ReplyHeader_err = word_of_int reason\<rparr>) b"
proof -
  let ?h = "\<lparr>ReplyHeader_xid = cl_xid e, ReplyHeader_zxid = - 1, ReplyHeader_err = word_of_int reason\<rparr>"
  have len: "length (enc_ReplyHeader ?h) = 16" by (simp add: enc_ReplyHeader_def)
  obtain oa where oa: "into_buffer (os_host E) (serialize_ReplyHeader (os_host E) ?h) = Some (0, oa)" "oa_wf oa"
    "oa_bytes oa = enc_ReplyHeader ?h"
    using into_buffer_writes [OF assms(1) ReplyHeader_writes [OF assms(1), of ?h]] len by auto
  obtain blk where blk: "bs_buffer oa = Some blk" using oa_wf_buffer [OF oa(2)] by blast
  have off: "bs_off oa = 16" using length_oa_bytes [OF oa(2)] oa(3) len by simp
  have "take 16 blk = enc_ReplyHeader ?h" using oa(3) blk off by (simp add: oa_bytes_def)
  then have "blk = enc_ReplyHeader ?h @ drop 16 blk" by (metis append_take_drop_id)
  then show ?thesis
    using oa(1) blk off len assms(1)
    by (intro exI) (auto simp: fake_response_def get_buffer_def get_buffer_len_def good_hostD reply_buffer_def)
qed

lemma process_fake:
  assumes "good_host (os_host E)" and "user_entry e" and "INT_MIN \<le> reason" and "reason \<le> INT_MAX" and "reason \<noteq> 0"
  shows "\<exists>e'. fake_response E reason e = Some e' \<and> (\<forall>c. process_one E e' c =
    Some (emit (failure_call (cl_type e) (user_fn (cl_fn e)) reason (cl_data e)) c))"
proof -
  let ?h = "\<lparr>ReplyHeader_xid = cl_xid e, ReplyHeader_zxid = - 1, ReplyHeader_err = word_of_int reason\<rparr>"
  obtain b where b: "fake_response E reason e = Some (set_cl_buffer b e)" "reply_buffer (enc_ReplyHeader ?h @ []) b"
    using fake_response_ok [OF assms(1,3,4), of e] by auto
  have s: "sint (word_of_int reason :: i32) = reason" using assms(3,4) by (rule sint_word_of_int32)
  then have "(word_of_int reason :: i32) \<noteq> 0" using assms(5) by auto
  then show ?thesis
    using process_failed [OF assms(1), of "set_cl_buffer b e" ?h "[]"] b assms(2) s by (simp add: user_entry_def)
qed

section \<open>What a successful reply does\<close>

lemma dealloc_loop_ok:
  assumes "\<And>x. f x \<noteq> None" and "i + k \<le> length xs"
  shows "dealloc_loop f (Some xs) k i = Some ()"
  using assms(2)
proof (induction k arbitrary: i)
  case (Suc k)
  moreover obtain y where "f (xs ! i) = Some y" using assms(1) by blast
  ultimately show ?case by (simp add: vec_get_def)
qed simp

lemma deallocate_vector_ok:
  assumes "\<And>x. f x \<noteq> None" and "vec_ok P v"
  shows "\<exists>v'. deallocate_vector f v = Some v'"
proof -
  have v: "vec_data v = Some (vec_list v)" "length (vec_list v) = nat (sint (vec_count v))"
    using assms(2) by (auto simp: vec_ok_def vec_sendable_def)
  then show ?thesis using dealloc_loop_ok [OF assms(1), of 0 "nat (sint (vec_count v))" "vec_list v"]
    by (simp add: deallocate_vector_def)
qed

lemma deallocate_total: "deallocate_Stat s \<noteq> None" "deallocate_ACL a \<noteq> None"
  by (simp_all add: deallocate_Stat_def deallocate_ACL_def deallocate_Id_def)

lemma deallocate_vectors:
  "String_vector_ok v \<Longrightarrow> \<exists>v'. deallocate_String_vector v = Some v'"
  "ACL_vector_ok w \<Longrightarrow> \<exists>w'. deallocate_ACL_vector w = Some w'"
  unfolding deallocate_String_vector_def deallocate_ACL_vector_def
  by (rule deallocate_vector_ok, simp_all add: deallocate_total)+

inductive decodes :: "host \<Rightarrow> cstr \<Rightarrow> completion_type \<Rightarrow> bytes \<Rightarrow> (nat \<Rightarrow> nat \<Rightarrow> user_call) \<Rightarrow> bool"
  for H :: host and chroot :: cstr
where
  data: "GetDataResponse_ok r \<Longrightarrow> decodes H chroot COMPLETION_DATA (enc_GetDataResponse r)
    (\<lambda>f. Data_call f ZOK (cb_buff (GetDataResponse_data r)) (cb_len (GetDataResponse_data r)) (Some (GetDataResponse_stat r)))"
| stat: "SetDataResponse_ok r \<Longrightarrow> decodes H chroot COMPLETION_STAT (enc_SetDataResponse r)
    (\<lambda>f. Stat_call f ZOK (Some (SetDataResponse_stat r)))"
| strings: "GetChildrenResponse_ok r \<Longrightarrow> decodes H chroot COMPLETION_STRINGLIST (enc_GetChildrenResponse r)
    (\<lambda>f. Strings_call f ZOK (Some (GetChildrenResponse_children r)))"
| strings_stat: "GetChildren2Response_ok r \<Longrightarrow> decodes H chroot COMPLETION_STRINGLIST_STAT (enc_GetChildren2Response r)
    (\<lambda>f. Strings_stat_call f ZOK (Some (GetChildren2Response_children r)) (Some (GetChildren2Response_stat r)))"
| string: "CreateResponse_ok r \<Longrightarrow> sub_string H chroot (CreateResponse_path r) = Some p \<Longrightarrow>
    decodes H chroot COMPLETION_STRING (enc_CreateResponse r) (\<lambda>f. String_call f ZOK p)"
| string_stat: "Create2Response_ok r \<Longrightarrow> sub_string H chroot (Create2Response_path r) = Some p \<Longrightarrow>
    decodes H chroot COMPLETION_STRING_STAT (enc_Create2Response r)
      (\<lambda>f. String_stat_call f ZOK p (Some (Create2Response_stat r)))"
| acl: "GetACLResponse_ok r \<Longrightarrow> decodes H chroot COMPLETION_ACLLIST (enc_GetACLResponse r)
    (\<lambda>f. Acl_call f ZOK (Some (GetACLResponse_acl r)) (Some (GetACLResponse_stat r)))"
| void: "decodes H chroot COMPLETION_VOID [] (\<lambda>f. Void_call f ZOK)"



lemmas response_simps = simple_response_def deallocate_GetDataResponse_def deallocate_SetDataResponse_def
  deallocate_GetChildrenResponse_def deallocate_GetChildren2Response_def deallocate_CreateResponse_def
  deallocate_Create2Response_def deallocate_GetACLResponse_def deallocate_Stat_def Let_def

lemma good_response:
  assumes "good_host (os_host E)" and "decodes (os_host E) (zh_chroot c) (cl_type e) bs k" and "cl_fn e = Fn f"
    and "ia_wf ia" and "ia_rest ia = bs @ r"
  shows "\<exists>ia'. deserialize_response E (cl_type e) xid False ZOK e (Some ia) c = Some (Some ia', emit (k f (cl_data e)) c) \<and>
    ia_wf ia' \<and> ia_rest ia' = r"
  using assms(2)
proof cases
  case (data v)
  obtain ia' where "reply (deserialize_GetDataResponse (os_host E)) GetDataResponse_zero (Some ia) = Some (v, ia')" "ia_wf ia'" "ia_rest ia' = r"
    using reply_reads [OF GetDataResponse_reads [OF assms(1) data(4)] assms(4)] assms(5) data(2) by blast
  with data assms(3) show ?thesis by (auto simp: response_simps )
next
  case (stat v)
  obtain ia' where "reply (deserialize_SetDataResponse (os_host E)) SetDataResponse_zero (Some ia) = Some (v, ia')" "ia_wf ia'" "ia_rest ia' = r"
    using reply_reads [OF SetDataResponse_reads [OF assms(1) stat(4)] assms(4)] assms(5) stat(2) by blast
  with stat assms(3) show ?thesis by (auto simp: response_simps )
next
  case (strings v)
  obtain ia' where "reply (deserialize_GetChildrenResponse (os_host E)) GetChildrenResponse_zero (Some ia) = Some (v, ia')" "ia_wf ia'" "ia_rest ia' = r"
    using reply_reads [OF GetChildrenResponse_reads [OF assms(1) strings(4)] assms(4)] assms(5) strings(2) by blast
  with strings assms(3) deallocate_vectors(1) show ?thesis by (auto simp: response_simps GetChildrenResponse_ok_def dest: deallocate_vectors)
next
  case (strings_stat v)
  obtain ia' where "reply (deserialize_GetChildren2Response (os_host E)) GetChildren2Response_zero (Some ia) = Some (v, ia')" "ia_wf ia'" "ia_rest ia' = r"
    using reply_reads [OF GetChildren2Response_reads [OF assms(1) strings_stat(4)] assms(4)] assms(5) strings_stat(2) by blast
  with strings_stat assms(3) deallocate_vectors(1) show ?thesis by (auto simp: response_simps GetChildren2Response_ok_def dest: deallocate_vectors)
next
  case (string v p)
  obtain ia' where "deserialize_CreateResponse (os_host E) (ia, CreateResponse_zero) = Some (0, ia', v)" "ia_wf ia'" "ia_rest ia' = r"
    using ia_readsD [OF CreateResponse_reads [OF assms(1) string(4)] assms(4)] assms(5) string(2) by blast
  with string assms(3) show ?thesis by (auto simp: response_simps)
next
  case (string_stat v p)
  obtain ia' where "reply (deserialize_Create2Response (os_host E)) Create2Response_zero (Some ia) = Some (v, ia')" "ia_wf ia'" "ia_rest ia' = r"
    using reply_reads [OF Create2Response_reads [OF assms(1) string_stat(4)] assms(4)] assms(5) string_stat(2) by blast
  with string_stat assms(3) show ?thesis by (auto simp: response_simps )
next
  case (acl v)
  obtain ia' where "reply (deserialize_GetACLResponse (os_host E)) GetACLResponse_zero (Some ia) = Some (v, ia')" "ia_wf ia'" "ia_rest ia' = r"
    using reply_reads [OF GetACLResponse_reads [OF assms(1) acl(4)] assms(4)] assms(5) acl(2) by blast
  with acl assms(3) deallocate_vectors(2) show ?thesis by (auto simp: response_simps GetACLResponse_ok_def dest: deallocate_vectors)
next
  case void
  with assms(3-5) show ?thesis by (simp add: response_simps)
qed


lemma process_good:
  assumes "good_host (os_host E)" and "cl_fn e = Fn f" and "decodes (os_host E) (zh_chroot c) (cl_type e) bs k"
    and "reply_buffer (enc_ReplyHeader h @ bs @ r) (cl_buffer e)" and "ReplyHeader_xid h \<noteq> WATCHER_EVENT_XID" and "ReplyHeader_err h = 0"
  shows "process_one E e c = Some (emit (k f (cl_data e)) c)"
proof -
  obtain p ia ia' where 1: "cl_buffer e = Some p"
    "create_buffer_iarchive (os_host E) (bl_buffer p) (sint (bl_len p)) = Some ia"
    "reply (deserialize_ReplyHeader (os_host E)) ReplyHeader_zero (Some ia) = Some (h, ia')" "ia_wf ia'" "ia_rest ia' = bs @ r"
    using open_reply [OF assms(1,4)] by blast
  from good_response [OF assms(1,3,2) 1(4,5), of "ReplyHeader_xid h"] 1 assms(5,6) show ?thesis
    by (auto simp: process_one_def simp del: deserialize_response.simps)
qed

section \<open>Outstanding requests are answered\<close>

definition is_sync :: "completion_list \<Rightarrow> bool" where
  "is_sync e \<longleftrightarrow> cl_fn e = SYNCHRONOUS_MARKER"

definition sync_entry :: "os \<Rightarrow> client \<Rightarrow> completion_list \<Rightarrow> bool" where
  \<comment> \<open>a thread waits for this request with a structure of its own\<close>
  "sync_entry E c e \<longleftrightarrow> is_sync e \<and> os_threaded E \<and> w_syncs c (cl_data e) \<noteq> None"

definition failure_of :: "int \<Rightarrow> completion_list \<Rightarrow> user_call" where
  "failure_of reason e = failure_call (cl_type e) (user_fn (cl_fn e)) reason (cl_data e)"

definition release_syncs :: "int \<Rightarrow> completion_list list \<Rightarrow> (nat \<Rightarrow> sync_completion option) \<Rightarrow> nat \<Rightarrow> sync_completion option" where
  "release_syncs reason es w a =
     (if \<exists>e \<in> set es. is_sync e \<and> cl_data e = a then map_option (\<lambda>sc. sc\<lparr>sc_rc := reason, sc_complete := True\<rparr>) (w a) else w a)"

definition after_free :: "int \<Rightarrow> completion_list list \<Rightarrow> completion_list list \<Rightarrow> client \<Rightarrow> client" where
  "after_free reason es qs c = c\<lparr>zh_completions_to_process := zh_completions_to_process c @ qs,
     w_syncs := release_syncs reason es (w_syncs c),
     zh_outstanding_sync := zh_outstanding_sync c - int (length (filter is_sync es))\<rparr>"

lemma user_not_sync: "user_entry e \<Longrightarrow> \<not> is_sync e"
  by (auto simp: user_entry_def is_sync_def)

lemma release_syncs_Nil [simp]: "release_syncs reason [] w = w"
  by (simp add: release_syncs_def fun_eq_iff)

lemma release_syncs_user: "\<not> is_sync e \<Longrightarrow> release_syncs reason (e # es) w = release_syncs reason es w"
  by (auto simp: release_syncs_def fun_eq_iff)

lemma release_syncs_sync:
  assumes "is_sync e" and "w (cl_data e) = Some sc"
  shows "release_syncs reason (e # es) w = release_syncs reason es (w(cl_data e \<mapsto> sc\<lparr>sc_rc := reason, sc_complete := True\<rparr>))"
  using assms by (auto simp: release_syncs_def fun_eq_iff)

lemma process_loop_step:
  "process_one E e (c\<lparr>zh_completions_to_process := es\<rparr>) = Some c' \<Longrightarrow> process_loop E (e # es) c = process_loop E es c'"
  by simp

definition answers :: "os \<Rightarrow> completion_list list \<Rightarrow> user_call list \<Rightarrow> bool" where
  \<comment> \<open>processing these entries makes these calls and nothing else\<close>
  "answers E qs ks \<longleftrightarrow> (\<forall>c. process_loop E qs c =
     Some (c\<lparr>w_calls := w_calls c @ ks, zh_completions_to_process := (if qs = [] then zh_completions_to_process c else [])\<rparr>))"

lemma answers_Nil: "answers E [] []"
  by (simp add: answers_def)

lemma answers_Cons:
  assumes "\<And>c. process_one E e c = Some (emit k c)" and "answers E es ks"
  shows "answers E (e # es) (k # ks)"
  using assms by (simp add: answers_def emit_def)



lemma free_entry_user:
  assumes "good_host (os_host E)" and "user_entry e" and "INT_MIN \<le> reason" and "reason \<le> INT_MAX" and "reason \<noteq> 0"
  shows "\<exists>q. (\<forall>c. free_loop E True reason (e # es) c = free_loop E True reason es (queue_completion q c)) \<and>
    (\<forall>c. process_one E q c = Some (emit (failure_of reason e) c))"
proof -
  obtain q where "fake_response E reason e = Some q" "\<forall>c. process_one E q c = Some (emit (failure_of reason e) c)"
    using process_fake [OF assms] by (auto simp: failure_of_def)
  then show ?thesis using user_not_sync [OF assms(2)] by (auto simp: is_sync_def)
qed

lemma free_loop_ok:
  assumes "good_host (os_host E)" and "\<forall>e \<in> set es. user_entry e \<or> sync_entry E c e"
    and "INT_MIN \<le> reason" and "reason \<le> INT_MAX" and "reason \<noteq> 0"
  shows "\<exists>qs. free_loop E True reason es c = Some (after_free reason es qs c) \<and>
    answers E qs (map (failure_of reason) (filter (\<lambda>e. \<not> is_sync e) es)) \<and> (qs = [] \<longleftrightarrow> list_all is_sync es)"
  using assms(2)
proof (induction es arbitrary: c)
  case Nil
  then show ?case by (intro exI [of _ "[]"]) (simp add: after_free_def answers_Nil)
next
  case (Cons e es)
  show ?case
  proof (cases "user_entry e")
    case True
    obtain q where q: "\<forall>c. free_loop E True reason (e # es) c = free_loop E True reason es (queue_completion q c)"
      "\<forall>c. process_one E q c = Some (emit (failure_of reason e) c)" using free_entry_user [OF assms(1) True assms(3-5)] by blast
    have "\<forall>e \<in> set es. user_entry e \<or> sync_entry E (queue_completion q c) e"
      using Cons.prems by (auto simp: sync_entry_def queue_completion_def)
    from Cons.IH [OF this] obtain qs where qs: "free_loop E True reason es (queue_completion q c) =
      Some (after_free reason es qs (queue_completion q c))"
      "answers E qs (map (failure_of reason) (filter (\<lambda>e. \<not> is_sync e) es))" by blast
    show ?thesis
      using q(1) qs(1) user_not_sync [OF True] answers_Cons [OF q(2) [rule_format] qs(2)]
      by (intro exI [of _ "q # qs"]) (simp add: after_free_def queue_completion_def release_syncs_user)
  next
    case False
    then obtain sc where s: "is_sync e" "os_threaded E" "w_syncs c (cl_data e) = Some sc"
      using Cons.prems by (auto simp: sync_entry_def)
    let ?c = "c\<lparr>w_syncs := (w_syncs c)(cl_data e \<mapsto> sc\<lparr>sc_rc := reason, sc_complete := True\<rparr>),
      zh_outstanding_sync := zh_outstanding_sync c - 1\<rparr>"
    have step: "free_loop E True reason (e # es) c = free_loop E True reason es ?c"
      using s by (simp add: is_sync_def notify_sync_def)
    have "\<forall>e \<in> set es. user_entry e \<or> sync_entry E ?c e" using Cons.prems by (auto simp: sync_entry_def)
    from Cons.IH [OF this] obtain qs where "free_loop E True reason es ?c = Some (after_free reason es qs ?c)"
      "answers E qs (map (failure_of reason) (filter (\<lambda>e. \<not> is_sync e) es))" "qs = [] \<longleftrightarrow> list_all is_sync es" by blast
    then show ?thesis
      using step s by (intro exI [of _ qs]) (simp add: after_free_def release_syncs_sync)
  qed
qed


section \<open>Events\<close>

definition watch_calls :: "int \<Rightarrow> int \<Rightarrow> cstr \<Rightarrow> watcher_object_list \<Rightarrow> user_call list" where
  "watch_calls type state path wl = map (\<lambda>wo. Watcher_fn_call \<lparr>wc_watcher = fst wo, wc_type = type, wc_state = state,
     wc_path = path, wc_context = snd wo\<rparr>) wl"

definition client_path :: "host \<Rightarrow> cstr \<Rightarrow> int \<Rightarrow> cstr \<Rightarrow> cstr option" where
  \<comment> \<open>the path that a watcher is told\<close>
  "client_path H chroot type path = (if type \<noteq> SESSION_EVENT_DEF then sub_string H chroot path else Some path)"

lemma process_watch_event:
  assumes "good_host (os_host E)" and "reply_buffer (enc_ReplyHeader h @ enc_WatcherEvent ev) (cl_buffer e)"
    and "ReplyHeader_xid h = WATCHER_EVENT_XID" and "WatcherEvent_ok ev" and "cl_watcher_result e = Some wl"
    and "client_path (os_host E) (zh_chroot c) (sint (WatcherEvent_type ev)) (WatcherEvent_path ev) = Some path"
  shows "process_one E e c = Some (c\<lparr>w_calls := w_calls c @
    watch_calls (sint (WatcherEvent_type ev)) (sint (WatcherEvent_state ev)) path wl\<rparr>)"
proof -
  obtain p ia ia' where 1: "cl_buffer e = Some p"
    "create_buffer_iarchive (os_host E) (bl_buffer p) (sint (bl_len p)) = Some ia"
    "reply (deserialize_ReplyHeader (os_host E)) ReplyHeader_zero (Some ia) = Some (h, ia')" "ia_wf ia'"
    "ia_rest ia' = enc_WatcherEvent ev @ []"
    using open_reply [OF assms(1,2)] by auto
  obtain ia'' where "reply (deserialize_WatcherEvent (os_host E)) WatcherEvent_zero (Some ia') = Some (ev, ia'')"
    using reply_reads [OF WatcherEvent_reads [OF assms(1,4)] 1(4,5)] by blast
  with 1 assms(3,5,6) show ?thesis
    by (simp add: process_one_def deliverWatchers_def do_foreach_watcher_def deallocate_WatcherEvent_def watch_calls_def
        client_path_def comp_def)
qed

lemma queue_session_event_ok:
  assumes "good_host (os_host E)" and "tables_wf (zh_watchers c)" and "INT_MIN \<le> state" and "state \<le> INT_MAX"
  shows "\<exists>e wl. distinct wl \<and> set wl = insert (zh_watcher c, zh_context c) (\<Union>t. all_watchers (get_table (zh_watchers c) t)) \<and>
    queue_session_event E state c = map_option (\<lambda>c'. (ZOK, c')) (run_async E (queue_completion e c)) \<and>
    (\<forall>d. process_one E e d = Some (d\<lparr>w_calls := w_calls d @ watch_calls SESSION_EVENT_DEF state (Some []) wl\<rparr>))"
proof -
  let ?H = "os_host E"
  let ?h = "\<lparr>ReplyHeader_xid = WATCHER_EVENT_XID, ReplyHeader_zxid = 0, ReplyHeader_err = 0\<rparr>"
  let ?ev = "\<lparr>WatcherEvent_type = word_of_int SESSION_EVENT_DEF, WatcherEvent_state = word_of_int state,
    WatcherEvent_path = Some []\<rparr>"
  obtain oa0 where 0: "create_buffer_oarchive ?H = Some oa0" "oa_wf oa0" "oa_bytes oa0 = []" "bs_off oa0 = 0"
    using create_buffer_oarchive_wf [OF assms(1)] by blast
  have l1: "length (enc_ReplyHeader ?h) = 16" by (simp add: enc_ReplyHeader_def)
  obtain oa1 where 1: "serialize_ReplyHeader ?H ?h oa0 = Some (0, oa1)" "oa_wf oa1" "oa_bytes oa1 = enc_ReplyHeader ?h"
    using oa_writesD [OF ReplyHeader_writes [OF assms(1)] 0(2), of ?h] 0(3,4) l1 by auto
  have l2: "length (enc_WatcherEvent ?ev) = 12" by (simp add: enc_WatcherEvent_def enc_string_def)
  have o1: "bs_off oa1 = 16" using length_oa_bytes [OF 1(2)] 1(3) l1 by simp
  obtain oa where 2: "serialize_WatcherEvent ?H ?ev oa1 = Some (0, oa)" "oa_wf oa"
    "oa_bytes oa = enc_ReplyHeader ?h @ enc_WatcherEvent ?ev"
    using oa_writesD [OF WatcherEvent_writes [OF assms(1)] 1(2), of ?ev] o1 1(3) l2 by auto
  have o2: "bs_off oa = 28" using length_oa_bytes [OF 2(2)] 2(3) l1 l2 by simp
  obtain wl where wl: "collectWatchers ?H (zh_watcher c, zh_context c) (zh_watchers c) SESSION_EVENT_DEF [] = Some (zh_watchers c, wl)"
    "distinct wl" "set wl = insert (zh_watcher c, zh_context c) (\<Union>t. all_watchers (get_table (zh_watchers c) t))"
    using collectWatchers_session [OF assms(2), of ?H] assms(1) by (force simp: good_hostD)
  obtain blk where blk: "bs_buffer oa = Some blk" using oa_wf_buffer [OF 2(2)] by blast
  let ?b = "\<lparr>bl_buffer = Some blk, bl_len = 28, bl_curr_offset = 28\<rparr>"
  let ?e = "Completion WATCHER_EVENT_XID COMPLETION_WATCH No_fn (Some wl) [] 0 (Some ?b) None None"
  have "take 28 blk = enc_ReplyHeader ?h @ enc_WatcherEvent ?ev" using 2(3) blk o2 by (simp add: oa_bytes_def)
  then have "blk = (enc_ReplyHeader ?h @ enc_WatcherEvent ?ev) @ drop 28 blk" by (metis append_take_drop_id)
  then have rb: "reply_buffer (enc_ReplyHeader ?h @ enc_WatcherEvent ?ev) (cl_buffer ?e)"
    using l1 l2 by (auto simp: reply_buffer_def)
  have s: "sint (word_of_int state :: i32) = state" using assms(3,4) by (rule sint_word_of_int32)
  have "process_one E ?e d = Some (d\<lparr>w_calls := w_calls d @ watch_calls SESSION_EVENT_DEF state (Some []) wl\<rparr>)" for d
    using process_watch_event [OF assms(1) rb, of wl d "Some []"] s by (simp add: WatcherEvent_ok_def client_path_def cstr_sendable_def)
  moreover have "queue_session_event E state c = map_option (\<lambda>c'. (ZOK, c')) (run_async E (queue_completion ?e c))"
    using 0(1) 1(1) 2(1) wl(1) assms(1) blk o2
    by (simp add: queue_session_event_def create_completion_entry_def do_create_completion_entry_def good_hostD
        allocate_buffer_def get_buffer_def get_buffer_len_def queue_completion_def map_conv_bind_option comp_def)
  ultimately show ?thesis using wl(2,3) by blast
qed


section \<open>Losing the connection\<close>

definition auth_calls :: "int \<Rightarrow> auth_info list \<Rightarrow> user_call list" where
  \<comment> \<open>the calls of the authentication completions that were not called yet\<close>
  "auth_calls rc as = map (\<lambda>a. Void_call (au_completion a) rc (au_data a)) (filter (\<lambda>a. au_completion a \<noteq> 0) as)"

lemma get_auth_completions_ok:
  "good_host H \<Longrightarrow> get_auth_completions H as l = Some (map (\<lambda>a. a\<lparr>au_completion := 0\<rparr>) as,
    l @ map (\<lambda>a. (au_completion a, au_data a)) (filter (\<lambda>a. au_completion a \<noteq> 0) as))"
  by (induction as arbitrary: l) (auto simp: add_auth_completion_def good_hostD)

lemma free_buffers_empty [simp]: "free_buffers bs = []"
  by (induction bs) simp_all

definition failures_of :: "int \<Rightarrow> client \<Rightarrow> user_call list" where
  \<comment> \<open>the answers to the outstanding asynchronous requests, in the order of the requests\<close>
  "failures_of reason c = map (failure_of reason) (filter (\<lambda>e. \<not> is_sync e) (zh_sent_requests c))"

definition drop_all :: "int \<Rightarrow> completion_list list \<Rightarrow> client \<Rightarrow> client" where
  \<comment> \<open>no packets, no outstanding requests: their answers are queued, and threads that wait are released\<close>
  "drop_all reason qs c = c\<lparr>zh_to_send := [], zh_to_process := [], zh_sent_requests := [],
     zh_completions_to_process := zh_completions_to_process c @ qs,
     w_syncs := release_syncs reason (zh_sent_requests c) (w_syncs c),
     zh_outstanding_sync := zh_outstanding_sync c - int (length (filter is_sync (zh_sent_requests c))),
     zh_auth_h := map (\<lambda>a. a\<lparr>au_completion := 0\<rparr>) (zh_auth_h c),
     w_calls := w_calls c @ auth_calls reason (zh_auth_h c),
     zh_input_buffer := (case zh_input_buffer c of Input b \<Rightarrow> No_input | i \<Rightarrow> i)\<rparr>"

definition answerable :: "os \<Rightarrow> client \<Rightarrow> bool" where
  \<comment> \<open>every outstanding request is a single asynchronous request or one a thread waits for\<close>
  "answerable E c \<longleftrightarrow> (\<forall>e \<in> set (zh_sent_requests c). user_entry e \<or> sync_entry E c e)"

lemma cleanup_bufs_ok:
  assumes "good_host (os_host E)" and "answerable E c" and "INT_MIN \<le> reason" and "reason \<le> INT_MAX" and "reason \<noteq> 0"
  shows "\<exists>qs. cleanup_bufs E True reason c = Some (drop_all reason qs c) \<and> answers E qs (failures_of reason c)"
proof -
  let ?c = "c\<lparr>zh_to_send := [], zh_to_process := [], zh_sent_requests := []\<rparr>"
  have "\<forall>e \<in> set (zh_sent_requests c). user_entry e \<or> sync_entry E ?c e"
    using assms(2) by (simp add: sync_entry_def answerable_def)
  from free_loop_ok [OF assms(1) this assms(3-5)] obtain qs where
    "free_loop E True reason (zh_sent_requests c) ?c = Some (after_free reason (zh_sent_requests c) qs ?c)"
    "answers E qs (failures_of reason c)" unfolding failures_of_def by blast
  then show ?thesis
    using assms(1)
    by (intro exI [of _ qs]) (simp add: cleanup_bufs_def free_completions_def get_auth_completions_ok after_free_def Let_def
        call_auth_completions_def auth_calls_def comp_def drop_all_def split: input_buffer.splits)
qed

lemma run_async_answers:
  assumes "answers E (zh_completions_to_process c) ks" and "\<not> os_threaded E" and "zh_outstanding_sync c = 0"
  shows "run_async E c = Some (c\<lparr>w_calls := w_calls c @ ks, zh_completions_to_process := []\<rparr>)"
  using assms by (auto simp: run_async_def process_async_def process_completions_def answers_def)

lemma run_async_threaded: "os_threaded E \<Longrightarrow> run_async E c = Some c"
  by (simp add: run_async_def process_async_def)


definition disconnected :: "client \<Rightarrow> client" where
  "disconnected c = (if is_unrecoverable c = 0 then c\<lparr>zh_fd := - 1, zh_state := 0\<rparr> else c\<lparr>zh_fd := - 1\<rparr>)"

definition event_state :: "client \<Rightarrow> int" where
  \<comment> \<open>the state that the session event of a lost connection reports\<close>
  "event_state c = (if zh_state c < 0 then zh_state c else ZOO_CONNECTING_STATE)"

definition reports :: "client \<Rightarrow> bool" where
  "reports c \<longleftrightarrow> zh_state c < 0 \<or> is_connected c"

definition loss_calls :: "client \<Rightarrow> watcher_object_list \<Rightarrow> user_call list" where
  "loss_calls c wl = (if reports c then watch_calls SESSION_EVENT_DEF (event_state c) (Some []) wl else [])"

lemma answers_watch:
  assumes "\<And>d. process_one E e d = Some (d\<lparr>w_calls := w_calls d @ ks\<rparr>)" and "answers E qs ls"
  shows "answers E (e # qs) (ks @ ls)"
  using assms by (simp add: answers_def)

lemma cleanup_single:
  assumes "good_host (os_host E)" and "answerable E c" and "INT_MIN \<le> rc" and "rc \<le> INT_MAX" and "rc \<noteq> 0"
    and "tables_wf (zh_watchers c)" and "INT_MIN \<le> zh_state c" and "zh_completions_to_process c = []"
    and "\<not> os_threaded E" and "zh_outstanding_sync c = 0"
  shows "\<exists>wl. distinct wl \<and> set wl = insert (zh_watcher c, zh_context c) (\<Union>t. all_watchers (get_table (zh_watchers c) t)) \<and>
    cleanup E rc c = Some (disconnected ((drop_all rc [] c)\<lparr>w_calls := w_calls c @
      loss_calls c wl @
      auth_calls rc (zh_auth_h c) @ failures_of rc c\<rparr>))"
proof -
  have "INT_MIN \<le> event_state c" "event_state c \<le> INT_MAX" using assms(7) by (auto simp: event_state_def)
  from queue_session_event_ok [OF assms(1,6) this] obtain e wl where
    wl: "distinct wl" "set wl = insert (zh_watcher c, zh_context c) (\<Union>t. all_watchers (get_table (zh_watchers c) t))"
    and q: "queue_session_event E (event_state c) c = map_option (\<lambda>c'. (ZOK, c')) (run_async E (queue_completion e c))"
    and e: "\<And>d. process_one E e d = Some (d\<lparr>w_calls := w_calls d @ watch_calls SESSION_EVENT_DEF (event_state c) (Some []) wl\<rparr>)"
    by blast
  let ?ks = "watch_calls SESSION_EVENT_DEF (event_state c) (Some []) wl"
  let ?c = "c\<lparr>w_calls := w_calls c @ loss_calls c wl\<rparr>"
  have none: "filter is_sync (zh_sent_requests c) = []"
    using assms(2,9) by (auto simp: answerable_def sync_entry_def filter_empty_conv user_not_sync)
  have "run_async E (queue_completion e c) = Some (c\<lparr>w_calls := w_calls c @ ?ks\<rparr>)"
    using run_async_answers [of E "queue_completion e c" ?ks] answers_watch [OF e answers_Nil] assms(8-10)
    by (simp add: queue_completion_def)
  then have 1: "(if is_unrecoverable c \<noteq> 0 then do { (r, c) \<leftarrow> queue_session_event E (zh_state c) c; Some c }
      else if is_connected c then do { (r, c) \<leftarrow> queue_session_event E ZOO_CONNECTING_STATE c; Some c } else Some c) = Some ?c"
    using q by (simp add: reports_def event_state_def is_unrecoverable_def loss_calls_def split: if_splits)
  have "answerable E ?c" using assms(2) by (simp add: answerable_def sync_entry_def)
  from cleanup_bufs_ok [OF assms(1) this assms(3-5)] obtain qs where
    2: "cleanup_bufs E True rc ?c = Some (drop_all rc qs ?c)" "answers E qs (failures_of rc c)" by (auto simp: failures_of_def)
  have "run_async E (disconnected (drop_all rc qs ?c)) = Some (disconnected ((drop_all rc [] c)\<lparr>w_calls := w_calls c @
      loss_calls c wl @ auth_calls rc (zh_auth_h c) @ failures_of rc c\<rparr>))"
    using run_async_answers [of E "disconnected (drop_all rc qs ?c)" "failures_of rc c"] 2(2) assms(8-10) none
    by (simp add: drop_all_def disconnected_def is_unrecoverable_def)
  then have "cleanup E rc c = Some (disconnected ((drop_all rc [] c)\<lparr>w_calls := w_calls c @
      loss_calls c wl @ auth_calls rc (zh_auth_h c) @ failures_of rc c\<rparr>))"
    unfolding cleanup_def 1 using 2(1) by (simp add: disconnected_def is_unrecoverable_def Let_def)
  with wl show ?thesis by blast
qed


lemma cleanup_threaded:
  assumes "good_host (os_host E)" and "answerable E c" and "INT_MIN \<le> rc" and "rc \<le> INT_MAX" and "rc \<noteq> 0"
    and "tables_wf (zh_watchers c)" and "INT_MIN \<le> zh_state c" and "os_threaded E"
  shows "\<exists>wl qs. distinct wl \<and> set wl = insert (zh_watcher c, zh_context c) (\<Union>t. all_watchers (get_table (zh_watchers c) t)) \<and>
    cleanup E rc c = Some (disconnected (drop_all rc qs c)) \<and>
    answers E qs (loss_calls c wl @ failures_of rc c)"
proof -
  have "INT_MIN \<le> event_state c" "event_state c \<le> INT_MAX" using assms(7) by (auto simp: event_state_def)
  from queue_session_event_ok [OF assms(1,6) this] obtain e wl where
    wl: "distinct wl" "set wl = insert (zh_watcher c, zh_context c) (\<Union>t. all_watchers (get_table (zh_watchers c) t))"
    and q: "queue_session_event E (event_state c) c = map_option (\<lambda>c'. (ZOK, c')) (run_async E (queue_completion e c))"
    and e: "\<And>d. process_one E e d = Some (d\<lparr>w_calls := w_calls d @ watch_calls SESSION_EVENT_DEF (event_state c) (Some []) wl\<rparr>)"
    by blast
  let ?ks = "watch_calls SESSION_EVENT_DEF (event_state c) (Some []) wl"
  let ?c = "if reports c then queue_completion e c else c"
  have 1: "(if is_unrecoverable c \<noteq> 0 then do { (r, c) \<leftarrow> queue_session_event E (zh_state c) c; Some c }
      else if is_connected c then do { (r, c) \<leftarrow> queue_session_event E ZOO_CONNECTING_STATE c; Some c } else Some c) = Some ?c"
    using q run_async_threaded [OF assms(8)] by (auto simp: reports_def event_state_def is_unrecoverable_def)
  have "answerable E ?c" using assms(2) by (simp add: answerable_def sync_entry_def queue_completion_def)
  from cleanup_bufs_ok [OF assms(1) this assms(3-5)] obtain qs where
    2: "cleanup_bufs E True rc ?c = Some (drop_all rc qs ?c)" "answers E qs (failures_of rc c)"
    by (auto simp: failures_of_def queue_completion_def split: if_splits)
  let ?qs = "if reports c then e # qs else qs"
  have "drop_all rc qs ?c = drop_all rc ?qs c" by (simp add: drop_all_def queue_completion_def)
  then have "cleanup E rc c = Some (disconnected (drop_all rc ?qs c))"
    unfolding cleanup_def 1 using 2(1) run_async_threaded [OF assms(8)] by (simp add: disconnected_def is_unrecoverable_def Let_def)
  moreover have "answers E ?qs (loss_calls c wl @ failures_of rc c)"
    using answers_watch [OF e 2(2)] 2(2) by (simp add: loss_calls_def)
  ultimately show ?thesis using wl by blast
qed

section \<open>Properties\<close>

text \<open>
  (C3) When the connection is lost, every outstanding asynchronous request is answered exactly once, in the order in which the
  requests were made and with the reason as its code; a connected or unrecoverable handle first reports the new state to
  its own watcher and to every registered watcher, once each, and authentication completions that have not been called are
  called. The single threaded library makes the calls at once; the threaded one queues the answers for its completion
  thread, and every thread that waits for a synchronous request is released with the reason. Afterwards
  nothing is outstanding or queued for the wire.
\<close>

theorem connection_loss_answers_all:
  assumes "good_host (os_host E)" and "answerable E c" and "INT_MIN \<le> rc" and "rc \<le> INT_MAX" and "rc \<noteq> 0"
    and "tables_wf (zh_watchers c)" and "INT_MIN \<le> zh_state c"
    and "\<not> os_threaded E \<Longrightarrow> zh_completions_to_process c = [] \<and> zh_outstanding_sync c = 0"
  shows "\<exists>c' wl. cleanup E rc c = Some c' \<and> distinct wl \<and>
    set wl = insert (zh_watcher c, zh_context c) (\<Union>t p. set (watchers_at (get_table (zh_watchers c) t) p)) \<and>
    zh_sent_requests c' = [] \<and> zh_to_send c' = [] \<and> zh_to_process c' = [] \<and> zh_fd c' = - 1 \<and>
    (if os_threaded E
     then w_calls c' = w_calls c @ auth_calls rc (zh_auth_h c) \<and>
       w_syncs c' = release_syncs rc (zh_sent_requests c) (w_syncs c) \<and>
       (\<exists>qs. zh_completions_to_process c' = zh_completions_to_process c @ qs \<and> answers E qs (loss_calls c wl @ failures_of rc c))
     else w_calls c' = w_calls c @ loss_calls c wl @ auth_calls rc (zh_auth_h c) @ failures_of rc c \<and>
       zh_completions_to_process c' = [])"
proof (cases "os_threaded E")
  case True
  obtain wl qs where *: "distinct wl" "set wl = insert (zh_watcher c, zh_context c) (\<Union>t. all_watchers (get_table (zh_watchers c) t))"
    "cleanup E rc c = Some (disconnected (drop_all rc qs c))" "answers E qs (loss_calls c wl @ failures_of rc c)"
    using cleanup_threaded [OF assms(1-7) True] by blast
  from True *(4) show ?thesis
    by (intro exI [of _ "disconnected (drop_all rc qs c)"] exI [of _ wl])
      (simp add: *(1-3) all_watchers_def disconnected_def drop_all_def del: append_eq_append_conv)
next
  case False
  let ?c = "\<lambda>wl. disconnected ((drop_all rc [] c)\<lparr>w_calls := w_calls c @ loss_calls c wl @
    auth_calls rc (zh_auth_h c) @ failures_of rc c\<rparr>)"
  obtain wl where *: "distinct wl" "set wl = insert (zh_watcher c, zh_context c) (\<Union>t. all_watchers (get_table (zh_watchers c) t))"
    "cleanup E rc c = Some (?c wl)"
    using cleanup_single [OF assms(1-7)] assms(8) False by blast
  from False assms(8) show ?thesis
    by (intro exI [of _ "?c wl"] exI [of _ wl]) (simp add: * all_watchers_def disconnected_def drop_all_def)
qed


definition sample_entry :: completion_list where
  "sample_entry = Completion 5 COMPLETION_STAT (Fn 3) None [] 11 None None None"

lemma works_host_test: "good_host (os_host test_os)" "\<not> os_threaded test_os"
  by (auto simp: test_os_def good_host_def test_host_def)

theorem connection_loss_answers_all_witness:
  "\<exists>c'. cleanup test_os ZCONNECTIONLOSS (test_client\<lparr>zh_sent_requests := [sample_entry, sample_entry]\<rparr>) = Some c' \<and>
     zh_sent_requests c' = [] \<and>
     (\<exists>ks. w_calls c' = ks @ [Stat_call 3 ZCONNECTIONLOSS None 11, Stat_call 3 ZCONNECTIONLOSS None 11])"
proof -
  let ?c = "test_client\<lparr>zh_sent_requests := [sample_entry, sample_entry]\<rparr>"
  have "answerable test_os ?c" by (simp add: answerable_def user_entry_def sample_entry_def)
  moreover have "failures_of ZCONNECTIONLOSS ?c = [Stat_call 3 ZCONNECTIONLOSS None 11, Stat_call 3 ZCONNECTIONLOSS None 11]"
    by (simp add: failures_of_def failure_of_def sample_entry_def is_sync_def)
  ultimately show ?thesis
    using connection_loss_answers_all [of test_os ?c ZCONNECTIONLOSS] works_host_test no_watchers_wf by auto
qed


text \<open>
  (C4) A reply reaches the user as the server sent it: for every type of request, when the header of the reply has no error and the
  record of that type follows, the completion is called once with \<open>ZOK\<close> and exactly that record (data, statistics, children, access control
  list, created path less the chroot). When the header has an error the completion is called once with that error and with no result, and
  what follows the header plays no part: a reply that ends with its header, as servers send it and as a lost connection fakes it, is enough.
\<close>

theorem replies_delivered:
  assumes "good_host (os_host E)" and "user_entry e" and "ReplyHeader_xid h = cl_xid e"
    and "reply_buffer (enc_ReplyHeader h @ body) (cl_buffer e)"
    and "ReplyHeader_err h = 0 \<Longrightarrow> \<exists>bs rest. body = bs @ rest \<and> decodes (os_host E) (zh_chroot c) (cl_type e) bs k"
  shows "process_one E e c = Some (emit (if ReplyHeader_err h = 0 then k (user_fn (cl_fn e)) (cl_data e)
    else failure_call (cl_type e) (user_fn (cl_fn e)) (sint (ReplyHeader_err h)) (cl_data e)) c)"
proof (cases "ReplyHeader_err h = 0")
  case True
  obtain bs rest where b: "body = bs @ rest" "decodes (os_host E) (zh_chroot c) (cl_type e) bs k" using assms(5) [OF True] by blast
  obtain f where f: "cl_fn e = Fn f" "cl_xid e \<noteq> WATCHER_EVENT_XID" using assms(2) by (auto simp: user_entry_def)
  from process_good [OF assms(1) f(1) b(2) assms(4) [unfolded b(1)]] f assms(3) True show ?thesis by simp
next
  case False
  from process_failed [OF assms(1,2,4,3) False] False show ?thesis by simp
qed

definition sample_reply :: "bytes \<Rightarrow> buffer_list" where
  "sample_reply bs = \<lparr>bl_buffer = Some bs, bl_len = of_nat (length bs), bl_curr_offset = int (length bs)\<rparr>"

lemma sample_reply_buffer: "length bs < 2 ^ 20 \<Longrightarrow> reply_buffer bs (Some (sample_reply bs))"
  using sint_of_nat_small [of "length bs"] by (simp add: reply_buffer_def sample_reply_def)

theorem replies_delivered_witness:
  "process_one test_os (set_cl_buffer (Some (sample_reply (enc_ReplyHeader \<lparr>ReplyHeader_xid = 5, ReplyHeader_zxid = 9, ReplyHeader_err = 0\<rparr> @
     enc_SetDataResponse SetDataResponse_zero))) sample_entry) test_client =
   Some (emit (Stat_call 3 ZOK (Some Stat_zero) 11) test_client) \<and>
   process_one test_os (set_cl_buffer (Some (sample_reply (enc_ReplyHeader \<lparr>ReplyHeader_xid = 5, ReplyHeader_zxid = 9, ReplyHeader_err = - 101\<rparr>)))
     sample_entry) test_client = Some (emit (Stat_call 3 (- 101) None 11) test_client)"
proof -
  let ?h = "\<lambda>err. \<lparr>ReplyHeader_xid = 5, ReplyHeader_zxid = 9, ReplyHeader_err = err\<rparr>"
  let ?bs = "enc_SetDataResponse SetDataResponse_zero"
  let ?e = "\<lambda>bs. set_cl_buffer (Some (sample_reply bs)) sample_entry"
  have "length (enc_ReplyHeader (?h 0) @ ?bs) = 84" "length (enc_ReplyHeader (?h (- 101))) = 16"
    by (simp_all add: enc_ReplyHeader_def enc_SetDataResponse_def enc_Stat_def)
  then have b: "reply_buffer (enc_ReplyHeader (?h 0) @ ?bs) (cl_buffer (?e (enc_ReplyHeader (?h 0) @ ?bs)))"
    "reply_buffer (enc_ReplyHeader (?h (- 101)) @ []) (cl_buffer (?e (enc_ReplyHeader (?h (- 101)))))"
    by (simp_all add: sample_reply_buffer)
  have u: "user_entry (?e bs)" for bs by (simp add: user_entry_def sample_entry_def)
  have d: "decodes (os_host test_os) (zh_chroot test_client) (cl_type (?e bs)) ?bs
      (\<lambda>f. Stat_call f ZOK (Some (SetDataResponse_stat SetDataResponse_zero)))" for bs
    unfolding set_cl_buffer_simps sample_entry_def completion_list.sel
    by (rule decodes.stat) (simp add: SetDataResponse_ok_def SetDataResponse_zero_def Stat_ok_def)
  have "\<exists>bs' rest. ?bs = bs' @ rest \<and> decodes (os_host test_os) (zh_chroot test_client) (cl_type (?e bs)) bs'
      (\<lambda>f. Stat_call f ZOK (Some (SetDataResponse_stat SetDataResponse_zero)))" for bs
    using d [of bs] by (intro exI [of _ ?bs] exI [of _ "[]"]) simp
  from replies_delivered [OF works_host_test(1) u _ b(1) this] replies_delivered [OF works_host_test(1) u _ b(2), of test_client]
  show ?thesis by (simp add: sample_entry_def SetDataResponse_zero_def)
qed

end
