(* ===== verification/Overlong.thy ===== *)
theory Overlong
  imports Jute
begin

text \<open>
  Archives that are opened longer than their block. \<^verbatim>\<open>zookeeper_process\<close> opens a received packet with
  \<^verbatim>\<open>curr_offset\<close> for its length, which counts the four bytes of the length prefix as well, so that the bounds checks of the
  deserialisers let reads go up to four bytes past the block. The lemmas show that a well formed record is still decoded
  exactly: a deserialiser only depends on the bytes up to the offset at which it ends.
\<close>

section \<open>Deserialisers only depend on what they pass over\<close>

definition ia_local :: "(iarchive \<times> 'a \<Rightarrow> 'a ia_result) \<Rightarrow> bool" where
  "ia_local g \<longleftrightarrow> (\<forall>ia old rc ia' v b j. bs_buffer ia = Some (b @ j) \<and> 0 \<le> bs_off ia \<and> g (ia, old) = Some (rc, ia', v) \<longrightarrow>
     bs_buffer ia' = Some (b @ j) \<and> bs_len ia' = bs_len ia \<and> bs_off ia \<le> bs_off ia' \<and>
     (bs_off ia' \<le> int (length b) \<longrightarrow> g (ia\<lparr>bs_buffer := Some b\<rparr>, old) = Some (rc, ia'\<lparr>bs_buffer := Some b\<rparr>, v)))"

named_theorems ia_locals

lemma ia_localI:
  assumes "\<And>ia old rc ia' v b j. bs_buffer ia = Some (b @ j) \<Longrightarrow> 0 \<le> bs_off ia \<Longrightarrow> g (ia, old) = Some (rc, ia', v) \<Longrightarrow>
     bs_buffer ia' = Some (b @ j) \<and> bs_len ia' = bs_len ia \<and> bs_off ia \<le> bs_off ia' \<and>
     (bs_off ia' \<le> int (length b) \<longrightarrow> g (ia\<lparr>bs_buffer := Some b\<rparr>, old) = Some (rc, ia'\<lparr>bs_buffer := Some b\<rparr>, v))"
  shows "ia_local g"
  unfolding ia_local_def by (intro allI impI, elim conjE) (rule assms)

lemma ia_localD:
  assumes "ia_local g" and "bs_buffer ia = Some (b @ j)" and "0 \<le> bs_off ia" and "g (ia, old) = Some (rc, ia', v)"
  shows "bs_buffer ia' = Some (b @ j)" and "bs_len ia' = bs_len ia" and "bs_off ia \<le> bs_off ia'"
    and "bs_off ia' \<le> int (length b) \<Longrightarrow> g (ia\<lparr>bs_buffer := Some b\<rparr>, old) = Some (rc, ia'\<lparr>bs_buffer := Some b\<rparr>, v)"
  using assms(1) [unfolded ia_local_def, rule_format, OF conjI, OF assms(2) conjI, OF assms(3,4)] by blast+

lemma mem_read_prefix:
  "mem_read (Some (b @ j)) off n = Some bs \<Longrightarrow> off + n \<le> int (length b) \<Longrightarrow> mem_read (Some b) off n = Some bs"
  by (auto simp: mem_read_def nat_add_distrib split: if_splits)

lemma ia_deserialize_int_local [ia_locals]: "ia_local (ia_deserialize_int E)"
  by (rule ia_localI) (auto simp: ia_deserialize_int_def bind_eq_Some_conv split: if_splits dest: mem_read_prefix)

lemma ia_deserialize_long_local [ia_locals]: "ia_local (ia_deserialize_long E)"
  by (rule ia_localI) (auto simp: ia_deserialize_long_def bind_eq_Some_conv split: if_splits dest: mem_read_prefix)

lemma ia_deserialize_bool_local [ia_locals]: "ia_local ia_deserialize_bool"
  by (rule ia_localI) (auto simp: ia_deserialize_bool_def bind_eq_Some_conv split: if_splits dest: mem_read_prefix)

lemma ia_deserialize_string_local [ia_locals]: "ia_local (ia_deserialize_string E)"
proof (rule ia_localI)
  fix ia ia' :: iarchive and old v rc b j
  assume buf: "bs_buffer ia = Some (b @ j)" and off: "0 \<le> bs_off ia" and s: "ia_deserialize_string E (ia, old) = Some (rc, ia', v)"
  from s obtain r1 ia1 len where 1: "ia_deserialize_int E (ia, 0) = Some (r1, ia1, len)"
    by (auto simp: ia_deserialize_string_def bind_eq_Some_conv)
  note l = ia_localD [OF ia_deserialize_int_local buf off 1]
  have pass: "ia' = ia1 \<or> ia' = ia1\<lparr>bs_off := bs_off ia1 + sint len\<rparr> \<and> 0 \<le> sint len"
    using s 1 by (auto simp: ia_deserialize_string_def bind_eq_Some_conv split: if_splits dest: mem_read_eq_SomeD)
  then have keep: "bs_buffer ia' = Some (b @ j) \<and> bs_len ia' = bs_len ia \<and> bs_off ia \<le> bs_off ia'" using l(1-3) by auto
  have "ia_deserialize_string E (ia\<lparr>bs_buffer := Some b\<rparr>, old) = Some (rc, ia'\<lparr>bs_buffer := Some b\<rparr>, v)"
    if le: "bs_off ia' \<le> int (length b)"
  proof -
    have e: "ia_deserialize_int E (ia\<lparr>bs_buffer := Some b\<rparr>, 0) = Some (r1, ia1\<lparr>bs_buffer := Some b\<rparr>, len)"
      using l(4) pass le by auto
    from s le show ?thesis
      by (auto simp: ia_deserialize_string_def 1 e l(1) split: if_splits bind_splits dest: mem_read_prefix)
  qed
  with keep show "bs_buffer ia' = Some (b @ j) \<and> bs_len ia' = bs_len ia \<and> bs_off ia \<le> bs_off ia' \<and>
     (bs_off ia' \<le> int (length b) \<longrightarrow> ia_deserialize_string E (ia\<lparr>bs_buffer := Some b\<rparr>, old) = Some (rc, ia'\<lparr>bs_buffer := Some b\<rparr>, v))"
    by blast
qed

lemma ia_deserialize_buffer_local [ia_locals]: "ia_local (ia_deserialize_buffer E)"
proof (rule ia_localI)
  fix ia ia' :: iarchive and old v rc b j
  assume buf: "bs_buffer ia = Some (b @ j)" and off: "0 \<le> bs_off ia" and s: "ia_deserialize_buffer E (ia, old) = Some (rc, ia', v)"
  from s obtain r1 ia1 len where 1: "ia_deserialize_int E (ia, cb_len old) = Some (r1, ia1, len)"
    by (auto simp: ia_deserialize_buffer_def bind_eq_Some_conv)
  note l = ia_localD [OF ia_deserialize_int_local buf off 1]
  have pass: "ia' = ia1 \<or> ia' = ia1\<lparr>bs_off := bs_off ia1 + sint len\<rparr> \<and> 0 \<le> sint len"
    using s 1 by (auto simp: ia_deserialize_buffer_def bind_eq_Some_conv split: if_splits dest: mem_read_eq_SomeD)
  then have keep: "bs_buffer ia' = Some (b @ j) \<and> bs_len ia' = bs_len ia \<and> bs_off ia \<le> bs_off ia'" using l(1-3) by auto
  have "ia_deserialize_buffer E (ia\<lparr>bs_buffer := Some b\<rparr>, old) = Some (rc, ia'\<lparr>bs_buffer := Some b\<rparr>, v)"
    if le: "bs_off ia' \<le> int (length b)"
  proof -
    have e: "ia_deserialize_int E (ia\<lparr>bs_buffer := Some b\<rparr>, cb_len old) = Some (r1, ia1\<lparr>bs_buffer := Some b\<rparr>, len)"
      using l(4) pass le by auto
    from s le show ?thesis
      by (auto simp: ia_deserialize_buffer_def 1 e l(1) split: if_splits bind_splits dest: mem_read_prefix)
  qed
  with keep show "bs_buffer ia' = Some (b @ j) \<and> bs_len ia' = bs_len ia \<and> bs_off ia \<le> bs_off ia' \<and>
     (bs_off ia' \<le> int (length b) \<longrightarrow> ia_deserialize_buffer E (ia\<lparr>bs_buffer := Some b\<rparr>, old) = Some (rc, ia'\<lparr>bs_buffer := Some b\<rparr>, v))"
    by blast
qed



lemma ia_field_local [ia_locals]:
  assumes "ia_local g"
  shows "ia_local (ia_field get upd g)"
proof (rule ia_localI)
  fix ia ia' :: iarchive and old v rc b j
  assume buf: "bs_buffer ia = Some (b @ j)" and off: "0 \<le> bs_off ia" and s: "ia_field get upd g (ia, old) = Some (rc, ia', v)"
  from s obtain x where 1: "g (ia, get old) = Some (rc, ia', x)" "v = upd (\<lambda>_. x) old"
    by (auto simp: ia_field_def bind_eq_Some_conv)
  from ia_localD [OF assms buf off 1(1)] 1(2) show "bs_buffer ia' = Some (b @ j) \<and> bs_len ia' = bs_len ia \<and> bs_off ia \<le> bs_off ia' \<and>
     (bs_off ia' \<le> int (length b) \<longrightarrow> ia_field get upd g (ia\<lparr>bs_buffer := Some b\<rparr>, old) = Some (rc, ia'\<lparr>bs_buffer := Some b\<rparr>, v))"
    by (simp add: ia_field_def)
qed

lemma ia_seq_local:
  assumes "list_all ia_local gs" and "bs_buffer ia = Some (b @ j)" and "0 \<le> bs_off ia" and "ia_seq gs (rc, ia, old) = Some (rc', ia', v)"
  shows "bs_buffer ia' = Some (b @ j) \<and> bs_len ia' = bs_len ia \<and> bs_off ia \<le> bs_off ia' \<and>
     (bs_off ia' \<le> int (length b) \<longrightarrow> ia_seq gs (rc, ia\<lparr>bs_buffer := Some b\<rparr>, old) = Some (rc', ia'\<lparr>bs_buffer := Some b\<rparr>, v))"
  using assms
proof (induction gs arbitrary: rc ia old)
  case (Cons g gs)
  show ?case
  proof (cases "rc = 0")
    case True
    from Cons.prems(4) True obtain r1 ia1 v1 where 1: "g (ia, old) = Some (r1, ia1, v1)" "ia_seq gs (r1, ia1, v1) = Some (rc', ia', v)"
      by (auto simp: bind_eq_Some_conv)
    have "ia_local g" using Cons.prems(1) by simp
    note l = ia_localD [OF this Cons.prems(2,3) 1(1)]
    have "0 \<le> bs_off ia1" using l(3) Cons.prems(3) by simp
    with Cons.IH [OF _ l(1) this 1(2)] Cons.prems(1) l(2-4) True show ?thesis by simp
  next
    case False
    with Cons.IH [OF _ Cons.prems(2,3), of rc old] Cons.prems(1,4) show ?thesis by simp
  qed
qed simp

lemma ia_record_local:
  assumes "list_all ia_local gs"
  shows "ia_local (ia_record gs)"
proof (rule ia_localI)
  fix ia ia' :: iarchive and old v rc b j
  assume buf: "bs_buffer ia = Some (b @ j)" and off: "0 \<le> bs_off ia" and s: "ia_record gs (ia, old) = Some (rc, ia', v)"
  have "ia_local ia_end_record" by (rule ia_localI) (simp add: ia_end_record_def)
  then have 1: "list_all ia_local (gs @ [ia_end_record])" using assms by simp
  have 2: "ia_seq (gs @ [ia_end_record]) (0, ia, old) = Some (rc, ia', v)"
    using s by (simp add: ia_record_def ia_start_record_def)
  show "bs_buffer ia' = Some (b @ j) \<and> bs_len ia' = bs_len ia \<and> bs_off ia \<le> bs_off ia' \<and>
     (bs_off ia' \<le> int (length b) \<longrightarrow> ia_record gs (ia\<lparr>bs_buffer := Some b\<rparr>, old) = Some (rc, ia'\<lparr>bs_buffer := Some b\<rparr>, v))"
    using ia_seq_local [OF 1 buf off 2] by (simp add: ia_record_def ia_start_record_def)
qed

lemma vec_deser_loop_local:
  assumes "ia_local g" and "bs_buffer ia = Some (b @ j)" and "0 \<le> bs_off ia" and "vec_deser_loop g k i (rc, ia, d) = Some (rc', ia', v)"
  shows "bs_buffer ia' = Some (b @ j) \<and> bs_len ia' = bs_len ia \<and> bs_off ia \<le> bs_off ia' \<and>
     (bs_off ia' \<le> int (length b) \<longrightarrow> vec_deser_loop g k i (rc, ia\<lparr>bs_buffer := Some b\<rparr>, d) = Some (rc', ia'\<lparr>bs_buffer := Some b\<rparr>, v))"
  using assms
proof (induction k arbitrary: rc ia d i)
  case (Suc k)
  show ?case
  proof (cases "rc = 0")
    case True
    from Suc.prems(4) True obtain x r1 ia1 y d1 where 1: "vec_get d i = Some x" "g (ia, x) = Some (r1, ia1, y)" "vec_set d i y = Some d1"
      "vec_deser_loop g k (Suc i) (r1, ia1, d1) = Some (rc', ia', v)"
      by (auto simp: bind_eq_Some_conv)
    note l = ia_localD [OF Suc.prems(1-3) 1(2)]
    have "0 \<le> bs_off ia1" using l(3) Suc.prems(3) by simp
    with Suc.IH [OF Suc.prems(1) l(1) this 1(4)] l(2-4) True 1(1,3) show ?thesis by simp
  next
    case False
    have "vec_deser_loop g k (Suc i) (rc, ia, d) = Some (rc', ia', v)" using Suc.prems(4) False by simp
    from Suc.IH [OF Suc.prems(1-3) this] False show ?thesis by simp
  qed
qed simp

lemma deserialize_vector_local:
  assumes "ia_local (g E)"
  shows "ia_local (deserialize_vector sz zero g E)"
proof (rule ia_localI)
  fix ia ia' :: iarchive and old v rc b j
  assume buf: "bs_buffer ia = Some (b @ j)" and off: "0 \<le> bs_off ia" and s: "deserialize_vector sz zero g E (ia, old) = Some (rc, ia', v)"
  from s obtain r1 ia1 c r2 d where 1: "ia_deserialize_int E (ia, vec_count old) = Some (r1, ia1, c)"
    "vec_deser_loop (g E) (nat (sint c)) 0 (r1, ia1, calloc_vec E sz zero c) = Some (r2, ia', d)"
    "(rc, v) = (0, \<lparr>vec_count = c, vec_data = d\<rparr>)"
    by (auto simp: deserialize_vector_def ia_start_vector_def ia_end_vector_def bind_eq_Some_conv)
  note l = ia_localD [OF ia_deserialize_int_local buf off 1(1)]
  have "0 \<le> bs_off ia1" using l(3) off by simp
  with vec_deser_loop_local [OF assms l(1) this 1(2)] l(2-4) 1(3)
  show "bs_buffer ia' = Some (b @ j) \<and> bs_len ia' = bs_len ia \<and> bs_off ia \<le> bs_off ia' \<and>
     (bs_off ia' \<le> int (length b) \<longrightarrow> deserialize_vector sz zero g E (ia\<lparr>bs_buffer := Some b\<rparr>, old) = Some (rc, ia'\<lparr>bs_buffer := Some b\<rparr>, v))"
    by (simp add: deserialize_vector_def ia_start_vector_def ia_end_vector_def)
qed


lemma ReplyHeader_local [ia_locals]: "ia_local (deserialize_ReplyHeader E)"
  unfolding deserialize_ReplyHeader_def by (rule ia_record_local) (simp add: ia_locals)

lemma WatcherEvent_local [ia_locals]: "ia_local (deserialize_WatcherEvent E)"
  unfolding deserialize_WatcherEvent_def by (rule ia_record_local) (simp add: ia_locals)

lemma Stat_local [ia_locals]: "ia_local (deserialize_Stat E)"
  unfolding deserialize_Stat_def by (rule ia_record_local) (simp add: ia_locals)

lemma Id_local [ia_locals]: "ia_local (deserialize_Id E)"
  unfolding deserialize_Id_def by (rule ia_record_local) (simp add: ia_locals)

lemma ACL_local [ia_locals]: "ia_local (deserialize_ACL E)"
  unfolding deserialize_ACL_def by (rule ia_record_local) (simp add: ia_locals)

lemma String_vector_local [ia_locals]: "ia_local (deserialize_String_vector E)"
  unfolding deserialize_String_vector_def by (rule deserialize_vector_local) (rule ia_locals)

lemma ACL_vector_local [ia_locals]: "ia_local (deserialize_ACL_vector E)"
  unfolding deserialize_ACL_vector_def by (rule deserialize_vector_local) (rule ia_locals)

lemma responses_local [ia_locals]:
  "ia_local (deserialize_GetDataResponse E)" "ia_local (deserialize_SetDataResponse E)"
  "ia_local (deserialize_GetChildrenResponse E)" "ia_local (deserialize_GetChildren2Response E)"
  "ia_local (deserialize_CreateResponse E)" "ia_local (deserialize_Create2Response E)"
  "ia_local (deserialize_GetACLResponse E)" "ia_local (deserialize_MultiHeader E)" "ia_local (deserialize_ErrorResponse E)"
  unfolding deserialize_GetDataResponse_def deserialize_SetDataResponse_def deserialize_GetChildrenResponse_def
    deserialize_GetChildren2Response_def deserialize_CreateResponse_def deserialize_Create2Response_def
    deserialize_GetACLResponse_def deserialize_MultiHeader_def deserialize_ErrorResponse_def
  by (rule ia_record_local, simp add: ia_locals)+

section \<open>Reading from an overlong archive\<close>

definition over :: "iarchive \<Rightarrow> bool" where
  \<comment> \<open>the archive counts four bytes that the block does not have\<close>
  "over ia \<longleftrightarrow> (\<exists>b. bs_buffer ia = Some b \<and> bs_len ia = int (length b) + 4 \<and> 0 \<le> bs_off ia \<and> bs_off ia \<le> int (length b) \<and>
     int (length b) + 4 \<le> INT_MAX)"

definition over_rest :: "iarchive \<Rightarrow> bytes" where
  "over_rest ia = (case bs_buffer ia of None \<Rightarrow> [] | Some b \<Rightarrow> drop (nat (bs_off ia)) b)"

lemma over_reads:
  assumes "ia_local g" and "ia_reads g bs v" and "over ia" and "over_rest ia = bs @ r"
  shows "\<exists>ia'. g (ia, old) = Some (0, ia', v) \<and> over ia' \<and> over_rest ia' = r"
proof -
  obtain b where b: "bs_buffer ia = Some b" "bs_len ia = int (length b) + 4" "0 \<le> bs_off ia" "bs_off ia \<le> int (length b)"
    "int (length b) + 4 \<le> INT_MAX" using assms(3) by (auto simp: over_def)
  let ?z = "replicate 4 NUL" let ?ia = "ia\<lparr>bs_buffer := Some (b @ replicate 4 NUL)\<rparr>"
  have wf: "ia_wf ?ia" using b by (simp add: ia_wf_def)
  have d: "drop (nat (bs_off ia)) b = bs @ r" using assms(4) b(1) by (simp add: over_rest_def)
  have "length b - nat (bs_off ia) = length (bs @ r)" using d by (metis length_drop)
  then have n: "nat (int (length b) + 4 - bs_off ia) = length (bs @ r @ ?z)" using b(3,4) by auto
  have "drop (nat (bs_off ia)) (b @ ?z) = bs @ r @ ?z" using d b(4) by simp
  then have "ia_rest ?ia = bs @ r @ ?z" using b(2) n by (simp add: ia_rest_def)
  from ia_readsD [OF assms(2) wf this, of old] obtain ia' where
    1: "g (?ia, old) = Some (0, ia', v)" "ia_wf ia'" "ia_rest ia' = r @ ?z" by blast
  note l = ia_localD [OF assms(1) _ _ 1(1), of b ?z]
  have buf: "bs_buffer ia' = Some (b @ ?z)" "bs_len ia' = int (length b) + 4" "bs_off ia \<le> bs_off ia'"
    using l(1-3) b by simp_all
  have "int (length (ia_rest ia')) = bs_len ia' - bs_off ia'"
    using 1(2) buf by (auto simp: ia_rest_def ia_wf_def)
  then have off: "bs_off ia' = int (length b) - int (length r)" using 1(3) buf(2) by simp
  have "g (?ia\<lparr>bs_buffer := Some b\<rparr>, old) = Some (0, ia'\<lparr>bs_buffer := Some b\<rparr>, v)" using l(4) b(3) off by simp
  moreover have "?ia\<lparr>bs_buffer := Some b\<rparr> = ia" using b(1) by simp
  moreover have "over (ia'\<lparr>bs_buffer := Some b\<rparr>)" using buf off b by (simp add: over_def)
  moreover have "over_rest (ia'\<lparr>bs_buffer := Some b\<rparr>) = r"
  proof -
    have "ia_rest ia' = drop (nat (bs_off ia')) (b @ ?z)" using buf off b by (simp add: ia_rest_def)
    then have "drop (nat (bs_off ia')) b @ ?z = r @ ?z" using 1(3) off by simp
    then show ?thesis by (simp add: over_rest_def)
  qed
  ultimately show ?thesis by (metis (full_types))
qed

end
