(* ===== verification/Events.thy ===== *)
theory Events
  imports Response Overlong
begin

text \<open>
  One turn of the event loop: the handshake, the events of the socket, the replies that have arrived and the end of a handle. Replies
  are matched with the outstanding requests in order; a reply whose number is not that of the oldest request ends the
  connection. Definitions follow \<^verbatim>\<open>prime_connection\<close>, \<^verbatim>\<open>check_events\<close>, \<^verbatim>\<open>process_sync_completion\<close>,
  \<^verbatim>\<open>zookeeper_process\<close> and \<^verbatim>\<open>zookeeper_close\<close>; a use of memory the code does not own is \<open>None\<close>.
\<close>

unbundle bit_operations_syntax

abbreviation (input) ZOO_CLOSE_OP :: i32 where "ZOO_CLOSE_OP \<equiv> - 11"
abbreviation (input) HANDSHAKE_REQ_SIZE :: nat where "HANDSHAKE_REQ_SIZE \<equiv> 45"

section \<open>The end of a handle\<close>

definition api_prolog :: "client \<Rightarrow> client" where
  "api_prolog c = snd (inc_ref_counter c 1)"

definition destroy :: "os \<Rightarrow> client \<Rightarrow> client option" where
  "destroy E c = (if w_null c then Some c else do {
     c \<leftarrow> cleanup_bufs E True ZCLOSING c;
     c \<leftarrow> run_async E c;
     let c = c\<lparr>zh_hostname := None\<rparr>;
     let c = (if zh_fd c \<noteq> - 1 then c\<lparr>zh_fd := - 1, zh_addr_cur := ss_zero, zh_state := 0\<rparr> else c);
     addrs \<leftarrow> addrvec_free (Some (zh_addrs c));
     let c = c\<lparr>zh_addrs := addrs, zh_chroot := None, zh_auth_h := []\<rparr>;
     _ \<leftarrow> destroy_zk_hashtable (os_host E) (active_node_watchers (zh_watchers c));
     _ \<leftarrow> destroy_zk_hashtable (os_host E) (active_exist_watchers (zh_watchers c));
     _ \<leftarrow> destroy_zk_hashtable (os_host E) (active_child_watchers (zh_watchers c));
     old \<leftarrow> addrvec_free (Some (zh_addrs_old c));
     new \<leftarrow> addrvec_free (Some (zh_addrs_new c));
     Some (c\<lparr>zh_addrs_old := old, zh_addrs_new := new\<rparr>)
   })"

definition wait_for_session_to_be_closed :: "os \<Rightarrow> client \<Rightarrow> int \<times> client" where
  "wait_for_session_to_be_closed E c = (if w_null c then (ZBADARGUMENTS, c) else (ZOK, c\<lparr>w_ticks := w_ticks c + 1\<rparr>))"

definition send_close :: "os \<Rightarrow> client \<Rightarrow> (int \<times> client) option" where
  \<comment> \<open>the request that ends the session, flushed for at most three seconds\<close>
  "send_close E c = do {
     (xid, c) \<leftarrow> get_xid E c;
     (rc, oa) \<leftarrow> into_buffer (os_host E)
       (serialize_RequestHeader (os_host E) \<lparr>RequestHeader_xid = xid, RequestHeader_type = ZOO_CLOSE_OP\<rparr>);
     let (rc, q) = (if rc < 0 then (rc, zh_to_send c)
                    else queue_buffer_bytes (os_host E) (zh_to_send c) (get_buffer oa) (get_buffer_len oa));
     let c = c\<lparr>zh_to_send := q\<rparr>;
     if rc < 0 then Some (ZMARSHALLINGERROR, c)
     else do {
       (rc, c) \<leftarrow> adaptor_send_queue E 3000 c;
       Some (if rc < 0 then (rc, c) else wait_for_session_to_be_closed E c)
     }
   }"

definition close_final :: "os \<Rightarrow> client \<Rightarrow> (int \<times> client) option" where
  \<comment> \<open>\<^verbatim>\<open>zookeeper_close\<close> when nobody else uses the handle\<close>
  "close_final E c = do {
     (rc, c) \<leftarrow> (if is_connected c then send_close E c else Some (ZOK, c));
     c \<leftarrow> destroy E c;
     Some (rc, c\<lparr>w_freed := True\<rparr>)
   }"

definition api_epilog :: "os \<Rightarrow> int \<Rightarrow> client \<Rightarrow> (int \<times> client) option" where
  \<comment> \<open>\<^verbatim>\<open>zookeeper_close\<close> is called with no user left, which is its final part\<close>
  "api_epilog E rc c =
     (let (n, c) = inc_ref_counter c (- 1) in
      if n = 0 \<and> zh_close_requested c then do {
        (r, c) \<leftarrow> close_final E (snd (inc_ref_counter c 1));
        Some (rc, c)
      }
      else Some (rc, c))"

datatype thread = App_thread | Io_thread | Completion_thread
  \<comment> \<open>a thread of the application, and the two of the threaded library\<close>

definition adaptor_finish :: "os \<Rightarrow> thread \<Rightarrow> (thread \<Rightarrow> client \<Rightarrow> client option) \<Rightarrow> client \<Rightarrow> client option" where
  \<comment> \<open>\<open>self\<close> is the thread that calls; \<open>others t\<close> is what the others do until the thread \<open>t\<close> has ended and is joined, and a thread of
    the library that calls is detached instead. The broadcast to the completion thread changes nothing in the handle\<close>
  "adaptor_finish E self others c =
     (if \<not> os_threaded E then Some c
      else do {
        let c = api_prolog c;
        c \<leftarrow> (if self \<noteq> Io_thread then others Io_thread (snd (wakeup_io_thread E c)) else Some c);
        c \<leftarrow> (if self \<noteq> Completion_thread then others Completion_thread c else Some c);
        (r, c) \<leftarrow> api_epilog E 0 c;
        Some c
      })"

definition zookeeper_close :: "os \<Rightarrow> thread \<Rightarrow> (thread \<Rightarrow> client \<Rightarrow> client option) \<Rightarrow> client \<Rightarrow> (int \<times> client) option" where
  "zookeeper_close E self others c =
     (if w_null c then Some (ZBADARGUMENTS, c)
      else
        let c = c\<lparr>zh_close_requested := True\<rparr>; (n, c) = inc_ref_counter c 1 in
        if n > 1 then do {
          c \<leftarrow> free_completions E True ZCLOSING c;
          c \<leftarrow> adaptor_finish E self others c;
          (r, c) \<leftarrow> api_epilog E 0 c;
          Some (ZOK, c)
        }
        else close_final E c)"

section \<open>The handshake\<close>

definition prime_connection :: "os \<Rightarrow> client \<Rightarrow> (int \<times> client) option" where
  \<comment> \<open>a part of the record that the socket did not take is not sent later\<close>
  "prime_connection E c = do {
     let hlen = host32 (os_host E) (htonl (os_host E) (of_nat HANDSHAKE_REQ_SIZE));
     let (rc, s) = sock_send (w_sock c) hlen;
     buffer_req \<leftarrow> serialize_prime_connect (os_host E) (connect_request c) (replicate HANDSHAKE_REQ_SIZE NUL);
     let (rc, s) = (case rc of Got _ \<Rightarrow> sock_send s buffer_req | _ \<Rightarrow> (rc, s));
     let c = c\<lparr>w_sock := s\<rparr>;
     case rc of
       Got _ \<Rightarrow> do {
         buf \<leftarrow> mem_write (bl_buffer (zh_primer_buffer c)) 0 (replicate (nat (sint (bl_len (zh_primer_buffer c)))) NUL);
         Some (ZOK, c\<lparr>zh_state := ZOO_ASSOCIATING_STATE, zh_input_buffer := Primer_input,
           zh_primer_buffer := (zh_primer_buffer c)\<lparr>bl_buffer := Some buf, bl_curr_offset := 4\<rparr>\<rparr>)
       }
     | _ \<Rightarrow> handle_socket_error_msg E ZCONNECTIONLOSS c
   }"

definition finish_handshake :: "os \<Rightarrow> client \<Rightarrow> (int \<times> client) option" where
  \<comment> \<open>the part of \<^verbatim>\<open>check_events\<close> for the reply to the handshake; the results of the two senders are not used\<close>
  "finish_handshake E c = do {
     p \<leftarrow> deserialize_prime_response (os_host E) (bl_buffer (zh_primer_buffer c));
     let oldid = (if zh_seen_rw_server_before c \<noteq> NUL then zh_client_id c else 0);
     let c = c\<lparr>zh_primer_storage := p, zh_seen_rw_server_before :=
       (if pr_readOnly p = NUL then char_of (of_char (zh_seen_rw_server_before c) OR (1 :: nat)) else zh_seen_rw_server_before c)\<rparr>;
     let newid = pr_sessionId p;
     if oldid \<noteq> 0 \<and> oldid \<noteq> newid then
       handle_socket_error_msg E ZSESSIONEXPIRED (c\<lparr>zh_state := ZOO_EXPIRED_SESSION_STATE\<rparr>)
     else do {
       let c = c\<lparr>zh_recv_timeout := pr_timeOut p, zh_client_id := newid, zh_passwd := pr_passwd p,
         zh_state := (if pr_readOnly p \<noteq> NUL then ZOO_READONLY_STATE else ZOO_CONNECTED_STATE), zh_reconfig := False\<rparr>;
       (r, c) \<leftarrow> send_set_watches E c;
       (r, c) \<leftarrow> send_auth_info E c;
       let c = c\<lparr>zh_input_buffer := No_input\<rparr>;
       (r, c) \<leftarrow> queue_session_event E (zh_state c) c;
       Some (ZOK, c\<lparr>zh_input_buffer := No_input\<rparr>)
     }
   }"


section \<open>Events of the socket\<close>

definition input_block :: "client \<Rightarrow> buffer_list option" where
  \<comment> \<open>what \<^verbatim>\<open>zh->input_buffer\<close> points to\<close>
  "input_block c = (case zh_input_buffer c of No_input \<Rightarrow> None | Primer_input \<Rightarrow> Some (zh_primer_buffer c) | Input b \<Rightarrow> Some b)"

definition set_input_block :: "buffer_list \<Rightarrow> client \<Rightarrow> client" where
  "set_input_block b c =
     (if zh_input_buffer c = Primer_input then c\<lparr>zh_primer_buffer := b\<rparr> else c\<lparr>zh_input_buffer := Input b\<rparr>)"

definition read_event :: "os \<Rightarrow> client \<Rightarrow> (int \<times> client) option" where
  \<comment> \<open>the part of \<^verbatim>\<open>check_events\<close> for a readable socket\<close>
  "read_event E c = do {
     c \<leftarrow> (if zh_input_buffer c = No_input
           then do { b \<leftarrow> allocate_buffer (os_host E) None 0; Some (c\<lparr>zh_input_buffer := Input b\<rparr>) } else Some c);
     b \<leftarrow> input_block c;
     (rc, b, s) \<leftarrow> recv_buffer (os_host E) (zh_input_buffer c = Primer_input) b (w_sock c);
     let c = set_input_block b (c\<lparr>w_sock := s\<rparr>);
     if rc < 0 then handle_socket_error_msg E ZCONNECTIONLOSS c
     else if rc > 0 then do {
       (tv, c) \<leftarrow> get_system_time E c;
       let c = c\<lparr>zh_last_recv := tv\<rparr>;
       if zh_input_buffer c \<noteq> Primer_input
       then Some (ZOK, c\<lparr>zh_to_process := zh_to_process c @ [b], zh_input_buffer := No_input\<rparr>)
       else finish_handshake E c
     }
     else Some (ZNOTHING, c)
   }"

definition check_events :: "os \<Rightarrow> bool \<Rightarrow> bool \<Rightarrow> client \<Rightarrow> (int \<times> client) option" where
  \<comment> \<open>the events are \<^verbatim>\<open>ZOOKEEPER_WRITE\<close> and \<^verbatim>\<open>ZOOKEEPER_READ\<close>\<close>
  "check_events E write read c =
     (if zh_fd c = - 1 then Some (ZINVALIDSTATE, c)
      else if write \<and> zh_state c = ZOO_CONNECTING_STATE then
        (let refused = os_so_error E (w_ticks c); c = c\<lparr>w_ticks := w_ticks c + 1\<rparr> in
         if refused then handle_socket_error_msg E ZCONNECTIONLOSS c else prime_connection E c)
      else do {
        (rc, c) \<leftarrow> (if zh_to_send c \<noteq> [] \<and> write then flush_send_queue E 0 c else Some (ZOK, c));
        if rc < 0 then handle_socket_error_msg E ZCONNECTIONLOSS c
        else if read then read_event E c
        else Some (ZOK, c)
      })"

definition isSocketReadable :: "os \<Rightarrow> client \<Rightarrow> client option" where
  "isSocketReadable E c = do {
     let r = os_poll E (w_ticks c);
     let c = c\<lparr>w_ticks := w_ticks c + 1\<rparr>;
     if r \<le> 0 then Some (c\<lparr>zh_socket_readable := tv_zero\<rparr>)
     else do { (tv, c) \<leftarrow> get_system_time E c; Some (c\<lparr>zh_socket_readable := tv\<rparr>) }
   }"

definition checkResponseLatency :: "os \<Rightarrow> client \<Rightarrow> client option" where
  "checkResponseLatency E c =
     (if tv_sec (zh_socket_readable c) = 0 then Some c
      else do { (now, c) \<leftarrow> get_system_time E c; Some (c\<lparr>zh_socket_readable := tv_zero\<rparr>) })"

section \<open>Replies to synchronous requests\<close>

definition copy_path :: "host \<Rightarrow> cstr \<Rightarrow> cstr \<Rightarrow> int \<Rightarrow> sync_completion \<Rightarrow> sync_completion option" where
  \<comment> \<open>the path without the chroot, cut to the caller's buffer of this length\<close>
  "copy_path H chroot path str_len sc = do {
     client_path \<leftarrow> sub_string H chroot path;
     p \<leftarrow> client_path;
     let len = int (length p) + 1;
     let len = (if len > str_len then str_len else len);
     if len > 0 then do {
       buf \<leftarrow> mem_write (sc_buffer sc) 0 (take (nat (len - 1)) p);
       buf \<leftarrow> mem_write (Some buf) (len - 1) [NUL];
       Some (sc\<lparr>sc_buffer := Some buf\<rparr>)
     }
     else Some sc
   }"

definition sync_result :: "os \<Rightarrow> completion_type \<Rightarrow> cstr \<Rightarrow> iarchive \<Rightarrow> sync_completion \<Rightarrow> sync_completion option" where
  \<comment> \<open>the branches of \<^verbatim>\<open>process_sync_completion\<close> other than \<^verbatim>\<open>COMPLETION_MULTI\<close>; reading a member of the union that was not
    set is undefined\<close>
  "sync_result E ct chroot ia sc =
     (let H = os_host E in
      if sc_rc sc \<noteq> 0 then Some sc
      else case ct of
        COMPLETION_DATA \<Rightarrow> do {
          (res, a) \<leftarrow> reply (deserialize_GetDataResponse H) GetDataResponse_zero (Some ia);
          buff_len \<leftarrow> (case sc_u sc of U_data n st \<Rightarrow> Some n | _ \<Rightarrow> None);
          let n = sint (cb_len (GetDataResponse_data res));
          let len = (if n \<le> buff_len then n else buff_len);
          buf \<leftarrow> (if len = - 1 then Some None
                  else do {
                    d \<leftarrow> mem_read (cb_buff (GetDataResponse_data res)) 0 len;
                    b \<leftarrow> mem_write (sc_buffer sc) 0 d;
                    Some (Some b)
                  });
          _ \<leftarrow> deallocate_GetDataResponse res;
          Some (sc\<lparr>sc_u := U_data len (GetDataResponse_stat res), sc_buffer := buf\<rparr>)
        }
      | COMPLETION_STAT \<Rightarrow> do {
          (res, a) \<leftarrow> reply (deserialize_SetDataResponse H) SetDataResponse_zero (Some ia);
          Some (sc\<lparr>sc_u := U_stat (SetDataResponse_stat res)\<rparr>)
        }
      | COMPLETION_STRINGLIST \<Rightarrow> do {
          (res, a) \<leftarrow> reply (deserialize_GetChildrenResponse H) GetChildrenResponse_zero (Some ia);
          Some (sc\<lparr>sc_u := U_strs (GetChildrenResponse_children res)\<rparr>)
        }
      | COMPLETION_STRINGLIST_STAT \<Rightarrow> do {
          (res, a) \<leftarrow> reply (deserialize_GetChildren2Response H) GetChildren2Response_zero (Some ia);
          Some (sc\<lparr>sc_u := U_strs_stat (GetChildren2Response_children res) (GetChildren2Response_stat res)\<rparr>)
        }
      | COMPLETION_STRING \<Rightarrow> do {
          (res, a) \<leftarrow> reply (deserialize_CreateResponse H) CreateResponse_zero (Some ia);
          str_len \<leftarrow> (case sc_u sc of U_str n \<Rightarrow> Some n | _ \<Rightarrow> None);
          copy_path H chroot (CreateResponse_path res) str_len sc
        }
      | COMPLETION_STRING_STAT \<Rightarrow> do {
          (res, a) \<leftarrow> reply (deserialize_Create2Response H) Create2Response_zero (Some ia);
          str_len \<leftarrow> (case sc_u sc of U_str n \<Rightarrow> Some n | _ \<Rightarrow> None);
          sc \<leftarrow> copy_path H chroot (Create2Response_path res) str_len sc;
          Some (sc\<lparr>sc_u := U_stat (Create2Response_stat res)\<rparr>)
        }
      | COMPLETION_ACLLIST \<Rightarrow> do {
          (res, a) \<leftarrow> reply (deserialize_GetACLResponse H) GetACLResponse_zero (Some ia);
          Some (sc\<lparr>sc_u := U_acl (GetACLResponse_acl res) (GetACLResponse_stat res)\<rparr>)
        }
      | _ \<Rightarrow> Some sc)"

definition process_sync_completion :: "os \<Rightarrow> completion_list \<Rightarrow> nat \<Rightarrow> iarchive \<Rightarrow> client \<Rightarrow> client option" where
  \<comment> \<open>a multi request is decoded even when the reply has an error, and its own code replaces that of the reply\<close>
  "process_sync_completion E cptr sc ia c =
     (if cl_type cptr = COMPLETION_MULTI then do {
        (rc, ia, c) \<leftarrow> deserialize_multi E (cl_xid cptr) cptr ia c;
        s \<leftarrow> w_syncs c sc;
        Some (c\<lparr>w_syncs := (w_syncs c)(sc \<mapsto> s\<lparr>sc_rc := rc\<rparr>)\<rparr>)
      }
      else do {
        s \<leftarrow> w_syncs c sc;
        s \<leftarrow> sync_result E (cl_type cptr) (zh_chroot c) ia s;
        Some (c\<lparr>w_syncs := (w_syncs c)(sc \<mapsto> s)\<rparr>)
      })"

section \<open>Replies\<close>

definition dispatch_sync :: "os \<Rightarrow> completion_list \<Rightarrow> int \<Rightarrow> iarchive \<Rightarrow> client \<Rightarrow> client option" where
  "dispatch_sync E cptr rc ia c = do {
     let sc = cl_data cptr;
     s \<leftarrow> w_syncs c sc;
     c \<leftarrow> process_sync_completion E cptr sc ia (c\<lparr>w_syncs := (w_syncs c)(sc \<mapsto> s\<lparr>sc_rc := rc\<rparr>)\<rparr>);
     s \<leftarrow> w_syncs c sc;
     Some (c\<lparr>w_syncs := (w_syncs c)(sc \<mapsto> s\<lparr>sc_complete := True\<rparr>), zh_outstanding_sync := zh_outstanding_sync c - 1\<rparr>)
   }"

definition reply_header :: "host \<Rightarrow> iarchive \<Rightarrow> (int \<times> ReplyHeader \<times> iarchive) option" where
  \<comment> \<open>the decoding of the header, whose result is not looked at: the structure is not initialised, so only the fields that lie in the bytes
    passed over may be used, of which there are so many (\<^verbatim>\<open>xid\<close> in the first four, \<^verbatim>\<open>zxid\<close> in the next eight, \<^verbatim>\<open>err\<close> in the last four)\<close>
  "reply_header H ia = do {
     (rc, a, hdr) \<leftarrow> deserialize_ReplyHeader H (ia, ReplyHeader_zero);
     Some (bs_off a - bs_off ia, hdr, a)
   }"

definition answer_request :: "os \<Rightarrow> int \<Rightarrow> ReplyHeader \<Rightarrow> iarchive \<Rightarrow> buffer_list \<Rightarrow> client \<Rightarrow> (int option \<times> client) option" where
  \<comment> \<open>the last branch of the loop of \<^verbatim>\<open>zookeeper_process\<close>: a reply to the oldest request; \<open>Some rc\<close> returns with that code.
    The error is used from the comparison of the numbers on, where the header must be complete\<close>
  "answer_request E known hdr ia bptr c =
     (case zh_sent_requests c of
        [] \<Rightarrow> if zh_close_requested c then Some (Some ZINVALIDSTATE, c) else None
      | cptr # cs \<Rightarrow>
          let c = c\<lparr>zh_sent_requests := cs\<rparr>; rc = sint (ReplyHeader_err hdr) in
          if cl_xid cptr \<noteq> ReplyHeader_xid hdr then do {
            (rc, c) \<leftarrow> handle_socket_error_msg E ZRUNTIMEINCONSISTENCY (c\<lparr>zh_sent_requests := cptr # zh_sent_requests c\<rparr>);
            Some (Some rc, c)
          }
          else do {
            _ \<leftarrow> c_assert (16 \<le> known);
            let c = (if sint (ReplyHeader_zxid hdr) > 0 then c\<lparr>zh_last_zxid := ReplyHeader_zxid hdr\<rparr> else c);
            w \<leftarrow> activateWatcher (os_host E) (zh_watchers c) (cl_watcher cptr) rc;
            w \<leftarrow> deactivateWatcher w (cl_watcher_deregistration cptr) rc;
            let c = c\<lparr>zh_watchers := w\<rparr>;
            if cl_fn cptr \<noteq> SYNCHRONOUS_MARKER
            then Some (None, queue_completion (set_cl_buffer (Some bptr) cptr) c)
            else if os_threaded E then do { c \<leftarrow> dispatch_sync E cptr rc ia c; Some (None, c) }
            else None
          })"

definition process_buffer :: "os \<Rightarrow> buffer_list \<Rightarrow> client \<Rightarrow> (int option \<times> client) option" where
  \<comment> \<open>the body of the loop of \<^verbatim>\<open>zookeeper_process\<close>; the archive is opened four bytes longer than the packet\<close>
  "process_buffer E bptr c = do {
     ia \<leftarrow> create_buffer_iarchive (os_host E) (bl_buffer bptr) (bl_curr_offset bptr);
     (known, hdr, ia) \<leftarrow> reply_header (os_host E) ia;
     _ \<leftarrow> c_assert (4 \<le> known);
     if ReplyHeader_xid hdr = PING_XID then Some (None, c)
     else if ReplyHeader_xid hdr = WATCHER_EVENT_XID then do {
       (evt, ia) \<leftarrow> reply (deserialize_WatcherEvent (os_host E)) WatcherEvent_zero (Some ia);
       entry \<leftarrow> create_completion_entry E WATCHER_EVENT_XID COMPLETION_WATCH No_fn 0 None None;
       cptr \<leftarrow> entry;
       path \<leftarrow> WatcherEvent_path evt;
       (tables, wl) \<leftarrow> collectWatchers (os_host E) (zh_watcher c, zh_context c) (zh_watchers c) (sint (WatcherEvent_type evt)) path;
       Some (None, queue_completion (set_cl_watcher_result (Some wl) (set_cl_buffer (Some bptr) cptr)) (c\<lparr>zh_watchers := tables\<rparr>))
     }
     else if ReplyHeader_xid hdr = SET_WATCHES_XID then Some (None, c)
     else if ReplyHeader_xid hdr = AUTH_XID then do {
       _ \<leftarrow> c_assert (16 \<le> known);
       c \<leftarrow> auth_completion_func E (sint (ReplyHeader_err hdr)) c;
       if is_unrecoverable c \<noteq> 0 then do { c \<leftarrow> handle_error E ZAUTHFAILED c; Some (Some ZAUTHFAILED, c) }
       else Some (None, c)
     }
     else answer_request E known hdr ia bptr c
   }"

fun process_buffers :: "os \<Rightarrow> buffer_list list \<Rightarrow> client \<Rightarrow> (int option \<times> client) option" where
  \<comment> \<open>the loop; its list is \<^verbatim>\<open>zh->to_process\<close>, which the body does not extend\<close>
  "process_buffers E [] c = Some (None, c)"
| "process_buffers E (bptr # bs) c = do {
     (stop, c) \<leftarrow> process_buffer E bptr (c\<lparr>zh_to_process := bs\<rparr>);
     case stop of Some rc \<Rightarrow> Some (Some rc, c) | None \<Rightarrow> process_buffers E bs c
   }"

definition zookeeper_process :: "os \<Rightarrow> bool \<Rightarrow> bool \<Rightarrow> client \<Rightarrow> (int \<times> client) option" where
  "zookeeper_process E write read c =
     (if w_null c then Some (ZBADARGUMENTS, c)
      else if is_unrecoverable c \<noteq> 0 then Some (ZINVALIDSTATE, c)
      else do {
        let c = api_prolog c;
        c \<leftarrow> (if os_loglevel E = 4 then checkResponseLatency E c else Some c);
        (rc, c) \<leftarrow> check_events E write read c;
        if rc \<noteq> ZOK then api_epilog E rc c
        else do {
          c \<leftarrow> (if os_loglevel E = 4 then isSocketReadable E c else Some c);
          (stop, c) \<leftarrow> process_buffers E (zh_to_process c) c;
          case stop of
            Some rc \<Rightarrow> api_epilog E rc c
          | None \<Rightarrow> do { c \<leftarrow> run_async E c; api_epilog E ZOK c }
        }
      })"


section \<open>Packets that have arrived\<close>

definition arrived :: "bytes \<Rightarrow> buffer_list \<Rightarrow> bool" where
  \<comment> \<open>a packet that has been received whole\<close>
  "arrived p b \<longleftrightarrow> bl_buffer b = Some p \<and> sint (bl_len b) = int (length p) \<and> bl_curr_offset b = int (length p) + 4 \<and>
     int (length p) + 4 \<le> INT_MAX"

lemma arrived_reply_buffer: "arrived p b \<Longrightarrow> reply_buffer p (Some b)"
  by (auto simp: arrived_def reply_buffer_def)

lemma reply_over:
  assumes "ia_local g" and "ia_reads g bs v" and "over ia" and "over_rest ia = bs @ r"
  shows "\<exists>ia'. reply g zero (Some ia) = Some (v, ia') \<and> over ia' \<and> over_rest ia' = r"
  using over_reads [OF assms, of zero] by (auto simp: reply_def)

lemma open_arrived:
  assumes "good_host (os_host E)" and "arrived (enc_ReplyHeader h @ bs) b"
  shows "\<exists>ia ia'. create_buffer_iarchive (os_host E) (bl_buffer b) (bl_curr_offset b) = Some ia \<and>
    reply_header (os_host E) ia = Some (16, h, ia') \<and> over ia' \<and> over_rest ia' = bs"
proof -
  let ?p = "enc_ReplyHeader h @ bs"
  let ?ia = "\<lparr>bs_len = int (length ?p) + 4, bs_off = 0, bs_buffer = Some ?p\<rparr>"
  have b: "bl_buffer b = Some ?p" "bl_curr_offset b = int (length ?p) + 4" "int (length ?p) + 4 \<le> INT_MAX"
    using assms(2) by (auto simp: arrived_def)
  have c: "create_buffer_iarchive (os_host E) (bl_buffer b) (bl_curr_offset b) = Some ?ia"
    using assms(1) by (simp only: create_buffer_iarchive_def b) (simp add: good_hostD)
  have "over ?ia" "over_rest ?ia = enc_ReplyHeader h @ bs" using b(3) by (simp_all add: over_def over_rest_def)
  from over_reads [OF ReplyHeader_local ReplyHeader_reads [OF assms(1)] this, of ReplyHeader_zero] obtain ia' where
    r: "deserialize_ReplyHeader (os_host E) (?ia, ReplyHeader_zero) = Some (0, ia', h)" "over ia'" "over_rest ia' = bs" by blast
  have "bs_buffer ia' = Some (?p @ [])" by (rule ia_localD(1) [OF ReplyHeader_local _ _ r(1)]) simp_all
  then have "drop (nat (bs_off ia')) ?p = bs" "0 \<le> bs_off ia'" "bs_off ia' \<le> int (length ?p)"
    using r(2,3) by (auto simp: over_def over_rest_def)
  then have "length ?p - nat (bs_off ia') = length bs" by (metis length_drop)
  then have "bs_off ia' = 16" using \<open>0 \<le> bs_off ia'\<close> \<open>bs_off ia' \<le> int (length ?p)\<close> by (simp add: enc_ReplyHeader_def)
  with r c show ?thesis by (simp add: reply_header_def)
qed

section \<open>Replies to requests\<close>

definition regs_ok :: "completion_list \<Rightarrow> bool" where
  "regs_ok e \<longleftrightarrow> (case cl_watcher e of None \<Rightarrow> True | Some r \<Rightarrow> \<exists>p. wr_path r = Some p \<and> int (length p) < 2 ^ 30) \<and>
     (case cl_watcher_deregistration e of None \<Rightarrow> True | Some d \<Rightarrow> wd_path d \<noteq> None)"

definition reserved_xid :: "i32 \<Rightarrow> bool" where
  "reserved_xid x \<longleftrightarrow> x = WATCHER_EVENT_XID \<or> x = PING_XID \<or> x = AUTH_XID \<or> x = SET_WATCHES_XID"

definition heap_ok :: "host \<Rightarrow> bool" where
  \<comment> \<open>the allocator grants what is asked for, and a block that can be extended can also be allocated\<close>
  "heap_ok H \<longleftrightarrow> good_host H \<and> (\<forall>n. extends H n \<longrightarrow> grants H n)"

lemma update_watchers_ok:
  assumes "heap_ok H" and "tables_wf w" and "regs_ok e"
  shows "\<exists>w1 w2. activateWatcher H w (cl_watcher e) rc = Some w1 \<and> deactivateWatcher w1 (cl_watcher_deregistration e) rc = Some w2 \<and>
    tables_wf w2"
proof -
  have "\<exists>w1. activateWatcher H w (cl_watcher e) rc = Some w1 \<and> tables_wf w1"
  proof (cases "cl_watcher e")
    case None
    then show ?thesis using assms(2) by (simp add: activateWatcher_def)
  next
    case (Some r)
    obtain p where p: "wr_path r = Some p" "int (length p) < 2 ^ 30" using assms(3) Some by (auto simp: regs_ok_def)
    have "good_host H" "\<And>n. extends H n \<Longrightarrow> grants H n" using assms(1) by (simp_all add: heap_ok_def)
    with activateWatcher_ok [OF assms(2) p(1), of H rc] p(2) Some show ?thesis by (auto simp: good_hostD)
  qed
  then obtain w1 where w1: "activateWatcher H w (cl_watcher e) rc = Some w1" "tables_wf w1" by blast
  have "\<exists>w2. deactivateWatcher w1 (cl_watcher_deregistration e) rc = Some w2 \<and> tables_wf w2"
    using assms(3) w1(2) removeWatchers_wf by (auto simp: deactivateWatcher_def regs_ok_def split: option.splits)
  with w1(1) show ?thesis by blast
qed

definition new_zxid :: "ReplyHeader \<Rightarrow> i64 \<Rightarrow> i64" where
  "new_zxid h z = (if sint (ReplyHeader_zxid h) > 0 then ReplyHeader_zxid h else z)"

lemma process_answer:
  assumes "heap_ok (os_host E)" and "tables_wf (zh_watchers c)" and "zh_sent_requests c = e # es" and "regs_ok e" and "\<not> is_sync e"
    and "arrived (enc_ReplyHeader h @ bs) b" and "ReplyHeader_xid h = cl_xid e" and "\<not> reserved_xid (cl_xid e)"
  shows "\<exists>w. process_buffer E b c = Some (None, queue_completion (set_cl_buffer (Some b) e)
    (c\<lparr>zh_sent_requests := es, zh_last_zxid := new_zxid h (zh_last_zxid c), zh_watchers := w\<rparr>)) \<and> tables_wf w"
proof -
  have gh: "good_host (os_host E)" using assms(1) by (simp add: heap_ok_def)
  obtain ia ia' where ia: "create_buffer_iarchive (os_host E) (bl_buffer b) (bl_curr_offset b) = Some ia"
    "reply_header (os_host E) ia = Some (16, h, ia')"
    using open_arrived [OF gh assms(6)] by blast
  obtain w1 w2 where w: "activateWatcher (os_host E) (zh_watchers c) (cl_watcher e) (sint (ReplyHeader_err h)) = Some w1"
    "deactivateWatcher w1 (cl_watcher_deregistration e) (sint (ReplyHeader_err h)) = Some w2" "tables_wf w2"
    using update_watchers_ok [OF assms(1,2,4)] by blast
  have "process_buffer E b c = answer_request E 16 h ia' b c"
    using ia assms(7,8) by (simp add: process_buffer_def reserved_xid_def)
  also have "\<dots> = Some (None, queue_completion (set_cl_buffer (Some b) e)
    (c\<lparr>zh_sent_requests := es, zh_last_zxid := new_zxid h (zh_last_zxid c), zh_watchers := w2\<rparr>))"
    using assms(3,5,7) w by (simp add: answer_request_def is_sync_def new_zxid_def Let_def)
  finally show ?thesis using w(3) by blast
qed


text \<open>
  A run of replies: each element is a request, the packet that answers it, and the call that the answer amounts to.
\<close>

definition reply_for :: "host \<Rightarrow> cstr \<Rightarrow> completion_list \<Rightarrow> buffer_list \<Rightarrow> user_call \<Rightarrow> bool" where
  "reply_for H chroot e b k \<longleftrightarrow> (\<exists>h body. arrived (enc_ReplyHeader h @ body) b \<and> ReplyHeader_xid h = cl_xid e \<and>
     (if ReplyHeader_err h = 0
      then \<exists>bs rest kk. body = bs @ rest \<and> decodes H chroot (cl_type e) bs kk \<and> k = kk (user_fn (cl_fn e)) (cl_data e)
      else k = failure_call (cl_type e) (user_fn (cl_fn e)) (sint (ReplyHeader_err h)) (cl_data e)))"

definition good_request :: "completion_list \<Rightarrow> bool" where
  "good_request e \<longleftrightarrow> user_entry e \<and> regs_ok e \<and> \<not> reserved_xid (cl_xid e)"

type_synonym exchange = "completion_list \<times> buffer_list \<times> user_call"

definition exchange_ok :: "host \<Rightarrow> cstr \<Rightarrow> exchange \<Rightarrow> bool" where
  "exchange_ok H chroot t \<longleftrightarrow> (case t of (e, b, k) \<Rightarrow> good_request e \<and> reply_for H chroot e b k)"

definition answered_entry :: "exchange \<Rightarrow> completion_list" where
  "answered_entry t = set_cl_buffer (Some (fst (snd t))) (fst t)"

lemma process_answered:
  assumes "good_host (os_host E)" and "exchange_ok (os_host E) (zh_chroot c) t"
  shows "process_one E (answered_entry t) c = Some (emit (snd (snd t)) c)"
proof -
  obtain e b k where t: "t = (e, b, k)" by (cases t)
  let ?e = "set_cl_buffer (Some b) e"
  obtain h body where h: "arrived (enc_ReplyHeader h @ body) b" "ReplyHeader_xid h = cl_xid e"
    and k: "if ReplyHeader_err h = 0
      then \<exists>bs rest kk. body = bs @ rest \<and> decodes (os_host E) (zh_chroot c) (cl_type e) bs kk \<and> k = kk (user_fn (cl_fn e)) (cl_data e)
      else k = failure_call (cl_type e) (user_fn (cl_fn e)) (sint (ReplyHeader_err h)) (cl_data e)"
    using assms(2) t by (auto simp: exchange_ok_def reply_for_def)
  have u: "user_entry e" "\<not> reserved_xid (cl_xid e)" using assms(2) t by (auto simp: exchange_ok_def good_request_def)
  then obtain f where f: "cl_fn e = Fn f" by (auto simp: user_entry_def)
  have rb: "reply_buffer (enc_ReplyHeader h @ body) (cl_buffer ?e)" using arrived_reply_buffer [OF h(1)] by simp
  show ?thesis
  proof (cases "ReplyHeader_err h = 0")
    case True
    obtain bs rest kk where b: "body = bs @ rest" "decodes (os_host E) (zh_chroot c) (cl_type ?e) bs kk" "k = kk f (cl_data e)"
      using k True f by auto
    have "process_one E ?e c = Some (emit (kk f (cl_data ?e)) c)"
      by (rule process_good [OF assms(1) _ b(2)]) (use f rb b(1) h(2) u(2) True in \<open>auto simp: reserved_xid_def\<close>)
    then show ?thesis using b(3) by (simp add: answered_entry_def t)
  next
    case False
    have "user_entry ?e" using u(1) by (simp add: user_entry_def)
    from process_failed [OF assms(1) this rb _ False] h(2) k False show ?thesis by (simp add: answered_entry_def t)
  qed
qed

lemma process_loop_exchanges:
  assumes "good_host (os_host E)" and "\<forall>t \<in> set ts. exchange_ok (os_host E) (zh_chroot c) t"
  shows "process_loop E (map answered_entry ts) c = Some (c\<lparr>w_calls := w_calls c @ map (snd \<circ> snd) ts,
    zh_completions_to_process := (if ts = [] then zh_completions_to_process c else [])\<rparr>)"
  using assms(2)
proof (induction ts arbitrary: c)
  case (Cons t ts)
  let ?c = "c\<lparr>zh_completions_to_process := map answered_entry ts\<rparr>"
  have "process_one E (answered_entry t) ?c = Some (emit (snd (snd t)) ?c)"
    by (rule process_answered [OF assms(1)]) (use Cons.prems in simp)
  moreover have "\<forall>t \<in> set ts. exchange_ok (os_host E) (zh_chroot (emit (snd (snd t)) ?c)) t" using Cons.prems by (simp add: emit_def)
  ultimately show ?case using Cons.IH [of "emit (snd (snd t)) ?c"] Cons.prems by (simp add: emit_def)
qed simp

definition settled :: "exchange list \<Rightarrow> completion_list list \<Rightarrow> watch_tables \<Rightarrow> i64 \<Rightarrow> client \<Rightarrow> client" where
  \<comment> \<open>the client after a run of replies: the answered requests have moved to the queue of completions\<close>
  "settled ts rest w z c = c\<lparr>zh_to_process := (if ts = [] then zh_to_process c else []), zh_sent_requests := rest,
     zh_last_zxid := z, zh_watchers := w, zh_completions_to_process := zh_completions_to_process c @ map answered_entry ts\<rparr>"

lemma process_buffers_exchanges:
  assumes "heap_ok (os_host E)" and "tables_wf (zh_watchers c)" and "\<forall>t \<in> set ts. exchange_ok (os_host E) chroot t"
    and "zh_sent_requests c = map fst ts @ rest"
  shows "\<exists>w z. process_buffers E (map (fst \<circ> snd) ts) c = Some (None, settled ts rest w z c) \<and> tables_wf w"
  using assms(2-4)
proof (induction ts arbitrary: c)
  case Nil
  have "settled [] rest (zh_watchers c) (zh_last_zxid c) c = c" using Nil.prems(3) by (simp add: settled_def)
  with Nil.prems(1) show ?case by (intro exI [of _ "zh_watchers c"] exI [of _ "zh_last_zxid c"] conjI) simp_all
next
  case (Cons t ts)
  obtain e b k where t: "t = (e, b, k)" by (cases t)
  obtain h body where h: "arrived (enc_ReplyHeader h @ body) b" "ReplyHeader_xid h = cl_xid e"
    and g: "good_request e" using Cons.prems(2) t by (auto simp: exchange_ok_def reply_for_def)
  let ?c = "c\<lparr>zh_to_process := map (fst \<circ> snd) ts\<rparr>"
  have pre: "tables_wf (zh_watchers ?c)" "zh_sent_requests ?c = e # map fst ts @ rest" "regs_ok e" "\<not> is_sync e"
    "\<not> reserved_xid (cl_xid e)"
    using Cons.prems(1,3) t g user_not_sync by (simp_all add: good_request_def)
  obtain w where w: "process_buffer E b ?c = Some (None, queue_completion (set_cl_buffer (Some b) e)
    (?c\<lparr>zh_sent_requests := map fst ts @ rest, zh_last_zxid := new_zxid h (zh_last_zxid ?c), zh_watchers := w\<rparr>))" "tables_wf w"
    using process_answer [OF assms(1) pre(1-4) h pre(5)] by blast
  define d where "d = queue_completion (set_cl_buffer (Some b) e)
    (?c\<lparr>zh_sent_requests := map fst ts @ rest, zh_last_zxid := new_zxid h (zh_last_zxid ?c), zh_watchers := w\<rparr>)"
  have "tables_wf (zh_watchers d)" "\<forall>t \<in> set ts. exchange_ok (os_host E) chroot t" "zh_sent_requests d = map fst ts @ rest"
    using w(2) Cons.prems(2) by (simp_all add: d_def queue_completion_def)
  from Cons.IH [OF this] obtain w' z where
    r: "process_buffers E (map (fst \<circ> snd) ts) d = Some (None, settled ts rest w' z d)" "tables_wf w'" by blast
  have "process_buffers E (map (fst \<circ> snd) (t # ts)) c = process_buffers E (map (fst \<circ> snd) ts) d"
    using w(1) by (simp add: t d_def)
  moreover have "settled ts rest w' z d = settled (t # ts) rest w' z c"
    by (simp add: settled_def d_def queue_completion_def answered_entry_def t)
  ultimately have "process_buffers E (map (fst \<circ> snd) (t # ts)) c = Some (None, settled (t # ts) rest w' z c)" by (simp only: r(1))
  with r(2) show ?case by blast
qed


definition idle :: "os \<Rightarrow> client \<Rightarrow> bool" where
  \<comment> \<open>a client of the single threaded library between two calls\<close>
  "idle E c \<longleftrightarrow> \<not> os_threaded E \<and> \<not> w_null c \<and> zh_ref_counter c = 0 \<and> zh_outstanding_sync c = 0 \<and>
     zh_completions_to_process c = [] \<and> \<not> zh_close_requested c"

lemma api_epilog_open:
  "\<not> zh_close_requested c \<Longrightarrow> api_epilog E rc c = Some (rc, c\<lparr>zh_ref_counter := zh_ref_counter c - 1\<rparr>)"
  by (simp add: api_epilog_def inc_ref_counter_def Let_def)

lemma api_prolog_simp: "api_prolog c = c\<lparr>zh_ref_counter := zh_ref_counter c + 1\<rparr>"
  by (simp add: api_prolog_def inc_ref_counter_def Let_def)

section \<open>Properties\<close>

text \<open>
  (C1) A turn of the event loop of the single threaded library answers requests in order: when the packets that have arrived are replies to the
  oldest outstanding requests, every one of these requests gets exactly one call, with the result its reply encodes, in the
  order of the requests; they are no longer outstanding afterwards, and those behind them still are.
\<close>

theorem replies_answered_in_order:
  assumes "heap_ok (os_host E)" and "os_loglevel E \<noteq> 4" and "idle E c" and "tables_wf (zh_watchers c)" and "0 \<le> zh_state c" and "zh_fd c \<noteq> - 1"
    and "\<forall>t \<in> set ts. exchange_ok (os_host E) (zh_chroot c) t"
    and "zh_to_process c = map (fst \<circ> snd) ts" and "zh_sent_requests c = map fst ts @ rest"
  shows "\<exists>c'. zookeeper_process E False False c = Some (ZOK, c') \<and> w_calls c' = w_calls c @ map (snd \<circ> snd) ts \<and>
    zh_sent_requests c' = rest \<and> zh_to_process c' = [] \<and> idle E c' \<and> tables_wf (zh_watchers c')"
proof -
  define d where "d = c\<lparr>zh_ref_counter := 1\<rparr>"
  have d: "tables_wf (zh_watchers d)" "zh_sent_requests d = map fst ts @ rest" "zh_to_process d = map (fst \<circ> snd) ts"
    using assms(4,8,9) by (simp_all add: d_def)
  obtain w z where pb: "process_buffers E (map (fst \<circ> snd) ts) d = Some (None, settled ts rest w z d)" "tables_wf w"
    using process_buffers_exchanges [OF assms(1) d(1) assms(7) d(2)] by blast
  let ?s = "settled ts rest w z d"
  have s: "zh_completions_to_process ?s = map answered_entry ts" "zh_outstanding_sync ?s = 0" "zh_chroot ?s = zh_chroot c"
    using assms(3) by (simp_all add: settled_def d_def idle_def)
  have gh: "good_host (os_host E)" using assms(1) by (simp add: heap_ok_def)
  let ?f = "?s\<lparr>w_calls := w_calls ?s @ map (snd \<circ> snd) ts, zh_completions_to_process := []\<rparr>"
  have "process_loop E (map answered_entry ts) ?s = Some ?f"
    using process_loop_exchanges [OF gh, of ts ?s] assms(7) s(1,3) by (cases ts) simp_all
  then have ra: "run_async E ?s = Some ?f"
    using assms(3) s by (simp add: run_async_def process_async_def idle_def process_completions_def)
  have nr: "is_unrecoverable c = 0" using assms(5) by (simp add: is_unrecoverable_def)
  have pr: "api_prolog c = d" using assms(3) by (simp add: api_prolog_simp idle_def d_def)
  have ce: "check_events E False False d = Some (ZOK, d)" using assms(6) by (simp add: check_events_def d_def)
  have "\<not> zh_close_requested ?f" using assms(3) by (simp add: settled_def d_def idle_def)
  then have ep: "api_epilog E ZOK ?f = Some (ZOK, ?f\<lparr>zh_ref_counter := zh_ref_counter ?f - 1\<rparr>)" by (rule api_epilog_open)
  have "zookeeper_process E False False c = Some (ZOK, ?f\<lparr>zh_ref_counter := zh_ref_counter ?f - 1\<rparr>)"
    using assms(2,3) nr ra ep pb(1) by (simp add: zookeeper_process_def pr ce d(3) idle_def del: process_buffers.simps)
  moreover have "zh_to_process ?s = []" using d(3) by (simp add: settled_def)
  ultimately show ?thesis
    using pb(2) assms(3) by (intro exI conjI) (assumption, simp_all add: settled_def d_def idle_def)
qed


definition arrived_reply :: "bytes \<Rightarrow> buffer_list" where
  "arrived_reply p = \<lparr>bl_buffer = Some p, bl_len = of_nat (length p), bl_curr_offset = int (length p) + 4\<rparr>"

definition stat_reply :: bytes where
  \<comment> \<open>a successful reply to request number 5\<close>
  "stat_reply = enc_ReplyHeader \<lparr>ReplyHeader_xid = 5, ReplyHeader_zxid = 9, ReplyHeader_err = 0\<rparr> @ enc_SetDataResponse SetDataResponse_zero"

lemma length_stat_reply: "length stat_reply = 84"
  by (simp add: stat_reply_def enc_ReplyHeader_def enc_SetDataResponse_def enc_Stat_def)

lemma arrived_stat_reply: "arrived stat_reply (arrived_reply stat_reply)"
  by (simp add: arrived_def arrived_reply_def length_stat_reply)

lemma stat_exchange_ok: "exchange_ok H chroot (sample_entry, arrived_reply stat_reply, Stat_call 3 ZOK (Some Stat_zero) 11)"
proof -
  have "decodes H chroot (cl_type sample_entry) (enc_SetDataResponse SetDataResponse_zero)
      (\<lambda>f. Stat_call f ZOK (Some (SetDataResponse_stat SetDataResponse_zero)))"
    unfolding sample_entry_def completion_list.sel
    by (rule decodes.stat) (simp add: SetDataResponse_ok_def SetDataResponse_zero_def Stat_ok_def)
  then have "\<exists>bs rest kk. enc_SetDataResponse SetDataResponse_zero = bs @ rest \<and> decodes H chroot (cl_type sample_entry) bs kk \<and>
      Stat_call 3 ZOK (Some Stat_zero) 11 = kk (user_fn (cl_fn sample_entry)) (cl_data sample_entry)"
    by (intro exI [of _ "enc_SetDataResponse SetDataResponse_zero"] exI [of _ "[]"] exI conjI)
      (simp, assumption, simp add: sample_entry_def SetDataResponse_zero_def)
  moreover have "good_request sample_entry"
    by (simp add: good_request_def user_entry_def regs_ok_def reserved_xid_def sample_entry_def)
  ultimately show ?thesis
    unfolding exchange_ok_def prod.case reply_for_def
    by (intro conjI exI [of _ "\<lparr>ReplyHeader_xid = 5, ReplyHeader_zxid = 9, ReplyHeader_err = 0\<rparr>"]
        exI [of _ "enc_SetDataResponse SetDataResponse_zero"])
      (use arrived_stat_reply in \<open>simp_all add: stat_reply_def sample_entry_def\<close>)
qed

lemma heap_ok_test: "heap_ok (os_host test_os)"
  by (auto simp: heap_ok_def test_os_def good_host_def test_host_def)

theorem replies_answered_in_order_witness:
  "\<exists>c'. zookeeper_process test_os False False
      (test_client\<lparr>zh_sent_requests := [sample_entry, sample_entry], zh_to_process := [arrived_reply stat_reply]\<rparr>) = Some (ZOK, c') \<and>
     w_calls c' = [Stat_call 3 ZOK (Some Stat_zero) 11] \<and> zh_sent_requests c' = [sample_entry]"
proof -
  let ?c = "test_client\<lparr>zh_sent_requests := [sample_entry, sample_entry], zh_to_process := [arrived_reply stat_reply]\<rparr>"
  let ?ts = "[(sample_entry, arrived_reply stat_reply, Stat_call 3 ZOK (Some Stat_zero) 11)]"
  have "idle test_os ?c" "os_loglevel test_os \<noteq> 4" "zh_fd ?c \<noteq> - 1"
    by (simp_all add: idle_def test_os_def) (simp add: test_client_def)
  then show ?thesis
    using replies_answered_in_order [of test_os ?c ?ts "[sample_entry]"] heap_ok_test no_watchers_wf stat_exchange_ok by auto
qed


lemma addrvec_next_returns: "av_wf a \<Longrightarrow> \<exists>x a'. addrvec_next a = Some (x, a')"
proof (cases "av_list a = []")
  case True
  assume wf: "av_wf a"
  then have "unat (av_count a) = 0" using True length_av_list [OF wf] by simp
  then have "av_count a = 0" by (simp add: unat_eq_zero)
  then show ?thesis by (simp add: addrvec_next_def addrvec_atend_def addrvec_hasnext_def)
qed (use addrvec_next_ok in blast)

lemma handle_error_single:
  assumes "good_host (os_host E)" and "answerable E c" and "INT_MIN \<le> rc" and "rc \<le> INT_MAX" and "rc \<noteq> 0"
    and "tables_wf (zh_watchers c)" and "INT_MIN \<le> zh_state c" and "zh_completions_to_process c = []"
    and "\<not> os_threaded E" and "zh_outstanding_sync c = 0" and "av_wf (zh_addrs c)"
  shows "\<exists>wl d. distinct wl \<and> set wl = insert (zh_watcher c, zh_context c) (\<Union>t. all_watchers (get_table (zh_watchers c) t)) \<and>
    handle_error E rc c = Some d \<and>
    w_calls d = w_calls c @ loss_calls c wl @ auth_calls rc (zh_auth_h c) @ failures_of rc c \<and> zh_sent_requests d = [] \<and>
    zh_to_send d = [] \<and> zh_to_process d = [] \<and> zh_fd d = - 1 \<and> zh_close_requested d = zh_close_requested c \<and>
    zh_state d = (if zh_state c < 0 then zh_state c else 0) \<and> zh_ref_counter d = zh_ref_counter c"
proof -
  let ?d = "\<lambda>wl. disconnected ((drop_all rc [] c)\<lparr>w_calls := w_calls c @ loss_calls c wl @
    auth_calls rc (zh_auth_h c) @ failures_of rc c\<rparr>)"
  obtain wl where wl: "distinct wl" "set wl = insert (zh_watcher c, zh_context c) (\<Union>t. all_watchers (get_table (zh_watchers c) t))"
    "cleanup E rc c = Some (?d wl)" using cleanup_single [OF assms(1-10)] by blast
  have "zh_addrs (?d wl) = zh_addrs c" by (simp add: disconnected_def drop_all_def)
  then obtain x v where "addrvec_next (zh_addrs (?d wl)) = Some (x, v)" using addrvec_next_returns [OF assms(11)] by auto
  then have h: "handle_error E rc c = Some ((?d wl)\<lparr>zh_delay := addrvec_atend (zh_addrs (?d wl)), zh_addr_cur := x, zh_addrs := v\<rparr>)"
    using wl(3) by (simp add: handle_error_def)
  show ?thesis
    by (intro exI conjI, rule wl(1), rule wl(2), rule h) (simp_all add: disconnected_def drop_all_def is_unrecoverable_def)
qed


text \<open>
  (C2) A reply that is not the one expected next ends the connection: when its number is not that of the oldest request,
  the call returns \<^verbatim>\<open>ZRUNTIMEINCONSISTENCY\<close>, the socket is closed, and every outstanding request, the oldest included, is
  answered with that code in order. No reply is ever given to a request it does not belong to.
\<close>

theorem out_of_order_reply_disconnects:
  assumes "heap_ok (os_host E)" and "os_loglevel E \<noteq> 4" and "idle E c" and "tables_wf (zh_watchers c)" and "0 \<le> zh_state c"
    and "zh_fd c \<noteq> - 1" and "av_wf (zh_addrs c)" and "answerable E c"
    and "zh_to_process c = b # bs" and "zh_sent_requests c = e # es"
    and "arrived (enc_ReplyHeader h @ body) b" and "ReplyHeader_xid h \<noteq> cl_xid e" and "\<not> reserved_xid (ReplyHeader_xid h)"
  shows "\<exists>c' wl. zookeeper_process E False False c = Some (ZRUNTIMEINCONSISTENCY, c') \<and> zh_fd c' = - 1 \<and>
    w_calls c' = w_calls c @ loss_calls c wl @ auth_calls ZRUNTIMEINCONSISTENCY (zh_auth_h c) @
      failures_of ZRUNTIMEINCONSISTENCY c \<and>
    zh_sent_requests c' = [] \<and> zh_to_process c' = [] \<and> zh_state c' = 0"
proof -
  have gh: "good_host (os_host E)" using assms(1) by (simp add: heap_ok_def)
  define d where "d = c\<lparr>zh_ref_counter := 1\<rparr>"
  define g where "g = d\<lparr>zh_to_process := bs\<rparr>"
  obtain ia ia' where ia: "create_buffer_iarchive (os_host E) (bl_buffer b) (bl_curr_offset b) = Some ia"
    "reply_header (os_host E) ia = Some (16, h, ia')"
    using open_arrived [OF gh assms(11)] by blast
  have pg: "zh_sent_requests g = e # es" "zh_chroot g = zh_chroot c" "loss_calls g = loss_calls c" "zh_auth_h g = zh_auth_h c"
      "failures_of ZRUNTIMEINCONSISTENCY g = failures_of ZRUNTIMEINCONSISTENCY c" "w_calls g = w_calls c" "zh_state g = zh_state c"
    using assms(10)
    by (simp_all add: g_def d_def loss_calls_def reports_def event_state_def is_connected_def failures_of_def fun_eq_iff)
  have ans: "answerable E g" "tables_wf (zh_watchers g)" "zh_completions_to_process g = []" "zh_outstanding_sync g = 0" "av_wf (zh_addrs g)"
    "\<not> os_threaded E" "\<not> zh_close_requested g"
    using assms(3,4,7,8) by (simp_all add: g_def d_def answerable_def sync_entry_def idle_def)
  have "INT_MIN \<le> zh_state g" using assms(5) by (simp add: g_def d_def)
  from handle_error_single [OF gh ans(1) _ _ _ ans(2) this ans(3,6,4,5), of ZRUNTIMEINCONSISTENCY] obtain wl f where
    f: "handle_error E ZRUNTIMEINCONSISTENCY g = Some f"
    "w_calls f = w_calls g @ loss_calls g wl @ auth_calls ZRUNTIMEINCONSISTENCY (zh_auth_h g) @ failures_of ZRUNTIMEINCONSISTENCY g"
    "zh_sent_requests f = []" "zh_to_process f = []" "zh_fd f = - 1" "\<not> zh_close_requested f"
    "zh_state f = (if zh_state g < 0 then zh_state g else 0)" using ans(7) by auto
  have same: "g\<lparr>zh_sent_requests := e # es\<rparr> = g" using pg(1) by simp
  have "answer_request E 16 h ia' b g = Some (Some ZRUNTIMEINCONSISTENCY, f)"
    using pg(1) assms(12) f(1) by (simp add: answer_request_def handle_socket_error_msg_def Let_def same)
  then have pb: "process_buffers E (b # bs) d = Some (Some ZRUNTIMEINCONSISTENCY, f)"
    using ia assms(13) by (simp add: process_buffer_def reserved_xid_def g_def)
  have pr: "api_prolog c = d" using assms(3) by (simp add: api_prolog_simp idle_def d_def)
  have ce: "check_events E False False d = Some (ZOK, d)" using assms(6) by (simp add: check_events_def d_def)
  have q: "zh_to_process d = b # bs" using assms(9) by (simp add: d_def)
  have nr: "is_unrecoverable c = 0" "\<not> w_null c" using assms(3,5) by (simp_all add: is_unrecoverable_def idle_def)
  have "zookeeper_process E False False c = Some (ZRUNTIMEINCONSISTENCY, f\<lparr>zh_ref_counter := zh_ref_counter f - 1\<rparr>)"
    using assms(2) nr pb by (simp add: zookeeper_process_def pr ce q api_epilog_open [OF f(6)] del: process_buffers.simps)
  then show ?thesis
    using f pg assms(5) by (intro exI conjI) (assumption, simp_all)
qed

theorem out_of_order_reply_disconnects_witness:
  "\<exists>c'. zookeeper_process test_os False False (test_client\<lparr>zh_sent_requests := [Completion 6 COMPLETION_STAT (Fn 3) None [] 11 None None None],
      zh_to_process := [arrived_reply stat_reply]\<rparr>) = Some (ZRUNTIMEINCONSISTENCY, c') \<and> zh_fd c' = - 1 \<and> zh_sent_requests c' = []"
proof -
  let ?e = "Completion 6 COMPLETION_STAT (Fn 3) None [] 11 None None None"
  let ?c = "test_client\<lparr>zh_sent_requests := [?e], zh_to_process := [arrived_reply stat_reply]\<rparr>"
  have "idle test_os ?c" "os_loglevel test_os \<noteq> 4" by (simp_all add: idle_def test_os_def)
  moreover have "zh_fd ?c \<noteq> - 1" "av_wf (zh_addrs ?c)" by (simp_all add: test_client_def)
  moreover have "answerable test_os ?c" by (simp add: answerable_def user_entry_def)
  moreover have "arrived (enc_ReplyHeader \<lparr>ReplyHeader_xid = 5, ReplyHeader_zxid = 9, ReplyHeader_err = 0\<rparr> @
      enc_SetDataResponse SetDataResponse_zero) (arrived_reply stat_reply)"
    using arrived_stat_reply by (simp add: stat_reply_def)
  ultimately show ?thesis
    using out_of_order_reply_disconnects [of test_os ?c "arrived_reply stat_reply" "[]" ?e "[]"
        "\<lparr>ReplyHeader_xid = 5, ReplyHeader_zxid = 9, ReplyHeader_err = 0\<rparr>" "enc_SetDataResponse SetDataResponse_zero"]
      heap_ok_test no_watchers_wf by (auto simp: reserved_xid_def)
qed


lemma short_header:
  assumes "length p < 16"
  shows "reply_header H \<lparr>bs_len = int (length p) + 4, bs_off = 0, bs_buffer = Some p\<rparr> =
    (if 4 \<le> length p \<and> length p < 8
     then Some (4, ReplyHeader_zero\<lparr>ReplyHeader_xid := ntohl H (of_host32 H (take 4 p))\<rparr>,
       \<lparr>bs_len = int (length p) + 4, bs_off = 4, bs_buffer = Some p\<rparr>)
     else None)"
  using assms
  by (cases "4 \<le> length p"; cases "8 \<le> length p"; cases "12 \<le> length p")
    (simp_all add: reply_header_def deserialize_ReplyHeader_def ia_record_def ia_start_record_def ia_field_def ia_deserialize_int_def
      ia_deserialize_long_def mem_read_def ia_end_record_def to_size_def)

text \<open>
  (C15) A packet that is shorter than a reply header. The archive is opened with the offset of the packet for its length, four bytes more than
  were received, so that with fewer than four bytes, or with eight to fifteen, the checks of the deserialiser let it read past the block. With four to seven bytes
  the number of the transaction is decoded, the rest of the header is left unset, and the number decides: a ping or the answer to the watches
  is accepted, a number that is not that of the oldest request ends the connection as any wrong number does, and the behaviour is
  undefined when the unset fields are used, which is the case for the number of the oldest request, an event and an authentication.
\<close>

theorem short_replies:
  assumes "good_host (os_host E)" and "arrived p b" and "length p < 16"
  shows "(length p < 4 \<or> 8 \<le> length p \<longrightarrow> process_buffer E b c = None) \<and>
    (p = be32 xid @ tail \<and> length p < 8 \<longrightarrow> process_buffer E b c =
      (if xid = PING_XID \<or> xid = SET_WATCHES_XID then Some (None, c)
       else if xid = WATCHER_EVENT_XID \<or> xid = AUTH_XID then None
       else case zh_sent_requests c of
           [] \<Rightarrow> if zh_close_requested c then Some (Some ZINVALIDSTATE, c) else None
         | e # es \<Rightarrow> if xid = cl_xid e then None
             else do { (rc, c) \<leftarrow> handle_socket_error_msg E ZRUNTIMEINCONSISTENCY c; Some (Some rc, c) }))"
proof -
  let ?ia = "\<lparr>bs_len = int (length p) + 4, bs_off = 0, bs_buffer = Some p\<rparr>"
  have b: "bl_buffer b = Some p" "bl_curr_offset b = int (length p) + 4" using assms(2) by (simp_all add: arrived_def)
  have o: "create_buffer_iarchive (os_host E) (bl_buffer b) (bl_curr_offset b) = Some ?ia"
    using assms(1) by (simp only: create_buffer_iarchive_def b) (simp add: good_hostD)
  have ev: "reply (deserialize_WatcherEvent (os_host E)) WatcherEvent_zero
      (Some \<lparr>bs_len = int (length p) + 4, bs_off = 4, bs_buffer = Some p\<rparr>) = None" if "4 \<le> length p" "length p < 8"
    using that by (simp add: reply_def deserialize_WatcherEvent_def ia_record_def ia_start_record_def ia_field_def ia_deserialize_int_def
        mem_read_def to_size_def)
  show ?thesis
  proof (intro conjI impI)
    assume "length p < 4 \<or> 8 \<le> length p"
    then show "process_buffer E b c = None" using o short_header [OF assms(3), of "os_host E"] by (auto simp: process_buffer_def)
  next
    assume p: "p = be32 xid @ tail \<and> length p < 8"
    then have n: "4 \<le> length p" "length p < 8" "take 4 p = be32 xid" by (auto simp: length_be32)
    have same: "zh_sent_requests c = es \<Longrightarrow> c\<lparr>zh_sent_requests := es\<rparr> = c" for es by (cases c) simp
    show "process_buffer E b c = (if xid = PING_XID \<or> xid = SET_WATCHES_XID then Some (None, c)
       else if xid = WATCHER_EVENT_XID \<or> xid = AUTH_XID then None
       else case zh_sent_requests c of
           [] \<Rightarrow> if zh_close_requested c then Some (Some ZINVALIDSTATE, c) else None
         | e # es \<Rightarrow> if xid = cl_xid e then None
             else do { (rc, c) \<leftarrow> handle_socket_error_msg E ZRUNTIMEINCONSISTENCY c; Some (Some rc, c) })"
      using o ev n short_header [OF assms(3), of "os_host E"]
      by (auto simp: process_buffer_def answer_request_def ntohl_of_host32 Let_def same split: list.split)
  qed
qed

theorem short_replies_witness:
  "process_buffer test_os (arrived_reply ''0123456789AB'') test_client = None \<and>
   process_buffer test_os (arrived_reply (be32 (- 2) @ ''x'')) test_client = Some (None, test_client)"
  using short_replies [of test_os "''0123456789AB''" "arrived_reply ''0123456789AB''"]
    short_replies [of test_os "be32 (- 2) @ ''x''" "arrived_reply (be32 (- 2) @ ''x'')" test_client "- 2" "''x''"] works_host_test(1)
  by (simp add: arrived_def arrived_reply_def length_be32)

section \<open>What a received packet lets the deserialisers read\<close>

definition stays_within :: "(iarchive \<times> 'a \<Rightarrow> 'a ia_result) \<Rightarrow> iarchive \<Rightarrow> bytes \<Rightarrow> bytes \<Rightarrow> bool" where
  \<comment> \<open>from every offset of an archive over the block \<open>p\<close>, with the bytes \<open>j\<close> behind the block the deserialiser returns a code and ends
    in these bytes at the latest, and a run that ends in the block has read nothing else\<close>
  "stays_within g ia p j \<longleftrightarrow> (\<forall>off old. 0 \<le> off \<and> off \<le> bs_len ia \<longrightarrow>
     (\<exists>rc ia' v. g (ia\<lparr>bs_off := off, bs_buffer := Some (p @ j)\<rparr>, old) = Some (rc, ia', v) \<and> bs_off ia' \<le> int (length (p @ j)) \<and>
       (bs_off ia' \<le> int (length p) \<longrightarrow> g (ia\<lparr>bs_off := off\<rparr>, old) = Some (rc, ia'\<lparr>bs_buffer := Some p\<rparr>, v))))"

lemma safe_stays_within:
  assumes "ia_safe g" and "ia_local g" and "bs_buffer ia = Some p" and "bs_len ia \<le> int (length (p @ j))" and "bs_len ia \<le> INT_MAX"
  shows "stays_within g ia p j"
  unfolding stays_within_def
proof (intro allI impI)
  fix off old assume off: "0 \<le> off \<and> off \<le> bs_len ia"
  let ?ia = "ia\<lparr>bs_off := off, bs_buffer := Some (p @ j)\<rparr>"
  have "ia_wf ?ia" using assms(4,5) off by (simp add: ia_wf_def)
  then obtain rc ia' v where r: "g (?ia, old) = Some (rc, ia', v)" "ia_wf ia'" using assms(1) unfolding ia_safe_def by blast
  note l = ia_localD [OF assms(2) _ _ r(1), of p j]
  have "bs_off ia' \<le> bs_len ia'" "bs_len ia' = bs_len ia" using r(2) l(2) off by (simp_all add: ia_wf_def)
  moreover have "?ia\<lparr>bs_buffer := Some p\<rparr> = ia\<lparr>bs_off := off\<rparr>" using assms(3) by (cases ia) simp
  ultimately show "\<exists>rc ia' v. g (?ia, old) = Some (rc, ia', v) \<and> bs_off ia' \<le> int (length (p @ j)) \<and>
      (bs_off ia' \<le> int (length p) \<longrightarrow> g (ia\<lparr>bs_off := off\<rparr>, old) = Some (rc, ia'\<lparr>bs_buffer := Some p\<rparr>, v))"
    using r(1) l(4) off assms(4) by (intro exI conjI) auto
qed

text \<open>
  (C36) How far the bytes that a server sends can lead the deserialisers. Strings, buffers, the reply header, events and the replies with data,
  statistics or a path are decoded from any offset of a received packet to a code, whatever the bytes say, because every length is
  checked against what is left of the archive. On the archive that \<^verbatim>\<open>process_completions\<close> opens, which is as long as the packet, nothing outside
  the packet is read. On the one that \<^verbatim>\<open>zookeeper_process\<close> opens, at most the four bytes behind the packet are, and none of them when the
  decoding ends inside the packet. (For a buffer the refusal of a negative length other than -1 rests on an allocator that refuses
  half of the address space.)
\<close>

theorem packet_reads_bounded:
  assumes "good_host (os_host E)" and "sane_host (os_host E)" and "arrived p b" and "length j = 4"
  shows "\<exists>completions process. create_buffer_iarchive (os_host E) (bl_buffer b) (sint (bl_len b)) = Some completions \<and>
    create_buffer_iarchive (os_host E) (bl_buffer b) (bl_curr_offset b) = Some process \<and>
    (\<forall>(ia, j') \<in> {(completions, []), (process, j)}.
      stays_within (ia_deserialize_string (os_host E)) ia p j' \<and> stays_within (ia_deserialize_buffer (os_host E)) ia p j' \<and>
      stays_within (deserialize_ReplyHeader (os_host E)) ia p j' \<and> stays_within (deserialize_WatcherEvent (os_host E)) ia p j' \<and>
      stays_within (deserialize_GetDataResponse (os_host E)) ia p j' \<and> stays_within (deserialize_SetDataResponse (os_host E)) ia p j' \<and>
      stays_within (deserialize_CreateResponse (os_host E)) ia p j' \<and> stays_within (deserialize_Create2Response (os_host E)) ia p j')"
proof -
  let ?H = "os_host E" and ?ia = "\<lambda>n. \<lparr>bs_len = n, bs_off = 0, bs_buffer = Some p\<rparr>"
  have b: "bl_buffer b = Some p" "sint (bl_len b) = int (length p)" "bl_curr_offset b = int (length p) + 4" "int (length p) + 4 \<le> INT_MAX"
    using assms(3) by (simp_all add: arrived_def)
  have o: "create_buffer_iarchive ?H (bl_buffer b) (sint (bl_len b)) = Some (?ia (int (length p)))"
    "create_buffer_iarchive ?H (bl_buffer b) (bl_curr_offset b) = Some (?ia (int (length p) + 4))"
    using assms(1) by (simp_all only: create_buffer_iarchive_def b) (simp_all add: good_hostD)
  have w: "stays_within g (?ia (int (length p))) p [] \<and> stays_within g (?ia (int (length p) + 4)) p j" if "ia_safe g" "ia_local g"
    for g :: "iarchive \<times> 'c \<Rightarrow> 'c ia_result"
    using that b(4) assms(4) by (intro conjI safe_stays_within) simp_all
  note safe = ia_deserialize_string_safe [of ?H] ia_deserialize_buffer_safe [OF assms(2)] ReplyHeader_safe [of ?H] WatcherEvent_safe [of ?H]
    GetDataResponse_safe [OF assms(2)] SetDataResponse_safe [of ?H] CreateResponse_safe [of ?H] Create2Response_safe [of ?H]
  show ?thesis
    by (intro exI conjI, rule o(1), rule o(2)) (simp add: safe ia_locals w)
qed

definition lying_string :: bytes where
  \<comment> \<open>a packet of five bytes that announces a string of three\<close>
  "lying_string = be32 3 @ ''a''"

theorem packet_reads_bounded_witness:
  "\<exists>ia rc ia' s. create_buffer_iarchive (os_host test_os) (bl_buffer (arrived_reply lying_string)) (bl_curr_offset (arrived_reply lying_string)) = Some ia \<and>
     ia_deserialize_string (os_host test_os) (ia\<lparr>bs_off := 0, bs_buffer := Some (lying_string @ ''----'')\<rparr>, None) = Some (rc, ia', s) \<and>
     bs_off ia' \<le> 9"
proof -
  have "sane_host (os_host test_os)" by (simp add: test_os_def)
  moreover have "arrived lying_string (arrived_reply lying_string)" by (simp add: arrived_def arrived_reply_def lying_string_def length_be32)
  ultimately obtain ia where ia:
    "create_buffer_iarchive (os_host test_os) (bl_buffer (arrived_reply lying_string)) (bl_curr_offset (arrived_reply lying_string)) = Some ia"
    "stays_within (ia_deserialize_string (os_host test_os)) ia lying_string ''----''"
    using packet_reads_bounded [OF works_host_test(1), of lying_string "arrived_reply lying_string" "''----''"] by auto
  moreover have "0 \<le> bs_len ia" using ia(1) works_host_test(1)
    by (auto simp: create_buffer_iarchive_def arrived_reply_def split: if_splits)
  ultimately show ?thesis
    unfolding stays_within_def by (fastforce simp: lying_string_def length_be32)
qed


section \<open>The session\<close>

definition watch_frame :: "client \<Rightarrow> bytes" where
  \<comment> \<open>the message that sets the watches again, if there are any\<close>
  "watch_frame c = (if \<forall>t. watched_paths (get_table (zh_watchers c) t) = [] then []
     else frame (enc_RequestHeader \<lparr>RequestHeader_xid = SET_WATCHES_XID, RequestHeader_type = ZOO_SETWATCHES_OP\<rparr> @
       enc_SetWatches (watch_lists c)))"

lemma send_set_watches_frame:
  assumes "good_host (os_host E)" and "tables_wf (zh_watchers c)" and "\<forall>t. table_fits (get_table (zh_watchers c) t)"
    and "int (length (enc_SetWatches (watch_lists c))) + 8 \<le> OA_MAX"
  shows "\<exists>bs. send_set_watches E c = Some (ZOK, c\<lparr>zh_to_send := bs @ zh_to_send c\<rparr>) \<and> list_all is_packet bs \<and> pending bs = watch_frame c"
proof (cases "\<forall>t. watched_paths (get_table (zh_watchers c) t) = []")
  case True
  have "send_set_watches E c = Some (ZOK, c)" using send_set_watches_front [OF assms] unfolding if_P [OF True] .
  then show ?thesis using True by (intro exI [of _ "[]"]) (simp add: watch_frame_def)
next
  case False
  from send_set_watches_front [OF assms] obtain b where
    "send_set_watches E c = Some (ZOK, c\<lparr>zh_to_send := b # zh_to_send c\<rparr>)" "is_packet b"
    "unsent b = frame (enc_RequestHeader \<lparr>RequestHeader_xid = SET_WATCHES_XID, RequestHeader_type = ZOO_SETWATCHES_OP\<rparr> @
        enc_SetWatches (watch_lists c))" unfolding if_not_P [OF False] by blast
  then show ?thesis unfolding watch_frame_def if_not_P [OF False] by (intro exI [of _ "[b]"] conjI) simp_all
qed

definition session_of :: "prime_struct \<Rightarrow> client \<Rightarrow> client" where
  \<comment> \<open>the handle with the session that the server granted\<close>
  "session_of p c = c\<lparr>zh_primer_storage := p, zh_seen_rw_server_before :=
     (if pr_readOnly p = NUL then char_of (of_char (zh_seen_rw_server_before c) OR (1 :: nat)) else zh_seen_rw_server_before c),
     zh_recv_timeout := pr_timeOut p, zh_client_id := pr_sessionId p, zh_passwd := pr_passwd p,
     zh_state := (if pr_readOnly p \<noteq> NUL then ZOO_READONLY_STATE else ZOO_CONNECTED_STATE), zh_reconfig := False, zh_input_buffer := No_input\<rparr>"

definition known_session :: "client \<Rightarrow> i64" where
  "known_session c = (if zh_seen_rw_server_before c \<noteq> NUL then zh_client_id c else 0)"

text \<open>
  (C5) A handshake that the server accepts establishes its session: identifier, password, timeout and mode come from the reply, and
  the packets queued are, in this order, the authentication data, the watches to set again, and whatever was
  queued before. Every watcher and the handle's own are told the new state once, and no outstanding request is lost.
\<close>

theorem session_established:
  assumes "good_host (os_host E)" and "idle E c" and "tables_wf (zh_watchers c)" and "\<forall>t. table_fits (get_table (zh_watchers c) t)"
    and "int (length (enc_SetWatches (watch_lists c))) + 8 \<le> OA_MAX" and "list_all auth_sendable (zh_auth_h c)"
    and "bl_buffer (zh_primer_buffer c) = Some (enc_prime p)" and "length (pr_passwd p) = 16"
    and "known_session c = 0 \<or> known_session c = pr_sessionId p"
  shows "\<exists>bs wl. finish_handshake E c = Some (ZOK, (session_of p c)\<lparr>zh_to_send := bs @ zh_to_send c, w_calls := w_calls c @
      watch_calls SESSION_EVENT_DEF (if pr_readOnly p \<noteq> NUL then ZOO_READONLY_STATE else ZOO_CONNECTED_STATE) (Some []) wl\<rparr>) \<and>
    pending bs = concat (map auth_frame (rev (zh_auth_h c))) @ watch_frame c \<and> list_all is_packet bs \<and>
    distinct wl \<and> set wl = insert (zh_watcher c, zh_context c) (\<Union>t. all_watchers (get_table (zh_watchers c) t))"
proof -
  let ?st = "if pr_readOnly p \<noteq> NUL then ZOO_READONLY_STATE else ZOO_CONNECTED_STATE"
  define d where "d = c\<lparr>zh_primer_storage := p, zh_seen_rw_server_before :=
     (if pr_readOnly p = NUL then char_of (of_char (zh_seen_rw_server_before c) OR (1 :: nat)) else zh_seen_rw_server_before c),
     zh_recv_timeout := pr_timeOut p, zh_client_id := pr_sessionId p, zh_passwd := pr_passwd p, zh_state := ?st, zh_reconfig := False\<rparr>"
  have d: "zh_watchers d = zh_watchers c" "watch_lists d = watch_lists c" "zh_auth_h d = zh_auth_h c" "watch_frame d = watch_frame c"
    "zh_to_send d = zh_to_send c"
    by (simp_all add: d_def watch_lists_def watch_frame_def)
  obtain ws where ws: "send_set_watches E d = Some (ZOK, d\<lparr>zh_to_send := ws @ zh_to_send c\<rparr>)" "list_all is_packet ws" "pending ws = watch_frame c"
    using send_set_watches_frame [OF assms(1), of d] assms(3-5) d by auto
  define e where "e = d\<lparr>zh_to_send := ws @ zh_to_send c\<rparr>"
  obtain as where as: "send_auth_info E e = Some (ZOK, e\<lparr>zh_to_send := as @ zh_to_send e\<rparr>)" "list_all is_packet as"
    "pending as = concat (map auth_frame (rev (zh_auth_h c)))"
    using send_auth_info_front [OF assms(1), of e] assms(6) d(3) by (auto simp: e_def)
  define f where "f = e\<lparr>zh_to_send := as @ zh_to_send e, zh_input_buffer := No_input\<rparr>"
  have f: "zh_watchers f = zh_watchers c" "zh_state f = ?st" "zh_watcher f = zh_watcher c" "zh_context f = zh_context c"
    "\<not> os_threaded E" "zh_outstanding_sync f = 0" "zh_completions_to_process f = []"
    using assms(2) by (simp_all add: f_def e_def d_def idle_def)
  have "INT_MIN \<le> ?st" "?st \<le> INT_MAX" by simp_all
  with queue_session_event_ok [OF assms(1), of f ?st] assms(3) f obtain x wl where
    wl: "distinct wl" "set wl = insert (zh_watcher c, zh_context c) (\<Union>t. all_watchers (get_table (zh_watchers c) t))"
    and q: "queue_session_event E ?st f = map_option (\<lambda>c'. (ZOK, c')) (run_async E (queue_completion x f))"
    and x: "\<And>d. process_one E x d = Some (d\<lparr>w_calls := w_calls d @ watch_calls SESSION_EVENT_DEF ?st (Some []) wl\<rparr>)" by auto
  have "run_async E (queue_completion x f) = Some (f\<lparr>w_calls := w_calls f @ watch_calls SESSION_EVENT_DEF ?st (Some []) wl\<rparr>)"
    using run_async_answers [of E "queue_completion x f"] answers_watch [OF x answers_Nil] f(5-7) by (simp add: queue_completion_def)
  moreover have "zh_state e = ?st" by (simp add: e_def d_def)
  ultimately have ev: "queue_session_event E (zh_state e) f =
      Some (ZOK, f\<lparr>w_calls := w_calls f @ watch_calls SESSION_EVENT_DEF ?st (Some []) wl\<rparr>)" using q by simp
  have ok: "\<not> (known_session c \<noteq> 0 \<and> known_session c \<noteq> pr_sessionId p)" using assms(9) by blast
  have "finish_handshake E c = Some (ZOK, f\<lparr>w_calls := w_calls f @ watch_calls SESSION_EVENT_DEF ?st (Some []) wl, zh_input_buffer := No_input\<rparr>)"
    unfolding finish_handshake_def assms(7) deserialize_prime_response_layout [OF assms(8)] bind.bind_lunit Let_def
      known_session_def [symmetric] if_not_P [OF ok]
    using ws(1) as(1) ev by (simp add: d_def [symmetric] e_def [symmetric] f_def [symmetric] split del: if_split)
  moreover have "f\<lparr>w_calls := w_calls f @ watch_calls SESSION_EVENT_DEF ?st (Some []) wl, zh_input_buffer := No_input\<rparr> =
      (session_of p c)\<lparr>zh_to_send := (as @ ws) @ zh_to_send c, w_calls := w_calls c @ watch_calls SESSION_EVENT_DEF ?st (Some []) wl\<rparr>"
    by (simp add: session_of_def f_def e_def d_def)
  ultimately show ?thesis
    by (intro exI [of _ "as @ ws"] exI [of _ wl] conjI wl) (simp_all only:, simp_all add: as ws)
qed


definition primed :: "prime_struct \<Rightarrow> client \<Rightarrow> client" where
  "primed p c = c\<lparr>zh_primer_buffer := \<lparr>bl_buffer = Some (enc_prime p), bl_len = 41, bl_curr_offset = 45\<rparr>\<rparr>"

theorem session_established_witness:
  "\<exists>c'. finish_handshake test_os (primed sample_prime test_client) = Some (ZOK, c') \<and> zh_client_id c' = 77 \<and>
     zh_state c' = ZOO_CONNECTED_STATE"
proof -
  let ?c = "primed sample_prime test_client"
  have w: "zh_watchers ?c = no_watchers" "idle test_os ?c" "known_session ?c = 0" "zh_auth_h ?c = []"
    by (simp_all add: primed_def idle_def known_session_def test_os_def) (simp add: test_client_def)
  have "bl_buffer (zh_primer_buffer ?c) = Some (enc_prime sample_prime)" by (simp add: primed_def)
  from session_established [of test_os ?c, OF _ w(2) _ _ _ _ this] works_host_test(1) no_watches_fit [OF w(1)] no_watchers_wf w
  show ?thesis by (auto simp: sample_prime_def session_of_def)
qed

text \<open>
  (C6) A handshake that grants another session than the one the client had ends the session for good: the call reports
  \<^verbatim>\<open>ZSESSIONEXPIRED\<close>, every outstanding request is answered with it in order, all watchers are told, and from then on
  the event loop refuses to work on the handle.
\<close>

theorem session_expired:
  assumes "good_host (os_host E)" and "idle E c" and "tables_wf (zh_watchers c)" and "answerable E c" and "av_wf (zh_addrs c)"
    and "bl_buffer (zh_primer_buffer c) = Some (enc_prime p)" and "length (pr_passwd p) = 16"
    and "known_session c \<noteq> 0" and "known_session c \<noteq> pr_sessionId p"
  shows "\<exists>c' wl. finish_handshake E c = Some (ZSESSIONEXPIRED, c') \<and> zh_state c' = ZOO_EXPIRED_SESSION_STATE \<and>
    set wl = insert (zh_watcher c, zh_context c) (\<Union>t. all_watchers (get_table (zh_watchers c) t)) \<and>
    w_calls c' = w_calls c @ watch_calls SESSION_EVENT_DEF ZOO_EXPIRED_SESSION_STATE (Some []) wl @
      auth_calls ZSESSIONEXPIRED (zh_auth_h c) @ failures_of ZSESSIONEXPIRED c \<and> zh_sent_requests c' = [] \<and>
    (\<forall>write read. w_null c' \<or> zookeeper_process E write read c' = Some (ZINVALIDSTATE, c'))"
proof -
  define d where "d = c\<lparr>zh_primer_storage := p, zh_seen_rw_server_before :=
     (if pr_readOnly p = NUL then char_of (of_char (zh_seen_rw_server_before c) OR (1 :: nat)) else zh_seen_rw_server_before c),
     zh_state := ZOO_EXPIRED_SESSION_STATE\<rparr>"
  have d: "answerable E d" "tables_wf (zh_watchers d)" "zh_completions_to_process d = []" "\<not> os_threaded E" "zh_outstanding_sync d = 0"
    "av_wf (zh_addrs d)" "zh_watchers d = zh_watchers c" "zh_watcher d = zh_watcher c" "zh_context d = zh_context c"
    using assms(2-5) by (simp_all add: d_def answerable_def sync_entry_def idle_def)
  have e: "loss_calls d wl = watch_calls SESSION_EVENT_DEF ZOO_EXPIRED_SESSION_STATE (Some []) wl" "zh_auth_h d = zh_auth_h c"
    "failures_of ZSESSIONEXPIRED d = failures_of ZSESSIONEXPIRED c" "w_calls d = w_calls c" for wl
    by (simp_all add: d_def loss_calls_def reports_def event_state_def failures_of_def)
  have "INT_MIN \<le> zh_state d" by (simp add: d_def)
  from handle_error_single [OF assms(1) d(1) _ _ _ d(2) this d(3-6), of ZSESSIONEXPIRED] obtain wl f where
    f: "set wl = insert (zh_watcher c, zh_context c) (\<Union>t. all_watchers (get_table (zh_watchers c) t))"
      "handle_error E ZSESSIONEXPIRED d = Some f"
      "w_calls f = w_calls d @ loss_calls d wl @ auth_calls ZSESSIONEXPIRED (zh_auth_h d) @ failures_of ZSESSIONEXPIRED d"
      "zh_sent_requests f = []" "zh_state f = (if zh_state d < 0 then zh_state d else 0)"
    using d(7-9) by auto
  have ok: "known_session c \<noteq> 0 \<and> known_session c \<noteq> pr_sessionId p" using assms(8,9) by blast
  have h: "finish_handshake E c = Some (ZSESSIONEXPIRED, f)"
    unfolding finish_handshake_def assms(6) deserialize_prime_response_layout [OF assms(7)] bind.bind_lunit Let_def
      known_session_def [symmetric] if_P [OF ok] handle_socket_error_msg_def
    using f(2) by (simp add: d_def)
  have st: "zh_state f = ZOO_EXPIRED_SESSION_STATE" using f(5) by (simp add: d_def)
  then have "\<forall>write read. w_null f \<or> zookeeper_process E write read f = Some (ZINVALIDSTATE, f)"
    by (simp add: zookeeper_process_def is_unrecoverable_def)
  with h st f(1,3,4) e show ?thesis by (intro exI conjI) (assumption, simp_all)
qed

theorem session_expired_witness:
  "\<exists>c'. finish_handshake test_os (primed sample_prime (test_client\<lparr>zh_seen_rw_server_before := CHR 0x01, zh_client_id := 5\<rparr>)) =
      Some (ZSESSIONEXPIRED, c') \<and> zh_state c' = ZOO_EXPIRED_SESSION_STATE"
proof -
  let ?c = "primed sample_prime (test_client\<lparr>zh_seen_rw_server_before := CHR 0x01, zh_client_id := 5\<rparr>)"
  have w: "zh_watchers ?c = no_watchers" "idle test_os ?c" "known_session ?c = 5" "answerable test_os ?c"
    by (simp_all add: primed_def idle_def known_session_def test_os_def answerable_def)
  have a: "av_wf (zh_addrs ?c)" "bl_buffer (zh_primer_buffer ?c) = Some (enc_prime sample_prime)"
    by (simp_all add: primed_def) (simp add: test_client_def)
  from session_expired [of test_os ?c, OF _ w(2) _ w(4) a] works_host_test(1) no_watchers_wf w
  show ?thesis by (auto simp: sample_prime_def)
qed

end
