(* ===== verification/Multi.thy ===== *)
theory Multi
  imports Events
begin

text \<open>
  The two asynchronous calls that are not of the common shape: \<^verbatim>\<open>zoo_amulti\<close>, which sends several operations as one request and
  keeps one completion entry per operation inside the entry of the request, and the removal of watches, which can also be done without
  the server. The lemmas say what a multi request puts on the wire and what its reply does to the caller's results.
\<close>

section \<open>Operations\<close>

datatype zoo_op_union =
  \<comment> \<open>the member \<^verbatim>\<open>ttl\<close> of \<^verbatim>\<open>create_op\<close>, which nothing reads, is left out\<close>
    Create_op (cr_path: cstr) (cr_data: cbuffer) (cr_acl: "ACL_vector option") (cr_flags: i32) (cr_buf: "bytes option") (cr_buflen: int)
  | Delete_op cstr i32
  | Set_op cstr cbuffer i32 "Stat option"
  | Check_op cstr i32

record zoo_op =
  op_type :: i32
  op_u :: zoo_op_union

definition zoo_create_op_init ::
  "cstr \<Rightarrow> cbuffer \<Rightarrow> ACL_vector option \<Rightarrow> i32 \<Rightarrow> bytes option \<Rightarrow> int \<Rightarrow> zoo_op" where
  "zoo_create_op_init path value acl mode path_buffer path_buffer_len =
     \<lparr>op_type = get_create_op_type (sint mode) ZOO_CREATE_OP, op_u = Create_op path value acl mode path_buffer path_buffer_len\<rparr>"

definition zoo_create2_op_init ::
  "cstr \<Rightarrow> cbuffer \<Rightarrow> ACL_vector option \<Rightarrow> i32 \<Rightarrow> bytes option \<Rightarrow> int \<Rightarrow> zoo_op" where
  "zoo_create2_op_init path value acl mode path_buffer path_buffer_len =
     \<lparr>op_type = get_create_op_type (sint mode) ZOO_CREATE2_OP, op_u = Create_op path value acl mode path_buffer path_buffer_len\<rparr>"

definition zoo_delete_op_init :: "cstr \<Rightarrow> i32 \<Rightarrow> zoo_op" where
  "zoo_delete_op_init path version = \<lparr>op_type = ZOO_DELETE_OP, op_u = Delete_op path version\<rparr>"

definition zoo_set_op_init :: "cstr \<Rightarrow> cbuffer \<Rightarrow> i32 \<Rightarrow> Stat option \<Rightarrow> zoo_op" where
  "zoo_set_op_init path buffer version stat = \<lparr>op_type = ZOO_SETDATA_OP, op_u = Set_op path buffer version stat\<rparr>"

definition zoo_check_op_init :: "cstr \<Rightarrow> i32 \<Rightarrow> zoo_op" where
  "zoo_check_op_init path version = \<lparr>op_type = ZOO_CHECK_OP, op_u = Check_op path version\<rparr>"

section \<open>A multi request\<close>

definition op_request :: "client \<Rightarrow> (int \<times> (oarchive \<Rightarrow> oa_result)) option \<Rightarrow> int \<times> oarchive \<Rightarrow> oa_result" where
  \<comment> \<open>initialise and serialise the request of an operation. Its path is freed afterwards, which is undefined when an earlier failure has
    left it unset, and when the failed initialisation has freed it already\<close>
  "op_request c init r = (case r of (rc, oa) \<Rightarrow> do {
     _ \<leftarrow> c_assert (0 \<le> rc);
     (rc, ser) \<leftarrow> init;
     if rc < 0 then do { _ \<leftarrow> c_assert (zh_chroot c = None); Some (rc, oa) } else ser oa
   })"

definition set_result :: "nat \<Rightarrow> (zoo_op_result \<Rightarrow> zoo_op_result) \<Rightarrow> client \<Rightarrow> client option" where
  "set_result a f c = do { r \<leftarrow> w_results c a; Some (c\<lparr>w_results := (w_results c)(a \<mapsto> f r)\<rparr>) }"

definition multi_op ::
  "os \<Rightarrow> i32 \<Rightarrow> zoo_op \<Rightarrow> nat \<Rightarrow> int \<times> oarchive \<Rightarrow> client \<Rightarrow>
   ((int \<times> oarchive) \<times> completion_type \<times> callback \<times> client) option option" where
  \<comment> \<open>the switch of \<^verbatim>\<open>zoo_amulti\<close>: the inner \<open>None\<close> is the default branch; reading the member of the union that is not set is undefined\<close>
  "multi_op E xid op res r c =
     (let H = os_host E; t = op_type op in
      if t = ZOO_CREATE_CONTAINER_OP \<or> t = ZOO_CREATE_OP then
        (case op_u op of
           Create_op path data acl flags buf buflen \<Rightarrow> do {
             r \<leftarrow> op_request c (do { (rc, req) \<leftarrow> CreateRequest_init E c path data acl flags; Some (rc, serialize_CreateRequest H req) }) r;
             c \<leftarrow> set_result res (\<lambda>x. x\<lparr>opr_value := buf, opr_valuelen := buflen\<rparr>) c;
             Some (Some (r, COMPLETION_STRING, op_result_string_fn, c))
           }
         | _ \<Rightarrow> None)
      else if t = ZOO_DELETE_OP then
        (case op_u op of
           Delete_op path version \<Rightarrow> do {
             r \<leftarrow> op_request c (do { (rc, req) \<leftarrow> DeleteRequest_init E c path version; Some (rc, serialize_DeleteRequest H req) }) r;
             Some (Some (r, COMPLETION_VOID, op_result_void_fn, c))
           }
         | _ \<Rightarrow> None)
      else if t = ZOO_SETDATA_OP then
        (case op_u op of
           Set_op path data version stat \<Rightarrow> do {
             r \<leftarrow> op_request c (do { (rc, req) \<leftarrow> SetDataRequest_init E c path data version; Some (rc, serialize_SetDataRequest H req) }) r;
             c \<leftarrow> set_result res (\<lambda>x. x\<lparr>opr_stat := stat\<rparr>) c;
             Some (Some (r, COMPLETION_STAT, op_result_stat_fn, c))
           }
         | _ \<Rightarrow> None)
      else if t = ZOO_CHECK_OP then
        (case op_u op of
           Check_op path version \<Rightarrow> do {
             r \<leftarrow> op_request c (do { (rc, req) \<leftarrow> CheckVersionRequest_init E c path version; Some (rc, serialize_CheckVersionRequest H req) }) r;
             Some (Some (r, COMPLETION_VOID, op_result_void_fn, c))
           }
         | _ \<Rightarrow> None)
      else Some None)"

definition multi_header :: "host \<Rightarrow> i32 \<Rightarrow> i32 \<Rightarrow> i32 \<Rightarrow> int \<times> oarchive \<Rightarrow> oa_result" where
  "multi_header H type done err r = (case r of (rc, oa) \<Rightarrow>
     if rc < 0 then Some (rc, oa)
     else serialize_MultiHeader H \<lparr>MultiHeader_type = type, MultiHeader_done = done, MultiHeader_err = err\<rparr> oa)"

fun multi_ops ::
  "os \<Rightarrow> i32 \<Rightarrow> zoo_op list \<Rightarrow> nat \<Rightarrow> int \<times> oarchive \<Rightarrow> completion_list list \<Rightarrow> client \<Rightarrow>
   (int option \<times> (int \<times> oarchive) \<times> completion_list list \<times> client) option" where
  \<comment> \<open>the loop of \<^verbatim>\<open>zoo_amulti\<close>; \<open>Some rc\<close> returns with that code, and an entry that could not be allocated is written through\<close>
  "multi_ops E xid [] res r clist c = Some (None, r, clist, c)"
| "multi_ops E xid (op # ops) res r clist c = do {
     r \<leftarrow> multi_header (os_host E) (op_type op) 0 (- 1) r;
     m \<leftarrow> multi_op E xid op res r c;
     case m of
       None \<Rightarrow> Some (Some ZUNIMPLEMENTED, r, clist, c)
     | Some (r, ct, f, c) \<Rightarrow> do {
         entry \<leftarrow> create_completion_entry E xid ct f res None None;
         e \<leftarrow> entry;
         multi_ops E xid ops (Suc res) r (clist @ [e]) c
       }
   }"

definition zoo_amulti :: "os \<Rightarrow> zoo_op list \<Rightarrow> nat \<Rightarrow> callback \<Rightarrow> nat \<Rightarrow> client \<Rightarrow> (int \<times> client) option" where
  \<comment> \<open>\<open>results\<close> is the address of the first result; a null handle is used without a check\<close>
  "zoo_amulti E ops results completion data c = do {
     _ \<leftarrow> c_assert (\<not> w_null c);
     (xid, c) \<leftarrow> get_xid E c;
     oa \<leftarrow> create_buffer_oarchive (os_host E);
     r \<leftarrow> serialize_RequestHeader (os_host E) \<lparr>RequestHeader_xid = xid, RequestHeader_type = ZOO_MULTI_OP\<rparr> oa;
     (stop, r, clist, c) \<leftarrow> multi_ops E xid ops results r [] c;
     case stop of
       Some rc \<Rightarrow> Some (rc, c)
     | None \<Rightarrow> do {
         r \<leftarrow> multi_header (os_host E) (- 1) 1 (- 1) r;
         (rc, c) \<leftarrow> enqueue E r (add_multi_completion E xid completion data (Some clist)) c;
         (ignored, c) \<leftarrow> adaptor_send_queue E 0 c;
         Some (if rc < 0 then ZMARSHALLINGERROR else ZOK, c)
       }
   }"

section \<open>Removing watches\<close>

definition notify_sync_completion :: "nat \<Rightarrow> client \<Rightarrow> client option" where
  "notify_sync_completion sc c = do {
     s \<leftarrow> w_syncs c sc;
     Some (c\<lparr>w_syncs := (w_syncs c)(sc \<mapsto> s\<lparr>sc_complete := True\<rparr>)\<rparr>)
   }"

definition remove_watches_request :: "os \<Rightarrow> i32 \<Rightarrow> bool \<Rightarrow> bytes \<Rightarrow> int \<Rightarrow> oa_result" where
  "remove_watches_request E xid all path wtype =
     (let h = \<lparr>RequestHeader_xid = xid, RequestHeader_type = (if all then ZOO_REMOVE_WATCHES else ZOO_CHECK_WATCHES)\<rparr> in
      request_bytes (os_host E) h
        (if all then serialize_RemoveWatchesRequest (os_host E) \<lparr>RemoveWatchesRequest_path = Some path, RemoveWatchesRequest_type = word_of_int wtype\<rparr>
         else serialize_CheckWatchesRequest (os_host E) \<lparr>CheckWatchesRequest_path = Some path, CheckWatchesRequest_type = word_of_int wtype\<rparr>))"

definition aremove_watches ::
  "os \<Rightarrow> cstr \<Rightarrow> int \<Rightarrow> nat \<Rightarrow> nat \<Rightarrow> bool \<Rightarrow> callback \<Rightarrow> nat \<Rightarrow> bool \<Rightarrow> client \<Rightarrow> (int \<times> client) option" where
  \<comment> \<open>the threaded library takes the caller's data for a synchronous completion when the removal is local\<close>
  "aremove_watches E path wtype watcher watcherCtx local completion data all c = do {
     server_path \<leftarrow> prepend_string (os_host E) (handle_chroot c) path;
     (xid, c) \<leftarrow> get_xid E c;
     valid \<leftarrow> (if w_null c then Some False else isValidPath server_path 0);
     if \<not> valid then Some (ZBADARGUMENTS, c)
     else if \<not> local \<and> is_unrecoverable c \<noteq> 0 then Some (ZINVALIDSTATE, c)
     else do {
       p \<leftarrow> server_path;
       if \<not> pathHasWatcher (zh_watchers c) p wtype watcher watcherCtx then Some (ZNOWATCHER, c)
       else if local then do {
         let c = c\<lparr>zh_watchers := removeWatchers (zh_watchers c) p wtype watcher watcherCtx\<rparr>;
         c \<leftarrow> (if os_threaded E then notify_sync_completion data c else Some c);
         Some (ZOK, c)
       }
       else do {
         r \<leftarrow> remove_watches_request E xid all p wtype;
         if fst r < 0 then Some (fst r, c)
         else do {
           wdo \<leftarrow> create_watcher_deregistration (os_host E) (Some p) watcher watcherCtx wtype;
           if wdo = None then Some (ZSYSTEMERROR, c)
           else do {
             (rc, c) \<leftarrow> enqueue E r (add_completion_deregistration E xid COMPLETION_VOID completion data False wdo None) c;
             (ignored, c) \<leftarrow> adaptor_send_queue E 0 c;
             Some (if rc < 0 then ZMARSHALLINGERROR else ZOK, c)
           }
         }
       }
     }
   }"

definition zoo_aremove_watches ::
  "os \<Rightarrow> cstr \<Rightarrow> int \<Rightarrow> nat \<Rightarrow> nat \<Rightarrow> bool \<Rightarrow> callback \<Rightarrow> nat \<Rightarrow> client \<Rightarrow> (int \<times> client) option" where
  "zoo_aremove_watches E path wtype watcher watcherCtx local completion data c =
     aremove_watches E path wtype watcher watcherCtx local completion data False c"

definition zoo_aremove_all_watches ::
  "os \<Rightarrow> cstr \<Rightarrow> int \<Rightarrow> bool \<Rightarrow> callback \<Rightarrow> nat \<Rightarrow> client \<Rightarrow> (int \<times> client) option" where
  "zoo_aremove_all_watches E path wtype local completion data c =
     aremove_watches E path wtype 0 0 local completion data True c"


section \<open>What a multi request sends\<close>

definition path_ok :: "cstr \<Rightarrow> int \<Rightarrow> cstr \<Rightarrow> bool" where
  "path_ok chroot mode path \<longleftrightarrow> (\<exists>p. path = Some p \<and> path_fits chroot p \<and> valid_path mode (server_path chroot p))"

fun op_ok :: "cstr \<Rightarrow> i32 \<Rightarrow> zoo_op_union \<Rightarrow> bool" where
  \<comment> \<open>the type goes with the member of the union, and what it asks for can be sent\<close>
  "op_ok chroot t (Create_op path data acl flags buf buflen) \<longleftrightarrow> (t = ZOO_CREATE_OP \<or> t = ZOO_CREATE_CONTAINER_OP) \<and>
     path_ok chroot (sint flags) path \<and> cbuffer_sendable data \<and> ACL_vector_sendable (acl_or_empty acl)"
| "op_ok chroot t (Delete_op path version) \<longleftrightarrow> t = ZOO_DELETE_OP \<and> path_ok chroot 0 path"
| "op_ok chroot t (Set_op path data version stat) \<longleftrightarrow> t = ZOO_SETDATA_OP \<and> path_ok chroot 0 path \<and> cbuffer_sendable data"
| "op_ok chroot t (Check_op path version) \<longleftrightarrow> t = ZOO_CHECK_OP \<and> path_ok chroot 0 path"

definition on_server :: "cstr \<Rightarrow> cstr \<Rightarrow> cstr" where
  "on_server chroot path = map_option (server_path chroot) path"

fun enc_op :: "cstr \<Rightarrow> zoo_op_union \<Rightarrow> bytes" where
  "enc_op chroot (Create_op path data acl flags buf buflen) = enc_CreateRequest \<lparr>CreateRequest_path = on_server chroot path,
     CreateRequest_data = data, CreateRequest_acl = acl_or_empty acl, CreateRequest_flags = flags\<rparr>"
| "enc_op chroot (Delete_op path version) =
     enc_DeleteRequest \<lparr>DeleteRequest_path = on_server chroot path, DeleteRequest_version = version\<rparr>"
| "enc_op chroot (Set_op path data version stat) = enc_SetDataRequest \<lparr>SetDataRequest_path = on_server chroot path,
     SetDataRequest_data = data, SetDataRequest_version = version\<rparr>"
| "enc_op chroot (Check_op path version) =
     enc_CheckVersionRequest \<lparr>CheckVersionRequest_path = on_server chroot path, CheckVersionRequest_version = version\<rparr>"

fun op_ct :: "zoo_op_union \<Rightarrow> completion_type" where
  "op_ct (Create_op _ _ _ _ _ _) = COMPLETION_STRING"
| "op_ct (Set_op _ _ _ _) = COMPLETION_STAT"
| "op_ct _ = COMPLETION_VOID"

fun op_fn :: "zoo_op_union \<Rightarrow> callback" where
  "op_fn (Create_op _ _ _ _ _ _) = op_result_string_fn"
| "op_fn (Set_op _ _ _ _) = op_result_stat_fn"
| "op_fn _ = op_result_void_fn"

fun prepared :: "zoo_op_union \<Rightarrow> zoo_op_result \<Rightarrow> zoo_op_result" where
  \<comment> \<open>the result with the caller's memory for the answer\<close>
  "prepared (Create_op _ _ _ _ buf buflen) r = r\<lparr>opr_value := buf, opr_valuelen := buflen\<rparr>"
| "prepared (Set_op _ _ _ stat) r = r\<lparr>opr_stat := stat\<rparr>"
| "prepared _ r = r"

definition prepare :: "nat \<Rightarrow> zoo_op_union \<Rightarrow> client \<Rightarrow> client" where
  "prepare a u c = c\<lparr>w_results := (w_results c)(a := map_option (prepared u) (w_results c a))\<rparr>"

lemma prepare_nothing [simp]:
  "prepare a (Delete_op path version) c = c" "prepare a (Check_op path version) c = c"
proof -
  have "prepared (Delete_op path version) = (\<lambda>r. r)" "prepared (Check_op path version) = (\<lambda>r. r)" by (rule ext, simp)+
  then show "prepare a (Delete_op path version) c = c" "prepare a (Check_op path version) c = c"
    by (simp_all only: prepare_def option.map_ident fun_upd_triv) simp_all
qed

lemma Request_path_init_ok:
  assumes "good_host (os_host E)" and "\<not> w_null c" and "0 \<le> zh_state c" and "path_ok (zh_chroot c) mode path"
  shows "Request_path_init E c mode path = Some (ZOK, on_server (zh_chroot c) path)"
proof -
  obtain p where p: "path = Some p" "path_fits (zh_chroot c) p" "valid_path mode (server_path (zh_chroot c) p)"
    using assms(4) by (auto simp: path_ok_def)
  then show ?thesis
    using assms(1-3) prepend_server_path [OF assms(1) p(2)]
    by (simp add: Request_path_init_def handle_chroot_def isValidPath_iff path_fits_def is_unrecoverable_def on_server_def)
qed

lemma op_request_ok:
  assumes "oa_writes ser bs" and "oa_wf oa" and "bs_off oa + int (length bs) \<le> OA_MAX"
  shows "\<exists>oa'. op_request c (Some (ZOK, ser)) (0, oa) = Some (0, oa') \<and> oa_wf oa' \<and> oa_bytes oa' = oa_bytes oa @ bs"
  using oa_writesD [OF assms] by (simp add: op_request_def)

lemma multi_op_ok:
  assumes "good_host (os_host E)" and "\<not> w_null c" and "0 \<le> zh_state c" and "op_ok (zh_chroot c) (op_type op) (op_u op)"
    and "w_results c a \<noteq> None" and "oa_wf oa" and "bs_off oa + int (length (enc_op (zh_chroot c) (op_u op))) \<le> OA_MAX"
  shows "\<exists>oa'. multi_op E xid op a (0, oa) c = Some (Some ((0, oa'), op_ct (op_u op), op_fn (op_u op), prepare a (op_u op) c)) \<and>
    oa_wf oa' \<and> oa_bytes oa' = oa_bytes oa @ enc_op (zh_chroot c) (op_u op)"
proof (cases "op_u op")
  case (Create_op path data acl flags buf buflen)
  let ?req = "\<lparr>CreateRequest_path = on_server (zh_chroot c) path, CreateRequest_data = data, CreateRequest_acl = acl_or_empty acl,
    CreateRequest_flags = flags\<rparr>"
  have ok: "op_type op = ZOO_CREATE_OP \<or> op_type op = ZOO_CREATE_CONTAINER_OP" "path_ok (zh_chroot c) (sint flags) path"
    "cbuffer_sendable data" "ACL_vector_sendable (acl_or_empty acl)" using assms(4) Create_op by simp_all
  have w: "oa_writes (serialize_CreateRequest (os_host E) ?req) (enc_op (zh_chroot c) (op_u op))"
    using ok CreateRequest_writes [OF assms(1), of ?req] Create_op by simp
  obtain oa' where "op_request c (Some (ZOK, serialize_CreateRequest (os_host E) ?req)) (0, oa) = Some (0, oa')" "oa_wf oa'"
    "oa_bytes oa' = oa_bytes oa @ enc_op (zh_chroot c) (op_u op)" using op_request_ok [OF w assms(6,7)] by blast
  with ok(1) assms(5) show ?thesis
    by (auto simp: multi_op_def Create_op CreateRequest_init_def Request_path_init_ok [OF assms(1-3) ok(2)] set_result_def prepare_def Let_def)
next
  case (Delete_op path version)
  let ?req = "\<lparr>DeleteRequest_path = on_server (zh_chroot c) path, DeleteRequest_version = version\<rparr>"
  have ok: "op_type op = ZOO_DELETE_OP" "path_ok (zh_chroot c) 0 path" using assms(4) Delete_op by simp_all
  have w: "oa_writes (serialize_DeleteRequest (os_host E) ?req) (enc_op (zh_chroot c) (op_u op))"
    using DeleteRequest_writes [OF assms(1), of ?req] Delete_op by simp
  obtain oa' where "op_request c (Some (ZOK, serialize_DeleteRequest (os_host E) ?req)) (0, oa) = Some (0, oa')" "oa_wf oa'"
    "oa_bytes oa' = oa_bytes oa @ enc_op (zh_chroot c) (op_u op)" using op_request_ok [OF w assms(6,7)] by blast
  with ok(1) show ?thesis
    by (auto simp: multi_op_def Delete_op DeleteRequest_init_def Request_path_init_ok [OF assms(1-3) ok(2)] Let_def)
next
  case (Set_op path data version stat)
  let ?req = "\<lparr>SetDataRequest_path = on_server (zh_chroot c) path, SetDataRequest_data = data, SetDataRequest_version = version\<rparr>"
  have ok: "op_type op = ZOO_SETDATA_OP" "path_ok (zh_chroot c) 0 path" "cbuffer_sendable data" using assms(4) Set_op by simp_all
  have w: "oa_writes (serialize_SetDataRequest (os_host E) ?req) (enc_op (zh_chroot c) (op_u op))"
    using ok SetDataRequest_writes [OF assms(1), of ?req] Set_op by simp
  obtain oa' where "op_request c (Some (ZOK, serialize_SetDataRequest (os_host E) ?req)) (0, oa) = Some (0, oa')" "oa_wf oa'"
    "oa_bytes oa' = oa_bytes oa @ enc_op (zh_chroot c) (op_u op)" using op_request_ok [OF w assms(6,7)] by blast
  with ok(1) assms(5) show ?thesis
    by (auto simp: multi_op_def Set_op SetDataRequest_init_def Request_path_init_ok [OF assms(1-3) ok(2)] set_result_def prepare_def Let_def)
next
  case (Check_op path version)
  let ?req = "\<lparr>CheckVersionRequest_path = on_server (zh_chroot c) path, CheckVersionRequest_version = version\<rparr>"
  have ok: "op_type op = ZOO_CHECK_OP" "path_ok (zh_chroot c) 0 path" using assms(4) Check_op by simp_all
  have w: "oa_writes (serialize_CheckVersionRequest (os_host E) ?req) (enc_op (zh_chroot c) (op_u op))"
    using CheckVersionRequest_writes [OF assms(1), of ?req] Check_op by simp
  obtain oa' where "op_request c (Some (ZOK, serialize_CheckVersionRequest (os_host E) ?req)) (0, oa) = Some (0, oa')" "oa_wf oa'"
    "oa_bytes oa' = oa_bytes oa @ enc_op (zh_chroot c) (op_u op)" using op_request_ok [OF w assms(6,7)] by blast
  with ok(1) show ?thesis
    by (auto simp: multi_op_def Check_op CheckVersionRequest_init_def Request_path_init_ok [OF assms(1-3) ok(2)] Let_def)
qed

fun op_entries :: "i32 \<Rightarrow> nat \<Rightarrow> zoo_op list \<Rightarrow> completion_list list" where
  \<comment> \<open>the entries of the operations; the data of each is the address of its result\<close>
  "op_entries xid a [] = []"
| "op_entries xid a (op # ops) =
     Completion xid (op_ct (op_u op)) (op_fn (op_u op)) None [] a None None None # op_entries xid (Suc a) ops"

fun upd_from :: "nat \<Rightarrow> ('a \<Rightarrow> 'a) list \<Rightarrow> (nat \<Rightarrow> 'a option) \<Rightarrow> nat \<Rightarrow> 'a option" where
  \<comment> \<open>update the cells from this address on, one after another\<close>
  "upd_from a [] m = m"
| "upd_from a (g # gs) m = upd_from (Suc a) gs (m(a := map_option g (m a)))"

definition prepare_all :: "nat \<Rightarrow> zoo_op list \<Rightarrow> client \<Rightarrow> client" where
  "prepare_all a ops c = c\<lparr>w_results := upd_from a (map (\<lambda>op. prepared (op_u op)) ops) (w_results c)\<rparr>"

lemma prepare_all_simps [simp]:
  "prepare_all a [] c = c" "prepare_all a (op # ops) c = prepare_all (Suc a) ops (prepare a (op_u op) c)"
  by (simp_all add: prepare_all_def prepare_def)

definition enc_op_header :: "i32 \<Rightarrow> i32 \<Rightarrow> bytes" where
  "enc_op_header t done = enc_MultiHeader \<lparr>MultiHeader_type = t, MultiHeader_done = done, MultiHeader_err = - 1\<rparr>"

fun enc_ops :: "cstr \<Rightarrow> zoo_op list \<Rightarrow> bytes" where
  "enc_ops chroot [] = []"
| "enc_ops chroot (op # ops) = enc_op_header (op_type op) 0 @ enc_op chroot (op_u op) @ enc_ops chroot ops"

lemma length_op_header [simp]: "length (enc_op_header t d) = 9"
  by (simp add: enc_op_header_def enc_MultiHeader_def enc_bool_def)

lemma prepare_fields [simp]:
  "w_null (prepare a u c) = w_null c" "zh_state (prepare a u c) = zh_state c" "zh_chroot (prepare a u c) = zh_chroot c"
  "(w_results (prepare a u c) b = None) = (w_results c b = None)"
  by (simp_all add: prepare_def)

lemma multi_header_ok:
  assumes "good_host H" and "oa_wf oa" and "bs_off oa + 9 \<le> OA_MAX"
  shows "\<exists>oa'. multi_header H t d (- 1) (0, oa) = Some (0, oa') \<and> oa_wf oa' \<and> oa_bytes oa' = oa_bytes oa @ enc_op_header t d"
proof -
  have "oa_writes (serialize_MultiHeader H \<lparr>MultiHeader_type = t, MultiHeader_done = d, MultiHeader_err = - 1\<rparr>) (enc_op_header t d)"
    unfolding enc_op_header_def by (rule MultiHeader_writes [OF assms(1)])
  from oa_writesD [OF this assms(2)] assms(3) show ?thesis by (simp add: multi_header_def)
qed

lemma multi_ops_ok:
  assumes "good_host (os_host E)" and "\<not> w_null c" and "0 \<le> zh_state c"
    and "list_all (\<lambda>op. op_ok (zh_chroot c) (op_type op) (op_u op)) ops"
    and "\<forall>i < length ops. w_results c (a + i) \<noteq> None"
    and "oa_wf oa" and "bs_off oa + int (length (enc_ops (zh_chroot c) ops)) \<le> OA_MAX"
  shows "\<exists>oa'. multi_ops E xid ops a (0, oa) es c = Some (None, (0, oa'), es @ op_entries xid a ops, prepare_all a ops c) \<and>
    oa_wf oa' \<and> oa_bytes oa' = oa_bytes oa @ enc_ops (zh_chroot c) ops"
  using assms(2-)
proof (induction ops arbitrary: a oa es c)
  case (Cons op ops)
  let ?u = "op_u op" and ?c = "prepare a (op_u op) c"
  have off: "bs_off oa = int (length (oa_bytes oa))" using length_oa_bytes [OF Cons.prems(5)] by simp
  obtain oa1 where 1: "multi_header (os_host E) (op_type op) 0 (- 1) (0, oa) = Some (0, oa1)" "oa_wf oa1"
    "oa_bytes oa1 = oa_bytes oa @ enc_op_header (op_type op) 0"
    using multi_header_ok [OF assms(1) Cons.prems(5), of "op_type op" 0] Cons.prems(6) by auto
  have off1: "bs_off oa1 = int (length (oa_bytes oa1))" using length_oa_bytes [OF 1(2)] by simp
  have "w_results c a \<noteq> None" using Cons.prems(4) by (auto dest: spec [of _ 0])
  then obtain oa2 where 2: "multi_op E xid op a (0, oa1) c = Some (Some ((0, oa2), op_ct ?u, op_fn ?u, ?c))" "oa_wf oa2"
    "oa_bytes oa2 = oa_bytes oa1 @ enc_op (zh_chroot c) ?u"
    using multi_op_ok [where op = op and c = c and a = a and xid = xid, OF assms(1) Cons.prems(1,2) _ _ 1(2)]
      Cons.prems(3,6) off off1 1(3) by auto
  have off2: "bs_off oa2 = int (length (oa_bytes oa2))" using length_oa_bytes [OF 2(2)] by simp
  have "create_completion_entry E xid (op_ct ?u) (op_fn ?u) a None None =
      Some (Some (Completion xid (op_ct ?u) (op_fn ?u) None [] a None None None))"
    using assms(1) by (cases ?u) (simp_all add: create_completion_entry_def do_create_completion_entry_def good_hostD)
  moreover have "\<exists>oa'. multi_ops E xid ops (Suc a) (0, oa2) (es @ [Completion xid (op_ct ?u) (op_fn ?u) None [] a None None None]) ?c =
      Some (None, (0, oa'), (es @ [Completion xid (op_ct ?u) (op_fn ?u) None [] a None None None]) @ op_entries xid (Suc a) ops,
        prepare_all (Suc a) ops ?c) \<and> oa_wf oa' \<and> oa_bytes oa' = oa_bytes oa2 @ enc_ops (zh_chroot ?c) ops"
    using Cons.prems(1-3,6) 1(3) 2(3) off off2 Cons.prems(4)
    by (intro Cons.IH 2(2)) (auto dest: spec [of _ "Suc _"])
  ultimately show ?case using 1 2 by auto
qed simp

definition enc_multi :: "cstr \<Rightarrow> zoo_op list \<Rightarrow> bytes" where
  "enc_multi chroot ops = enc_ops chroot ops @ enc_op_header (- 1) 1"

definition multi_entry :: "callback \<Rightarrow> nat \<Rightarrow> nat \<Rightarrow> zoo_op list \<Rightarrow> i32 \<Rightarrow> completion_list" where
  "multi_entry f data a ops xid = Completion xid COMPLETION_MULTI f None (op_entries xid a ops) data None None None"

text \<open>
  (C29) A multi request goes out as one packet: when every operation is well formed and the caller has a result for each,
  \<open>zoo_amulti\<close> returns \<open>ZOK\<close>, appends one frame that holds the header, then for each operation in order a header with
  its type and its request with the server's path, then the closing header; it registers one completion that holds one entry
  per operation, pointing at the caller's results, which have received the caller's buffers; nothing else changes.
\<close>

theorem multi_request_issued:
  assumes "works E c" and "0 \<le> zh_state c" and "\<not> zh_close_requested c"
    and "list_all (\<lambda>op. op_ok (zh_chroot c) (op_type op) (op_u op)) ops"
    and "\<forall>i < length ops. w_results c (a + i) \<noteq> None"
    and "f \<noteq> SYNCHRONOUS_MARKER" and "length (enc_multi (zh_chroot c) ops) + 8 \<le> 2 ^ 27"
  shows "issues E (prepare_all a ops c) (zoo_amulti E ops a f data c) ZOO_MULTI_OP (enc_multi (zh_chroot c) ops)
    (multi_entry f data a ops (next_xid E c))"
proof -
  let ?H = "os_host E" and ?xid = "next_xid E c" and ?d = "prepare_all a ops (drew_xid E c)"
  let ?h = "\<lparr>RequestHeader_xid = ?xid, RequestHeader_type = ZOO_MULTI_OP\<rparr>"
  have H: "good_host ?H" "has_clock E" "\<not> w_null c" "xid_left E c" "list_all is_packet (zh_to_send c)"
    using assms(1) by (simp_all add: works_def)
  have len: "int (length (enc_ops (zh_chroot c) ops)) + 17 \<le> OA_MAX" using assms(7) by (simp add: enc_multi_def)
  obtain oa0 where 0: "create_buffer_oarchive ?H = Some oa0" "oa_wf oa0" "oa_bytes oa0 = []" "bs_off oa0 = 0"
    using create_buffer_oarchive_wf [OF H(1)] by blast
  obtain oa1 where 1: "serialize_RequestHeader ?H ?h oa0 = Some (0, oa1)" "oa_wf oa1" "oa_bytes oa1 = enc_RequestHeader ?h"
    using oa_writesD [OF RequestHeader_writes [OF H(1), of ?h] 0(2)] 0(3,4) by (auto simp: enc_RequestHeader_def)
  have off1: "bs_off oa1 = 8" using length_oa_bytes [OF 1(2)] 1(3) by (simp add: enc_RequestHeader_def)
  have [simp]: "w_results (drew_xid E c) = w_results c" by (simp add: drew_xid_def)
  obtain oa2 where 2: "multi_ops E ?xid ops a (0, oa1) [] (drew_xid E c) = Some (None, (0, oa2), op_entries ?xid a ops, ?d)"
    "oa_wf oa2" "oa_bytes oa2 = enc_RequestHeader ?h @ enc_ops (zh_chroot c) ops"
    using multi_ops_ok [of E "drew_xid E c" ops a oa1 ?xid "[]"] H(1,3) assms(2,4,5) 1(2,3) off1 len by auto
  have off2: "bs_off oa2 + 9 \<le> OA_MAX" using length_oa_bytes [OF 2(2)] 2(3) len by (simp add: enc_RequestHeader_def)
  obtain oa3 where 3: "multi_header ?H (- 1) 1 (- 1) (0, oa2) = Some (0, oa3)" "oa_wf oa3"
    "oa_bytes oa3 = enc_RequestHeader ?h @ enc_multi (zh_chroot c) ops"
    using multi_header_ok [OF H(1) 2(2) off2, of "- 1" 1] 2(3) by (auto simp: enc_multi_def)
  let ?a = "accepted E (multi_entry f data a ops ?xid) (prepare_all a ops c)"
  have add: "add_multi_completion E ?xid f data (Some (op_entries ?xid a ops)) ?d = Some (ZOK, ?a)"
    using H(1) assms(3,6)
    by (simp add: add_multi_completion_def add_completion_def create_completion_entry_def do_create_completion_entry_def
        do_add_completion_def accepted_def multi_entry_def prepare_all_def drew_xid_def next_xid_def good_hostD)
  have l3: "length (oa_bytes oa3) = 8 + length (enc_multi (zh_chroot c) ops)" using 3(3) by (simp add: enc_RequestHeader_def)
  have len3: "oa_bytes oa3 \<noteq> []" "int (length (oa_bytes oa3)) \<le> OA_MAX"
    using l3 assms(7) by (auto simp del: One_nat_def)
  obtain b where b: "enqueue E (0, oa3) (add_multi_completion E ?xid f data (Some (op_entries ?xid a ops))) ?d =
      Some (ZOK, ?a\<lparr>zh_to_send := zh_to_send ?a @ [b]\<rparr>)" "is_packet b" "unsent b = frame (oa_bytes oa3)"
    using enqueue_ok [where add = "add_multi_completion E ?xid f data (Some (op_entries ?xid a ops))" and c = ?d, OF H(1) 3(2) len3 add] by blast
  let ?c = "?a\<lparr>zh_to_send := zh_to_send ?a @ [b]\<rparr>"
  have "list_all is_packet (zh_to_send ?c)" using H(5) b(2) by (simp add: accepted_def prepare_all_def)
  from send_queue_stream [OF this H(2)] obtain rc c' where
    c': "adaptor_send_queue E 0 ?c = Some (rc, c')" "out_stream c' = out_stream ?c" "list_all is_packet (zh_to_send c')"
    "io_rest c' = io_rest ?c" by blast
  have "zoo_amulti E ops a f data c = Some (ZOK, c')"
    using H(3) 0(1) 1(1) 2(1) 3(1) b(1) c'(1) by (simp add: zoo_amulti_def get_xid_next [OF H(4)])
  moreover have "out_stream ?c = out_stream (prepare_all a ops c) @ frame (enc_RequestHeader ?h @ enc_multi (zh_chroot c) ops)"
    using b(3) 3(3) by (simp add: out_stream_def accepted_def prepare_all_def drew_xid_def)
  moreover have "next_xid E (prepare_all a ops c) = ?xid" by (simp add: next_xid_def prepare_all_def)
  ultimately show ?thesis using c'(2-4) unfolding issues_def by simp
qed

section \<open>What the reply to a multi request does\<close>

fun copied :: "cstr \<Rightarrow> bytes option \<Rightarrow> int \<Rightarrow> bytes option" where
  \<comment> \<open>the caller's buffer of this length after a string was copied into it, cut where it does not fit\<close>
  "copied (Some s) (Some b) n = Some (if n \<le> 0 then b else let k = min (length s) (nat n - 1) in take k s @ NUL # drop (Suc k) b)"
| "copied _ _ _ = None"

fun failed_result :: "zoo_op_union \<Rightarrow> int \<Rightarrow> zoo_op_result \<Rightarrow> zoo_op_result" where
  "failed_result (Create_op _ _ _ _ _ _) e r = r\<lparr>opr_err := e, opr_value := None\<rparr>"
| "failed_result (Set_op _ _ _ _) e r = r\<lparr>opr_err := e, opr_stat := None\<rparr>"
| "failed_result _ e r = r\<lparr>opr_err := e\<rparr>"

definition enc_result_header :: "i32 \<Rightarrow> i32 \<Rightarrow> bytes" where
  "enc_result_header t e = enc_MultiHeader \<lparr>MultiHeader_type = t, MultiHeader_done = 0, MultiHeader_err = e\<rparr>"

inductive op_reply :: "host \<Rightarrow> cstr \<Rightarrow> i32 \<Rightarrow> zoo_op_union \<Rightarrow> bytes \<Rightarrow> int \<Rightarrow> (zoo_op_result \<Rightarrow> zoo_op_result) \<Rightarrow> bool"
  for H :: host and chroot :: cstr and t :: i32
where
  \<comment> \<open>what the server sends for an operation, the code it stands for, and what becomes of the result\<close>
  error: "op_reply H chroot t u (enc_result_header (- 1) e' @ enc_ErrorResponse \<lparr>ErrorResponse_err = e\<rparr>) (sint e)
    (failed_result u (sint e))"
| created: "CreateResponse_ok r \<Longrightarrow> sub_string H chroot (CreateResponse_path r) = Some p \<Longrightarrow> t \<noteq> - 1 \<Longrightarrow>
    op_reply H chroot t (Create_op path data acl flags buf buflen) (enc_result_header t 0 @ enc_CreateResponse r) 0
    (\<lambda>x. x\<lparr>opr_err := 0, opr_value := copied p (opr_value x) (opr_valuelen x)\<rparr>)"
| set_data: "SetDataResponse_ok r \<Longrightarrow> t \<noteq> - 1 \<Longrightarrow>
    op_reply H chroot t (Set_op path data version st) (enc_result_header t 0 @ enc_SetDataResponse r) 0
    (\<lambda>x. x\<lparr>opr_err := 0, opr_stat := (if opr_stat x = None then None else Some (SetDataResponse_stat r))\<rparr>)"
| deleted: "t \<noteq> - 1 \<Longrightarrow> op_reply H chroot t (Delete_op path version) (enc_result_header t 0) 0 (\<lambda>x. x\<lparr>opr_err := 0\<rparr>)"
| checked: "t \<noteq> - 1 \<Longrightarrow> op_reply H chroot t (Check_op path version) (enc_result_header t 0) 0 (\<lambda>x. x\<lparr>opr_err := 0\<rparr>)"

fun first_error :: "int list \<Rightarrow> int" where
  "first_error [] = ZOK"
| "first_error (e # es) = (if e \<noteq> 0 \<and> e \<noteq> ZRUNTIMEINCONSISTENCY then e else first_error es)"

definition result_ok :: "zoo_op_result \<Rightarrow> bool" where
  \<comment> \<open>the caller's buffer is as long as he says\<close>
  "result_ok r \<longleftrightarrow> (case opr_value r of None \<Rightarrow> True | Some b \<Rightarrow> opr_valuelen r \<le> int (length b))"

lemma op_result_string_ok:
  assumes "w_results c a = Some x" and "result_ok x"
  shows "op_result_string_completion err p a c = Some (c\<lparr>w_results := (w_results c)(a \<mapsto>
    x\<lparr>opr_err := err, opr_value := copied p (opr_value x) (opr_valuelen x)\<rparr>)\<rparr>)"
proof (cases "opr_value x"; cases p)
  fix b s assume b: "opr_value x = Some b" and p: "p = Some s"
  show ?thesis
  proof (cases "opr_valuelen x > 0")
    case True
    define len where "len = (if int (length s) + 1 > opr_valuelen x then opr_valuelen x else int (length s) + 1)"
    define k where "k = min (length s) (nat (opr_valuelen x) - 1)"
    have k: "len - 1 = int k" "len > 0" "k < length b" using True assms(2) b by (auto simp: result_ok_def len_def k_def)
    have "mem_write (Some b) 0 (take k s) = Some (take k s @ drop k b)" using k(3) by (simp add: mem_write_def k_def)
    moreover have "mem_write (Some (take k s @ drop k b)) (int k) [NUL] = Some (take k s @ NUL # drop (Suc k) b)"
      using k(3) by (simp add: mem_write_def k_def)
    moreover have "op_result_string_completion err p a c = (if len > 0 then do {
        buf \<leftarrow> mem_write (Some b) 0 (take (nat (len - 1)) s);
        buf \<leftarrow> mem_write (Some buf) (len - 1) [NUL];
        Some (c\<lparr>w_results := (w_results c)(a \<mapsto> x\<lparr>opr_err := err, opr_value := Some buf\<rparr>)\<rparr>) } else
        Some (c\<lparr>w_results := (w_results c)(a \<mapsto> x\<lparr>opr_err := err\<rparr>)\<rparr>))"
      by (auto simp: op_result_string_completion_def assms(1) b p Let_def len_def)
    ultimately show ?thesis using k(1,2) True by (simp add: b p k_def Let_def)
  next
    case False
    then show ?thesis by (simp add: op_result_string_completion_def assms(1) b p Let_def, simp flip: b)
  qed
qed (use assms(1) in \<open>simp_all add: op_result_string_completion_def\<close>)

lemma reply_MultiHeader:
  assumes "good_host H" and "ia_wf ia" and "ia_rest ia = enc_MultiHeader m @ r" and "MultiHeader_done m = 0 \<or> MultiHeader_done m = 1"
  shows "\<exists>ia'. deserialize_MultiHeader H (ia, old) = Some (0, ia', m) \<and> ia_wf ia' \<and> ia_rest ia' = r"
  using ia_readsD [OF MultiHeader_reads [OF assms(1)] assms(2,3)] assms(4) by (auto simp: MultiHeader_ok_def)

definition filled :: "nat \<Rightarrow> (zoo_op_result \<Rightarrow> zoo_op_result) \<Rightarrow> client \<Rightarrow> client" where
  "filled a g c = c\<lparr>w_results := (w_results c)(a := map_option g (w_results c a))\<rparr>"

lemma op_failed:
  assumes "w_results c (cl_data e) = Some x" and "result_ok x" and "cl_type e = op_ct u" and "cl_fn e = op_fn u"
  shows "deserialize_response E (cl_type e) xid True err e ia c = Some (ia, filled (cl_data e) (failed_result u err) c)"
  using assms
  by (cases u) (simp_all add: simple_response_def op_result_string_ok op_result_void_completion_def op_result_stat_completion_def filled_def Let_def)

definition next_header :: "os \<Rightarrow> i32 \<Rightarrow> completion_list list \<Rightarrow> MultiHeader \<Rightarrow> int \<Rightarrow> iarchive \<Rightarrow> client \<Rightarrow> (int \<times> iarchive \<times> client) option" where
  "next_header E xid es mhdr rc ia c = do {
     (r, ia, mhdr) \<leftarrow> deserialize_MultiHeader (os_host E) (ia, mhdr);
     multi_loop E xid es mhdr rc ia c
   }"

definition next_op where
  \<comment> \<open>one turn of the loop: the first entry is answered, the reply is read up to the next header\<close>
  "next_op E xid e es mhdr ia rc c r rc' c' \<longleftrightarrow> (\<exists>mhdr' ia'. ia_wf ia' \<and> ia_rest ia' = r \<and>
     next_header E xid (e # es) mhdr rc ia c = next_header E xid es mhdr' rc' ia' c')"

lemma op_good:
  assumes "good_host (os_host E)" and "t \<noteq> - 1" and "ia_wf ia" and "ia_rest ia = enc_result_header t 0 @ body @ r"
    and mid: "\<And>ia1. ia_wf ia1 \<Longrightarrow> ia_rest ia1 = body @ r \<Longrightarrow>
      \<exists>ia2. deserialize_response E (cl_type e) xid False 0 e (Some ia1) c = Some (Some ia2, c') \<and> ia_wf ia2 \<and>
        ia_rest ia2 = r"
  shows "next_op E xid e es old ia rc c r rc c'"
proof -
  let ?m = "\<lparr>MultiHeader_type = t, MultiHeader_done = 0, MultiHeader_err = 0\<rparr>"
  obtain ia1 where 1: "deserialize_MultiHeader (os_host E) (ia, old) = Some (0, ia1, ?m)" "ia_wf ia1"
    "ia_rest ia1 = body @ r"
    using reply_MultiHeader [OF assms(1,3), of ?m] assms(4) by (auto simp: enc_result_header_def)
  obtain ia2 where 2: "deserialize_response E (cl_type e) xid False 0 e (Some ia1) c = Some (Some ia2, c')" "ia_wf ia2"
    "ia_rest ia2 = r" using mid [OF 1(2,3)] by blast
  from 2(1) assms(2) have "multi_loop E xid (e # es) ?m rc ia1 c = next_header E xid es ?m rc ia2 c'"
    by (simp add: next_header_def del: deserialize_response.simps)
  with 1(1) 2(2,3) show ?thesis unfolding next_op_def next_header_def [of _ _ "e # es"] by auto
qed

lemma op_error:
  assumes "good_host (os_host E)" and "ia_wf ia"
    and "ia_rest ia = enc_result_header (- 1) e' @ enc_ErrorResponse \<lparr>ErrorResponse_err = er\<rparr> @ r"
    and mid: "\<And>ia1. deserialize_response E (cl_type e) xid True (sint er) e (Some ia1) c = Some (Some ia1, c')"
  shows "next_op E xid e es old ia rc c r (if rc = 0 then first_error [sint er] else rc) c'"
proof -
  let ?m = "\<lparr>MultiHeader_type = - 1, MultiHeader_done = 0, MultiHeader_err = e'\<rparr>" and ?er = "\<lparr>ErrorResponse_err = er\<rparr>"
  obtain ia1 where 1: "deserialize_MultiHeader (os_host E) (ia, old) = Some (0, ia1, ?m)" "ia_wf ia1"
    "ia_rest ia1 = enc_ErrorResponse ?er @ r"
    using reply_MultiHeader [OF assms(1,2), of ?m] assms(3) by (auto simp: enc_result_header_def)
  obtain ia2 where 2: "reply (deserialize_ErrorResponse (os_host E)) ErrorResponse_zero (Some ia1) = Some (?er, ia2)" "ia_wf ia2"
    "ia_rest ia2 = r"
    using reply_reads [OF ErrorResponse_reads [OF assms(1)] 1(2,3)] by (auto simp: ErrorResponse_ok_def)
  from 2(1) mid have "multi_loop E xid (e # es) ?m rc ia1 c =
      next_header E xid es (?m\<lparr>MultiHeader_err := er\<rparr>) (if rc = 0 then first_error [sint er] else rc) ia2 c'"
    by (auto simp: next_header_def simp del: deserialize_response.simps)
  with 1(1) 2(2,3) show ?thesis unfolding next_op_def next_header_def [of _ _ "e # es"] by auto
qed

lemma op_answered:
  assumes "good_host (os_host E)" and "op_reply (os_host E) (zh_chroot c) t u bs err g"
    and "w_results c (cl_data e) = Some x" and "result_ok x" and "cl_type e = op_ct u" and "cl_fn e = op_fn u"
    and "ia_wf ia" and "ia_rest ia = bs @ r"
  shows "next_op E xid e es old ia rc c r (if rc = 0 then first_error [err] else rc) (filled (cl_data e) g c)"
  using assms(2)
proof cases
  case (error e' er)
  show ?thesis
    unfolding error(2) by (rule op_error [OF assms(1,7)]) (use assms(8) error op_failed [OF assms(3-6)] in simp_all)
next
  case (created v p path data acl flags buf buflen)
  have "next_op E xid e es old ia rc c r rc (filled (cl_data e) g c)"
  proof (rule op_good [OF assms(1) created(7) assms(7)])
    fix ia1 assume "ia_wf ia1" "ia_rest ia1 = enc_CreateResponse v @ r"
    from ia_readsD [OF CreateResponse_reads [OF assms(1) created(5)] this, of CreateResponse_zero] created(1,4,6) assms(3-6)
    show "\<exists>ia2. deserialize_response E (cl_type e) xid False 0 e (Some ia1) c = Some (Some ia2, filled (cl_data e) g c) \<and>
        ia_wf ia2 \<and> ia_rest ia2 = r"
      by (auto simp: response_simps op_result_string_ok filled_def)
  qed (use assms(8) created in simp)
  then show ?thesis using created(3) by (cases "rc = 0") simp_all
next
  case (set_data v path data version st)
  have "next_op E xid e es old ia rc c r rc (filled (cl_data e) g c)"
  proof (rule op_good [OF assms(1) set_data(6) assms(7)])
    fix ia1 assume "ia_wf ia1" "ia_rest ia1 = enc_SetDataResponse v @ r"
    from reply_reads [OF SetDataResponse_reads [OF assms(1) set_data(5)] this, of SetDataResponse_zero] set_data(1,4) assms(3-6)
    show "\<exists>ia2. deserialize_response E (cl_type e) xid False 0 e (Some ia1) c = Some (Some ia2, filled (cl_data e) g c) \<and>
        ia_wf ia2 \<and> ia_rest ia2 = r"
      by (auto simp: response_simps op_result_stat_completion_def filled_def)
  qed (use assms(8) set_data in simp)
  then show ?thesis using set_data(3) by (cases "rc = 0") simp_all
next
  case (deleted path version)
  have "next_op E xid e es old ia rc c r rc (filled (cl_data e) g c)"
    by (rule op_good [OF assms(1) deleted(5) assms(7), where body = "[]", OF])
       (use assms(3-6,8) deleted in \<open>simp_all add: simple_response_def op_result_void_completion_def filled_def Let_def\<close>)
  then show ?thesis using deleted(3) by (cases "rc = 0") simp_all
next
  case (checked path version)
  have "next_op E xid e es old ia rc c r rc (filled (cl_data e) g c)"
    by (rule op_good [OF assms(1) checked(5) assms(7), where body = "[]", OF])
       (use assms(3-6,8) checked in \<open>simp_all add: simple_response_def op_result_void_completion_def filled_def Let_def\<close>)
  then show ?thesis using checked(3) by (cases "rc = 0") simp_all
qed

lemma multi_loop_ok:
  assumes "good_host (os_host E)" and "list_all2 (\<lambda>op (bs, err, g). op_reply (os_host E) (zh_chroot c) (op_type op) (op_u op) bs err g) ops rs"
    and "\<forall>i < length ops. \<exists>x. w_results c (a + i) = Some x \<and> result_ok x"
    and "ia_wf ia" and "ia_rest ia = concat (map fst rs) @ enc_op_header (- 1) 1 @ r"
  shows "\<exists>ia'. next_header E xid (op_entries x a ops) mhdr rc ia c =
    Some (if rc = 0 then first_error (map (fst \<circ> snd) rs) else rc, ia',
      c\<lparr>w_results := upd_from a (map (snd \<circ> snd) rs) (w_results c)\<rparr>)"
  using assms(2-)
proof (induction ops arbitrary: rs a ia c rc mhdr)
  case Nil
  let ?m = "\<lparr>MultiHeader_type = - 1, MultiHeader_done = 1, MultiHeader_err = - 1\<rparr>"
  from Nil.prems(4) Nil.prems(1) have "ia_rest ia = enc_MultiHeader ?m @ r" by (simp add: enc_op_header_def)
  then obtain ia1 where "deserialize_MultiHeader (os_host E) (ia, mhdr) = Some (0, ia1, ?m)" "ia_wf ia1" "ia_rest ia1 = r"
    using reply_MultiHeader [OF assms(1) Nil.prems(3)] by force
  then show ?case using Nil.prems(1) by (simp add: next_header_def)
next
  case (Cons op ops)
  obtain bs err g rs' where rs: "rs = (bs, err, g) # rs'" "op_reply (os_host E) (zh_chroot c) (op_type op) (op_u op) bs err g"
    "list_all2 (\<lambda>op (bs, err, g). op_reply (os_host E) (zh_chroot c) (op_type op) (op_u op) bs err g) ops rs'"
    using Cons.prems(1) by (auto simp: list_all2_Cons1)
  let ?e = "Completion x (op_ct (op_u op)) (op_fn (op_u op)) None [] a None None None" and ?c = "filled a g c"
  let ?rc = "if rc = 0 then first_error [err] else rc"
  obtain y where y: "w_results c a = Some y" "result_ok y" using Cons.prems(2) by (auto dest: spec [of _ 0])
  have res: "\<forall>i < length ops. \<exists>y. w_results ?c (Suc a + i) = Some y \<and> result_ok y"
    using Cons.prems(2) by (auto simp: filled_def dest: spec [of _ "Suc _"])
  have "next_op E xid ?e (op_entries x (Suc a) ops) mhdr ia rc c (concat (map fst rs') @ enc_op_header (- 1) 1 @ r) ?rc (filled (cl_data ?e) g c)"
    by (rule op_answered [OF assms(1) rs(2) _ y(2)]) (use y(1) Cons.prems(3,4) rs(1) in simp_all)
  then obtain mhdr' ia' where 1: "ia_wf ia'" "ia_rest ia' = concat (map fst rs') @ enc_op_header (- 1) 1 @ r"
    "next_header E xid (?e # op_entries x (Suc a) ops) mhdr rc ia c = next_header E xid (op_entries x (Suc a) ops) mhdr' ?rc ia' ?c"
    by (auto simp: next_op_def)
  have "list_all2 (\<lambda>op (bs, err, g). op_reply (os_host E) (zh_chroot ?c) (op_type op) (op_u op) bs err g) ops rs'"
    using rs(3) by (simp add: filled_def)
  from Cons.IH [OF this res 1(1,2), of mhdr' ?rc] obtain ia'' where
    2: "next_header E xid (op_entries x (Suc a) ops) mhdr' ?rc ia' ?c =
      Some (if ?rc = 0 then first_error (map (fst \<circ> snd) rs') else ?rc, ia'',
        ?c\<lparr>w_results := upd_from (Suc a) (map (snd \<circ> snd) rs') (w_results ?c)\<rparr>)" by blast
  have "(if ?rc = 0 then first_error (map (fst \<circ> snd) rs') else ?rc) = (if rc = 0 then first_error (map (fst \<circ> snd) rs) else rc)"
    by (simp add: rs(1))
  then show ?case using 1(3) 2 by (simp add: rs(1) filled_def comp_def)
qed

lemma cleanup_multi_ok:
  assumes "\<forall>i < length ops. \<exists>x. w_results c (a + i) = Some x \<and> result_ok x"
  shows "cleanup_failed_multi E xid rc (op_entries x a ops) c =
    Some (c\<lparr>w_results := upd_from a (map (\<lambda>op. failed_result (op_u op) rc) ops) (w_results c)\<rparr>)"
  using assms
proof (induction ops arbitrary: a c)
  case (Cons op ops)
  let ?e = "Completion x (op_ct (op_u op)) (op_fn (op_u op)) None [] a None None None"
  let ?c = "filled a (failed_result (op_u op) rc) c"
  obtain y where y: "w_results c a = Some y" "result_ok y" using Cons.prems by (auto dest: spec [of _ 0])
  have res: "\<forall>i < length ops. \<exists>y. w_results ?c (Suc a + i) = Some y \<and> result_ok y"
    using Cons.prems by (auto simp: filled_def dest: spec [of _ "Suc _"])
  have "deserialize_response E (cl_type ?e) xid True rc ?e None c = Some (None, filled (cl_data ?e) (failed_result (op_u op) rc) c)"
    by (rule op_failed [of _ _ y]) (use y in simp_all)
  with Cons.IH [OF res] show ?case by (simp add: filled_def fun_upd_def del: deserialize_response.simps)
qed simp

text \<open>
  (C30) The reply to a multi request fills in the caller's results: every operation gets its own code, the path it created cut to
  the caller's buffer, or the new statistics, and an operation that failed gets its error and no value; then the completion is
  called once, with the first error of an operation that is not merely the victim of another one, or with \<open>ZOK\<close>. When the reply
  as a whole is an error every result gets that error and the completion is called with it.
\<close>

theorem multi_reply_fills_results:
  assumes "good_host (os_host E)" and "ReplyHeader_xid h \<noteq> WATCHER_EVENT_XID"
    and "\<forall>i < length ops. \<exists>x. w_results c (a + i) = Some x \<and> result_ok x"
    and "list_all2 (\<lambda>op (bs, err, g). op_reply (os_host E) (zh_chroot c) (op_type op) (op_u op) bs err g) ops rs"
    and "reply_buffer (enc_ReplyHeader h @ concat (map fst rs) @ enc_op_header (- 1) 1 @ rest) (Some b)"
  shows "process_one E (set_cl_buffer (Some b) (multi_entry (Fn f) data a ops xid)) c = Some (
    if ReplyHeader_err h = 0
    then emit (Void_call f (first_error (map (fst \<circ> snd) rs)) data)
      (c\<lparr>w_results := upd_from a (map (snd \<circ> snd) rs) (w_results c)\<rparr>)
    else emit (Void_call f (sint (ReplyHeader_err h)) data)
      (c\<lparr>w_results := upd_from a (map (\<lambda>op. failed_result (op_u op) (sint (ReplyHeader_err h))) ops) (w_results c)\<rparr>))"
proof -
  obtain ia ia1 where 1: "create_buffer_iarchive (os_host E) (bl_buffer b) (sint (bl_len b)) = Some ia"
    "reply (deserialize_ReplyHeader (os_host E)) ReplyHeader_zero (Some ia) = Some (h, ia1)" "ia_wf ia1"
    "ia_rest ia1 = concat (map fst rs) @ enc_op_header (- 1) 1 @ rest"
    using open_reply [OF assms(1,5)] by blast
  obtain ia2 where 2: "next_header E (ReplyHeader_xid h) (op_entries xid a ops) MultiHeader_zero 0 ia1 c =
      Some (first_error (map (fst \<circ> snd) rs), ia2, c\<lparr>w_results := upd_from a (map (snd \<circ> snd) rs) (w_results c)\<rparr>)"
    using multi_loop_ok [OF assms(1,4,3) 1(3,4), of "ReplyHeader_xid h" xid MultiHeader_zero 0] by auto
  then obtain r ia' mhdr where 3: "deserialize_MultiHeader (os_host E) (ia1, MultiHeader_zero) = Some (r, ia', mhdr)"
    "multi_loop E (ReplyHeader_xid h) (op_entries xid a ops) mhdr 0 ia' c =
      Some (first_error (map (fst \<circ> snd) rs), ia2, c\<lparr>w_results := upd_from a (map (snd \<circ> snd) rs) (w_results c)\<rparr>)"
    by (auto simp: next_header_def bind_eq_Some_conv)
  show ?thesis
    using 1(1,2) 3 assms(2) cleanup_multi_ok [OF assms(3), of E "ReplyHeader_xid h" "sint (ReplyHeader_err h)" xid]
    by (simp add: process_one_def multi_entry_def)
qed

section \<open>A multi request at work\<close>

definition blank_result :: zoo_op_result where
  "blank_result = \<lparr>opr_err = 0, opr_value = None, opr_valuelen = 0, opr_stat = None\<rparr>"

definition sample_ops :: "zoo_op list" where
  "sample_ops = [zoo_check_op_init (Some ''/a'') 3, zoo_delete_op_init (Some ''/a'') 3]"

definition multi_client :: client where
  "multi_client = test_client\<lparr>w_results := (\<lambda>_. Some blank_result)\<rparr>"

lemma multi_client_works: "works test_os multi_client" "next_xid test_os multi_client = 5"
  using works_test by (simp_all add: works_def multi_client_def xid_left_def next_xid_def)

theorem multi_request_issued_witness:
  "issues test_os (prepare_all 20 sample_ops multi_client) (zoo_amulti test_os sample_ops 20 (Fn 3) 4 multi_client) ZOO_MULTI_OP
    (enc_multi None sample_ops) (multi_entry (Fn 3) 4 20 sample_ops 5)"
proof -
  have "list_all (\<lambda>op. op_ok None (op_type op) (op_u op)) sample_ops"
    by (simp add: sample_ops_def zoo_check_op_init_def zoo_delete_op_init_def path_ok_def path_fits_def server_path_def)
  moreover have "length (enc_multi None sample_ops) + 8 \<le> 2 ^ 27"
    by (simp add: enc_multi_def sample_ops_def zoo_check_op_init_def zoo_delete_op_init_def enc_CheckVersionRequest_def
        enc_DeleteRequest_def on_server_def enc_string_def server_path_def)
  ultimately show ?thesis
    using multi_request_issued [of test_os multi_client sample_ops 20 "Fn 3" 4] multi_client_works
    by (simp add: multi_client_def)
qed

lemma sample_reply_holds: "length bs < 2 ^ 31 \<Longrightarrow> reply_buffer bs (Some (sample_reply bs))"
  using sint_word_of_int32 [of "int (length bs)"] by (simp add: reply_buffer_def sample_reply_def)

theorem multi_reply_fills_results_witness:
  "process_one test_os (set_cl_buffer (Some (sample_reply (enc_ReplyHeader \<lparr>ReplyHeader_xid = 5, ReplyHeader_zxid = 9, ReplyHeader_err = 0\<rparr> @
      enc_result_header (- 1) 0 @ enc_ErrorResponse \<lparr>ErrorResponse_err = - 2\<rparr> @
      enc_result_header (- 1) 0 @ enc_ErrorResponse \<lparr>ErrorResponse_err = - 101\<rparr> @ enc_op_header (- 1) 1)))
      (multi_entry (Fn 3) 4 20 sample_ops 5)) multi_client =
    Some (emit (Void_call 3 (- 101) 4) (multi_client\<lparr>w_results := (w_results multi_client)
      (20 \<mapsto> blank_result\<lparr>opr_err := - 2\<rparr>, 21 \<mapsto> blank_result\<lparr>opr_err := - 101\<rparr>)\<rparr>))"
proof -
  let ?h = "\<lparr>ReplyHeader_xid = 5, ReplyHeader_zxid = 9, ReplyHeader_err = 0\<rparr>"
  let ?e = "\<lambda>e. enc_result_header (- 1) 0 @ enc_ErrorResponse \<lparr>ErrorResponse_err = e\<rparr>"
  let ?rs = "[(?e (- 2), sint (- 2 :: i32), failed_result (Check_op (Some ''/a'') 3) (sint (- 2 :: i32))),
    (?e (- 101), sint (- 101 :: i32), failed_result (Delete_op (Some ''/a'') 3) (sint (- 101 :: i32)))]"
  let ?b = "sample_reply (enc_ReplyHeader ?h @ concat (map fst ?rs) @ enc_op_header (- 1) 1)"
  have "length (enc_ReplyHeader ?h @ concat (map fst ?rs) @ enc_op_header (- 1) 1) = 51"
    by (simp add: enc_ReplyHeader_def enc_ErrorResponse_def enc_result_header_def enc_MultiHeader_def enc_bool_def)
  then have "reply_buffer (enc_ReplyHeader ?h @ concat (map fst ?rs) @ enc_op_header (- 1) 1 @ []) (Some ?b)"
    using sample_reply_holds [of "enc_ReplyHeader ?h @ concat (map fst ?rs) @ enc_op_header (- 1) 1"] by simp
  moreover have "list_all2 (\<lambda>op (bs, err, g). op_reply (os_host test_os) None (op_type op) (op_u op) bs err g) sample_ops ?rs"
    unfolding sample_ops_def zoo_check_op_init_def zoo_delete_op_init_def
    using op_reply.error [where e' = 0 and e = "- 2"] op_reply.error [where e' = 0 and e = "- 101"]
    by (simp del: failed_result.simps append_assoc)
  moreover have "failed_result (Check_op p v) e = (\<lambda>r. r\<lparr>opr_err := e\<rparr>)" "failed_result (Delete_op p v) e = (\<lambda>r. r\<lparr>opr_err := e\<rparr>)"
    for p v e by (simp_all add: fun_eq_iff)
  ultimately show ?thesis
    using multi_reply_fills_results [of test_os ?h sample_ops multi_client 20 ?rs "[]" ?b 3 4 5] works_host_test(1)
    by (simp add: multi_client_def result_ok_def blank_result_def fun_upd_def)
qed

text \<open>
  The operation that \<open>zoo_create2_op_init\<close> builds cannot be used: whatever follows it, a multi request that begins with one
  is refused with \<open>ZUNIMPLEMENTED\<close>, unless it asks for a container; so is one that begins with a node with a time to live. Nothing
  is sent and no completion is registered.
\<close>

theorem multi_create2_unimplemented:
  assumes "works E c" and "sint mode \<noteq> ZOO_CONTAINER"
  shows "zoo_amulti E (zoo_create2_op_init path val acl mode buf buflen # ops) a f data c = Some (ZUNIMPLEMENTED, drew_xid E c)"
proof -
  let ?h = "\<lparr>RequestHeader_xid = next_xid E c, RequestHeader_type = ZOO_MULTI_OP\<rparr>"
    and ?t = "get_create_op_type (sint mode) ZOO_CREATE2_OP"
  have H: "good_host (os_host E)" "\<not> w_null c" "xid_left E c" using assms(1) by (simp_all add: works_def)
  have t: "?t = ZOO_CREATE2_OP \<or> ?t = ZOO_CREATE_TTL_OP" using assms(2) by (simp add: get_create_op_type_def)
  obtain oa0 where 0: "create_buffer_oarchive (os_host E) = Some oa0" "oa_wf oa0" "oa_bytes oa0 = []" "bs_off oa0 = 0"
    using create_buffer_oarchive_wf [OF H(1)] by blast
  obtain oa1 where 1: "serialize_RequestHeader (os_host E) ?h oa0 = Some (0, oa1)" "oa_wf oa1" "oa_bytes oa1 = enc_RequestHeader ?h"
    using oa_writesD [OF RequestHeader_writes [OF H(1), of ?h] 0(2)] 0(3,4) by (auto simp: enc_RequestHeader_def)
  have "bs_off oa1 + 9 \<le> OA_MAX" using length_oa_bytes [OF 1(2)] 1(3) by (simp add: enc_RequestHeader_def)
  then obtain oa2 where "multi_header (os_host E) ?t 0 (- 1) (0, oa1) = Some (0, oa2)"
    using multi_header_ok [OF H(1) 1(2)] by blast
  with t 0(1) 1(1) H(2) show ?thesis
    by (auto simp: zoo_amulti_def get_xid_next [OF H(3)] zoo_create2_op_init_def multi_op_def Let_def)
qed

theorem multi_create2_unimplemented_witness:
  "zoo_amulti test_os [zoo_create2_op_init (Some ''/a'') \<lparr>cb_len = 0, cb_buff = None\<rparr> None 0 None 0] 20 (Fn 3) 4 test_client =
    Some (ZUNIMPLEMENTED, drew_xid test_os test_client)"
  by (rule multi_create2_unimplemented) simp_all

end
