(* ===== verification/Sync.thy ===== *)
theory Sync
  imports Multi
begin

text \<open>
  The synchronous calls of the threaded library. Each allocates a \<^verbatim>\<open>sync_completion\<close>, starts the asynchronous call with the
  marker in the place of the callback, waits until another thread has completed the structure, reads the answer out of it and frees
  it. What the other threads do while the caller waits is the argument \<open>run\<close>; the caller that is not woken has no result. The address
  of the structure is the argument \<open>a\<close>. The main property runs the call against the thread that processes the reply.
\<close>

section \<open>Waiting\<close>

definition alloc_sync_completion :: "os \<Rightarrow> nat \<Rightarrow> client \<Rightarrow> client option" where
  \<comment> \<open>the null pointer is \<open>None\<close>; the block is cleared\<close>
  "alloc_sync_completion E a c =
     (if grants (os_host E) 192
      then Some (c\<lparr>w_syncs := (w_syncs c)(a \<mapsto> \<lparr>sc_rc = 0, sc_complete = False, sc_u = U_none, sc_buffer = None\<rparr>)\<rparr>) else None)"

definition wait_sync_completion :: "(client \<Rightarrow> client option) \<Rightarrow> nat \<Rightarrow> client \<Rightarrow> client option" where
  "wait_sync_completion run a c = do {
     s \<leftarrow> w_syncs c a;
     if sc_complete s then Some c
     else do {
       c \<leftarrow> run c;
       s \<leftarrow> w_syncs c a;
       if sc_complete s then Some c else None
     }
   }"

definition free_sync_completion :: "nat \<Rightarrow> client \<Rightarrow> client" where
  "free_sync_completion a c = c\<lparr>w_syncs := (w_syncs c)(a := None)\<rparr>"

definition sync_call ::
  "os \<Rightarrow> (client \<Rightarrow> client option) \<Rightarrow> nat \<Rightarrow> sync_union \<Rightarrow> bytes option \<Rightarrow> (client \<Rightarrow> (int \<times> client) option) \<Rightarrow> client \<Rightarrow>
   (int \<times> sync_completion option \<times> client) option" where
  \<comment> \<open>the common frame of the synchronous calls: the code, and the structure when the call waited for it\<close>
  "sync_call E run a u buf call c =
     (case alloc_sync_completion E a c of
        None \<Rightarrow> Some (ZSYSTEMERROR, None, c)
      | Some c \<Rightarrow> do {
          s \<leftarrow> w_syncs c a;
          (rc, c) \<leftarrow> call (c\<lparr>w_syncs := (w_syncs c)(a \<mapsto> s\<lparr>sc_u := u, sc_buffer := buf\<rparr>)\<rparr>);
          (rc, s, c) \<leftarrow> (if rc = ZOK then do {
              c \<leftarrow> wait_sync_completion run a c;
              s \<leftarrow> w_syncs c a;
              Some (sc_rc s, Some s, c)
            } else Some (rc, None, c));
          Some (rc, s, free_sync_completion a c)
        })"

definition plain_call ::
  "os \<Rightarrow> (client \<Rightarrow> client option) \<Rightarrow> nat \<Rightarrow> (client \<Rightarrow> (int \<times> client) option) \<Rightarrow> client \<Rightarrow> (int \<times> client) option" where
  \<comment> \<open>a call that has nothing but its code to return\<close>
  "plain_call E run a call c = do { (rc, s, c) \<leftarrow> sync_call E run a U_none None call c; Some (rc, c) }"

definition written :: "bytes option \<Rightarrow> sync_completion option \<Rightarrow> bytes option" where
  \<comment> \<open>the caller's buffer after the call; the pointer in the structure may have been cleared\<close>
  "written buf s = (case s of None \<Rightarrow> buf | Some s \<Rightarrow> (case sc_buffer s of None \<Rightarrow> buf | Some b \<Rightarrow> Some b))"

definition stat_out :: "int \<Rightarrow> sync_completion option \<Rightarrow> Stat option \<Rightarrow> Stat option option" where
  \<comment> \<open>\<^verbatim>\<open>if (rc == 0 && stat) *stat = sc->u.stat\<close>, where the null pointer is \<open>None\<close>\<close>
  "stat_out rc s stat =
     (if rc = 0 \<and> stat \<noteq> None then (case s of Some s \<Rightarrow> (case sc_u s of U_stat st \<Rightarrow> Some (Some st) | _ \<Rightarrow> None) | None \<Rightarrow> None)
      else Some stat)"

section \<open>The calls\<close>

definition zoo_create_ttl ::
  "os \<Rightarrow> (client \<Rightarrow> client option) \<Rightarrow> nat \<Rightarrow> cstr \<Rightarrow> cbuffer \<Rightarrow> ACL_vector option \<Rightarrow> i32 \<Rightarrow> i64 \<Rightarrow> bytes option \<Rightarrow> int \<Rightarrow> client \<Rightarrow>
   (int \<times> bytes option \<times> client) option" where
  "zoo_create_ttl E run a path val acl mode ttl path_buffer path_buffer_len c = do {
     (rc, s, c) \<leftarrow> sync_call E run a (U_str path_buffer_len) path_buffer
       (zoo_acreate_ttl E path val acl mode ttl SYNCHRONOUS_MARKER a) c;
     Some (rc, written path_buffer s, c)
   }"

definition zoo_create where
  "zoo_create E run a path val acl mode path_buffer path_buffer_len c =
     zoo_create_ttl E run a path val acl mode (- 1) path_buffer path_buffer_len c"

definition zoo_create2_ttl ::
  "os \<Rightarrow> (client \<Rightarrow> client option) \<Rightarrow> nat \<Rightarrow> cstr \<Rightarrow> cbuffer \<Rightarrow> ACL_vector option \<Rightarrow> i32 \<Rightarrow> i64 \<Rightarrow> bytes option \<Rightarrow> int \<Rightarrow> Stat option \<Rightarrow>
   client \<Rightarrow> (int \<times> bytes option \<times> Stat option \<times> client) option" where
  "zoo_create2_ttl E run a path val acl mode ttl path_buffer path_buffer_len stat c = do {
     (rc, s, c) \<leftarrow> sync_call E run a (U_str path_buffer_len) path_buffer
       (zoo_acreate2_ttl E path val acl mode ttl SYNCHRONOUS_MARKER a) c;
     st \<leftarrow> stat_out rc s stat;
     Some (rc, written path_buffer s, st, c)
   }"

definition zoo_create2 where
  "zoo_create2 E run a path val acl mode path_buffer path_buffer_len stat c =
     zoo_create2_ttl E run a path val acl mode (- 1) path_buffer path_buffer_len stat c"

definition zoo_delete :: "os \<Rightarrow> (client \<Rightarrow> client option) \<Rightarrow> nat \<Rightarrow> cstr \<Rightarrow> i32 \<Rightarrow> client \<Rightarrow> (int \<times> client) option" where
  "zoo_delete E run a path version c = plain_call E run a (zoo_adelete E path version SYNCHRONOUS_MARKER a) c"

definition zoo_wexists ::
  "os \<Rightarrow> (client \<Rightarrow> client option) \<Rightarrow> nat \<Rightarrow> cstr \<Rightarrow> nat \<Rightarrow> nat \<Rightarrow> Stat option \<Rightarrow> client \<Rightarrow> (int \<times> Stat option \<times> client) option" where
  "zoo_wexists E run a path watcher watcherCtx stat c = do {
     (rc, s, c) \<leftarrow> sync_call E run a U_none None (zoo_awexists E path watcher watcherCtx SYNCHRONOUS_MARKER a) c;
     st \<leftarrow> stat_out rc s stat;
     Some (rc, st, c)
   }"

definition zoo_exists where
  "zoo_exists E run a path watch stat c = do {
     _ \<leftarrow> c_assert (\<not> w_null c);
     zoo_wexists E run a path (if watch then zh_watcher c else 0) (zh_context c) stat c
   }"

definition data_call ::
  "os \<Rightarrow> (client \<Rightarrow> client option) \<Rightarrow> nat \<Rightarrow> bytes option \<Rightarrow> int option \<Rightarrow> Stat option \<Rightarrow> (client \<Rightarrow> (int \<times> client) option) \<Rightarrow> client \<Rightarrow>
   (int \<times> bytes option \<times> int option \<times> Stat option \<times> client) option" where
  \<comment> \<open>the common body of \<^verbatim>\<open>zoo_wget\<close> and \<^verbatim>\<open>zoo_reconfig\<close>; the null pointers are \<open>None\<close>\<close>
  "data_call E run a buffer buffer_len stat call c =
     (case buffer_len of
        None \<Rightarrow> Some (ZBADARGUMENTS, buffer, None, stat, c)
      | Some n \<Rightarrow> do {
          (rc, s, c) \<leftarrow> sync_call E run a (U_data n Stat_zero) buffer call c;
          (n, st) \<leftarrow> (if rc = 0 then
              (case s of
                 Some s \<Rightarrow> (case sc_u s of U_data n st \<Rightarrow> Some (n, if stat = None then None else Some st) | _ \<Rightarrow> None)
               | None \<Rightarrow> None)
            else Some (n, stat));
          Some (rc, written buffer s, Some n, st, c)
        })"

definition zoo_wget where
  "zoo_wget E run a path watcher watcherCtx buffer buffer_len stat c =
     data_call E run a buffer buffer_len stat (zoo_awget E path watcher watcherCtx SYNCHRONOUS_MARKER a) c"

definition zoo_get where
  "zoo_get E run a path watch buffer buffer_len stat c = do {
     _ \<leftarrow> c_assert (\<not> w_null c);
     zoo_wget E run a path (if watch then zh_watcher c else 0) (zh_context c) buffer buffer_len stat c
   }"

definition zoo_wgetconfig where
  "zoo_wgetconfig E run a watcher watcherCtx buffer buffer_len stat c =
     zoo_wget E run a (Some ''/zookeeper/config'') watcher watcherCtx buffer buffer_len stat c"

definition zoo_getconfig where
  "zoo_getconfig E run a watch buffer buffer_len stat c = do {
     _ \<leftarrow> c_assert (\<not> w_null c);
     zoo_wget E run a (Some ''/zookeeper/config'') (if watch then zh_watcher c else 0) (zh_context c) buffer buffer_len stat c
   }"

definition zoo_reconfig where
  "zoo_reconfig E run a joining leaving members version buffer buffer_len stat c =
     data_call E run a buffer buffer_len stat (zoo_areconfig E joining leaving members version SYNCHRONOUS_MARKER a) c"

definition zoo_set2 ::
  "os \<Rightarrow> (client \<Rightarrow> client option) \<Rightarrow> nat \<Rightarrow> cstr \<Rightarrow> cbuffer \<Rightarrow> i32 \<Rightarrow> Stat option \<Rightarrow> client \<Rightarrow> (int \<times> Stat option \<times> client) option" where
  "zoo_set2 E run a path buffer version stat c = do {
     (rc, s, c) \<leftarrow> sync_call E run a U_none None (zoo_aset E path buffer version SYNCHRONOUS_MARKER a) c;
     st \<leftarrow> stat_out rc s stat;
     Some (rc, st, c)
   }"

definition zoo_set where
  "zoo_set E run a path buffer version c = do { (rc, st, c) \<leftarrow> zoo_set2 E run a path buffer version None c; Some (rc, c) }"

definition zoo_wget_children_static ::
  "os \<Rightarrow> (client \<Rightarrow> client option) \<Rightarrow> nat \<Rightarrow> cstr \<Rightarrow> nat \<Rightarrow> nat \<Rightarrow> String_vector option \<Rightarrow> client \<Rightarrow>
   (int \<times> String_vector option \<times> client) option" where
  "zoo_wget_children_static E run a path watcher watcherCtx strings c = do {
     (rc, s, c) \<leftarrow> sync_call E run a U_none None (zoo_awget_children E path watcher watcherCtx SYNCHRONOUS_MARKER a) c;
     strings \<leftarrow> (if rc = 0 then do {
         s \<leftarrow> s;
         v \<leftarrow> (case sc_u s of U_strs v \<Rightarrow> Some v | _ \<Rightarrow> None);
         if strings \<noteq> None then Some (Some v) else do { _ \<leftarrow> deallocate_String_vector v; Some None }
       } else Some strings);
     Some (rc, strings, c)
   }"

definition zoo_wget_children2_static ::
  "os \<Rightarrow> (client \<Rightarrow> client option) \<Rightarrow> nat \<Rightarrow> cstr \<Rightarrow> nat \<Rightarrow> nat \<Rightarrow> String_vector option \<Rightarrow> Stat option \<Rightarrow> client \<Rightarrow>
   (int \<times> String_vector option \<times> Stat option \<times> client) option" where
  \<comment> \<open>the statistics are stored without a test of the pointer\<close>
  "zoo_wget_children2_static E run a path watcher watcherCtx strings stat c = do {
     (rc, s, c) \<leftarrow> sync_call E run a U_none None (zoo_awget_children2 E path watcher watcherCtx SYNCHRONOUS_MARKER a) c;
     (strings, stat) \<leftarrow> (if rc = 0 then do {
         s \<leftarrow> s;
         (v, st) \<leftarrow> (case sc_u s of U_strs_stat v st \<Rightarrow> Some (v, st) | _ \<Rightarrow> None);
         _ \<leftarrow> c_assert (stat \<noteq> None);
         if strings \<noteq> None then Some (Some v, Some st) else do { _ \<leftarrow> deallocate_String_vector v; Some (None, Some st) }
       } else Some (strings, stat));
     Some (rc, strings, stat, c)
   }"

definition zoo_get_children where
  "zoo_get_children E run a path watch strings c = do {
     _ \<leftarrow> c_assert (\<not> w_null c);
     zoo_wget_children_static E run a path (if watch then zh_watcher c else 0) (zh_context c) strings c
   }"

definition zoo_wget_children where
  "zoo_wget_children E run a path watcher watcherCtx strings c = zoo_wget_children_static E run a path watcher watcherCtx strings c"

definition zoo_get_children2 where
  "zoo_get_children2 E run a path watch strings stat c = do {
     _ \<leftarrow> c_assert (\<not> w_null c);
     zoo_wget_children2_static E run a path (if watch then zh_watcher c else 0) (zh_context c) strings stat c
   }"

definition zoo_wget_children2 where
  "zoo_wget_children2 E run a path watcher watcherCtx strings stat c =
     zoo_wget_children2_static E run a path watcher watcherCtx strings stat c"

definition zoo_get_acl ::
  "os \<Rightarrow> (client \<Rightarrow> client option) \<Rightarrow> nat \<Rightarrow> cstr \<Rightarrow> ACL_vector option \<Rightarrow> Stat option \<Rightarrow> client \<Rightarrow>
   (int \<times> ACL_vector option \<times> Stat option \<times> client) option" where
  "zoo_get_acl E run a path acl stat c = do {
     (rc, s, c) \<leftarrow> sync_call E run a U_none None (zoo_aget_acl E path SYNCHRONOUS_MARKER a) c;
     (acl, stat) \<leftarrow> (if rc = 0 then do {
         s \<leftarrow> s;
         (v, st) \<leftarrow> (case sc_u s of U_acl v st \<Rightarrow> Some (v, st) | _ \<Rightarrow> None);
         let stat = (if stat = None then None else Some st);
         if acl \<noteq> None then Some (Some v, stat) else do { _ \<leftarrow> deallocate_ACL_vector v; Some (None, stat) }
       } else Some (acl, stat));
     Some (rc, acl, stat, c)
   }"

definition zoo_set_acl where
  "zoo_set_acl E run a path version acl c = plain_call E run a (zoo_aset_acl E path version acl SYNCHRONOUS_MARKER a) c"

definition remove_watches ::
  "os \<Rightarrow> (client \<Rightarrow> client option) \<Rightarrow> nat \<Rightarrow> cstr \<Rightarrow> int \<Rightarrow> nat \<Rightarrow> nat \<Rightarrow> bool \<Rightarrow> bool \<Rightarrow> client \<Rightarrow> (int \<times> client) option" where
  "remove_watches E run a path wtype watcher wctx local all c =
     (if path = None then Some (ZBADARGUMENTS, c)
      else plain_call E run a (aremove_watches E path wtype watcher wctx local SYNCHRONOUS_MARKER a all) c)"

definition zoo_multi where
  "zoo_multi E run a ops results c = plain_call E run a (zoo_amulti E ops results SYNCHRONOUS_MARKER a) c"

definition zoo_remove_watches where
  "zoo_remove_watches E run a path wtype watcher watcherCtx local c = remove_watches E run a path wtype watcher watcherCtx local False c"

definition zoo_remove_all_watches where
  "zoo_remove_all_watches E run a path wtype local c = remove_watches E run a path wtype 0 0 local True c"

section \<open>A reply to a waiting thread\<close>

definition sync_answered :: "nat \<Rightarrow> sync_completion \<Rightarrow> completion_list list \<Rightarrow> i64 \<Rightarrow> watch_tables \<Rightarrow> client \<Rightarrow> client" where
  "sync_answered a s es z w c = c\<lparr>zh_sent_requests := es, zh_last_zxid := z, zh_watchers := w,
     w_syncs := (w_syncs c)(a \<mapsto> s\<lparr>sc_complete := True\<rparr>), zh_outstanding_sync := zh_outstanding_sync c - 1\<rparr>"

lemma process_sync_answer:
  assumes "heap_ok (os_host E)" and "tables_wf (zh_watchers c)" and "zh_sent_requests c = e # es" and "regs_ok e" and "is_sync e"
    and "os_threaded E" and "cl_type e \<noteq> COMPLETION_MULTI" and "w_syncs c (cl_data e) = Some s"
    and "arrived (enc_ReplyHeader h @ bs) b" and "ReplyHeader_xid h = cl_xid e" and "\<not> reserved_xid (cl_xid e)"
    and res: "\<And>ia. over ia \<Longrightarrow> over_rest ia = bs \<Longrightarrow>
      sync_result E (cl_type e) (zh_chroot c) ia (s\<lparr>sc_rc := sint (ReplyHeader_err h)\<rparr>) = Some s'"
  shows "\<exists>w. process_buffer E b c = Some (None, sync_answered (cl_data e) s' es (new_zxid h (zh_last_zxid c)) w c) \<and> tables_wf w"
proof -
  have gh: "good_host (os_host E)" using assms(1) by (simp add: heap_ok_def)
  obtain ia ia' where ia: "create_buffer_iarchive (os_host E) (bl_buffer b) (bl_curr_offset b) = Some ia"
    "reply_header (os_host E) ia = Some (16, h, ia')" "over ia'" "over_rest ia' = bs"
    using open_arrived [OF gh assms(9)] by blast
  obtain w1 w2 where w: "activateWatcher (os_host E) (zh_watchers c) (cl_watcher e) (sint (ReplyHeader_err h)) = Some w1"
    "deactivateWatcher w1 (cl_watcher_deregistration e) (sint (ReplyHeader_err h)) = Some w2" "tables_wf w2"
    using update_watchers_ok [OF assms(1,2,4)] by blast
  let ?d = "c\<lparr>zh_sent_requests := es, zh_last_zxid := new_zxid h (zh_last_zxid c), zh_watchers := w2\<rparr>"
  have "process_buffer E b c = answer_request E 16 h ia' b c"
    using ia(1,2) assms(10,11) by (simp add: process_buffer_def reserved_xid_def)
  also have "\<dots> = do { c \<leftarrow> dispatch_sync E e (sint (ReplyHeader_err h)) ia' ?d; Some (None, c) }"
    using assms(3,5,6,10) w(1,2) by (simp add: answer_request_def is_sync_def new_zxid_def Let_def)
  also have "dispatch_sync E e (sint (ReplyHeader_err h)) ia' ?d =
      Some (sync_answered (cl_data e) s' es (new_zxid h (zh_last_zxid c)) w2 c)"
    using res [OF ia(3,4)] assms(7,8) by (simp add: dispatch_sync_def process_sync_completion_def sync_answered_def Let_def)
  finally show ?thesis using w(3) by auto
qed

definition answers_with :: "os \<Rightarrow> buffer_list \<Rightarrow> client \<Rightarrow> client option" where
  \<comment> \<open>what the other threads do: the reply arrives and the I/O thread processes it\<close>
  "answers_with E b c = map_option snd (process_buffer E b c)"

lemma issued_fields:
  assumes "issues E c r op bs e"
  shows "\<exists>c'. r = Some (ZOK, c') \<and> zh_sent_requests c' = zh_sent_requests c @ [e] \<and> w_syncs c' = w_syncs c \<and>
    zh_watchers c' = zh_watchers c \<and> zh_chroot c' = zh_chroot c"
proof -
  obtain c' where c': "r = Some (ZOK, c')" "io_rest c' = io_rest (accepted E e c)" using assms by (auto simp: issues_def)
  have "w_syncs c' = w_syncs (accepted E e c)" using arg_cong [OF c'(2), of w_syncs] by (simp add: io_rest_def)
  with c' io_rest_fields [OF c'(2)] show ?thesis by (simp add: accepted_def drew_xid_def)
qed

lemma sync_call_answered:
  fixes c :: client and a :: nat and u :: sync_union and buf :: "bytes option"
  defines "s0 \<equiv> \<lparr>sc_rc = 0, sc_complete = False, sc_u = u, sc_buffer = buf\<rparr>"
  defines "c0 \<equiv> c\<lparr>w_syncs := (w_syncs c)(a \<mapsto> s0)\<rparr>"
  assumes "heap_ok (os_host E)" and "os_threaded E" and "tables_wf (zh_watchers c)" and "zh_sent_requests c = []"
    and call: "issues E c0 (call c0) op req e"
    and "regs_ok e" and "is_sync e" and "cl_type e \<noteq> COMPLETION_MULTI" and "cl_data e = a"
    and "arrived (enc_ReplyHeader h @ bs) b" and "ReplyHeader_xid h = cl_xid e" and "\<not> reserved_xid (cl_xid e)"
    and res: "\<And>ia. over ia \<Longrightarrow> over_rest ia = bs \<Longrightarrow>
      sync_result E (cl_type e) (zh_chroot c) ia (s0\<lparr>sc_rc := sint (ReplyHeader_err h)\<rparr>) = Some s'"
  shows "\<exists>c'. sync_call E (answers_with E b) a u buf call c = Some (sc_rc s', Some (s'\<lparr>sc_complete := True\<rparr>), c') \<and>
    zh_sent_requests c' = [] \<and> w_syncs c' = (w_syncs c)(a := None)"
proof -
  obtain c1 where c1: "call c0 = Some (ZOK, c1)" "zh_sent_requests c1 = [e]" "w_syncs c1 = (w_syncs c)(a \<mapsto> s0)"
    "zh_watchers c1 = zh_watchers c" "zh_chroot c1 = zh_chroot c"
    using issued_fields [OF call] assms(6) by (auto simp: c0_def)
  have tw: "tables_wf (zh_watchers c1)" using assms(5) c1(4) by simp
  have sy: "w_syncs c1 (cl_data e) = Some s0" using c1(3) assms(11) by simp
  obtain w where w: "process_buffer E b c1 = Some (None, sync_answered a s' [] (new_zxid h (zh_last_zxid c1)) w c1)"
    using process_sync_answer [OF assms(3) tw c1(2) assms(8,9,4,10) sy assms(12-14), of s'] res c1(5) assms(11) by auto
  let ?d = "sync_answered a s' [] (new_zxid h (zh_last_zxid c1)) w c1"
  have "grants (os_host E) 192" using assms(3) by (simp add: heap_ok_def good_hostD)
  then have "sync_call E (answers_with E b) a u buf call c = Some (sc_rc s', Some (s'\<lparr>sc_complete := True\<rparr>), free_sync_completion a ?d)"
    using c1(1) sy w assms(11)
    by (simp add: sync_call_def alloc_sync_completion_def wait_sync_completion_def answers_with_def sync_answered_def
        s0_def c0_def)
  then show ?thesis using c1(3) by (simp add: free_sync_completion_def sync_answered_def)
qed

lemma get_result:
  assumes "good_host (os_host E)" and "GetDataResponse_ok v" and "cb_buff (GetDataResponse_data v) = Some d"
    and "0 \<le> n" and "n \<le> int (length buf)" and "over ia" and "over_rest ia = enc_GetDataResponse v @ rest"
    and "sc_rc s = 0" and "sc_u s = U_data n st" and "sc_buffer s = Some buf"
  shows "sync_result E COMPLETION_DATA chroot ia s = Some (s\<lparr>sc_u := U_data (min (int (length d)) n) (GetDataResponse_stat v),
    sc_buffer := Some (take (nat n) d @ drop (min (length d) (nat n)) buf)\<rparr>)"
proof -
  let ?k = "min (length d) (nat n)"
  obtain ia' where ia: "reply (deserialize_GetDataResponse (os_host E)) GetDataResponse_zero (Some ia) = Some (v, ia')"
    using reply_over [OF responses_local(1) GetDataResponse_reads [OF assms(1,2)] assms(6,7)] by blast
  have len: "sint (cb_len (GetDataResponse_data v)) = int (length d)"
    using assms(2,3) by (simp add: GetDataResponse_ok_def cbuffer_ok_def)
  have r: "mem_read (Some d) 0 (int ?k) = Some (take (nat n) d)" by (simp add: mem_read_def min_def)
  have w: "mem_write (Some buf) 0 (take (nat n) d) = Some (take (nat n) d @ drop ?k buf)"
    using assms(4,5) by (auto simp: mem_write_def min_def)
  show ?thesis
  proof (cases "int (length d) \<le> n")
    case True
    then have "length d \<le> nat n" by simp
    with True r w ia len assms(3,8-10) show ?thesis
      by (simp add: sync_result_def deallocate_GetDataResponse_def deallocate_Stat_def Let_def)
  next
    case False
    then have "?k = nat n" using assms(4) by auto
    with False r w ia len assms(3,4,8-10) show ?thesis
      by (simp add: sync_result_def deallocate_GetDataResponse_def deallocate_Stat_def Let_def)
  qed
qed

text \<open>
  A synchronous read is a round trip: when the reply to its request arrives, \<open>zoo_wget\<close> returns the error of the server with
  the caller's memory untouched, or \<open>ZOK\<close> with the data of the node cut to the caller's buffer, the number of bytes stored and the
  statistics; the waiting structure is freed and no request stays behind.
\<close>

theorem sync_get_returns_reply:
  assumes "heap_ok (os_host E)" and "os_threaded E" and "works E c" and "path_fits (zh_chroot c) path"
    and "p = server_path (zh_chroot c) path" and "valid_path 0 p" and "0 \<le> zh_state c" and "\<not> zh_close_requested c"
    and "length p + 17 \<le> 2 ^ 27" and "tables_wf (zh_watchers c)" and "zh_sent_requests c = []" and "\<not> reserved_xid (next_xid E c)"
    and "arrived (enc_ReplyHeader h @ (if ReplyHeader_err h = 0 then enc_GetDataResponse v @ rest else rest)) b"
    and "ReplyHeader_xid h = next_xid E c" and "GetDataResponse_ok v" and "cb_buff (GetDataResponse_data v) = Some d"
    and "0 \<le> n" and "n \<le> int (length buf)"
  shows "\<exists>c'. zoo_wget E (answers_with E b) a (Some path) w ctx (Some buf) (Some n) (Some st) c =
      (if ReplyHeader_err h = 0
       then Some (ZOK, Some (take (nat n) d @ drop (min (length d) (nat n)) buf), Some (min (int (length d)) n),
         Some (GetDataResponse_stat v), c')
       else Some (sint (ReplyHeader_err h), Some buf, Some n, Some st, c')) \<and>
    zh_sent_requests c' = [] \<and> w_syncs c' = (w_syncs c)(a := None)"
proof -
  let ?init = "\<lparr>sc_rc = 0, sc_complete = False, sc_u = U_data n Stat_zero, sc_buffer = Some buf\<rparr>"
  let ?start = "c\<lparr>w_syncs := (w_syncs c)(a \<mapsto> ?init)\<rparr>"
  let ?e = "request_entry COMPLETION_DATA SYNCHRONOUS_MARKER a (registration w ctx data_result_checker p) (next_xid E c)"
  let ?bs = "if ReplyHeader_err h = 0 then enc_GetDataResponse v @ rest else rest"
  define R where "R = (if ReplyHeader_err h = 0 then ?init\<lparr>sc_u := U_data (min (int (length d)) n) (GetDataResponse_stat v),
    sc_buffer := Some (take (nat n) d @ drop (min (length d) (nat n)) buf)\<rparr> else ?init\<lparr>sc_rc := sint (ReplyHeader_err h)\<rparr>)"
  have gh: "good_host (os_host E)" using assms(1) by (simp add: heap_ok_def)
  have err: "ReplyHeader_err h \<noteq> 0 \<Longrightarrow> sint (ReplyHeader_err h) \<noteq> 0" by (metis signed_0 signed_word_eqI)
  have nx: "next_xid E ?start = next_xid E c" by (simp add: next_xid_def)
  have "works E ?start" using assms(3) nx by (simp add: works_def xid_left_def)
  then have "issues E ?start (zoo_awget E (Some path) w ctx SYNCHRONOUS_MARKER a ?start) ZOO_GETDATA_OP
      (enc_GetDataRequest \<lparr>GetDataRequest_path = Some p, GetDataRequest_watch = (if w \<noteq> 0 then 1 else 0)\<rparr>)
      (request_entry COMPLETION_DATA SYNCHRONOUS_MARKER a (registration w ctx data_result_checker p) (next_xid E ?start))"
    using assms(4-9) by (intro awget.issued) (simp_all add: enc_GetDataRequest_def path_request_length)
  then have iss: "issues E ?start (zoo_awget E (Some path) w ctx SYNCHRONOUS_MARKER a ?start) ZOO_GETDATA_OP
      (enc_GetDataRequest \<lparr>GetDataRequest_path = Some p, GetDataRequest_watch = (if w \<noteq> 0 then 1 else 0)\<rparr>) ?e"
    unfolding nx .
  have res: "sync_result E COMPLETION_DATA (zh_chroot c) ia (?init\<lparr>sc_rc := sint (ReplyHeader_err h)\<rparr>) = Some R"
    if "over ia" "over_rest ia = ?bs" for ia
  proof (cases "ReplyHeader_err h = 0")
    case True
    then show ?thesis using get_result [OF gh assms(15-18) that(1), of rest ?init Stat_zero] that(2) by (simp add: R_def)
  next
    case False
    then show ?thesis using err by (simp add: R_def sync_result_def Let_def)
  qed
  have "regs_ok ?e" using assms(9) by (simp add: regs_ok_def request_entry_def registration_def)
  then have "\<exists>c'. sync_call E (answers_with E b) a (U_data n Stat_zero) (Some buf) (zoo_awget E (Some path) w ctx SYNCHRONOUS_MARKER a) c =
      Some (sc_rc R, Some (R\<lparr>sc_complete := True\<rparr>), c') \<and> zh_sent_requests c' = [] \<and> w_syncs c' = (w_syncs c)(a := None)"
    using assms(12-14) res
    by (intro sync_call_answered [where call = "zoo_awget E (Some path) w ctx SYNCHRONOUS_MARKER a", OF assms(1,2,10,11) iss])
       (simp_all add: request_entry_def is_sync_def)
  then show ?thesis
    using err by (cases "ReplyHeader_err h = 0") (auto simp: zoo_wget_def data_call_def written_def R_def)
qed

definition threaded_os :: os where
  "threaded_os = test_os\<lparr>os_threaded := True\<rparr>"

definition short_data :: GetDataResponse where
  "short_data = \<lparr>GetDataResponse_data = \<lparr>cb_len = 2, cb_buff = Some ''hi''\<rparr>, GetDataResponse_stat = Stat_zero\<rparr>"

definition short_data_reply :: bytes where
  "short_data_reply = enc_ReplyHeader \<lparr>ReplyHeader_xid = 5, ReplyHeader_zxid = 9, ReplyHeader_err = 0\<rparr> @ enc_GetDataResponse short_data"

theorem sync_get_returns_reply_witness:
  "\<exists>c'. zoo_wget threaded_os (answers_with threaded_os (arrived_reply short_data_reply)) 40 (Some ''/a'') 0 0 (Some ''....'') (Some 4)
      (Some Stat_zero) test_client = Some (ZOK, Some ''hi..'', Some 2, Some Stat_zero, c') \<and> zh_sent_requests c' = []"
proof -
  let ?h = "\<lparr>ReplyHeader_xid = 5, ReplyHeader_zxid = 9, ReplyHeader_err = 0\<rparr>"
  have len: "length short_data_reply = 90"
    by (simp add: short_data_reply_def enc_ReplyHeader_def enc_GetDataResponse_def short_data_def enc_buffer_def enc_Stat_def)
  have "arrived (enc_ReplyHeader ?h @ enc_GetDataResponse short_data @ []) (arrived_reply short_data_reply)"
    by (simp add: arrived_def arrived_reply_def len flip: short_data_reply_def)
  moreover have "GetDataResponse_ok short_data" by (simp add: GetDataResponse_ok_def short_data_def cbuffer_ok_def Stat_ok_def)
  moreover have "heap_ok (os_host threaded_os)" "os_threaded threaded_os" using heap_ok_test by (simp_all add: threaded_os_def)
  moreover have "works threaded_os test_client" "next_xid threaded_os test_client = 5"
    using works_test by (simp_all add: works_def threaded_os_def xid_left_def next_xid_def has_clock_def)
  ultimately show ?thesis
    using sync_get_returns_reply [of threaded_os test_client "''/a''" "''/a''" ?h short_data "[]" "arrived_reply short_data_reply" "''hi''" 4 "''....''" 40 0 0 Stat_zero]
      no_watchers_wf
    by (auto simp: path_fits_def server_path_def reserved_xid_def short_data_def)
qed

text \<open>
  Watches can be removed without the server: in the threaded library a local removal returns at once, whatever the other threads
  do and whatever the state of the session, with \<open>ZOK\<close> and the watches taken out of the tables, or with \<open>ZNOWATCHER\<close> and nothing
  changed when the path has no such watcher; nothing is sent, and the structure of the caller is freed.
\<close>

theorem local_removal_needs_no_server:
  assumes "good_host (os_host E)" and "os_threaded E" and "\<not> w_null c" and "path_fits (zh_chroot c) path"
    and "p = server_path (zh_chroot c) path" and "valid_path 0 p" and "w_syncs c a = None"
  shows "zoo_remove_watches E run a (Some path) wtype w ctx True c =
    (if pathHasWatcher (zh_watchers c) p wtype w ctx
     then Some (ZOK, (drew_xid E c)\<lparr>zh_watchers := removeWatchers (zh_watchers c) p wtype w ctx\<rparr>)
     else Some (ZNOWATCHER, drew_xid E c))"
proof -
  have "get_xid E d = Some (next_xid E d, drew_xid E d)" for d using assms(2) by (intro get_xid_next) (simp add: xid_left_def)
  moreover have "(w_syncs c)(a := None) = w_syncs c" using assms(7) by auto
  ultimately show ?thesis
    using assms(1-6) prepend_server_path [OF assms(1,4)]
    by (simp add: zoo_remove_watches_def remove_watches_def plain_call_def sync_call_def alloc_sync_completion_def good_hostD
        aremove_watches_def handle_chroot_def isValidPath_iff path_fits_def notify_sync_completion_def wait_sync_completion_def
        free_sync_completion_def drew_xid_def next_xid_def Let_def)
qed

theorem local_removal_needs_no_server_witness:
  "zoo_remove_watches threaded_os (\<lambda>_. None) 40 (Some ''/a'') 3 9 8 True test_client = Some (ZNOWATCHER, drew_xid threaded_os test_client)"
proof -
  have "good_host (os_host threaded_os)" "os_threaded threaded_os" "w_syncs test_client 40 = None"
    using heap_ok_test by (simp_all add: threaded_os_def heap_ok_def) (simp add: test_client_def)
  moreover have "\<not> pathHasWatcher no_watchers ''/a'' 3 9 8" by (simp add: pathHasWatcher_def containsWatcher_def)
  ultimately show ?thesis
    using local_removal_needs_no_server [of threaded_os test_client "''/a''" "''/a''" 40 "\<lambda>_. None" 3 9 8]
    by (simp add: path_fits_def server_path_def)
qed

end
