(* ===== verification/Outcome.thy ===== *)
theory Outcome
  imports ZkPrelude
begin

text \<open>
  A small calculus for the results of the model. An operation whose C behaviour is undefined has the result \<open>None\<close>; \<open>holds P m\<close>
  says that the result of \<open>m\<close>, when there is one, satisfies \<open>P\<close>. The rules follow the shape of the definitions, so that a statement
  about every branch of an operation is a statement about its leaves.
\<close>

definition holds :: "('a \<Rightarrow> bool) \<Rightarrow> 'a option \<Rightarrow> bool" where
  "holds P m \<longleftrightarrow> (\<forall>x. m = Some x \<longrightarrow> P x)"

named_theorems holds_intros

lemma holdsD: "holds P m \<Longrightarrow> m = Some x \<Longrightarrow> P x"
  by (simp add: holds_def)

lemma holdsI: "(\<And>x. m = Some x \<Longrightarrow> P x) \<Longrightarrow> holds P m"
  by (simp add: holds_def)

lemma holds_mono: "holds Q m \<Longrightarrow> (\<And>x. Q x \<Longrightarrow> P x) \<Longrightarrow> holds P m"
  by (auto simp: holds_def)

lemma holds_conj: "holds P m \<Longrightarrow> holds Q m \<Longrightarrow> holds (\<lambda>x. P x \<and> Q x) m"
  by (simp add: holds_def)

lemma holds_None [simp, holds_intros]: "holds P None"
  by (simp add: holds_def)

lemma holds_Some [simp]: "holds P (Some x) \<longleftrightarrow> P x"
  by (simp add: holds_def)

lemma holds_SomeI [holds_intros]: "P x \<Longrightarrow> holds P (Some x)"
  by simp

lemma holds_bind [holds_intros]: "holds (\<lambda>x. holds P (f x)) m \<Longrightarrow> holds P (m \<bind> f)"
  by (auto simp: holds_def bind_eq_Some_conv)

lemma holds_if [holds_intros]: "(b \<Longrightarrow> holds P m) \<Longrightarrow> (\<not> b \<Longrightarrow> holds P n) \<Longrightarrow> holds P (if b then m else n)"
  by simp

lemma holds_option_case [holds_intros]:
  "(x = None \<Longrightarrow> holds P m) \<Longrightarrow> (\<And>y. x = Some y \<Longrightarrow> holds P (f y)) \<Longrightarrow> holds P (case x of None \<Rightarrow> m | Some y \<Rightarrow> f y)"
  by (cases x) simp_all

lemma holds_list_case [holds_intros]:
  "(xs = [] \<Longrightarrow> holds P m) \<Longrightarrow> (\<And>y ys. xs = y # ys \<Longrightarrow> holds P (f y ys)) \<Longrightarrow>
   holds P (case xs of [] \<Rightarrow> m | y # ys \<Rightarrow> f y ys)"
  by (cases xs) simp_all

lemma holds_prod_case [holds_intros]: "(\<And>a b. x = (a, b) \<Longrightarrow> holds P (f a b)) \<Longrightarrow> holds P (case x of (a, b) \<Rightarrow> f a b)"
  by (cases x) simp

lemma holds_let [holds_intros]: "(\<And>y. y = x \<Longrightarrow> holds P (f y)) \<Longrightarrow> holds P (Let x f)"
  by simp

lemma holds_c_assert [holds_intros]: "(b \<Longrightarrow> P ()) \<Longrightarrow> holds P (c_assert b)"
  by (simp add: holds_def c_assert_def)

lemma holds_any: "(\<And>x. P x) \<Longrightarrow> holds P m"
  by (simp add: holds_def)

end
