(* ===== verification/Servers.thy ===== *)
theory Servers
  imports Handle Outcome
begin

text \<open>
  The list of servers of \<^verbatim>\<open>src/zookeeper.c\<close>: \<^verbatim>\<open>resolve_hosts\<close> turns the connection string into addresses, \<^verbatim>\<open>update_addrs\<close>
  compares them with the addresses in use and decides whether the client has to move, \<^verbatim>\<open>zoo_cycle_next_server\<close> picks the
  server to try next. The static flag \<^verbatim>\<open>disable_conn_permute\<close> is the argument \<open>fixed_order\<close>. The seed that \<^verbatim>\<open>setup_random\<close> reads
  is part of the random numbers of the environment. The lemmas show that the new list is split into the servers that stay and those
  that are new, that a client whose server went away is disconnected, and that a client that moves tries every server of the new
  list once before it goes round robin.
\<close>

abbreviation (input) ZOO_NOTCONNECTED_STATE :: int where "ZOO_NOTCONNECTED_STATE \<equiv> 999"

section \<open>Parsing the connection string\<close>

definition is_space :: "char \<Rightarrow> bool" where
  "is_space c \<longleftrightarrow> of_char c = (32 :: nat) \<or> 9 \<le> (of_char c :: nat) \<and> of_char c \<le> (13 :: nat)"

definition digit_value :: "char \<Rightarrow> nat" where
  \<comment> \<open>36 for a character that is no digit in any base\<close>
  "digit_value c =
     (let n = of_char c :: nat in
      if 48 \<le> n \<and> n \<le> 57 then n - 48
      else if 97 \<le> n \<and> n \<le> 122 then n - 87
      else if 65 \<le> n \<and> n \<le> 90 then n - 55
      else 36)"

definition strtol :: "bytes \<Rightarrow> int \<times> bytes" where
  \<comment> \<open>\<^verbatim>\<open>strtol(s, &end, 0)\<close>: the value, kept within 64 bits, and the text from \<^verbatim>\<open>end\<close> on\<close>
  "strtol s =
     (let t = dropWhile is_space s;
          neg = (t \<noteq> [] \<and> hd t = CHR ''-'');
          t = (if t \<noteq> [] \<and> hd t \<in> set ''+-'' then tl t else t);
          hex = (take 2 t = ''0x'' \<or> take 2 t = ''0X'') \<and> length t > 2 \<and> digit_value (t ! 2) < 16;
          base = (if hex then 16 else if t \<noteq> [] \<and> hd t = CHR ''0'' then 8 else 10);
          t = (if hex then drop 2 t else t);
          ds = takeWhile (\<lambda>c. digit_value c < base) t;
          v = foldl (\<lambda>n c. n * int base + int (digit_value c)) 0 ds
      in if ds = [] then (0, s)
         else (if neg then max (- (2 ^ 63)) (- v) else min (2 ^ 63 - 1) v, drop (length ds) t))"

fun strtok :: "bytes \<Rightarrow> bytes \<Rightarrow> bytes list" where
  \<comment> \<open>the tokens that \<^verbatim>\<open>strtok_r\<close> with the delimiter \<^verbatim>\<open>,\<close> returns; empty ones are skipped\<close>
  "strtok acc [] = (if acc = [] then [] else [rev acc])"
| "strtok acc (c # s) = (if c = CHR '','' then (if acc = [] then [] else [rev acc]) @ strtok [] s else strtok (c # acc) s)"

definition split_port :: "bytes \<Rightarrow> (bytes \<times> bytes) option" where
  \<comment> \<open>the text before and after the last colon\<close>
  "split_port host =
     (if CHR '':'' \<in> set host
      then Some (rev (tl (dropWhile (\<lambda>c. c \<noteq> CHR '':'') (rev host))), rev (takeWhile (\<lambda>c. c \<noteq> CHR '':'') (rev host)))
      else None)"

section \<open>Resolving the hosts\<close>

fun append_results :: "os \<Rightarrow> (nat \<times> addrinfo) list \<Rightarrow> addrvec \<Rightarrow> (int \<times> addrvec) option" where
  \<comment> \<open>the loop over the answers of the resolver; what \<^verbatim>\<open>addrvec_append_addrinfo\<close> returns is not looked at\<close>
  "append_results E [] avec = Some (ZOK, avec)"
| "append_results E ((family, ai) # res) avec = do {
     (rc, avec) \<leftarrow> (if av_count avec = av_capacity avec then addrvec_grow_default (os_host E) avec else Some (0, avec));
     if rc \<noteq> 0 then Some (ZSYSTEMERROR, avec)
     else if family = AF_INET \<or> family = AF_INET6 then do {
       (r, avec) \<leftarrow> addrvec_append_addrinfo (os_host E) avec ai;
       append_results E res avec
     }
     else append_results E res avec
   }"

definition get_addresses :: "os \<Rightarrow> bytes \<Rightarrow> bytes \<Rightarrow> nat \<Rightarrow> (nat \<times> addrinfo) list option \<times> nat" where
  \<comment> \<open>\<^verbatim>\<open>getaddrinfo\<close>, asked again without \<^verbatim>\<open>AI_ADDRCONFIG\<close> when it does not know that flag; the number of system calls goes along\<close>
  "get_addresses E host port n =
     (case os_getaddrinfo E n True host port of
        Gai_ok res \<Rightarrow> (Some res, Suc n)
      | Gai_bad_flags \<Rightarrow>
          (case os_getaddrinfo E (Suc n) False host port of Gai_ok res \<Rightarrow> (Some res, Suc (Suc n)) | _ \<Rightarrow> (None, Suc (Suc n)))
      | Gai_failed rc \<Rightarrow> (None, Suc n))"

fun resolve_loop :: "os \<Rightarrow> bytes list \<Rightarrow> nat \<Rightarrow> addrvec \<Rightarrow> (int \<times> nat \<times> addrvec) option" where
  "resolve_loop E [] n avec = Some (ZOK, n, avec)"
| "resolve_loop E (host # hosts) n avec =
     (case split_port host of
        None \<Rightarrow> Some (ZBADARGUMENTS, n, avec)
      | Some (host, port_spec) \<Rightarrow>
          let (v, end_port_spec) = strtol port_spec; port = word_of_int v :: i32 in
          if port_spec = [] \<or> end_port_spec \<noteq> [] \<or> port = 0 then Some (ZBADARGUMENTS, n, avec)
          else
            case get_addresses E (dropWhile is_space host) port_spec n of
              (None, n) \<Rightarrow> resolve_loop E hosts n avec
            | (Some res, n) \<Rightarrow> do {
                (rc, avec) \<leftarrow> append_results E res avec;
                if rc \<noteq> ZOK then Some (rc, n, avec) else resolve_loop E hosts n avec
              })"

definition resolve_hosts :: "os \<Rightarrow> bool \<Rightarrow> cstr \<Rightarrow> client \<Rightarrow> (int \<times> addrvec \<times> client) option" where
  "resolve_hosts E fixed_order hosts_in c =
     (case hosts_in of
        None \<Rightarrow> Some (ZBADARGUMENTS, addrvec_init, c)
      | Some hosts \<Rightarrow>
          if w_null c then Some (ZBADARGUMENTS, addrvec_init, c)
          else if \<not> grants (os_host E) (int (length hosts) + 1) then Some (ZSYSTEMERROR, addrvec_init, c)
          else if count_hosts (Some hosts) = 0 then Some (ZOK, addrvec_init, c)
          else do {
            (rc, avec) \<leftarrow> addrvec_alloc_capacity (os_host E) (of_nat (count_hosts (Some hosts)));
            if rc \<noteq> 0 then Some (ZSYSTEMERROR, addrvec_init, c)
            else do {
              (rc, n, avec) \<leftarrow> resolve_loop E (strtok [] hosts) (w_ticks c) avec;
              let c = c\<lparr>w_ticks := n\<rparr>;
              if rc \<noteq> ZOK then Some (rc, addrvec_init, c)
              else if av_count avec = 0 then Some (ZSYSTEMERROR, addrvec_init, c)
              else if fixed_order then Some (ZOK, avec, c)
              else do {
                (n, avec) \<leftarrow> addrvec_shuffle (os_random E) (w_ticks c) avec;
                Some (ZOK, avec, c\<lparr>w_ticks := n\<rparr>)
              }
            }
          })"

section \<open>A new list of servers\<close>

fun split_loop ::
  "os \<Rightarrow> addrvec \<Rightarrow> addrvec \<Rightarrow> nat \<Rightarrow> nat \<Rightarrow> addrvec \<Rightarrow> addrvec \<Rightarrow> (int \<times> addrvec \<times> addrvec) option" where
  \<comment> \<open>the servers of \<open>resolved\<close> from an index on go to the old list when they are in use already, else to the new list\<close>
  "split_loop E addrs resolved 0 i old new = Some (ZOK, old, new)"
| "split_loop E addrs resolved (Suc k) i old new = do {
     x \<leftarrow> data_at (av_data resolved) i;
     known \<leftarrow> addrvec_contains (os_host E) (Some addrs) (Some x);
     (rc, old, new) \<leftarrow>
       (if known then do { (rc, old) \<leftarrow> addrvec_append (os_host E) old x; Some (rc, old, new) }
        else do { (rc, new) \<leftarrow> addrvec_append (os_host E) new x; Some (rc, old, new) });
     if rc \<noteq> ZOK then Some (rc, old, new) else split_loop E addrs resolved k (Suc i) old new
   }"

definition double_div :: "os \<Rightarrow> i32 \<Rightarrow> i32 \<Rightarrow> rat option" where
  \<comment> \<open>the quotient of two unsigned numbers as a \<^verbatim>\<open>double\<close>\<close>
  "double_div E x y = (if y = 0 then None else Some (os_round E (of_nat (unat x) / of_nat (unat y))))"

definition double_le :: "rat \<Rightarrow> rat option \<Rightarrow> bool" where
  \<comment> \<open>comparison with a number that may not be finite (no number, or minus infinity): false\<close>
  "double_le x y = (case y of None \<Rightarrow> False | Some y \<Rightarrow> x \<le> y)"

definition one_minus :: "os \<Rightarrow> rat option \<Rightarrow> rat option" where
  "one_minus E x = map_option (\<lambda>x. os_round E (1 - x)) x"

definition drand48 :: "os \<Rightarrow> client \<Rightarrow> rat \<times> client" where
  "drand48 E c = (os_drand48 E (w_ticks c), c\<lparr>w_ticks := w_ticks c + 1\<rparr>)"

definition decide_move :: "os \<Rightarrow> bool \<Rightarrow> client \<Rightarrow> client" where
  \<comment> \<open>the branches of \<^verbatim>\<open>update_addrs\<close> that set the probabilities; the counts are unsigned and wrap\<close>
  "decide_move E found_current c =
     (let num_old = av_count (zh_addrs_old c); num_new = av_count (zh_addrs_new c); count = av_count (zh_addrs c) in
      if num_old + num_new > count then
        (if found_current then
           (let (r, c) = drand48 E c in
            if double_le r (one_minus E (double_div E count (num_old + num_new)))
            then c\<lparr>zh_pNew := Some 1, zh_pOld := Some 0\<rparr> else c\<lparr>zh_reconfig := False\<rparr>)
         else c\<lparr>zh_pNew := Some 1, zh_pOld := Some 0\<rparr>)
      else if found_current then c\<lparr>zh_reconfig := False\<rparr>
      else
        let p = double_div E (num_old * (count - (num_old + num_new))) ((num_old + num_new) * (count - num_old))
        in c\<lparr>zh_pOld := p, zh_pNew := one_minus E p\<rparr>)"

definition update_addrs :: "os \<Rightarrow> bool \<Rightarrow> client \<Rightarrow> (int \<times> client) option" where
  "update_addrs E fixed_order c =
     (if w_null c then Some (ZBADARGUMENTS, c)
      else case zh_hostname c of
        None \<Rightarrow> Some (ZSYSTEMERROR, c)
      | Some hosts \<Rightarrow>
          if \<not> grants (os_host E) (int (length hosts) + 1) then Some (ZSYSTEMERROR, c)
          else do {
            (rc, resolved, c) \<leftarrow> resolve_hosts E fixed_order (Some hosts) c;
            if rc \<noteq> ZOK then Some (rc, c)
            else do {
              same \<leftarrow> addrvec_eq (os_host E) (zh_addrs c) resolved;
              if same then Some (ZOK, c)
              else do {
                found_current \<leftarrow> addrvec_contains (os_host E) (Some resolved) (Some (zh_addr_cur c));
                let c = c\<lparr>zh_reconfig := True\<rparr>;
                (rc, old, new) \<leftarrow> split_loop E (zh_addrs c) resolved (unat (av_count resolved)) 0 addrvec_init addrvec_init;
                let c = c\<lparr>zh_addrs_old := old, zh_addrs_new := new\<rparr>;
                if rc \<noteq> ZOK then Some (rc, c)
                else do {
                  let c = decide_move E found_current c;
                  let c = c\<lparr>zh_addrs := resolved\<rparr>;
                  Some (ZOK, if zh_reconfig c \<and> zh_fd c \<noteq> - 1 then c\<lparr>zh_fd := - 1, zh_state := ZOO_NOTCONNECTED_STATE\<rparr> else c)
                }
              }
            }
          })"

definition zoo_set_servers :: "os \<Rightarrow> bool \<Rightarrow> cstr \<Rightarrow> client \<Rightarrow> (int \<times> client) option" where
  "zoo_set_servers E fixed_order hosts c =
     (case hosts of
        None \<Rightarrow> Some (ZBADARGUMENTS, c)
      | Some s \<Rightarrow> do {
          _ \<leftarrow> c_assert (\<not> w_null c);
          update_addrs E fixed_order (c\<lparr>zh_hostname := (if grants (os_host E) (int (length s) + 1) then Some s else None)\<rparr>)
        })"

section \<open>The next server\<close>

definition get_next_server_in_reconfig :: "os \<Rightarrow> client \<Rightarrow> (int \<times> client) option" where
  "get_next_server_in_reconfig E c =
     (let (r, c) = drand48 E c; take_new = double_le r (zh_pNew c) in
      if addrvec_hasnext (zh_addrs_new c) \<and> (take_new \<or> \<not> addrvec_hasnext (zh_addrs_old c)) then do {
        (a, v) \<leftarrow> addrvec_next (zh_addrs_new c);
        Some (0, c\<lparr>zh_addrs_new := v, zh_addr_cur := a\<rparr>)
      }
      else if addrvec_hasnext (zh_addrs_old c) then do {
        (a, v) \<leftarrow> addrvec_next (zh_addrs_old c);
        Some (0, c\<lparr>zh_addrs_old := v, zh_addr_cur := a\<rparr>)
      }
      else Some (1, c\<lparr>zh_addr_cur := ss_zero\<rparr>))"

definition zoo_cycle_next_server :: "os \<Rightarrow> client \<Rightarrow> client option" where
  "zoo_cycle_next_server E c = do {
     let c = c\<lparr>zh_addr_cur := ss_zero\<rparr>;
     (found, c) \<leftarrow> (if zh_reconfig c then do {
         (r, c) \<leftarrow> get_next_server_in_reconfig E c;
         Some (r = 0, if r = 0 then c else c\<lparr>zh_reconfig := False\<rparr>)
       } else Some (False, c));
     if found then Some c
     else do {
       (a, v) \<leftarrow> addrvec_next (zh_addrs c);
       Some (c\<lparr>zh_addrs := v, zh_addr_cur := a\<rparr>)
     }
   }"

section \<open>Splitting the new list\<close>

lemma init_fields: "av_capacity addrvec_init = 0" "av_next addrvec_init = 0" "av_count addrvec_init = 0"
  by (simp_all add: addrvec_init_def)

lemma room_granted:
  assumes "good_host H" and "av_wf a" and "unat (av_capacity a) \<le> 2 ^ 20 + 16"
  shows "\<exists>a'. addrvec_grow_if_full H a = Some (0, a') \<and> av_wf a' \<and> av_list a' = av_list a \<and> av_next a' = av_next a \<and>
    av_count a' < av_capacity a' \<and> unat (av_capacity a') \<le> max (unat (av_capacity a)) (length (av_list a) + 16)"
proof (cases "av_count a = av_capacity a")
  case True
  have u: "unat (av_capacity a + 16) = unat (av_capacity a) + 16" using assms(3) by (simp add: unat_add_lem [THEN iffD1])
  have "uint (av_capacity a + 16) = int (unat (av_capacity a) + 16)" unfolding u [symmetric] by (rule uint_nat)
  moreover have "unat (av_capacity a) \<le> 1048592" using assms(3) by simp
  ultimately have "128 * uint (av_capacity a + 16) \<le> 1073741824" by linarith
  then have "128 * uint (av_capacity a + 16) \<le> 2 ^ 30" by simp
  then have "addrvec_grow H 16 a \<noteq> Some (1, a)" "addrvec_grow H 16 a \<noteq> None"
    using good_hostD [OF assms(1), of "128 * uint (av_capacity a + 16)"] u by (auto simp: addrvec_grow_def Let_def)
  then obtain a1 where a1: "addrvec_grow H 16 a = Some (0, a1)"
    by (auto simp: addrvec_grow_def Let_def split: if_splits)
  have "unat (av_capacity a) + unat (16 :: i32) < 2 ^ 31" using assms(3) by simp
  from addrvec_grow_cases [OF assms(2) this a1] have
    2: "av_wf a1" "av_list a1 = av_list a" "av_count a1 = av_count a" "av_next a1 = av_next a"
      "unat (av_capacity a1) = unat (av_capacity a) + 16" by auto
  have "unat (av_capacity a) = length (av_list a)" using True length_av_list [OF assms(2)] by simp
  with 2 True a1 show ?thesis
    by (intro exI [of _ a1]) (simp add: addrvec_grow_if_full_def addrvec_grow_default_def word_less_nat_alt)
next
  case False
  then have "av_count a < av_capacity a" using assms(2) by (simp add: av_wf_def order.strict_iff_order)
  then show ?thesis using False assms(2) by (intro exI [of _ a]) (simp add: addrvec_grow_if_full_def)
qed

lemma append_granted:
  assumes "good_host H" and "av_wf a" and "unat (av_capacity a) \<le> length (av_list a) + 16" and "length (av_list a) \<le> 2 ^ 20"
    and "length x = SS_SIZE"
  shows "\<exists>a'. addrvec_append H a x = Some (0, a') \<and> av_wf a' \<and> av_list a' = av_list a @ [x] \<and> av_next a' = av_next a \<and>
    unat (av_capacity a') \<le> length (av_list a') + 16"
proof -
  have "unat (av_capacity a) \<le> 2 ^ 20 + 16" using assms(3,4) by simp
  from room_granted [OF assms(1,2) this] obtain a1 where
    1: "addrvec_grow_if_full H a = Some (0, a1)" "av_wf a1" "av_list a1 = av_list a" "av_next a1 = av_next a"
    "av_count a1 < av_capacity a1" "unat (av_capacity a1) \<le> max (unat (av_capacity a)) (length (av_list a) + 16)" by blast
  from addrvec_put_ok [OF 1(2,5) assms(5)] 1 assms(3) show ?thesis by (auto simp: addrvec_append_def)
qed

lemma av_list_size: "av_wf a \<Longrightarrow> x \<in> set (av_list a) \<Longrightarrow> length x = SS_SIZE"
  using av_wf_cases [of a] by (auto simp: av_list_def dest: in_set_takeD)

definition has_ip :: "host \<Rightarrow> sockaddr list \<Rightarrow> sockaddr \<Rightarrow> bool" where
  \<comment> \<open>an address of the list has the family and the IP address of this one, its port aside\<close>
  "has_ip H xs x \<longleftrightarrow> (\<exists>y \<in> set xs. same_host_addr H y x)"

lemma split_loop_ok:
  fixes addrs resolved :: addrvec and E :: os
  defines "known \<equiv> has_ip (os_host E) (av_list addrs)"
  assumes "good_host (os_host E)" and "av_wf addrs" and "av_wf resolved" and "i + k = unat (av_count resolved)"
    and "av_wf old" and "unat (av_capacity old) \<le> length (av_list old) + 16" and "length (av_list old) + k \<le> 2 ^ 20"
    and "av_wf new" and "unat (av_capacity new) \<le> length (av_list new) + 16" and "length (av_list new) + k \<le> 2 ^ 20"
  shows "\<exists>old' new'. split_loop E addrs resolved k i old new = Some (ZOK, old', new') \<and> av_wf old' \<and> av_wf new' \<and>
    av_next old' = av_next old \<and> av_next new' = av_next new \<and>
    av_list old' = av_list old @ filter known (drop i (av_list resolved)) \<and>
    av_list new' = av_list new @ filter (\<lambda>x. \<not> known x) (drop i (av_list resolved))"
  using assms(5-)
proof (induction k arbitrary: i old new)
  case 0
  then show ?case using length_av_list [OF assms(4)] by simp
next
  case (Suc k)
  let ?x = "av_list resolved ! i"
  have i: "i < length (av_list resolved)" using Suc.prems(1) length_av_list [OF assms(4)] by simp
  have d: "data_at (av_data resolved) i = Some ?x" using data_at_av_list [OF assms(4)] Suc.prems(1) by simp
  have x: "length ?x = SS_SIZE" using av_list_size [OF assms(4)] i by simp
  have c: "addrvec_contains (os_host E) (Some addrs) (Some ?x) = Some (known ?x)"
    using addrvec_contains_ok [OF assms(3)] by (simp add: known_def has_ip_def)
  have dr: "drop i (av_list resolved) = ?x # drop (Suc i) (av_list resolved)" using Cons_nth_drop_Suc [OF i] by simp
  show ?case
  proof (cases "known ?x")
    case True
    have "length (av_list old) \<le> 2 ^ 20" using Suc.prems(4) by simp
    from append_granted [OF assms(2) Suc.prems(2,3) this x] obtain a where
      a: "addrvec_append (os_host E) old ?x = Some (0, a)" "av_wf a" "av_list a = av_list old @ [?x]" "av_next a = av_next old"
      "unat (av_capacity a) \<le> length (av_list a) + 16" by blast
    from Suc.IH [OF _ a(2,5) _ Suc.prems(5,6), of "Suc i"] Suc.prems(1,4,7) a d c dr True show ?thesis by auto
  next
    case False
    have "length (av_list new) \<le> 2 ^ 20" using Suc.prems(7) by simp
    from append_granted [OF assms(2) Suc.prems(5,6) this x] obtain a where
      a: "addrvec_append (os_host E) new ?x = Some (0, a)" "av_wf a" "av_list a = av_list new @ [?x]" "av_next a = av_next new"
      "unat (av_capacity a) \<le> length (av_list a) + 16" by blast
    from Suc.IH [OF _ Suc.prems(2,3) _ a(2,5), of "Suc i"] Suc.prems(1,4,7) a d c dr False show ?thesis by auto
  qed
qed

definition only_ticks :: "client \<Rightarrow> client \<Rightarrow> bool" where
  "only_ticks c c' \<longleftrightarrow> (\<exists>n. c' = c\<lparr>w_ticks := n\<rparr>)"

lemma only_ticks_simps [simp]: "only_ticks c c" "only_ticks c (c\<lparr>w_ticks := n\<rparr>)"
  by (auto simp: only_ticks_def intro: exI [of _ "w_ticks c"])

lemma resolve_hosts_ticks: "holds (\<lambda>(rc, r, c'). only_ticks c c') (resolve_hosts E f hosts c)"
  unfolding resolve_hosts_def by (intro holds_intros | rule holds_any | simp)+

lemma decide_move_fields [simp]:
  "zh_addrs_old (decide_move E f c) = zh_addrs_old c" "zh_addrs_new (decide_move E f c) = zh_addrs_new c"
  "zh_fd (decide_move E f c) = zh_fd c" "zh_state (decide_move E f c) = zh_state c" "zh_to_send (decide_move E f c) = zh_to_send c"
  "zh_sent_requests (decide_move E f c) = zh_sent_requests c" "w_calls (decide_move E f c) = w_calls c"
  by (simp_all add: decide_move_def drand48_def Let_def split: prod.split)

definition same_ips :: "host \<Rightarrow> sockaddr list \<Rightarrow> sockaddr list \<Rightarrow> bool" where
  \<comment> \<open>as many addresses, and the IP address of every first one among the second ones\<close>
  "same_ips H xs ys \<longleftrightarrow> length xs = length ys \<and> (\<forall>x \<in> set xs. \<exists>y \<in> set ys. same_host_addr H y x)"

lemma addrvec_eq_ok:
  assumes "av_wf a" and "av_wf b"
  shows "addrvec_eq H a b = Some (same_ips H (av_list a) (av_list b))"
  using eq_loop_ok [OF assms, of 0 "unat (av_count a)" H] length_av_list [OF assms(1)] length_av_list [OF assms(2)]
  by (auto simp: addrvec_eq_def same_ips_def unsigned_word_eqI)

lemma decide_move_reconfig:
  assumes "zh_reconfig c" and "unat (av_count (zh_addrs_old c)) + unat (av_count (zh_addrs_new c)) < 2 ^ 32"
  shows "\<not> found \<Longrightarrow> zh_reconfig (decide_move E found c)"
    and "found \<Longrightarrow> unat (av_count (zh_addrs_old c)) + unat (av_count (zh_addrs_new c)) \<le> unat (av_count (zh_addrs c)) \<Longrightarrow>
      \<not> zh_reconfig (decide_move E found c)"
proof -
  have "unat (av_count (zh_addrs_old c) + av_count (zh_addrs_new c)) = unat (av_count (zh_addrs_old c)) + unat (av_count (zh_addrs_new c))"
    using assms(2) by (simp add: unat_add_lem [THEN iffD1])
  then show "\<not> found \<Longrightarrow> zh_reconfig (decide_move E found c)"
    "found \<Longrightarrow> unat (av_count (zh_addrs_old c)) + unat (av_count (zh_addrs_new c)) \<le> unat (av_count (zh_addrs c)) \<Longrightarrow>
      \<not> zh_reconfig (decide_move E found c)"
    using assms(1) by (simp_all add: decide_move_def drand48_def Let_def word_less_nat_alt split: prod.split)
qed

lemma decide_move_changes:
  obtains p q r n where "decide_move E f c = c\<lparr>zh_pNew := p, zh_pOld := q, zh_reconfig := r, w_ticks := n\<rparr>"
proof
  let ?x = "decide_move E f c"
  show "?x = c\<lparr>zh_pNew := zh_pNew ?x, zh_pOld := zh_pOld ?x, zh_reconfig := zh_reconfig ?x, w_ticks := w_ticks ?x\<rparr>"
    by (simp add: decide_move_def drand48_def Let_def)
qed

definition moved :: "os \<Rightarrow> addrvec \<Rightarrow> addrvec \<Rightarrow> addrvec \<Rightarrow> client \<Rightarrow> client" where
  \<comment> \<open>the client \<open>c\<close> after it has got the list \<open>r\<close>, which is not the one it had, split into \<open>old\<close> and \<open>new\<close>\<close>
  "moved E r old new c =
     (let m = (decide_move E (has_ip (os_host E) (av_list r) (zh_addr_cur c))
            (c\<lparr>zh_reconfig := True, zh_addrs_old := old, zh_addrs_new := new\<rparr>))\<lparr>zh_addrs := r\<rparr>
      in if zh_reconfig m \<and> zh_fd c \<noteq> - 1 then m\<lparr>zh_fd := - 1, zh_state := ZOO_NOTCONNECTED_STATE\<rparr> else m)"

lemma update_addrs_moves:
  assumes "good_host (os_host E)" and "\<not> w_null c" and "zh_hostname c = Some hosts" and "length hosts + 1 \<le> 2 ^ 30"
    and "resolve_hosts E f (Some hosts) c = Some (ZOK, r, d)" and "av_wf r" and "length (av_list r) \<le> 2 ^ 20"
    and "av_wf (zh_addrs c)"
  shows "\<exists>old new. av_wf old \<and> av_wf new \<and> av_list old = filter (has_ip (os_host E) (av_list (zh_addrs c))) (av_list r) \<and>
    av_list new = filter (\<lambda>x. \<not> has_ip (os_host E) (av_list (zh_addrs c)) x) (av_list r) \<and>
    update_addrs E f c = Some (ZOK, if same_ips (os_host E) (av_list (zh_addrs c)) (av_list r) then d else moved E r old new d)"
proof -
  let ?H = "os_host E" and ?addrs = "av_list (zh_addrs c)" and ?r = "av_list r"
  obtain n where d: "d = c\<lparr>w_ticks := n\<rparr>" using holdsD [OF resolve_hosts_ticks assms(5)] by (auto simp: only_ticks_def)
  have g: "grants ?H (int (length hosts) + 1)" using assms(1,4) by (simp add: good_hostD)
  have eq: "addrvec_eq ?H (zh_addrs c) r = Some (same_ips ?H ?addrs ?r)" by (rule addrvec_eq_ok [OF assms(8,6)])
  have cur: "addrvec_contains ?H (Some r) (Some (zh_addr_cur c)) = Some (has_ip ?H ?r (zh_addr_cur c))"
    using addrvec_contains_ok [OF assms(6)] by (simp add: has_ip_def)
  have len: "length ?r = unat (av_count r)" by (rule length_av_list [OF assms(6)])
  obtain old new where s: "split_loop E (zh_addrs c) r (unat (av_count r)) 0 addrvec_init addrvec_init = Some (ZOK, old, new)"
    "av_wf old" "av_wf new" "av_list old = filter (has_ip ?H ?addrs) ?r" "av_list new = filter (\<lambda>x. \<not> has_ip ?H ?addrs x) ?r"
    using split_loop_ok [OF assms(1,8,6), of 0 "unat (av_count r)" addrvec_init addrvec_init] assms(7) len
    by (auto simp: init_fields)
  have "update_addrs E f c = Some (ZOK, if same_ips ?H ?addrs ?r then d else moved E r old new d)"
    using assms(2,3,5) g eq cur s(1) by (simp add: update_addrs_def d Let_def moved_def)
  with s show ?thesis by blast
qed

text \<open>
  (C27) What a new list of servers does. Two servers count as the same when they have the same IP address, whatever their ports. A list
  of as many servers that has every known IP address changes nothing. Otherwise the list is split, in its order, into the servers whose IP address was known and
  the others; a client connected to an IP address that is not in the list is disconnected and will move, and a client whose IP address is
  still there stays connected when the list has not become longer. The outgoing queue and the outstanding requests
  are left as they are, also when the connection is closed, so that what was half sent goes on over the next connection.
\<close>

theorem new_servers_split:
  assumes "good_host (os_host E)" and "\<not> w_null c" and "zh_hostname c = Some hosts" and "length hosts + 1 \<le> 2 ^ 30"
    and "resolve_hosts E f (Some hosts) c = Some (ZOK, r, d)" and "av_wf r" and "length (av_list r) \<le> 2 ^ 20"
    and "av_wf (zh_addrs c)"
  shows "\<exists>c'. update_addrs E f c = Some (ZOK, c') \<and> zh_to_send c' = zh_to_send c \<and> zh_sent_requests c' = zh_sent_requests c \<and>
    w_calls c' = w_calls c \<and>
    (if same_ips (os_host E) (av_list (zh_addrs c)) (av_list r) then c' = d
     else zh_addrs c' = r \<and>
       av_list (zh_addrs_old c') = filter (has_ip (os_host E) (av_list (zh_addrs c))) (av_list r) \<and>
       av_list (zh_addrs_new c') = filter (\<lambda>x. \<not> has_ip (os_host E) (av_list (zh_addrs c)) x) (av_list r) \<and>
       (\<not> has_ip (os_host E) (av_list r) (zh_addr_cur c) \<longrightarrow> zh_reconfig c' \<and> zh_fd c' = - 1) \<and>
       (has_ip (os_host E) (av_list r) (zh_addr_cur c) \<and> length (av_list r) \<le> length (av_list (zh_addrs c)) \<longrightarrow>
         \<not> zh_reconfig c' \<and> zh_fd c' = zh_fd c \<and> zh_state c' = zh_state c))"
proof -
  let ?H = "os_host E" and ?addrs = "av_list (zh_addrs c)" and ?r = "av_list r"
  obtain n where d: "d = c\<lparr>w_ticks := n\<rparr>" using holdsD [OF resolve_hosts_ticks assms(5)] by (auto simp: only_ticks_def)
  obtain old new where s: "av_wf old" "av_wf new" "av_list old = filter (has_ip ?H ?addrs) ?r" "av_list new = filter (\<lambda>x. \<not> has_ip ?H ?addrs x) ?r"
    and up: "update_addrs E f c = Some (ZOK, if same_ips ?H ?addrs ?r then d else moved E r old new d)"
    using update_addrs_moves [OF assms] by blast
  let ?e = "d\<lparr>zh_reconfig := True, zh_addrs_old := old, zh_addrs_new := new\<rparr>"
  have sum: "unat (av_count old) + unat (av_count new) = length ?r"
    using length_av_list [OF s(1)] length_av_list [OF s(2)] s(3,4) sum_length_filter_compl [of "has_ip ?H ?addrs" ?r] by simp
  have big: "unat (av_count (zh_addrs_old ?e)) + unat (av_count (zh_addrs_new ?e)) < 2 ^ 32" using sum assms(7) by simp
  show ?thesis
    using decide_move_reconfig [of ?e, OF _ big, of "has_ip ?H ?r (zh_addr_cur c)" E] sum length_av_list [OF assms(8)] s(3,4) up
    by (simp add: d moved_def Let_def)
qed

text \<open>
  (C25) A server that is removed from the list is not given up when another one runs on its host: the current address may be missing from a new list
  that has become no longer, and as long as one address of the list has the same IP address, on whatever port, the
  client stays connected to the server that was removed; when the IP addresses are the same as before, the new list is not even taken over.
  The documentation of \<^verbatim>\<open>zoo_set_servers\<close>, whose example has three servers on one host,
  says that the connection is always dropped.
\<close>

theorem removed_endpoint_kept:
  assumes "good_host (os_host E)" and "\<not> w_null c" and "zh_hostname c = Some hosts" and "length hosts + 1 \<le> 2 ^ 30"
    and "resolve_hosts E f (Some hosts) c = Some (ZOK, r, d)" and "av_wf r" and "length (av_list r) \<le> 2 ^ 20"
    and "av_wf (zh_addrs c)" and "zh_addr_cur c \<notin> set (av_list r)" and "y \<in> set (av_list r)"
    and "ss_family (os_host E) y = AF_INET" and "ss_family (os_host E) (zh_addr_cur c) = AF_INET" and "sin_addr y = sin_addr (zh_addr_cur c)"
    and "length (av_list r) \<le> length (av_list (zh_addrs c))"
  shows "\<exists>c'. update_addrs E f c = Some (ZOK, c') \<and> zh_fd c' = zh_fd c \<and> zh_state c' = zh_state c \<and> zh_addr_cur c' = zh_addr_cur c \<and>
    zh_addrs c' = (if same_ips (os_host E) (av_list (zh_addrs c)) (av_list r) then zh_addrs c else r)"
proof -
  let ?H = "os_host E" and ?addrs = "av_list (zh_addrs c)" and ?r = "av_list r"
  obtain n where d: "d = c\<lparr>w_ticks := n\<rparr>" using holdsD [OF resolve_hosts_ticks assms(5)] by (auto simp: only_ticks_def)
  have cur: "has_ip ?H ?r (zh_addr_cur c)" using assms(10-13) by (auto simp: has_ip_def same_host_addr_def)
  obtain old new where s: "av_wf old" "av_wf new" "av_list old = filter (has_ip ?H ?addrs) ?r" "av_list new = filter (\<lambda>x. \<not> has_ip ?H ?addrs x) ?r"
    and up: "update_addrs E f c = Some (ZOK, if same_ips ?H ?addrs ?r then d else moved E r old new d)"
    using update_addrs_moves [OF assms(1-8)] by blast
  let ?e = "d\<lparr>zh_reconfig := True, zh_addrs_old := old, zh_addrs_new := new\<rparr>"
  have sum: "unat (av_count old) + unat (av_count new) = length ?r"
    using length_av_list [OF s(1)] length_av_list [OF s(2)] s(3,4) sum_length_filter_compl [of "has_ip ?H ?addrs" ?r] by simp
  have big: "unat (av_count (zh_addrs_old ?e)) + unat (av_count (zh_addrs_new ?e)) < 2 ^ 32" using sum assms(7) by simp
  have stay: "\<not> zh_reconfig (decide_move E True ?e)"
    using decide_move_reconfig(2) [of ?e, OF _ big, of True E] sum length_av_list [OF assms(8)] assms(14) by (simp add: d)
  obtain p q x k where "decide_move E True ?e = ?e\<lparr>zh_pNew := p, zh_pOld := q, zh_reconfig := x, w_ticks := k\<rparr>"
    by (rule decide_move_changes)
  with stay cur up assms(9) show ?thesis by (simp add: moved_def d Let_def)
qed

section \<open>Trying the servers of a new list\<close>

definition untried :: "addrvec \<Rightarrow> sockaddr list" where
  "untried a = drop (unat (av_next a)) (av_list a)"

lemma hasnext_untried: "av_wf a \<Longrightarrow> addrvec_hasnext a \<longleftrightarrow> untried a \<noteq> []"
  using length_av_list [of a] by (auto simp: addrvec_hasnext_def untried_def word_less_nat_alt)

lemma next_untried:
  assumes "av_wf a" and "untried a \<noteq> []"
  shows "\<exists>a'. addrvec_next a = Some (hd (untried a), a') \<and> av_wf a' \<and> untried a' = tl (untried a)"
proof -
  have lt: "unat (av_next a) < length (av_list a)" using assms(2) by (simp add: untried_def)
  then have ne: "av_list a \<noteq> []" by auto
  have "av_pos a = unat (av_next a)" using lt length_av_list [OF assms(1)] by (simp add: av_pos_def)
  with addrvec_next_ok [OF assms(1) ne] lt show ?thesis
    by (auto simp: untried_def hd_drop_conv_nth drop_Suc drop_tl)
qed

fun cycle_n :: "os \<Rightarrow> nat \<Rightarrow> client \<Rightarrow> (sockaddr list \<times> client) option" where
  \<comment> \<open>the servers that so many attempts in a row go to\<close>
  "cycle_n E 0 c = Some ([], c)"
| "cycle_n E (Suc n) c = do {
     c \<leftarrow> zoo_cycle_next_server E c;
     (xs, c') \<leftarrow> cycle_n E n c;
     Some (zh_addr_cur c # xs, c')
   }"

lemma cycle_untried:
  assumes "zh_reconfig c" and "av_wf (zh_addrs_old c)" and "av_wf (zh_addrs_new c)"
    and "untried (zh_addrs_old c) @ untried (zh_addrs_new c) \<noteq> []"
  shows "\<exists>c'. zoo_cycle_next_server E c = Some c' \<and> zh_reconfig c' \<and> av_wf (zh_addrs_old c') \<and> av_wf (zh_addrs_new c') \<and>
    zh_addrs c' = zh_addrs c \<and>
    mset (untried (zh_addrs_old c) @ untried (zh_addrs_new c)) =
      add_mset (zh_addr_cur c') (mset (untried (zh_addrs_old c') @ untried (zh_addrs_new c')))"
proof -
  let ?new = "untried (zh_addrs_new c) \<noteq> [] \<and>
    (double_le (os_drand48 E (w_ticks c)) (zh_pNew c) \<or> untried (zh_addrs_old c) = [])"
  show ?thesis
  proof (cases ?new)
    case True
    then obtain v where v: "addrvec_next (zh_addrs_new c) = Some (hd (untried (zh_addrs_new c)), v)" "av_wf v"
      "untried v = tl (untried (zh_addrs_new c))" using next_untried [OF assms(3)] by blast
    have "mset (untried (zh_addrs_new c)) = add_mset (hd (untried (zh_addrs_new c))) (mset (tl (untried (zh_addrs_new c))))"
      using True by (metis list.exhaust_sel mset.simps(2))
    with True v assms(1,2) hasnext_untried [OF assms(2)] hasnext_untried [OF assms(3)] show ?thesis
      by (simp add: zoo_cycle_next_server_def get_next_server_in_reconfig_def drand48_def Let_def)
  next
    case False
    then have ne: "untried (zh_addrs_old c) \<noteq> []" using assms(4) by auto
    then obtain v where v: "addrvec_next (zh_addrs_old c) = Some (hd (untried (zh_addrs_old c)), v)" "av_wf v"
      "untried v = tl (untried (zh_addrs_old c))" using next_untried [OF assms(2)] by blast
    have "mset (untried (zh_addrs_old c)) = add_mset (hd (untried (zh_addrs_old c))) (mset (tl (untried (zh_addrs_old c))))"
      using ne by (metis list.exhaust_sel mset.simps(2))
    with False ne v assms(1,3) hasnext_untried [OF assms(2)] hasnext_untried [OF assms(3)] show ?thesis
      by (auto simp: zoo_cycle_next_server_def get_next_server_in_reconfig_def drand48_def Let_def)
  qed
qed

lemma cycle_exhausted:
  assumes "zh_reconfig c" and "av_wf (zh_addrs_old c)" and "av_wf (zh_addrs_new c)" and "av_wf (zh_addrs c)" and "av_list (zh_addrs c) \<noteq> []"
    and "untried (zh_addrs_old c) @ untried (zh_addrs_new c) = []"
  shows "\<exists>c'. zoo_cycle_next_server E c = Some c' \<and> \<not> zh_reconfig c' \<and> zh_addr_cur c' = av_list (zh_addrs c) ! av_pos (zh_addrs c)"
  using addrvec_next_ok [OF assms(4,5)] assms(1,6) hasnext_untried [OF assms(2)] hasnext_untried [OF assms(3)]
  by (auto simp: zoo_cycle_next_server_def get_next_server_in_reconfig_def drand48_def Let_def)

lemma cycle_n_untried:
  assumes "zh_reconfig c" and "av_wf (zh_addrs_old c)" and "av_wf (zh_addrs_new c)"
    and "n = length (untried (zh_addrs_old c) @ untried (zh_addrs_new c))"
  shows "\<exists>xs c'. cycle_n E n c = Some (xs, c') \<and> mset xs = mset (untried (zh_addrs_old c) @ untried (zh_addrs_new c)) \<and>
    zh_reconfig c' \<and> av_wf (zh_addrs_old c') \<and> av_wf (zh_addrs_new c') \<and> zh_addrs c' = zh_addrs c \<and>
    untried (zh_addrs_old c') @ untried (zh_addrs_new c') = []"
  using assms
proof (induction n arbitrary: c)
  case (Suc n)
  then have "untried (zh_addrs_old c) @ untried (zh_addrs_new c) \<noteq> []" by auto
  from cycle_untried [OF Suc.prems(1-3) this] obtain c1 where
    c1: "zoo_cycle_next_server E c = Some c1" "zh_reconfig c1" "av_wf (zh_addrs_old c1)" "av_wf (zh_addrs_new c1)" "zh_addrs c1 = zh_addrs c"
    "mset (untried (zh_addrs_old c) @ untried (zh_addrs_new c)) =
      add_mset (zh_addr_cur c1) (mset (untried (zh_addrs_old c1) @ untried (zh_addrs_new c1)))" by blast
  have "n = length (untried (zh_addrs_old c1) @ untried (zh_addrs_new c1))"
    using arg_cong [OF c1(6), of size] Suc.prems(4) by simp
  from Suc.IH [OF c1(2-4) this] c1 show ?case by auto
qed auto

text \<open>
  (C28) A client that has to move tries every server of the new list exactly once, in an order that chance decides, before it
  gives up moving; the attempt after that goes to the whole list, round robin.
\<close>

theorem reconfig_tries_every_server:
  assumes "zh_reconfig c" and "av_wf (zh_addrs_old c)" and "av_wf (zh_addrs_new c)" and "av_wf (zh_addrs c)" and "av_list (zh_addrs c) \<noteq> []"
    and "av_next (zh_addrs_old c) = 0" and "av_next (zh_addrs_new c) = 0"
  shows "\<exists>xs d c'. cycle_n E (length (av_list (zh_addrs_old c) @ av_list (zh_addrs_new c))) c = Some (xs, d) \<and>
    mset xs = mset (av_list (zh_addrs_old c) @ av_list (zh_addrs_new c)) \<and> zh_reconfig d \<and>
    zoo_cycle_next_server E d = Some c' \<and> \<not> zh_reconfig c' \<and> zh_addr_cur c' = av_list (zh_addrs c) ! av_pos (zh_addrs c)"
proof -
  have u: "untried (zh_addrs_old c) = av_list (zh_addrs_old c)" "untried (zh_addrs_new c) = av_list (zh_addrs_new c)"
    using assms(6,7) by (simp_all add: untried_def)
  obtain xs d where d: "cycle_n E (length (av_list (zh_addrs_old c) @ av_list (zh_addrs_new c))) c = Some (xs, d)"
    "mset xs = mset (av_list (zh_addrs_old c) @ av_list (zh_addrs_new c))" "zh_reconfig d" "av_wf (zh_addrs_old d)"
    "av_wf (zh_addrs_new d)" "zh_addrs d = zh_addrs c" "untried (zh_addrs_old d) @ untried (zh_addrs_new d) = []"
    using cycle_n_untried [OF assms(1-3) refl, of E] unfolding u by blast
  from cycle_exhausted [OF d(3-5) _ _ d(7), of E] assms(4,5) d show ?thesis by auto
qed

section \<open>The addresses of the hosts\<close>

definition holds_address :: "addrinfo \<Rightarrow> sockaddr \<Rightarrow> bool" where
  \<comment> \<open>the entry begins with the address that the resolver gave\<close>
  "holds_address ai y \<longleftrightarrow> length y = SS_SIZE \<and> take (nat (ai_addrlen ai)) y = take (nat (ai_addrlen ai)) (ai_addr ai)"

definition answer_ok :: "nat \<times> addrinfo \<Rightarrow> bool" where
  "answer_ok r \<longleftrightarrow> 0 \<le> ai_addrlen (snd r) \<and> ai_addrlen (snd r) \<le> int SS_SIZE \<and> ai_addrlen (snd r) \<le> int (length (ai_addr (snd r)))"

definition usable :: "(nat \<times> addrinfo) list \<Rightarrow> addrinfo list" where
  "usable res = map snd (filter (\<lambda>(family, ai). family = AF_INET \<or> family = AF_INET6) res)"

lemma put_part:
  assumes "av_wf a" and "av_count a < av_capacity a" and "length src \<le> SS_SIZE"
  shows "\<exists>a' y. addrvec_put src a = Some a' \<and> av_wf a' \<and> av_list a' = av_list a @ [y] \<and> av_next a' = av_next a \<and>
    av_capacity a' = av_capacity a \<and> length y = SS_SIZE \<and> take (length src) y = src"
proof -
  have lt: "unat (av_count a) < unat (av_capacity a)" using assms(2) by (simp add: word_less_nat_alt)
  then obtain x where x: "data_at (av_data a) (unat (av_count a)) = Some x" "length x = SS_SIZE"
    using av_wf_cases [OF assms(1)] by (auto simp: data_at_def)
  let ?y = "src @ drop (length src) x"
  have y: "length ?y = SS_SIZE" using x(2) assms(3) by simp
  have "addrvec_put src a = addrvec_put ?y a" using x assms(3) by (simp add: addrvec_put_def mem_write_def)
  with addrvec_put_ok [OF assms(1,2) y] y show ?thesis by auto
qed

lemma append_addrinfo_ok:
  assumes "av_wf a" and "av_count a < av_capacity a" and "answer_ok (family, ai)"
  shows "\<exists>a' y. addrvec_append_addrinfo H a ai = Some (0, a') \<and> av_wf a' \<and> av_list a' = av_list a @ [y] \<and> av_next a' = av_next a \<and>
    av_capacity a' = av_capacity a \<and> holds_address ai y"
proof -
  let ?src = "take (nat (ai_addrlen ai)) (ai_addr ai)"
  have len: "length ?src = nat (ai_addrlen ai)" "nat (ai_addrlen ai) \<le> SS_SIZE" using assms(3) by (auto simp: answer_ok_def)
  have "mem_read (Some (ai_addr ai)) 0 (ai_addrlen ai) = Some ?src" using assms(3) by (simp add: mem_read_def answer_ok_def)
  moreover have "av_count a \<noteq> av_capacity a" using assms(2) by auto
  ultimately show ?thesis
    using put_part [OF assms(1,2), of ?src] len
    by (auto simp: addrvec_append_addrinfo_def addrvec_grow_if_full_def holds_address_def)
qed

lemma append_results_ok:
  assumes "good_host (os_host E)" and "av_wf a" and "\<forall>r \<in> set res. answer_ok r" and "K \<le> 2 ^ 20"
    and "length (av_list a) + length (usable res) \<le> K" and "unat (av_capacity a) \<le> K + 16"
  shows "\<exists>a' ys. append_results E res a = Some (ZOK, a') \<and> av_wf a' \<and> av_list a' = av_list a @ ys \<and> av_next a' = av_next a \<and>
    unat (av_capacity a') \<le> K + 16 \<and> list_all2 holds_address (usable res) ys"
  using assms(2,3,5,6)
proof (induction res arbitrary: a)
  case (Cons r res)
  obtain family ai where r: "r = (family, ai)" by (cases r)
  have "unat (av_capacity a) \<le> 2 ^ 20 + 16" using Cons.prems(4) assms(4) by simp
  from room_granted [OF assms(1) Cons.prems(1) this] obtain a1 where
    1: "addrvec_grow_if_full (os_host E) a = Some (0, a1)" "av_wf a1" "av_list a1 = av_list a" "av_next a1 = av_next a"
    "av_count a1 < av_capacity a1" "unat (av_capacity a1) \<le> max (unat (av_capacity a)) (length (av_list a) + 16)" by blast
  have g: "(if av_count a = av_capacity a then addrvec_grow_default (os_host E) a else Some (0, a)) = Some (0, a1)"
    using 1(1) by (simp add: addrvec_grow_if_full_def)
  have cap: "unat (av_capacity a1) \<le> K + 16" using 1(6) Cons.prems(3,4) by simp
  show ?case
  proof (cases "family = AF_INET \<or> family = AF_INET6")
    case True
    have ok: "answer_ok (family, ai)" using Cons.prems(2) r by simp
    obtain a2 y where 2: "addrvec_append_addrinfo (os_host E) a1 ai = Some (0, a2)" "av_wf a2" "av_list a2 = av_list a1 @ [y]"
      "av_next a2 = av_next a1" "av_capacity a2 = av_capacity a1" "holds_address ai y"
      using append_addrinfo_ok [OF 1(2,5) ok] by blast
    have u: "usable (r # res) = ai # usable res" using True by (auto simp: usable_def r)
    have "\<exists>a' ys. append_results E res a2 = Some (ZOK, a') \<and> av_wf a' \<and> av_list a' = av_list a2 @ ys \<and> av_next a' = av_next a2 \<and>
        unat (av_capacity a') \<le> K + 16 \<and> list_all2 holds_address (usable res) ys"
      using Cons.prems(2,3) u 1(3) 2(3,5) cap by (intro Cons.IH 2(2)) auto
    with g 1 2 True u show ?thesis by (auto simp: r)
  next
    case False
    have u: "usable (r # res) = usable res" using False by (auto simp: usable_def r)
    have "\<exists>a' ys. append_results E res a1 = Some (ZOK, a') \<and> av_wf a' \<and> av_list a' = av_list a1 @ ys \<and> av_next a' = av_next a1 \<and>
        unat (av_capacity a') \<le> K + 16 \<and> list_all2 holds_address (usable res) ys"
      using Cons.prems(2,3) u 1(3) cap by (intro Cons.IH 1(2)) auto
    with g 1 False u show ?thesis by (auto simp: r)
  qed
qed (simp add: usable_def)

definition steady_resolver :: "os \<Rightarrow> bool" where
  "steady_resolver E \<longleftrightarrow> (\<forall>n. os_getaddrinfo E n = os_getaddrinfo E 0)"

definition good_port :: "bytes \<Rightarrow> bool" where
  \<comment> \<open>all of it is a number, and the number is not 0 as an \<^verbatim>\<open>int\<close>\<close>
  "good_port p \<longleftrightarrow> p \<noteq> [] \<and> snd (strtol p) = [] \<and> (word_of_int (fst (strtol p)) :: i32) \<noteq> 0"

definition host_answers :: "os \<Rightarrow> bytes \<Rightarrow> (nat \<times> addrinfo) list" where
  \<comment> \<open>what the resolver knows about a host of the connection string, nothing when it fails\<close>
  "host_answers E host = (case split_port host of None \<Rightarrow> [] | Some (h, p) \<Rightarrow>
     (case fst (get_addresses E (dropWhile is_space h) p 0) of None \<Rightarrow> [] | Some res \<Rightarrow> res))"

definition host_ok :: "os \<Rightarrow> bytes \<Rightarrow> bool" where
  "host_ok E host \<longleftrightarrow> (\<exists>h p. split_port host = Some (h, p) \<and> good_port p) \<and> (\<forall>r \<in> set (host_answers E host). answer_ok r)"

definition all_answers :: "os \<Rightarrow> bytes list \<Rightarrow> addrinfo list" where
  "all_answers E hosts = concat (map (\<lambda>h. usable (host_answers E h)) hosts)"

lemma get_addresses_steady:
  assumes "steady_resolver E"
  shows "fst (get_addresses E h p n) = fst (get_addresses E h p 0)"
proof -
  have s: "os_getaddrinfo E m = os_getaddrinfo E 0" for m using assms unfolding steady_resolver_def by blast
  show ?thesis unfolding get_addresses_def s [of n] s [of "Suc n"] s [of "Suc 0"] by (simp split: gai_result.split)
qed

lemma resolve_loop_ok:
  assumes "good_host (os_host E)" and "steady_resolver E" and "\<forall>h \<in> set hosts. host_ok E h" and "av_wf a" and "K \<le> 2 ^ 20"
    and "length (av_list a) + length (all_answers E hosts) \<le> K" and "unat (av_capacity a) \<le> K + 16"
  shows "\<exists>n' a' ys. resolve_loop E hosts n a = Some (ZOK, n', a') \<and> av_wf a' \<and> av_list a' = av_list a @ ys \<and> av_next a' = av_next a \<and>
    list_all2 holds_address (all_answers E hosts) ys"
  using assms(3,4,6,7)
proof (induction hosts arbitrary: a n)
  case (Cons host hosts)
  obtain h p where hp: "split_port host = Some (h, p)" "good_port p" using Cons.prems(1) by (auto simp: host_ok_def)
  obtain r m where g: "get_addresses E (dropWhile is_space h) p n = (r, m)" by fastforce
  then have r: "fst (get_addresses E (dropWhile is_space h) p 0) = r"
    using get_addresses_steady [OF assms(2), of "dropWhile is_space h" p n] by simp
  obtain v where v: "strtol p = (v, [])" "(word_of_int v :: i32) \<noteq> 0" "p \<noteq> []"
    using hp(2) by (cases "strtol p") (auto simp: good_port_def)
  let ?res = "host_answers E host"
  have ans: "?res = (case r of None \<Rightarrow> [] | Some res \<Rightarrow> res)" using hp(1) r by (simp add: host_answers_def)
  have ok: "\<forall>x \<in> set ?res. answer_ok x" using Cons.prems(1) by (simp add: host_ok_def)
  have all: "all_answers E (host # hosts) = usable ?res @ all_answers E hosts" by (simp add: all_answers_def)
  have fit: "length (av_list a) + length (usable ?res) \<le> K" using Cons.prems(3) all by simp
  obtain a1 zs where 1: "append_results E ?res a = Some (ZOK, a1)" "av_wf a1" "av_list a1 = av_list a @ zs" "av_next a1 = av_next a"
    "unat (av_capacity a1) \<le> K + 16" "list_all2 holds_address (usable ?res) zs"
    using append_results_ok [OF assms(1) Cons.prems(2) ok assms(5) fit Cons.prems(4)] by blast
  have len: "length zs = length (usable ?res)" using list_all2_lengthD [OF 1(6)] by simp
  have "\<exists>n' a' ys. resolve_loop E hosts m a1 = Some (ZOK, n', a') \<and> av_wf a' \<and> av_list a' = av_list a1 @ ys \<and> av_next a' = av_next a1 \<and>
      list_all2 holds_address (all_answers E hosts) ys"
    using Cons.prems(1,3) all len 1(3,5) by (intro Cons.IH 1(2)) auto
  then obtain n' a' ys where 2: "resolve_loop E hosts m a1 = Some (ZOK, n', a')" "av_wf a'" "av_list a' = av_list a1 @ ys"
    "av_next a' = av_next a1" "list_all2 holds_address (all_answers E hosts) ys" by blast
  have "resolve_loop E (host # hosts) n a = resolve_loop E hosts m a1"
    using hp(1) v g 1(1) ans by (cases r) simp_all
  moreover have "list_all2 holds_address (all_answers E (host # hosts)) (zs @ ys)"
    using 1(6) 2(5) all by (simp add: list_all2_appendI)
  ultimately show ?case using 1(3,4) 2 by auto
qed (simp add: all_answers_def)

lemma resolve_hosts_ok:
  assumes "good_host (os_host E)" and "steady_resolver E" and "\<not> w_null c" and "hosts \<noteq> []" and "length hosts + 2 \<le> 2 ^ 20"
    and "\<forall>h \<in> set (strtok [] hosts). host_ok E h" and "all_answers E (strtok [] hosts) \<noteq> []"
    and "length (all_answers E (strtok [] hosts)) \<le> 2 ^ 20"
  shows "\<exists>r d ys. resolve_hosts E f (Some hosts) c = Some (ZOK, r, d) \<and> av_wf r \<and> av_next r = 0 \<and> only_ticks c d \<and>
    list_all2 holds_address (all_answers E (strtok [] hosts)) ys \<and>
    (if f then av_list r = ys else mset (av_list r) = mset ys)"
proof -
  let ?n = "count_hosts (Some hosts)"
  have "count_commas hosts \<le> length hosts" by (induction hosts) auto
  then have n: "0 < ?n" "?n \<le> 2 ^ 20" using assms(4,5) by (simp_all add: count_hosts_def)
  have u: "unat (of_nat ?n :: i32) = ?n" using n(2) by (simp add: unsigned_of_nat take_bit_nat_eq_self)
  then have ne: "(of_nat ?n :: i32) \<noteq> 0" using n(1) by (metis less_irrefl unat_0)
  have gr: "grants (os_host E) (int (length hosts) + 1)" using assms(1,5) by (simp add: good_hostD)
  have "unat (av_capacity addrvec_init) + unat (of_nat ?n :: i32) < 2 ^ 31" using u n(2) by (simp add: addrvec_init_def)
  moreover have "128 * uint (of_nat ?n :: i32) \<le> 2 ^ 30"
  proof -
    have "uint (of_nat ?n :: i32) = int ?n" unfolding uint_nat u ..
    then show ?thesis using n(2) by simp
  qed
  then have "addrvec_grow (os_host E) (of_nat ?n) addrvec_init \<noteq> Some (1, addrvec_init)"
    "addrvec_grow (os_host E) (of_nat ?n) addrvec_init \<noteq> None"
    using good_hostD [OF assms(1), of "128 * uint (of_nat ?n :: i32)"] ne by (auto simp: addrvec_grow_def addrvec_init_def Let_def)
  then obtain a where a: "addrvec_grow (os_host E) (of_nat ?n) addrvec_init = Some (0, a)"
    by (auto simp: addrvec_grow_def Let_def split: if_splits)
  ultimately have 1: "av_wf a" "av_list a = []" "av_next a = 0" "unat (av_capacity a) = ?n"
    using addrvec_grow_cases [of addrvec_init "of_nat ?n" "os_host E" 0 a] u by (auto simp: init_fields)
  have fit: "length (av_list a) + length (all_answers E (strtok [] hosts)) \<le> 2 ^ 20" "unat (av_capacity a) \<le> 2 ^ 20 + 16"
    using 1 assms(8) n(2) by simp_all
  obtain m a1 ys where 2: "resolve_loop E (strtok [] hosts) (w_ticks c) a = Some (ZOK, m, a1)" "av_wf a1" "av_list a1 = ys"
    "av_next a1 = 0" "list_all2 holds_address (all_answers E (strtok [] hosts)) ys"
    using resolve_loop_ok [OF assms(1,2,6) 1(1) order.refl fit, of "w_ticks c"] 1(2,3) by auto
  have "ys \<noteq> []" using 2(5) assms(7) by auto
  then have "av_count a1 \<noteq> 0" using length_av_list [OF 2(2)] 2(3) by (metis length_0_conv unat_0)
  moreover obtain k a2 where 3: "addrvec_shuffle (os_random E) m a1 = Some (k, a2)" "av_wf a2" "mset (av_list a2) = mset ys" "av_next a2 = 0"
    using addrvec_shuffle_ok [OF 2(2), of "os_random E" m] 2(3,4) by auto
  ultimately show ?thesis
    using a 2 gr assms(3) n(1) by (cases f) (auto simp: resolve_hosts_def addrvec_alloc_capacity_def Let_def)
qed

text \<open>
  The connection string is resolved whole: when every host in it has a valid port and the resolver is asked about each, the
  result holds exactly the IPv4 and IPv6 addresses that the resolver knows, those of the first host first, or, when the order is not
  fixed, a permutation of them; hosts that do not resolve are skipped, and no memory outside the vector is touched.
\<close>

theorem resolve_hosts_collects:
  assumes "good_host (os_host E)" and "steady_resolver E" and "\<not> w_null c" and "hosts \<noteq> []" and "length hosts + 2 \<le> 2 ^ 20"
    and "\<forall>h \<in> set (strtok [] hosts). host_ok E h" and "all_answers E (strtok [] hosts) \<noteq> []"
    and "length (all_answers E (strtok [] hosts)) \<le> 2 ^ 20"
  shows "\<exists>r d ys. resolve_hosts E f (Some hosts) c = Some (ZOK, r, d) \<and> av_wf r \<and> av_next r = 0 \<and> only_ticks c d \<and>
    list_all2 holds_address (all_answers E (strtok [] hosts)) ys \<and>
    (if f then av_list r = ys else mset (av_list r) = mset ys)"
  using assms by (rule resolve_hosts_ok)

section \<open>Two servers at work\<close>

definition one_host :: "nat list \<Rightarrow> gai_result" where
  "one_host ip = Gai_ok [(AF_INET, \<lparr>ai_addr = addr_of ip, ai_addrlen = 16\<rparr>)]"

definition resolving_os :: os where
  "resolving_os = test_os\<lparr>os_getaddrinfo := (\<lambda>_ _ host _. if host = ''a'' then one_host [10, 0, 0, 1] else Gai_failed 2)\<rparr>"

lemma resolving_os_ok: "good_host (os_host resolving_os)" "steady_resolver resolving_os"
  by (auto simp: resolving_os_def steady_resolver_def test_os_def test_host_def good_host_def)

lemma sample_hosts:
  "strtok [] ''a:1,b:2'' = [''a:1'', ''b:2'']"
  "host_answers resolving_os ''a:1'' = [(AF_INET, \<lparr>ai_addr = addr_of [10, 0, 0, 1], ai_addrlen = 16\<rparr>)]"
  "host_answers resolving_os ''b:2'' = []" "host_ok resolving_os ''a:1''" "host_ok resolving_os ''b:2''"
proof -
  have p: "split_port ''a:1'' = Some (''a'', ''1'')" "split_port ''b:2'' = Some (''b'', ''2'')" by (simp_all add: split_port_def)
  have g: "good_port ''1''" "good_port ''2''" by (simp_all add: good_port_def strtol_def is_space_def digit_value_def)
  show "strtok [] ''a:1,b:2'' = [''a:1'', ''b:2'']" by simp
  show a: "host_answers resolving_os ''a:1'' = [(AF_INET, \<lparr>ai_addr = addr_of [10, 0, 0, 1], ai_addrlen = 16\<rparr>)]"
    "host_answers resolving_os ''b:2'' = []"
    by (simp_all add: host_answers_def p is_space_def get_addresses_def resolving_os_def one_host_def)
  show "host_ok resolving_os ''a:1''" "host_ok resolving_os ''b:2''"
    using p g a by (simp_all add: host_ok_def answer_ok_def addr_of_def)
qed

theorem resolve_hosts_collects_witness:
  "\<exists>r d ys. resolve_hosts resolving_os True (Some ''a:1,b:2'') test_client = Some (ZOK, r, d) \<and> av_wf r \<and>
    list_all2 holds_address [\<lparr>ai_addr = addr_of [10, 0, 0, 1], ai_addrlen = 16\<rparr>] ys \<and> av_list r = ys"
proof -
  have "all_answers resolving_os [''a:1'', ''b:2''] = [\<lparr>ai_addr = addr_of [10, 0, 0, 1], ai_addrlen = 16\<rparr>]"
    by (simp add: all_answers_def sample_hosts usable_def)
  then show ?thesis
    using resolve_hosts_collects [of resolving_os test_client "''a:1,b:2''" True] resolving_os_ok sample_hosts by auto
qed

theorem new_servers_split_witness:
  "\<exists>c'. update_addrs resolving_os True (test_client\<lparr>zh_hostname := Some ''a:1,b:2''\<rparr>) = Some (ZOK, c') \<and> zh_reconfig c' \<and> zh_fd c' = - 1 \<and>
    av_list (zh_addrs_old c') = []"
proof -
  let ?c = "test_client\<lparr>zh_hostname := Some ''a:1,b:2''\<rparr>"
  have a: "all_answers resolving_os [''a:1'', ''b:2''] = [\<lparr>ai_addr = addr_of [10, 0, 0, 1], ai_addrlen = 16\<rparr>]"
    by (simp add: all_answers_def sample_hosts usable_def)
  then obtain r d ys where r: "resolve_hosts resolving_os True (Some ''a:1,b:2'') ?c = Some (ZOK, r, d)" "av_wf r" "av_list r = ys"
    "list_all2 holds_address [\<lparr>ai_addr = addr_of [10, 0, 0, 1], ai_addrlen = 16\<rparr>] ys"
    using resolve_hosts_ok [of resolving_os ?c "''a:1,b:2''" True] resolving_os_ok sample_hosts by auto
  have len: "length (av_list r) = 1" using r(3,4) by (auto simp: list_all2_Cons1)
  have cur: "zh_addrs ?c = addrvec_init" "zh_addr_cur ?c = ss_zero" by (simp_all add: test_client_def)
  have fam: "ss_family (os_host resolving_os) ss_zero = 0" by (simp add: ss_family_def ss_zero_def resolving_os_def test_os_def test_host_def eval_nat_numeral)
  have "\<not> has_ip (os_host resolving_os) (av_list r) (zh_addr_cur ?c)"
    using fam cur by (auto simp: has_ip_def same_host_addr_def)
  then show ?thesis
    using new_servers_split [of resolving_os ?c "''a:1,b:2''" True r d] resolving_os_ok r(1,2) len cur
    by (auto simp: same_ips_def has_ip_def filter_empty_conv)
qed

theorem reconfig_tries_every_server_witness:
  "\<exists>xs d. cycle_n test_os 3 (test_client\<lparr>zh_reconfig := True, zh_addrs := vec_of [addr_of [1]], zh_addrs_old := vec_of [addr_of [1]],
      zh_addrs_new := vec_of [addr_of [2], addr_of [3]]\<rparr>) = Some (xs, d) \<and> mset xs = {#addr_of [1], addr_of [2], addr_of [3]#}"
proof -
  let ?c = "test_client\<lparr>zh_reconfig := True, zh_addrs := vec_of [addr_of [1]], zh_addrs_old := vec_of [addr_of [1]],
      zh_addrs_new := vec_of [addr_of [2], addr_of [3]]\<rparr>"
  have l: "av_list (vec_of [addr_of [1]]) = [addr_of [1]]" "av_list (vec_of [addr_of [2], addr_of [3]]) = [addr_of [2], addr_of [3]]"
    by (simp_all add: vec_of_def av_list_def)
  have "av_wf (vec_of [addr_of [1]])" "av_wf (vec_of [addr_of [2], addr_of [3]])" by (simp_all add: vec_of_def av_wf_def addr_of_def)
  moreover have "av_next (vec_of xs) = 0" for xs by (simp add: vec_of_def)
  ultimately show ?thesis
    using reconfig_tries_every_server [of ?c test_os] l by (auto simp: numeral_3_eq_3)
qed

definition local_endpoint :: "nat \<Rightarrow> sockaddr" where
  \<comment> \<open>port 3000 or one of its neighbours on the local host\<close>
  "local_endpoint n = [CHR 0x02, NUL, CHR 0x0B, char_of (184 + n)] @ map char_of [127, 0, 0, 1 :: nat] @ replicate 120 NUL"

definition local_os :: os where
  \<comment> \<open>the resolver of the example in the documentation\<close>
  "local_os = test_os\<lparr>os_getaddrinfo := (\<lambda>_ _ host port.
     Gai_ok [(AF_INET, \<lparr>ai_addr = local_endpoint (if port = ''3001'' then 1 else 2), ai_addrlen = 16\<rparr>)])\<rparr>"

lemma local_os_ok: "good_host (os_host local_os)" "steady_resolver local_os" "\<not> big_endian (os_host local_os)"
  by (auto simp: local_os_def steady_resolver_def test_os_def test_host_def good_host_def)

lemma local_hosts:
  "strtok [] ''127.0.0.1:3001,127.0.0.1:3002'' = [''127.0.0.1:3001'', ''127.0.0.1:3002'']"
  "host_answers local_os ''127.0.0.1:3001'' = [(AF_INET, \<lparr>ai_addr = local_endpoint 1, ai_addrlen = 16\<rparr>)]"
  "host_answers local_os ''127.0.0.1:3002'' = [(AF_INET, \<lparr>ai_addr = local_endpoint 2, ai_addrlen = 16\<rparr>)]"
  "host_ok local_os ''127.0.0.1:3001''" "host_ok local_os ''127.0.0.1:3002''"
proof -
  have p: "split_port ''127.0.0.1:3001'' = Some (''127.0.0.1'', ''3001'')" "split_port ''127.0.0.1:3002'' = Some (''127.0.0.1'', ''3002'')"
    by (simp_all add: split_port_def)
  have g: "good_port ''3001''" "good_port ''3002''" by (simp_all add: good_port_def strtol_def is_space_def digit_value_def)
  show "strtok [] ''127.0.0.1:3001,127.0.0.1:3002'' = [''127.0.0.1:3001'', ''127.0.0.1:3002'']" by simp
  show a: "host_answers local_os ''127.0.0.1:3001'' = [(AF_INET, \<lparr>ai_addr = local_endpoint 1, ai_addrlen = 16\<rparr>)]"
    "host_answers local_os ''127.0.0.1:3002'' = [(AF_INET, \<lparr>ai_addr = local_endpoint 2, ai_addrlen = 16\<rparr>)]"
    by (simp_all add: host_answers_def p get_addresses_def local_os_def)
  show "host_ok local_os ''127.0.0.1:3001''" "host_ok local_os ''127.0.0.1:3002''"
    using p g a by (simp_all add: host_ok_def answer_ok_def local_endpoint_def)
qed

lemma local_endpoint_parts:
  assumes "holds_address \<lparr>ai_addr = local_endpoint n, ai_addrlen = 16\<rparr> y"
  shows "take 4 y = take 4 (local_endpoint n)" "sin_addr y = sin_addr (local_endpoint 0)"
proof -
  have "take 16 y = take 16 (local_endpoint n)" using assms by (simp add: holds_address_def)
  then have "take 4 (take 16 y) = take 4 (take 16 (local_endpoint n))" "take 4 (drop 4 (take 16 y)) = take 4 (drop 4 (take 16 (local_endpoint n)))"
    by simp_all
  then show "take 4 y = take 4 (local_endpoint n)" "sin_addr y = sin_addr (local_endpoint 0)"
    by (simp_all add: sin_addr_def drop_take min_def local_endpoint_def)
qed

theorem removed_endpoint_kept_witness:
  "\<exists>c'. update_addrs local_os True (test_client\<lparr>zh_hostname := Some ''127.0.0.1:3001,127.0.0.1:3002'',
       zh_addrs := vec_of (map local_endpoint [0, 1, 2]), zh_addr_cur := local_endpoint 0\<rparr>) = Some (ZOK, c') \<and>
     zh_addr_cur c' = local_endpoint 0 \<and> zh_fd c' = 3"
proof -
  let ?hosts = "''127.0.0.1:3001,127.0.0.1:3002''"
  let ?c = "test_client\<lparr>zh_hostname := Some ?hosts, zh_addrs := vec_of (map local_endpoint [0, 1, 2]), zh_addr_cur := local_endpoint 0\<rparr>"
  have "all_answers local_os [''127.0.0.1:3001'', ''127.0.0.1:3002''] =
      [\<lparr>ai_addr = local_endpoint 1, ai_addrlen = 16\<rparr>, \<lparr>ai_addr = local_endpoint 2, ai_addrlen = 16\<rparr>]"
    by (simp add: all_answers_def local_hosts usable_def)
  then obtain r d x y where r: "resolve_hosts local_os True (Some ?hosts) ?c = Some (ZOK, r, d)" "av_wf r" "av_list r = [x, y]"
    "holds_address \<lparr>ai_addr = local_endpoint 1, ai_addrlen = 16\<rparr> x" "holds_address \<lparr>ai_addr = local_endpoint 2, ai_addrlen = 16\<rparr> y"
    using resolve_hosts_ok [of local_os ?c ?hosts True] local_os_ok local_hosts by (auto simp: list_all2_Cons1)
  have xy: "local_endpoint 0 \<noteq> x" "local_endpoint 0 \<noteq> y"
    using local_endpoint_parts(1) [OF r(4)] local_endpoint_parts(1) [OF r(5)] by (auto simp: local_endpoint_def)
  have fam: "ss_family (os_host local_os) x = AF_INET" "ss_family (os_host local_os) (local_endpoint 0) = AF_INET"
  proof -
    have "take 2 (take 4 x) = take 2 (take 4 (local_endpoint 1))" using local_endpoint_parts(1) [OF r(4)] by simp
    then show "ss_family (os_host local_os) x = AF_INET" "ss_family (os_host local_os) (local_endpoint 0) = AF_INET"
      using local_os_ok(3) by (simp_all add: ss_family_def local_endpoint_def eval_nat_numeral)
  qed
  have old: "av_list (zh_addrs ?c) = map local_endpoint [0, 1, 2]" "av_wf (zh_addrs ?c)"
    by (simp_all add: vec_of_def av_list_def av_wf_def local_endpoint_def)
  show ?thesis
    using removed_endpoint_kept [OF local_os_ok(1) _ _ _ r(1,2) _ old(2), of x] r(3) xy fam old(1) local_endpoint_parts(2) [OF r(4)]
    by (auto simp: test_client_def)
qed

end
