(* ===== verification/Interest.thy ===== *)
theory Interest
  imports Events Servers
begin

text \<open>
  What an event loop asks of a handle between two turns: \<^verbatim>\<open>zookeeper_interest\<close> with the choice of a server, the start of a
  connection, the receive timeout, pings and the search for a read/write server; and the creation of a handle. The answers of
  \<^verbatim>\<open>socket\<close>, \<^verbatim>\<open>connect\<close> and of the probe \<^verbatim>\<open>isro\<close> come from the \<open>os\<close> record. Arithmetic on \<^verbatim>\<open>int\<close> that leaves the range is
  undefined (\<open>None\<close>). Log lines are left out, and so is the report on the environment.
\<close>

unbundle bit_operations_syntax

section \<open>The search for a read/write server\<close>

abbreviation (input) MAX_RW_TIMEOUT :: int where "MAX_RW_TIMEOUT \<equiv> 60000"
abbreviation (input) MIN_RW_TIMEOUT :: int where "MIN_RW_TIMEOUT \<equiv> 200"

definition tick :: "client \<Rightarrow> client" where
  \<comment> \<open>one more system call\<close>
  "tick c = c\<lparr>w_ticks := w_ticks c + 1\<rparr>"

definition says_rw :: "bytes \<Rightarrow> bool" where
  \<comment> \<open>\<^verbatim>\<open>strcmp("rw", buf) == 0\<close> on a buffer of ten bytes that was cleared before the reply was received\<close>
  "says_rw resp \<longleftrightarrow> take 3 (take 10 resp @ replicate (10 - length resp) NUL) = ''rw'' @ [NUL]"

definition ping_rw_server :: "os \<Rightarrow> client \<Rightarrow> (bool \<times> client) option" where
  \<comment> \<open>a failed \<^verbatim>\<open>socket\<close> or \<^verbatim>\<open>connect\<close> leaves the static pointer as it was; that socket is not closed\<close>
  "ping_rw_server E c = do {
     addr \<leftarrow> addrvec_peek (zh_addrs c);
     let c = c\<lparr>zh_addr_rw_server := addr\<rparr>;
     let sock = os_socket E (w_ticks c);
     let c = tick c;
     if sock < 0 then Some (False, c)
     else
       let r = os_connect E (w_ticks c); c = tick c in
       if r \<noteq> Connect_done then Some (False, c)
       else
         let resp = os_isro E (w_ticks c); c = tick c;
             rc = (case resp of None \<Rightarrow> False | Some resp \<Rightarrow> says_rw resp)
         in Some (rc, c\<lparr>w_addr_rw := rc\<rparr>)
   }"

definition seek_rw_server :: "os \<Rightarrow> timeval \<Rightarrow> int \<Rightarrow> client \<Rightarrow> (int \<times> client) option" where
  \<comment> \<open>the part of \<^verbatim>\<open>zookeeper_interest\<close> for a read-only session; the result is the new \<^verbatim>\<open>send_to\<close>\<close>
  "seek_rw_server E now send_to c = do {
     let idle_ping_rw = calculate_interval (zh_last_ping_rw c) now;
     (idle_ping_rw, c) \<leftarrow>
       (if idle_ping_rw \<ge> zh_ping_rw_timeout c then do {
          twice \<leftarrow> c_int (zh_ping_rw_timeout c * 2);
          let c = c\<lparr>zh_last_ping_rw := now, zh_ping_rw_timeout := min twice MAX_RW_TIMEOUT\<rparr>;
          (found, c) \<leftarrow> ping_rw_server E c;
          if found then do {
            _ \<leftarrow> addrvec_peek (zh_addrs c);
            c \<leftarrow> cleanup E ZOK (c\<lparr>zh_ping_rw_timeout := MIN_RW_TIMEOUT\<rparr>);
            Some (0, c)
          }
          else Some (0, c\<lparr>zh_addrs := addrvec_skip (zh_addrs c)\<rparr>)
        }
        else Some (idle_ping_rw, c));
     left \<leftarrow> c_int (zh_ping_rw_timeout c - idle_ping_rw);
     Some (min send_to left, c)
   }"

section \<open>What the client waits for\<close>

record io_wants =
  io_fd :: int
  io_read :: bool
  io_write :: bool
  io_tv :: timeval

text \<open>
  The three results of \<^verbatim>\<open>zookeeper_interest\<close>: \<^verbatim>\<open>*fd\<close>, \<^verbatim>\<open>*interest\<close> (its two bits) and \<^verbatim>\<open>*tv\<close>. The definitions return \<open>None\<close> for them
  when the call leaves what the pointers point to as it was.
\<close>

definition begin_connect :: "os \<Rightarrow> client \<Rightarrow> (int option \<times> client) option" where
  \<comment> \<open>choose a server and start to connect; \<open>Some rc\<close> returns with that code\<close>
  "begin_connect E c = do {
     c \<leftarrow> (if w_addr_rw c then Some (c\<lparr>zh_addr_cur := zh_addr_rw_server c, w_addr_rw := False\<rparr>)
           else zoo_cycle_next_server E c);
     let c = tick (c\<lparr>zh_fd := os_socket E (w_ticks c)\<rparr>);
     if zh_fd c < 0 then do { (rc, c) \<leftarrow> handle_socket_error_msg E ZSYSTEMERROR c; Some (Some rc, c) }
     else
       let r = os_connect E (w_ticks c); c = tick (c\<lparr>w_sock := os_new_sock E (w_ticks c)\<rparr>) in
       case r of
         Connect_pending \<Rightarrow> Some (None, c\<lparr>zh_state := ZOO_CONNECTING_STATE\<rparr>)
       | Connect_failed \<Rightarrow> do { (rc, c) \<leftarrow> handle_socket_error_msg E ZCONNECTIONLOSS c; Some (Some rc, c) }
       | Connect_done \<Rightarrow> do { (rc, c) \<leftarrow> prime_connection E c; Some (if rc \<noteq> 0 then Some rc else None, c) }
   }"

definition set_deadline :: "timeval \<Rightarrow> timeval \<Rightarrow> timeval" where
  \<comment> \<open>one million microseconds are not carried, only more\<close>
  "set_deadline now tv =
     (let s = tv_sec now + tv_sec tv; u = tv_usec now + tv_usec tv in
      if u > 1000000 then \<lparr>tv_sec = s + c_div u 1000000, tv_usec = u - c_div u 1000000 * 1000000\<rparr> else \<lparr>tv_sec = s, tv_usec = u\<rparr>)"

definition ping_if_idle :: "os \<Rightarrow> int \<Rightarrow> client \<Rightarrow> (int \<times> int \<times> client) option" where
  \<comment> \<open>the code and the new \<^verbatim>\<open>send_to\<close>; only one third of the timeout may pass before a ping\<close>
  "ping_if_idle E idle_send c =
     (let third = c_div (sint (zh_recv_timeout c)) 3 in
      if is_connected c then do {
        send_to \<leftarrow> c_int (third - idle_send);
        if send_to \<le> 0 then do {
          (rc, c) \<leftarrow> (if zh_sent_requests c = [] then send_ping E c else Some (0, c));
          Some (min rc 0, third, c)
        }
        else Some (0, send_to, c)
      }
      else Some (0, third, c))"

definition watch_connection :: "os \<Rightarrow> timeval \<Rightarrow> io_wants \<Rightarrow> client \<Rightarrow> (int \<times> io_wants \<times> client) option" where
  \<comment> \<open>the part of \<^verbatim>\<open>zookeeper_interest\<close> for a handle with a socket, without \<^verbatim>\<open>api_epilog\<close>\<close>
  "watch_connection E now out c = do {
     let idle_recv = calculate_interval (zh_last_recv c) now;
     let idle_send = calculate_interval (zh_last_send c) now;
     twice \<leftarrow> c_int (sint (zh_recv_timeout c) * 2);
     recv_to \<leftarrow> c_int (c_div twice 3 - idle_recv);
     if recv_to \<le> 0 then do {
       _ \<leftarrow> c_int (- recv_to);
       (rc, c) \<leftarrow> handle_socket_error_msg E ZOPERATIONTIMEOUT c;
       Some (rc, out\<lparr>io_read := False, io_write := False, io_tv := get_timeval 0\<rparr>, c)
     }
     else do {
       (rc, send_to, c) \<leftarrow> ping_if_idle E idle_send c;
       if rc < 0 then Some (rc, out, c)
       else do {
         (send_to, c) \<leftarrow> (if zh_state c = ZOO_READONLY_STATE then seek_rw_server E now send_to c else Some (send_to, c));
         let tv = get_timeval (min recv_to send_to);
         let c = c\<lparr>zh_next_deadline := set_deadline now tv\<rparr>;
         Some (ZOK, out\<lparr>io_tv := tv, io_read := True,
           io_write := (zh_to_send c \<noteq> [] \<and> is_connected c \<or> zh_state c = ZOO_CONNECTING_STATE)\<rparr>, c)
       }
     }
   }"

definition connect_if_needed :: "os \<Rightarrow> timeval \<Rightarrow> client \<Rightarrow> (int option \<times> io_wants \<times> client) option" where
  \<comment> \<open>the part of \<^verbatim>\<open>zookeeper_interest\<close> for a handle without a socket; \<open>Some rc\<close> returns with that code\<close>
  "connect_if_needed E now c =
     (let out = \<lparr>io_fd = zh_fd c, io_read = False, io_write = False, io_tv = tv_zero\<rparr>;
          started = (\<lambda>out c. (None, out\<lparr>io_fd := zh_fd c\<rparr>, c\<lparr>zh_last_recv := now, zh_last_send := now, zh_last_ping := now,
            zh_last_ping_rw := now, zh_ping_rw_timeout := MIN_RW_TIMEOUT\<rparr>))
      in
      if zh_fd c \<noteq> - 1 then Some (None, out, c)
      else if zh_delay c \<or> zh_disable_reconnection_attempt c then
        Some (started (out\<lparr>io_tv := get_timeval (c_div (sint (zh_recv_timeout c)) 60)\<rparr>) (c\<lparr>zh_delay := False\<rparr>))
      else do {
        (stop, c) \<leftarrow> begin_connect E c;
        case stop of
          Some rc \<Rightarrow> Some (Some rc, out, c)
        | None \<Rightarrow> Some (started (out\<lparr>io_tv := get_timeval (c_div (sint (zh_recv_timeout c)) 3)\<rparr>) c)
      })"

definition zookeeper_interest :: "os \<Rightarrow> bool \<Rightarrow> bool \<Rightarrow> client \<Rightarrow> (int \<times> io_wants option \<times> client) option" where
  \<comment> \<open>\<open>null_arg\<close>: one of the three pointers is null\<close>
  "zookeeper_interest E fixed_order null_arg c =
     (if w_null c \<or> null_arg then Some (ZBADARGUMENTS, None, c)
      else if is_unrecoverable c \<noteq> 0 then Some (ZINVALIDSTATE, None, c)
      else do {
        (now, c) \<leftarrow> get_system_time E c;
        let c = api_prolog c;
        (rc, c) \<leftarrow> update_addrs E fixed_order c;
        if rc \<noteq> ZOK then do { (rc, c) \<leftarrow> api_epilog E rc c; Some (rc, None, c) }
        else do {
          (stop, out, c) \<leftarrow> connect_if_needed E now c;
          case stop of
            Some rc \<Rightarrow> do { (rc, c) \<leftarrow> api_epilog E rc c; Some (rc, Some out, c) }
          | None \<Rightarrow> do {
              (rc, out, c) \<leftarrow> (if zh_fd c \<noteq> - 1 then watch_connection E now out c else Some (ZOK, out, c));
              (rc, c) \<leftarrow> api_epilog E rc c;
              Some (rc, Some out, c)
            }
        }
      })"

section \<open>Creation of a handle\<close>

definition null_watcher_fn :: nat where
  \<comment> \<open>the address of the function that does nothing\<close>
  "null_watcher_fn = 1"

definition zoo_client_id :: "client \<Rightarrow> (i64 \<times> bytes) option" where
  "zoo_client_id c = do { _ \<leftarrow> c_assert (\<not> w_null c); Some (zh_client_id c, zh_passwd c) }"

definition zoo_set_watcher :: "nat \<Rightarrow> client \<Rightarrow> (nat \<times> client) option" where
  "zoo_set_watcher newFn c = do {
     _ \<leftarrow> c_assert (\<not> w_null c);
     Some (zh_watcher c, c\<lparr>zh_watcher := (if newFn \<noteq> 0 then newFn else null_watcher_fn)\<rparr>)
   }"

definition start_threads :: "os \<Rightarrow> client \<Rightarrow> client option" where
  \<comment> \<open>the two threads take their references before the barrier lets the three of them go on\<close>
  "start_threads E c = do {
     let c = api_prolog c;
     let c = api_prolog (api_prolog c);
     (r, c) \<leftarrow> api_epilog E 0 c;
     Some c
   }"

definition adaptor_init :: "os \<Rightarrow> bool \<Rightarrow> client \<Rightarrow> (int \<times> client) option" where
  \<comment> \<open>\<open>has_pipe\<close>: \<^verbatim>\<open>pipe\<close> succeeds\<close>
  "adaptor_init E has_pipe c =
     (if \<not> os_threaded E then Some (0, c)
      else if \<not> grants (os_host E) 200 then Some (- 1, c)
      else if \<not> has_pipe then Some (- 1, c)
      else do { c \<leftarrow> start_threads E c; Some (0, c) })"

definition blank_handle :: "client \<Rightarrow> client" where
  \<comment> \<open>the cleared handle in the process \<open>w\<close>, with the fields that \<^verbatim>\<open>calloc\<close> leaves at zero\<close>
  "blank_handle w = w\<lparr>zh_fd := 0, zh_hostname := None, zh_addr_cur := ss_zero, zh_addr_rw_server := ss_zero, zh_addrs := addrvec_init,
     zh_addrs_old := addrvec_init, zh_addrs_new := addrvec_init, zh_reconfig := False, zh_pOld := Some 0, zh_pNew := Some 0,
     zh_delay := False, zh_disable_reconnection_attempt := False, zh_watcher := 0, zh_last_recv := tv_zero, zh_last_send := tv_zero,
     zh_last_ping := tv_zero, zh_next_deadline := tv_zero, zh_recv_timeout := 0, zh_input_buffer := No_input, zh_to_process := [],
     zh_to_send := [], zh_sent_requests := [], zh_completions_to_process := [], zh_outstanding_sync := 0, zh_last_ping_rw := tv_zero,
     zh_ping_rw_timeout := 0, zh_state := 0, zh_context := 0, zh_client_id := 0, zh_passwd := replicate 16 NUL, zh_last_zxid := 0,
     zh_auth_h := [], zh_primer_buffer := \<lparr>bl_buffer = None, bl_len = 0, bl_curr_offset = 0\<rparr>, zh_primer_storage := prime_zero,
     zh_ref_counter := 0, zh_close_requested := False, zh_socket_readable := tv_zero, zh_chroot := None, zh_allow_read_only := NUL,
     zh_seen_rw_server_before := NUL, w_null := False, w_freed := False\<rparr>"

definition split_chroot :: "os \<Rightarrow> bytes \<Rightarrow> (cstr \<times> cstr) option option" where
  \<comment> \<open>chroot and host list; the inner \<open>None\<close> is the way to \<^verbatim>\<open>abort\<close>. The block for the hosts is not checked\<close>
  "split_chroot E host =
     (let hosts = takeWhile (\<lambda>ch. ch \<noteq> CHR ''/'') host; index_chroot = dropWhile (\<lambda>ch. ch \<noteq> CHR ''/'') host in
      if index_chroot \<noteq> [] then
        (case strdup (os_host E) index_chroot of
           None \<Rightarrow> Some None
         | Some ch \<Rightarrow> do {
             _ \<leftarrow> c_assert (grants (os_host E) (int (length hosts) + 1));
             Some (Some (if length ch = 1 then None else Some ch, Some hosts))
           })
      else Some (Some (None, strdup (os_host E) host)))"

definition finish_init :: "os \<Rightarrow> bool \<Rightarrow> (i64 \<times> bytes) option \<Rightarrow> client \<Rightarrow> (bool \<times> client) option" where
  \<comment> \<open>\<^verbatim>\<open>zookeeper_init_internal\<close> from the copy of the client id on\<close>
  "finish_init E has_pipe clientid c = do {
     let c = (case clientid of Some (i, p) \<Rightarrow> c\<lparr>zh_client_id := i, zh_passwd := p\<rparr>
                | None \<Rightarrow> c\<lparr>zh_client_id := 0, zh_passwd := replicate 16 NUL\<rparr>);
     let c = c\<lparr>zh_primer_buffer := \<lparr>bl_buffer = Some (replicate 41 NUL), bl_len = 41, bl_curr_offset = 0\<rparr>, zh_last_zxid := 0,
       zh_next_deadline := tv_zero, zh_socket_readable := tv_zero\<rparr>;
     node \<leftarrow> create_zk_hashtable (os_host E);
     exist \<leftarrow> create_zk_hashtable (os_host E);
     child \<leftarrow> create_zk_hashtable (os_host E);
     let c = c\<lparr>zh_watchers := \<lparr>active_node_watchers = node, active_exist_watchers = exist, active_child_watchers = child\<rparr>,
       zh_disable_reconnection_attempt := False\<rparr>;
     (rc, c) \<leftarrow> adaptor_init E has_pipe c;
     Some (rc \<noteq> - 1, c)
   }"

definition zookeeper_init_internal ::
  "os \<Rightarrow> bool \<Rightarrow> bool \<Rightarrow> cstr \<Rightarrow> nat \<Rightarrow> i32 \<Rightarrow> (i64 \<times> bytes) option \<Rightarrow> nat \<Rightarrow> i32 \<Rightarrow> client \<Rightarrow> (bool \<times> client) option" where
  \<comment> \<open>\<open>False\<close>: the result is null; \<^verbatim>\<open>destroy\<close> then only frees memory, since nothing is queued yet. The last
    argument holds the static variables of the process\<close>
  "zookeeper_init_internal E fixed_order has_pipe host watcher recv_timeout clientid context flags w =
     (if \<not> grants (os_host E) (if os_threaded E then 1112 else 816) then Some (False, w)
      else
        let c = (blank_handle w)\<lparr>zh_fd := - 1, zh_state := ZOO_NOTCONNECTED_STATE, zh_context := context, zh_recv_timeout := recv_timeout,
              zh_allow_read_only := char_of (nat (uint (flags AND 1))),
              zh_seen_rw_server_before := (case clientid of Some (i, p) \<Rightarrow> if i \<noteq> 0 then CHR 0x01 else NUL | None \<Rightarrow> NUL),
              zh_watcher := (if watcher \<noteq> 0 then watcher else null_watcher_fn)\<rparr>
        in case host of
             None \<Rightarrow> Some (False, w)
           | Some host \<Rightarrow>
               if host = [] then Some (False, w)
               else do {
                 parsed \<leftarrow> split_chroot E host;
                 case parsed of
                   None \<Rightarrow> Some (False, w)
                 | Some (chroot, hostname) \<Rightarrow> do {
                     valid \<leftarrow> (if chroot \<noteq> None then isValidPath chroot 0 else Some True);
                     if \<not> valid then Some (False, w)
                     else if hostname = None then Some (False, w)
                     else do {
                       (rc, c) \<leftarrow> update_addrs E fixed_order (c\<lparr>zh_chroot := chroot, zh_hostname := hostname\<rparr>);
                       if rc \<noteq> 0 then Some (False, w\<lparr>w_ticks := w_ticks c\<rparr>)
                       else do {
                         (ok, c) \<leftarrow> finish_init E has_pipe clientid c;
                         Some (ok, if ok then c else w\<lparr>w_ticks := w_ticks c\<rparr>)
                       }
                     }
                   }
               })"

definition zookeeper_init where
  "zookeeper_init E fixed_order has_pipe host watcher recv_timeout clientid context flags =
     zookeeper_init_internal E fixed_order has_pipe host watcher recv_timeout clientid context flags"

definition zookeeper_init2 where
  \<comment> \<open>the same with a function for log lines, which are not modelled\<close>
  "zookeeper_init2 E fixed_order has_pipe host watcher recv_timeout clientid context flags =
     zookeeper_init_internal E fixed_order has_pipe host watcher recv_timeout clientid context flags"

section \<open>Servers that have not changed\<close>

definition stays :: "os \<Rightarrow> bool \<Rightarrow> client \<Rightarrow> bool" where
  \<comment> \<open>whenever it is asked, the resolver names the servers that the client knows\<close>
  "stays E f c \<longleftrightarrow> (\<exists>hosts. zh_hostname c = Some hosts \<and> grants (os_host E) (int (length hosts) + 1) \<and>
     (\<forall>n. \<exists>r m. resolve_hosts E f (Some hosts) (c\<lparr>w_ticks := n\<rparr>) = Some (ZOK, r, c\<lparr>w_ticks := m\<rparr>) \<and> av_wf r \<and>
       same_ips (os_host E) (av_list (zh_addrs c)) (av_list r)))"

lemma resolve_hosts_ref:
  "resolve_hosts E f hosts (c\<lparr>zh_ref_counter := k\<rparr>) =
     map_option (\<lambda>(rc, r, d). (rc, r, d\<lparr>zh_ref_counter := k\<rparr>)) (resolve_hosts E f hosts c)"
  by (simp add: resolve_hosts_def Let_def split: option.split bind_split prod.split)

lemma update_addrs_stays:
  assumes "stays E f c" and "\<not> w_null c" and "av_wf (zh_addrs c)"
  shows "\<exists>m. update_addrs E f (c\<lparr>w_ticks := n, zh_ref_counter := k\<rparr>) = Some (ZOK, c\<lparr>w_ticks := m, zh_ref_counter := k\<rparr>)"
proof -
  obtain hosts where h: "zh_hostname c = Some hosts" "grants (os_host E) (int (length hosts) + 1)"
    "\<forall>n. \<exists>r m. resolve_hosts E f (Some hosts) (c\<lparr>w_ticks := n\<rparr>) = Some (ZOK, r, c\<lparr>w_ticks := m\<rparr>) \<and> av_wf r \<and>
       same_ips (os_host E) (av_list (zh_addrs c)) (av_list r)"
    using assms(1) by (auto simp: stays_def)
  then obtain r m where r: "resolve_hosts E f (Some hosts) (c\<lparr>w_ticks := n\<rparr>) = Some (ZOK, r, c\<lparr>w_ticks := m\<rparr>)" "av_wf r"
    "same_ips (os_host E) (av_list (zh_addrs c)) (av_list r)" by blast
  have "addrvec_eq (os_host E) (zh_addrs c) r = Some True" using addrvec_eq_ok [OF assms(3) r(2)] r(3) by simp
  then show ?thesis
    using h(1,2) r(1) assms(2) resolve_hosts_ref [of E f "Some hosts" k "c\<lparr>w_ticks := n\<rparr>"]
    by (intro exI [of _ m]) (simp add: update_addrs_def Let_def)
qed

section \<open>Timeouts and pings\<close>

definition at_call :: "nat \<Rightarrow> client \<Rightarrow> client" where
  \<comment> \<open>the client inside a call of \<^verbatim>\<open>zookeeper_interest\<close> that has made \<open>n\<close> system calls\<close>
  "at_call n c = c\<lparr>w_ticks := n, zh_ref_counter := zh_ref_counter c + 1\<rparr>"

lemma at_call_fields [simp]:
  "zh_fd (at_call n c) = zh_fd c" "zh_state (at_call n c) = zh_state c" "zh_sent_requests (at_call n c) = zh_sent_requests c"
  "zh_to_send (at_call n c) = zh_to_send c" "zh_last_recv (at_call n c) = zh_last_recv c" "zh_last_send (at_call n c) = zh_last_send c"
  "zh_recv_timeout (at_call n c) = zh_recv_timeout c" "zh_watchers (at_call n c) = zh_watchers c" "w_calls (at_call n c) = w_calls c"
  "zh_completions_to_process (at_call n c) = zh_completions_to_process c" "zh_auth_h (at_call n c) = zh_auth_h c"
  "zh_outstanding_sync (at_call n c) = zh_outstanding_sync c" "zh_addrs (at_call n c) = zh_addrs c" "w_null (at_call n c) = w_null c"
  "zh_close_requested (at_call n c) = zh_close_requested c" "zh_ref_counter (at_call n c) = zh_ref_counter c + 1"
  "w_syncs (at_call n c) = w_syncs c" "w_sock (at_call n c) = w_sock c" "zh_watcher (at_call n c) = zh_watcher c"
  "zh_context (at_call n c) = zh_context c" "zh_delay (at_call n c) = zh_delay c"
  by (simp_all add: at_call_def)

definition open_handle :: "client \<Rightarrow> bool" where
  \<comment> \<open>a handle in use, not lost and not being closed\<close>
  "open_handle c \<longleftrightarrow> \<not> w_null c \<and> 0 \<le> zh_state c \<and> \<not> zh_close_requested c"

lemma interest_connected:
  \<comment> \<open>with a socket and unchanged servers, all that is left is to watch the connection\<close>
  assumes "open_handle c" and "stays E f c" and "av_wf (zh_addrs c)" and "os_clock E (w_ticks c) = Some now" and "zh_fd c \<noteq> - 1"
  shows "\<exists>n. zookeeper_interest E f False c = do {
    (rc, out, c) \<leftarrow> watch_connection E now \<lparr>io_fd = zh_fd c, io_read = False, io_write = False, io_tv = tv_zero\<rparr> (at_call n c);
    (rc, c) \<leftarrow> api_epilog E rc c;
    Some (rc, Some out, c) }"
proof -
  have c: "\<not> w_null c" "is_unrecoverable c = 0" using assms(1) by (simp_all add: open_handle_def is_unrecoverable_def)
  obtain n where "update_addrs E f (c\<lparr>w_ticks := w_ticks c + 1, zh_ref_counter := zh_ref_counter c + 1\<rparr>) = Some (ZOK, at_call n c)"
    using update_addrs_stays [OF assms(2) c(1) assms(3), of "zh_ref_counter c + 1" "w_ticks c + 1"] by (auto simp: at_call_def)
  then show ?thesis
    using c assms(4,5)
    by (intro exI [of _ n]) (simp add: zookeeper_interest_def get_system_time_def api_prolog_simp connect_if_needed_def Let_def)
qed

definition recv_limit :: "client \<Rightarrow> int" where
  \<comment> \<open>two thirds of the receive timeout\<close>
  "recv_limit c = c_div (sint (zh_recv_timeout c) * 2) 3"

definition fits_timeout :: "client \<Rightarrow> bool" where
  "fits_timeout c \<longleftrightarrow> 0 \<le> sint (zh_recv_timeout c) \<and> sint (zh_recv_timeout c) * 2 \<le> INT_MAX"

lemma c_div_pos: "0 \<le> a \<Longrightarrow> 0 < b \<Longrightarrow> c_div a b = a div b"
  by (auto simp: c_div_def sgn_if)

lemma recv_limit_bounds:
  assumes "fits_timeout c"
  shows "0 \<le> recv_limit c" "recv_limit c \<le> INT_MAX" "recv_limit c = sint (zh_recv_timeout c) * 2 div 3"
    "c_int (sint (zh_recv_timeout c) * 2) = Some (sint (zh_recv_timeout c) * 2)"
  using assms by (auto simp: recv_limit_def fits_timeout_def c_div_pos)

text \<open>
  (C22) A server that is silent for too long is given up: when nothing was received for two thirds of the receive timeout,
  \<^verbatim>\<open>zookeeper_interest\<close> returns \<^verbatim>\<open>ZOPERATIONTIMEOUT\<close>, the connection is closed, there is nothing to wait for, and every outstanding
  request is answered with that code in the order of the requests, after the watchers have been told.
\<close>

theorem silent_server_given_up:
  assumes "good_host (os_host E)" and "idle E c" and "0 \<le> zh_state c" and "tables_wf (zh_watchers c)" and "answerable E c"
    and "av_wf (zh_addrs c)" and "stays E f c" and "zh_fd c \<noteq> - 1" and "os_clock E (w_ticks c) = Some now"
    and "fits_timeout c" and "recv_limit c \<le> calculate_interval (zh_last_recv c) now" and "calculate_interval (zh_last_recv c) now < INT_MAX"
  shows "\<exists>out c' wl. zookeeper_interest E f False c = Some (ZOPERATIONTIMEOUT, Some out, c') \<and>
    \<not> io_read out \<and> \<not> io_write out \<and> io_tv out = tv_zero \<and> zh_fd c' = - 1 \<and> zh_state c' = 0 \<and>
    distinct wl \<and> set wl = insert (zh_watcher c, zh_context c) (\<Union>t p. set (watchers_at (get_table (zh_watchers c) t) p)) \<and>
    w_calls c' = w_calls c @ loss_calls c wl @ auth_calls ZOPERATIONTIMEOUT (zh_auth_h c) @ failures_of ZOPERATIONTIMEOUT c \<and>
    zh_sent_requests c' = [] \<and> zh_to_send c' = []"
proof -
  have op: "open_handle c" "\<not> os_threaded E" "zh_completions_to_process c = []" "zh_outstanding_sync c = 0" "\<not> zh_close_requested c"
    using assms(2,3) by (simp_all add: idle_def open_handle_def)
  obtain n where n: "zookeeper_interest E f False c = do {
    (rc, out, c) \<leftarrow> watch_connection E now \<lparr>io_fd = zh_fd c, io_read = False, io_write = False, io_tv = tv_zero\<rparr> (at_call n c);
    (rc, c) \<leftarrow> api_epilog E rc c; Some (rc, Some out, c) }" using interest_connected [OF op(1) assms(7,6,9,8)] by blast
  have ans: "answerable E (at_call n c)" using assms(5) by (simp add: answerable_def sync_entry_def)
  have st: "INT_MIN \<le> zh_state (at_call n c)" using assms(3) by simp
  obtain wl d where wl: "distinct wl" "set wl = insert (zh_watcher c, zh_context c) (\<Union>t. all_watchers (get_table (zh_watchers c) t))"
    and d: "handle_error E ZOPERATIONTIMEOUT (at_call n c) = Some d"
    "w_calls d = w_calls c @ loss_calls (at_call n c) wl @ auth_calls ZOPERATIONTIMEOUT (zh_auth_h c) @ failures_of ZOPERATIONTIMEOUT (at_call n c)"
    "zh_sent_requests d = []" "zh_to_send d = []" "zh_fd d = - 1" "\<not> zh_close_requested d" "zh_state d = 0"
    using handle_error_single [OF assms(1) ans _ _ _ _ st, of ZOPERATIONTIMEOUT] assms(3,4,6) op by auto
  have same: "loss_calls (at_call n c) = loss_calls c" "failures_of ZOPERATIONTIMEOUT (at_call n c) = failures_of ZOPERATIONTIMEOUT c"
    by (simp_all add: loss_calls_def reports_def event_state_def is_connected_def failures_of_def fun_eq_iff)
  let ?r = "recv_limit c - calculate_interval (zh_last_recv c) now"
  have r: "INT_MIN \<le> ?r" "?r \<le> 0" "c_int ?r = Some ?r" "c_int (- ?r) = Some (- ?r)"
    using recv_limit_bounds [OF assms(10)] assms(11,12) by auto
  have "watch_connection E now out (at_call n c) = Some (ZOPERATIONTIMEOUT, out\<lparr>io_read := False, io_write := False, io_tv := get_timeval 0\<rparr>, d)" for out
    using recv_limit_bounds(4) [OF assms(10)] r d(1)
    by (simp add: watch_connection_def handle_socket_error_msg_def Let_def flip: recv_limit_def)
  with n have "zookeeper_interest E f False c = Some (ZOPERATIONTIMEOUT,
      Some \<lparr>io_fd = zh_fd c, io_read = False, io_write = False, io_tv = get_timeval 0\<rparr>, d\<lparr>zh_ref_counter := zh_ref_counter d - 1\<rparr>)"
    by (simp add: api_epilog_open [OF d(6)])
  then show ?thesis
    using d wl same by (intro exI conjI) (assumption, simp_all add: get_timeval_def tv_zero_def all_watchers_def)
qed

definition ping_frame :: bytes where
  "ping_frame = frame (enc_RequestHeader \<lparr>RequestHeader_xid = PING_XID, RequestHeader_type = ZOO_PING_OP\<rparr>)"

definition apart_from_io :: "client \<Rightarrow> client \<Rightarrow> bool" where
  \<comment> \<open>nothing else has changed than what a flush changes and the time of the last ping\<close>
  "apart_from_io c c' \<longleftrightarrow> io_rest (c'\<lparr>zh_last_ping := zh_last_ping c\<rparr>) = io_rest c"

lemma apart_from_io_fields:
  assumes "apart_from_io c c'"
  shows "zh_state c' = zh_state c" "zh_sent_requests c' = zh_sent_requests c" "zh_close_requested c' = zh_close_requested c"
    "w_calls c' = w_calls c" "zh_fd c' = zh_fd c"
  using io_rest_fields [OF assms [unfolded apart_from_io_def]] assms [unfolded apart_from_io_def, THEN arg_cong [where f = zh_fd]]
  by (simp_all add: io_rest_def)

lemma send_ping_stream:
  assumes "good_host (os_host E)" and "has_clock E" and "list_all is_packet (zh_to_send c)"
  shows "\<exists>rc c'. send_ping E c = Some (rc, c') \<and> out_stream c' = out_stream c @ ping_frame \<and> apart_from_io c c'"
proof -
  let ?h = "\<lparr>RequestHeader_xid = PING_XID, RequestHeader_type = ZOO_PING_OP\<rparr>"
  obtain oa where oa: "into_buffer (os_host E) (serialize_RequestHeader (os_host E) ?h) = Some (0, oa)" "oa_wf oa" "oa_bytes oa = enc_RequestHeader ?h"
    using into_buffer_writes [OF assms(1) RequestHeader_writes [OF assms(1), of ?h]] by auto
  have "oa_bytes oa \<noteq> []" "int (length (oa_bytes oa)) \<le> OA_MAX" unfolding oa(3) using length_enc_header [of ?h] by fastforce+
  from allocate_packet [OF assms(1) oa(2) this] obtain b where b: "allocate_buffer (os_host E) (get_buffer oa) (get_buffer_len oa) = Some b"
    "is_packet b" "unsent b = ping_frame" by (auto simp: oa(3) ping_frame_def)
  obtain tv where tv: "os_clock E (w_ticks c) = Some tv" using assms(2) by (auto simp: has_clock_def)
  let ?c = "c\<lparr>w_ticks := w_ticks c + 1, zh_last_ping := tv, zh_to_send := zh_to_send c @ [b]\<rparr>"
  obtain rc d where d: "adaptor_send_queue E 0 ?c = Some (rc, d)" "out_stream d = out_stream ?c" "io_rest d = io_rest ?c"
    using send_queue_stream [of ?c, OF _ assms(2)] assms(3) b(2) by auto
  have "io_rest (d\<lparr>zh_last_ping := zh_last_ping c\<rparr>) = (io_rest d)\<lparr>zh_last_ping := zh_last_ping c\<rparr>" by (simp add: io_rest_def)
  also have "\<dots> = io_rest c" unfolding d(3) by (simp add: io_rest_def)
  finally have "apart_from_io c d" by (simp add: apart_from_io_def)
  moreover have "send_ping E c = Some (rc, d)"
    using oa(1) tv b(1) d(1) by (simp add: send_ping_def get_system_time_def queue_buffer_bytes_def Let_def)
  moreover have "out_stream d = out_stream c @ ping_frame" using d(2) b(3) by (simp add: out_stream_def)
  ultimately show ?thesis by blast
qed

definition ping_due :: "timeval \<Rightarrow> client \<Rightarrow> bool" where
  \<comment> \<open>nothing was sent for a third of the timeout\<close>
  "ping_due now c \<longleftrightarrow> sint (zh_recv_timeout c) div 3 \<le> calculate_interval (zh_last_send c) now"

lemma ping_if_idle_stream:
  assumes "good_host (os_host E)" and "has_clock E" and "list_all is_packet (zh_to_send c)" and "is_connected c" and "fits_timeout c"
    and "0 \<le> calculate_interval (zh_last_send c) now"
  shows "\<exists>rc send_to c'. ping_if_idle E (calculate_interval (zh_last_send c) now) c = Some (rc, send_to, c') \<and>
    send_to \<le> sint (zh_recv_timeout c) div 3 \<and> (\<not> (ping_due now c \<and> zh_sent_requests c = []) \<longrightarrow> rc = 0) \<and> rc \<le> 0 \<and>
    out_stream c' = out_stream c @ (if ping_due now c \<and> zh_sent_requests c = [] then ping_frame else []) \<and> apart_from_io c c'"
proof -
  let ?idle = "calculate_interval (zh_last_send c) now" and ?third = "sint (zh_recv_timeout c) div 3"
  have third: "c_div (sint (zh_recv_timeout c)) 3 = ?third" "0 \<le> ?third" "?third \<le> INT_MAX"
    using assms(5) by (auto simp: fits_timeout_def c_div_pos)
  have "?idle \<le> INT_MAX" unfolding calculate_interval_def using to_int32_range by blast
  then have left: "c_int (?third - ?idle) = Some (?third - ?idle)" using third assms(6) by simp
  obtain rc d where d: "send_ping E c = Some (rc, d)" "out_stream d = out_stream c @ ping_frame" "apart_from_io c d"
    using send_ping_stream [OF assms(1-3)] by blast
  have refl: "apart_from_io c c" by (simp add: apart_from_io_def)
  show ?thesis
    using d left third(1,2) assms(4,6) refl by (auto simp: ping_if_idle_def ping_due_def Let_def)
qed

text \<open>
  (C23) How a connection is kept alive: while the server answers in time, \<^verbatim>\<open>zookeeper_interest\<close> puts exactly one ping behind what was to be
  sent when nothing was sent for a third of the timeout and no request is outstanding, and nothing otherwise. It keeps the connection
  and the outstanding requests and calls nobody; the caller is to wait for the socket to be readable, and writable exactly when something
  is left to send, for no longer than a third of the timeout and no longer than the server has left to answer.
\<close>

theorem idle_connection_pinged:
  assumes "good_host (os_host E)" and "has_clock E" and "open_handle c" and "zh_state c = ZOO_CONNECTED_STATE" and "av_wf (zh_addrs c)"
    and "stays E f c" and "zh_fd c \<noteq> - 1" and "os_clock E (w_ticks c) = Some now" and "fits_timeout c"
    and "0 \<le> calculate_interval (zh_last_recv c) now" and "calculate_interval (zh_last_recv c) now < recv_limit c"
    and "0 \<le> calculate_interval (zh_last_send c) now" and "list_all is_packet (zh_to_send c)"
  shows "\<exists>rc out c'. zookeeper_interest E f False c = Some (rc, Some out, c') \<and>
    out_stream c' = out_stream c @ (if ping_due now c \<and> zh_sent_requests c = [] then ping_frame else []) \<and>
    zh_fd c' = zh_fd c \<and> zh_state c' = zh_state c \<and> zh_sent_requests c' = zh_sent_requests c \<and> w_calls c' = w_calls c \<and>
    (rc = ZOK \<or> ping_due now c \<and> zh_sent_requests c = []) \<and>
    (rc = ZOK \<longrightarrow> io_fd out = zh_fd c \<and> io_read out \<and> (io_write out \<longleftrightarrow> zh_to_send c' \<noteq> []) \<and>
      (\<exists>wait. io_tv out = get_timeval wait \<and> wait \<le> sint (zh_recv_timeout c) div 3 \<and>
        wait \<le> recv_limit c - calculate_interval (zh_last_recv c) now))"
proof -
  obtain n where n: "zookeeper_interest E f False c = do {
    (rc, out, c) \<leftarrow> watch_connection E now \<lparr>io_fd = zh_fd c, io_read = False, io_write = False, io_tv = tv_zero\<rparr> (at_call n c);
    (rc, c) \<leftarrow> api_epilog E rc c; Some (rc, Some out, c) }" using interest_connected [OF assms(3,6,5,8,7)] by blast
  let ?a = "at_call n c" and ?out = "\<lparr>io_fd = zh_fd c, io_read = False, io_write = False, io_tv = tv_zero\<rparr>"
  have a: "list_all is_packet (zh_to_send ?a)" "is_connected ?a" "fits_timeout ?a" "0 \<le> calculate_interval (zh_last_send ?a) now"
    "out_stream ?a = out_stream c" "ping_due now ?a = ping_due now c"
    using assms(4,9,12,13) by (simp_all add: is_connected_def fits_timeout_def out_stream_def ping_due_def)
  obtain rc send_to d where p: "ping_if_idle E (calculate_interval (zh_last_send c) now) ?a = Some (rc, send_to, d)"
    "send_to \<le> sint (zh_recv_timeout c) div 3" "\<not> (ping_due now c \<and> zh_sent_requests c = []) \<longrightarrow> rc = 0" "rc \<le> 0"
    "out_stream d = out_stream c @ (if ping_due now c \<and> zh_sent_requests c = [] then ping_frame else [])" "apart_from_io ?a d"
    using ping_if_idle_stream [OF assms(1,2) a(1-4)] a(5,6) by auto
  note d = apart_from_io_fields [OF p(6)]
  let ?r = "recv_limit c - calculate_interval (zh_last_recv c) now"
  have r: "0 < ?r" "c_int ?r = Some ?r" using recv_limit_bounds [OF assms(9)] assms(10,11) by auto
  let ?tv = "get_timeval (min ?r send_to)"
  let ?d = "if rc < 0 then d else d\<lparr>zh_next_deadline := set_deadline now ?tv\<rparr>"
  let ?o = "if rc < 0 then ?out else ?out\<lparr>io_tv := ?tv, io_read := True, io_write := (zh_to_send d \<noteq> [])\<rparr>"
  have w: "watch_connection E now ?out ?a = Some (rc, ?o, ?d)"
    using recv_limit_bounds(4) [OF assms(9)] r p(1,4) d(1) assms(4)
    by (simp add: watch_connection_def is_connected_def Let_def flip: recv_limit_def)
  have "\<not> zh_close_requested ?d" using d(3) assms(3) by (simp add: open_handle_def)
  then have "zookeeper_interest E f False c = Some (rc, Some ?o, ?d\<lparr>zh_ref_counter := zh_ref_counter ?d - 1\<rparr>)"
    by (simp add: n w api_epilog_open)
  moreover have "out_stream (?d\<lparr>zh_ref_counter := zh_ref_counter ?d - 1\<rparr>) = out_stream d" by (simp add: out_stream_def)
  ultimately show ?thesis
    using p(2,3,5) d by (intro exI conjI) (assumption, auto intro!: exI [of _ "min ?r send_to"])
qed

section \<open>A new handle\<close>

lemma create_zk_hashtable_new: "good_host H \<Longrightarrow> create_zk_hashtable H = Some empty_watch_table"
proof -
  assume "good_host H"
  moreover have "string_equal = (=)" by (rule ext)+ (simp add: string_equal_def)
  ultimately show ?thesis
    by (simp add: create_zk_hashtable_def create_hashtable_def primes_def empty_watch_table_def good_hostD)
qed

lemma adaptor_init_ok:
  assumes "good_host (os_host E)" and "os_threaded E \<Longrightarrow> has_pipe" and "\<not> zh_close_requested c"
  shows "adaptor_init E has_pipe c = Some (0, if os_threaded E then c\<lparr>zh_ref_counter := zh_ref_counter c + 2\<rparr> else c)"
  using assms by (simp add: adaptor_init_def start_threads_def api_prolog_simp api_epilog_open good_hostD)

definition good_chroot :: "bytes \<Rightarrow> bool" where
  \<comment> \<open>nothing, the root, or a valid path\<close>
  "good_chroot ch \<longleftrightarrow> ch = [] \<or> ch = ''/'' \<or> hd ch = CHR ''/'' \<and> isValidPath (Some ch) 0 = Some True"

lemma split_chroot_ok:
  assumes "good_host (os_host E)" and "CHR ''/'' \<notin> set hosts" and "good_chroot ch" and "length hosts + length ch + 1 \<le> 2 ^ 30"
  shows "split_chroot E (hosts @ ch) = Some (Some (if length ch \<le> 1 then None else Some ch, Some hosts))"
proof -
  have "takeWhile (\<lambda>x. x \<noteq> CHR ''/'') (hosts @ ch) = hosts" "dropWhile (\<lambda>x. x \<noteq> CHR ''/'') (hosts @ ch) = ch"
    using assms(2,3) by (cases ch; auto simp: good_chroot_def takeWhile_append dropWhile_append)+
  moreover have "grants (os_host E) (int (length hosts) + 1)" "grants (os_host E) (int (length ch) + 1)"
    using assms(1,4) by (simp_all add: good_hostD)
  ultimately show ?thesis using assms(3) by (cases ch) (auto simp: split_chroot_def strdup_def Let_def)
qed

definition fresh :: "os \<Rightarrow> client \<Rightarrow> bool" where
  \<comment> \<open>nothing queued, nothing outstanding, no watcher, no socket; only the two threads refer to the handle\<close>
  "fresh E c \<longleftrightarrow> \<not> w_null c \<and> \<not> w_freed c \<and> \<not> zh_close_requested c \<and> zh_fd c = - 1 \<and> zh_state c = ZOO_NOTCONNECTED_STATE \<and>
     zh_to_send c = [] \<and> zh_to_process c = [] \<and> zh_sent_requests c = [] \<and> zh_completions_to_process c = [] \<and>
     zh_outstanding_sync c = 0 \<and> zh_input_buffer c = No_input \<and> zh_auth_h c = [] \<and> zh_watchers c = no_watchers \<and>
     zh_ref_counter c = (if os_threaded E then 2 else 0)"

lemma finish_init_ok:
  assumes "good_host (os_host E)" and "os_threaded E \<Longrightarrow> has_pipe" and "fresh E (c\<lparr>zh_watchers := no_watchers, zh_ref_counter := (if os_threaded E then 2 else 0)\<rparr>)"
    and "zh_ref_counter c = 0"
  shows "\<exists>c'. finish_init E has_pipe clientid c = Some (True, c') \<and> fresh E c' \<and> zh_hostname c' = zh_hostname c \<and> zh_chroot c' = zh_chroot c \<and>
    zh_addrs c' = zh_addrs c \<and> zh_addrs_new c' = zh_addrs_new c \<and> zh_reconfig c' = zh_reconfig c \<and> zh_recv_timeout c' = zh_recv_timeout c \<and>
    zh_watcher c' = zh_watcher c \<and> zh_context c' = zh_context c \<and>
    zoo_client_id c' = Some (case clientid of Some x \<Rightarrow> x | None \<Rightarrow> (0, replicate 16 NUL))"
proof -
  define d where "d = (case clientid of Some (i, p) \<Rightarrow> c\<lparr>zh_client_id := i, zh_passwd := p\<rparr>
    | None \<Rightarrow> c\<lparr>zh_client_id := 0, zh_passwd := replicate 16 NUL\<rparr>)\<lparr>
    zh_primer_buffer := \<lparr>bl_buffer = Some (replicate 41 NUL), bl_len = 41, bl_curr_offset = 0\<rparr>, zh_last_zxid := 0,
    zh_next_deadline := tv_zero, zh_socket_readable := tv_zero, zh_watchers := no_watchers, zh_disable_reconnection_attempt := False\<rparr>"
  have d: "\<not> zh_close_requested d" using assms(3) by (auto simp: d_def fresh_def split: option.split)
  let ?c = "if os_threaded E then d\<lparr>zh_ref_counter := zh_ref_counter d + 2\<rparr> else d"
  have "finish_init E has_pipe clientid c = Some (True, ?c)"
    using adaptor_init_ok [OF assms(1,2) d] create_zk_hashtable_new [OF assms(1)]
    by (simp add: finish_init_def Let_def flip: no_watchers_def d_def)
  then show ?thesis
    using assms(3,4) by (intro exI conjI) (assumption, auto simp: d_def fresh_def zoo_client_id_def split: option.split prod.split)
qed

lemma zookeeper_init_ok:
  assumes "good_host (os_host E)" and "os_threaded E \<Longrightarrow> has_pipe" and "steady_resolver E" and "hosts \<noteq> []" and "CHR ''/'' \<notin> set hosts"
    and "good_chroot ch" and "length hosts + length ch + 2 \<le> 2 ^ 20" and "\<forall>h \<in> set (strtok [] hosts). host_ok E h"
    and "all_answers E (strtok [] hosts) \<noteq> []" and "length (all_answers E (strtok [] hosts)) \<le> 2 ^ 20"
  shows "\<exists>c ys. zookeeper_init E f has_pipe (Some (hosts @ ch)) watcher recv_timeout clientid context flags w = Some (True, c) \<and>
    fresh E c \<and> zh_hostname c = Some hosts \<and> zh_chroot c = (if length ch \<le> 1 then None else Some ch) \<and>
    list_all2 holds_address (all_answers E (strtok [] hosts)) ys \<and>
    (if f then av_list (zh_addrs c) = ys else mset (av_list (zh_addrs c)) = mset ys) \<and>
    av_wf (zh_addrs c) \<and> av_list (zh_addrs_new c) = av_list (zh_addrs c) \<and> zh_recv_timeout c = recv_timeout \<and>
    zoo_client_id c = Some (case clientid of Some x \<Rightarrow> x | None \<Rightarrow> (0, replicate 16 NUL))"
proof -
  define b where "b = (blank_handle w)\<lparr>zh_fd := - 1, zh_state := ZOO_NOTCONNECTED_STATE, zh_context := context, zh_recv_timeout := recv_timeout,
    zh_allow_read_only := char_of (nat (uint (flags AND 1))),
    zh_seen_rw_server_before := (case clientid of Some (i, p) \<Rightarrow> if i \<noteq> 0 then CHR 0x01 else NUL | None \<Rightarrow> NUL),
    zh_watcher := (if watcher \<noteq> 0 then watcher else null_watcher_fn)\<rparr>"
  define ch0 :: cstr where "ch0 = (if length ch \<le> 1 then None else Some ch)"
  define c where "c = b\<lparr>zh_chroot := ch0, zh_hostname := Some hosts\<rparr>"
  have c: "\<not> w_null c" "zh_hostname c = Some hosts" "zh_addrs c = addrvec_init" "zh_fd c = - 1" "zh_chroot c = ch0"
    "zh_recv_timeout c = recv_timeout" "zh_ref_counter c = 0" "fresh E (c\<lparr>zh_watchers := no_watchers, zh_ref_counter := (if os_threaded E then 2 else 0)\<rparr>)"
    by (simp_all add: c_def b_def blank_handle_def fresh_def)
  have small: "length hosts + 2 \<le> 2 ^ 20" "length hosts + 1 \<le> 2 ^ 30" "length hosts + length ch + 1 \<le> 2 ^ 30" using assms(7) by simp_all
  obtain r n ys where r: "resolve_hosts E f (Some hosts) c = Some (ZOK, r, c\<lparr>w_ticks := n\<rparr>)" "av_wf r"
    "list_all2 holds_address (all_answers E (strtok [] hosts)) ys" "if f then av_list r = ys else mset (av_list r) = mset ys"
    using resolve_hosts_ok [OF assms(1,3) c(1) assms(4) small(1) assms(8-10), of f] by (auto simp: only_ticks_def)
  have len: "length (av_list r) = length (all_answers E (strtok [] hosts))"
    using r(4) list_all2_lengthD [OF r(3)] by (auto split: if_splits dest: mset_eq_length)
  have e: "av_list (zh_addrs c) = []" "av_wf (zh_addrs c)" by (simp_all add: c(3) init_fields)
  have new: "\<not> same_ips (os_host E) (av_list (zh_addrs c)) (av_list r)" using len assms(9) by (simp add: e same_ips_def)
  obtain old nw where u: "av_list nw = av_list r" "update_addrs E f c = Some (ZOK, moved E r old nw (c\<lparr>w_ticks := n\<rparr>))"
    using update_addrs_moves [OF assms(1) c(1,2) small(2) r(1,2) _ e(2)] new len assms(10) by (auto simp: e has_ip_def)
  let ?m = "moved E r old nw (c\<lparr>w_ticks := n\<rparr>)"
  obtain p q rr k where m: "?m = c\<lparr>w_ticks := k, zh_reconfig := rr, zh_addrs_old := old, zh_addrs_new := nw, zh_pNew := p, zh_pOld := q, zh_addrs := r\<rparr>"
  proof (rule decide_move_changes [of E "has_ip (os_host E) (av_list r) (zh_addr_cur c)"
        "c\<lparr>w_ticks := n, zh_reconfig := True, zh_addrs_old := old, zh_addrs_new := nw\<rparr>"])
    fix p q rr k
    assume "decide_move E (has_ip (os_host E) (av_list r) (zh_addr_cur c))
        (c\<lparr>w_ticks := n, zh_reconfig := True, zh_addrs_old := old, zh_addrs_new := nw\<rparr>) =
      c\<lparr>w_ticks := n, zh_reconfig := True, zh_addrs_old := old, zh_addrs_new := nw, zh_pNew := p, zh_pOld := q, zh_reconfig := rr, w_ticks := k\<rparr>"
    then show thesis by (intro that [where k = k and rr = rr and p = p and q = q]) (simp add: moved_def c(4))
  qed
  have fm: "fresh E (?m\<lparr>zh_watchers := no_watchers, zh_ref_counter := (if os_threaded E then 2 else 0)\<rparr>)" "zh_ref_counter ?m = 0"
    using c(7,8) by (simp_all add: m fresh_def)
  have f: "zh_hostname ?m = Some hosts" "zh_chroot ?m = ch0" "zh_addrs ?m = r" "zh_addrs_new ?m = nw" "zh_recv_timeout ?m = recv_timeout"
    using c by (simp_all add: m)
  obtain g where g: "finish_init E has_pipe clientid ?m = Some (True, g)" "fresh E g" "zh_hostname g = zh_hostname ?m" "zh_chroot g = zh_chroot ?m"
    "zh_addrs g = zh_addrs ?m" "zh_addrs_new g = zh_addrs_new ?m" "zh_recv_timeout g = zh_recv_timeout ?m"
    "zoo_client_id g = Some (case clientid of Some x \<Rightarrow> x | None \<Rightarrow> (0, replicate 16 NUL))"
    using finish_init_ok [OF assms(1,2) fm] by blast
  have v: "(if ch0 \<noteq> None then isValidPath ch0 0 else Some True) = Some True" using assms(6) by (auto simp: good_chroot_def ch0_def)
  have "zookeeper_init E f has_pipe (Some (hosts @ ch)) watcher recv_timeout clientid context flags w = Some (True, g)"
    unfolding zookeeper_init_def zookeeper_init_internal_def Let_def b_def [symmetric]
    using split_chroot_ok [OF assms(1,5,6) small(3), folded ch0_def] v u(2) g(1) assms(1,4) by (simp add: good_hostD flip: c_def)
  with g r f u(1) show ?thesis by (auto simp: ch0_def)
qed

text \<open>
  (C24) A handle comes into being as its connection string says: the part before the first slash is the list of hosts, the rest is the chroot
  (none when it is only a slash). The servers are exactly the addresses that the resolver knows, all of them are new ones to be tried,
  and the handle has no connection, nothing queued or outstanding and no watcher; it carries the session of the caller, if there is one,
  and in the threaded library its two threads hold one reference each.
\<close>

theorem new_handle_ready:
  assumes "good_host (os_host E)" and "os_threaded E \<Longrightarrow> has_pipe" and "steady_resolver E" and "hosts \<noteq> []" and "CHR ''/'' \<notin> set hosts"
    and "good_chroot ch" and "length hosts + length ch + 2 \<le> 2 ^ 20" and "\<forall>h \<in> set (strtok [] hosts). host_ok E h"
    and "all_answers E (strtok [] hosts) \<noteq> []" and "length (all_answers E (strtok [] hosts)) \<le> 2 ^ 20"
  shows "\<exists>c ys. zookeeper_init E f has_pipe (Some (hosts @ ch)) watcher recv_timeout clientid context flags w = Some (True, c) \<and>
    fresh E c \<and> zh_hostname c = Some hosts \<and> zh_chroot c = (if length ch \<le> 1 then None else Some ch) \<and>
    list_all2 holds_address (all_answers E (strtok [] hosts)) ys \<and>
    (if f then av_list (zh_addrs c) = ys else mset (av_list (zh_addrs c)) = mset ys) \<and>
    av_wf (zh_addrs c) \<and> av_list (zh_addrs_new c) = av_list (zh_addrs c) \<and> zh_recv_timeout c = recv_timeout \<and>
    zoo_client_id c = Some (case clientid of Some x \<Rightarrow> x | None \<Rightarrow> (0, replicate 16 NUL))"
  using assms by (rule zookeeper_init_ok)

section \<open>A connected client at work\<close>

definition settled_client :: "nat \<Rightarrow> completion_list list \<Rightarrow> client" where
  \<comment> \<open>connected to the only server of its list, after \<open>n\<close> seconds of silence, waiting for the answers to \<open>es\<close>\<close>
  "settled_client n es = test_client\<lparr>zh_hostname := Some ''a:1,b:2'', zh_addrs := vec_of [addr_of [10, 0, 0, 1]], zh_sent_requests := es, w_ticks := n\<rparr>"

lemma settled_client_fields [simp]:
  "zh_to_send (settled_client n es) = []" "zh_sent_requests (settled_client n es) = es" "zh_state (settled_client n es) = ZOO_CONNECTED_STATE"
  "zh_close_requested (settled_client n es) = False" "zh_watchers (settled_client n es) = no_watchers" "w_null (settled_client n es) = False"
  "w_calls (settled_client n es) = []" "zh_addrs (settled_client n es) = vec_of [addr_of [10, 0, 0, 1]]" "w_ticks (settled_client n es) = n"
  "zh_outstanding_sync (settled_client n es) = 0" "zh_completions_to_process (settled_client n es) = []"
  "zh_ref_counter (settled_client n es) = 0" "zh_fd (settled_client n es) = 3" "zh_recv_timeout (settled_client n es) = 10000" "zh_hostname (settled_client n es) = Some ''a:1,b:2''"
  "zh_last_recv (settled_client n es) = tv_zero" "zh_last_send (settled_client n es) = tv_zero" "out_stream (settled_client n es) = []"
  by (simp_all add: settled_client_def test_client_def tv_zero_def out_stream_def)

lemma settled_client_wf: "av_wf (vec_of [addr_of [10, 0, 0, 1]])" "av_list (vec_of [addr_of [10, 0, 0, 1]]) = [addr_of [10, 0, 0, 1]]"
  by (simp_all add: vec_of_def av_wf_def addr_of_def av_list_def)

lemma settled_client_stays: "stays resolving_os True (settled_client k es)"
proof -
  have a: "all_answers resolving_os [''a:1'', ''b:2''] = [\<lparr>ai_addr = addr_of [10, 0, 0, 1], ai_addrlen = 16\<rparr>]"
    by (simp add: all_answers_def sample_hosts usable_def)
  have "\<exists>r m. resolve_hosts resolving_os True (Some ''a:1,b:2'') ((settled_client k es)\<lparr>w_ticks := n\<rparr>) = Some (ZOK, r, (settled_client k es)\<lparr>w_ticks := m\<rparr>) \<and>
      av_wf r \<and> same_ips (os_host resolving_os) [addr_of [10, 0, 0, 1]] (av_list r)" for n
  proof -
    let ?c = "(settled_client k es)\<lparr>w_ticks := n\<rparr>"
    obtain r d ys where r: "resolve_hosts resolving_os True (Some ''a:1,b:2'') ?c = Some (ZOK, r, d)" "av_wf r" "av_list r = ys" "only_ticks ?c d"
      "list_all2 holds_address [\<lparr>ai_addr = addr_of [10, 0, 0, 1], ai_addrlen = 16\<rparr>] ys"
      using resolve_hosts_ok [of resolving_os ?c "''a:1,b:2''" True] resolving_os_ok sample_hosts a by auto
    obtain y where y: "ys = [y]" "take 16 y = take 16 (addr_of [10, 0, 0, 1])" using r(5) by (auto simp: list_all2_Cons1 holds_address_def)
    have "take 2 y = take 2 (addr_of [10, 0, 0, 1])" "take 4 (drop 4 y) = take 4 (drop 4 (addr_of [10, 0, 0, 1]))"
      using y(2) [THEN arg_cong [where f = "take 2"]] y(2) [THEN arg_cong [where f = "\<lambda>l. take 4 (drop 4 l)"]] by (simp_all add: drop_take)
    moreover have "be_value (rev (take 2 (addr_of ip))) = 2" for ip by (simp add: addr_of_def)
    ultimately have "same_ips (os_host resolving_os) [addr_of [10, 0, 0, 1]] (av_list r)"
      using r(3) y(1) by (simp add: same_ips_def same_host_addr_def ss_family_def sin_addr_def resolving_os_def test_os_def test_host_def)
    then show ?thesis using r by (auto simp: only_ticks_def)
  qed
  moreover have "grants (os_host resolving_os) (int (length ''a:1,b:2'') + 1)" using resolving_os_ok(1) by (simp add: good_hostD)
  ultimately show ?thesis by (simp add: stays_def settled_client_wf del: One_nat_def)
qed

lemma resolving_os_clock: "has_clock resolving_os" "os_clock resolving_os n = Some \<lparr>tv_sec = int n, tv_usec = 0\<rparr>" "\<not> os_threaded resolving_os"
  by (simp_all add: has_clock_def resolving_os_def test_os_def)

lemma silence: "calculate_interval tv_zero \<lparr>tv_sec = 7, tv_usec = 0\<rparr> = 7000" "calculate_interval tv_zero \<lparr>tv_sec = 4, tv_usec = 0\<rparr> = 4000"
  "fits_timeout (settled_client n es)" "recv_limit (settled_client n es) = 6666"
  by (simp_all add: calculate_interval_def tv_zero_def c_div_def to_int32_id fits_timeout_def recv_limit_def)

theorem silent_server_given_up_witness:
  "\<exists>out c' ks. zookeeper_interest resolving_os True False (settled_client 7 [sample_entry]) = Some (ZOPERATIONTIMEOUT, Some out, c') \<and>
     zh_fd c' = - 1 \<and> w_calls c' = ks @ [Stat_call 3 ZOPERATIONTIMEOUT None 11]"
proof -
  let ?c = "settled_client 7 [sample_entry]"
  have "answerable resolving_os ?c" by (simp add: answerable_def user_entry_def sample_entry_def)
  moreover have "idle resolving_os ?c" by (simp add: idle_def resolving_os_clock)
  moreover have "failures_of ZOPERATIONTIMEOUT ?c = [Stat_call 3 ZOPERATIONTIMEOUT None 11]"
    by (simp add: failures_of_def failure_of_def sample_entry_def is_sync_def)
  ultimately show ?thesis
    using silent_server_given_up [of resolving_os ?c True "\<lparr>tv_sec = 7, tv_usec = 0\<rparr>"] resolving_os_ok(1) settled_client_wf
      settled_client_stays resolving_os_clock silence no_watchers_wf by auto
qed

theorem idle_connection_pinged_witness:
  "\<exists>rc out c'. zookeeper_interest resolving_os True False (settled_client 4 []) = Some (rc, Some out, c') \<and>
     out_stream c' = ping_frame \<and> zh_fd c' = 3"
proof -
  let ?c = "settled_client 4 []"
  have "open_handle ?c" "ping_due \<lparr>tv_sec = 4, tv_usec = 0\<rparr> ?c" by (simp_all add: open_handle_def ping_due_def silence)
  then show ?thesis
    using idle_connection_pinged [of resolving_os ?c True "\<lparr>tv_sec = 4, tv_usec = 0\<rparr>"] resolving_os_ok(1) settled_client_wf
      settled_client_stays resolving_os_clock silence by auto
qed

theorem new_handle_ready_witness:
  "\<exists>c. zookeeper_init resolving_os True False (Some ''a:1,b:2/app'') 7 10000 None 0 0 test_client = Some (True, c) \<and>
     zh_hostname c = Some ''a:1,b:2'' \<and> zh_chroot c = Some ''/app'' \<and> length (av_list (zh_addrs c)) = 1"
proof -
  have "all_answers resolving_os [''a:1'', ''b:2''] = [\<lparr>ai_addr = addr_of [10, 0, 0, 1], ai_addrlen = 16\<rparr>]"
    by (simp add: all_answers_def sample_hosts usable_def)
  moreover have "isValidPath (Some ''/app'') 0 = Some True" by code_simp
  then have "good_chroot ''/app''" by (simp add: good_chroot_def)
  ultimately show ?thesis
    using new_handle_ready [of resolving_os False "''a:1,b:2''" "''/app''" True 7 10000 None 0 0 test_client] resolving_os_ok
      resolving_os_clock(3) sample_hosts by (auto dest: list_all2_lengthD)
qed

end
