(* ===== verification/Lifecycle.thy ===== *)
theory Lifecycle
  imports Sync Interest
begin

text \<open>
  What every operation keeps of a handle. The locale \<open>handle_invariant\<close> states what such an invariant has to allow: it may
  depend on the session state, on the reference counter and the flags around the end of the handle, and on the
  difference between the counter of outstanding synchronous requests and the entries of such requests. All operations of the
  client are shown to keep it once, in the locale; the theory \<open>Threads\<close> uses it for three invariants.
\<close>

section \<open>The contract of an invariant\<close>

definition digest :: "client \<Rightarrow> (int \<times> bool \<times> bool \<times> bool) \<times> int \<times> completion_list list \<times> int" where
  \<comment> \<open>the parts of the handle that an invariant may speak of\<close>
  "digest c = ((zh_ref_counter c, zh_close_requested c, w_freed c, w_null c), zh_state c, zh_sent_requests c, zh_outstanding_sync c)"

definition nsync :: "completion_list list \<Rightarrow> int" where
  \<comment> \<open>how many of the requests are synchronous\<close>
  "nsync es = int (length (filter is_sync es))"

lemma nsync_simps [simp]: "nsync [] = 0" "nsync (e # es) = (if is_sync e then 1 else 0) + nsync es" "nsync (es @ fs) = nsync es + nsync fs"
  by (simp_all add: nsync_def)

definition session_states :: "int set" where
  "session_states = {ZOO_EXPIRED_SESSION_STATE, ZOO_AUTH_FAILED_STATE, 0, ZOO_CONNECTING_STATE, ZOO_ASSOCIATING_STATE,
     ZOO_CONNECTED_STATE, ZOO_READONLY_STATE, ZOO_NOTCONNECTED_STATE}"

lemma session_states_simps [simp]:
  "- 112 \<in> session_states" "- 113 \<in> session_states" "0 \<in> session_states" "1 \<in> session_states" "2 \<in> session_states"
  "3 \<in> session_states" "5 \<in> session_states" "999 \<in> session_states"
  by (simp_all add: session_states_def)

locale handle_invariant =
  fixes I :: "int \<Rightarrow> client \<Rightarrow> bool"
  assumes digest: "digest c = digest d \<Longrightarrow> I k c = I k d"
    and sent: "I k (c\<lparr>zh_sent_requests := s\<rparr>) = I (k + nsync s - nsync (zh_sent_requests c)) c"
    and outstanding: "I k (c\<lparr>zh_outstanding_sync := n\<rparr>) = I (k - n + zh_outstanding_sync c) c"
    and state: "x \<in> session_states \<Longrightarrow> I k c \<Longrightarrow> I k (c\<lparr>zh_state := x\<rparr>)"
begin

text \<open>
  \<open>I k c\<close> reads: the invariant holds when \<open>k\<close> is added to the number of synchronous requests, for the moments between taking an
  entry from the list and counting it.
\<close>

lemma neutral [simp]:
  "I k (c\<lparr>zh_fd := a1\<rparr>) = I k c" "I k (c\<lparr>zh_hostname := a2\<rparr>) = I k c" "I k (c\<lparr>zh_addr_cur := a3\<rparr>) = I k c"
  "I k (c\<lparr>zh_addr_rw_server := a4\<rparr>) = I k c" "I k (c\<lparr>zh_addrs := a5\<rparr>) = I k c" "I k (c\<lparr>zh_addrs_old := a6\<rparr>) = I k c"
  "I k (c\<lparr>zh_addrs_new := a7\<rparr>) = I k c" "I k (c\<lparr>zh_reconfig := a8\<rparr>) = I k c" "I k (c\<lparr>zh_pOld := a9\<rparr>) = I k c"
  "I k (c\<lparr>zh_pNew := b1\<rparr>) = I k c" "I k (c\<lparr>zh_delay := b2\<rparr>) = I k c" "I k (c\<lparr>zh_disable_reconnection_attempt := b3\<rparr>) = I k c"
  "I k (c\<lparr>zh_watcher := b4\<rparr>) = I k c" "I k (c\<lparr>zh_last_recv := b5\<rparr>) = I k c" "I k (c\<lparr>zh_last_send := b6\<rparr>) = I k c"
  "I k (c\<lparr>zh_last_ping := b7\<rparr>) = I k c" "I k (c\<lparr>zh_next_deadline := b8\<rparr>) = I k c" "I k (c\<lparr>zh_recv_timeout := b9\<rparr>) = I k c"
  "I k (c\<lparr>zh_input_buffer := d1\<rparr>) = I k c" "I k (c\<lparr>zh_to_process := d2\<rparr>) = I k c" "I k (c\<lparr>zh_to_send := d3\<rparr>) = I k c"
  "I k (c\<lparr>zh_completions_to_process := d4\<rparr>) = I k c" "I k (c\<lparr>zh_last_ping_rw := d5\<rparr>) = I k c"
  "I k (c\<lparr>zh_ping_rw_timeout := d6\<rparr>) = I k c" "I k (c\<lparr>zh_context := d7\<rparr>) = I k c" "I k (c\<lparr>zh_client_id := d8\<rparr>) = I k c"
  "I k (c\<lparr>zh_passwd := d9\<rparr>) = I k c" "I k (c\<lparr>zh_last_zxid := e1\<rparr>) = I k c" "I k (c\<lparr>zh_auth_h := e2\<rparr>) = I k c"
  "I k (c\<lparr>zh_primer_buffer := e3\<rparr>) = I k c" "I k (c\<lparr>zh_primer_storage := e4\<rparr>) = I k c" "I k (c\<lparr>zh_socket_readable := e5\<rparr>) = I k c"
  "I k (c\<lparr>zh_watchers := e6\<rparr>) = I k c" "I k (c\<lparr>zh_chroot := e7\<rparr>) = I k c" "I k (c\<lparr>zh_allow_read_only := e8\<rparr>) = I k c"
  "I k (c\<lparr>zh_seen_rw_server_before := e9\<rparr>) = I k c" "I k (c\<lparr>w_addr_rw := f1\<rparr>) = I k c" "I k (c\<lparr>w_sock := f2\<rparr>) = I k c"
  "I k (c\<lparr>w_xid := f3\<rparr>) = I k c" "I k (c\<lparr>w_ticks := f4\<rparr>) = I k c" "I k (c\<lparr>w_calls := f5\<rparr>) = I k c" "I k (c\<lparr>w_syncs := f6\<rparr>) = I k c"
  "I k (c\<lparr>w_results := f7\<rparr>) = I k c"
  by (rule digest, simp add: digest_def)+

lemmas balance [simp] = sent outstanding state

subsection \<open>Rules for sequences of operations\<close>

lemma bind_client: "holds (I k) m \<Longrightarrow> (\<And>c'. I k c' \<Longrightarrow> holds P (g c')) \<Longrightarrow> holds P (m \<bind> g)"
  by (auto simp: holds_def bind_eq_Some_conv)

lemma bind_pair: "holds (\<lambda>(a, c'). I k c') m \<Longrightarrow> (\<And>a c'. I k c' \<Longrightarrow> holds P (g a c')) \<Longrightarrow> holds P (m \<bind> (\<lambda>(a, c'). g a c'))"
  by (auto simp: holds_def bind_eq_Some_conv)

lemma bind_pair_eq:
  "holds (\<lambda>(a, c'). I k c') m \<Longrightarrow> (\<And>a c'. m = Some (a, c') \<Longrightarrow> I k c' \<Longrightarrow> holds P (g a c')) \<Longrightarrow> holds P (m \<bind> (\<lambda>(a, c'). g a c'))"
  by (auto simp: holds_def bind_eq_Some_conv)

lemma bind_triple:
  "holds (\<lambda>(a, b, c'). I k c') m \<Longrightarrow> (\<And>a b c'. I k c' \<Longrightarrow> holds P (g a b c')) \<Longrightarrow> holds P (m \<bind> (\<lambda>(a, b, c'). g a b c'))"
  by (auto simp: holds_def bind_eq_Some_conv)

lemma bind_quad:
  "holds (\<lambda>(a, b, d, c'). I k c') m \<Longrightarrow> (\<And>a b d c'. I k c' \<Longrightarrow> holds P (g a b d c')) \<Longrightarrow>
   holds P (m \<bind> (\<lambda>(a, b, d, c'). g a b d c'))"
  by (auto simp: holds_def bind_eq_Some_conv)

lemma bind_pure: "(\<And>x. holds P (g x)) \<Longrightarrow> holds P (m \<bind> g)"
  by (auto simp: holds_def bind_eq_Some_conv)

lemma bind_eq: "(\<And>x. m = Some x \<Longrightarrow> holds P (g x)) \<Longrightarrow> holds P (m \<bind> g)"
  by (auto simp: holds_def bind_eq_Some_conv)

lemma let_client: "I k c \<Longrightarrow> (\<And>c'. I k c' \<Longrightarrow> holds P (g c')) \<Longrightarrow> holds P (Let c g)"
  by simp

lemma let_pair: "I k (snd x) \<Longrightarrow> (\<And>a c'. I k c' \<Longrightarrow> holds P (g a c')) \<Longrightarrow> holds P (let (a, c') = x in g a c')"
  by (cases x) simp

lemma let_pure: "(\<And>x. holds P (g x)) \<Longrightarrow> holds P (Let x g)"
  by simp

lemma case_pure: "(\<And>a b. holds P (g a b)) \<Longrightarrow> holds P (case x of (a, b) \<Rightarrow> g a b)"
  by (cases x) simp

lemma case_io: "(\<And>x. holds P (g x)) \<Longrightarrow> holds P m \<Longrightarrow> holds P n \<Longrightarrow> holds P (case r of Got x \<Rightarrow> g x | Eagain \<Rightarrow> m | Efail \<Rightarrow> n)"
  by (cases r) simp_all

lemma case_connect:
  "holds P l \<Longrightarrow> holds P m \<Longrightarrow> holds P n \<Longrightarrow> holds P (case r of Connect_done \<Rightarrow> l | Connect_pending \<Rightarrow> m | Connect_failed \<Rightarrow> n)"
  by (cases r) simp_all

lemmas steps = bind_client bind_pair bind_triple bind_quad let_client let_pair

lemmas plain = holds_None holds_if bind_pure let_pure holds_option_case holds_list_case case_pure case_io case_connect

subsection \<open>Queues and the outgoing packets\<close>

lemma system_time: "I k c \<Longrightarrow> holds (\<lambda>(tv, c'). I k c') (get_system_time E c)"
  unfolding get_system_time_def by (rule steps [where k = k] plain | simp)+

lemma xid: "I k c \<Longrightarrow> holds (\<lambda>(xid, c'). I k c') (get_xid E c)"
  unfolding get_xid_def by (rule steps [where k = k] plain | simp)+

lemma entry: "ct \<noteq> COMPLETION_WATCH \<Longrightarrow> holds (\<lambda>cl. \<forall>e. cl = Some e \<longrightarrow> cl_fn e = dc) (do_create_completion_entry E x ct dc data wo clist wdo)"
  unfolding do_create_completion_entry_def by (cases ct) (auto simp: holds_def Let_def bind_eq_Some_conv split: if_splits)

lemma add_entry:
  assumes "\<And>e. cl = Some e \<Longrightarrow> cl_fn e = dc" and "I k c"
  shows "I k (snd (do_add_completion dc cl front c))"
  using assms by (cases cl) (auto simp: do_add_completion_def Let_def is_sync_def)

lemma completion: "ct \<noteq> COMPLETION_WATCH \<Longrightarrow> I k c \<Longrightarrow> holds (\<lambda>(rc, c'). I k c') (add_completion E x ct dc data front wo clist c)"
  unfolding add_completion_def create_completion_entry_def
  by (rule holds_bind, rule holds_mono, erule entry) (use add_entry in \<open>fastforce simp: case_prod_beta\<close>)

lemma completion_deregistration:
  "ct \<noteq> COMPLETION_WATCH \<Longrightarrow> I k c \<Longrightarrow> holds (\<lambda>(rc, c'). I k c') (add_completion_deregistration E x ct dc data front wdo clist c)"
  unfolding add_completion_deregistration_def create_completion_entry_deregistration_def
  by (rule holds_bind, rule holds_mono, erule entry) (use add_entry in \<open>fastforce simp: case_prod_beta\<close>)

lemma flush_wait: "I k c \<Longrightarrow> holds (\<lambda>(stop, c'). I k c') (flush_wait E timeout started c)"
  unfolding flush_wait_def by (rule steps [where k = k] plain system_time | assumption | simp)+

lemma flush_loop: "I k c \<Longrightarrow> holds (\<lambda>(rc, c'). I k c') (flush_loop E timeout started rc c)"
proof (rule holdsI)
  fix r assume "flush_loop E timeout started rc c = Some r" and "I k c"
  then show "case r of (rc, c') \<Rightarrow> I k c'"
  proof (induction rule: flush_loop.raw_induct [rotated, consumes 1, case_names 1])
    case (1 loop E timeout started rc c r)
    have ih: "I k c \<Longrightarrow> holds (\<lambda>(rc, c'). I k c') (loop E timeout started rc c)" for E timeout started rc c
      using 1(1) by (auto simp: holds_def)
    have "holds (\<lambda>(rc, c'). I k c') (case zh_to_send c of [] \<Rightarrow> Some (rc, c)
      | b # bs \<Rightarrow>
          if \<not> is_connected c then Some (rc, c)
          else do {
            (stop, c) \<leftarrow> (if timeout \<noteq> 0 then flush_wait E timeout started c else Some (None, c));
            case stop of
              Some rc \<Rightarrow> Some (rc, c)
            | None \<Rightarrow> do {
                (rc, b, s) \<leftarrow> send_buffer (os_host E) b (w_sock c);
                let c = c\<lparr>w_sock := s, zh_to_send := b # bs\<rparr>;
                if rc = 0 \<and> timeout = 0 then Some (ZOK, c)
                else if rc < 0 then Some (ZCONNECTIONLOSS, c)
                else do {
                  let c = (if rc > 0 then c\<lparr>zh_to_send := snd (remove_buffer (zh_to_send c))\<rparr> else c);
                  (tv, c) \<leftarrow> get_system_time E c;
                  loop E timeout started ZOK (c\<lparr>zh_last_send := tv\<rparr>)
                }
              }
          })"
      using 1(3) by - (rule steps [where k = k] plain system_time flush_wait ih | assumption | simp)+
    with 1(2) show ?case by (rule holdsD [rotated])
  qed
qed

lemma flush_queue: "I k c \<Longrightarrow> holds (\<lambda>(rc, c'). I k c') (flush_send_queue E timeout c)"
  unfolding flush_send_queue_def by (rule steps [where k = k] plain system_time flush_loop | assumption | simp)+

lemma wakeup: "I k c \<Longrightarrow> I k (snd (wakeup_io_thread E c))"
  by (simp add: wakeup_io_thread_def)

lemma send_queue: "I k c \<Longrightarrow> holds (\<lambda>(rc, c'). I k c') (adaptor_send_queue E timeout c)"
  using wakeup [of k c E] flush_queue [of k c E timeout] by (auto simp: adaptor_send_queue_def case_prod_beta)

lemma enqueue:
  assumes "\<And>c. I k c \<Longrightarrow> holds (\<lambda>(rc, c'). I k c') (add c)" and "I k c"
  shows "holds (\<lambda>(rc, c'). I k c') (enqueue E r add c)"
  using assms(2) unfolding enqueue_def by - (rule steps [where k = k] plain assms(1) | assumption | simp)+

lemma submit:
  assumes "\<And>c. I k c \<Longrightarrow> holds (\<lambda>(rc, c'). I k c') (add c)" and "I k c"
  shows "holds (\<lambda>(rc, c'). I k c') (submit E h ser add c)"
  using assms(2) unfolding submit_def
  by - (rule bind_pure, (rule steps [where k = k] plain send_queue enqueue assms(1) | assumption | simp)+)

subsection \<open>The asynchronous API\<close>

lemmas adders = add_data_completion_def add_stat_completion_def add_strings_completion_def add_strings_stat_completion_def
  add_acl_completion_def add_void_completion_def add_string_completion_def add_string_stat_completion_def add_multi_completion_def

lemma reads:
  assumes "I k c"
  shows "holds (\<lambda>(rc, c'). I k c') (zoo_awget E path watcher ctx dc data c)"
    "holds (\<lambda>(rc, c'). I k c') (zoo_awgetconfig E watcher ctx dc data c)"
    "holds (\<lambda>(rc, c'). I k c') (zoo_awexists E path watcher ctx dc data c)"
    "holds (\<lambda>(rc, c'). I k c') (zoo_awget_children_static E path watcher ctx dc data c)"
    "holds (\<lambda>(rc, c'). I k c') (zoo_awget_children2_static E path watcher ctx dc data c)"
    "holds (\<lambda>(rc, c'). I k c') (zoo_aget_acl E path dc data c)"
    "holds (\<lambda>(rc, c'). I k c') (zoo_async E path dc data c)"
  using assms unfolding zoo_awget_def zoo_awgetconfig_def zoo_awexists_def zoo_awget_children_static_def zoo_awget_children2_static_def
    zoo_aget_acl_def zoo_async_def adders
  by - (rule steps [where k = k] plain xid submit completion | assumption | simp)+

lemma writes:
  assumes "I k c"
  shows "holds (\<lambda>(rc, c'). I k c') (zoo_aset E path buffer version dc data c)"
    "holds (\<lambda>(rc, c'). I k c') (zoo_adelete E path version dc data c)"
    "holds (\<lambda>(rc, c'). I k c') (zoo_aset_acl E path version acl dc data c)"
    "holds (\<lambda>(rc, c'). I k c') (zoo_areconfig E joining leaving members config dc data c)"
    "holds (\<lambda>(rc, c'). I k c') (zoo_acreate_ttl E path buffer acl mode ttl dc data c)"
    "holds (\<lambda>(rc, c'). I k c') (zoo_acreate2_ttl E path buffer acl mode ttl dc data c)"
  using assms unfolding zoo_aset_def zoo_adelete_def zoo_aset_acl_def zoo_areconfig_def zoo_acreate_ttl_def zoo_acreate2_ttl_def
    create_request_def adders
  by - (rule steps [where k = k] plain xid submit completion | assumption | simp)+

lemma set_result: "I k c \<Longrightarrow> holds (I k) (set_result a f c)"
  unfolding set_result_def by (rule steps [where k = k] plain | simp)+

lemma multi_op:
  assumes "I k c"
  shows "holds (\<lambda>m. \<forall>r ct f c'. m = Some (r, ct, f, c') \<longrightarrow> I k c') (multi_op E x op res r c)"
  using assms unfolding multi_op_def Let_def
  by (cases "op_u op") ((rule plain bind_client [where k = k] set_result | assumption | simp)+)

lemma multi_ops: "I k c \<Longrightarrow> holds (\<lambda>(stop, r, clist, c'). I k c') (multi_ops E x ops res r clist c)"
proof (induction ops arbitrary: res r clist c)
  case (Cons op ops)
  show ?case
    unfolding multi_ops.simps
    by (rule bind_pure, rule holds_bind, rule holds_mono [OF multi_op [OF Cons.prems]])
      (auto intro!: holds_option_case bind_pure Cons.IH simp: Cons.prems)
qed simp

lemma multi: "I k c \<Longrightarrow> holds (\<lambda>(rc, c'). I k c') (zoo_amulti E ops results dc data c)"
  unfolding zoo_amulti_def adders
  by (rule steps [where k = k] plain xid multi_ops enqueue send_queue completion | assumption | simp)+

lemma notify_completion: "I k c \<Longrightarrow> holds (I k) (notify_sync_completion sc c)"
  unfolding notify_sync_completion_def by (rule steps [where k = k] plain | simp)+

lemma remove_watches:
  "I k c \<Longrightarrow> holds (\<lambda>(rc, c'). I k c') (aremove_watches E path wtype watcher ctx local dc data all c)"
  unfolding aremove_watches_def
  by (rule steps [where k = k] plain xid enqueue send_queue completion_deregistration notify_completion | assumption | simp)+

subsection \<open>Packets of the library\<close>

lemma queue_front: "I k c \<Longrightarrow> I k (snd (queue_front E r c))"
  by (simp add: queue_front_def Let_def split: prod.split)

lemma ping: "I k c \<Longrightarrow> holds (\<lambda>(rc, c'). I k c') (send_ping E c)"
  unfolding send_ping_def by (rule steps [where k = k] plain system_time send_queue | assumption | simp)+

lemma info_packet: "I k c \<Longrightarrow> holds (\<lambda>(rc, c'). I k c') (send_info_packet E auth c)"
  unfolding send_info_packet_def by (rule plain | simp add: case_prod_beta queue_front)+

lemma auth_loop: "I k c \<Longrightarrow> holds (\<lambda>(rc, c'). I k c') (send_auth_loop E as rc c)"
  by (induction as arbitrary: rc c) (simp, simp only: send_auth_loop.simps, (rule steps [where k = k] plain info_packet | assumption | simp)+)

lemma auth_packets:
  assumes "I k c"
  shows "holds (\<lambda>(rc, c'). I k c') (send_auth_info E c)" "holds (\<lambda>(rc, c'). I k c') (send_last_auth_info E c)"
    "holds (\<lambda>(rc, c'). I k c') (send_set_watches E c)"
  using assms unfolding send_auth_info_def send_last_auth_info_def send_set_watches_def
  by - (rule steps [where k = k] plain auth_loop info_packet queue_front | assumption | simp)+

lemma add_auth: "I k c \<Longrightarrow> holds (\<lambda>(rc, c'). I k c') (zoo_add_auth E scheme cert len dc data c)"
  unfolding zoo_add_auth_def by (rule steps [where k = k] plain auth_packets | assumption | simp)+

subsection \<open>Replies\<close>

lemma emitted [simp]: "I k (emit u c) = I k c"
  by (simp add: emit_def)

lemma op_results:
  assumes "I k c"
  shows "holds (I k) (op_result_string_completion err s data c)" "holds (I k) (op_result_void_completion err data c)"
    "holds (I k) (op_result_stat_completion err st data c)"
  using assms unfolding op_result_string_completion_def op_result_void_completion_def op_result_stat_completion_def
  by - (rule plain | simp)+

lemma results:
  assumes "I k c"
  shows "holds (I k) (void_result f rc data c)" "holds (I k) (stat_result f rc st data c)" "holds (I k) (string_result f rc s data c)"
    "holds (I k) (fn_result f u c)"
  using assms by (cases f; simp add: op_results)+

lemma simple: "I k c \<Longrightarrow> holds (\<lambda>(ia, c'). I k c') (simple_response E ct failed rc cptr ia c)"
  unfolding simple_response_def Let_def
  by (cases ct) (simp_all only: completion_type.case, (rule plain bind_client [where k = k] results | assumption | simp)+)

lemma response_and_multi:
  shows response: "I k c \<Longrightarrow> holds (\<lambda>(ia, c'). I k c') (deserialize_response E ct x failed rc cptr ia c)"
    and failed_multi: "I k c \<Longrightarrow> holds (I k) (cleanup_failed_multi E x rc es c)"
    and multi_loop: "I k c \<Longrightarrow> holds (\<lambda>(rc, ia, c'). I k c') (multi_loop E x es mhdr rc a c)"
proof (induction E ct x failed rc cptr ia c and E x rc es c and E x es mhdr rc a c
    rule: deserialize_response_cleanup_failed_multi_multi_loop.induct)
  case (1 E ct x failed rc cptr ia c)
  show ?case
  proof (cases "ct = COMPLETION_MULTI")
    case True
    have a: "holds (I k) (cleanup_failed_multi E x rc (cl_clist cptr) c)" if "cl_fn cptr \<noteq> No_fn" "failed"
      using 1(1) [OF True] that 1(3) by simp
    have b: "holds (\<lambda>(rc, ia, c'). I k c') (multi_loop E x (cl_clist cptr) mhdr 0 a' c)" if "cl_fn cptr \<noteq> No_fn" "\<not> failed" "ia = Some a"
      "deserialize_MultiHeader (os_host E) (a, MultiHeader_zero) = Some (r, a', mhdr)" for a r a' mhdr
      using 1(2) [OF True] that 1(3) by simp
    show ?thesis
      unfolding deserialize_response.simps if_P [OF True]
      apply (rule holds_bind, rule holds_c_assert, rule bind_triple [where k = k], rule holds_if, rule bind_client [where k = k], rule a)
      apply (simp_all)
      apply (rule bind_eq, rule bind_eq, clarsimp, rule bind_triple [where k = k], rule b)
      apply simp_all
      apply (rule bind_client [where k = k], rule results)
      apply simp_all
      done
  qed (use 1(3) simple in simp)
next
  case (3 E x rc entry es c)
  show ?case
    unfolding cleanup_failed_multi.simps by (rule bind_pair_eq [where k = k], rule 3(1), rule 3(3), rule 3(2)) simp_all
next
  case (5 E x entry es mhdr rc a c)
  show ?case
    unfolding multi_loop.simps
    apply (rule holds_if)
     apply (simp add: 5(3))
    apply (rule bind_eq, rule holds_prod_case, rule holds_prod_case, rule bind_pair_eq [where k = k], rule 5(1))
           apply (assumption | simp add: 5(3))+
    apply (rule bind_eq, rule bind_eq, rule holds_prod_case, rule holds_prod_case, rule 5(2))
                    apply (assumption | simp)+
    done
qed simp_all

lemma multi_reply: "I k c \<Longrightarrow> holds (\<lambda>(rc, ia, c'). I k c') (deserialize_multi E x cptr ia c)"
  unfolding deserialize_multi_def by (rule plain multi_loop | assumption)+

lemma one: "I k c \<Longrightarrow> holds (I k) (process_one E cptr c)"
  unfolding process_one_def by (rule bind_pair [where k = k] plain response | assumption | simp del: deserialize_response.simps)+

lemma loop: "I k c \<Longrightarrow> holds (I k) (process_loop E cs c)"
  by (induction cs arbitrary: c) (simp, simp only: process_loop.simps, (rule bind_client [where k = k] one | assumption | simp)+)

lemma process: "I k c \<Longrightarrow> holds (I k) (process_completions E c)"
  unfolding process_completions_def by (rule loop)

lemma queued [simp]: "I k (queue_completion e c) = I k c"
  by (simp add: queue_completion_def)

lemma async: "I k c \<Longrightarrow> holds (I k) (run_async E c)"
  unfolding run_async_def by (simp add: process)

lemma session_event: "I k c \<Longrightarrow> holds (\<lambda>(rc, c'). I k c') (queue_session_event E st c)"
  unfolding queue_session_event_def
  by (rule bind_client [where k = k] let_client [where k = k] plain async | assumption | simp)+

subsection \<open>Losing the connection\<close>

lemma free_all: "I (k + nsync es) c \<Longrightarrow> holds (I k) (free_loop E b reason es c)"
proof (induction es arbitrary: c)
  case (Cons e es)
  have "holds (I (k + nsync es)) (if cl_fn e = SYNCHRONOUS_MARKER then
             (if os_threaded E then notify_sync (cl_data e) reason c else None)
           else if b then do { cptr \<leftarrow> fake_response E reason e; Some (queue_completion cptr c) }
           else Some c)"
    using Cons.prems by (auto simp: notify_sync_def is_sync_def algebra_simps intro!: bind_pure)
  then show ?case unfolding free_loop.simps by (rule bind_client) (rule Cons.IH)
qed simp

lemma called [simp]: "I k (call_auth_completions rc as c) = I k c"
  by (simp add: call_auth_completions_def)

lemma marked [simp]: "I k (mark_active_auth c) = I k c"
  by (simp add: mark_active_auth_def)

lemma free_completions: "I k c \<Longrightarrow> holds (I k) (free_completions E b reason c)"
  unfolding free_completions_def Let_def
  by (rule bind_client [where k = k], rule free_all) (auto intro!: bind_pure)

lemma cleanup_bufs: "I k c \<Longrightarrow> holds (I k) (cleanup_bufs E b rc c)"
  unfolding cleanup_bufs_def
  by (rule let_client [where k = k] bind_client [where k = k] free_completions | assumption | simp split: input_buffer.split)+

lemma drop_event: "holds (\<lambda>(r, c'). I k c') m \<Longrightarrow> holds (I k) (do { (r, c) \<leftarrow> m; Some c })"
  by (auto simp: holds_def bind_eq_Some_conv)

lemma cleanup: "I k c \<Longrightarrow> holds (I k) (cleanup E rc c)"
  unfolding cleanup_def
  by (rule bind_client [where k = k] let_client [where k = k] holds_if drop_event session_event cleanup_bufs async | assumption | simp)+

lemma errors:
  assumes "I k c"
  shows error: "holds (I k) (handle_error E rc c)" and socket_error: "holds (\<lambda>(rc, c'). I k c') (handle_socket_error_msg E rc c)"
  using assms unfolding handle_socket_error_msg_def handle_error_def
  by - (rule steps [where k = k] plain cleanup | assumption | simp)+

lemma auth_completion: "I k c \<Longrightarrow> holds (I k) (auth_completion_func E rc c)"
  unfolding auth_completion_func_def by (rule steps [where k = k] plain | assumption | simp)+

subsection \<open>Events of the socket\<close>

lemma prime: "I k c \<Longrightarrow> holds (\<lambda>(rc, c'). I k c') (prime_connection E c)"
  unfolding prime_connection_def
  by (rule let_client [where k = k] plain socket_error | assumption | simp)+

lemma handshake: "I k c \<Longrightarrow> holds (\<lambda>(rc, c'). I k c') (finish_handshake E c)"
  unfolding finish_handshake_def
  by (rule steps [where k = k] plain auth_packets session_event socket_error | assumption | simp)+

lemma input_block [simp]: "I k (set_input_block b c) = I k c"
  by (simp add: set_input_block_def)

lemma read: "I k c \<Longrightarrow> holds (\<lambda>(rc, c'). I k c') (read_event E c)"
  unfolding read_event_def
  by (rule steps [where k = k] plain system_time handshake socket_error | assumption | simp)+

lemma events: "I k c \<Longrightarrow> holds (\<lambda>(rc, c'). I k c') (check_events E w r c)"
  unfolding check_events_def
  by (rule steps [where k = k] plain prime flush_queue read socket_error | assumption | simp)+

lemma latency:
  assumes "I k c"
  shows "holds (I k) (isSocketReadable E c)" "holds (I k) (checkResponseLatency E c)"
  using assms unfolding isSocketReadable_def checkResponseLatency_def
  by - (rule steps [where k = k] plain system_time | assumption | simp)+

lemma sync_reply: "I k c \<Longrightarrow> holds (I k) (process_sync_completion E cptr sc ia c)"
  unfolding process_sync_completion_def by (rule bind_triple [where k = k] plain multi_reply | assumption | simp)+

lemma sync_dispatch: "I (k + 1) c \<Longrightarrow> holds (I k) (dispatch_sync E cptr rc ia c)"
  unfolding dispatch_sync_def by (rule bind_client [where k = "k + 1"] plain sync_reply | assumption | simp add: algebra_simps)+

lemma answer: "I k c \<Longrightarrow> holds (\<lambda>(stop, c'). I k c') (answer_request E known hdr ia b c)"
proof (cases "zh_sent_requests c")
  case (Cons e es)
  assume I: "I k c"
  let ?j = "if is_sync e then k + 1 else k"
  have j: "I ?j (c\<lparr>zh_sent_requests := es\<rparr>)" using I Cons by simp
  have *: "I ?j d \<Longrightarrow> holds (\<lambda>(stop, c'). I k c') (if cl_fn e \<noteq> SYNCHRONOUS_MARKER
      then Some (None, queue_completion (set_cl_buffer (Some b) e) d)
      else if os_threaded E then do { c \<leftarrow> dispatch_sync E e r ia d; Some (None, c) } else None)" for d r
    by (auto simp: is_sync_def intro!: bind_client [where k = k] sync_dispatch)
  show ?thesis
    using I j unfolding answer_request_def Cons list.case Let_def
    by - (rule holds_if, rule bind_pair [where k = k], (rule socket_error, simp add: Cons), simp,
        (rule bind_pure)+, rule *, simp)
qed (simp add: answer_request_def)

lemma packet: "I k c \<Longrightarrow> holds (\<lambda>(stop, c'). I k c') (process_buffer E b c)"
  unfolding process_buffer_def
  by (rule bind_client [where k = k] plain answer auth_completion error | assumption | simp)+

lemma packets: "I k c \<Longrightarrow> holds (\<lambda>(stop, c'). I k c') (process_buffers E bs c)"
  by (induction bs arbitrary: c)
    (simp, simp only: process_buffers.simps, (rule bind_pair [where k = k] plain packet | assumption | simp)+)

subsection \<open>Servers\<close>

lemma ticked [simp]: "I k (tick c) = I k c"
  by (simp add: tick_def)

lemma only_ticked: "only_ticks c c' \<Longrightarrow> I k c' = I k c"
  by (auto simp: only_ticks_def)

lemma resolve: "I k c \<Longrightarrow> holds (\<lambda>(rc, r, c'). I k c') (resolve_hosts E f hosts c)"
  by (rule holds_mono [OF resolve_hosts_ticks]) (auto simp: only_ticked)

lemma random: "I k c \<Longrightarrow> I k (snd (drand48 E c))"
  by (simp add: drand48_def)

lemma move [simp]: "I k (decide_move E b c) = I k c"
  by (rule digest) (simp add: digest_def decide_move_def drand48_def Let_def split: prod.split)

lemma addresses: "I k c \<Longrightarrow> holds (\<lambda>(rc, c'). I k c') (update_addrs E f c)"
  unfolding update_addrs_def by (rule steps [where k = k] plain resolve | assumption | simp)+

lemma servers: "I k c \<Longrightarrow> holds (\<lambda>(rc, c'). I k c') (zoo_set_servers E f hosts c)"
  unfolding zoo_set_servers_def by (rule plain addresses | assumption | simp)+

lemma next_in_reconfig: "I k c \<Longrightarrow> holds (\<lambda>(rc, c'). I k c') (get_next_server_in_reconfig E c)"
  unfolding get_next_server_in_reconfig_def by (rule steps [where k = k] plain random | assumption | simp)+

lemma cycle: "I k c \<Longrightarrow> holds (I k) (zoo_cycle_next_server E c)"
  unfolding zoo_cycle_next_server_def by (rule steps [where k = k] plain next_in_reconfig | assumption | simp)+

subsection \<open>Between two turns\<close>

lemma ping_rw: "I k c \<Longrightarrow> holds (\<lambda>(b, c'). I k c') (ping_rw_server E c)"
  unfolding ping_rw_server_def by (rule steps [where k = k] plain | assumption | simp)+

lemma seek: "I k c \<Longrightarrow> holds (\<lambda>(n, c'). I k c') (seek_rw_server E now n c)"
  unfolding seek_rw_server_def by (rule steps [where k = k] plain ping_rw cleanup | assumption | simp)+

lemma connect: "I k c \<Longrightarrow> holds (\<lambda>(stop, c'). I k c') (begin_connect E c)"
  unfolding begin_connect_def by (rule steps [where k = k] plain cycle socket_error prime | assumption | simp)+

lemma ping_idle: "I k c \<Longrightarrow> holds (\<lambda>(rc, n, c'). I k c') (ping_if_idle E n c)"
  unfolding ping_if_idle_def by (rule steps [where k = k] plain ping | assumption | simp)+

lemma watch: "I k c \<Longrightarrow> holds (\<lambda>(rc, out, c'). I k c') (watch_connection E now out c)"
  unfolding watch_connection_def by (rule steps [where k = k] plain socket_error ping_idle seek | assumption | simp)+

lemma connect_needed: "I k c \<Longrightarrow> holds (\<lambda>(stop, out, c'). I k c') (connect_if_needed E now c)"
  unfolding connect_if_needed_def Let_def by (rule steps [where k = k] plain connect | assumption | simp)+

subsection \<open>Calls that hold a reference\<close>

lemma turn:
  assumes "Q c" and "I k (api_prolog c)" and epilog: "\<And>rc d. I k d \<Longrightarrow> holds (\<lambda>(rc, c'). Q c') (api_epilog E rc d)"
  shows "holds (\<lambda>(rc, c'). Q c') (zookeeper_process E w r c)"
  using assms(1,2) unfolding zookeeper_process_def
  by - (rule steps [where k = k] plain latency events packets async epilog | assumption | simp)+

lemma prolog_time: "I k (api_prolog c) \<Longrightarrow> get_system_time E c = Some (now, d) \<Longrightarrow> I k (api_prolog d)"
proof -
  have "api_prolog (c\<lparr>w_ticks := n\<rparr>) = (api_prolog c)\<lparr>w_ticks := n\<rparr>" for n by (simp add: api_prolog_simp)
  then show "I k (api_prolog c) \<Longrightarrow> get_system_time E c = Some (now, d) \<Longrightarrow> I k (api_prolog d)"
    by (auto simp: get_system_time_def bind_eq_Some_conv)
qed

lemma drop_out:
  "holds (\<lambda>(rc, c'). Q c') m \<Longrightarrow> holds (\<lambda>(rc, out, c'). Q c') (do { (rc, c) \<leftarrow> m; Some (rc, out, c) })"
  by (auto simp: holds_def bind_eq_Some_conv)

lemma interest:
  assumes "Q c" and "I k (api_prolog c)" and epilog: "\<And>rc d. I k d \<Longrightarrow> holds (\<lambda>(rc, c'). Q c') (api_epilog E rc d)"
  shows "holds (\<lambda>(rc, out, c'). Q c') (zookeeper_interest E f b c)"
  using assms(1,2) unfolding zookeeper_interest_def
  by - (rule holds_if, simp, rule holds_if, simp, rule bind_eq, rule holds_prod_case, rule let_client [where k = k], rule prolog_time,
      (assumption | simp)+,
      (rule drop_out epilog bind_triple [where k = k] bind_pair [where k = k] plain addresses connect_needed watch | assumption | simp)+)

subsection \<open>The end of a handle\<close>

lemma destroyed: "I k c \<Longrightarrow> holds (I k) (destroy E c)"
  unfolding destroy_def by (rule bind_client [where k = k] let_client [where k = k] plain cleanup_bufs async | assumption | simp)+

lemma close_sent: "I k c \<Longrightarrow> holds (\<lambda>(rc, c'). I k c') (send_close E c)"
  unfolding send_close_def wait_for_session_to_be_closed_def
  by (rule steps [where k = k] plain xid send_queue | assumption | simp)+

end

section \<open>Invariants that do not count references\<close>

locale session_invariant = handle_invariant +
  assumes references: "I k (c\<lparr>zh_ref_counter := n\<rparr>) = I k c"
    and freed: "I k (c\<lparr>w_freed := b\<rparr>) = I k c"
    and closing: "I k (c\<lparr>zh_close_requested := b\<rparr>) = I k c"
begin

lemma references_simps [simp]: "I k (api_prolog c) = I k c" "I k (snd (inc_ref_counter c n)) = I k c" "I k (c\<lparr>zh_ref_counter := n\<rparr>) = I k c"
  by (simp_all add: api_prolog_simp inc_ref_counter_def Let_def references)

lemma final: "I k c \<Longrightarrow> holds (\<lambda>(rc, c'). I k c') (close_final E c)"
  unfolding close_final_def by (rule steps [where k = k] plain close_sent destroyed | assumption | simp add: freed)+

lemma epilog: "I k c \<Longrightarrow> holds (\<lambda>(rc, c'). I k c') (api_epilog E rc c)"
  unfolding api_epilog_def by (rule steps [where k = k] plain final | assumption | simp)+

lemma process_keeps: "I k c \<Longrightarrow> holds (\<lambda>(rc, c'). I k c') (zookeeper_process E w r c)"
  by (rule turn [where k = k]) (simp_all add: epilog)

lemma interest_keeps: "I k c \<Longrightarrow> holds (\<lambda>(rc, out, c'). I k c') (zookeeper_interest E f b c)"
  by (rule interest [where k = k]) (simp_all add: epilog)

lemma close_keeps:
  assumes "I k c" and "\<And>t d. I k d \<Longrightarrow> holds (I k) (others t d)"
  shows "holds (\<lambda>(rc, c'). I k c') (zookeeper_close E self others c)"
  using assms(1) unfolding zookeeper_close_def adaptor_finish_def
  by - (rule steps [where k = k] plain free_completions epilog final wakeup assms(2) | assumption | simp add: closing)+

end

section \<open>Calls of the application\<close>

text \<open>
  What a thread of the application may do with a handle in one step. The calls that only pass their arguments on to these
  (\<^verbatim>\<open>zoo_aget\<close>, \<^verbatim>\<open>zoo_acreate\<close>, ...) are such steps too, and a synchronous call is an allocation, an asynchronous call with
  the synchronous marker and, after other steps, the release.
\<close>

inductive api_step :: "os \<Rightarrow> bool \<Rightarrow> client \<Rightarrow> client \<Rightarrow> bool" for E :: os and f :: bool where
  get: "zoo_awget E path watcher ctx dc data c = Some (rc, c') \<Longrightarrow> api_step E f c c'"
| get_config: "zoo_awgetconfig E watcher ctx dc data c = Some (rc, c') \<Longrightarrow> api_step E f c c'"
| exists: "zoo_awexists E path watcher ctx dc data c = Some (rc, c') \<Longrightarrow> api_step E f c c'"
| get_children: "zoo_awget_children_static E path watcher ctx dc data c = Some (rc, c') \<Longrightarrow> api_step E f c c'"
| get_children2: "zoo_awget_children2_static E path watcher ctx dc data c = Some (rc, c') \<Longrightarrow> api_step E f c c'"
| get_acl: "zoo_aget_acl E path dc data c = Some (rc, c') \<Longrightarrow> api_step E f c c'"
| sync: "zoo_async E path dc data c = Some (rc, c') \<Longrightarrow> api_step E f c c'"
| set: "zoo_aset E path buffer version dc data c = Some (rc, c') \<Longrightarrow> api_step E f c c'"
| delete: "zoo_adelete E path version dc data c = Some (rc, c') \<Longrightarrow> api_step E f c c'"
| set_acl: "zoo_aset_acl E path version acl dc data c = Some (rc, c') \<Longrightarrow> api_step E f c c'"
| reconfig: "zoo_areconfig E joining leaving members config dc data c = Some (rc, c') \<Longrightarrow> api_step E f c c'"
| create: "zoo_acreate_ttl E path buffer acl mode ttl dc data c = Some (rc, c') \<Longrightarrow> api_step E f c c'"
| create2: "zoo_acreate2_ttl E path buffer acl mode ttl dc data c = Some (rc, c') \<Longrightarrow> api_step E f c c'"
| multi: "zoo_amulti E ops results dc data c = Some (rc, c') \<Longrightarrow> api_step E f c c'"
| remove_watches: "aremove_watches E path wtype watcher ctx local dc data all c = Some (rc, c') \<Longrightarrow> api_step E f c c'"
| add_auth: "zoo_add_auth E scheme cert len auth data c = Some (rc, c') \<Longrightarrow> api_step E f c c'"
| set_servers: "zoo_set_servers E f hosts c = Some (rc, c') \<Longrightarrow> api_step E f c c'"
| cycle_server: "zoo_cycle_next_server E c = Some c' \<Longrightarrow> api_step E f c c'"
| set_watcher: "zoo_set_watcher watcher c = Some (old, c') \<Longrightarrow> api_step E f c c'"
| set_context: "api_step E f c (zoo_set_context ctx c)"
| sync_begins: "alloc_sync_completion E sc c = Some c' \<Longrightarrow> api_step E f c c'"
| sync_ends: "api_step E f c (free_sync_completion sc c)"

context handle_invariant
begin

lemma watcher: "I k c \<Longrightarrow> holds (\<lambda>(old, c'). I k c') (zoo_set_watcher w c)"
  unfolding zoo_set_watcher_def by (rule plain | simp)+

lemma alloc: "I k c \<Longrightarrow> holds (I k) (alloc_sync_completion E sc c)"
  unfolding alloc_sync_completion_def by (rule plain | simp)+

lemma api: "api_step E f c c' \<Longrightarrow> I k c \<Longrightarrow> I k c'"
  by (induction rule: api_step.induct)
    (auto dest: holdsD [OF reads(1)] holdsD [OF reads(2)] holdsD [OF reads(3)] holdsD [OF reads(4)] holdsD [OF reads(5)]
      holdsD [OF reads(6)] holdsD [OF reads(7)] holdsD [OF writes(1)] holdsD [OF writes(2)] holdsD [OF writes(3)] holdsD [OF writes(4)]
      holdsD [OF writes(5)] holdsD [OF writes(6)] holdsD [OF multi] holdsD [OF remove_watches] holdsD [OF add_auth] holdsD [OF servers]
      holdsD [OF cycle] holdsD [OF watcher] holdsD [OF alloc] simp: zoo_set_context_def free_sync_completion_def)

lemma finish:
  assumes "\<And>d. I k d \<Longrightarrow> holds (\<lambda>(rc, c'). rc \<noteq> - 1 \<longrightarrow> Q c') (adaptor_init E p d)" and "I k c"
  shows "holds (\<lambda>(ok, c'). ok \<longrightarrow> Q c') (finish_init E p clientid c)"
  using assms(2) unfolding finish_init_def
  by (cases clientid) (rule let_client [where k = k] bind_pure holds_bind holds_mono [OF assms(1)] | assumption | auto)+

lemma finish_or_abort:
  assumes "\<And>d. I k d \<Longrightarrow> holds (\<lambda>(rc, c'). rc \<noteq> - 1 \<longrightarrow> Q c') (adaptor_init E p d)" and "I k c"
  shows "holds (\<lambda>(ok, c'). ok \<longrightarrow> Q c') (do { (ok, c) \<leftarrow> finish_init E p clientid c; Some (ok, if ok then c else g c) })"
  by (rule holds_bind, rule holds_mono [OF finish [OF assms]]) auto

lemma init:
  assumes "\<And>d. I k d \<Longrightarrow> holds (\<lambda>(rc, c'). rc \<noteq> - 1 \<longrightarrow> Q c') (adaptor_init E p d)"
    and "I k (blank_handle w)"
  shows "holds (\<lambda>(ok, c'). ok \<longrightarrow> Q c') (zookeeper_init_internal E f p host watcher timeout clientid context flags w)"
  using assms(2) unfolding zookeeper_init_internal_def
  by - (rule finish_or_abort [OF assms(1)] steps [where k = k] plain addresses | assumption | simp)+

end

section \<open>Three invariants\<close>

definition life :: "client \<Rightarrow> int \<times> bool \<times> bool \<times> bool" where
  \<comment> \<open>references, the request to close, whether the handle is freed, whether it is null\<close>
  "life c = (zh_ref_counter c, zh_close_requested c, w_freed c, w_null c)"

interpretation life: handle_invariant "\<lambda>k c. life c = L" for L
  by unfold_locales (auto simp: life_def digest_def)

interpretation states: session_invariant "\<lambda>k c. zh_state c \<in> session_states"
  by unfold_locales (auto simp: digest_def)

interpretation syncs: session_invariant "\<lambda>k c. zh_outstanding_sync c = nsync (zh_sent_requests c) + k"
  by unfold_locales (auto simp: digest_def)

end
