(* ===== verification/Threads.thy ===== *)
theory Threads
  imports Lifecycle
begin

text \<open>
  One turn of the I/O thread of the threaded library (\<^verbatim>\<open>do_io\<close> in \<^verbatim>\<open>src/mt_adaptor.c\<close>), what the calls that hold a reference do to the
  references of a handle when nothing else runs, and handles at work. How the threads of the library interleave is the subject of the theory
  \<open>Closing\<close>. The contents of the wake-up pipe and the counter \<^verbatim>\<open>io_count\<close> are left out, since they only end a poll early and help debugging.
\<close>

section \<open>The I/O thread\<close>

definition do_io_interest :: "os \<Rightarrow> bool \<Rightarrow> client \<Rightarrow> (io_wants \<times> client) option" where
  \<comment> \<open>the loop of \<^verbatim>\<open>do_io\<close> up to \<^verbatim>\<open>poll\<close>; the results of \<^verbatim>\<open>zookeeper_interest\<close> are local variables without a value of their own\<close>
  "do_io_interest E f c = do {
     (rc, out, c) \<leftarrow> zookeeper_interest E f False c;
     out \<leftarrow> out;
     Some (out, c)
   }"

definition polled :: "io_wants \<Rightarrow> bool \<Rightarrow> bool \<Rightarrow> bool \<Rightarrow> bool \<times> bool" where
  \<comment> \<open>the events \<^verbatim>\<open>ZOOKEEPER_WRITE\<close> and \<^verbatim>\<open>ZOOKEEPER_READ\<close>: \<^verbatim>\<open>poll\<close> reports \<^verbatim>\<open>POLLIN\<close> and \<^verbatim>\<open>POLLOUT\<close> only when asked,
    \<^verbatim>\<open>POLLHUP\<close> always, and without a socket the bits stay as they are\<close>
  "polled out pollin pollout pollhup =
     (if io_fd out \<noteq> - 1 then (pollout \<and> io_write out \<or> pollhup, pollin \<and> io_read out) else (io_write out, io_read out))"

definition do_io_process :: "os \<Rightarrow> io_wants \<Rightarrow> bool \<Rightarrow> bool \<Rightarrow> bool \<Rightarrow> client \<Rightarrow> (bool \<times> client) option" where
  \<comment> \<open>the rest of the loop after \<^verbatim>\<open>poll\<close>; \<open>True\<close> leaves it, with the reference given back\<close>
  "do_io_process E out pollin pollout pollhup c = do {
     let (write, read) = polled out pollin pollout pollhup;
     (rc, c) \<leftarrow> zookeeper_process E write read c;
     if is_unrecoverable c \<noteq> 0 then do { (r, c) \<leftarrow> api_epilog E 0 c; Some (True, c) } else Some (False, c)
   }"

section \<open>References\<close>

lemma final_life: "holds (\<lambda>(rc, c'). life c' = (zh_ref_counter c, zh_close_requested c, True, w_null c)) (close_final E c)"
proof -
  have "holds (\<lambda>(rc, d). life d = life c) (if is_connected c then send_close E c else Some (ZOK, c))"
    using life.close_sent [of c] by simp
  moreover have "holds (\<lambda>e. life e = life c) (destroy E d)" if "life d = life c" for d using that by (rule life.destroyed)
  ultimately show ?thesis
    unfolding close_final_def
    by (intro life.bind_pair [where L = "life c"] life.bind_client [where L = "life c"]) (auto simp: life_def)
qed

lemma epilog_life:
  "holds (\<lambda>(r, c'). life c' = (if zh_ref_counter c = 1 \<and> zh_close_requested c then (1, True, True, w_null c)
    else (zh_ref_counter c - 1, zh_close_requested c, w_freed c, w_null c))) (api_epilog E rc c)"
  unfolding api_epilog_def inc_ref_counter_def Let_def
  by (auto simp: life_def intro!: holds_bind intro: holds_mono [OF final_life])

definition guarded :: "client \<Rightarrow> bool" where
  \<comment> \<open>somebody else holds a reference when the handle is to be closed\<close>
  "guarded c \<longleftrightarrow> (zh_close_requested c \<longrightarrow> 1 \<le> zh_ref_counter c)"

lemma epilog_guarded:
  assumes "guarded c" and "life d = life (api_prolog c)"
  shows "holds (\<lambda>(r, c'). life c' = life c) (api_epilog E rc d)"
  using assms by (intro holds_mono [OF epilog_life]) (auto simp: life_def guarded_def api_prolog_simp)

lemma process_life: "guarded c \<Longrightarrow> holds (\<lambda>(rc, c'). life c' = life c) (zookeeper_process E w r c)"
  by (rule life.turn [where L = "life (api_prolog c)"]) (auto intro: epilog_guarded)

lemma interest_life: "guarded c \<Longrightarrow> holds (\<lambda>(rc, out, c'). life c' = life c) (zookeeper_interest E f b c)"
  by (rule life.interest [where L = "life (api_prolog c)"]) (auto intro: epilog_guarded)

lemma init_life:
  assumes "os_threaded E" and "zookeeper_init_internal E f p host watcher timeout clientid context flags w = Some (True, c)"
  shows "life c = (2, False, False, False)"
proof -
  have "holds (\<lambda>(rc, c'). rc \<noteq> - 1 \<longrightarrow> life c' = (2, False, False, False)) (adaptor_init E p d)" if "life d = (0, False, False, False)" for d
    using assms(1) that
    by (auto simp: adaptor_init_def start_threads_def api_prolog_simp api_epilog_open life_def)
  moreover have "life (blank_handle w) = (0, False, False, False)" by (simp add: life_def blank_handle_def)
  ultimately have "holds (\<lambda>(ok, c'). ok \<longrightarrow> life c' = (2, False, False, False))
      (zookeeper_init_internal E f p host watcher timeout clientid context flags w)" by (rule life.init)
  with assms(2) show ?thesis by (auto simp: holds_def)
qed

lemma bodies_keep_life:
  "holds (\<lambda>(rc, c'). life c' = life c) (check_events E w r c)" "holds (\<lambda>(stop, c'). life c' = life c) (process_buffers E bs c)"
  "holds (\<lambda>c'. life c' = life c) (process_completions E c)" "holds (\<lambda>c'. life c' = life c) (free_completions E b reason c)"
  "holds (\<lambda>(rc, c'). life c' = life c) (update_addrs E f c)" "holds (\<lambda>(stop, out, c'). life c' = life c) (connect_if_needed E now c)"
  "holds (\<lambda>(rc, out, c'). life c' = life c) (watch_connection E now out c)"
  "api_step E f c d \<Longrightarrow> life d = life c"
  by (rule life.events life.packets life.process life.free_completions life.addresses life.connect_needed life.watch, rule refl)+
    (rule life.api, assumption, rule refl)

section \<open>Properties\<close>

text \<open>
  (C26) A failed resolution of the servers makes the I/O thread use variables that have no value: when the list of servers cannot be
  resolved, \<^verbatim>\<open>zookeeper_interest\<close> reports the error and leaves its results as they were, and \<^verbatim>\<open>do_io\<close> goes on to
  wait with them.
\<close>

theorem unresolved_servers_undefined:
  assumes "open_handle c" and "get_system_time E c = Some (now, d)" and "update_addrs E f (api_prolog d) = Some (rc, e)" and "rc \<noteq> ZOK"
    and "\<not> zh_close_requested e"
  shows "zookeeper_interest E f False c = Some (rc, None, e\<lparr>zh_ref_counter := zh_ref_counter e - 1\<rparr>) \<and> do_io_interest E f c = None"
proof -
  have "zookeeper_interest E f False c = Some (rc, None, e\<lparr>zh_ref_counter := zh_ref_counter e - 1\<rparr>)"
    using assms by (simp add: zookeeper_interest_def open_handle_def is_unrecoverable_def api_epilog_open)
  then show ?thesis by (simp add: do_io_interest_def)
qed

section \<open>Handles at work\<close>

definition threaded_resolving_os :: os where
  "threaded_resolving_os = resolving_os\<lparr>os_threaded := True\<rparr>"

lemma sample_answers: "all_answers resolving_os [''a:1'', ''b:2''] = [\<lparr>ai_addr = addr_of [10, 0, 0, 1], ai_addrlen = 16\<rparr>]"
  by (simp add: all_answers_def sample_hosts usable_def)

lemma threaded_resolves:
  "good_host (os_host threaded_resolving_os)" "steady_resolver threaded_resolving_os"
  "all_answers threaded_resolving_os [''a:1'', ''b:2''] = [\<lparr>ai_addr = addr_of [10, 0, 0, 1], ai_addrlen = 16\<rparr>]"
  "host_ok threaded_resolving_os ''a:1''" "host_ok threaded_resolving_os ''b:2''"
proof -
  have same: "host_answers threaded_resolving_os = host_answers resolving_os"
    by (rule ext) (simp add: host_answers_def get_addresses_def threaded_resolving_os_def split: option.split gai_result.split)
  have gh: "os_host threaded_resolving_os = os_host resolving_os" "os_getaddrinfo threaded_resolving_os = os_getaddrinfo resolving_os"
    by (simp_all add: threaded_resolving_os_def)
  show "good_host (os_host threaded_resolving_os)" "steady_resolver threaded_resolving_os"
    "all_answers threaded_resolving_os [''a:1'', ''b:2''] = [\<lparr>ai_addr = addr_of [10, 0, 0, 1], ai_addrlen = 16\<rparr>]"
    "host_ok threaded_resolving_os ''a:1''" "host_ok threaded_resolving_os ''b:2''"
    using resolving_os_ok sample_answers sample_hosts(4,5) by (simp_all add: gh steady_resolver_def all_answers_def host_ok_def same)
qed

lemma no_chroot: "good_chroot []"
  by (simp add: good_chroot_def)

lemma sample_handle:
  "\<exists>c. zookeeper_init_internal resolving_os True True (Some ''a:1,b:2'') 7 10000 None 0 0 test_client = Some (True, c)"
  "\<exists>c. zookeeper_init_internal threaded_resolving_os True True (Some ''a:1,b:2'') 7 10000 None 0 0 test_client = Some (True, c)"
  using zookeeper_init_ok [of resolving_os True "''a:1,b:2''" "[]" True 7 10000 None 0 0 test_client] resolving_os_ok sample_answers
    zookeeper_init_ok [of threaded_resolving_os True "''a:1,b:2''" "[]" True 7 10000 None 0 0 test_client] threaded_resolves sample_hosts
    no_chroot
  by (auto simp: zookeeper_init_def)

theorem unresolved_servers_undefined_witness: "do_io_interest test_os True test_client = None"
proof -
  let ?d = "test_client\<lparr>w_ticks := 1\<rparr>"
  have p: "split_port ''a:1'' = Some (''a'', ''1'')" "strtol ''1'' = (1, [])" "strtok [] ''a:1'' = [''a:1'']" "count_hosts (Some ''a:1'') = 1"
    by (simp_all add: split_port_def strtol_def is_space_def digit_value_def count_hosts_def)
  have h: "zh_hostname test_client = Some ''a:1''" "good_host (os_host test_os)" by (simp_all add: test_client_def works_host_test)
  have g: "get_addresses test_os host port n = (None, Suc n)" for host port n by (simp add: get_addresses_def test_os_def)
  have a: "addrvec_alloc_capacity (os_host test_os) (of_nat 1) = Some (0, \<lparr>av_next = 0, av_count = 0, av_capacity = 1, av_data = Some [ss_zero]\<rparr>)"
    using h(2) by (simp add: addrvec_alloc_capacity_def addrvec_grow_def addrvec_init_def realloc_data_def good_hostD Let_def)
  have r: "resolve_hosts test_os True (Some ''a:1'') (api_prolog ?d) = Some (ZSYSTEMERROR, addrvec_init, (api_prolog ?d)\<lparr>w_ticks := 2\<rparr>)"
    using a h(2) by (simp add: resolve_hosts_def p g api_prolog_simp good_hostD)
  have u: "update_addrs test_os True (api_prolog ?d) = Some (ZSYSTEMERROR, (api_prolog ?d)\<lparr>w_ticks := 2\<rparr>)"
    using r h by (simp add: update_addrs_def api_prolog_simp good_hostD)
  have "get_system_time test_os test_client = Some (\<lparr>tv_sec = 0, tv_usec = 0\<rparr>, ?d)" by (simp add: get_system_time_def test_os_def)
  with unresolved_servers_undefined [OF _ this u] show ?thesis by (simp add: open_handle_def api_prolog_simp)
qed

end
