(* ===== verification/Closing.thy ===== *)
theory Closing
  imports Threads
begin

text \<open>
  How the threads of the threaded library share a handle (\<^verbatim>\<open>src/mt_adaptor.c\<close>, \<^verbatim>\<open>zookeeper_close\<close> and \<^verbatim>\<open>api_epilog\<close> of
  \<^verbatim>\<open>src/zookeeper.c\<close>). A thread is the list of the actions that are still before it, and an action is one access to what decides
  about the end of the handle: the reference counter (\<^verbatim>\<open>fetch_and_add\<close> is atomic), the flag \<^verbatim>\<open>close_requested\<close>, the end of another
  thread, the memory of the handle. Actions of the three threads follow each other in any order. Everything the threads do between these
  accesses is the action \<open>Body\<close> (or \<open>Drop\<close>, \<open>Poll\<close>, \<open>Dispatch\<close>): it leaves the counter and the flag alone, as \<open>bodies_keep_life\<close>
  of \<open>Threads\<close> says, and may wake the completion thread by queueing a completion. The application calls \<^verbatim>\<open>zookeeper_close\<close> once, from a
  thread of its own or from a callback, and makes no other call while or after it does.
\<close>

section \<open>The threads\<close>

datatype action =
    Prolog | Epilog | Look
    \<comment> \<open>\<^verbatim>\<open>api_prolog\<close>, the decrement of \<^verbatim>\<open>api_epilog\<close>, its look at \<^verbatim>\<open>close_requested\<close> when no reference is left\<close>
  | Request | Take | Drop | Broadcast | Join thread | Free
    \<comment> \<open>\<^verbatim>\<open>zookeeper_close\<close>: the flag is set, the counter incremented; \<^verbatim>\<open>free_completions\<close>; \<^verbatim>\<open>pthread_cond_broadcast\<close> and \<^verbatim>\<open>pthread_join\<close>; the end\<close>
  | Io_test | Interest | Poll | Process | Io_check | Body
    \<comment> \<open>\<^verbatim>\<open>do_io\<close>: the condition of the loop, \<^verbatim>\<open>zookeeper_interest\<close>, \<^verbatim>\<open>poll\<close>, \<^verbatim>\<open>zookeeper_process\<close>, \<^verbatim>\<open>is_unrecoverable\<close>\<close>
  | Completion_test | Wait | Asleep | Dispatch
    \<comment> \<open>\<^verbatim>\<open>do_completion\<close>: the condition of the loop, that of the wait, \<^verbatim>\<open>pthread_cond_wait\<close>, \<^verbatim>\<open>process_completions\<close>\<close>
  | Log
    \<comment> \<open>the last line of a thread, which reads the handle for its callback when the log level is \<^verbatim>\<open>DEBUG\<close>\<close>

record threads =
  refs :: int
  requested :: bool
  freed :: bool
  prog :: "thread \<Rightarrow> action list"
  calls :: "thread \<Rightarrow> action list"
  caller :: "thread option"
  raced :: bool

text \<open>
  \<open>prog\<close> is what is left of \<^verbatim>\<open>do_io\<close> and \<^verbatim>\<open>do_completion\<close>; \<open>calls\<close> is what is left of the application's call of \<^verbatim>\<open>zookeeper_close\<close> in the
  thread \<open>caller\<close> that makes it, which comes first. \<open>raced\<close> records that the last reference was given back while the application was inside \<^verbatim>\<open>zookeeper_close\<close>,
  after it had set the flag and before it took its own reference.
\<close>

definition act :: "threads \<Rightarrow> thread \<Rightarrow> action option" where
  \<comment> \<open>the next action of a thread\<close>
  "act s t = (case calls s t of a # as \<Rightarrow> Some a | [] \<Rightarrow> (case prog s t of a # as \<Rightarrow> Some a | [] \<Rightarrow> None))"

definition cont :: "thread \<Rightarrow> action list \<Rightarrow> threads \<Rightarrow> threads" where
  \<comment> \<open>the next action is replaced by these\<close>
  "cont t as s = (if calls s t \<noteq> [] then s\<lparr>calls := (calls s)(t := as @ tl (calls s t))\<rparr> else s\<lparr>prog := (prog s)(t := as @ tl (prog s t))\<rparr>)"

definition wake :: "bool \<Rightarrow> threads \<Rightarrow> threads" where
  \<comment> \<open>the completion thread, if it sleeps, looks again whether it has to wait\<close>
  "wake b s = (if b \<and> prog s Completion_thread \<noteq> [] \<and> hd (prog s Completion_thread) = Asleep
     then s\<lparr>prog := (prog s)(Completion_thread := Wait # tl (prog s Completion_thread))\<rparr> else s)"

definition close_rest :: "action list" where
  \<comment> \<open>\<^verbatim>\<open>zookeeper_close\<close> with other users of the handle: \<^verbatim>\<open>free_completions\<close>, \<^verbatim>\<open>adaptor_finish\<close> between its two ends, \<^verbatim>\<open>api_epilog\<close>\<close>
  "close_rest = [Drop, Prolog, Join Io_thread, Broadcast, Join Completion_thread, Epilog, Epilog]"

definition io_turn :: "action list" where
  "io_turn = [Interest, Poll, Process, Io_check]"

definition completion_turn :: "action list" where
  "completion_turn = [Wait, Dispatch, Completion_test]"

inductive ref_step :: "threads \<Rightarrow> threads \<Rightarrow> bool" where
  prolog: "act s t = Some Prolog \<Longrightarrow> \<not> freed s \<Longrightarrow> ref_step s (cont t [] (s\<lparr>refs := refs s + 1\<rparr>))"
| epilog: "act s t = Some Epilog \<Longrightarrow> \<not> freed s \<Longrightarrow> ref_step s (cont t (if refs s - 1 = 0 then [Look] else [])
    (s\<lparr>refs := refs s - 1, raced := raced s \<or> (refs s - 1 = 0 \<and> (\<exists>u. u \<noteq> t \<and> act s u = Some Take))\<rparr>))"
| look: "act s t = Some Look \<Longrightarrow> \<not> freed s \<Longrightarrow> ref_step s (cont t (if requested s then [Request, Take] else []) s)"
| request: "act s t = Some Request \<Longrightarrow> \<not> freed s \<Longrightarrow> ref_step s (cont t [] (s\<lparr>requested := True\<rparr>))"
| take: "act s t = Some Take \<Longrightarrow> \<not> freed s \<Longrightarrow>
    ref_step s (cont t (if refs s + 1 > 1 then close_rest else [Free]) (s\<lparr>refs := refs s + 1\<rparr>))"
| drop: "act s t = Some Drop \<Longrightarrow> \<not> freed s \<Longrightarrow> ref_step s (wake b (cont t [] s))"
| join: "act s t = Some (Join u) \<Longrightarrow> \<not> freed s \<Longrightarrow> u = t \<or> prog s u = [] \<and> calls s u = [] \<Longrightarrow> ref_step s (cont t [] s)"
| broadcast: "act s t = Some Broadcast \<Longrightarrow> \<not> freed s \<Longrightarrow> ref_step s (wake (t \<noteq> Completion_thread) (cont t [] s))"
| free: "act s t = Some Free \<Longrightarrow> \<not> freed s \<Longrightarrow> ref_step s (cont t [] (s\<lparr>freed := True\<rparr>))"
| io_test: "act s t = Some Io_test \<Longrightarrow> \<not> freed s \<Longrightarrow> ref_step s (cont t (if requested s then [] else io_turn) s)"
| interest: "act s t = Some Interest \<Longrightarrow> \<not> freed s \<Longrightarrow> as = [] \<or> as = [Prolog, Body, Epilog] \<Longrightarrow> ref_step s (cont t as s)"
| poll: "act s t = Some Poll \<Longrightarrow> \<not> freed s \<Longrightarrow> ref_step s (cont t [] s)"
| process: "act s t = Some Process \<Longrightarrow> \<not> freed s \<Longrightarrow> as = [] \<or> as = [Prolog, Body, Epilog] \<Longrightarrow> ref_step s (cont t as s)"
| io_check: "act s t = Some Io_check \<Longrightarrow> \<not> freed s \<Longrightarrow> as = [] \<or> as = [Io_test] \<Longrightarrow> ref_step s (cont t as s)"
| body: "act s t = Some Body \<Longrightarrow> \<not> freed s \<Longrightarrow> ref_step s (wake b (cont t [] s))"
| completion_test: "act s t = Some Completion_test \<Longrightarrow> \<not> freed s \<Longrightarrow> ref_step s (cont t (if requested s then [] else completion_turn) s)"
| wait_over: "act s t = Some Wait \<Longrightarrow> \<not> freed s \<Longrightarrow> ref_step s (cont t [] s)"
| sleep: "act s t = Some Wait \<Longrightarrow> \<not> freed s \<Longrightarrow> \<not> requested s \<Longrightarrow> ref_step s (cont t [Asleep] s)"
| dispatch: "act s t = Some Dispatch \<Longrightarrow> \<not> freed s \<Longrightarrow> ref_step s (cont t [] s)"
| log: "act s t = Some Log \<Longrightarrow> ref_step s (cont t [] s)"
| close: "caller s = None \<Longrightarrow> \<not> freed s \<Longrightarrow>
    t = App_thread \<or> t = Completion_thread \<and> act s t = Some Dispatch \<or> t = Io_thread \<and> act s t = Some Body \<Longrightarrow>
    ref_step s (s\<lparr>caller := Some t, calls := (calls s)(t := [Request, Take])\<rparr>)"

text \<open>
  The two calls in \<^verbatim>\<open>do_io\<close> return without a reference when the session is unrecoverable, which also ends its loop. A callback runs in the completion
  thread; in the I/O thread only the application's log function does. \<^verbatim>\<open>pthread_join\<close> of a thread with itself is \<^verbatim>\<open>pthread_detach\<close>.
\<close>

definition started :: "client \<Rightarrow> threads" where
  \<comment> \<open>the two threads at the beginning of their loops\<close>
  "started c = \<lparr>refs = zh_ref_counter c, requested = zh_close_requested c, freed = w_freed c,
     prog = (\<lambda>t. case t of App_thread \<Rightarrow> [] | Io_thread \<Rightarrow> [Io_test, Epilog, Log] | Completion_thread \<Rightarrow> [Completion_test, Epilog, Log]),
     calls = (\<lambda>_. []), caller = None, raced = False\<rparr>"

inductive reachable :: "os \<Rightarrow> threads \<Rightarrow> bool" for E :: os where
  start: "zookeeper_init_internal E f p host watcher timeout clientid context flags w = Some (True, c) \<Longrightarrow> reachable E (started c)"
| step: "reachable E s \<Longrightarrow> ref_step s s' \<Longrightarrow> reachable E s'"

inductive_cases ref_stepE: "ref_step s s'"

definition able :: "thread \<Rightarrow> threads \<Rightarrow> bool" where
  \<comment> \<open>the thread can go on\<close>
  "able t s = (case act s t of None \<Rightarrow> False | Some a \<Rightarrow> if a = Log then True else \<not> freed s \<and> (case a of Asleep \<Rightarrow> False
     | Join u \<Rightarrow> u = t \<or> prog s u = [] \<and> calls s u = [] | _ \<Rightarrow> True))"

definition turn :: "thread \<Rightarrow> threads \<Rightarrow> threads" where
  \<comment> \<open>its next action; where the action leaves a choice, the calls of \<^verbatim>\<open>do_io\<close> take a reference, the loop goes on and nobody is woken\<close>
  "turn t s = (case act s t of None \<Rightarrow> s
     | Some Prolog \<Rightarrow> cont t [] (s\<lparr>refs := refs s + 1\<rparr>)
     | Some Epilog \<Rightarrow> cont t (if refs s - 1 = 0 then [Look] else [])
         (s\<lparr>refs := refs s - 1, raced := raced s \<or> (refs s - 1 = 0 \<and> (\<exists>u \<in> set [App_thread, Io_thread, Completion_thread]. u \<noteq> t \<and> act s u = Some Take))\<rparr>)
     | Some Look \<Rightarrow> cont t (if requested s then [Request, Take] else []) s
     | Some Request \<Rightarrow> cont t [] (s\<lparr>requested := True\<rparr>)
     | Some Take \<Rightarrow> cont t (if refs s + 1 > 1 then close_rest else [Free]) (s\<lparr>refs := refs s + 1\<rparr>)
     | Some Broadcast \<Rightarrow> wake (t \<noteq> Completion_thread) (cont t [] s)
     | Some Free \<Rightarrow> cont t [] (s\<lparr>freed := True\<rparr>)
     | Some Io_test \<Rightarrow> cont t (if requested s then [] else io_turn) s
     | Some Interest \<Rightarrow> cont t [Prolog, Body, Epilog] s
     | Some Process \<Rightarrow> cont t [Prolog, Body, Epilog] s
     | Some Io_check \<Rightarrow> cont t [Io_test] s
     | Some Completion_test \<Rightarrow> cont t (if requested s then [] else completion_turn) s
     | Some _ \<Rightarrow> cont t [] s)"

fun run_threads :: "thread list \<Rightarrow> threads \<Rightarrow> threads option" where
  \<comment> \<open>a schedule\<close>
  "run_threads [] s = Some s"
| "run_threads (t # ts) s = (if able t s then run_threads ts (turn t s) else None)"

section \<open>The invariant\<close>

definition held :: "action list \<Rightarrow> int" where
  \<comment> \<open>the references that a thread holds are those it is still going to give back, or to free\<close>
  "held as = int (count_list as Epilog) - int (count_list as Prolog) + int (count_list as Free)"

lemma held_simps [simp]: "held [] = 0" "held (a # as) = (if a = Epilog \<or> a = Free then 1 else if a = Prolog then - 1 else 0) + held as"
  by (auto simp: held_def)

definition ends :: "action list set" where
  "ends = {[], [Log]}"

definition io_progs :: "action list set" where
  "io_progs = {io_turn @ [Epilog, Log], [Prolog, Body, Epilog, Poll, Process, Io_check, Epilog, Log], [Body, Epilog, Poll, Process, Io_check, Epilog, Log],
     [Epilog, Poll, Process, Io_check, Epilog, Log], [Poll, Process, Io_check, Epilog, Log], [Process, Io_check, Epilog, Log],
     [Prolog, Body, Epilog, Io_check, Epilog, Log], [Body, Epilog, Io_check, Epilog, Log], [Epilog, Io_check, Epilog, Log],
     [Io_check, Epilog, Log], [Io_test, Epilog, Log], [Epilog, Log]}"

definition completion_progs :: "action list set" where
  "completion_progs = {[Completion_test, Epilog, Log], completion_turn @ [Epilog, Log], [Asleep, Dispatch, Completion_test, Epilog, Log],
     [Dispatch, Completion_test, Epilog, Log], [Epilog, Log]}"

definition close_progs :: "action list set" where
  "close_progs = {[Request, Take], [Take], close_rest, [Prolog, Join Io_thread, Broadcast, Join Completion_thread, Epilog, Epilog],
     [Join Io_thread, Broadcast, Join Completion_thread, Epilog, Epilog], [Broadcast, Join Completion_thread, Epilog, Epilog],
     [Join Completion_thread, Epilog, Epilog], [Epilog, Epilog], [Epilog]}"

definition past_io :: "action list set" where
  "past_io = {[Broadcast, Join Completion_thread, Epilog, Epilog], [Join Completion_thread, Epilog, Epilog], [Epilog, Epilog], [Epilog], []}"

definition past_broadcast :: "action list set" where
  "past_broadcast = {[Join Completion_thread, Epilog, Epilog], [Epilog, Epilog], [Epilog], []}"

definition past_completion :: "action list set" where
  "past_completion = {[Epilog, Epilog], [Epilog], []}"

definition asleep :: "threads \<Rightarrow> bool" where
  "asleep s \<longleftrightarrow> prog s Completion_thread = [Asleep, Dispatch, Completion_test, Epilog, Log]"

definition calling :: "threads \<Rightarrow> thread \<Rightarrow> bool" where
  \<comment> \<open>what holds while and after the thread \<open>u\<close> calls \<^verbatim>\<open>zookeeper_close\<close>\<close>
  "calling s u \<longleftrightarrow>
     (\<forall>t. t \<noteq> u \<longrightarrow> calls s t = []) \<and> (if calls s u = [] then u \<noteq> App_thread else calls s u \<in> close_progs) \<and>
     requested s = (calls s u \<noteq> [Request, Take]) \<and>
     (u \<noteq> Io_thread \<and> calls s u \<in> past_io \<longrightarrow> prog s Io_thread = []) \<and>
     (u \<noteq> Completion_thread \<and> calls s u \<in> past_completion \<longrightarrow> prog s Completion_thread = []) \<and>
     (u = Completion_thread \<or> calls s u \<in> past_broadcast \<longrightarrow> \<not> asleep s) \<and>
     (u = Io_thread \<and> calls s u \<noteq> [] \<longrightarrow> (\<exists>as. prog s Io_thread = Body # as)) \<and>
     (u = Completion_thread \<and> calls s u \<noteq> [] \<longrightarrow> prog s Completion_thread = [Dispatch, Completion_test, Epilog, Log])"

definition normal :: "threads \<Rightarrow> bool" where
  "normal s \<longleftrightarrow> \<not> freed s \<and> prog s App_thread = [] \<and> prog s Io_thread \<in> io_progs \<union> ends \<and> prog s Completion_thread \<in> completion_progs \<union> ends \<and>
     refs s = held (calls s App_thread) + held (calls s Io_thread) + held (calls s Completion_thread) + held (prog s Io_thread) +
       held (prog s Completion_thread) \<and> 0 < refs s \<and>
     (\<not> requested s \<longrightarrow> prog s Completion_thread \<in> completion_progs - {[Epilog, Log]}) \<and>
     (case caller s of None \<Rightarrow> \<not> requested s \<and> (\<forall>t. calls s t = []) | Some u \<Rightarrow> calling s u)"

definition dying :: "threads \<Rightarrow> bool" where
  \<comment> \<open>the thread that called \<^verbatim>\<open>zookeeper_close\<close> has given back the last reference and is about to free the handle\<close>
  "dying s \<longleftrightarrow> \<not> freed s \<and> requested s \<and> (\<exists>t as. caller s = Some t \<and> as \<in> {[Look], [Request, Take], [Take], [Free]} \<and>
     refs s = held as \<and>
     (if t = App_thread then calls s t = as \<and> prog s t = [] else calls s t = [] \<and> prog s t = as @ [Log]) \<and>
     (\<forall>u. u \<noteq> t \<longrightarrow> prog s u = [] \<and> calls s u = []))"

definition gone :: "threads \<Rightarrow> bool" where
  "gone s \<longleftrightarrow> freed s \<and> requested s \<and> (\<exists>t. caller s = Some t \<and> (\<forall>u. calls s u = []) \<and> (\<forall>u. u \<noteq> t \<longrightarrow> prog s u = []) \<and>
     (prog s t = [] \<or> t \<noteq> App_thread \<and> prog s t = [Log]))"

lemma all_threads: "(\<forall>t. P t) \<longleftrightarrow> P App_thread \<and> P Io_thread \<and> P Completion_thread" for P :: "thread \<Rightarrow> bool"
  by (metis thread.exhaust)

lemma held_progs: "as \<in> io_progs \<union> ends \<Longrightarrow> 0 \<le> held as" "bs \<in> completion_progs \<union> ends \<Longrightarrow> 0 \<le> held bs"
  by (auto simp: io_progs_def completion_progs_def ends_def io_turn_def completion_turn_def)

lemma normalD:
  assumes "normal s"
  shows "\<not> freed s" "prog s App_thread = []" "prog s Io_thread \<in> io_progs \<union> ends" "prog s Completion_thread \<in> completion_progs \<union> ends"
    "refs s = held (calls s App_thread) + held (calls s Io_thread) + held (calls s Completion_thread) + held (prog s Io_thread) +
       held (prog s Completion_thread)" "0 < refs s"
    "\<not> requested s \<Longrightarrow> prog s Completion_thread \<in> completion_progs - {[Epilog, Log]}"
    "caller s = None \<Longrightarrow> \<not> requested s" "caller s = None \<Longrightarrow> calls s t = []" "caller s = Some u \<Longrightarrow> calling s u"
  using assms unfolding normal_def by (fast | simp)+

lemma io_moves:
  assumes "normal s" and "calls s Io_thread = []" and "prog s Io_thread = a # as" and "bs \<in> io_progs \<union> ends"
    and "n = refs s + held bs - held (a # as)" and "0 < n"
  shows "normal (s\<lparr>refs := n, prog := (prog s)(Io_thread := bs)\<rparr>)"
proof -
  let ?s = "s\<lparr>refs := n, prog := (prog s)(Io_thread := bs)\<rparr>"
  note n = normalD [OF assms(1)]
  have "calling ?s u" if "calling s u" for u
    using that assms(2,3) unfolding calling_def asleep_def by (cases "calls s u = []") auto
  then have "case caller ?s of None \<Rightarrow> \<not> requested ?s \<and> (\<forall>t. calls ?s t = []) | Some u \<Rightarrow> calling ?s u"
    using n(8-10) by (simp split: option.split)
  then show ?thesis unfolding normal_def using n(1-7) assms(3-6) by simp
qed

lemma completion_moves:
  assumes "normal s" and "calls s Completion_thread = []" and "prog s Completion_thread = a # as" and "bs \<in> completion_progs \<union> ends"
    and "n = refs s + held bs - held (a # as)" and "0 < n" and "\<not> requested s \<Longrightarrow> bs \<in> completion_progs - {[Epilog, Log]}"
    and "bs = [Asleep, Dispatch, Completion_test, Epilog, Log] \<Longrightarrow> \<not> requested s"
  shows "normal (s\<lparr>refs := n, prog := (prog s)(Completion_thread := bs)\<rparr>)"
proof -
  let ?s = "s\<lparr>refs := n, prog := (prog s)(Completion_thread := bs)\<rparr>"
  note n = normalD [OF assms(1)]
  have "calling ?s u" if "calling s u" for u
  proof -
    have "\<not> requested s \<Longrightarrow> calls s u = [Request, Take] \<and> u \<noteq> Completion_thread" using that assms(2) unfolding calling_def by auto
    then have "u = Completion_thread \<or> calls s u \<in> past_broadcast \<Longrightarrow> bs \<noteq> [Asleep, Dispatch, Completion_test, Epilog, Log]"
      using assms(8) by (auto simp: past_broadcast_def)
    with that assms(2,3) show ?thesis unfolding calling_def asleep_def by (cases "calls s u = []") auto
  qed
  then have "case caller ?s of None \<Rightarrow> \<not> requested ?s \<and> (\<forall>t. calls ?s t = []) | Some u \<Rightarrow> calling ?s u"
    using n(8-10) by (simp split: option.split)
  then show ?thesis unfolding normal_def using n(1-6) assms(3-7) by simp
qed

lemma held_calls:
  assumes "calling s u"
  shows "held (calls s App_thread) + held (calls s Io_thread) + held (calls s Completion_thread) = held (calls s u)"
proof -
  have "\<And>t. t \<noteq> u \<Longrightarrow> calls s t = []" using assms by (simp add: calling_def)
  then show ?thesis by (cases u) simp_all
qed

lemma close_moves:
  assumes "normal s" and "caller s = Some u" and "calls s u = a # as" and "bs \<in> close_progs \<or> bs = [] \<and> u \<noteq> App_thread"
    and "n = refs s + held bs - held (a # as)" and "0 < n" and "r = (bs \<noteq> [Request, Take])" and "requested s \<Longrightarrow> r"
    and "u \<noteq> Io_thread \<Longrightarrow> bs \<in> past_io \<Longrightarrow> prog s Io_thread = []"
    and "u \<noteq> Completion_thread \<Longrightarrow> bs \<in> past_completion \<Longrightarrow> prog s Completion_thread = []"
    and "bs \<in> past_broadcast \<Longrightarrow> \<not> asleep s"
  shows "normal (s\<lparr>refs := n, requested := r, calls := (calls s)(u := bs)\<rparr>)"
proof -
  let ?s = "s\<lparr>refs := n, requested := r, calls := (calls s)(u := bs)\<rparr>"
  note n = normalD [OF assms(1)]
  have c: "calling s u" using n(10) assms(2) by simp
  have ne: "[] \<notin> close_progs" by (simp add: close_progs_def close_rest_def)
  have c': "calling ?s u"
    using c assms(3,4,7,9-11) ne unfolding calling_def asleep_def by auto
  have "refs ?s = held (calls ?s App_thread) + held (calls ?s Io_thread) + held (calls ?s Completion_thread) + held (prog ?s Io_thread) +
       held (prog ?s Completion_thread)"
    using held_calls [OF c'] held_calls [OF c] n(5) assms(3,5) by simp
  then show ?thesis unfolding normal_def using n(1-4,7) c' assms(2,6,8) by auto
qed

lemma asleep_head:
  assumes "normal s" and "prog s Completion_thread \<noteq> []" and "hd (prog s Completion_thread) = Asleep"
  shows "asleep s"
  using assms(2,3) normalD(4) [OF assms(1)] by (auto simp: asleep_def completion_progs_def completion_turn_def ends_def)

lemma wake_normal:
  assumes "normal s"
  shows "normal (wake b s)"
proof (cases "b \<and> asleep s")
  case False
  then have "wake b s = s" using asleep_head [OF assms] by (auto simp: wake_def)
  with assms show ?thesis by simp
next
  case True
  let ?as = "[Dispatch, Completion_test, Epilog, Log]"
  have "calls s Completion_thread = []" using True normalD(9) [OF assms] normalD(10) [OF assms]
    by (cases "caller s") (auto simp: calling_def asleep_def)
  moreover have "prog s Completion_thread = Asleep # ?as" using True by (simp add: asleep_def)
  moreover have "Wait # ?as \<in> completion_progs" by (simp add: completion_progs_def completion_turn_def)
  ultimately have "normal (s\<lparr>refs := refs s, prog := (prog s)(Completion_thread := Wait # ?as)\<rparr>)"
    using normalD(6) [OF assms] by (intro completion_moves [OF assms, of Asleep ?as]) auto
  then show ?thesis using True by (simp add: wake_def asleep_def)
qed

lemma cont_prog: "calls s t = [] \<Longrightarrow> prog s t = a # as \<Longrightarrow> cont t bs s = s\<lparr>prog := (prog s)(t := bs @ as)\<rparr>"
  by (simp add: cont_def)

lemma cont_calls: "calls s t = a # as \<Longrightarrow> cont t bs s = s\<lparr>calls := (calls s)(t := bs @ as)\<rparr>"
  by (simp add: cont_def)

lemma act_normal:
  assumes "normal s" and "act s t = Some a"
  obtains as where "t = Io_thread" "calls s Io_thread = []" "prog s Io_thread = a # as" "a # as \<in> io_progs \<union> ends"
  | as where "t = Completion_thread" "calls s Completion_thread = []" "prog s Completion_thread = a # as" "a # as \<in> completion_progs \<union> ends"
  | as where "caller s = Some t" "calls s t = a # as" "a # as \<in> close_progs" "calling s t"
proof (cases "calls s t")
  case Nil
  then obtain as where "prog s t = a # as" using assms(2) by (auto simp: act_def split: list.splits)
  with Nil that(1,2) normalD [OF assms(1)] show ?thesis by (cases t) auto
next
  case (Cons b as)
  then have b: "b = a" using assms(2) by (simp add: act_def)
  have "caller s \<noteq> None" using Cons normalD(9) [OF assms(1), of t] by force
  then obtain u where u: "caller s = Some u" by auto
  then have "calling s u" using normalD(10) [OF assms(1)] by simp
  moreover from this have "t = u" using Cons unfolding calling_def by (metis list.distinct(1))
  ultimately show ?thesis using that(3) Cons b u unfolding calling_def by auto
qed

lemma io_keeps:
  assumes "normal s" and "calls s Io_thread = []" and "prog s Io_thread = a # as" and "bs @ as \<in> io_progs \<union> ends" and "held (bs @ as) = held (a # as)"
  shows "normal (cont Io_thread bs s)"
  using io_moves [OF assms(1-4), of "refs s"] assms(5) normalD(6) [OF assms(1)] cont_prog [OF assms(2,3), of bs] by simp

lemma completion_keeps:
  assumes "normal s" and "calls s Completion_thread = []" and "prog s Completion_thread = a # as" and "bs @ as \<in> completion_progs \<union> ends"
    and "held (bs @ as) = held (a # as)" and "\<not> requested s \<Longrightarrow> bs @ as \<in> completion_progs - {[Epilog, Log]}"
    and "bs @ as = [Asleep, Dispatch, Completion_test, Epilog, Log] \<Longrightarrow> \<not> requested s"
  shows "normal (cont Completion_thread bs s)"
  using completion_moves [OF assms(1-4) _ _ assms(6,7), of "refs s"] assms(5) normalD(6) [OF assms(1)] cont_prog [OF assms(2,3), of bs] by simp

lemma closing_keeps:
  assumes "normal s" and "caller s = Some u" and "calls s u = a # as" and "as \<in> close_progs" and "held as = held (a # as)"
    and "requested s" and "as \<noteq> [Request, Take]"
    and "u \<noteq> Io_thread \<Longrightarrow> as \<in> past_io \<Longrightarrow> prog s Io_thread = []"
    and "u \<noteq> Completion_thread \<Longrightarrow> as \<in> past_completion \<Longrightarrow> prog s Completion_thread = []"
    and "as \<in> past_broadcast \<Longrightarrow> \<not> asleep s"
  shows "normal (cont u [] s)"
proof -
  have "normal (s\<lparr>refs := refs s, requested := requested s, calls := (calls s)(u := as)\<rparr>)"
    using assms normalD(6) [OF assms(1)] by (intro close_moves [OF assms(1-3)]) simp_all
  then show ?thesis using cont_calls [OF assms(3), of "[]"] by simp
qed

lemmas io_shapes = io_progs_def ends_def io_turn_def
lemmas completion_shapes = completion_progs_def ends_def completion_turn_def
lemmas close_shapes = close_progs_def close_rest_def past_io_def past_broadcast_def past_completion_def

lemma io_next:
  "Prolog # as \<in> io_progs \<union> ends \<Longrightarrow> as \<in> io_progs"
  "Epilog # as \<in> io_progs \<union> ends \<Longrightarrow> as = [Log] \<or> as \<in> io_progs"
  "a \<in> {Poll, Body, Interest, Process, Io_check} \<Longrightarrow> a # as \<in> io_progs \<union> ends \<Longrightarrow> as \<in> io_progs"
  "a \<in> {Interest, Process} \<Longrightarrow> a # as \<in> io_progs \<union> ends \<Longrightarrow> Prolog # Body # Epilog # as \<in> io_progs"
  "a \<in> {Io_test, Io_check} \<Longrightarrow> a # as \<in> io_progs \<union> ends \<Longrightarrow> as = [Epilog, Log]"
  "Log # as \<in> io_progs \<union> ends \<Longrightarrow> as = []"
  "a # as \<in> io_progs \<union> ends \<Longrightarrow> a \<in> {Prolog, Epilog, Io_test, Interest, Poll, Process, Io_check, Body, Log}"
  by (auto simp: io_shapes)

lemma completion_next:
  "Epilog # as \<in> completion_progs \<union> ends \<Longrightarrow> as = [Log]"
  "Completion_test # as \<in> completion_progs \<union> ends \<Longrightarrow> as = [Epilog, Log]"
  "Wait # as \<in> completion_progs \<union> ends \<Longrightarrow> as = [Dispatch, Completion_test, Epilog, Log]"
  "Dispatch # as \<in> completion_progs \<union> ends \<Longrightarrow> as = [Completion_test, Epilog, Log]"
  "Log # as \<in> completion_progs \<union> ends \<Longrightarrow> as = []"
  "a # as \<in> completion_progs \<union> ends \<Longrightarrow> a \<in> {Epilog, Completion_test, Wait, Asleep, Dispatch, Log}"
  by (auto simp: completion_shapes)

lemma close_next:
  "Request # as \<in> close_progs \<Longrightarrow> as = [Take]"
  "Take # as \<in> close_progs \<Longrightarrow> as = []"
  "Drop # as \<in> close_progs \<Longrightarrow> as = [Prolog, Join Io_thread, Broadcast, Join Completion_thread, Epilog, Epilog]"
  "Prolog # as \<in> close_progs \<Longrightarrow> as = [Join Io_thread, Broadcast, Join Completion_thread, Epilog, Epilog]"
  "Join v # as \<in> close_progs \<Longrightarrow> v = Io_thread \<and> as = [Broadcast, Join Completion_thread, Epilog, Epilog] \<or>
     v = Completion_thread \<and> as = [Epilog, Epilog]"
  "Broadcast # as \<in> close_progs \<Longrightarrow> as = [Join Completion_thread, Epilog, Epilog]"
  "Epilog # as \<in> close_progs \<Longrightarrow> as = [Epilog] \<or> as = []"
  "a # as \<in> close_progs \<Longrightarrow> a \<in> {Request, Take, Drop, Prolog, Join Io_thread, Broadcast, Join Completion_thread, Epilog}"
  by (auto simp: close_shapes)

lemma calling_requested: "calling s t \<Longrightarrow> requested s = (calls s t \<noteq> [Request, Take])"
  by (simp add: calling_def)

lemma refs_plus_one: "0 < refs s \<Longrightarrow> 0 < refs s + 1" for s :: threads
  by simp

lemma normal_prolog:
  assumes "normal s" and "act s t = Some Prolog"
  shows "normal (cont t [] (s\<lparr>refs := refs s + 1\<rparr>))"
  using assms
proof (cases rule: act_normal)
  case (1 as)
  have "normal (s\<lparr>refs := refs s + 1, prog := (prog s)(Io_thread := as)\<rparr>)"
    by (rule io_moves [OF assms(1) 1(2,3)]) (use io_next(1) [OF 1(4)] refs_plus_one [OF normalD(6) [OF assms(1)]] in simp_all)
  then show ?thesis using cont_prog [of "s\<lparr>refs := refs s + 1\<rparr>" t Prolog as "[]"] 1(1-3) by simp
next
  case (2 as)
  from completion_next(6) [OF 2(4)] show ?thesis by simp
next
  case (3 as)
  have as: "as = [Join Io_thread, Broadcast, Join Completion_thread, Epilog, Epilog]" by (rule close_next(4) [OF 3(3)])
  have "requested s" using calling_requested [OF 3(4)] 3(2) by simp
  then have "normal (s\<lparr>refs := refs s + 1, requested := requested s, calls := (calls s)(t := as)\<rparr>)"
    by (intro close_moves [OF assms(1) 3(1,2)]) (use as refs_plus_one [OF normalD(6) [OF assms(1)]] in \<open>simp_all add: close_shapes\<close>)
  then show ?thesis using cont_calls [of "s\<lparr>refs := refs s + 1\<rparr>" t Prolog as "[]"] 3(2) by simp
qed

lemma io_only:
  assumes "normal s" and "act s t = Some a" and "a \<in> {Io_test, Interest, Poll, Process, Io_check, Body}"
  obtains as where "t = Io_thread" "calls s Io_thread = []" "prog s Io_thread = a # as" "a # as \<in> io_progs \<union> ends"
  using assms(1,2)
  by (cases rule: act_normal) (use that assms(3) completion_next(6) [of a] close_next(8) [of a] in \<open>fast | force\<close>)+

lemma completion_only:
  assumes "normal s" and "act s t = Some a" and "a \<in> {Completion_test, Wait, Dispatch}"
  obtains as where "t = Completion_thread" "calls s Completion_thread = []" "prog s Completion_thread = a # as" "a # as \<in> completion_progs \<union> ends"
  using assms(1,2)
  by (cases rule: act_normal) (use that assms(3) io_next(7) [of a] close_next(8) [of a] in \<open>fast | force\<close>)+

lemma close_only:
  assumes "normal s" and "act s t = Some a" and "a \<in> {Request, Take, Drop, Broadcast} \<or> (\<exists>v. a = Join v)"
  obtains as where "caller s = Some t" "calls s t = a # as" "a # as \<in> close_progs" "calling s t"
  using assms(1,2)
  by (cases rule: act_normal) (use that assms(3) io_next(7) [of a] completion_next(6) [of a] in \<open>fast | force\<close>)+

lemma io_nexts:
  "a # as \<in> io_progs \<union> ends \<Longrightarrow> a = Poll \<or> a = Body \<Longrightarrow> [] @ as \<in> io_progs \<and> held ([] @ as) = held as"
  "a # as \<in> io_progs \<union> ends \<Longrightarrow> a = Io_test \<Longrightarrow> (if r then [] else io_turn) @ as \<in> io_progs \<and> held ((if r then [] else io_turn) @ as) = held as"
  "a # as \<in> io_progs \<union> ends \<Longrightarrow> a = Interest \<or> a = Process \<Longrightarrow> bs = [] \<or> bs = [Prolog, Body, Epilog] \<Longrightarrow>
     bs @ as \<in> io_progs \<and> held (bs @ as) = held as"
  "a # as \<in> io_progs \<union> ends \<Longrightarrow> a = Io_check \<Longrightarrow> bs = [] \<or> bs = [Io_test] \<Longrightarrow> bs @ as \<in> io_progs \<and> held (bs @ as) = held as"
  by (auto simp: io_shapes)

lemma normal_io:
  assumes "normal s" and "act s t = Some a"
  shows "a = Poll \<or> a = Body \<Longrightarrow> normal (cont t [] s)"
    and "a = Io_test \<Longrightarrow> normal (cont t (if requested s then [] else io_turn) s)"
    and "a = Interest \<or> a = Process \<Longrightarrow> bs = [] \<or> bs = [Prolog, Body, Epilog] \<Longrightarrow> normal (cont t bs s)"
    and "a = Io_check \<Longrightarrow> bs = [] \<or> bs = [Io_test] \<Longrightarrow> normal (cont t bs s)"
proof -
  have *: "normal (cont t bs s)" if ac: "a \<in> {Io_test, Interest, Poll, Process, Io_check, Body}"
      and nx: "\<And>as. a # as \<in> io_progs \<union> ends \<Longrightarrow> bs @ as \<in> io_progs \<and> held (bs @ as) = held as" for bs
  proof -
    obtain as where as: "t = Io_thread" "calls s Io_thread = []" "prog s Io_thread = a # as" "a # as \<in> io_progs \<union> ends"
      by (rule io_only [OF assms ac])
    have "held (bs @ as) = held (a # as)" using ac nx [OF as(4)] by auto
    then show ?thesis unfolding as(1) using nx [OF as(4)] by (intro io_keeps [OF assms(1) as(2,3)]) simp_all
  qed
  show "a = Poll \<or> a = Body \<Longrightarrow> normal (cont t [] s)" by (rule *, fast, rule io_nexts(1))
  show "a = Io_test \<Longrightarrow> normal (cont t (if requested s then [] else io_turn) s)" by (rule *, fast, rule io_nexts(2))
  show "a = Interest \<or> a = Process \<Longrightarrow> bs = [] \<or> bs = [Prolog, Body, Epilog] \<Longrightarrow> normal (cont t bs s)"
    by (rule *, fast, rule io_nexts(3))
  show "a = Io_check \<Longrightarrow> bs = [] \<or> bs = [Io_test] \<Longrightarrow> normal (cont t bs s)" by (rule *, fast, rule io_nexts(4))
qed

lemma completion_nexts:
  "a # as \<in> completion_progs \<union> ends \<Longrightarrow> a = Wait \<or> a = Dispatch \<Longrightarrow> [] @ as \<in> completion_progs \<and> held ([] @ as) = held as \<and> (\<not> r \<longrightarrow> [] @ as \<noteq> [Epilog, Log]) \<and>
     (r \<longrightarrow> [] @ as \<noteq> [Asleep, Dispatch, Completion_test, Epilog, Log])"
  "a # as \<in> completion_progs \<union> ends \<Longrightarrow> a = Completion_test \<Longrightarrow> (if r then [] else completion_turn) @ as \<in> completion_progs \<and> held ((if r then [] else completion_turn) @ as) = held as \<and> (\<not> r \<longrightarrow> (if r then [] else completion_turn) @ as \<noteq> [Epilog, Log]) \<and>
     (r \<longrightarrow> (if r then [] else completion_turn) @ as \<noteq> [Asleep, Dispatch, Completion_test, Epilog, Log])"
  "a # as \<in> completion_progs \<union> ends \<Longrightarrow> a = Wait \<Longrightarrow> \<not> r \<Longrightarrow> [Asleep] @ as \<in> completion_progs \<and> held ([Asleep] @ as) = held as \<and> (\<not> r \<longrightarrow> [Asleep] @ as \<noteq> [Epilog, Log]) \<and>
     (r \<longrightarrow> [Asleep] @ as \<noteq> [Asleep, Dispatch, Completion_test, Epilog, Log])"
  by (auto simp: completion_shapes)

lemma normal_completion:
  assumes "normal s" and "act s t = Some a"
  shows "a = Wait \<or> a = Dispatch \<Longrightarrow> normal (cont t [] s)"
    and "a = Completion_test \<Longrightarrow> normal (cont t (if requested s then [] else completion_turn) s)"
    and "a = Wait \<Longrightarrow> \<not> requested s \<Longrightarrow> normal (cont t [Asleep] s)"
proof -
  have *: "normal (cont t bs s)" if ac: "a \<in> {Completion_test, Wait, Dispatch}"
      and nx: "\<And>as. a # as \<in> completion_progs \<union> ends \<Longrightarrow> bs @ as \<in> completion_progs \<and> held (bs @ as) = held as \<and> (\<not> requested s \<longrightarrow> bs @ as \<noteq> [Epilog, Log]) \<and>
        (requested s \<longrightarrow> bs @ as \<noteq> [Asleep, Dispatch, Completion_test, Epilog, Log])" for bs
  proof -
    obtain as where as: "t = Completion_thread" "calls s Completion_thread = []" "prog s Completion_thread = a # as" "a # as \<in> completion_progs \<union> ends"
      by (rule completion_only [OF assms ac])
    have "held (bs @ as) = held (a # as)" using ac nx [OF as(4)] by auto
    then show ?thesis unfolding as(1) using nx [OF as(4)] by (intro completion_keeps [OF assms(1) as(2,3)]) auto
  qed
  show "a = Wait \<or> a = Dispatch \<Longrightarrow> normal (cont t [] s)" by (rule *, fast, rule completion_nexts(1))
  show "a = Completion_test \<Longrightarrow> normal (cont t (if requested s then [] else completion_turn) s)" by (rule *, fast, rule completion_nexts(2))
  show "a = Wait \<Longrightarrow> \<not> requested s \<Longrightarrow> normal (cont t [Asleep] s)" by (rule *, fast, rule completion_nexts(3))
qed

lemma normal_log:
  assumes "normal s" and "act s t = Some Log"
  shows "normal (cont t [] s)"
  using assms
proof (cases rule: act_normal)
  case (1 as)
  have "as = []" by (rule io_next(6) [OF 1(4)])
  then show ?thesis unfolding 1(1) by (intro io_keeps [OF assms(1) 1(2,3)]) (simp_all add: ends_def)
next
  case (2 as)
  have as: "as = []" by (rule completion_next(5) [OF 2(4)])
  then have "requested s" using normalD(7) [OF assms(1)] 2(3) by (auto simp: completion_shapes)
  with as show ?thesis unfolding 2(1) by (intro completion_keeps [OF assms(1) 2(2,3)]) (simp_all add: ends_def)
next
  case (3 as)
  from close_next(8) [OF 3(3)] show ?thesis by simp
qed

lemma normal_request:
  assumes "normal s" and "act s t = Some Request"
  shows "normal (cont t [] (s\<lparr>requested := True\<rparr>))"
proof -
  obtain as where as: "caller s = Some t" "calls s t = Request # as" "Request # as \<in> close_progs" "calling s t"
    by (rule close_only [OF assms]) simp
  have "normal (s\<lparr>refs := refs s, requested := True, calls := (calls s)(t := as)\<rparr>)"
    by (rule close_moves [OF assms(1) as(1,2)])
      (use close_next(1) [OF as(3)] normalD(6) [OF assms(1)] in \<open>simp_all add: close_shapes\<close>)
  then show ?thesis using as(2) by (simp add: cont_def)
qed

lemma normal_take:
  assumes "normal s" and "act s t = Some Take"
  shows "normal (cont t (if refs s + 1 > 1 then close_rest else [Free]) (s\<lparr>refs := refs s + 1\<rparr>))"
proof -
  obtain as where as: "caller s = Some t" "calls s t = Take # as" "Take # as \<in> close_progs" "calling s t"
    by (rule close_only [OF assms]) simp
  note n = normalD(6) [OF assms(1)]
  have "requested s" using calling_requested [OF as(4)] as(2) by simp
  then have "normal (s\<lparr>refs := refs s + 1, requested := requested s, calls := (calls s)(t := close_rest)\<rparr>)"
    by (intro close_moves [OF assms(1) as(1,2)])
      (use close_next(2) [OF as(3)] refs_plus_one [OF n] in \<open>simp_all add: close_shapes\<close>)
  then show ?thesis using as(2) n close_next(2) [OF as(3)] by (simp add: cont_def)
qed

lemma normal_drop:
  assumes "normal s" and "act s t = Some Drop"
  shows "normal (cont t [] s)"
proof -
  obtain as where as: "caller s = Some t" "calls s t = Drop # as" "Drop # as \<in> close_progs" "calling s t"
    by (rule close_only [OF assms]) simp
  have "requested s" using calling_requested [OF as(4)] as(2) by simp
  then show ?thesis
    by (intro closing_keeps [OF assms(1) as(1,2)]) (use close_next(3) [OF as(3)] in \<open>simp_all add: close_shapes\<close>)
qed

lemma normal_join:
  assumes "normal s" and "act s t = Some (Join u)" and "u = t \<or> prog s u = [] \<and> calls s u = []"
  shows "normal (cont t [] s)"
proof -
  obtain as where as: "caller s = Some t" "calls s t = Join u # as" "Join u # as \<in> close_progs" "calling s t"
    by (rule close_only [OF assms(1,2)]) simp
  have r: "requested s" using calling_requested [OF as(4)] as(2) by simp
  from close_next(5) [OF as(3)] show ?thesis
  proof
    assume j: "u = Io_thread \<and> as = [Broadcast, Join Completion_thread, Epilog, Epilog]"
    then show ?thesis using r assms(3) by (intro closing_keeps [OF assms(1) as(1,2)]) (auto simp: close_shapes)
  next
    assume j: "u = Completion_thread \<and> as = [Epilog, Epilog]"
    then have "t \<noteq> Io_thread \<Longrightarrow> prog s Io_thread = []" "\<not> asleep s" using as(2,4) by (simp_all add: calling_def close_shapes)
    then show ?thesis using r assms(3) j by (intro closing_keeps [OF assms(1) as(1,2)]) (auto simp: close_shapes)
  qed
qed

lemma normal_broadcast:
  assumes "normal s" and "act s t = Some Broadcast"
  shows "normal (wake (t \<noteq> Completion_thread) (cont t [] s))"
proof -
  obtain as where as: "caller s = Some t" "calls s t = Broadcast # as" "Broadcast # as \<in> close_progs" "calling s t"
    by (rule close_only [OF assms]) simp
  let ?w = "wake (t \<noteq> Completion_thread) s"
  have w: "caller ?w = caller s" "calls ?w = calls s" "requested ?w = requested s" "prog ?w Io_thread = prog s Io_thread"
    by (simp_all add: wake_def)
  have na: "\<not> asleep ?w"
  proof (cases "t = Completion_thread")
    case True
    then have "\<not> asleep s" using as(4) by (simp add: calling_def)
    then show ?thesis using True by (simp add: wake_def)
  qed (auto simp: wake_def asleep_def)
  have "wake (t \<noteq> Completion_thread) (cont t [] s) = cont t [] ?w" using as(2)
    by (cases "t = Completion_thread") (simp_all add: wake_def cont_def)
  moreover have "normal (cont t [] ?w)"
  proof (rule closing_keeps [where a = Broadcast and as = as, OF wake_normal [OF assms(1)]])
    show "t \<noteq> Io_thread \<Longrightarrow> as \<in> past_io \<Longrightarrow> prog ?w Io_thread = []" using as(2,4) w(4) close_next(6) [OF as(3)]
      by (simp add: calling_def close_shapes)
  qed (use as w na close_next(6) [OF as(3)] calling_requested [OF as(4)] in \<open>simp_all add: close_shapes\<close>)
  ultimately show ?thesis by simp
qed


lemma held_parts:
  assumes "normal s"
  shows "0 \<le> held (calls s t)" "0 \<le> held (prog s t)"
proof -
  have "0 \<le> held as" if "as \<in> close_progs" for as using that by (auto simp: close_shapes)
  moreover have "calls s t = [] \<or> calls s t \<in> close_progs"
  proof (cases "caller s")
    case None
    then show ?thesis using normalD(9) [OF assms, of t] by simp
  next
    case (Some u)
    then have "calling s u" using normalD(10) [OF assms] by simp
    then show ?thesis unfolding calling_def by metis
  qed
  ultimately show "0 \<le> held (calls s t)" by auto
  show "0 \<le> held (prog s t)" using held_progs normalD(2-4) [OF assms] by (cases t) auto
qed

lemma nothing_held:
  "as \<in> io_progs \<union> ends \<Longrightarrow> held as \<le> 0 \<Longrightarrow> as \<in> ends"
  "as \<in> io_progs \<Longrightarrow> 1 \<le> held as"
  "Body # as \<in> io_progs \<union> ends \<Longrightarrow> 2 \<le> held (Body # as)"
  "as \<in> completion_progs \<union> ends \<Longrightarrow> held as \<le> 0 \<Longrightarrow> as \<in> ends"
  "as \<in> close_progs \<Longrightarrow> held as \<le> 0 \<Longrightarrow> as = [Request, Take] \<or> as = [Take]"
  by (auto simp: io_shapes completion_shapes close_shapes)

lemma raced_irrelevant [simp]: "normal (s\<lparr>raced := r\<rparr>) = normal s"
  by (cases "caller s") (simp_all add: normal_def calling_def asleep_def)

lemma last_reference:
  \<comment> \<open>a thread of the library gives back the last reference only after the other one, and after the call of \<^verbatim>\<open>zookeeper_close\<close> has begun\<close>
  assumes "normal s" and "t = Io_thread \<or> t = Completion_thread" and "calls s t = []" and "prog s t = Epilog # as" and "refs s = 1"
  shows "as = [Log]" and "requested s" and "(\<exists>u. u \<noteq> t \<and> act s u = Some Take) \<or> caller s = Some t \<and> (\<forall>u. u \<noteq> t \<longrightarrow> prog s u = [] \<and> calls s u = [])"
proof -
  note n = normalD [OF assms(1)] and h = held_parts [OF assms(1)]
  define v where "v = (if t = Io_thread then Completion_thread else Io_thread)"
    have sum: "held (calls s App_thread) + held (calls s Io_thread) + held (calls s Completion_thread) + held as + held (prog s v) = 0"
    using n(5) assms(2,4,5) by (auto simp: v_def)
  have as: "as = [Log]"
  proof (cases "t = Io_thread")
    case True
    then have "as \<in> io_progs \<Longrightarrow> False" using sum nothing_held(2) [of as] h(1) [of App_thread] h(1) [of Io_thread] h(1) [of Completion_thread] h(2) [of v] by simp
    then show ?thesis using True n(3) io_next(2) [of as] assms(4) by auto
  next
    case False
    then show ?thesis using assms(2,4) n(4) completion_next(1) [of as] by simp
  qed
  then show "as = [Log]" .
  have c0: "held (calls s u) \<le> 0" for u using sum as h(1) [of App_thread] h(1) [of Io_thread] h(1) [of Completion_thread] h(2) [of v]
    by (cases u) simp_all
  have "held (prog s v) \<le> 0" using sum as h(1) [of App_thread] h(1) [of Io_thread] h(1) [of Completion_thread] by simp
  then have e: "prog s v \<in> ends" using nothing_held(1) [OF n(3)] nothing_held(4) [OF n(4)] by (auto simp: v_def)
  show r: "requested s"
  proof (rule ccontr)
    assume "\<not> requested s"
    then have "prog s Completion_thread \<in> completion_progs - {[Epilog, Log]}" by (rule n(7))
    moreover have "prog s Completion_thread \<in> ends \<or> prog s Completion_thread = [Epilog, Log]" using e as assms(2,4) by (auto simp: v_def split: if_splits)
    ultimately show False by (auto simp: completion_shapes)
  qed
  then obtain u where u: "caller s = Some u" using n(8) by fast
  then have c: "calling s u" using n(10) by simp
  show "(\<exists>u. u \<noteq> t \<and> act s u = Some Take) \<or> caller s = Some t \<and> (\<forall>u. u \<noteq> t \<longrightarrow> prog s u = [] \<and> calls s u = [])"
  proof (cases "calls s u = []")
    case False
    then have "calls s u \<in> close_progs" using c by (simp add: calling_def)
    then have "calls s u = [Take]" using nothing_held(5) c0 [of u] calling_requested [OF c] r by metis
    moreover have "u \<noteq> t" using False assms(3) by auto
    ultimately show ?thesis by (auto simp: act_def)
  next
    case True
    have past: "[] \<in> past_io" "[] \<in> past_completion" by (simp_all add: close_shapes)
    have ua: "u \<noteq> App_thread" using c True by (simp add: calling_def)
    have pi: "u \<noteq> Io_thread \<Longrightarrow> prog s Io_thread = []" using c True past(1) unfolding calling_def by simp
    have pc: "u \<noteq> Completion_thread \<Longrightarrow> prog s Completion_thread = []" using c True past(2) unfolding calling_def by simp
    have ut: "u = t" using pi pc assms(2,4) by (cases "u = t") auto
    have "calls s v = []" if "v \<noteq> t" for v using that c ut unfolding calling_def by simp
    moreover have "prog s v = []" if "v \<noteq> t" for v using that pi pc n(2) ut assms(2) by (cases v) auto
    ultimately show ?thesis using u ut by simp
  qed
qed

lemma normal_epilog_own:
  assumes "normal s" and "t = Io_thread \<or> t = Completion_thread" and "calls s t = []" and "prog s t = Epilog # as"
    and "s' = cont t (if refs s - 1 = 0 then [Look] else [])
      (s\<lparr>refs := refs s - 1, raced := raced s \<or> (refs s - 1 = 0 \<and> (\<exists>u. u \<noteq> t \<and> act s u = Some Take))\<rparr>)"
  shows "raced s' \<or> normal s' \<or> dying s'"
proof (cases "refs s = 1")
  case True
  note l = last_reference [OF assms(1-4) True]
  from l(3) show ?thesis
  proof
    assume "\<exists>u. u \<noteq> t \<and> act s u = Some Take"
    then show ?thesis using True assms(3-5) by (simp add: cont_def)
  next
    assume o: "caller s = Some t \<and> (\<forall>u. u \<noteq> t \<longrightarrow> prog s u = [] \<and> calls s u = [])"
    have "dying s'" unfolding dying_def
      by (rule conjI, use assms(3-5) normalD(1) [OF assms(1)] in \<open>simp add: cont_def\<close>,
          rule conjI, use assms(3-5) l(2) in \<open>simp add: cont_def\<close>, rule exI [of _ t], rule exI [of _ "[Look]"])
        (use assms(2-5) l(1) o True in \<open>auto simp: cont_def\<close>)
    then show ?thesis by simp
  qed
next
  case False
  then have p: "0 < refs s - 1" using normalD(6) [OF assms(1)] by simp
  have "normal (s\<lparr>refs := refs s - 1, prog := (prog s)(t := as)\<rparr>)"
  proof (cases "t = Io_thread")
    case True
    then have "as \<in> io_progs \<union> ends" using io_next(2) [of as] normalD(3) [OF assms(1)] assms(4) by (auto simp: ends_def)
    then show ?thesis unfolding True using True assms(3,4) p by (intro io_moves [OF assms(1), of Epilog as]) simp_all
  next
    case c: False
    then have t: "t = Completion_thread" using assms(2) by simp
    have as: "as = [Log]" using completion_next(1) [of as] normalD(4) [OF assms(1)] assms(4) t by simp
    have r: "requested s" using normalD(7) [OF assms(1)] as assms(4) t by (auto simp: completion_shapes)
    show ?thesis unfolding t using t assms(3,4) p as r by (intro completion_moves [OF assms(1), of Epilog as]) (simp_all add: ends_def)
  qed
  then have "normal ((s\<lparr>refs := refs s - 1, prog := (prog s)(t := as)\<rparr>)\<lparr>raced := raced s\<rparr>)" by (simp only: raced_irrelevant)
  moreover have "s' = (s\<lparr>refs := refs s - 1, prog := (prog s)(t := as)\<rparr>)\<lparr>raced := raced s\<rparr>"
    using assms(3-5) False by (simp add: cont_def)
  ultimately show ?thesis by simp
qed


lemma normal_epilog_call:
  assumes "normal s" and "caller s = Some t" and "calls s t = Epilog # as" and "Epilog # as \<in> close_progs" and "calling s t"
    and "s' = cont t (if refs s - 1 = 0 then [Look] else [])
      (s\<lparr>refs := refs s - 1, raced := raced s \<or> (refs s - 1 = 0 \<and> (\<exists>u. u \<noteq> t \<and> act s u = Some Take))\<rparr>)"
  shows "normal s' \<or> dying s'"
proof -
  note n = normalD [OF assms(1)]
  have past: "Epilog # as \<in> past_io" "Epilog # as \<in> past_completion" "Epilog # as \<in> past_broadcast"
    using close_next(7) [OF assms(4)] by (auto simp: close_shapes)
  have io: "t \<noteq> Io_thread \<Longrightarrow> prog s Io_thread = []" and co: "t \<noteq> Completion_thread \<Longrightarrow> prog s Completion_thread = []" and na: "\<not> asleep s"
    using assms(3,5) past unfolding calling_def by simp_all
  have r: "requested s" using calling_requested [OF assms(5)] assms(3) by simp
  have own: "1 \<le> held (prog s t)" if "t \<noteq> App_thread"
  proof (cases t)
    case App_thread
    with that show ?thesis by simp
  next
    case Io_thread
    then obtain bs where "prog s Io_thread = Body # bs" using assms(3,5) by (auto simp: calling_def)
    then show ?thesis using nothing_held(3) [of bs] n(3) Io_thread by simp
  next
    case Completion_thread
    then show ?thesis using assms(3,5) by (simp add: calling_def)
  qed
  have sum: "refs s = held (Epilog # as) + held (prog s t)"
    using n(2,5) held_calls [OF assms(5)] assms(3) io co by (cases t) simp_all
  show ?thesis
  proof (cases "refs s = 1")
    case True
    then have t: "t = App_thread" using own sum close_next(7) [OF assms(4)] by fastforce
    then have "held as = 0" using True sum n(2) by simp
    then have as: "as = []" using close_next(7) [OF assms(4)] by auto
    have oc: "u \<noteq> App_thread \<Longrightarrow> calls s u = []" for u using assms(5) t by (simp add: calling_def)
    have op: "u \<noteq> App_thread \<Longrightarrow> prog s u = []" for u using io co t by (cases u) simp_all
    have "dying s'" unfolding dying_def
      by (rule conjI, use assms(3,6) n(1) in \<open>simp add: cont_def\<close>,
          rule conjI, use assms(3,6) r in \<open>simp add: cont_def\<close>, rule exI [of _ t], rule exI [of _ "[Look]"])
        (use assms(2,3,6) t as oc op n(2) True in \<open>simp add: cont_def\<close>)
    then show ?thesis by simp
  next
    case False
    then have p: "0 < refs s - 1" using n(6) by simp
    have b: "as \<in> close_progs \<or> as = [] \<and> t \<noteq> App_thread"
    proof (cases "as = []")
      case True
      then have "t = App_thread \<Longrightarrow> refs s = 1" using sum n(2) by simp
      then show ?thesis using True False by auto
    qed (use close_next(7) [OF assms(4)] in \<open>auto simp: close_shapes\<close>)
    have "as \<noteq> [Request, Take]" using close_next(7) [OF assms(4)] by auto
    then have "normal (s\<lparr>refs := refs s - 1, requested := requested s, calls := (calls s)(t := as)\<rparr>)"
      using p r io co na by (intro close_moves [OF assms(1-3) b]) simp_all
    then have "normal ((s\<lparr>refs := refs s - 1, calls := (calls s)(t := as)\<rparr>)\<lparr>raced := raced s\<rparr>)" by (simp only: raced_irrelevant) simp
    moreover have "s' = (s\<lparr>refs := refs s - 1, calls := (calls s)(t := as)\<rparr>)\<lparr>raced := raced s\<rparr>"
      using assms(3,6) False by (simp add: cont_def)
    ultimately show ?thesis by simp
  qed
qed

lemma normal_epilog:
  assumes "normal s" and "act s t = Some Epilog"
    and "s' = cont t (if refs s - 1 = 0 then [Look] else [])
      (s\<lparr>refs := refs s - 1, raced := raced s \<or> (refs s - 1 = 0 \<and> (\<exists>u. u \<noteq> t \<and> act s u = Some Take))\<rparr>)"
  shows "raced s' \<or> normal s' \<or> dying s'"
  using assms(1,2)
proof (cases rule: act_normal)
  case (1 as)
  show ?thesis by (rule normal_epilog_own [OF assms(1) _ _ _ assms(3), of as]) (use 1 in simp_all)
next
  case (2 as)
  show ?thesis by (rule normal_epilog_own [OF assms(1) _ _ _ assms(3), of as]) (use 2 in simp_all)
next
  case (3 as)
  then show ?thesis using normal_epilog_call [OF assms(1) 3 assms(3)] by simp
qed

lemma normal_close:
  assumes "normal s" and "caller s = None"
    and "t = App_thread \<or> t = Completion_thread \<and> act s t = Some Dispatch \<or> t = Io_thread \<and> act s t = Some Body"
  shows "normal (s\<lparr>caller := Some t, calls := (calls s)(t := [Request, Take])\<rparr>)"
proof -
  let ?s = "s\<lparr>caller := Some t, calls := (calls s)(t := [Request, Take])\<rparr>"
  note n = normalD [OF assms(1)]
  have e: "calls s u = []" for u using n(9) assms(2) by simp
  have b: "t = Io_thread \<Longrightarrow> \<exists>as. prog s Io_thread = Body # as" using assms(3) e by (auto simp: act_def split: list.splits)
  have d: "t = Completion_thread \<Longrightarrow> prog s Completion_thread = [Dispatch, Completion_test, Epilog, Log]"
    using assms(3) e n(4) completion_next(4) by (auto simp: act_def split: list.splits)
  have c: "calling ?s t"
    unfolding calling_def using n(8) [OF assms(2)] e b d by (auto simp: close_shapes asleep_def)
  have "refs ?s = held (calls ?s App_thread) + held (calls ?s Io_thread) + held (calls ?s Completion_thread) + held (prog ?s Io_thread) +
       held (prog ?s Completion_thread)" using n(5) e by (cases t) simp_all
  then show ?thesis unfolding normal_def using n(1-4,6,7) c by simp
qed

lemma no_look: "normal s \<Longrightarrow> act s t \<noteq> Some Look" "normal s \<Longrightarrow> act s t \<noteq> Some Free"
proof -
  show "act s t \<noteq> Some Look" if "normal s"
  proof
    assume "act s t = Some Look"
    with that show False by (cases rule: act_normal) (use io_next(7) completion_next(6) close_next(8) in fastforce)+
  qed
  show "act s t \<noteq> Some Free" if "normal s"
  proof
    assume "act s t = Some Free"
    with that show False by (cases rule: act_normal) (use io_next(7) completion_next(6) close_next(8) in fastforce)+
  qed
qed

lemma normal_step:
  assumes "ref_step s s'" and "normal s"
  shows "raced s' \<or> normal s' \<or> dying s'"
  using assms(1)
proof cases
  case (epilog t)
  show ?thesis by (rule normal_epilog [OF assms(2) epilog(2,1)])
next
  case (look t)
  then show ?thesis using no_look(1) [OF assms(2)] by simp
next
  case (free t)
  then show ?thesis using no_look(2) [OF assms(2)] by simp
next
  case (prolog t)
  then show ?thesis using normal_prolog [OF assms(2) prolog(2)] by simp
next
  case (request t)
  then show ?thesis using normal_request [OF assms(2) request(2)] by simp
next
  case (take t)
  then show ?thesis using normal_take [OF assms(2) take(2)] by simp
next
  case (drop t b)
  then show ?thesis using wake_normal [OF normal_drop [OF assms(2) drop(2)]] by simp
next
  case (join t u)
  then show ?thesis using normal_join [OF assms(2) join(2,4)] by simp
next
  case (broadcast t)
  then show ?thesis using normal_broadcast [OF assms(2) broadcast(2)] by simp
next
  case (io_test t)
  then show ?thesis using normal_io(2) [OF assms(2) io_test(2)] by simp
next
  case (interest t as)
  then show ?thesis using normal_io(3) [OF assms(2) interest(2)] by simp
next
  case (poll t)
  then show ?thesis using normal_io(1) [OF assms(2) poll(2)] by simp
next
  case (process t as)
  then show ?thesis using normal_io(3) [OF assms(2) process(2)] by simp
next
  case (io_check t as)
  then show ?thesis using normal_io(4) [OF assms(2) io_check(2)] by simp
next
  case (body t b)
  then show ?thesis using wake_normal [OF normal_io(1) [OF assms(2) body(2)]] by simp
next
  case (completion_test t)
  then show ?thesis using normal_completion(2) [OF assms(2) completion_test(2)] by simp
next
  case (wait_over t)
  then show ?thesis using normal_completion(1) [OF assms(2) wait_over(2)] by simp
next
  case (sleep t)
  then show ?thesis using normal_completion(3) [OF assms(2) sleep(2)] by simp
next
  case (dispatch t)
  then show ?thesis using normal_completion(1) [OF assms(2) dispatch(2)] by simp
next
  case (log t)
  then show ?thesis using normal_log [OF assms(2) log(2)] by simp
next
  case (close t)
  then show ?thesis using normal_close [OF assms(2) close(2,4)] by simp
qed


lemma dying_acts:
  assumes "dying s"
  obtains t as where "caller s = Some t" "as \<in> {[Look], [Request, Take], [Take], [Free]}" "refs s = held as" "\<not> freed s" "requested s"
    "\<And>bs. cont t bs s = (if t = App_thread then s\<lparr>calls := (calls s)(t := bs @ tl as)\<rparr> else s\<lparr>prog := (prog s)(t := bs @ tl as @ [Log])\<rparr>)"
    "act s t = Some (hd as)" "\<And>u. u \<noteq> t \<Longrightarrow> act s u = None"
    "if t = App_thread then calls s t = as \<and> prog s t = [] else calls s t = [] \<and> prog s t = as @ [Log]"
    "\<And>u. u \<noteq> t \<Longrightarrow> prog s u = [] \<and> calls s u = []"
proof -
  obtain t as where d: "caller s = Some t" "as \<in> {[Look], [Request, Take], [Take], [Free]}" "refs s = held as" "\<not> freed s" "requested s"
    "if t = App_thread then calls s t = as \<and> prog s t = [] else calls s t = [] \<and> prog s t = as @ [Log]"
    "\<And>u. u \<noteq> t \<Longrightarrow> prog s u = [] \<and> calls s u = []"
    using assms unfolding dying_def by blast
  show thesis by (rule that [OF d(1-5) _ _ _ d(6,7)]) (use d(2,6,7) in \<open>auto simp: cont_def act_def split: if_splits\<close>)
qed

lemma dying_intro:
  assumes "caller s = Some t" and "as \<in> {[Look], [Request, Take], [Take], [Free]}" and "refs s = held as" and "\<not> freed s" and "requested s"
    and "if t = App_thread then calls s t = as \<and> prog s t = [] else calls s t = [] \<and> prog s t = as @ [Log]"
    and "\<And>u. u \<noteq> t \<Longrightarrow> prog s u = [] \<and> calls s u = []"
  shows "dying s"
  unfolding dying_def using assms by blast

lemma cont_update: "cont t bs (s\<lparr>refs := n\<rparr>) = (cont t bs s)\<lparr>refs := n\<rparr>" "cont t bs (s\<lparr>requested := r\<rparr>) = (cont t bs s)\<lparr>requested := r\<rparr>"
  "cont t bs (s\<lparr>freed := r\<rparr>) = (cont t bs s)\<lparr>freed := r\<rparr>"
  by (simp_all add: cont_def)

lemma dying_step:
  assumes "ref_step s s'" and "dying s"
  shows "dying s' \<or> gone s'"
  using assms(2)
proof (cases rule: dying_acts)
  case (1 t as)
  have u: "u = t" "a = hd as" if "act s u = Some a" for u a using that 1(7) 1(8) [of u] by (cases "u = t"; simp)+
  have a: "as = [Look] \<or> as = [Request, Take] \<or> as = [Take] \<or> as = [Free]" using 1(2) by simp
  have only: "b \<in> {Look, Request, Take, Free}" if "act s v = Some b" for v b using u [OF that] a by auto
  have go: "dying ((cont t bs s)\<lparr>refs := held (bs @ tl as)\<rparr>)" if "bs @ tl as \<in> {[Look], [Request, Take], [Take], [Free]}" for bs
    by (rule dying_intro [of _ t "bs @ tl as"]) (use that 1(1,4,5,9,10) 1(6) [of bs] in \<open>auto split: if_splits\<close>)
  show ?thesis using assms(1)
  proof cases
    case (look v)
    then have e: "as = [Look]" "v = t" using u [of v] a by auto
    have "dying ((cont t [Request, Take] s)\<lparr>refs := 0\<rparr>)" using go [of "[Request, Take]"] e by simp
    moreover have "s' = (cont t [Request, Take] s)\<lparr>refs := 0\<rparr>" using look e 1(3,5) by (simp add: cont_def)
    ultimately show ?thesis by simp
  next
    case (request v)
    then have e: "as = [Request, Take]" "v = t" using u [of v] a by auto
    have "dying ((cont t [] s)\<lparr>refs := 0\<rparr>)" using go [of "[]"] e by simp
    moreover have "s' = (cont t [] s)\<lparr>refs := 0\<rparr>" using request e 1(3,5) by (simp add: cont_def)
    ultimately show ?thesis by simp
  next
    case (take v)
    then have e: "as = [Take]" "v = t" using u [of v] a by auto
    have "dying ((cont t [Free] s)\<lparr>refs := 1\<rparr>)" using go [of "[Free]"] e by simp
    moreover have "s' = (cont t [Free] s)\<lparr>refs := 1\<rparr>" using take e 1(3,5) by (simp add: cont_def)
    ultimately show ?thesis by simp
  next
    case (free v)
    then have e: "as = [Free]" "v = t" using u [of v] a by auto
    have c: "calls s' w = []" for w using free(1) e 1(9) 1(10) [of w] by (cases "w = t") (auto simp: cont_update(3) 1(6) split: if_splits)
    have "gone s'" unfolding gone_def
      using c free(1) e 1(1,5,9,10) by (auto simp: cont_update(3) 1(6) split: if_splits)
    then show ?thesis by simp
  next
    case (close v)
    then show ?thesis using 1(1) by simp
  qed (blast dest: only)+
qed

lemma gone_step:
  assumes "ref_step s s'" and "gone s"
  shows "gone s'" and "\<exists>t. act s t = Some Log \<and> s' = cont t [] s"
proof -
  have f: "freed s" "requested s" using assms(2) by (simp_all add: gone_def)
  have l: "\<exists>t. act s t = Some Log \<and> s' = cont t [] s" using assms(1) f(1) by cases auto
  then show "\<exists>t. act s t = Some Log \<and> s' = cont t [] s" .
  from l obtain t where t: "act s t = Some Log" "s' = cont t [] s" by auto
  obtain u where u: "caller s = Some u" "\<And>v. calls s v = []" "\<And>v. v \<noteq> u \<Longrightarrow> prog s v = []" "prog s u = [] \<or> u \<noteq> App_thread \<and> prog s u = [Log]"
    using assms(2) by (auto simp: gone_def)
  have "t = u" "prog s u = [Log]" using t(1) u(2,3) [of t] u(4) by (cases "t = u"; force simp: act_def split: list.splits)+
  then show "gone s'" using t(2) u f by (auto simp: gone_def cont_def)
qed

lemma raced_step: "ref_step s s' \<Longrightarrow> raced s \<Longrightarrow> raced s'"
  by (cases rule: ref_step.cases, assumption) (auto simp: cont_def wake_def)

lemma started_normal:
  assumes "zh_ref_counter c = 2" and "\<not> zh_close_requested c" and "\<not> w_freed c"
  shows "normal (started c)"
  using assms by (simp add: normal_def started_def io_shapes completion_shapes)


lemma held_append: "held (as @ bs) = held as + held bs"
  by (simp add: held_def)

lemma reachable_invariant:
  assumes "reachable E s" and "os_threaded E"
  shows "raced s \<or> normal s \<or> dying s \<or> gone s"
  using assms(1)
proof induction
  case (start f p host watcher timeout clientid ctx flags w c)
  then have "life c = (2, False, False, False)" by (rule init_life [OF assms(2)])
  then show ?case using started_normal [of c] by (simp add: life_def)
next
  case (step s s')
  then show ?case using raced_step [of s s'] normal_step [of s s'] dying_step [of s s'] gone_step(1) [of s s'] by fast
qed

text \<open>
  (C20) The handle outlives its threads. This is about every interleaving of the three threads, whoever calls \<^verbatim>\<open>zookeeper_close\<close> (the
  application, a callback in the completion thread or the log function in the I/O thread), and whether or not the I/O thread has ended by
  itself before. As long as the handle is not freed, the counter is the number of references that the threads still have to give back. Once
  it is freed, no thread has an action left, except that when the call came from a thread of the library the log line that ends this
  thread is still to come, after the memory it reads is gone. The states \<open>raced\<close> are excluded: there the last reference was given back between the
  two lines of \<^verbatim>\<open>zookeeper_close\<close> that set the flag and take a reference.
\<close>

theorem handle_outlives_threads:
  assumes "reachable E s" and "os_threaded E" and "\<not> raced s"
  shows "if freed s then \<exists>t. caller s = Some t \<and> (\<forall>u. calls s u = [] \<and> (prog s u = [] \<or> u = t \<and> t \<noteq> App_thread \<and> prog s u = [Log]))
    else refs s = (\<Sum>t\<leftarrow>[App_thread, Io_thread, Completion_thread]. held (calls s t) + held (prog s t))"
proof -
  from reachable_invariant [OF assms(1,2)] assms(3) consider "normal s" | "dying s" | "gone s" by fast
  then show ?thesis
  proof cases
    case 1
    then show ?thesis using normalD(1,2,5) [OF 1] by simp
  next
    case 2
    then show ?thesis
    proof (cases rule: dying_acts)
      case (1 t as)
      then show ?thesis by (cases t) (simp_all add: 1(3) held_append)
    qed
  next
    case 3
    then show ?thesis unfolding gone_def by metis
  qed
qed


section \<open>Schedules\<close>

lemma some_thread: "(\<exists>u. P u) \<longleftrightarrow> (\<exists>u \<in> set [App_thread, Io_thread, Completion_thread]. P u)" for P :: "thread \<Rightarrow> bool"
  by (metis list.set_intros thread.exhaust)

lemma wake_nobody: "wake False s = s"
  by (simp add: wake_def)

lemma able_step:
  assumes "able t s"
  shows "ref_step s (turn t s)"
proof -
  obtain a where a: "act s t = Some a" using assms by (auto simp: able_def split: option.splits)
  note st = ref_step.drop [where b = False, unfolded wake_nobody] ref_step.body [where b = False, unfolded wake_nobody]
  have f: "a \<noteq> Log \<Longrightarrow> \<not> freed s" "a \<noteq> Asleep" "a = Join u \<Longrightarrow> u = t \<or> prog s u = [] \<and> calls s u = []" for u
    using assms a by (auto simp: able_def split: if_splits)
  show ?thesis
    using a f ref_step.epilog [of s t] ref_step.look [of s t] ref_step.take [of s t] ref_step.io_test [of s t] ref_step.completion_test [of s t]
    by (cases a) (auto simp: turn_def some_thread [symmetric] simp del: list.set intro: st ref_step.intros)
qed

lemma run_steps: "run_threads ts s = Some s' \<Longrightarrow> (ref_step ^^ length ts) s s'"
proof (induction ts arbitrary: s)
  case (Cons t ts)
  then have "ref_step s (turn t s)" "(ref_step ^^ length ts) (turn t s) s'" using able_step by (auto split: if_splits)
  then show ?case using relpowp_Suc_I2 [of ref_step s "turn t s" "length ts" s'] by simp
qed simp

lemma steps_reachable: "(ref_step ^^ n) s s' \<Longrightarrow> reachable E s \<Longrightarrow> reachable E s'"
  by (induction n arbitrary: s') (auto intro: reachable.step)

lemmas run_reachable = steps_reachable [OF run_steps]

lemma normal_able:
  \<comment> \<open>after the flag is set, somebody can always go on\<close>
  assumes "normal s" and "requested s"
  shows "\<exists>t. able t s"
proof -
  note n = normalD [OF assms(1)]
  obtain u where u: "caller s = Some u" using n(8) assms(2) by fast
  then have c: "calling s u" using n(10) by simp
  have oc: "t \<noteq> u \<Longrightarrow> calls s t = []" for t using c unfolding calling_def by simp
  have io: "able Io_thread s" if "calls s Io_thread = []" "prog s Io_thread \<noteq> []"
  proof -
    from that(2) obtain a as where a: "prog s Io_thread = a # as" by (cases "prog s Io_thread") auto
    then have "a \<in> {Prolog, Epilog, Io_test, Interest, Poll, Process, Io_check, Body, Log}" using io_next(7) [of a as] n(3) by simp
    then show ?thesis using that(1) a n(1) by (auto simp: able_def act_def)
  qed
  have co: "able Completion_thread s" if "calls s Completion_thread = []" "prog s Completion_thread \<noteq> []" "\<not> asleep s"
  proof -
    from that(2) obtain a as where a: "prog s Completion_thread = a # as" by (cases "prog s Completion_thread") auto
    then have "a \<in> {Epilog, Completion_test, Wait, Asleep, Dispatch, Log}" using completion_next(6) [of a as] n(4) by simp
    moreover have "a \<noteq> Asleep" using that(3) asleep_head [OF assms(1)] a by auto
    ultimately show ?thesis using that(1) a n(1) by (auto simp: able_def act_def)
  qed
  show ?thesis
  proof (cases "calls s u")
    case Nil
    have past: "[] \<in> past_io" "[] \<in> past_completion" "[] \<in> past_broadcast" by (simp_all add: close_shapes)
    have ua: "u \<noteq> App_thread" and na: "\<not> asleep s" and pi: "u \<noteq> Io_thread \<Longrightarrow> prog s Io_thread = []"
      and pc: "u \<noteq> Completion_thread \<Longrightarrow> prog s Completion_thread = []"
      using c Nil past unfolding calling_def by simp_all
    have e: "calls s t = []" for t using oc Nil by (cases "t = u") auto
    have "prog s Io_thread \<noteq> [] \<or> prog s Completion_thread \<noteq> []" using n(5,6) e by auto
    then show ?thesis using io co e na by blast
  next
    case (Cons a as)
    then have cp: "a # as \<in> close_progs" using c by (simp add: calling_def)
    have act: "act s u = Some a" using Cons by (simp add: act_def)
    show ?thesis
    proof (cases "able u s")
      case False
      then obtain v where v: "a = Join v" "u \<noteq> v" "prog s v \<noteq> [] \<or> calls s v \<noteq> []"
        using act n(1) close_next(8) [OF cp] by (auto simp: able_def)
      then have p: "prog s v \<noteq> []" "calls s v = []" using oc [of v] by auto
      from close_next(5) [OF cp [unfolded v(1)]] show ?thesis
      proof
        assume "v = Io_thread \<and> as = [Broadcast, Join Completion_thread, Epilog, Epilog]"
        then show ?thesis using p io by blast
      next
        assume j: "v = Completion_thread \<and> as = [Epilog, Epilog]"
        then have "calls s u \<in> past_broadcast" using Cons v(1) by (simp add: close_shapes)
        then have "\<not> asleep s" using c unfolding calling_def by simp
        then show ?thesis using p j co by blast
      qed
    qed blast
  qed
qed

lemma dying_able:
  assumes "dying s"
  shows "\<exists>t. able t s"
  using assms
proof (cases rule: dying_acts)
  case (1 t as)
  then show ?thesis by (intro exI [of _ t]) (auto simp: able_def)
qed

lemma gone_over:
  assumes "gone s" and "\<nexists>s'. ref_step s s'"
  shows "freed s" "calls s t = []" "prog s t = []"
proof -
  obtain u where u: "caller s = Some u" "\<And>v. calls s v = []" "\<And>v. v \<noteq> u \<Longrightarrow> prog s v = []" "prog s u = [] \<or> u \<noteq> App_thread \<and> prog s u = [Log]"
    using assms(1) by (auto simp: gone_def)
  have "prog s u \<noteq> [Log]"
  proof
    assume "prog s u = [Log]"
    then have "able u s" using u(2) by (simp add: able_def act_def)
    then show False using able_step assms(2) by blast
  qed
  then show "freed s" "calls s t = []" "prog s t = []" using assms(1) u(2-4) by (cases "t = u"; simp add: gone_def)+
qed

section \<open>How long a close takes\<close>

fun cost :: "bool \<Rightarrow> action \<Rightarrow> nat" where
  \<comment> \<open>a bound on the actions that this one can still cause; \<open>z\<close>: no reference is left\<close>
  "cost z Epilog = 5" | "cost z Look = 4" | "cost z Take = (if z then 2 else 16)" | "cost z Interest = 8" | "cost z Process = 8"
| "cost z Io_check = 2" | "cost z Asleep = 3" | "cost z Wait = 2" | "cost z _ = 1"

definition costs :: "bool \<Rightarrow> action list \<Rightarrow> nat" where
  "costs z as = sum_list (map (cost z) as)"

definition weight :: "bool \<Rightarrow> threads \<Rightarrow> nat" where
  "weight z s = (\<Sum>t\<leftarrow>[App_thread, Io_thread, Completion_thread]. costs z (calls s t) + costs z (prog s t))"

lemma costs_simps [simp]: "costs z [] = 0" "costs z (a # as) = cost z a + costs z as" "costs z (as @ bs) = costs z as + costs z bs"
  by (simp_all add: costs_def)

lemma cont_weight: "act s t = Some a \<Longrightarrow> weight z (cont t bs s) + cost z a = weight z s + costs z bs"
  by (cases t; cases "calls s t"; cases "prog s t") (simp_all add: weight_def cont_def act_def)

lemma wake_weight: "weight z (wake b s) \<le> weight z s"
  by (cases "prog s Completion_thread") (auto simp: wake_def weight_def)

lemma cost_mono: "cost True a \<le> cost False a"
  by (cases a) simp_all

lemma weight_mono: "weight True s \<le> weight False s"
proof -
  have "costs True as \<le> costs False as" for as by (induction as) (simp_all add: add_mono cost_mono)
  then show ?thesis by (simp add: weight_def add_mono)
qed

lemma weight_update [simp]: "weight z (s\<lparr>refs := n\<rparr>) = weight z s" "weight z (s\<lparr>requested := r\<rparr>) = weight z s"
  "weight z (s\<lparr>freed := r\<rparr>) = weight z s" "weight z (s\<lparr>raced := r\<rparr>) = weight z s"
  by (simp_all add: weight_def)

lemma act_update [simp]: "act (s\<lparr>refs := n\<rparr>) = act s" "act (s\<lparr>requested := r\<rparr>) = act s" "act (s\<lparr>freed := r\<rparr>) = act s" "act (s\<lparr>raced := r\<rparr>) = act s"
  by (simp_all add: act_def fun_eq_iff split: list.split)


definition rank :: "threads \<Rightarrow> nat" where
  "rank s = weight (refs s = 0) s"

lemma rank_le: "rank s \<le> weight False s"
  using weight_mono [of s] by (cases "refs s = 0") (simp_all add: rank_def)

lemma normal_rank:
  assumes "ref_step s s'" and "normal s" and "requested s"
  shows "rank s' < rank s"
proof -
  have z: "rank s = weight False s" using normalD(6) [OF assms(2)] by (simp add: rank_def)
  note cw = cont_weight [where z = False]
  have "weight False s' < weight False s"
    using assms(1)
  proof cases
    case (epilog t)
    then show ?thesis using cw [of "s\<lparr>refs := refs s - 1, raced := raced s \<or> (refs s - 1 = 0 \<and> (\<exists>u. u \<noteq> t \<and> act s u = Some Take))\<rparr>" t Epilog
        "if refs s - 1 = 0 then [Look] else []"] by (simp split: if_splits)
  next
    case (look t)
    then show ?thesis using no_look(1) [OF assms(2)] by simp
  next
    case (prolog t)
    then show ?thesis using cw [of "s\<lparr>refs := refs s + 1\<rparr>" t Prolog "[]"] by simp
  next
    case (request t)
    then show ?thesis using cw [of "s\<lparr>requested := True\<rparr>" t Request "[]"] by simp
  next
    case (take t)
    then show ?thesis using cw [of "s\<lparr>refs := refs s + 1\<rparr>" t Take close_rest] normalD(6) [OF assms(2)] by (simp add: close_rest_def)
  next
    case (drop t b)
    then show ?thesis using cw [of s t Drop "[]"] wake_weight [of False b "cont t [] s"] by simp
  next
    case (body t b)
    then show ?thesis using cw [of s t Body "[]"] wake_weight [of False b "cont t [] s"] by simp
  next
    case (broadcast t)
    then show ?thesis using cw [of s t Broadcast "[]"] wake_weight [of False "t \<noteq> Completion_thread" "cont t [] s"] by simp
  next
    case (free t)
    then show ?thesis using cw [of "s\<lparr>freed := True\<rparr>" t Free "[]"] by simp
  next
    case (join t u)
    then show ?thesis using cw [of s t "Join u" "[]"] by simp
  next
    case (io_test t)
    then show ?thesis using cw [of s t Io_test "[]"] assms(3) by simp
  next
    case (interest t as)
    then show ?thesis using cw [of s t Interest as] by auto
  next
    case (poll t)
    then show ?thesis using cw [of s t Poll "[]"] by simp
  next
    case (process t as)
    then show ?thesis using cw [of s t Process as] by auto
  next
    case (io_check t as)
    then show ?thesis using cw [of s t Io_check as] by auto
  next
    case (completion_test t)
    then show ?thesis using cw [of s t Completion_test "[]"] assms(3) by simp
  next
    case (wait_over t)
    then show ?thesis using cw [of s t Wait "[]"] by simp
  next
    case (dispatch t)
    then show ?thesis using cw [of s t Dispatch "[]"] by simp
  next
    case (log t)
    then show ?thesis using cw [of s t Log "[]"] by simp
  next
    case (close t)
    then show ?thesis using normalD(8) [OF assms(2)] assms(3) by simp
  qed (use assms(3) in simp)
  then show ?thesis using rank_le [of s'] z by simp
qed

lemma dying_weight:
  assumes "if t = App_thread then calls s t = as \<and> prog s t = [] else calls s t = [] \<and> prog s t = as @ [Log]"
    and "\<And>u. u \<noteq> t \<Longrightarrow> prog s u = [] \<and> calls s u = []"
  shows "weight z s = costs z as + (if t = App_thread then 0 else 1)"
  using assms by (cases t) (simp_all add: weight_def)

lemma dying_rank:
  assumes "ref_step s s'" and "dying s"
  shows "rank s' < rank s"
  using assms(2)
proof (cases rule: dying_acts)
  case (1 t as)
  have u: "u = t" "a = hd as" if "act s u = Some a" for u a using that 1(7) 1(8) [of u] by (cases "u = t"; simp)+
  have a: "as = [Look] \<or> as = [Request, Take] \<or> as = [Take] \<or> as = [Free]" using 1(2) by simp
  have only: "b \<in> {Look, Request, Take, Free}" if "act s v = Some b" for v b using u [OF that] a by auto
  have w: "weight z s = costs z as + (if t = App_thread then 0 else 1)" for z by (rule dying_weight [OF 1(9,10)])
  note cw = cont_weight [OF 1(7)]
  show ?thesis using assms(1)
  proof cases
    case (look v)
    then have e: "as = [Look]" "v = t" using u [of v] a by auto
    have "refs s' = 0" using look(1) e 1(3) by (simp add: cont_def)
    then show ?thesis using look(1) e 1(3,5) cw [of True "[Request, Take]"] by (simp add: rank_def)
  next
    case (request v)
    then have e: "as = [Request, Take]" "v = t" using u [of v] a by auto
    have "refs s' = 0" using request(1) e 1(3) by (simp add: cont_def)
    then show ?thesis using request(1) e 1(3) cw [of True "[]"] by (simp add: rank_def cont_update)
  next
    case (take v)
    then have e: "as = [Take]" "v = t" using u [of v] a by auto
    have "refs s' = 1" using take(1) e 1(3) by (simp add: cont_def)
    then show ?thesis using take(1) e 1(3) cw [of False "[Free]"] w [of False] w [of True] by (simp add: rank_def cont_update)
  next
    case (free v)
    then have e: "as = [Free]" "v = t" using u [of v] a by auto
    have "refs s' = 1" using free(1) e 1(3) by (simp add: cont_def)
    then show ?thesis using free(1) e 1(3) cw [of False "[]"] by (simp add: rank_def cont_update)
  next
    case (close v)
    then show ?thesis using 1(1) by simp
  qed (blast dest: only)+
qed

lemma gone_rank:
  assumes "ref_step s s'" and "gone s"
  shows "rank s' < rank s"
proof -
  obtain t where t: "act s t = Some Log" "s' = cont t [] s" using gone_step(2) [OF assms] by blast
  then have "refs s' = refs s" by (simp add: cont_def)
  then show ?thesis using t cont_weight [OF t(1), of "refs s = 0" "[]"] by (simp add: rank_def)
qed

lemma requested_step: "ref_step s s' \<Longrightarrow> requested s \<Longrightarrow> requested s'"
  by (cases rule: ref_step.cases, assumption) (auto simp: cont_def wake_def)

definition fated :: "threads \<Rightarrow> bool" where
  "fated s \<longleftrightarrow> normal s \<or> dying s \<or> gone s"

lemma steps_rank:
  assumes "(ref_step ^^ n) s s'" and "fated s" and "requested s" and "\<not> raced s'"
  shows "n + rank s' \<le> rank s" and "fated s'" and "requested s'"
proof -
  have "n + rank s' \<le> rank s \<and> fated s' \<and> requested s'" using assms(1,4)
  proof (induction n arbitrary: s')
    case 0
    then show ?case using assms(2,3) by simp
  next
    case (Suc n)
    then obtain r where r: "(ref_step ^^ n) s r" "ref_step r s'" by auto
    then have "\<not> raced r" using Suc.prems(2) raced_step by blast
    then have i: "n + rank r \<le> rank s" "fated r" "requested r" using Suc.IH [OF r(1)] by simp_all
    then have "rank s' < rank r" using normal_rank [OF r(2)] dying_rank [OF r(2)] gone_rank [OF r(2)] by (auto simp: fated_def)
    moreover have "fated s'" using i(2) normal_step [OF r(2)] dying_step [OF r(2)] gone_step(1) [OF r(2)] Suc.prems(2) unfolding fated_def by blast
    ultimately show ?case using i(1) requested_step [OF r(2) i(3)] by simp
  qed
  then show "n + rank s' \<le> rank s" and "fated s'" and "requested s'" by simp_all
qed

lemma costs_bounds:
  "as \<in> io_progs \<union> ends \<Longrightarrow> costs False as \<le> 25" "as \<in> completion_progs \<union> ends \<Longrightarrow> costs False as \<le> 11"
  "as \<in> close_progs \<Longrightarrow> as \<noteq> [Request, Take] \<Longrightarrow> costs False as \<le> 16"
  by (auto simp: io_shapes completion_shapes close_shapes)

lemma rank_bound:
  assumes "fated s" and "requested s"
  shows "rank s \<le> 52"
proof -
  from assms(1) consider "normal s" | "dying s" | "gone s" unfolding fated_def by blast
  then show ?thesis
  proof cases
    case 1
    note n = normalD [OF 1]
    obtain u where u: "caller s = Some u" using n(8) assms(2) by fast
    then have c: "calling s u" using n(10) by simp
    have oc: "t \<noteq> u \<Longrightarrow> calls s t = []" for t using c unfolding calling_def by simp
    have "costs False (calls s u) \<le> 16"
    proof (cases "calls s u = []")
      case False
      then have "calls s u \<in> close_progs" using c by (simp add: calling_def)
      then show ?thesis using costs_bounds(3) calling_requested [OF c] assms(2) by blast
    qed simp
    then have "weight False s \<le> 16 + 25 + 11" using oc costs_bounds(1) [OF n(3)] costs_bounds(2) [OF n(4)] n(2) by (cases u) (simp_all add: weight_def)
    then show ?thesis using rank_le [of s] by simp
  next
    case 2
    then show ?thesis
    proof (cases rule: dying_acts)
      case (1 t as)
      then have "weight False s \<le> 18" using dying_weight [OF 1(9,10), of False] by auto
      then show ?thesis using rank_le [of s] by simp
    qed
  next
    case 3
    then obtain t where t: "\<And>u. calls s u = []" "\<And>u. u \<noteq> t \<Longrightarrow> prog s u = []" "prog s t = [] \<or> prog s t = [Log]" unfolding gone_def by blast
    then have "costs False (prog s t) \<le> 1" by auto
    then have "weight False s \<le> 1" using t(1,2) by (cases t) (simp_all add: weight_def)
    then show ?thesis using rank_le [of s] by simp
  qed
qed

text \<open>
  (C21) A close comes to its end. Once \<^verbatim>\<open>close_requested\<close> is set, in whatever state the three threads are and however they are interleaved
  from there on, no more than 52 actions follow, and when no thread can go on the handle is freed and no thread has anything left to do:
  neither the join of a thread that sleeps until there are completions nor a close from a callback blocks for ever. (That each
  action by itself ends, the calls of the user included, is taken for granted; the states \<open>raced\<close> are excluded as before.)
\<close>

theorem close_frees:
  assumes "reachable E s" and "os_threaded E" and "requested s" and "(ref_step ^^ n) s s'" and "\<not> raced s'"
  shows "n \<le> 52 \<and> ((\<nexists>r. ref_step s' r) \<longrightarrow> freed s' \<and> (\<forall>t. calls s' t = [] \<and> prog s' t = []))"
proof -
  have "\<not> raced s" using assms(4,5) by (induction n arbitrary: s') (auto dest: raced_step)
  then have f: "fated s" using reachable_invariant [OF assms(1,2)] by (simp add: fated_def)
  note r = steps_rank [OF assms(4) f assms(3,5)]
  have "n \<le> 52" using r(1) rank_bound [OF f assms(3)] by simp
  moreover have "freed s' \<and> (\<forall>t. calls s' t = [] \<and> prog s' t = [])" if "\<nexists>r. ref_step s' r"
  proof -
    have "\<not> able t s'" for t using that able_step by blast
    then have "gone s'" using r(2,3) normal_able dying_able unfolding fated_def by blast
    then show ?thesis using gone_over [OF _ that] by blast
  qed
  ultimately show ?thesis by blast
qed

section \<open>Runs\<close>

definition fresh :: threads where
  \<comment> \<open>a new handle\<close>
  "fresh = \<lparr>refs = 2, requested = False, freed = False,
     prog = (\<lambda>t. case t of App_thread \<Rightarrow> [] | Io_thread \<Rightarrow> [Io_test, Epilog, Log] | Completion_thread \<Rightarrow> [Completion_test, Epilog, Log]),
     calls = (\<lambda>_. []), caller = None, raced = False\<rparr>"

definition call_close :: "thread \<Rightarrow> threads \<Rightarrow> threads option" where
  "call_close t s = (if caller s = None \<and> \<not> freed s \<and>
       (t = App_thread \<or> t = Completion_thread \<and> act s t = Some Dispatch \<or> t = Io_thread \<and> act s t = Some Body)
     then Some (s\<lparr>caller := Some t, calls := (calls s)(t := [Request, Take])\<rparr>) else None)"

definition close_run :: "thread \<Rightarrow> thread list \<Rightarrow> thread list \<Rightarrow> threads option" where
  \<comment> \<open>a schedule before and one after the call of \<^verbatim>\<open>zookeeper_close\<close>\<close>
  "close_run t ts us = Option.bind (Option.bind (run_threads ts fresh) (call_close t)) (run_threads us)"

definition view :: "threads \<Rightarrow> bool \<times> bool \<times> bool \<times> thread option \<times> action list list \<times> action list list" where
  "view s = (freed s, requested s, raced s, caller s,
     map (calls s) [App_thread, Io_thread, Completion_thread], map (prog s) [App_thread, Io_thread, Completion_thread])"

lemma fresh_reachable: "reachable threaded_resolving_os fresh"
proof -
  obtain c where c: "zookeeper_init_internal threaded_resolving_os True True (Some ''a:1,b:2'') 7 10000 None 0 0 test_client = Some (True, c)"
    using sample_handle(2) by blast
  have "life c = (2, False, False, False)" by (rule init_life [OF _ c]) (simp add: threaded_resolving_os_def)
  then have "started c = fresh" by (simp add: started_def fresh_def life_def)
  then show ?thesis using reachable.start [OF c] by simp
qed

lemma close_run_reachable:
  assumes "close_run t ts us = Some s"
  shows "reachable threaded_resolving_os s"
proof -
  obtain r q where r: "run_threads ts fresh = Some r" "call_close t r = Some q" "run_threads us q = Some s"
    using assms by (auto simp: close_run_def bind_eq_Some_conv)
  have "reachable threaded_resolving_os r" by (rule run_reachable [OF r(1) fresh_reachable])
  moreover have "ref_step r q" using r(2) by (auto simp: call_close_def split: if_splits intro: ref_step.close)
  ultimately show ?thesis using run_reachable [OF r(3)] reachable.step by blast
qed

lemma close_run_view:
  assumes "map_option view (close_run t ts us) = Some v"
  obtains s where "close_run t ts us = Some s" "reachable threaded_resolving_os s" "view s = v"
  using assms close_run_reachable by auto

lemma close_run_end:
  assumes "\<And>t. calls s t = [] \<and> prog s t = []" and "caller s \<noteq> None"
  shows "\<nexists>r. ref_step s r"
proof
  assume "\<exists>r. ref_step s r"
  then obtain r where "ref_step s r" by blast
  moreover have "act s t = None" for t using assms(1) by (simp add: act_def)
  ultimately show False using assms(2) by cases auto
qed

lemma callback_run:
  "map_option view (close_run Completion_thread [Completion_thread, Completion_thread]
     ([Completion_thread, Completion_thread, Completion_thread, Completion_thread] @ [Io_thread, Io_thread, Io_thread] @ replicate 12 Completion_thread))
   = Some (True, True, False, Some Completion_thread, [[], [], []], [[], [], [Log]])"
  by code_simp

lemma application_run:
  "map_option view (close_run App_thread [Io_thread, Completion_thread] [App_thread])
   = Some (False, True, False, Some App_thread, [[Take], [], []], [[], [Interest, Poll, Process, Io_check, Epilog, Log], [Wait, Dispatch, Completion_test, Epilog, Log]])"
  by code_simp

lemma race_run:
  "map_option view (close_run App_thread [] (App_thread # replicate 3 Completion_thread @ replicate 6 Io_thread))
   = Some (True, True, True, Some App_thread, [[Take], [], []], [[], [Log], []])"
  by code_simp

theorem handle_outlives_threads_witness:
  "\<exists>s. reachable threaded_resolving_os s \<and> view s = (True, True, False, Some Completion_thread, [[], [], []], [[], [], [Log]]) \<and>
     (if freed s then \<exists>t. caller s = Some t \<and> (\<forall>u. calls s u = [] \<and> (prog s u = [] \<or> u = t \<and> t \<noteq> App_thread \<and> prog s u = [Log]))
      else refs s = (\<Sum>t\<leftarrow>[App_thread, Io_thread, Completion_thread]. held (calls s t) + held (prog s t)))"
proof -
  obtain s where s: "reachable threaded_resolving_os s" "view s = (True, True, False, Some Completion_thread, [[], [], []], [[], [], [Log]])"
    by (rule close_run_view [OF callback_run])
  have "os_threaded threaded_resolving_os" "\<not> raced s" using s(2) by (simp_all add: threaded_resolving_os_def view_def)
  then show ?thesis using handle_outlives_threads [OF s(1)] s by blast
qed

lemma application_closes:
  "\<exists>us. length us = 30 \<and> map_option (\<lambda>s. map_option view (run_threads us s)) (close_run App_thread [Io_thread, Completion_thread] [App_thread])
   = Some (Some (True, True, False, Some App_thread, [[], [], []], [[], [], []]))"
  by (rule exI [of _ "replicate 3 App_thread @ replicate 13 Io_thread @ replicate 5 Completion_thread @ replicate 9 App_thread"]) code_simp

theorem close_frees_witness:
  "\<exists>s n s'. reachable threaded_resolving_os s \<and> requested s \<and> (ref_step ^^ n) s s' \<and> \<not> raced s' \<and> 30 \<le> n \<and> n \<le> 52 \<and>
     freed s' \<and> (\<forall>t. calls s' t = [] \<and> prog s' t = [])"
proof -
  obtain us s s' where r: "length us = 30" "close_run App_thread [Io_thread, Completion_thread] [App_thread] = Some s" "run_threads us s = Some s'"
    "view s' = (True, True, False, Some App_thread, [[], [], []], [[], [], []])"
    using application_closes by auto
  have s: "reachable threaded_resolving_os s" "requested s"
    using close_run_reachable [OF r(2)] application_run r(2) by (simp_all add: view_def)
  have v: "\<not> raced s'" "caller s' \<noteq> None" "calls s' t = [] \<and> prog s' t = []" for t
    using r(4) by (cases t; simp add: view_def)+
  have st: "(ref_step ^^ 30) s s'" using run_steps [OF r(3)] r(1) by simp
  have "os_threaded threaded_resolving_os" by (simp add: threaded_resolving_os_def)
  from close_frees [OF s(1) this s(2) st v(1)] have "30 \<le> (52::nat)" "freed s' \<and> (\<forall>t. calls s' t = [] \<and> prog s' t = [])"
    using close_run_end [OF v(3,2)] by blast+
  then show ?thesis using s st v(1) by (intro exI [of _ s] exI [of _ 30] exI [of _ s']) simp
qed

text \<open>
  The flag is set before the reference is taken (\<^verbatim>\<open>zookeeper.c:3302\<close>, \<^verbatim>\<open>3303\<close>). Between the two lines both threads can see the flag, leave their loops and give back their references;
  the second one then frees the handle, and \<^verbatim>\<open>inc_ref_counter\<close> of \<^verbatim>\<open>zookeeper_close\<close> works on freed memory.
\<close>

theorem close_race: "\<exists>s. reachable threaded_resolving_os s \<and> freed s \<and> act s App_thread = Some Take"
proof -
  obtain s where "reachable threaded_resolving_os s" "view s = (True, True, True, Some App_thread, [[Take], [], []], [[], [Log], []])"
    by (rule close_run_view [OF race_run])
  then show ?thesis by (auto simp: view_def act_def)
qed

end
