(* ===== verification/Served.thy ===== *)
theory Served
  imports Sync
begin

text \<open>
  Synchronous calls one after the other, against a server that answers them. The server is a function from transaction numbers to
  the packets it sends back; while a caller waits, the packet that answers the oldest request arrives and the I/O thread processes it.
  A call that is answered returns the code of the reply and leaves the handle ready for the next one, with the next number.
\<close>

section \<open>A server that answers\<close>

definition served :: "os \<Rightarrow> (i32 \<Rightarrow> buffer_list) \<Rightarrow> client \<Rightarrow> client option" where
  "served E srv c = (case zh_sent_requests c of [] \<Rightarrow> None | e # es \<Rightarrow> answers_with E (srv (cl_xid e)) c)"

definition replies :: "(i32 \<Rightarrow> buffer_list) \<Rightarrow> i32 \<Rightarrow> i32 \<Rightarrow> bytes \<Rightarrow> bool" where
  \<comment> \<open>the packet for request \<open>xid\<close> has this error and this body\<close>
  "replies srv xid err bs \<longleftrightarrow>
     (\<exists>z. arrived (enc_ReplyHeader \<lparr>ReplyHeader_xid = xid, ReplyHeader_zxid = z, ReplyHeader_err = err\<rparr> @ bs) (srv xid))"

definition ready :: "os \<Rightarrow> client \<Rightarrow> bool" where
  "ready E c \<longleftrightarrow> heap_ok (os_host E) \<and> os_threaded E \<and> works E c \<and> 0 \<le> zh_state c \<and> \<not> zh_close_requested c \<and>
     tables_wf (zh_watchers c) \<and> zh_sent_requests c = [] \<and> \<not> reserved_xid (next_xid E c)"

definition one_call_later :: "os \<Rightarrow> i32 \<Rightarrow> bytes \<Rightarrow> client \<Rightarrow> client \<Rightarrow> bool" where
  \<comment> \<open>one frame with this operation and request has left, and the handle is as before\<close>
  "one_call_later E op req c d \<longleftrightarrow>
     out_stream d = out_stream c @ frame (enc_RequestHeader \<lparr>RequestHeader_xid = next_xid E c, RequestHeader_type = op\<rparr> @ req) \<and>
     zh_state d = zh_state c \<and> zh_chroot d = zh_chroot c \<and> w_null d = w_null c \<and>
     w_xid d = next_xid E c + 1 \<and> (\<not> reserved_xid (next_xid E d) \<longrightarrow> ready E d)"

definition good_path :: "os \<Rightarrow> client \<Rightarrow> int \<Rightarrow> bytes \<Rightarrow> bool" where
  \<comment> \<open>a path that the client accepts and that leaves room for the request\<close>
  "good_path E c mode path \<longleftrightarrow> path_fits (zh_chroot c) path \<and> valid_path mode (server_path (zh_chroot c) path) \<and>
     length (server_path (zh_chroot c) path) + 17 \<le> 2 ^ 26"

lemma sync_call_served:
  fixes c :: client and a :: nat and u :: sync_union and buf :: "bytes option"
  defines "s0 \<equiv> \<lparr>sc_rc = 0, sc_complete = False, sc_u = u, sc_buffer = buf\<rparr>"
  defines "c0 \<equiv> c\<lparr>w_syncs := (w_syncs c)(a \<mapsto> s0)\<rparr>"
  assumes ready: "ready E c" and call: "issues E c0 (call c0) op req e"
    and e: "regs_ok e" "is_sync e" "cl_type e \<noteq> COMPLETION_MULTI" "cl_data e = a" "cl_xid e = next_xid E c"
    and srv: "replies srv (next_xid E c) err bs"
    and res: "\<And>ia. over ia \<Longrightarrow> over_rest ia = bs \<Longrightarrow>
      sync_result E (cl_type e) (zh_chroot c) ia (s0\<lparr>sc_rc := sint err\<rparr>) = Some s'"
  shows "\<exists>d. sync_call E (served E srv) a u buf call c = Some (sc_rc s', Some (s'\<lparr>sc_complete := True\<rparr>), d) \<and> one_call_later E op req c d"
proof -
  obtain c1 where c1: "call c0 = Some (ZOK, c1)" "io_rest c1 = io_rest (accepted E e c0)" "list_all is_packet (zh_to_send c1)"
      "out_stream c1 = out_stream c0 @ frame (enc_RequestHeader \<lparr>RequestHeader_xid = next_xid E c0, RequestHeader_type = op\<rparr> @ req)"
    using call by (auto simp: issues_def)
  have os: "out_stream c1 = out_stream c @ frame (enc_RequestHeader \<lparr>RequestHeader_xid = next_xid E c, RequestHeader_type = op\<rparr> @ req)"
    using c1(4) by (simp add: c0_def out_stream_def next_xid_def)
  note f = io_rest_fields [OF c1(2)]
  have sy: "w_syncs c1 = (w_syncs c)(a \<mapsto> s0)"
    using arg_cong [OF c1(2), of w_syncs] by (simp add: io_rest_def accepted_def drew_xid_def c0_def)
  have g: "zh_sent_requests c1 = [e]" "zh_state c1 = zh_state c" "zh_chroot c1 = zh_chroot c" "zh_watchers c1 = zh_watchers c"
    "zh_close_requested c1 = zh_close_requested c" "w_null c1 = w_null c" "w_xid c1 = next_xid E c + 1"
    using f ready by (simp_all add: accepted_def drew_xid_def c0_def next_xid_def ready_def)
  obtain z where z: "arrived (enc_ReplyHeader \<lparr>ReplyHeader_xid = next_xid E c, ReplyHeader_zxid = z, ReplyHeader_err = err\<rparr> @ bs)
    (srv (next_xid E c))" using srv by (auto simp: replies_def)
  let ?h = "\<lparr>ReplyHeader_xid = next_xid E c, ReplyHeader_zxid = z, ReplyHeader_err = err\<rparr>"
  have hp: "heap_ok (os_host E)" "os_threaded E" "tables_wf (zh_watchers c1)" using ready g(4) by (simp_all add: ready_def)
  have s: "w_syncs c1 (cl_data e) = Some s0" using sy e(4) by simp
  obtain w where w: "process_buffer E (srv (next_xid E c)) c1 = Some (None, sync_answered a s' [] (new_zxid ?h (zh_last_zxid c1)) w c1)"
      "tables_wf w"
    using process_sync_answer [OF hp(1,3) g(1) e(1,2) hp(2) e(3) s z, of s'] e(4,5) res ready g(3) by (auto simp: ready_def)
  let ?d = "free_sync_completion a (sync_answered a s' [] (new_zxid ?h (zh_last_zxid c1)) w c1)"
  have "grants (os_host E) 192" using hp(1) by (simp add: heap_ok_def good_hostD)
  then have "sync_call E (served E srv) a u buf call c = Some (sc_rc s', Some (s'\<lparr>sc_complete := True\<rparr>), ?d)"
    using c1(1) sy w(1) g(1) e(4,5)
    by (simp add: sync_call_def alloc_sync_completion_def wait_sync_completion_def served_def answers_with_def sync_answered_def
        s0_def c0_def)
  moreover have "works E ?d" using ready g(6) c1(3)
    by (simp add: works_def ready_def free_sync_completion_def sync_answered_def xid_left_def)
  then have "one_call_later E op req c ?d"
    using ready g w(2) hp os by (simp add: one_call_later_def out_stream_def free_sync_completion_def sync_answered_def ready_def)
  ultimately show ?thesis by blast
qed

lemma ready_start: "ready E c \<Longrightarrow> works E (c\<lparr>w_syncs := f\<rparr>)" "next_xid E (c\<lparr>w_syncs := f\<rparr>) = next_xid E c"
  by (simp_all add: ready_def works_def xid_left_def next_xid_def)

lemma err_sint: "err \<noteq> 0 \<Longrightarrow> sint (err :: i32) \<noteq> 0"
  by (metis signed_0 signed_word_eqI)

section \<open>Results\<close>

lemma sync_error_result: "err \<noteq> 0 \<Longrightarrow> sync_result E ct chroot ia (s\<lparr>sc_rc := sint err\<rparr>) = Some (s\<lparr>sc_rc := sint (err :: i32)\<rparr>)"
  by (simp add: sync_result_def err_sint Let_def)

lemma sync_void_result: "sync_result E COMPLETION_VOID chroot ia s = Some s"
  by (simp add: sync_result_def Let_def)

lemma sync_stat_result:
  assumes "good_host (os_host E)" and "SetDataResponse_ok st" and "over ia" and "over_rest ia = enc_SetDataResponse st @ rest"
    and "sc_rc s = 0"
  shows "sync_result E COMPLETION_STAT chroot ia s = Some (s\<lparr>sc_u := U_stat (SetDataResponse_stat st)\<rparr>)"
proof -
  obtain ia' where "reply (deserialize_SetDataResponse (os_host E)) SetDataResponse_zero (Some ia) = Some (st, ia')"
    using reply_over [OF responses_local(2) SetDataResponse_reads [OF assms(1,2)] assms(3,4)] by blast
  then show ?thesis using assms(5) by (simp add: sync_result_def Let_def)
qed

lemma sync_string_result:
  \<comment> \<open>a caller that does not want the path\<close>
  assumes "good_host (os_host E)" and "CreateResponse_ok v" and "over ia" and "over_rest ia = enc_CreateResponse v @ rest"
    and "sc_rc s = 0" and "sc_u s = U_str 0" and "sub_string (os_host E) chroot (CreateResponse_path v) = Some (Some p)"
  shows "sync_result E COMPLETION_STRING chroot ia s = Some s"
proof -
  obtain ia' where "reply (deserialize_CreateResponse (os_host E)) CreateResponse_zero (Some ia) = Some (v, ia')"
    using reply_over [OF responses_local(5) CreateResponse_reads [OF assms(1,2)] assms(3,4)] by blast
  then show ?thesis using assms(5-7) by (simp add: sync_result_def copy_path_def Let_def)
qed

lemma entry_served:
  fixes c :: client and a :: nat and u :: sync_union and buf :: "bytes option"
  assumes "ready E c" and call: "issues E (c\<lparr>w_syncs := (w_syncs c)(a \<mapsto> s0)\<rparr>) (call (c\<lparr>w_syncs := (w_syncs c)(a \<mapsto> s0)\<rparr>)) op req
      (request_entry ct SYNCHRONOUS_MARKER a wo (next_xid E c))"
    and "s0 = \<lparr>sc_rc = 0, sc_complete = False, sc_u = u, sc_buffer = buf\<rparr>"
    and "case wo of None \<Rightarrow> True | Some r \<Rightarrow> \<exists>p. wr_path r = Some p \<and> int (length p) < 2 ^ 30" and "ct \<noteq> COMPLETION_MULTI"
    and "replies srv (next_xid E c) err bs"
    and "\<And>ia. over ia \<Longrightarrow> over_rest ia = bs \<Longrightarrow> sync_result E ct (zh_chroot c) ia (s0\<lparr>sc_rc := sint err\<rparr>) = Some s'"
  shows "\<exists>d. sync_call E (served E srv) a u buf call c = Some (sc_rc s', Some (s'\<lparr>sc_complete := True\<rparr>), d) \<and> one_call_later E op req c d"
proof -
  let ?e = "request_entry ct SYNCHRONOUS_MARKER a wo (next_xid E c)"
  have e: "regs_ok ?e" "is_sync ?e" "cl_type ?e = ct" "cl_data ?e = a" "cl_xid ?e = next_xid E c"
    using assms(4) by (simp_all add: regs_ok_def request_entry_def is_sync_def)
  show ?thesis
    using assms(5,7) e(3) unfolding assms(3)
    by (intro sync_call_served [where call = call, OF assms(1) call [unfolded assms(3)] e(1,2) _ e(4,5) assms(6)]) simp_all
qed

section \<open>The calls\<close>

lemma zoo_delete_served:
  assumes "ready E c" and "good_path E c 0 path" and "replies srv (next_xid E c) err bs"
  shows "\<exists>d. zoo_delete E (served E srv) a (Some path) version c = Some (sint err, d) \<and>
      one_call_later E ZOO_DELETE_OP
        (enc_DeleteRequest \<lparr>DeleteRequest_path = Some (server_path (zh_chroot c) path), DeleteRequest_version = version\<rparr>) c d"
proof -
  let ?s = "\<lparr>sc_rc = 0, sc_complete = False, sc_u = U_none, sc_buffer = None\<rparr>"
  let ?c = "c\<lparr>w_syncs := (w_syncs c)(a \<mapsto> ?s)\<rparr>"
  let ?call = "zoo_adelete E (Some path) version SYNCHRONOUS_MARKER a"
  let ?p = "server_path (zh_chroot c) path"
  have iss: "issues E ?c (?call ?c) ZOO_DELETE_OP (enc_DeleteRequest \<lparr>DeleteRequest_path = Some ?p, DeleteRequest_version = version\<rparr>)
      (request_entry COMPLETION_VOID SYNCHRONOUS_MARKER a None (next_xid E ?c))"
    using assms(1,2) ready_start(1) [OF assms(1)]
    by (intro adelete.issued) (simp_all add: good_path_def ready_def enc_DeleteRequest_def path_request_length)
  have "\<exists>d. sync_call E (served E srv) a U_none None ?call c =
      Some (sc_rc (?s\<lparr>sc_rc := sint err\<rparr>), Some (?s\<lparr>sc_rc := sint err, sc_complete := True\<rparr>), d) \<and> one_call_later E ZOO_DELETE_OP (enc_DeleteRequest \<lparr>DeleteRequest_path = Some ?p, DeleteRequest_version = version\<rparr>) c d"
    by (intro entry_served [where call = ?call, OF assms(1) iss [unfolded ready_start(2)] refl _ _ assms(3)]) (simp_all add: sync_void_result)
  then show ?thesis by (auto simp: zoo_delete_def plain_call_def)
qed

lemma zoo_exists_served:
  assumes "ready E c" and "good_path E c 0 path" and "replies srv (next_xid E c) err bs"
    and "err = 0 \<longrightarrow> (\<exists>st rest. bs = enc_SetDataResponse st @ rest \<and> SetDataResponse_ok st)"
  shows "\<exists>d. zoo_exists E (served E srv) a (Some path) False None c = Some (sint err, None, d) \<and>
      one_call_later E ZOO_EXISTS_OP
        (enc_ExistsRequest \<lparr>ExistsRequest_path = Some (server_path (zh_chroot c) path), ExistsRequest_watch = 0\<rparr>) c d"
proof -
  let ?s = "\<lparr>sc_rc = 0, sc_complete = False, sc_u = U_none, sc_buffer = None\<rparr>"
  let ?c = "c\<lparr>w_syncs := (w_syncs c)(a \<mapsto> ?s)\<rparr>"
  let ?p = "server_path (zh_chroot c) path"
  let ?call = "zoo_awexists E (Some path) 0 (zh_context c) SYNCHRONOUS_MARKER a"
  have gh: "good_host (os_host E)" and nn: "\<not> w_null c" using assms(1) by (simp_all add: ready_def heap_ok_def works_def)
  have iss: "issues E ?c (?call ?c) ZOO_EXISTS_OP
      (enc_ExistsRequest \<lparr>ExistsRequest_path = Some ?p, ExistsRequest_watch = 0\<rparr>)
      (request_entry COMPLETION_STAT SYNCHRONOUS_MARKER a None (next_xid E c))"
    using assms(1,2) ready_start(1) [OF assms(1)]
      awexists.issued [of E ?c path ?p 0 "zh_context c" SYNCHRONOUS_MARKER a]
    by (simp add: good_path_def ready_def enc_ExistsRequest_def path_request_length registration_def ready_start(2))
  obtain s' where s': "sc_rc s' = sint err"
    "\<And>ia. over ia \<Longrightarrow> over_rest ia = bs \<Longrightarrow> sync_result E COMPLETION_STAT (zh_chroot c) ia (?s\<lparr>sc_rc := sint err\<rparr>) = Some s'"
  proof (cases "err = 0")
    case True
    then obtain st rest where st: "bs = enc_SetDataResponse st @ rest" "SetDataResponse_ok st" using assms(4) by blast
    show ?thesis using sync_stat_result [OF gh st(2)] st(1) True by (intro that [of "?s\<lparr>sc_u := U_stat (SetDataResponse_stat st)\<rparr>"]) simp_all
  next
    case False
    then show ?thesis using sync_error_result [OF False, of E COMPLETION_STAT _ _ ?s] by (intro that [of "?s\<lparr>sc_rc := sint err\<rparr>"]) simp_all
  qed
  have "\<exists>d. sync_call E (served E srv) a U_none None ?call c = Some (sc_rc s', Some (s'\<lparr>sc_complete := True\<rparr>), d) \<and> one_call_later E ZOO_EXISTS_OP (enc_ExistsRequest \<lparr>ExistsRequest_path = Some ?p, ExistsRequest_watch = 0\<rparr>) c d"
    using s'(2) by (intro entry_served [where call = ?call, OF assms(1) iss refl _ _ assms(3)]) simp_all
  then show ?thesis using nn s'(1) by (auto simp: zoo_exists_def zoo_wexists_def stat_out_def c_assert_def)
qed

lemma zoo_create_served:
  assumes "ready E c" and "good_path E c (sint mode) path" and "replies srv (next_xid E c) err bs"
    and "ttl_accepted mode (- 1)" and "cbuffer_sendable val" and "ACL_vector_sendable (acl_or_empty acl)"
    and "int (length (enc_create val acl mode (- 1) (server_path (zh_chroot c) path))) + 8 \<le> OA_MAX"
    and "err = 0 \<longrightarrow> (\<exists>v p rest. bs = enc_CreateResponse v @ rest \<and> CreateResponse_ok v \<and>
      sub_string (os_host E) (zh_chroot c) (CreateResponse_path v) = Some (Some p))"
  shows "\<exists>d. zoo_create E (served E srv) a (Some path) val acl mode None 0 c = Some (sint err, None, d) \<and>
      one_call_later E (get_create_op_type (sint mode) ZOO_CREATE_OP)
        (enc_create val acl mode (- 1) (server_path (zh_chroot c) path)) c d"
proof -
  let ?s = "\<lparr>sc_rc = 0, sc_complete = False, sc_u = U_str 0, sc_buffer = None\<rparr>"
  let ?c = "c\<lparr>w_syncs := (w_syncs c)(a \<mapsto> ?s)\<rparr>"
  let ?p = "server_path (zh_chroot c) path"
  let ?call = "zoo_acreate_ttl E (Some path) val acl mode (- 1) SYNCHRONOUS_MARKER a"
  have gh: "good_host (os_host E)" using assms(1) by (simp add: ready_def heap_ok_def)
  have iss: "issues E ?c (?call ?c) (get_create_op_type (sint mode) ZOO_CREATE_OP) (enc_create val acl mode (- 1) ?p)
      (request_entry COMPLETION_STRING SYNCHRONOUS_MARKER a None (next_xid E ?c))"
    using assms(1,2,4-7) ready_start(1) [OF assms(1)] by (intro acreate.issued) (simp_all add: good_path_def ready_def)
  have res: "sync_result E COMPLETION_STRING (zh_chroot c) ia (?s\<lparr>sc_rc := sint err\<rparr>) = Some (?s\<lparr>sc_rc := sint err\<rparr>)"
    if "over ia" "over_rest ia = bs" for ia
  proof (cases "err = 0")
    case True
    then obtain v p rest where "bs = enc_CreateResponse v @ rest" "CreateResponse_ok v"
      "sub_string (os_host E) (zh_chroot c) (CreateResponse_path v) = Some (Some p)" using assms(8) by blast
    then show ?thesis using sync_string_result [OF gh, of v ia rest "?s\<lparr>sc_rc := sint err\<rparr>"] that True by simp
  qed (rule sync_error_result)
  have "\<exists>d. sync_call E (served E srv) a (U_str 0) None ?call c =
      Some (sc_rc (?s\<lparr>sc_rc := sint err\<rparr>), Some (?s\<lparr>sc_rc := sint err, sc_complete := True\<rparr>), d) \<and> one_call_later E (get_create_op_type (sint mode) ZOO_CREATE_OP) (enc_create val acl mode (- 1) ?p) c d"
    using res by (intro entry_served [where call = ?call, OF assms(1) iss [unfolded ready_start(2)] refl _ _ assms(3)]) simp_all
  then show ?thesis by (auto simp: zoo_create_def zoo_create_ttl_def written_def)
qed

lemma get_call_served:
  fixes c :: client
  defines "s0 n buf \<equiv> \<lparr>sc_rc = 0, sc_complete = False, sc_u = U_data n Stat_zero, sc_buffer = Some buf\<rparr>"
  assumes "ready E c" and "good_path E c 0 path" and "replies srv (next_xid E c) err bs"
    and res: "\<And>ia. over ia \<Longrightarrow> over_rest ia = bs \<Longrightarrow> sync_result E COMPLETION_DATA (zh_chroot c) ia ((s0 n buf)\<lparr>sc_rc := sint err\<rparr>) = Some R"
  shows "\<exists>c'. sync_call E (served E srv) a (U_data n Stat_zero) (Some buf) (zoo_awget E (Some path) w ctx SYNCHRONOUS_MARKER a) c =
      Some (sc_rc R, Some (R\<lparr>sc_complete := True\<rparr>), c') \<and>
    one_call_later E ZOO_GETDATA_OP (enc_GetDataRequest \<lparr>GetDataRequest_path = Some (server_path (zh_chroot c) path),
      GetDataRequest_watch = (if w \<noteq> 0 then 1 else 0)\<rparr>) c c'"
proof -
  let ?c = "c\<lparr>w_syncs := (w_syncs c)(a \<mapsto> s0 n buf)\<rparr>"
  let ?p = "server_path (zh_chroot c) path"
  let ?call = "zoo_awget E (Some path) w ctx SYNCHRONOUS_MARKER a"
  let ?wo = "registration w ctx data_result_checker ?p"
  have iss: "issues E ?c (?call ?c) ZOO_GETDATA_OP
      (enc_GetDataRequest \<lparr>GetDataRequest_path = Some ?p, GetDataRequest_watch = (if w \<noteq> 0 then 1 else 0)\<rparr>)
      (request_entry COMPLETION_DATA SYNCHRONOUS_MARKER a ?wo (next_xid E ?c))"
    using assms(2,3) ready_start(1) [OF assms(2)]
    by (intro awget.issued) (simp_all add: good_path_def ready_def enc_GetDataRequest_def path_request_length)
  have wo: "case ?wo of None \<Rightarrow> True | Some r \<Rightarrow> \<exists>p. wr_path r = Some p \<and> int (length p) < 2 ^ 30"
    using assms(3) by (simp add: registration_def good_path_def)
  show ?thesis
    using res by (intro entry_served [where call = ?call, OF assms(2) iss [unfolded ready_start(2)] _ wo _ assms(4)]) (simp_all add: s0_def)
qed

lemma zoo_get_served:
  assumes "ready E c" and "good_path E c 0 path" and "replies srv (next_xid E c) err bs"
    and "err = 0 \<longrightarrow> (\<exists>rest. bs = enc_GetDataResponse v @ rest) \<and> GetDataResponse_ok v \<and> cb_buff (GetDataResponse_data v) = Some d"
    and "0 \<le> n" and "n \<le> int (length buf)"
  shows "\<exists>c'. zoo_get E (served E srv) a (Some path) watch (Some buf) (Some n) (Some st) c =
      (if err = 0 then Some (ZOK, Some (take (nat n) d @ drop (min (length d) (nat n)) buf), Some (min (int (length d)) n),
         Some (GetDataResponse_stat v), c')
       else Some (sint err, Some buf, Some n, Some st, c')) \<and>
    one_call_later E ZOO_GETDATA_OP (enc_GetDataRequest \<lparr>GetDataRequest_path = Some (server_path (zh_chroot c) path),
      GetDataRequest_watch = (if (if watch then zh_watcher c else 0) \<noteq> 0 then 1 else 0)\<rparr>) c c'"
proof -
  let ?s = "\<lparr>sc_rc = 0, sc_complete = False, sc_u = U_data n Stat_zero, sc_buffer = Some buf\<rparr>"
  define R where "R = (if err = 0 then ?s\<lparr>sc_u := U_data (min (int (length d)) n) (GetDataResponse_stat v),
    sc_buffer := Some (take (nat n) d @ drop (min (length d) (nat n)) buf)\<rparr> else ?s\<lparr>sc_rc := sint err\<rparr>)"
  have gh: "good_host (os_host E)" and nn: "\<not> w_null c" using assms(1) by (simp_all add: ready_def heap_ok_def works_def)
  have res: "sync_result E COMPLETION_DATA (zh_chroot c) ia (?s\<lparr>sc_rc := sint err\<rparr>) = Some R"
    if "over ia" "over_rest ia = bs" for ia
  proof (cases "err = 0")
    case True
    then obtain rest where "bs = enc_GetDataResponse v @ rest" using assms(4) by blast
    then show ?thesis using get_result [OF gh _ _ assms(5,6) that(1), of v d rest ?s Stat_zero] assms(4) that(2) True by (simp add: R_def)
  next
    case False
    then show ?thesis using sync_error_result [OF False, of E COMPLETION_DATA _ _ ?s] by (simp add: R_def)
  qed
  from get_call_served [OF assms(1-3) res, of a "if watch then zh_watcher c else 0" "zh_context c"]
  show ?thesis
    using nn err_sint by (cases "err = 0") (auto simp: zoo_get_def zoo_wget_def data_call_def written_def R_def c_assert_def)
qed

lemma zoo_get_null_served:
  \<comment> \<open>a node without data: the length is \<open>- 1\<close> and the buffer stays as it is\<close>
  assumes "ready E c" and "good_path E c 0 path" and "replies srv (next_xid E c) 0 (enc_GetDataResponse v @ rest)"
    and "GetDataResponse_ok v" and "cb_len (GetDataResponse_data v) = - 1" and "0 \<le> n"
  shows "\<exists>c'. zoo_get E (served E srv) a (Some path) watch (Some buf) (Some n) (Some st) c =
      Some (ZOK, Some buf, Some (- 1), Some (GetDataResponse_stat v), c')"
proof -
  let ?s = "\<lparr>sc_rc = 0, sc_complete = False, sc_u = U_data n Stat_zero, sc_buffer = Some buf\<rparr>"
  let ?R = "?s\<lparr>sc_u := U_data (- 1) (GetDataResponse_stat v), sc_buffer := None\<rparr>"
  have gh: "good_host (os_host E)" and nn: "\<not> w_null c" using assms(1) by (simp_all add: ready_def heap_ok_def works_def)
  have res: "sync_result E COMPLETION_DATA (zh_chroot c) ia (?s\<lparr>sc_rc := sint 0\<rparr>) = Some ?R"
    if o: "over ia" "over_rest ia = enc_GetDataResponse v @ rest" for ia
  proof -
    obtain ia' where "reply (deserialize_GetDataResponse (os_host E)) GetDataResponse_zero (Some ia) = Some (v, ia')"
      using reply_over [OF responses_local(1) GetDataResponse_reads [OF gh assms(4)] o] by blast
    then show ?thesis using assms(5,6) by (simp add: sync_result_def deallocate_GetDataResponse_def deallocate_Stat_def Let_def)
  qed
  from get_call_served [OF assms(1-3) res, of a "if watch then zh_watcher c else 0" "zh_context c"]
  show ?thesis using nn by (auto simp: zoo_get_def zoo_wget_def data_call_def written_def c_assert_def)
qed

end
