(* ===== verification/Zookbag.thy ===== *)
theory Zookbag
  imports Threads Served
begin

text \<open>
  The class \<^verbatim>\<open>zookbag\<close> (\<^verbatim>\<open>ZOOK_MS/zookbag.h\<close>, \<^verbatim>\<open>ZOOK_MS/zookbag.cpp\<close>), the wrapper that the election program puts around the threaded
  library: it owns one handle, turns the codes of the synchronous calls into exceptions and follows the state of the session through
  its watcher. The record holds the members of the class; a subclass extends it, and the virtual functions are a record of functions.
  A member function has the result \<open>Inl\<close> of the exception it throws or \<open>Inr\<close> of the value it returns, with the object after it;
  \<open>None\<close> is undefined behaviour or a call that does not come back. Of an exception the message, the code and the system call are
  kept, not the place in the source.
\<close>

section \<open>The names of the codes\<close>

abbreviation (input) ZNODEEXISTS :: int where "ZNODEEXISTS \<equiv> - 110"

definition zerror :: "(int \<Rightarrow> string) \<Rightarrow> int \<Rightarrow> string" where
  "zerror strerror c =
     (if c = ZOK then ''ok''
      else if c = ZSYSTEMERROR then ''system error''
      else if c = ZRUNTIMEINCONSISTENCY then ''run time inconsistency''
      else if c = ZDATAINCONSISTENCY then ''data inconsistency''
      else if c = ZCONNECTIONLOSS then ''connection loss''
      else if c = ZMARSHALLINGERROR then ''marshalling error''
      else if c = ZUNIMPLEMENTED then ''unimplemented''
      else if c = ZOPERATIONTIMEOUT then ''operation timeout''
      else if c = ZBADARGUMENTS then ''bad arguments''
      else if c = ZINVALIDSTATE then ''invalid zhandle state''
      else if c = - 13 then ''no quorum of new config is connected and up-to-date with the leader of last commmitted config - try invoking reconfiguration after new servers are connected and synced''
      else if c = - 14 then ''Another reconfiguration is in progress -- concurrent reconfigs not supported (yet)''
      else if c = - 100 then ''api error''
      else if c = ZNONODE then ''no node''
      else if c = - 102 then ''not authenticated''
      else if c = - 103 then ''bad version''
      else if c = - 108 then ''no children for ephemerals''
      else if c = ZNODEEXISTS then ''node exists''
      else if c = - 111 then ''not empty''
      else if c = ZSESSIONEXPIRED then ''session expired''
      else if c = - 113 then ''invalid callback''
      else if c = - 114 then ''invalid acl''
      else if c = ZAUTHFAILED then ''authentication failed''
      else if c = ZCLOSING then ''zookeeper is closing''
      else if c = ZNOTHING then ''(not error) no server responses to process''
      else if c = - 118 then ''session moved to another server, so operation is ignored''
      else if c = - 119 then ''state-changing request is passed to read-only server''
      else if c = - 120 then ''attempt to create ephemeral node on a local session''
      else if c = ZNOWATCHER then ''the watcher couldn't be found''
      else if c = - 123 then ''attempts to perform a reconfiguration operation when reconfiguration feature is disable''
      else if 0 < c then strerror c
      else ''unknown error'')"

section \<open>The object\<close>

datatype exn = CException string int | CSyscallException string int string | Int_exn int | Length_error | Bad_alloc

datatype clientid_ref = Id_null | Id_current | Id_left "i64 \<times> bytes"

record zookbag =
  zk_clientid :: clientid_ref
  zk_client :: client
  zk_nodes :: string
  expected_session_timeout_seconds :: i32
  physical_session_timeout_seconds :: i32
  start_connect_time :: int

record platform =
  pf_os :: os
  pf_run :: "client \<Rightarrow> client option"
  pf_join :: "thread \<Rightarrow> client \<Rightarrow> client option"
  pf_sync :: nat
  pf_self :: nat
  pf_fixed_order :: bool
  pf_pipe :: bool
  pf_strerror :: "int \<Rightarrow> string"
  pf_errno :: int
  pf_time :: "nat \<Rightarrow> int"
  pf_getpeername :: "nat \<Rightarrow> i32 option"
  pf_open :: "string \<Rightarrow> int"
  pf_write :: "string \<Rightarrow> int"
  pf_close :: int

text \<open>
  \<open>zk_client\<close> is the handle with the process around it, where \<open>w_null\<close> is the null pointer \<^verbatim>\<open>_zk_handle\<close>. \<^verbatim>\<open>_zk_clientid\<close> points into a
  handle: the present one, or one that was left behind without being closed, with the id it had then. The platform says what the
  other threads do while a synchronous call waits (\<open>pf_run\<close>) and while a close joins them (\<open>pf_join\<close>), the address of the waiting
  structure and of the object, and what the other system calls answer: \<open>pf_time\<close> is \<^verbatim>\<open>time\<close> at a count of system calls,
  \<open>pf_getpeername\<close> the address family of the peer.
\<close>

type_synonym ('r, 'b) outcome = "((exn + 'r) \<times> 'b) option"

definition seq :: "('r, 'b) outcome \<Rightarrow> ('r \<Rightarrow> 'b \<Rightarrow> ('s, 'b) outcome) \<Rightarrow> ('s, 'b) outcome" where
  \<comment> \<open>the statement after a call runs only when the call returns\<close>
  "seq m f = do { (r, b) \<leftarrow> m; (case r of Inl e \<Rightarrow> Some (Inl e, b) | Inr x \<Rightarrow> f x b) }"

definition c_str :: "string \<Rightarrow> string" where
  "c_str s = takeWhile (\<lambda>ch. ch \<noteq> NUL) s"

definition string_resize :: "nat \<Rightarrow> string \<Rightarrow> string" where
  "string_resize n s = take n s @ replicate (n - length s) NUL"

definition data_of :: "string \<Rightarrow> cbuffer" where
  \<comment> \<open>the arguments \<^verbatim>\<open>s.data(), static_cast<int>(s.size())\<close>\<close>
  "data_of s = \<lparr>cb_len = of_nat (length s), cb_buff = Some s\<rparr>"

definition shown :: "cstr \<Rightarrow> string" where
  "shown s = (case s of None \<Rightarrow> ''(null)'' | Some s \<Rightarrow> s)"

definition failed :: "platform \<Rightarrow> string \<Rightarrow> string \<Rightarrow> string \<Rightarrow> int \<Rightarrow> exn" where
  \<comment> \<open>the exceptions of the form \<^verbatim>\<open>FormatString("... path://%s ... failed: %s", zk_path, zerror(errcode))\<close>\<close>
  "failed P before zk_path after errcode = CException (before @ zk_path @ after @ zerror (pf_strerror P) errcode) errcode"

definition checked :: "platform \<Rightarrow> string \<Rightarrow> string \<Rightarrow> string \<Rightarrow> int \<Rightarrow> 'a zookbag_scheme \<Rightarrow> (unit, 'a zookbag_scheme) outcome" where
  "checked P before zk_path after errcode b =
     Some (if errcode \<noteq> ZOK then Inl (failed P before zk_path after errcode) else Inr (), b)"

definition new_zookbag :: "client \<Rightarrow> zookbag" where
  \<comment> \<open>the constructor, in the process \<open>w\<close>\<close>
  "new_zookbag w = \<lparr>zk_clientid = Id_null, zk_client = w\<lparr>w_null := True\<rparr>, zk_nodes = '''', expected_session_timeout_seconds = 10,
     physical_session_timeout_seconds = 0, start_connect_time = 0\<rparr>"

definition ZOO_OPEN_ACL_UNSAFE :: ACL_vector where
  "ZOO_OPEN_ACL_UNSAFE = \<lparr>vec_count = 1, vec_data =
     Some [\<lparr>ACL_perms = 0x1f, ACL_id = \<lparr>Id_scheme = Some ''world'', Id_id = Some ''anyone''\<rparr>\<rparr>]\<rparr>"

abbreviation (input) ZOO_EPHEMERAL :: i32 where "ZOO_EPHEMERAL \<equiv> 1"
abbreviation (input) ZOO_SESSION_EVENT :: int where "ZOO_SESSION_EVENT \<equiv> - 1"

section \<open>Data of a node\<close>

definition get_zk_data_into :: "platform \<Rightarrow> cstr \<Rightarrow> string \<Rightarrow> int \<Rightarrow> bool \<Rightarrow> 'a zookbag_scheme \<Rightarrow> (int \<times> string, 'a zookbag_scheme) outcome" where
  \<comment> \<open>the length of the node's data and the new contents of \<^verbatim>\<open>*zk_data\<close>, which was \<open>zk_data\<close>\<close>
  "get_zk_data_into P zk_path zk_data data_size keep_watch b =
     (let datalen = (if data_size < 1 then 1 else data_size); zk_data = string_resize (nat datalen) zk_data in
      if \<not> grants (os_host (pf_os P)) (datalen + 1) then Some (Inl Bad_alloc, b)
      else do {
        (errcode, buf, len, stat, c) \<leftarrow> zoo_get (pf_os P) (pf_run P) (pf_sync P) zk_path keep_watch (Some zk_data) (Some datalen)
          (Some Stat_zero) (zk_client b);
        let b = b\<lparr>zk_client := c\<rparr>;
        if errcode = ZOK then do {
          buf \<leftarrow> buf; len \<leftarrow> len; stat \<leftarrow> stat;
          Some (if len < 0 then Inl Length_error else Inr (sint (Stat_dataLength stat), string_resize (nat len) buf), b)
        }
        else Some (Inl (failed P ''get path://'' (shown zk_path) '' data failed: '' errcode), b)
      })"

definition get_zk_data :: "platform \<Rightarrow> cstr \<Rightarrow> int \<Rightarrow> bool \<Rightarrow> 'a zookbag_scheme \<Rightarrow> (string, 'a zookbag_scheme) outcome" where
  "get_zk_data P zk_path data_size keep_watch b =
     seq (get_zk_data_into P zk_path '''' data_size keep_watch b) (\<lambda>(n, zk_data) b. Some (Inr zk_data, b))"

definition default_data_size :: int where
  \<comment> \<open>\<^verbatim>\<open>int data_size = SIZE_MAX\<close>\<close>
  "default_data_size = to_int32 (2 ^ 64 - 1)"

definition set_zk_data :: "platform \<Rightarrow> string \<Rightarrow> string \<Rightarrow> Stat option \<Rightarrow> i32 \<Rightarrow> 'a zookbag_scheme \<Rightarrow> (Stat option, 'a zookbag_scheme) outcome" where
  "set_zk_data P zk_path zk_data stat version b = do {
     (errcode, stat, c) \<leftarrow> (if stat = None
       then do {
         (errcode, c) \<leftarrow> zoo_set (pf_os P) (pf_run P) (pf_sync P) (Some (c_str zk_path)) (data_of zk_data) version (zk_client b);
         Some (errcode, None, c)
       }
       else zoo_set2 (pf_os P) (pf_run P) (pf_sync P) (Some (c_str zk_path)) (data_of zk_data) version stat (zk_client b));
     seq (checked P ''set path://'' (c_str zk_path) '' data failed: '' errcode (b\<lparr>zk_client := c\<rparr>)) (\<lambda>_ b. Some (Inr stat, b))
   }"

definition is_zhu_exist :: "platform \<Rightarrow> 'a zookbag_scheme \<Rightarrow> (bool \<times> 'a zookbag_scheme) option" where
  "is_zhu_exist P b = do {
     (errcode, stat, c) \<leftarrow> zoo_exists (pf_os P) (pf_run P) (pf_sync P) (Some ''/nodes/test'') False None (zk_client b);
     Some (errcode \<noteq> ZNONODE, b\<lparr>zk_client := c\<rparr>)
   }"

section \<open>The session\<close>

definition zk_watcher_fn :: nat where
  \<comment> \<open>the address of the function \<^verbatim>\<open>zk_watcher\<close>\<close>
  "zk_watcher_fn = 2"

definition clientid_arg :: "'a zookbag_scheme \<Rightarrow> (i64 \<times> bytes) option" where
  \<comment> \<open>what \<^verbatim>\<open>zookeeper_init\<close> finds at \<^verbatim>\<open>_zk_clientid\<close>\<close>
  "clientid_arg b = (case zk_clientid b of Id_null \<Rightarrow> None
     | Id_current \<Rightarrow> Some (zh_client_id (zk_client b), zh_passwd (zk_client b)) | Id_left i \<Rightarrow> Some i)"

definition open_session :: "platform \<Rightarrow> string \<Rightarrow> 'a zookbag_scheme \<Rightarrow> (unit, 'a zookbag_scheme) outcome" where
  \<comment> \<open>the common part of \<^verbatim>\<open>create_session\<close> and \<^verbatim>\<open>recreate_session\<close>: the new handle takes the place of the old pointer\<close>
  "open_session P what b = do {
     (ok, c) \<leftarrow> zookeeper_init (pf_os P) (pf_fixed_order P) (pf_pipe P) (Some (c_str (zk_nodes b))) zk_watcher_fn
       (expected_session_timeout_seconds b) (clientid_arg b) (pf_self P) 0 (zk_client b);
     let b = b\<lparr>zk_clientid := (case clientid_arg b of None \<Rightarrow> Id_null | Some i \<Rightarrow> Id_left i),
       zk_client := (if ok then c else c\<lparr>w_null := True\<rparr>)\<rparr>;
     Some (if ok then Inr ()
       else Inl (CException (what @ ''connect nodes://'' @ c_str (zk_nodes b) @ '' failed: '' @ pf_strerror P (pf_errno P)) (pf_errno P)), b)
   }"

abbreviation (input) EINVAL :: int where "EINVAL \<equiv> 22"

definition create_session :: "platform \<Rightarrow> string \<Rightarrow> i32 \<Rightarrow> 'a zookbag_scheme \<Rightarrow> (unit, 'a zookbag_scheme) outcome" where
  "create_session P nodes session_timeout_seconds b =
     (if nodes = [] then Some (Inl (CException ''parameter[zk_nodes] of connect_zookeeper is empty'' EINVAL), b)
      else do {
        _ \<leftarrow> c_assert (- (2 ^ 31) \<le> sint session_timeout_seconds * 1000 \<and> sint session_timeout_seconds * 1000 \<le> INT_MAX);
        open_session P '''' (b\<lparr>expected_session_timeout_seconds := session_timeout_seconds * 1000, zk_nodes := nodes\<rparr>)
      })"

definition close_session :: "platform \<Rightarrow> 'a zookbag_scheme \<Rightarrow> (unit, 'a zookbag_scheme) outcome" where
  "close_session P b =
     (if w_null (zk_client b) then Some (Inr (), b)
      else do {
        (errcode, c) \<leftarrow> zookeeper_close (pf_os P) App_thread (pf_join P) (zk_client b);
        Some (if errcode \<noteq> ZOK then (Inl (failed P ''close nodes://'' (c_str (zk_nodes b)) '' failed: '' errcode), b\<lparr>zk_client := c\<rparr>)
          else (Inr (), b\<lparr>zk_client := c\<lparr>w_null := True\<rparr>, zk_clientid := Id_null\<rparr>))
      })"

definition recreate_session :: "platform \<Rightarrow> 'a zookbag_scheme \<Rightarrow> (unit, 'a zookbag_scheme) outcome" where
  "recreate_session P b = seq (close_session P b) (\<lambda>_ b. open_session P ''re'' b)"

definition zookeeper_get_connected_host :: "platform \<Rightarrow> client \<Rightarrow> (i32 option \<times> client) option" where
  \<comment> \<open>the address family of the peer, when there is one\<close>
  "zookeeper_get_connected_host P c = do {
     _ \<leftarrow> c_assert (\<not> w_null c);
     if zh_state c \<noteq> ZOO_CONNECTED_STATE then Some (None, c)
     else Some (pf_getpeername P (w_ticks c), tick c)
   }"

definition get_connected_host :: "platform \<Rightarrow> 'a zookbag_scheme \<Rightarrow> (bool \<times> 'a zookbag_scheme) option" where
  \<comment> \<open>\<^verbatim>\<open>to_string\<close> and \<^verbatim>\<open>ipv6_tostring\<close> return the block of \<^verbatim>\<open>malloc\<close> as it is, and the caller reads a string out of it\<close>
  "get_connected_host P b = do {
     (family, c) \<leftarrow> zookeeper_get_connected_host P (zk_client b);
     let b = b\<lparr>zk_client := c\<rparr>;
     case family of
       None \<Rightarrow> Some (False, b)
     | Some f \<Rightarrow> if f = 2 \<or> f = 23 then None else Some (False, b)
   }"

definition get_connected_host_name :: "platform \<Rightarrow> 'a zookbag_scheme \<Rightarrow> (string \<times> 'a zookbag_scheme) option" where
  \<comment> \<open>the overload with a string; without a host the two variables keep their first values\<close>
  "get_connected_host_name P b = do { (r, b) \<leftarrow> get_connected_host P b; Some ('':0'', b) }"

definition get_session_timeout :: "'a zookbag_scheme \<Rightarrow> i32 option" where
  "get_session_timeout b = zoo_recv_timeout (zk_client b)"

definition get_session_timeout_milliseconds :: "'a zookbag_scheme \<Rightarrow> i32 option" where
  "get_session_timeout_milliseconds b = zoo_recv_timeout (zk_client b)"

definition get_state :: "'a zookbag_scheme \<Rightarrow> int" where
  "get_state b = zoo_state (zk_client b)"

definition zookbag_is_connected :: "'a zookbag_scheme \<Rightarrow> bool" where
  "zookbag_is_connected b \<longleftrightarrow> zoo_state (zk_client b) = ZOO_CONNECTED_STATE"

definition zookbag_is_connecting :: "'a zookbag_scheme \<Rightarrow> bool" where
  "zookbag_is_connecting b \<longleftrightarrow> zoo_state (zk_client b) = ZOO_CONNECTING_STATE"

definition is_auth_failed :: "'a zookbag_scheme \<Rightarrow> bool" where
  "is_auth_failed b \<longleftrightarrow> zoo_state (zk_client b) = ZOO_AUTH_FAILED_STATE"

definition now :: "platform \<Rightarrow> 'a zookbag_scheme \<Rightarrow> int \<times> 'a zookbag_scheme" where
  \<comment> \<open>\<^verbatim>\<open>time(NULL)\<close>\<close>
  "now P b = (pf_time P (w_ticks (zk_client b)), b\<lparr>zk_client := tick (zk_client b)\<rparr>)"

definition is_session_expired :: "platform \<Rightarrow> 'a zookbag_scheme \<Rightarrow> (bool \<times> 'a zookbag_scheme) option" where
  "is_session_expired P b =
     (if zoo_state (zk_client b) = ZOO_EXPIRED_SESSION_STATE then Some (True, b)
      else if 0 < start_connect_time b then
        (let (current_time, b) = now P b in
         if start_connect_time b < current_time then do {
           session_timeout_seconds \<leftarrow> get_session_timeout_milliseconds b;
           Some (c_div (sint session_timeout_seconds) 1000 - 1 < to_int32 (current_time - start_connect_time b), b)
         }
         else Some (False, b))
      else Some (False, b))"

section \<open>Nodes\<close>

definition race_master :: "platform \<Rightarrow> string \<Rightarrow> string \<Rightarrow> ACL_vector option \<Rightarrow> 'a zookbag_scheme \<Rightarrow> ((bool \<times> int \<times> string) \<times> 'a zookbag_scheme) option" where
  \<comment> \<open>the result, and what is stored through \<^verbatim>\<open>zk_errcode\<close> and \<^verbatim>\<open>zk_errmsg\<close> when they are not null\<close>
  "race_master P zk_path path_data acl b = do {
     (errcode, out, c) \<leftarrow> zoo_create (pf_os P) (pf_run P) (pf_sync P) (Some (c_str zk_path)) (data_of path_data) acl ZOO_EPHEMERAL
       None 0 (zk_client b);
     let b = b\<lparr>zk_client := c\<rparr>;
     Some (if errcode = ZOK then ((True, errcode, ''SUCCESS''), b) else ((False, errcode, zerror (pf_strerror P) errcode), b))
   }"

definition create_node :: "platform \<Rightarrow> string \<Rightarrow> string \<Rightarrow> string \<Rightarrow> i32 \<Rightarrow> ACL_vector option \<Rightarrow> 'a zookbag_scheme \<Rightarrow> (unit, 'a zookbag_scheme) outcome" where
  "create_node P zk_parent_path zk_node_name zk_node_data flags acl b = do {
     let zk_path = zk_parent_path @ ''/'' @ zk_node_name;
     (errcode, out, c) \<leftarrow> zoo_create (pf_os P) (pf_run P) (pf_sync P) (Some (c_str zk_path)) (data_of zk_node_data)
       (Some (case acl of None \<Rightarrow> ZOO_OPEN_ACL_UNSAFE | Some acl \<Rightarrow> acl)) flags None 0 (zk_client b);
     Some (if errcode \<noteq> ZOK then Inl (Int_exn 1) else Inr (), b\<lparr>zk_client := c\<rparr>)
   }"

text \<open>The four overloads with fewer arguments; three of them ask for a node with the flags \<open>- 1\<close>.\<close>

definition create_node_named :: "platform \<Rightarrow> string \<Rightarrow> string \<Rightarrow> 'a zookbag_scheme \<Rightarrow> (unit, 'a zookbag_scheme) outcome" where
  "create_node_named P zk_parent_path zk_node_name = create_node P zk_parent_path zk_node_name '''' (- 1) None"

definition create_node_data :: "platform \<Rightarrow> string \<Rightarrow> string \<Rightarrow> string \<Rightarrow> 'a zookbag_scheme \<Rightarrow> (unit, 'a zookbag_scheme) outcome" where
  "create_node_data P zk_parent_path zk_node_name zk_node_data = create_node P zk_parent_path zk_node_name zk_node_data (- 1) None"

definition create_node_flags :: "platform \<Rightarrow> string \<Rightarrow> string \<Rightarrow> string \<Rightarrow> i32 \<Rightarrow> 'a zookbag_scheme \<Rightarrow> (unit, 'a zookbag_scheme) outcome" where
  "create_node_flags P zk_parent_path zk_node_name zk_node_data flags = create_node P zk_parent_path zk_node_name zk_node_data flags None"

definition create_node_acl :: "platform \<Rightarrow> string \<Rightarrow> string \<Rightarrow> string \<Rightarrow> ACL_vector option \<Rightarrow> 'a zookbag_scheme \<Rightarrow> (unit, 'a zookbag_scheme) outcome" where
  "create_node_acl P zk_parent_path zk_node_name zk_node_data acl = create_node P zk_parent_path zk_node_name zk_node_data (- 1) acl"

definition delete_node :: "platform \<Rightarrow> string \<Rightarrow> i32 \<Rightarrow> 'a zookbag_scheme \<Rightarrow> (unit, 'a zookbag_scheme) outcome" where
  "delete_node P zk_path version b = do {
     (errcode, c) \<leftarrow> zoo_delete (pf_os P) (pf_run P) (pf_sync P) (Some (c_str zk_path)) version (zk_client b);
     checked P ''delete path://'' (c_str zk_path) '' failed: '' errcode (b\<lparr>zk_client := c\<rparr>)
   }"

definition set_access_control_list :: "platform \<Rightarrow> string \<Rightarrow> ACL_vector option \<Rightarrow> i32 \<Rightarrow> 'a zookbag_scheme \<Rightarrow> (unit, 'a zookbag_scheme) outcome" where
  "set_access_control_list P zk_path acl version b = do {
     (errcode, c) \<leftarrow> zoo_set_acl (pf_os P) (pf_run P) (pf_sync P) (Some (c_str zk_path)) version acl (zk_client b);
     checked P ''set path://'' (c_str zk_path) '' ACL failed: '' errcode (b\<lparr>zk_client := c\<rparr>)
   }"

definition get_access_control_list ::
  "platform \<Rightarrow> string \<Rightarrow> ACL_vector option \<Rightarrow> Stat option \<Rightarrow> 'a zookbag_scheme \<Rightarrow> (ACL_vector option \<times> Stat option, 'a zookbag_scheme) outcome" where
  "get_access_control_list P zk_path acl stat b = do {
     (errcode, acl, stat, c) \<leftarrow> zoo_get_acl (pf_os P) (pf_run P) (pf_sync P) (Some (c_str zk_path)) acl stat (zk_client b);
     seq (checked P ''get path://'' (c_str zk_path) '' ACL failed: '' errcode (b\<lparr>zk_client := c\<rparr>)) (\<lambda>_ b. Some (Inr (acl, stat), b))
   }"

fun copy_children :: "nat \<Rightarrow> String_vector \<Rightarrow> string list option" where
  \<comment> \<open>the last \<open>k\<close> strings of the vector; a null string in it is undefined\<close>
  "copy_children 0 v = Some []"
| "copy_children (Suc k) v = do {
     s \<leftarrow> vec_get (vec_data v) (nat (sint (vec_count v)) - Suc k);
     s \<leftarrow> s;
     rest \<leftarrow> copy_children k v;
     Some (s # rest)
   }"

definition get_all_children :: "platform \<Rightarrow> string \<Rightarrow> bool \<Rightarrow> 'a zookbag_scheme \<Rightarrow> (int \<times> string list, 'a zookbag_scheme) outcome" where
  \<comment> \<open>the result and the new contents of \<^verbatim>\<open>*children\<close>\<close>
  "get_all_children P zk_path keep_watch b = do {
     (errcode, strings, c) \<leftarrow> zoo_get_children (pf_os P) (pf_run P) (pf_sync P) (Some (c_str zk_path)) keep_watch
       (Some \<lparr>vec_count = 0, vec_data = None\<rparr>) (zk_client b);
     seq (checked P ''get path://'' (c_str zk_path) '' children failed: '' errcode (b\<lparr>zk_client := c\<rparr>)) (\<lambda>_ b. do {
       strings \<leftarrow> strings;
       if sint (vec_count strings) < 0 then Some (Inl Length_error, b)
       else do {
         children \<leftarrow> copy_children (nat (sint (vec_count strings))) strings;
         _ \<leftarrow> deallocate_String_vector strings;
         Some (Inr (int (length children), children), b)
       }
     })
   }"

abbreviation (input) SIZE_4K :: int where "SIZE_4K \<equiv> 256"
abbreviation (input) SIZE_8K :: int where "SIZE_8K \<equiv> 512"

definition store_data :: "platform \<Rightarrow> string \<Rightarrow> string \<Rightarrow> bool \<Rightarrow> 'a zookbag_scheme \<Rightarrow> (int \<times> string, 'a zookbag_scheme) outcome" where
  \<comment> \<open>the number of bytes written, and what was handed to \<^verbatim>\<open>write\<close>; the last argument of the source is not used\<close>
  "store_data P data_filepath zk_path keep_watch b =
     seq (get_zk_data_into P (Some (c_str zk_path)) '''' SIZE_8K True b) (\<lambda>(n, zk_data) b.
       seq (if SIZE_8K < n then get_zk_data_into P (Some (c_str zk_path)) zk_data n True b else Some (Inr (n, zk_data), b))
         (\<lambda>(n, zk_data) b.
           let file = ''file://'' @ c_str data_filepath; why = '' failed: '' @ pf_strerror P (pf_errno P) in
           if pf_open P (c_str data_filepath) = - 1
           then Some (Inl (CSyscallException (''open '' @ file @ '' with write|create|truncate'' @ why) (pf_errno P) ''open''), b)
           else if pf_write P zk_data \<noteq> int (length zk_data)
           then Some (Inl (CSyscallException (''write '' @ file @ why) (pf_errno P) ''write''), b)
           else if pf_close P \<noteq> 0 then Some (Inl (CSyscallException (''close '' @ file @ why) (pf_errno P) ''close''), b)
           else Some (Inr (pf_write P zk_data, zk_data), b)))"

section \<open>The watcher\<close>

record 'b virtuals =
  on_zookeeper_session_connected :: "cstr \<Rightarrow> 'b \<Rightarrow> (unit, 'b) outcome"
  on_zookeeper_session_connecting :: "cstr \<Rightarrow> 'b \<Rightarrow> (unit, 'b) outcome"
  on_zookeeper_session_expired :: "cstr \<Rightarrow> 'b \<Rightarrow> (unit, 'b) outcome"
  on_zookeeper_session_event :: "int \<Rightarrow> cstr \<Rightarrow> 'b \<Rightarrow> (unit, 'b) outcome"
  on_zookeeper_event :: "int \<Rightarrow> int \<Rightarrow> cstr \<Rightarrow> 'b \<Rightarrow> (unit, 'b) outcome"

definition zookeeper_session_connected :: "('a zookbag_scheme) virtuals \<Rightarrow> cstr \<Rightarrow> 'a zookbag_scheme \<Rightarrow> (unit, 'a zookbag_scheme) outcome" where
  "zookeeper_session_connected V path b = do {
     i \<leftarrow> zoo_client_id (zk_client b);
     t \<leftarrow> get_session_timeout_milliseconds b;
     on_zookeeper_session_connected V path
       (b\<lparr>zk_clientid := Id_current, physical_session_timeout_seconds := t, start_connect_time := 0\<rparr>)
   }"

definition zookeeper_session_connecting ::
  "platform \<Rightarrow> ('a zookbag_scheme) virtuals \<Rightarrow> cstr \<Rightarrow> 'a zookbag_scheme \<Rightarrow> (unit, 'a zookbag_scheme) outcome" where
  "zookeeper_session_connecting P V path b =
     (let (t, b) = now P b in on_zookeeper_session_connecting V path (b\<lparr>start_connect_time := t\<rparr>))"

definition zookeeper_session_expired :: "('a zookbag_scheme) virtuals \<Rightarrow> cstr \<Rightarrow> 'a zookbag_scheme \<Rightarrow> (unit, 'a zookbag_scheme) outcome" where
  "zookeeper_session_expired V path b = on_zookeeper_session_expired V path b"

definition zookeeper_session_event :: "('a zookbag_scheme) virtuals \<Rightarrow> int \<Rightarrow> cstr \<Rightarrow> 'a zookbag_scheme \<Rightarrow> (unit, 'a zookbag_scheme) outcome" where
  "zookeeper_session_event V state path b = on_zookeeper_session_event V state path b"

definition zookeeper_event :: "('a zookbag_scheme) virtuals \<Rightarrow> int \<Rightarrow> int \<Rightarrow> cstr \<Rightarrow> 'a zookbag_scheme \<Rightarrow> (unit, 'a zookbag_scheme) outcome" where
  "zookeeper_event V type state path b = on_zookeeper_event V type state path b"

definition zk_watcher ::
  "platform \<Rightarrow> ('a zookbag_scheme) virtuals \<Rightarrow> int \<Rightarrow> int \<Rightarrow> cstr \<Rightarrow> 'a zookbag_scheme \<Rightarrow> (unit, 'a zookbag_scheme) outcome" where
  "zk_watcher P V type state path self =
     (if type \<noteq> ZOO_SESSION_EVENT then zookeeper_event V type state path self
      else if ZOO_EXPIRED_SESSION_STATE = state then zookeeper_session_expired V path self
      else if ZOO_CONNECTED_STATE = state then zookeeper_session_connected V path self
      else if ZOO_CONNECTING_STATE = state then zookeeper_session_connecting P V path self
      else zookeeper_session_event V state path self)"

section \<open>Properties\<close>

definition served_platform :: "platform \<Rightarrow> (i32 \<Rightarrow> buffer_list) \<Rightarrow> 'a zookbag_scheme \<Rightarrow> bool" where
  \<comment> \<open>the calls of the object are answered by this server\<close>
  "served_platform P srv b \<longleftrightarrow> pf_run P = served (pf_os P) srv \<and> ready (pf_os P) (zk_client b)"

definition xid_of :: "platform \<Rightarrow> 'a zookbag_scheme \<Rightarrow> i32" where
  "xid_of P b = next_xid (pf_os P) (zk_client b)"

definition seen_path :: "'a zookbag_scheme \<Rightarrow> string \<Rightarrow> bytes" where
  "seen_path b path = server_path (zh_chroot (zk_client b)) (c_str path)"

definition ephemeral_request :: "bytes \<Rightarrow> string \<Rightarrow> bytes" where
  "ephemeral_request p s = enc_CreateRequest \<lparr>CreateRequest_path = Some p, CreateRequest_data = data_of s,
     CreateRequest_acl = ZOO_OPEN_ACL_UNSAFE, CreateRequest_flags = ZOO_EPHEMERAL\<rparr>"

definition created_reply :: "platform \<Rightarrow> 'a zookbag_scheme \<Rightarrow> bytes \<Rightarrow> bool" where
  \<comment> \<open>the body of a positive reply to a create request\<close>
  "created_reply P b bs \<longleftrightarrow> (\<exists>v p rest. bs = enc_CreateResponse v @ rest \<and> CreateResponse_ok v \<and>
     sub_string (os_host (pf_os P)) (zh_chroot (zk_client b)) (CreateResponse_path v) = Some (Some p))"

lemma data_of_sendable: "length s < 2 ^ 31 \<Longrightarrow> cbuffer_sendable (data_of s)"
  by (simp add: cbuffer_sendable_def data_of_def sint_of_nat_small)

lemma open_acl_sendable: "ACL_vector_sendable (acl_or_empty (Some ZOO_OPEN_ACL_UNSAFE))"
  by (simp add: ZOO_OPEN_ACL_UNSAFE_def acl_or_empty_def vec_sendable_def vec_list_def)

lemma ephemeral_mode: "ttl_accepted ZOO_EPHEMERAL (- 1)" "get_create_op_type 1 op = op"
  "enc_create (data_of s) (Some ZOO_OPEN_ACL_UNSAFE) ZOO_EPHEMERAL (- 1) p = ephemeral_request p s"
  by (simp_all add: ttl_accepted_def get_create_op_type_def ZOOKEEPER_IS_TTL_def enc_create_def ephemeral_request_def acl_or_empty_def)

lemma ephemeral_request_length: "length s < 2 ^ 31 \<Longrightarrow> length (ephemeral_request p s) = length p + length s + 39"
proof -
  assume s: "length s < 2 ^ 31"
  then have n: "sint (of_nat (length s) :: i32) = int (length s)" by (intro sint_of_nat_small) simp
  then have "(of_nat (length s) :: i32) \<noteq> - 1" by (metis of_nat_0_le_iff sint_n1 not_one_le_zero neg_0_le_iff_le)
  then show ?thesis
    using n by (simp add: ephemeral_request_def enc_CreateRequest_def enc_ACL_vector_def enc_vector_def vec_list_def enc_ACL_def
        enc_Id_def enc_buffer_def enc_string_def data_of_def ZOO_OPEN_ACL_UNSAFE_def)
qed

lemma ephemeral_served:
  assumes "served_platform P srv b" and "good_path (pf_os P) (zk_client b) 1 path" and "length s \<le> 2 ^ 25"
    and "replies srv (xid_of P b) err bs" and "err = 0 \<longrightarrow> created_reply P b bs"
  shows "\<exists>d. zoo_create (pf_os P) (pf_run P) (pf_sync P) (Some path) (data_of s) (Some ZOO_OPEN_ACL_UNSAFE) ZOO_EPHEMERAL None 0
      (zk_client b) = Some (sint err, None, d) \<and>
    one_call_later (pf_os P) ZOO_CREATE_OP (ephemeral_request (server_path (zh_chroot (zk_client b)) path) s) (zk_client b) d"
proof -
  have s: "length s < 2 ^ 31" using assms(3) by simp
  have l: "int (length (enc_create (data_of s) (Some ZOO_OPEN_ACL_UNSAFE) ZOO_EPHEMERAL (- 1)
      (server_path (zh_chroot (zk_client b)) path))) + 8 \<le> OA_MAX"
    using assms(2,3) ephemeral_request_length [OF s] by (simp add: ephemeral_mode(3) good_path_def)
  show ?thesis
    using assms zoo_create_served [OF _ _ _ ephemeral_mode(1) data_of_sendable [OF s] open_acl_sendable l, where srv = srv and err = err and bs = bs and a = "pf_sync P"]
    by (simp add: served_platform_def xid_of_def created_reply_def ephemeral_mode(2,3))
qed

text \<open>
  (C9) The race for the master node is decided by the server: \<^verbatim>\<open>race_master\<close> sends one create request with the given path and data, the open
  access list and the ephemeral flag, and nothing else; it reports success exactly when the reply carries no error, stores the code of
  the reply and its message, and leaves the handle ready for the next call.
\<close>

theorem race_decided_by_server:
  assumes "served_platform P srv b" and "good_path (pf_os P) (zk_client b) 1 (c_str zk_path)" and "length path_data \<le> 2 ^ 25"
    and "replies srv (xid_of P b) err bs" and "err = 0 \<longrightarrow> created_reply P b bs"
  shows "\<exists>d. race_master P zk_path path_data (Some ZOO_OPEN_ACL_UNSAFE) b =
      Some ((err = 0, sint err, if err = 0 then ''SUCCESS'' else zerror (pf_strerror P) (sint err)), b\<lparr>zk_client := d\<rparr>) \<and>
    one_call_later (pf_os P) ZOO_CREATE_OP (ephemeral_request (seen_path b zk_path) path_data) (zk_client b) d"
proof -
  obtain d where "zoo_create (pf_os P) (pf_run P) (pf_sync P) (Some (c_str zk_path)) (data_of path_data) (Some ZOO_OPEN_ACL_UNSAFE)
      ZOO_EPHEMERAL None 0 (zk_client b) = Some (sint err, None, d)"
    "one_call_later (pf_os P) ZOO_CREATE_OP (ephemeral_request (seen_path b zk_path) path_data) (zk_client b) d"
    using ephemeral_served [OF assms] by (auto simp: seen_path_def)
  then show ?thesis using err_sint [of err] by (auto simp: race_master_def)
qed

lemma min_nonneg: "\<not> min (int (length d)) (int n) < 0"
  by simp

lemma get_into_served:
  assumes "served_platform P srv b" and "good_path (pf_os P) (zk_client b) 0 path" and "replies srv (xid_of P b) err bs"
    and "err = 0 \<longrightarrow> (\<exists>rest. bs = enc_GetDataResponse v @ rest) \<and> GetDataResponse_ok v \<and> cb_buff (GetDataResponse_data v) = Some d"
    and "n = nat (max 1 sz)" and "n < 2 ^ 27"
  shows "\<exists>c. get_zk_data_into P (Some path) old sz watch b = Some (if err = 0
      then Inr (sint (Stat_dataLength (GetDataResponse_stat v)), take n d)
      else Inl (failed P ''get path://'' path '' data failed: '' (sint err)), b\<lparr>zk_client := c\<rparr>) \<and>
    one_call_later (pf_os P) ZOO_GETDATA_OP (enc_GetDataRequest \<lparr>GetDataRequest_path = Some (server_path (zh_chroot (zk_client b)) path),
      GetDataRequest_watch = (if (if watch then zh_watcher (zk_client b) else 0) \<noteq> 0 then 1 else 0)\<rparr>) (zk_client b) c"
proof -
  let ?buf = "string_resize n old"
  have n: "(if sz < 1 then 1 else sz) = int n" using assms(5) by (simp add: max_def)
  have len: "length ?buf = n" by (simp add: string_resize_def)
  have g: "grants (os_host (pf_os P)) (int n + 1)"
    using assms(1,6) by (simp add: served_platform_def ready_def heap_ok_def good_hostD)
  have r: "ready (pf_os P) (zk_client b)" and run: "pf_run P = served (pf_os P) srv" using assms(1) by (simp_all add: served_platform_def)
  obtain c where c: "zoo_get (pf_os P) (pf_run P) (pf_sync P) (Some path) watch (Some ?buf) (Some (int n)) (Some Stat_zero) (zk_client b) =
      (if err = 0 then Some (ZOK, Some (take n d @ drop (min (length d) n) ?buf), Some (min (int (length d)) (int n)),
         Some (GetDataResponse_stat v), c) else Some (sint err, Some ?buf, Some (int n), Some Stat_zero, c))"
    "one_call_later (pf_os P) ZOO_GETDATA_OP (enc_GetDataRequest \<lparr>GetDataRequest_path = Some (server_path (zh_chroot (zk_client b)) path),
      GetDataRequest_watch = (if (if watch then zh_watcher (zk_client b) else 0) \<noteq> 0 then 1 else 0)\<rparr>) (zk_client b) c"
    using zoo_get_served [OF r assms(2) assms(3) [unfolded xid_of_def] assms(4), where n = "int n" and buf = ?buf and st = Stat_zero
        and watch = watch and a = "pf_sync P"] len run by auto
  have cut: "string_resize (nat (min (int (length d)) (int n))) (take n d @ drop (min (length d) n) ?buf) = take n d"
  proof -
    have "nat (min (int (length d)) (int n)) = min (length d) n" by simp
    then show ?thesis by (simp add: string_resize_def min_def)
  qed
  have "get_zk_data_into P (Some path) old sz watch b = Some (if err = 0
      then Inr (sint (Stat_dataLength (GetDataResponse_stat v)), take n d)
      else Inl (failed P ''get path://'' path '' data failed: '' (sint err)), b\<lparr>zk_client := c\<rparr>)"
    using g c(1) cut err_sint [of err] min_nonneg [of d n] unfolding get_zk_data_into_def Let_def n by (simp add: shown_def)
  with c(2) show ?thesis by blast
qed

lemma get_served:
  assumes "served_platform P srv b" and "good_path (pf_os P) (zk_client b) 0 path" and "replies srv (xid_of P b) err bs"
    and "err = 0 \<longrightarrow> (\<exists>rest. bs = enc_GetDataResponse v @ rest) \<and> GetDataResponse_ok v \<and> cb_buff (GetDataResponse_data v) = Some d"
    and "sz < 2 ^ 27"
  shows "\<exists>c. get_zk_data P (Some path) sz watch b = Some (if err = 0 then Inr (take (nat (max 1 sz)) d)
      else Inl (failed P ''get path://'' path '' data failed: '' (sint err)), b\<lparr>zk_client := c\<rparr>) \<and>
    one_call_later (pf_os P) ZOO_GETDATA_OP (enc_GetDataRequest \<lparr>GetDataRequest_path = Some (server_path (zh_chroot (zk_client b)) path),
      GetDataRequest_watch = (if (if watch then zh_watcher (zk_client b) else 0) \<noteq> 0 then 1 else 0)\<rparr>) (zk_client b) c"
proof -
  have n: "nat (max 1 sz) < 2 ^ 27" using assms(5) by (cases "1 \<le> sz") (simp_all add: max_def nat_less_iff)
  from get_into_served [OF assms(1-4) refl n, where old = "[]" and watch = watch] obtain c where
    "get_zk_data_into P (Some path) [] sz watch b = Some (if err = 0
      then Inr (sint (Stat_dataLength (GetDataResponse_stat v)), take (nat (max 1 sz)) d)
      else Inl (failed P ''get path://'' path '' data failed: '' (sint err)), b\<lparr>zk_client := c\<rparr>)"
    "one_call_later (pf_os P) ZOO_GETDATA_OP (enc_GetDataRequest \<lparr>GetDataRequest_path = Some (server_path (zh_chroot (zk_client b)) path),
      GetDataRequest_watch = (if (if watch then zh_watcher (zk_client b) else 0) \<noteq> 0 then 1 else 0)\<rparr>) (zk_client b) c" by blast
  then show ?thesis by (cases "err = 0") (auto simp: get_zk_data_def seq_def)
qed

text \<open>
  (C14) Reading a node returns its data, cut to as many bytes as were asked for; a size that is not positive counts as one, so that it reads the first
  byte, and a node with no bytes gives the empty string. An error of the server becomes an exception with its code. Since the
  default of \<^verbatim>\<open>data_size\<close>, \<^verbatim>\<open>SIZE_MAX\<close>, is \<open>- 1\<close> as an \<^verbatim>\<open>int\<close>, a call without a size reads at most one byte.
\<close>

theorem get_zk_data_cuts:
  assumes "served_platform P srv b" and "good_path (pf_os P) (zk_client b) 0 path" and "replies srv (xid_of P b) err bs"
    and "err = 0 \<longrightarrow> (\<exists>rest. bs = enc_GetDataResponse v @ rest) \<and> GetDataResponse_ok v \<and> cb_buff (GetDataResponse_data v) = Some d"
    and "sz < 2 ^ 27"
  shows "(\<exists>c. get_zk_data P (Some path) sz watch b = Some (if err = 0 then Inr (take (nat (max 1 sz)) d)
      else Inl (failed P ''get path://'' path '' data failed: '' (sint err)), b\<lparr>zk_client := c\<rparr>)) \<and>
    nat (max 1 default_data_size) = 1"
proof
  show "nat (max 1 default_data_size) = 1" by (simp add: default_data_size_def to_int32_def)
qed (use get_served [OF assms, of watch] in blast)

lemma c_str_id: "NUL \<notin> set s \<Longrightarrow> c_str s = s"
  by (auto simp: c_str_def takeWhile_eq_all_conv)

text \<open>
  (C13) A session is never resumed: once the old handle has been closed, \<^verbatim>\<open>recreate_session\<close> starts a new session on the servers the object was
  given, with the timeout asked for first and no session id, so that what the old session owned stays with the server until that
  session ends there.
\<close>

theorem recreated_session_is_new:
  assumes "good_host (os_host (pf_os P))" and "os_threaded (pf_os P) \<Longrightarrow> pf_pipe P" and "steady_resolver (pf_os P)"
    and "zk_nodes b = hosts @ ch" and "NUL \<notin> set (hosts @ ch)" and "hosts \<noteq> []" and "CHR ''/'' \<notin> set hosts" and "good_chroot ch"
    and "length hosts + length ch + 2 \<le> 2 ^ 20" and "\<forall>h \<in> set (strtok [] hosts). host_ok (pf_os P) h"
    and "all_answers (pf_os P) (strtok [] hosts) \<noteq> []" and "length (all_answers (pf_os P) (strtok [] hosts)) \<le> 2 ^ 20"
    and "\<not> w_null (zk_client b)" and "zookeeper_close (pf_os P) App_thread (pf_join P) (zk_client b) = Some (ZOK, gone)"
  shows "\<exists>c. recreate_session P b = Some (Inr (), b\<lparr>zk_clientid := Id_null, zk_client := c\<rparr>) \<and> fresh (pf_os P) c \<and>
    zh_hostname c = Some hosts \<and> zh_recv_timeout c = expected_session_timeout_seconds b \<and> zoo_client_id c = Some (0, replicate 16 NUL)"
proof -
  obtain c where c: "zookeeper_init (pf_os P) (pf_fixed_order P) (pf_pipe P) (Some (hosts @ ch)) zk_watcher_fn
      (expected_session_timeout_seconds b) None (pf_self P) 0 (gone\<lparr>w_null := True\<rparr>) = Some (True, c)"
    "fresh (pf_os P) c" "zh_hostname c = Some hosts" "zh_recv_timeout c = expected_session_timeout_seconds b"
    "zoo_client_id c = Some (0, replicate 16 NUL)"
    using zookeeper_init_ok [OF assms(1-3,6-12), of "pf_fixed_order P" zk_watcher_fn "expected_session_timeout_seconds b" None "pf_self P" 0
        "gone\<lparr>w_null := True\<rparr>"] by auto
  have "recreate_session P b = Some (Inr (), b\<lparr>zk_clientid := Id_null, zk_client := c\<rparr>)"
    using assms(4,13,14) c(1) c_str_id [OF assms(5)] by (simp add: recreate_session_def seq_def close_session_def open_session_def clientid_arg_def)
  with c(2-5) show ?thesis by blast
qed

section \<open>Concrete runs\<close>

definition packet_for :: "i32 \<Rightarrow> i32 \<Rightarrow> bytes \<Rightarrow> buffer_list" where
  "packet_for xid err bs = arrived_reply (enc_ReplyHeader \<lparr>ReplyHeader_xid = xid, ReplyHeader_zxid = 9, ReplyHeader_err = err\<rparr> @ bs)"

lemma packet_replies:
  assumes "srv xid = packet_for xid err bs" and "length bs \<le> 2 ^ 20"
  shows "replies srv xid err bs"
proof -
  have "sint (of_nat (16 + length bs) :: i32) = int (16 + length bs)" using assms(2) by (intro sint_of_nat_small) simp
  then show ?thesis
    using assms by (auto simp: replies_def packet_for_def arrived_def arrived_reply_def enc_ReplyHeader_def intro!: exI [of _ 9])
qed

definition test_platform :: "(i32 \<Rightarrow> buffer_list) \<Rightarrow> platform" where
  "test_platform srv = \<lparr>pf_os = threaded_os, pf_run = served threaded_os srv, pf_join = (\<lambda>_. Some), pf_sync = 40, pf_self = 50, pf_fixed_order = True,
     pf_pipe = True, pf_strerror = (\<lambda>_. ''''), pf_errno = 0, pf_time = int, pf_getpeername = (\<lambda>_. None), pf_open = (\<lambda>_. 3),
     pf_write = (\<lambda>s. int (length s)), pf_close = 0\<rparr>"

definition test_bag :: zookbag where
  "test_bag = (new_zookbag test_client)\<lparr>zk_client := test_client, zk_nodes := ''a:1'', expected_session_timeout_seconds := 10000\<rparr>"

lemma ready_test: "ready threaded_os test_client" "next_xid threaded_os test_client = 5"
  using heap_ok_test works_test no_watchers_wf
  by (simp_all add: ready_def threaded_os_def works_def xid_left_def next_xid_def has_clock_def reserved_xid_def)

lemma test_bag_served: "served_platform (test_platform srv) srv test_bag" "xid_of (test_platform srv) test_bag = 5"
  "zk_client test_bag = test_client"
  using ready_test by (simp_all add: served_platform_def test_platform_def test_bag_def xid_of_def new_zookbag_def)

theorem race_decided_by_server_witness:
  "\<exists>d. race_master (test_platform (\<lambda>xid. packet_for xid (- 110) [])) ''/master'' ''zk_1'' (Some ZOO_OPEN_ACL_UNSAFE) test_bag =
     Some ((False, - 110, ''node exists''), test_bag\<lparr>zk_client := d\<rparr>)"
proof -
  let ?srv = "\<lambda>xid. packet_for xid (- 110) []"
  have "isValidPath (Some ''/master'') 1 = Some True" by code_simp
  then have "good_path (pf_os (test_platform ?srv)) (zk_client test_bag) 1 (c_str ''/master'')"
    by (simp add: good_path_def path_fits_def server_path_def isValidPath_iff c_str_def test_bag_served)
  moreover have "replies ?srv 5 (- 110) []" by (rule packet_replies) simp_all
  ultimately show ?thesis
    using race_decided_by_server [OF test_bag_served(1) , of ?srv "''/master''" "''zk_1''" "- 110" "[]"]
    by (auto simp: test_bag_served zerror_def)
qed

theorem get_zk_data_cuts_witness:
  "\<exists>c. get_zk_data (test_platform (\<lambda>xid. packet_for xid 0 (enc_GetDataResponse short_data))) (Some ''/a'') default_data_size True test_bag =
     Some (Inr ''h'', test_bag\<lparr>zk_client := c\<rparr>)"
proof -
  let ?srv = "\<lambda>xid. packet_for xid 0 (enc_GetDataResponse short_data)"
  have "isValidPath (Some ''/a'') 0 = Some True" by code_simp
  then have "good_path (pf_os (test_platform ?srv)) (zk_client test_bag) 0 ''/a''"
    by (simp add: good_path_def path_fits_def server_path_def isValidPath_iff test_bag_served)
  moreover have "length (enc_GetDataResponse short_data) \<le> 2 ^ 20"
    by (simp add: enc_GetDataResponse_def short_data_def enc_buffer_def enc_Stat_def)
  then have "replies ?srv 5 0 (enc_GetDataResponse short_data)" by (intro packet_replies) simp_all
  moreover have "GetDataResponse_ok short_data" by (simp add: GetDataResponse_ok_def short_data_def cbuffer_ok_def Stat_ok_def)
  moreover have "default_data_size = - 1" by (simp add: default_data_size_def to_int32_def)
  ultimately show ?thesis
    using get_zk_data_cuts [OF test_bag_served(1), of ?srv "''/a''" 0 "enc_GetDataResponse short_data" short_data "''hi''" "- 1" True]
    by (auto simp: test_bag_served short_data_def)
qed

definition idle_bag :: zookbag where
  "idle_bag = test_bag\<lparr>zk_client := test_client\<lparr>zh_ref_counter := 2\<rparr>, zk_nodes := ''a:1,b:2''\<rparr>"

lemma idle_bag_closes: "\<exists>c. zookeeper_close threaded_resolving_os App_thread (\<lambda>_. Some) (zk_client idle_bag) = Some (ZOK, c)"
  by (simp add: idle_bag_def test_client_def zookeeper_close_def inc_ref_counter_def free_completions_def adaptor_finish_def
      api_epilog_def api_prolog_simp wakeup_io_thread_def threaded_resolving_os_def call_auth_completions_def Let_def)

theorem recreated_session_is_new_witness:
  "\<exists>c. recreate_session ((test_platform undefined)\<lparr>pf_os := threaded_resolving_os\<rparr>) idle_bag =
     Some (Inr (), idle_bag\<lparr>zk_clientid := Id_null, zk_client := c\<rparr>) \<and> zoo_client_id c = Some (0, replicate 16 NUL)"
proof -
  let ?P = "(test_platform undefined)\<lparr>pf_os := threaded_resolving_os\<rparr>"
  obtain gone where g: "zookeeper_close threaded_resolving_os App_thread (\<lambda>_. Some) (zk_client idle_bag) = Some (ZOK, gone)" using idle_bag_closes by blast
  have "pf_os ?P = threaded_resolving_os" "pf_join ?P = (\<lambda>_. Some)" "pf_pipe ?P" by (simp_all add: test_platform_def)
  moreover have "zk_nodes idle_bag = ''a:1,b:2'' @ []" "\<not> w_null (zk_client idle_bag)" by (simp_all add: idle_bag_def)
  ultimately have "\<exists>c. recreate_session ?P idle_bag = Some (Inr (), idle_bag\<lparr>zk_clientid := Id_null, zk_client := c\<rparr>) \<and>
      fresh (pf_os ?P) c \<and> zh_hostname c = Some ''a:1,b:2'' \<and>
      zh_recv_timeout c = expected_session_timeout_seconds idle_bag \<and> zoo_client_id c = Some (0, replicate 16 NUL)"
    using g threaded_resolves no_chroot sample_hosts(1) by (intro recreated_session_is_new [of ?P idle_bag "''a:1,b:2''" "[]" gone]) auto
  then show ?thesis by blast
qed

end
