(* ===== verification/Election.thy ===== *)
theory Election
  imports Zookbag
begin

text \<open>
  The election program (\<^verbatim>\<open>ZOOK_MS/MyApp.cpp\<close>, \<^verbatim>\<open>ZOOK_MS/test.cpp\<close>): a standby process that competes for an ephemeral node, works while
  it holds it, and gives it back when the primary process shows its own node. The class \<^verbatim>\<open>MyApp\<close> is the record of \<^verbatim>\<open>zookbag\<close> with the
  members it adds; \<open>app_out\<close> is what the program has printed, one constructor for each line of output. \<open>rest\<close> is what the other
  threads, the watcher among them, do to the object while the program sleeps; a process that dies meanwhile is \<open>None\<close>.
\<close>

section \<open>The object\<close>

datatype line = Race_won | Start_working | Turn_to_slave | Restarted | A_master_exists | Race_failed int int string
  | To_recreate_session | Exit_now | Primary_exists | Working int | Connected | Created | Not_created | Connecting | Expired
  | Session_event int | Event int int | Changed_data int nat string

record myapp = zookbag +
  app_stop :: bool
  master_path :: string
  master_data :: string
  parent_path :: string
  node_name :: string
  node_data :: string
  app_out :: "line list"

definition say :: "line \<Rightarrow> myapp \<Rightarrow> myapp" where
  "say l x = x\<lparr>app_out := app_out x @ [l]\<rparr>"

definition new_myapp :: "client \<Rightarrow> cstr \<Rightarrow> string \<Rightarrow> string \<Rightarrow> string \<Rightarrow> string \<Rightarrow> myapp" where
  \<comment> \<open>the constructor; only \<^verbatim>\<open>data\<close> may be null\<close>
  "new_myapp w data path p_path zk_name zk_data = zookbag.extend (new_zookbag w)
     \<lparr>app_stop = False, master_path = path, master_data = (case data of None \<Rightarrow> '''' | Some d \<Rightarrow> d), parent_path = p_path,
      node_name = zk_name, node_data = zk_data, app_out = []\<rparr>"

definition stop :: "myapp \<Rightarrow> myapp" where
  "stop x = x\<lparr>app_stop := True\<rparr>"

section \<open>Events\<close>

definition app_session_connected :: "platform \<Rightarrow> cstr \<Rightarrow> myapp \<Rightarrow> (unit, myapp) outcome" where
  "app_session_connected P path x = do {
     (r, x) \<leftarrow> create_node_flags P (parent_path x) (node_name x) (node_data x) ZOO_EPHEMERAL (say Connected x);
     case r of
       Inr _ \<Rightarrow> Some (Inr (), say Created x)
     | Inl (Int_exn i) \<Rightarrow> Some (Inr (), say Not_created x)
     | Inl e \<Rightarrow> Some (Inl e, x)
   }"

definition app_session_connecting :: "cstr \<Rightarrow> myapp \<Rightarrow> (unit, myapp) outcome" where
  "app_session_connecting path x = Some (Inr (), say Connecting x)"

definition app_session_expired :: "cstr \<Rightarrow> myapp \<Rightarrow> (unit, myapp) outcome" where
  "app_session_expired path x = Some (Inr (), say Expired x)"

definition app_session_event :: "int \<Rightarrow> cstr \<Rightarrow> myapp \<Rightarrow> (unit, myapp) outcome" where
  "app_session_event state path x = Some (Inr (), say (Session_event state) x)"

definition app_event :: "platform \<Rightarrow> int \<Rightarrow> int \<Rightarrow> cstr \<Rightarrow> myapp \<Rightarrow> (unit, myapp) outcome" where
  "app_event P type state path x =
     (let x = say (Event type state) x in
      if type = 3
      then seq (get_zk_data_into P path '''' SIZE_4K True x) (\<lambda>(n, zk_data) x.
             Some (Inr (), say (Changed_data n (length zk_data) (c_str zk_data)) x))
      else Some (Inr (), x))"

definition app_virtuals :: "platform \<Rightarrow> myapp virtuals" where
  "app_virtuals P = \<lparr>on_zookeeper_session_connected = app_session_connected P, on_zookeeper_session_connecting = app_session_connecting,
     on_zookeeper_session_expired = app_session_expired, on_zookeeper_session_event = app_session_event,
     on_zookeeper_event = app_event P\<rparr>"

section \<open>The loops\<close>

partial_function (option) work :: "platform \<Rightarrow> (int \<Rightarrow> myapp \<Rightarrow> myapp option) \<Rightarrow> myapp \<Rightarrow> (unit, myapp) outcome" where
  "work F rest s =
     (if app_stop s then Some (Inr (), s)
      else do {
        (expired, s) \<leftarrow> is_session_expired F s;
        if expired then Some (Inr (), s)
        else do {
          (zhu, s) \<leftarrow> is_zhu_exist F s;
          if zhu \<and> zookbag_is_connected s then
            seq (delete_node F (master_path s) (- 1) (say Primary_exists s)) (\<lambda>_ s. do { s \<leftarrow> rest 10000 s; Some (Inr (), s) })
          else do {
            s \<leftarrow> rest 2000 s;
            work F rest (say (Working (get_state s)) s)
          }
        }
      })"

definition turn_to_slave :: "myapp \<Rightarrow> myapp" where
  "turn_to_slave x = (if \<not> app_stop x then say Turn_to_slave x else x)"

definition run_round :: "platform \<Rightarrow> (int \<Rightarrow> myapp \<Rightarrow> myapp option) \<Rightarrow> myapp \<Rightarrow> (unit, myapp) outcome" where
  \<comment> \<open>the body of the loop of \<^verbatim>\<open>MyApp::run\<close>\<close>
  "run_round P rest x = do {
     ((won, zk_errcode, zk_errmsg), x) \<leftarrow> race_master P (master_path x) (master_data x) (Some ZOO_OPEN_ACL_UNSAFE) x;
     if won then seq (work P rest (say Start_working (say Race_won x))) (\<lambda>_ x. Some (Inr (), turn_to_slave x))
     else seq
       (if zk_errcode = ZNODEEXISTS then do {
          _ \<leftarrow> c_assert (length (c_str (master_path x)) < 512);
          seq (get_zk_data P (Some (c_str (master_path x))) 512 True x) (\<lambda>d x.
            if d = ''zk_1'' then seq (work P rest (say Restarted x)) (\<lambda>_ x. Some (Inr (), turn_to_slave x))
            else Some (Inr (), say A_master_exists x))
        }
        else
          let x = say (Race_failed (get_state x) zk_errcode zk_errmsg) x in
          if zk_errcode = ZSESSIONEXPIRED \<or> zk_errcode = ZINVALIDSTATE then recreate_session P (say To_recreate_session x)
          else Some (Inr (), x))
       (\<lambda>_ x. do { x \<leftarrow> rest 2000 x; Some (Inr (), x) })
   }"

partial_function (option) run :: "platform \<Rightarrow> (int \<Rightarrow> myapp \<Rightarrow> myapp option) \<Rightarrow> myapp \<Rightarrow> (unit, myapp) outcome" where
  "run F rest s =
     (if app_stop s then Some (Inr (), say Exit_now s)
      else do {
        (r, s) \<leftarrow> run_round F rest s;
        (case r of Inl e \<Rightarrow> Some (Inl e, s) | Inr _ \<Rightarrow> run F rest s)
      })"

section \<open>The program\<close>

datatype exit_status = Exited int | Terminated

definition setting :: "nat \<Rightarrow> string \<Rightarrow> string" where
  \<comment> \<open>\<^verbatim>\<open>GetPrivateProfileString\<close> with a buffer of \<open>n\<close> characters\<close>
  "setting n s = take (n - 1) s"

definition main_app ::
  "platform \<Rightarrow> (int \<Rightarrow> myapp \<Rightarrow> myapp option) \<Rightarrow> client \<Rightarrow> string \<Rightarrow> string \<Rightarrow> string \<Rightarrow> i32 \<Rightarrow> string \<Rightarrow> string \<Rightarrow> string \<Rightarrow>
   (exit_status \<times> myapp) option" where
  \<comment> \<open>\<^verbatim>\<open>main\<close> from the settings on, the timeout as \<^verbatim>\<open>atoi\<close> reads it; leaving the block runs the destructor, which must not throw, and an
    exception that has no handler ends the process\<close>
  "main_app P rest w host path data session_timeout_seconds p_path name zk_data = do {
     let myapp = new_myapp w (Some (setting 512 data)) (setting 512 path) (setting 256 p_path) (setting 256 name) (setting 512 zk_data);
     (r, x) \<leftarrow> seq (create_session P (setting 64 host) session_timeout_seconds myapp) (\<lambda>_ x. run P rest x);
     (case r of
        Inr _ \<Rightarrow> do { (q, x) \<leftarrow> close_session P x; Some (case q of Inl e \<Rightarrow> Terminated | Inr _ \<Rightarrow> Exited 0, x) }
      | Inl (Int_exn i) \<Rightarrow> Some (Terminated, x)
      | Inl Length_error \<Rightarrow> Some (Terminated, x)
      | Inl Bad_alloc \<Rightarrow> Some (Terminated, x)
      | Inl e \<Rightarrow> do { (q, x) \<leftarrow> close_session P x; Some (case q of Inl e \<Rightarrow> Terminated | Inr _ \<Rightarrow> Exited 1, x) })
   }"

section \<open>Properties\<close>

lemma served_next:
  assumes "served_platform P srv b" and "one_call_later (pf_os P) op req (zk_client b) d" and "\<not> reserved_xid (xid_of P b + 1)"
  shows "served_platform P srv (b\<lparr>zk_client := d\<rparr>)" "xid_of P (b\<lparr>zk_client := d\<rparr>) = xid_of P b + 1"
    "good_path (pf_os P) d mode path \<longleftrightarrow> good_path (pf_os P) (zk_client b) mode path" "zh_chroot d = zh_chroot (zk_client b)"
proof -
  have "next_xid (pf_os P) d = xid_of P b + 1"
    using assms(2,3) by (auto simp: one_call_later_def next_xid_def xid_of_def reserved_xid_def split: if_splits)
  then show "served_platform P srv (b\<lparr>zk_client := d\<rparr>)" "xid_of P (b\<lparr>zk_client := d\<rparr>) = xid_of P b + 1"
    using assms by (simp_all add: served_platform_def one_call_later_def xid_of_def)
  show "zh_chroot d = zh_chroot (zk_client b)" using assms(2) by (simp add: one_call_later_def)
  then show "good_path (pf_os P) d mode path \<longleftrightarrow> good_path (pf_os P) (zk_client b) mode path" by (simp add: good_path_def)
qed

lemma is_zhu_exist_served:
  assumes "served_platform P srv b" and "good_path (pf_os P) (zk_client b) 0 ''/nodes/test''" and "replies srv (xid_of P b) err bs"
    and "err = 0 \<longrightarrow> (\<exists>st rest. bs = enc_SetDataResponse st @ rest \<and> SetDataResponse_ok st)"
  shows "\<exists>d. is_zhu_exist P b = Some (sint err \<noteq> ZNONODE, b\<lparr>zk_client := d\<rparr>) \<and>
    one_call_later (pf_os P) ZOO_EXISTS_OP
      (enc_ExistsRequest \<lparr>ExistsRequest_path = Some (seen_path b ''/nodes/test''), ExistsRequest_watch = 0\<rparr>) (zk_client b) d"
proof -
  obtain d where "zoo_exists (pf_os P) (pf_run P) (pf_sync P) (Some ''/nodes/test'') False None (zk_client b) = Some (sint err, None, d)"
    "one_call_later (pf_os P) ZOO_EXISTS_OP
      (enc_ExistsRequest \<lparr>ExistsRequest_path = Some (seen_path b ''/nodes/test''), ExistsRequest_watch = 0\<rparr>) (zk_client b) d"
    using zoo_exists_served [OF _ assms(2) _ assms(4), where srv = srv and a = "pf_sync P"] assms(1,3)
    by (auto simp: served_platform_def xid_of_def seen_path_def c_str_def)
  then show ?thesis by (auto simp: is_zhu_exist_def)
qed

lemma delete_node_served:
  assumes "served_platform P srv b" and "good_path (pf_os P) (zk_client b) 0 (c_str path)" and "replies srv (xid_of P b) err bs"
  shows "\<exists>d. delete_node P path version b =
      Some (if err = 0 then Inr () else Inl (failed P ''delete path://'' (c_str path) '' failed: '' (sint err)), b\<lparr>zk_client := d\<rparr>) \<and>
    one_call_later (pf_os P) ZOO_DELETE_OP
      (enc_DeleteRequest \<lparr>DeleteRequest_path = Some (seen_path b path), DeleteRequest_version = version\<rparr>) (zk_client b) d"
proof -
  obtain d where "zoo_delete (pf_os P) (pf_run P) (pf_sync P) (Some (c_str path)) version (zk_client b) = Some (sint err, d)"
    "one_call_later (pf_os P) ZOO_DELETE_OP
      (enc_DeleteRequest \<lparr>DeleteRequest_path = Some (seen_path b path), DeleteRequest_version = version\<rparr>) (zk_client b) d"
    using zoo_delete_served [OF _ assms(2), where srv = srv and a = "pf_sync P" and version = version] assms(1,3)
    by (auto simp: served_platform_def xid_of_def seen_path_def)
  then show ?thesis using err_sint [of err] by (auto simp: delete_node_def checked_def)
qed

definition exists_frame :: "platform \<Rightarrow> 'a zookbag_scheme \<Rightarrow> bytes" where
  \<comment> \<open>the question for the node of the primary\<close>
  "exists_frame P b = frame (enc_RequestHeader \<lparr>RequestHeader_xid = xid_of P b, RequestHeader_type = ZOO_EXISTS_OP\<rparr> @
     enc_ExistsRequest \<lparr>ExistsRequest_path = Some (seen_path b ''/nodes/test''), ExistsRequest_watch = 0\<rparr>)"

definition delete_frame :: "platform \<Rightarrow> myapp \<Rightarrow> bytes" where
  \<comment> \<open>the request after it, which deletes the master node whatever its version\<close>
  "delete_frame P x = frame (enc_RequestHeader \<lparr>RequestHeader_xid = xid_of P x + 1, RequestHeader_type = ZOO_DELETE_OP\<rparr> @
     enc_DeleteRequest \<lparr>DeleteRequest_path = Some (seen_path x (master_path x)), DeleteRequest_version = - 1\<rparr>)"

definition asks_primary :: "platform \<Rightarrow> (i32 \<Rightarrow> buffer_list) \<Rightarrow> i32 \<Rightarrow> myapp \<Rightarrow> bool" where
  \<comment> \<open>a program at work on a live session, and a server that answers its question with this code\<close>
  "asks_primary P srv err x \<longleftrightarrow> served_platform P srv x \<and> \<not> app_stop x \<and> start_connect_time x = 0 \<and>
     zoo_state (zk_client x) = ZOO_CONNECTED_STATE \<and> good_path (pf_os P) (zk_client x) 0 ''/nodes/test'' \<and>
     (\<exists>bs. replies srv (xid_of P x) err bs \<and> (err = 0 \<longrightarrow> (\<exists>st rest. bs = enc_SetDataResponse st @ rest \<and> SetDataResponse_ok st)))"

lemma asks_primary_step:
  assumes "asks_primary P srv err x"
  shows "\<exists>d. is_session_expired P x = Some (False, x) \<and> is_zhu_exist P x = Some (sint err \<noteq> ZNONODE, x\<lparr>zk_client := d\<rparr>) \<and>
    zookbag_is_connected (x\<lparr>zk_client := d\<rparr>) \<and> out_stream d = out_stream (zk_client x) @ exists_frame P x \<and>
    one_call_later (pf_os P) ZOO_EXISTS_OP
      (enc_ExistsRequest \<lparr>ExistsRequest_path = Some (seen_path x ''/nodes/test''), ExistsRequest_watch = 0\<rparr>) (zk_client x) d"
proof -
  obtain bs where bs: "replies srv (xid_of P x) err bs"
    "err = 0 \<longrightarrow> (\<exists>st rest. bs = enc_SetDataResponse st @ rest \<and> SetDataResponse_ok st)" using assms by (auto simp: asks_primary_def)
  obtain d where d: "is_zhu_exist P x = Some (sint err \<noteq> ZNONODE, x\<lparr>zk_client := d\<rparr>)" "one_call_later (pf_os P) ZOO_EXISTS_OP
      (enc_ExistsRequest \<lparr>ExistsRequest_path = Some (seen_path x ''/nodes/test''), ExistsRequest_watch = 0\<rparr>) (zk_client x) d"
    using is_zhu_exist_served [OF _ _ bs] assms by (auto simp: asks_primary_def)
  have "is_session_expired P x = Some (False, x)" using assms by (simp add: asks_primary_def is_session_expired_def)
  moreover have "zookbag_is_connected (x\<lparr>zk_client := d\<rparr>)"
    using assms d(2) by (simp add: asks_primary_def one_call_later_def zookbag_is_connected_def zoo_state_def split: if_splits)
  ultimately show ?thesis
    using d by (intro exI [of _ d]) (simp add: one_call_later_def exists_frame_def xid_of_def)
qed

text \<open>
  (C7) The standby gives way to the primary. At work on a connected session it asks for the node of the primary; when the server answers
  anything but \<^verbatim>\<open>ZNONODE\<close>, it deletes the master node, whatever its version, and the work ends after ten seconds of rest, or with an
  exception when the deletion fails.
\<close>

theorem standby_gives_way:
  assumes "asks_primary P srv err x" and "sint err \<noteq> ZNONODE" and "good_path (pf_os P) (zk_client x) 0 (c_str (master_path x))"
    and "\<not> reserved_xid (xid_of P x + 1)" and "replies srv (xid_of P x + 1) err' bs"
  shows "\<exists>d. work P rest x = (if err' = 0 then do { y \<leftarrow> rest 10000 (say Primary_exists x\<lparr>zk_client := d\<rparr>); Some (Inr (), y) }
      else Some (Inl (failed P ''delete path://'' (c_str (master_path x)) '' failed: '' (sint err')), say Primary_exists x\<lparr>zk_client := d\<rparr>)) \<and>
    out_stream d = out_stream (zk_client x) @ exists_frame P x @ delete_frame P x"
proof -
  have sp: "served_platform P srv x" and ns: "\<not> app_stop x" using assms(1) by (simp_all add: asks_primary_def)
  obtain d where d: "is_session_expired P x = Some (False, x)" "is_zhu_exist P x = Some (True, x\<lparr>zk_client := d\<rparr>)"
    "zookbag_is_connected (x\<lparr>zk_client := d\<rparr>)" "out_stream d = out_stream (zk_client x) @ exists_frame P x"
    "one_call_later (pf_os P) ZOO_EXISTS_OP
      (enc_ExistsRequest \<lparr>ExistsRequest_path = Some (seen_path x ''/nodes/test''), ExistsRequest_watch = 0\<rparr>) (zk_client x) d"
    using asks_primary_step [OF assms(1)] assms(2) by auto
  let ?y = "say Primary_exists (x\<lparr>zk_client := d\<rparr>)"
  note n = served_next [OF sp d(5) assms(4)]
  have y: "served_platform P srv ?y" "good_path (pf_os P) (zk_client ?y) 0 (c_str (master_path x))" "xid_of P ?y = xid_of P x + 1"
    "seen_path ?y = seen_path x"
    using n assms(3) by (simp_all add: say_def served_platform_def xid_of_def seen_path_def [abs_def])
  obtain e where e: "delete_node P (master_path x) (- 1) ?y = Some (if err' = 0 then Inr ()
      else Inl (failed P ''delete path://'' (c_str (master_path x)) '' failed: '' (sint err')), ?y\<lparr>zk_client := e\<rparr>)"
    "one_call_later (pf_os P) ZOO_DELETE_OP (enc_DeleteRequest \<lparr>DeleteRequest_path = Some (seen_path ?y (master_path x)),
      DeleteRequest_version = - 1\<rparr>) (zk_client ?y) e"
    using delete_node_served [OF y(1,2), of err' bs "- 1"] assms(5) y(3) by auto
  have "work P rest x = (if err' = 0 then do { y \<leftarrow> rest 10000 (say Primary_exists x\<lparr>zk_client := e\<rparr>); Some (Inr (), y) }
      else Some (Inl (failed P ''delete path://'' (c_str (master_path x)) '' failed: '' (sint err')), say Primary_exists x\<lparr>zk_client := e\<rparr>))"
    using ns d(1-3) e(1) by (subst work.simps) (simp add: seq_def say_def)
  moreover have "out_stream e = out_stream (zk_client x) @ exists_frame P x @ delete_frame P x"
    using e(2) d(4) y(3,4) by (simp add: one_call_later_def delete_frame_def xid_of_def say_def)
  ultimately show ?thesis by blast
qed

text \<open>
  While the primary has no node the standby goes on: one question leaves, nothing is deleted, and after two seconds of rest the loop
  starts again.
\<close>

theorem standby_keeps_working:
  assumes "asks_primary P srv err x" and "sint err = ZNONODE"
  shows "\<exists>d. work P rest x = do { y \<leftarrow> rest 2000 (x\<lparr>zk_client := d\<rparr>); work P rest (say (Working (get_state y)) y) } \<and>
    out_stream d = out_stream (zk_client x) @ exists_frame P x \<and> zoo_state d = ZOO_CONNECTED_STATE"
proof -
  obtain d where "is_session_expired P x = Some (False, x)" "is_zhu_exist P x = Some (False, x\<lparr>zk_client := d\<rparr>)"
    "zookbag_is_connected (x\<lparr>zk_client := d\<rparr>)" "out_stream d = out_stream (zk_client x) @ exists_frame P x"
    using asks_primary_step [OF assms(1)] assms(2) by auto
  moreover have "\<not> app_stop x" using assms(1) by (simp add: asks_primary_def)
  ultimately show ?thesis by (intro exI [of _ d]) (subst work.simps, simp add: zookbag_is_connected_def)
qed

lemma lost_race_served:
  assumes "served_platform P srv x" and "good_path (pf_os P) (zk_client x) 1 (c_str (master_path x))" and "length (master_data x) \<le> 2 ^ 25"
    and "replies srv (xid_of P x) err bs" and "err \<noteq> 0"
  shows "\<exists>d. race_master P (master_path x) (master_data x) (Some ZOO_OPEN_ACL_UNSAFE) x =
      Some ((False, sint err, zerror (pf_strerror P) (sint err)), x\<lparr>zk_client := d\<rparr>) \<and>
    one_call_later (pf_os P) ZOO_CREATE_OP (ephemeral_request (seen_path x (master_path x)) (master_data x)) (zk_client x) d"
  using ephemeral_served [OF assms(1-4)] assms(5) err_sint [OF assms(5)] by (auto simp: race_master_def seen_path_def)

text \<open>
  (C10) A master node that exists already is taken for one's own by its contents alone: when the server reports \<^verbatim>\<open>ZNODEEXISTS\<close>, the program
  reads the node, starts to work when it holds the text \<^verbatim>\<open>zk_1\<close>, and otherwise rests for two seconds. Neither the data the program
  itself would have written nor the session that created the node plays a part.
\<close>

theorem existing_master_adopted_by_name:
  assumes "served_platform P srv x" and "good_path (pf_os P) (zk_client x) 1 (c_str (master_path x))"
    and "good_path (pf_os P) (zk_client x) 0 (c_str (master_path x))" and "length (c_str (master_path x)) < 512"
    and "length (master_data x) \<le> 2 ^ 25" and "replies srv (xid_of P x) (- 110) bs" and "\<not> reserved_xid (xid_of P x + 1)"
    and "replies srv (xid_of P x + 1) 0 (enc_GetDataResponse v @ bs')" and "GetDataResponse_ok v"
    and "cb_buff (GetDataResponse_data v) = Some d"
  shows "\<exists>c. run_round P rest x =
      (if take 512 d = ''zk_1''
       then seq (seq (work P rest (say Restarted (x\<lparr>zk_client := c\<rparr>))) (\<lambda>_ y. Some (Inr (), turn_to_slave y)))
         (\<lambda>_ y. do { z \<leftarrow> rest 2000 y; Some (Inr (), z) })
       else do { z \<leftarrow> rest 2000 (say A_master_exists (x\<lparr>zk_client := c\<rparr>)); Some (Inr (), z) })"
proof -
  obtain c where c: "race_master P (master_path x) (master_data x) (Some ZOO_OPEN_ACL_UNSAFE) x =
      Some ((False, ZNODEEXISTS, zerror (pf_strerror P) ZNODEEXISTS), x\<lparr>zk_client := c\<rparr>)"
    "one_call_later (pf_os P) ZOO_CREATE_OP (ephemeral_request (seen_path x (master_path x)) (master_data x)) (zk_client x) c"
    using lost_race_served [OF assms(1,2,5,6)] by auto
  note n = served_next [OF assms(1) c(2) assms(7)]
  have g: "good_path (pf_os P) (zk_client (x\<lparr>zk_client := c\<rparr>)) 0 (c_str (master_path x))" using n(3) assms(3) by simp
  obtain e where "get_zk_data P (Some (c_str (master_path x))) 512 True (x\<lparr>zk_client := c\<rparr>) = Some (Inr (take 512 d), x\<lparr>zk_client := e\<rparr>)"
    using get_served [OF n(1) g assms(8) [folded n(2)], where v = v and d = d and sz = 512 and watch = True] assms(9,10) by auto
  then show ?thesis
    using c(1) assms(4) by (intro exI [of _ e]) (simp add: run_round_def seq_def c_assert_def)
qed

text \<open>
  (C12) A master node without data ends the standby. The read reports the length \<open>- 1\<close>, to which the string is then resized, and the
  exception of the standard library, which is none of the program's own, leaves the loop of \<^verbatim>\<open>run\<close>.
\<close>

theorem null_master_data_ends_run:
  assumes "served_platform P srv x" and "\<not> app_stop x" and "good_path (pf_os P) (zk_client x) 1 (c_str (master_path x))"
    and "good_path (pf_os P) (zk_client x) 0 (c_str (master_path x))" and "length (c_str (master_path x)) < 512"
    and "length (master_data x) \<le> 2 ^ 25" and "replies srv (xid_of P x) (- 110) bs" and "\<not> reserved_xid (xid_of P x + 1)"
    and "replies srv (xid_of P x + 1) 0 (enc_GetDataResponse v @ bs')" and "GetDataResponse_ok v"
    and "cb_len (GetDataResponse_data v) = - 1"
  shows "\<exists>c. run P rest x = Some (Inl Length_error, x\<lparr>zk_client := c\<rparr>)"
proof -
  obtain c where c: "race_master P (master_path x) (master_data x) (Some ZOO_OPEN_ACL_UNSAFE) x =
      Some ((False, ZNODEEXISTS, zerror (pf_strerror P) ZNODEEXISTS), x\<lparr>zk_client := c\<rparr>)"
    "one_call_later (pf_os P) ZOO_CREATE_OP (ephemeral_request (seen_path x (master_path x)) (master_data x)) (zk_client x) c"
    using lost_race_served [OF assms(1,3,6,7)] by auto
  note n = served_next [OF assms(1) c(2) assms(8)]
  have r: "ready (pf_os P) c" "pf_run P = served (pf_os P) srv" "next_xid (pf_os P) c = xid_of P x + 1"
    using n(1,2) by (simp_all add: served_platform_def xid_of_def)
  have g: "good_path (pf_os P) c 0 (c_str (master_path x))" "grants (os_host (pf_os P)) 513"
    using n(3) assms(4) r(1) by (simp_all add: ready_def heap_ok_def good_hostD)
  obtain e where "zoo_get (pf_os P) (pf_run P) (pf_sync P) (Some (c_str (master_path x))) True (Some (string_resize 512 [])) (Some 512)
      (Some Stat_zero) c = Some (ZOK, Some (string_resize 512 []), Some (- 1), Some (GetDataResponse_stat v), e)"
    using zoo_get_null_served [OF r(1) g(1) assms(9) [folded r(3)] assms(10,11), of 512 "pf_sync P" True "string_resize 512 []" Stat_zero] r(2)
    by auto
  then have "get_zk_data P (Some (c_str (master_path x))) 512 True (x\<lparr>zk_client := c\<rparr>) = Some (Inl Length_error, x\<lparr>zk_client := e\<rparr>)"
    using g(2) by (simp add: get_zk_data_def get_zk_data_into_def seq_def)
  then have "run_round P rest x = Some (Inl Length_error, x\<lparr>zk_client := e\<rparr>)"
    using c(1) assms(5) by (simp add: run_round_def seq_def c_assert_def)
  then have "run P rest x = Some (Inl Length_error, x\<lparr>zk_client := e\<rparr>)" using assms(2) by (subst run.simps) simp
  then show ?thesis by blast
qed







definition clock :: "platform \<Rightarrow> 'a zookbag_scheme \<Rightarrow> int" where
  "clock P b = pf_time P (w_ticks (zk_client b))"

definition cut_off :: "int \<Rightarrow> i32 \<Rightarrow> myapp \<Rightarrow> bool" where
  \<comment> \<open>the program has been without a connection since the time \<open>t\<close>\<close>
  "cut_off t timeout x \<longleftrightarrow> start_connect_time x = t \<and> 0 < t \<and> \<not> w_null (zk_client x) \<and> zh_recv_timeout (zk_client x) = timeout \<and>
     zoo_state (zk_client x) \<noteq> ZOO_CONNECTED_STATE"

lemma cut_off_expires:
  assumes "cut_off t timeout x" and "clock P x - t < 2 ^ 31"
  shows "is_session_expired P x = (if zoo_state (zk_client x) = ZOO_EXPIRED_SESSION_STATE then Some (True, x)
    else Some (t < clock P x \<and> c_div (sint timeout) 1000 - 1 < clock P x - t, x\<lparr>zk_client := tick (zk_client x)\<rparr>))"
  using assms to_int32_id [of "clock P x - t"]
  by (auto simp: cut_off_def is_session_expired_def now_def clock_def get_session_timeout_milliseconds_def zoo_recv_timeout_def c_assert_def
      tick_def)

text \<open>
  (C8) A master that loses its connection stops by its own clock. Suppose that in every state \<open>S\<close> of a program that is cut off the question
  for the primary comes back, as it does when the library reports the loss, that a rest moves the clock on until the timeout is over, and that
  nothing reconnects; then the loop
  ends, without an exception, because the time since the loss comes to exceed the session timeout less one second.
\<close>

theorem cut_off_master_stops:
  assumes "S x" and "mono (pf_time P)" and "\<And>n. pf_time P n - t < 2 ^ 31" and cut: "\<And>y. S y \<Longrightarrow> cut_off t timeout y"
    and own: "\<And>y. S y \<Longrightarrow> S (y\<lparr>zk_client := tick (zk_client y)\<rparr>)" "\<And>y l. S y \<Longrightarrow> S (say l y)"
    and ask: "\<And>y. S y \<Longrightarrow> \<exists>zhu z. is_zhu_exist P y = Some (zhu, z) \<and> S z \<and> clock P y \<le> clock P z"
    and rest: "\<And>y. S y \<Longrightarrow> \<exists>z. rest 2000 y = Some z \<and> S z \<and> (clock P y < clock P z \<or> t + \<bar>c_div (sint timeout) 1000\<bar> < clock P z)"
  shows "\<exists>y. work P rest x = Some (Inr (), y)"
proof -
  have "\<exists>y. work P rest x = Some (Inr (), y)" if "S x" for x
    using that
  proof (induction "nat (t + \<bar>c_div (sint timeout) 1000\<bar> + 1 - clock P x)" arbitrary: x rule: less_induct)
    case less
    have exp: "is_session_expired P x = (if zoo_state (zk_client x) = ZOO_EXPIRED_SESSION_STATE then Some (True, x)
      else Some (t < clock P x \<and> c_div (sint timeout) 1000 - 1 < clock P x - t, x\<lparr>zk_client := tick (zk_client x)\<rparr>))"
      using cut_off_expires [OF cut [OF less.prems]] assms(3) by (simp add: clock_def)
    show ?case
    proof (cases "app_stop x \<or> zoo_state (zk_client x) = ZOO_EXPIRED_SESSION_STATE \<or>
        (t < clock P x \<and> c_div (sint timeout) 1000 - 1 < clock P x - t)")
      case True
      then show ?thesis by (subst work.simps) (auto simp: exp)
    next
      case False
      let ?x = "x\<lparr>zk_client := tick (zk_client x)\<rparr>"
      have le: "clock P x \<le> clock P ?x"
        using monoD [OF assms(2), of "w_ticks (zk_client x)" "w_ticks (zk_client x) + 1"] by (simp add: clock_def tick_def)
      from ask [OF own(1) [OF less.prems]] obtain zhu y where y: "is_zhu_exist P ?x = Some (zhu, y)" "S y" "clock P ?x \<le> clock P y" by blast
      from rest [OF y(2)] obtain z where z: "rest 2000 y = Some z" "S z" "clock P y < clock P z \<or> t + \<bar>c_div (sint timeout) 1000\<bar> < clock P z" by blast
      let ?z = "say (Working (get_state z)) z"
      have cz: "S ?z" "clock P ?z = clock P z" using own(2) [OF z(2)] by (simp_all add: say_def clock_def)
      have "nat (t + \<bar>c_div (sint timeout) 1000\<bar> + 1 - clock P ?z) < nat (t + \<bar>c_div (sint timeout) 1000\<bar> + 1 - clock P x)"
        using False le y(3) z(3) cz(2) by linarith
      from less.hyps [OF this cz(1)] obtain w where w: "work P rest ?z = Some (Inr (), w)" by blast
      have "\<not> zookbag_is_connected y" using cut [OF y(2)] by (simp add: cut_off_def zookbag_is_connected_def)
      then have "work P rest x = work P rest ?z"
        using False y(1) z(1) by (subst work.simps) (auto simp: exp)
      then show ?thesis using w by simp
    qed
  qed
  then show ?thesis using assms(1) .
qed

section \<open>Concrete runs\<close>

definition test_app :: myapp where
  "test_app = (new_myapp test_client (Some ''zk_2'') ''/master'' ''/nodes'' ''test1'' ''123'')\<lparr>zk_client := test_client\<rparr>"

lemma test_app_served: "served_platform (test_platform srv) srv test_app" "xid_of (test_platform srv) test_app = 5"
  "zk_client test_app = test_client" "pf_os (test_platform srv) = threaded_os"
  using ready_test by (simp_all add: served_platform_def test_platform_def test_app_def xid_of_def)

lemma test_app_fields [simp]: "master_path test_app = ''/master''" "master_data test_app = ''zk_2''" "\<not> app_stop test_app"
  "start_connect_time test_app = 0"
  by (simp_all add: test_app_def new_myapp_def zookbag.defs new_zookbag_def)

lemma test_paths:
  "good_path threaded_os test_client 0 ''/nodes/test''" "good_path threaded_os test_client 0 ''/master''"
  "good_path threaded_os test_client 1 ''/master''"
proof -
  have "isValidPath (Some ''/nodes/test'') 0 = Some True" "isValidPath (Some ''/master'') 0 = Some True"
    "isValidPath (Some ''/master'') 1 = Some True" by code_simp+
  then show "good_path threaded_os test_client 0 ''/nodes/test''" "good_path threaded_os test_client 0 ''/master''"
    "good_path threaded_os test_client 1 ''/master''"
    by (simp_all add: good_path_def path_fits_def server_path_def isValidPath_iff)
qed

lemma test_app_asks:
  assumes "srv 5 = packet_for 5 err (if err = 0 then enc_SetDataResponse SetDataResponse_zero else [])"
  shows "asks_primary (test_platform srv) srv err test_app"
proof -
  let ?bs = "if err = 0 then enc_SetDataResponse SetDataResponse_zero else []"
  have "length ?bs \<le> 2 ^ 20" by (simp add: enc_SetDataResponse_def enc_Stat_def)
  then have "replies srv 5 err ?bs" using assms by (intro packet_replies)
  moreover have "SetDataResponse_ok SetDataResponse_zero" by (simp add: SetDataResponse_ok_def Stat_ok_def)
  ultimately have "\<exists>bs. replies srv 5 err bs \<and> (err = 0 \<longrightarrow> (\<exists>st rest. bs = enc_SetDataResponse st @ rest \<and> SetDataResponse_ok st))"
    by (intro exI [of _ ?bs]) (auto intro: exI [of _ "[]"])
  then show ?thesis using test_app_served test_paths(1) by (simp add: asks_primary_def zoo_state_def)
qed

theorem standby_gives_way_witness:
  "\<exists>d. work (test_platform (\<lambda>xid. packet_for xid 0 (if xid = 5 then enc_SetDataResponse SetDataResponse_zero else []))) (\<lambda>_. Some) test_app =
     Some (Inr (), say Primary_exists test_app\<lparr>zk_client := d\<rparr>)"
proof -
  let ?srv = "\<lambda>xid. packet_for xid 0 (if xid = 5 then enc_SetDataResponse SetDataResponse_zero else [])"
  have "asks_primary (test_platform ?srv) ?srv 0 test_app" by (rule test_app_asks) simp
  moreover have "replies ?srv 6 0 []" by (rule packet_replies) simp_all
  ultimately show ?thesis
    using standby_gives_way [of "test_platform ?srv" ?srv 0 test_app 0 "[]" "\<lambda>_. Some"] test_app_served test_paths(2)
    by (auto simp: c_str_def reserved_xid_def)
qed

theorem standby_keeps_working_witness:
  "\<exists>d. work (test_platform (\<lambda>xid. packet_for xid (- 101) [])) (\<lambda>_ x. Some (stop x)) test_app =
     Some (Inr (), say (Working 3) (stop (test_app\<lparr>zk_client := d\<rparr>)))"
proof -
  let ?srv = "\<lambda>xid. packet_for xid (- 101) []"
  have "asks_primary (test_platform ?srv) ?srv (- 101) test_app" by (rule test_app_asks) simp
  then show ?thesis
    using standby_keeps_working [of "test_platform ?srv" ?srv "- 101" test_app "\<lambda>_ x. Some (stop x)"]
    by (auto simp: stop_def get_state_def say_def work.simps)
qed

definition zk_1_data :: GetDataResponse where
  "zk_1_data = \<lparr>GetDataResponse_data = \<lparr>cb_len = 4, cb_buff = Some ''zk_1''\<rparr>, GetDataResponse_stat = Stat_zero\<rparr>"

theorem existing_master_adopted_by_name_witness:
  "\<exists>c. run_round (test_platform (\<lambda>xid. if xid = 5 then packet_for 5 (- 110) [] else packet_for xid 0 (enc_GetDataResponse zk_1_data)))
     (\<lambda>_. Some) test_app =
   seq (seq (work (test_platform (\<lambda>xid. if xid = 5 then packet_for 5 (- 110) [] else packet_for xid 0 (enc_GetDataResponse zk_1_data)))
     (\<lambda>_. Some) (say Restarted (test_app\<lparr>zk_client := c\<rparr>))) (\<lambda>_ y. Some (Inr (), turn_to_slave y))) (\<lambda>_ y. Some (Inr (), y))"
proof -
  let ?srv = "\<lambda>xid. if xid = 5 then packet_for 5 (- 110) [] else packet_for xid 0 (enc_GetDataResponse zk_1_data)"
  have "length (enc_GetDataResponse zk_1_data) \<le> 2 ^ 20" by (simp add: enc_GetDataResponse_def zk_1_data_def enc_buffer_def enc_Stat_def)
  then have "replies ?srv 6 0 (enc_GetDataResponse zk_1_data @ [])" by (intro packet_replies) simp_all
  moreover have "replies ?srv 5 (- 110) []" by (rule packet_replies) simp_all
  moreover have "GetDataResponse_ok zk_1_data" by (simp add: GetDataResponse_ok_def zk_1_data_def cbuffer_ok_def Stat_ok_def)
  ultimately show ?thesis
    using existing_master_adopted_by_name [of "test_platform ?srv" ?srv test_app "[]" zk_1_data "[]" "''zk_1''" "\<lambda>_. Some"]
      test_app_served test_paths
    by (simp add: c_str_def reserved_xid_def zk_1_data_def)
qed

definition null_data :: GetDataResponse where
  "null_data = \<lparr>GetDataResponse_data = \<lparr>cb_len = - 1, cb_buff = None\<rparr>, GetDataResponse_stat = Stat_zero\<rparr>"

theorem null_master_data_ends_run_witness:
  "\<exists>c. run (test_platform (\<lambda>xid. if xid = 5 then packet_for 5 (- 110) [] else packet_for xid 0 (enc_GetDataResponse null_data)))
     (\<lambda>_. Some) test_app = Some (Inl Length_error, test_app\<lparr>zk_client := c\<rparr>)"
proof -
  let ?srv = "\<lambda>xid. if xid = 5 then packet_for 5 (- 110) [] else packet_for xid 0 (enc_GetDataResponse null_data)"
  have "length (enc_GetDataResponse null_data) \<le> 2 ^ 20" by (simp add: enc_GetDataResponse_def null_data_def enc_buffer_def enc_Stat_def)
  then have "replies ?srv 6 0 (enc_GetDataResponse null_data @ [])" by (intro packet_replies) simp_all
  moreover have "replies ?srv 5 (- 110) []" by (rule packet_replies) simp_all
  moreover have "GetDataResponse_ok null_data" by (simp add: GetDataResponse_ok_def null_data_def cbuffer_ok_def Stat_ok_def)
  ultimately show ?thesis
    using null_master_data_ends_run [of "test_platform ?srv" ?srv test_app "[]" null_data "[]" "\<lambda>_. Some"] test_app_served test_paths
    by (auto simp: c_str_def reserved_xid_def null_data_def)
qed

definition shut_out :: "int \<Rightarrow> myapp \<Rightarrow> bool" where
  \<comment> \<open>the states of a program whose handle has failed to authenticate and is refused every call\<close>
  "shut_out t x \<longleftrightarrow> cut_off t 10000 x \<and> works threaded_os (zk_client x) \<and> zh_chroot (zk_client x) = None \<and>
     zh_state (zk_client x) = ZOO_AUTH_FAILED_STATE"

lemma shut_out_asks:
  assumes "shut_out t x"
  shows "\<exists>z. is_zhu_exist (test_platform srv) x = Some (True, z) \<and> shut_out t z \<and>
    clock (test_platform srv) x = clock (test_platform srv) z"
proof -
  let ?c = "zk_client x" and ?s = "\<lparr>sc_rc = 0, sc_complete = False, sc_u = U_none, sc_buffer = None\<rparr>"
  let ?d = "?c\<lparr>w_syncs := (w_syncs ?c)(40 \<mapsto> ?s)\<rparr>"
  have x: "works threaded_os ?c" "zh_chroot ?c = None" "zh_state ?c = ZOO_AUTH_FAILED_STATE" "\<not> w_null ?c"
    using assms by (simp_all add: shut_out_def works_def)
  have v: "path_fits None ''/nodes/test''" "valid_path 0 (server_path None ''/nodes/test'')" using test_paths(1) by (simp_all add: good_path_def)
  have wd: "works threaded_os ?d" using x(1) by (simp add: works_def xid_left_def threaded_os_def has_clock_def)
  have "refuses threaded_os ?d (zoo_awexists threaded_os (Some ''/nodes/test'') 0 (zh_context ?c) SYNCHRONOUS_MARKER 40 ?d) ZINVALIDSTATE"
    using awexists.refused(2) [OF _ wd, of "''/nodes/test''" 0 "zh_context ?c" SYNCHRONOUS_MARKER 40] x v by simp
  then have r: "zoo_awexists threaded_os (Some ''/nodes/test'') 0 (zh_context ?c) SYNCHRONOUS_MARKER 40 ?d = Some (ZINVALIDSTATE, drew_xid threaded_os ?d)"
    by (simp add: refuses_def)
  have "grants (os_host threaded_os) 192" using x(1) by (simp add: works_def good_hostD)
  then have "is_zhu_exist (test_platform srv) x = Some (True, x\<lparr>zk_client := free_sync_completion 40 (drew_xid threaded_os ?d)\<rparr>)"
    using r x(4) by (simp add: is_zhu_exist_def zoo_exists_def zoo_wexists_def sync_call_def alloc_sync_completion_def test_platform_def
        stat_out_def c_assert_def)
  moreover have "shut_out t (x\<lparr>zk_client := free_sync_completion 40 (drew_xid threaded_os ?d)\<rparr>)"
    using assms by (simp add: shut_out_def cut_off_def works_def xid_left_def free_sync_completion_def drew_xid_def zoo_state_def threaded_os_def)
  ultimately show ?thesis by (simp add: clock_def free_sync_completion_def drew_xid_def)
qed

definition slow_platform :: platform where
  "slow_platform = (test_platform (\<lambda>_. packet_for 0 0 []))\<lparr>pf_time := (\<lambda>n. min (int n) 1000)\<rparr>"

lemma test_timeout: "zh_recv_timeout test_client = 10000"
  by (simp add: test_client_def)

theorem cut_off_master_stops_witness:
  "\<exists>y. work slow_platform (\<lambda>_ x. Some (x\<lparr>zk_client := tick (zk_client x)\<rparr>))
     (test_app\<lparr>start_connect_time := 1, zk_client := test_client\<lparr>zh_state := ZOO_AUTH_FAILED_STATE\<rparr>\<rparr>) = Some (Inr (), y)"
proof (rule cut_off_master_stops [where S = "shut_out 1" and t = 1 and timeout = 10000])
  show "shut_out 1 (test_app\<lparr>start_connect_time := 1, zk_client := test_client\<lparr>zh_state := ZOO_AUTH_FAILED_STATE\<rparr>\<rparr>)"
    using ready_test(1) test_timeout by (simp add: shut_out_def cut_off_def zoo_state_def ready_def works_def xid_left_def next_xid_def)
  show "mono (pf_time slow_platform)" by (auto simp: mono_def slow_platform_def)
  show "pf_time slow_platform n - 1 < 2 ^ 31" for n by (simp add: slow_platform_def min_def)
  show "cut_off 1 10000 y" if "shut_out 1 y" for y using that by (simp add: shut_out_def)
  show t: "shut_out 1 (y\<lparr>zk_client := tick (zk_client y)\<rparr>)" if "shut_out 1 y" for y
    using that by (simp add: shut_out_def cut_off_def tick_def zoo_state_def works_def xid_left_def threaded_os_def has_clock_def)
  show "shut_out 1 (say l y)" if "shut_out 1 y" for y l using that by (simp add: shut_out_def cut_off_def say_def)
  show "\<exists>zhu z. is_zhu_exist slow_platform y = Some (zhu, z) \<and> shut_out 1 z \<and> clock slow_platform y \<le> clock slow_platform z"
    if "shut_out 1 y" for y
    using shut_out_asks [OF that, of "\<lambda>_. packet_for 0 0 []"]
    by (auto simp: slow_platform_def is_zhu_exist_def clock_def test_platform_def)
  show "\<exists>z. Some (y\<lparr>zk_client := tick (zk_client y)\<rparr>) = Some z \<and> shut_out 1 z \<and>
      (clock slow_platform y < clock slow_platform z \<or> 1 + \<bar>c_div (sint (10000 :: i32)) 1000\<bar> < clock slow_platform z)"
    if "shut_out 1 y" for y
    using t [OF that] by (auto simp: clock_def slow_platform_def tick_def c_div_def)
qed


end
