(* ===== verification/Spec2Isabelle.thy ===== *)
theory Spec2Isabelle
  imports PtrQueue JuteServer Closing Election
begin

text \<open>
  A model of the ZooKeeper C client (\<^verbatim>\<open>src/zookeeper-client-c\<close>) and of the standby election program on top of it (\<^verbatim>\<open>src/ZOOK_MS\<close>), with
  the properties that make them correct and some that show where they are not.

  \<^bold>\<open>The program.\<close> A client holds a \<^verbatim>\<open>zhandle_t\<close>: a connection to one server of a list, a session, queues of bytes to send and received, the
  list of requests that wait for a reply, and tables of watchers. A call of the API serialises a request with the generated jute code,
  appends an entry to the outstanding requests and a packet to the send queue. An event loop, either the caller's (\<^verbatim>\<open>st_adaptor.c\<close>)
  or two threads of the library (\<^verbatim>\<open>mt_adaptor.c\<close>), asks \<^verbatim>\<open>zookeeper_interest\<close> what to wait for and lets
  \<^verbatim>\<open>zookeeper_process\<close> send, receive, match replies with the oldest request and call completions and watchers. Synchronous
  calls wait until a thread of the library has processed their reply. The election program creates an ephemeral node through the synchronous
  calls, works while it owns it, and gives it back when the primary process appears.

  \<^bold>\<open>The theories\<close>, in the order of their imports, with the code they follow.

  \<^item> \<open>ZkPrelude\<close>: bytes, C strings, the allocator \<open>host\<close>, codes of the API, \<open>c_assert\<close>, and the lemmas on words, lists and options that the others
    share. \<open>Outcome\<close>: the calculus \<open>holds\<close> for partial results.
  \<^item> \<open>Recordio\<close> (\<^verbatim>\<open>recordio.c\<close>): the growing output archive and the bounded input archive; the locale \<open>codec\<close> says that a reader undoes a
    writer, and is interpreted for the primitives here and for each record later. \<open>JuteBase\<close>, \<open>Jute\<close>, \<open>JuteServer\<close>
    (\<^verbatim>\<open>generated/zookeeper.jute.c\<close>): vectors and every record, with codec laws. \<open>Overlong\<close>: reading from an archive that is opened four bytes too long, as
    \<^verbatim>\<open>zookeeper_process\<close> does.
  \<^item> \<open>Addrvec\<close> (\<^verbatim>\<open>addrvec.c\<close>): the list of addresses and its cursor. \<open>Hashtable\<close> (\<^verbatim>\<open>hashtable/\<close>): the table with its iterator, a
    refinement of maps stated by the locale \<open>map_table\<close>. \<open>Watchers\<close> (\<^verbatim>\<open>zk_hashtable.c\<close>): registration, collection, delivery and removal of
    watchers. \<open>Paths\<close>: \<^verbatim>\<open>isValidPath\<close> and the chroot. \<open>PtrQueue\<close>: the linked queues on an explicit heap, which refine lists (locale
    \<open>pointer_queue\<close>); the other theories use the lists.
  \<^item> \<open>Framing\<close>: \<^verbatim>\<open>send_buffer\<close> and \<^verbatim>\<open>recv_buffer\<close> on a socket that takes or gives any part of the data. \<open>Handle\<close>: the record \<open>client\<close>, which is the
    handle with the process around it, the environment \<open>os\<close>, the clock, completions and the flush of the send queue.
  \<^item> \<open>Requests\<close>: the asynchronous calls; the locale \<open>async_call\<close> proves once what an accepted and a refused call does, and is interpreted on
    every call. \<open>Session\<close>: pings, authentication, watches set again, the handshake records. \<open>Response\<close>: decoding of replies, the
    queue of completions, the answers to all requests of a lost connection. \<open>Events\<close>: the handshake, \<^verbatim>\<open>check_events\<close>,
    \<^verbatim>\<open>zookeeper_process\<close>, \<^verbatim>\<open>zookeeper_close\<close>. \<open>Multi\<close>: \<^verbatim>\<open>zoo_amulti\<close> and the removal of watches. \<open>Sync\<close>: the synchronous calls.
  \<^item> \<open>Servers\<close>: \<^verbatim>\<open>resolve_hosts\<close>, \<^verbatim>\<open>update_addrs\<close>, \<^verbatim>\<open>zoo_cycle_next_server\<close>. \<open>Interest\<close>: \<^verbatim>\<open>zookeeper_interest\<close> and \<^verbatim>\<open>zookeeper_init\<close>.
  \<^item> \<open>Lifecycle\<close>: the locales \<open>handle_invariant\<close> and \<open>session_invariant\<close>, in which every operation is shown to keep an invariant.
    \<open>Threads\<close> (\<^verbatim>\<open>mt_adaptor.c\<close>): a turn of the I/O thread, and what each call does to the references of a handle. \<open>Closing\<close>: the
    interleaving of the application, the I/O thread and the completion thread, as a step relation on single accesses to the reference counter and to
    \<^verbatim>\<open>close_requested\<close>; a close from a callback is one of its steps.
  \<^item> \<open>Served\<close>: synchronous calls in sequence against a server that answers by transaction number. \<open>Zookbag\<close>
    (\<^verbatim>\<open>ZOOK_MS/zookbag.cpp\<close>) and \<open>Election\<close> (\<^verbatim>\<open>ZOOK_MS/MyApp.cpp\<close>, \<^verbatim>\<open>test.cpp\<close>): the wrapper class and the election loops.

  \<^bold>\<open>Conventions.\<close> A structure of C is a record whose fields have a prefix, an \<^verbatim>\<open>int\<close> of the wire is a word of 32 bits, other integers are \<open>int\<close> with the
  wrap-around written out. A function that changes the handle takes the \<open>client\<close> as its last argument and returns it. The result \<open>None\<close> is
  undefined behaviour (a read or write outside a block, a null pointer, signed overflow, a failing assertion) or a call that does not
  return; where the code is meant to return, that is a theorem. Pointers that may be null are options. Exceptions of C++ are \<open>Inl\<close>. The
  calls of user functions are recorded in \<open>w_calls\<close>; a callback that calls back into the library while it runs is modelled only for
  \<^verbatim>\<open>zookeeper_close\<close>, in \<open>Closing\<close>. What the system, the
  resolver, random numbers and other threads do are parameters: the record \<open>os\<close> asked with a count of calls, the arguments \<open>run\<close>, \<open>others\<close>
  and \<open>rest\<close>, the record \<open>platform\<close>. The ZooKeeper server is not part of the repository and only appears as the packets it sends.

  \<^bold>\<open>What the theorems show.\<close> Bytes: packets are reassembled from any splitting of the stream, a flush never loses or reorders a byte, readers undo
  writers, and whatever the server sends, decoding reads no further than the block or, because of the length that \<^verbatim>\<open>zookeeper_process\<close>
  passes, four bytes behind it. Requests: each accepted call adds one entry and one frame with the same number; a refused one
  changes nothing else; a closing handle turns away all but an authentication; replies are answered in order, once, with the record they encode; a reply out of order or a loss of the connection answers every
  request with the error. Session: the handshake, expiry, watches set again, pings and the receive timeout. Servers: the split of a new list by IP
  address, a server that is removed and kept, and that every server is tried. Threads: the counter is the number of references held until the handle is
  freed, no thread is left then but for the log line of the thread that closed it, and a close comes to its end; all this outside a race that is
  exhibited too. Election: the race is decided by the reply to one create request; the standby
  deletes its node and stops when the primary appears; without a connection it stops by its clock; and three ways in which it goes wrong.
  Theorems about a server assume replies that decode; an existing one is exhibited by each witness.

  \<^bold>\<open>Bounds.\<close> \<open>good_host\<close> is an allocator that grants up to one gigabyte. Requests are bounded by \<open>OA_MAX\<close>, \<open>2 ^ 27\<close> bytes, below which the doubling of the
  archive cannot overflow; paths and data have bounds that keep them below it. Server lists have at most \<open>2 ^ 20\<close>
  addresses. Loops are recursive on their lists, or \<open>partial_function\<close> with a proof that they return (\<open>flush_loop\<close>, \<open>grow_len\<close>, \<open>work\<close> under the
  hypotheses of \<open>cut_off_master_stops\<close>); \<open>run\<close> ends only when told to and has no such proof. No fuel is used.

  \<^bold>\<open>Not modelled.\<close> Mutexes, and races on other fields than the reference counter and \<^verbatim>\<open>close_requested\<close>: the operations on the handle run
  one after the other, so that nothing is said about \<^verbatim>\<open>outstanding_sync\<close>, which the threaded library decrements outside of every lock; the contents of the
  wake-up pipe and \<^verbatim>\<open>io_count\<close>;
  log lines, \<^verbatim>\<open>log_env\<close>, \<^verbatim>\<open>zoo_get_current_server\<close> and the other functions that only make text for logs; socket options; the seed of
  \<^verbatim>\<open>setup_random\<close>, which is part of the random numbers; freeing of memory, except where a use after it is possible; the Windows branches and
  \<^verbatim>\<open>winport.c\<close>, which emulate POSIX; \<^verbatim>\<open>cli.c\<close> and \<^verbatim>\<open>load_gen.c\<close>, front ends that read commands and print; the tests; the log files of the
  election program and the place in the source that its exceptions carry.
\<close>

end
